(* ===== verification/Prelude.thy ===== *)
theory Prelude
  imports Complex_Main
begin

text \<open>
  Shared vocabulary of the development.

  \<^item> Fallible, state-passing operations.  A Go function that works on the database and may
    return an error is a function from a state to an error (\<open>Inl\<close>) or a result with the new state
    (\<open>Inr\<close>).  \<open>bindE\<close> is sequencing with early return, \<open>forE\<close> the \<open>for ... range\<close> loop whose body
    may return early, \<open>mapErr\<close> the wrapping of an error by \<open>fmt.Errorf\<close>, \<open>runTx\<close> a database
    transaction that commits on success and rolls back on error.
  \<^item> \<open>triple\<close>: partial correctness of such an operation, with one rule per combinator, so that
    invariants and frame conditions are proved by rule application.
  \<^item> Tables as lists of rows in insertion order, with the SQL statements the repositories use.
  \<^item> Decimal rendering of natural numbers.
\<close>

section \<open>Operations with errors and state\<close>

named_theorems opE_simps \<open>when a composed operation returns\<close>
named_theorems tripleI \<open>introduction rules for triples\<close>

definition returnE :: "'a \<Rightarrow> 's \<Rightarrow> 'e + ('a \<times> 's)" where
  "returnE a s = Inr (a, s)"

definition failE :: "'e \<Rightarrow> 's \<Rightarrow> 'e + ('a \<times> 's)" where
  "failE e s = Inl e"

definition bindE :: "('s \<Rightarrow> 'e + ('a \<times> 's)) \<Rightarrow> ('a \<Rightarrow> 's \<Rightarrow> 'e + ('b \<times> 's)) \<Rightarrow> 's \<Rightarrow> 'e + ('b \<times> 's)" where
  "bindE m f s = (case m s of Inl e \<Rightarrow> Inl e | Inr (a, s') \<Rightarrow> f a s')"

definition thenE :: "('s \<Rightarrow> 'e + ('a \<times> 's)) \<Rightarrow> ('s \<Rightarrow> 'e + ('b \<times> 's)) \<Rightarrow> 's \<Rightarrow> 'e + ('b \<times> 's)" where
  "thenE m k = bindE m (\<lambda>_. k)"

definition mapErr :: "('e \<Rightarrow> 'e) \<Rightarrow> ('s \<Rightarrow> 'e + ('a \<times> 's)) \<Rightarrow> 's \<Rightarrow> 'e + ('a \<times> 's)" where
  "mapErr w m s = (case m s of Inl e \<Rightarrow> Inl (w e) | Inr r \<Rightarrow> Inr r)"

definition readE :: "('s \<Rightarrow> 'a) \<Rightarrow> 's \<Rightarrow> 'e + ('a \<times> 's)" where
  "readE f s = Inr (f s, s)"

definition modifyE :: "('s \<Rightarrow> 's) \<Rightarrow> 's \<Rightarrow> 'e + (unit \<times> 's)" where
  "modifyE f s = Inr ((), f s)"

definition liftE :: "'e + 'a \<Rightarrow> 's \<Rightarrow> 'e + ('a \<times> 's)" where
  "liftE r s = (case r of Inl e \<Rightarrow> Inl e | Inr a \<Rightarrow> Inr (a, s))"

definition assertE :: "bool \<Rightarrow> 'e \<Rightarrow> 's \<Rightarrow> 'e + (unit \<times> 's)" where
  "assertE b e s = (if b then Inr ((), s) else Inl e)"

definition whenE :: "bool \<Rightarrow> ('s \<Rightarrow> 'e + (unit \<times> 's)) \<Rightarrow> 's \<Rightarrow> 'e + (unit \<times> 's)" where
  "whenE b m = (if b then m else returnE ())"

primrec forE :: "('a \<Rightarrow> 's \<Rightarrow> 'e + ('b \<times> 's)) \<Rightarrow> 'a list \<Rightarrow> 's \<Rightarrow> 'e + ('b list \<times> 's)" where
  "forE f [] = returnE []"
| "forE f (x # xs) = bindE (f x) (\<lambda>y. bindE (forE f xs) (\<lambda>ys. returnE (y # ys)))"

text \<open>The loop that carries an accumulator.\<close>

primrec foldE :: "('a \<Rightarrow> 'b \<Rightarrow> 's \<Rightarrow> 'e + ('b \<times> 's)) \<Rightarrow> 'a list \<Rightarrow> 'b \<Rightarrow> 's \<Rightarrow> 'e + ('b \<times> 's)" where
  "foldE f [] = (\<lambda>acc. returnE acc)"
| "foldE f (x # xs) = (\<lambda>acc. bindE (f x acc) (foldE f xs))"

text \<open>A read that may fail.\<close>

definition queryE :: "('s \<Rightarrow> 'e + 'a) \<Rightarrow> 's \<Rightarrow> 'e + ('a \<times> 's)" where
  "queryE f = bindE (readE f) liftE"

text \<open>A transaction: the state is kept when the body returns an error.\<close>

definition runTx :: "('s \<Rightarrow> 'e + ('a \<times> 's)) \<Rightarrow> 's \<Rightarrow> ('e + 'a) \<times> 's" where
  "runTx m s = (case m s of Inl e \<Rightarrow> (Inl e, s) | Inr (a, s') \<Rightarrow> (Inr a, s'))"

subsection \<open>When an operation returns, when it fails\<close>

lemma returnE_Inr [simp, opE_simps]: "returnE a s = Inr r \<longleftrightarrow> r = (a, s)"
  by (auto simp: returnE_def)

lemma returnE_Inl [simp]: "returnE a s \<noteq> Inl e"
  by (simp add: returnE_def)

lemma failE_Inr [simp]: "failE e s \<noteq> Inr r"
  by (simp add: failE_def)

lemma failE_Inl [simp, opE_simps]: "failE e s = Inl e' \<longleftrightarrow> e' = e"
  by (auto simp: failE_def)

lemma bindE_Inr [opE_simps]: "bindE m f s = Inr r \<longleftrightarrow> (\<exists>a s'. m s = Inr (a, s') \<and> f a s' = Inr r)"
  by (auto simp: bindE_def split: sum.splits prod.splits)

lemma bindE_Inl [opE_simps]:
  "bindE m f s = Inl e \<longleftrightarrow> m s = Inl e \<or> (\<exists>a s'. m s = Inr (a, s') \<and> f a s' = Inl e)"
  by (auto simp: bindE_def split: sum.splits prod.splits)

lemma bindE_returns [simp]: "m s = Inr (a, s') \<Longrightarrow> bindE m f s = f a s'"
  by (simp add: bindE_def)

lemma bindE_fails [simp]: "m s = Inl e \<Longrightarrow> bindE m f s = Inl e"
  by (simp add: bindE_def)

lemma thenE_Inr [opE_simps]: "thenE m k s = Inr r \<longleftrightarrow> (\<exists>a s'. m s = Inr (a, s') \<and> k s' = Inr r)"
  by (simp add: thenE_def bindE_Inr)

lemma thenE_Inl [opE_simps]:
  "thenE m k s = Inl e \<longleftrightarrow> m s = Inl e \<or> (\<exists>a s'. m s = Inr (a, s') \<and> k s' = Inl e)"
  by (simp add: thenE_def bindE_Inl)

lemma mapErr_Inr [simp, opE_simps]: "mapErr w m s = Inr r \<longleftrightarrow> m s = Inr r"
  by (auto simp: mapErr_def split: sum.splits)

lemma mapErr_Inl [opE_simps]: "mapErr w m s = Inl e \<longleftrightarrow> (\<exists>e'. m s = Inl e' \<and> e = w e')"
  by (auto simp: mapErr_def split: sum.splits)

lemma readE_Inr [simp, opE_simps]: "readE f s = Inr r \<longleftrightarrow> r = (f s, s)"
  by (auto simp: readE_def)

lemma readE_Inl [simp]: "readE f s \<noteq> Inl e"
  by (simp add: readE_def)

lemma bindE_readE [simp]: "bindE (readE f) k s = k (f s) s"
  by (simp add: bindE_def readE_def)

lemma modifyE_Inr [simp, opE_simps]: "modifyE f s = Inr r \<longleftrightarrow> r = ((), f s)"
  by (auto simp: modifyE_def)

lemma modifyE_Inl [simp]: "modifyE f s \<noteq> Inl e"
  by (simp add: modifyE_def)

lemma liftE_Inr [opE_simps]: "liftE r s = Inr (a, s') \<longleftrightarrow> r = Inr a \<and> s' = s"
  by (auto simp: liftE_def split: sum.splits)

lemma liftE_Inl [opE_simps]: "liftE r s = Inl e \<longleftrightarrow> r = Inl e"
  by (auto simp: liftE_def split: sum.splits)

lemma liftE_simps [simp]: "liftE (Inl e) s = Inl e" "liftE (Inr a) s = Inr (a, s)"
  by (simp_all add: liftE_def)

lemma assertE_Inr [simp, opE_simps]: "assertE b e s = Inr r \<longleftrightarrow> b \<and> r = ((), s)"
  by (auto simp: assertE_def)

lemma assertE_Inl [simp, opE_simps]: "assertE b e s = Inl e' \<longleftrightarrow> \<not> b \<and> e' = e"
  by (auto simp: assertE_def)

lemma whenE_Inr [opE_simps]:
  "whenE b m s = Inr r \<longleftrightarrow> (if b then m s = Inr r else r = ((), s))"
  by (auto simp: whenE_def)

lemma whenE_Inl [opE_simps]: "whenE b m s = Inl e \<longleftrightarrow> b \<and> m s = Inl e"
  by (auto simp: whenE_def)

lemma forE_Cons_Inr [opE_simps]:
  "forE f (x # xs) s = Inr (r, s'') \<longleftrightarrow>
     (\<exists>y s' ys. f x s = Inr (y, s') \<and> forE f xs s' = Inr (ys, s'') \<and> r = y # ys)"
  by (auto simp: bindE_Inr)

lemma foldE_Nil_Inr [simp]: "foldE f [] acc s = Inr (r, s') \<longleftrightarrow> r = acc \<and> s' = s"
  by (auto simp: returnE_def)

lemma foldE_Cons_Inr [opE_simps]:
  "foldE f (x # xs) acc s = Inr (r, s'') \<longleftrightarrow> (\<exists>acc' s'. f x acc s = Inr (acc', s') \<and> foldE f xs acc' s' = Inr (r, s''))"
  by (simp add: bindE_Inr)

lemma forE_length: "forE f xs s = Inr (ys, s') \<Longrightarrow> length ys = length xs"
  by (induction xs arbitrary: s ys) (auto simp: bindE_Inr)

lemma forE_append_Inr:
  "forE f (xs @ ys) s = Inr (r, s'') \<longleftrightarrow>
     (\<exists>r1 s' r2. forE f xs s = Inr (r1, s') \<and> forE f ys s' = Inr (r2, s'') \<and> r = r1 @ r2)"
proof (induction xs arbitrary: s r)
  case Nil
  show ?case by (simp add: returnE_def)
next
  case (Cons x xs)
  show ?case by (simp add: bindE_Inr Cons.IH) (metis append_Cons)
qed

lemma queryE_Inr [opE_simps]: "queryE f s = Inr (a, s') \<longleftrightarrow> f s = Inr a \<and> s' = s"
  by (simp add: queryE_def liftE_Inr)

lemma queryE_Inl [opE_simps]: "queryE f s = Inl e \<longleftrightarrow> f s = Inl e"
  by (simp add: queryE_def liftE_Inl)

text \<open>Checks in front of an operation.\<close>

lemma thenE_liftE_Inr: "thenE (liftE r) k s = Inr x \<longleftrightarrow> r = Inr () \<and> k s = Inr x"
  by (auto simp: thenE_def bindE_def liftE_def split: sum.splits)

lemma thenE_queryE_Inr: "thenE (queryE f) k s = Inr x \<longleftrightarrow> f s = Inr () \<and> k s = Inr x"
  by (auto simp: queryE_def thenE_def bindE_def liftE_def readE_def split: sum.splits)

lemma bindE_liftE_Inr: "bindE (liftE r) k s = Inr x \<longleftrightarrow> (\<exists>a. r = Inr a \<and> k a s = Inr x)"
  by (auto simp: bindE_def liftE_def split: sum.splits)

lemma bindE_mapErr_Inr: "bindE (mapErr w m) k s = Inr x \<longleftrightarrow> (\<exists>a s'. m s = Inr (a, s') \<and> k a s' = Inr x)"
  by (auto simp: bindE_Inr)

lemma if_failE_Inr: "(if b then failE e else m) s = Inr x \<longleftrightarrow> \<not> b \<and> m s = Inr x"
  by simp

lemmas guard_simps = thenE_liftE_Inr thenE_queryE_Inr bindE_liftE_Inr bindE_mapErr_Inr if_failE_Inr

lemma runTx_Inl_iff: "fst (runTx m s) = Inl e \<longleftrightarrow> m s = Inl e"
  by (auto simp: runTx_def split: sum.splits prod.splits)

text \<open>Atomicity: a transaction that reports an error has changed nothing.\<close>

lemma runTx_atomic: "runTx m s = (Inl e, s') \<Longrightarrow> s' = s"
  by (auto simp: runTx_def split: sum.splits prod.splits)

lemma runTx_Inr [simp]: "runTx m s = (Inr a, s') \<longleftrightarrow> m s = Inr (a, s')"
  by (auto simp: runTx_def split: sum.splits prod.splits)

lemma runTx_fail [simp]: "m s = Inl e \<Longrightarrow> runTx m s = (Inl e, s)"
  by (simp add: runTx_def)

subsection \<open>Triples\<close>

definition triple :: "('s \<Rightarrow> bool) \<Rightarrow> ('s \<Rightarrow> 'e + ('a \<times> 's)) \<Rightarrow> ('a \<Rightarrow> 's \<Rightarrow> bool) \<Rightarrow> bool" where
  "triple P m Q \<longleftrightarrow> (\<forall>s a s'. P s \<longrightarrow> m s = Inr (a, s') \<longrightarrow> Q a s')"

lemma tripleD: "triple P m Q \<Longrightarrow> P s \<Longrightarrow> m s = Inr (a, s') \<Longrightarrow> Q a s'"
  by (simp add: triple_def)

lemma triple_consequence:
  "triple P m Q \<Longrightarrow> (\<And>s. P' s \<Longrightarrow> P s) \<Longrightarrow> (\<And>a s. Q a s \<Longrightarrow> Q' a s) \<Longrightarrow> triple P' m Q'"
  unfolding triple_def by blast

text \<open>An invariant is preserved whatever the operation returns.\<close>

abbreviation preserves :: "('s \<Rightarrow> bool) \<Rightarrow> ('s \<Rightarrow> 'e + ('a \<times> 's)) \<Rightarrow> bool" where
  "preserves I m \<equiv> triple I m (\<lambda>_. I)"

lemma preserves_returnE [tripleI]: "preserves I (returnE a)"
  by (simp add: triple_def)

lemma preserves_failE [tripleI]: "preserves I (failE e)"
  by (simp add: triple_def)

lemma preserves_readE [tripleI]: "preserves I (readE f)"
  by (simp add: triple_def)

lemma preserves_liftE [tripleI]: "preserves I (liftE r)"
  by (auto simp: triple_def liftE_def split: sum.splits)

lemma preserves_queryE [tripleI]: "preserves I (queryE f)"
  by (auto simp: triple_def queryE_Inr)

lemma preserves_assertE [tripleI]: "preserves I (assertE b e)"
  by (simp add: triple_def)

lemma preserves_bindE [tripleI]:
  "preserves I m \<Longrightarrow> (\<And>a. preserves I (f a)) \<Longrightarrow> preserves I (bindE m f)"
  unfolding triple_def bindE_Inr by blast

lemma preserves_thenE [tripleI]:
  "preserves I m \<Longrightarrow> preserves I k \<Longrightarrow> preserves I (thenE m k)"
  unfolding triple_def thenE_Inr by blast

lemma preserves_mapErr [tripleI]: "preserves I m \<Longrightarrow> preserves I (mapErr w m)"
  by (simp add: triple_def)

lemma preserves_whenE [tripleI]: "(b \<Longrightarrow> preserves I m) \<Longrightarrow> preserves I (whenE b m)"
  by (auto simp: triple_def whenE_Inr split: if_splits)

lemma preserves_modifyE [tripleI]: "(\<And>s. I s \<Longrightarrow> I (f s)) \<Longrightarrow> preserves I (modifyE f)"
  by (simp add: triple_def)

lemma preserves_if [tripleI]:
  "(b \<Longrightarrow> preserves I m) \<Longrightarrow> (\<not> b \<Longrightarrow> preserves I n) \<Longrightarrow> preserves I (if b then m else n)"
  by simp

lemma preserves_case_option [tripleI]:
  "preserves I m \<Longrightarrow> (\<And>a. preserves I (f a)) \<Longrightarrow> preserves I (case x of None \<Rightarrow> m | Some a \<Rightarrow> f a)"
  by (cases x) auto

lemma preserves_case_prod [tripleI]:
  "(\<And>a b. preserves I (f a b)) \<Longrightarrow> preserves I (case x of (a, b) \<Rightarrow> f a b)"
  by (cases x) auto

lemma preserves_Let [tripleI]: "(\<And>v. preserves I (f v)) \<Longrightarrow> preserves I (let v = x in f v)"
  by simp

lemma preserves_forE [tripleI]:
  assumes "\<And>x. x \<in> set xs \<Longrightarrow> preserves I (f x)"
  shows "preserves I (forE f xs)"
  using assms
  by (induction xs) (auto intro!: preserves_returnE preserves_bindE)

text \<open>A frame: the operation does not touch the part of the state that \<open>p\<close> projects.\<close>

definition untouched :: "('s \<Rightarrow> 'p) \<Rightarrow> ('s \<Rightarrow> 'e + ('a \<times> 's)) \<Rightarrow> bool" where
  "untouched p m \<longleftrightarrow> (\<forall>v. preserves (\<lambda>s. p s = v) m)"

lemma untouchedI: "(\<And>v. preserves (\<lambda>s. p s = v) m) \<Longrightarrow> untouched p m"
  by (simp add: untouched_def)

lemma untouchedD: "untouched p m \<Longrightarrow> m s = Inr (a, s') \<Longrightarrow> p s' = p s"
  by (simp add: untouched_def triple_def)

lemma untouched_preserves: "untouched p m \<Longrightarrow> preserves (\<lambda>s. p s = v) m"
  by (simp add: untouched_def)

section \<open>Tables\<close>

text \<open>\<open>UPDATE ... WHERE\<close>, \<open>INSERT ... ON CONFLICT DO UPDATE\<close> and \<open>SELECT ... LIMIT 1\<close> on a list of rows.\<close>

definition update_where :: "('r \<Rightarrow> bool) \<Rightarrow> ('r \<Rightarrow> 'r) \<Rightarrow> 'r list \<Rightarrow> 'r list" where
  "update_where p f rows = map (\<lambda>r. if p r then f r else r) rows"

definition upsert :: "('r \<Rightarrow> bool) \<Rightarrow> ('r \<Rightarrow> 'r) \<Rightarrow> 'r \<Rightarrow> 'r list \<Rightarrow> 'r list" where
  "upsert p f r rows = (if list_ex p rows then update_where p f rows else rows @ [r])"

lemma list_ex_upsert:
  assumes "\<And>x. q (f x) = q x"
  shows "list_ex q (upsert p f r rows) \<longleftrightarrow> list_ex q rows \<or> (q r \<and> \<not> list_ex p rows)"
  using assms by (auto simp: upsert_def update_where_def list_ex_iff)

lemma find_update_where_same:
  "(\<And>r. q (f r) = q r) \<Longrightarrow>
   List.find q (update_where p f rows) = map_option (\<lambda>r. if p r then f r else r) (List.find q rows)"
  by (induction rows) (auto simp: update_where_def)

lemma find_update_where_other:
  "(\<And>r. p r \<Longrightarrow> \<not> q r) \<Longrightarrow> (\<And>r. p r \<Longrightarrow> \<not> q (f r)) \<Longrightarrow>
   List.find q (update_where p f rows) = List.find q rows"
  by (induction rows) (auto simp: update_where_def)

lemma find_append: "List.find p (xs @ ys) = (case List.find p xs of None \<Rightarrow> List.find p ys | Some x \<Rightarrow> Some x)"
  by (induction xs) auto

lemma find_Some_P: "List.find p xs = Some x \<Longrightarrow> p x \<and> x \<in> set xs"
  by (induction xs) (auto split: if_splits)

lemma find_None_list_ex: "List.find p xs = None \<longleftrightarrow> \<not> list_ex p xs"
  by (induction xs) auto

lemma find_upsert_same:
  assumes "p r" "\<And>x. p x \<Longrightarrow> p (f x)"
  shows "List.find p (upsert p f r rows) =
           Some (case List.find p rows of None \<Rightarrow> r | Some x \<Rightarrow> f x)"
proof (cases "list_ex p rows")
  case True
  then have "List.find p (update_where p f rows) = Some (case List.find p rows of None \<Rightarrow> r | Some x \<Rightarrow> f x)"
    using assms(2) by (induction rows) (auto simp: update_where_def)
  then show ?thesis using True by (simp add: upsert_def)
next
  case False
  then have "List.find p rows = None" by (simp add: find_None_list_ex)
  then show ?thesis using False assms(1) by (simp add: upsert_def find_append)
qed

lemma find_upsert_other:
  assumes "\<not> q r" "\<And>x. p x \<Longrightarrow> \<not> q x" "\<And>x. p x \<Longrightarrow> \<not> q (f x)"
  shows "List.find q (upsert p f r rows) = List.find q rows"
proof (cases "list_ex p rows")
  case True
  then show ?thesis using assms by (simp add: upsert_def find_update_where_other)
next
  case False
  then show ?thesis using assms by (simp add: upsert_def find_append split: option.split)
qed

lemma map_update_where_key: "(\<And>r. k (f r) = k r) \<Longrightarrow> map k (update_where p f rows) = map k rows"
  by (simp add: update_where_def)

lemma list_all2_left: "list_all2 P xs ys \<Longrightarrow> y \<in> set ys \<Longrightarrow> \<exists>x \<in> set xs. P x y"
  by (induction rule: list_all2_induct) auto

lemma list_all2_right: "list_all2 P xs ys \<Longrightarrow> x \<in> set xs \<Longrightarrow> \<exists>y \<in> set ys. P x y"
  by (induction rule: list_all2_induct) auto

lemma length_update_where [simp]: "length (update_where p f rows) = length rows"
  by (simp add: update_where_def)

lemma set_update_whereD:
  "x \<in> set (update_where p f rows) \<Longrightarrow> (\<exists>r \<in> set rows. (p r \<and> x = f r) \<or> (\<not> p r \<and> x = r))"
  by (auto simp: update_where_def split: if_splits)

section \<open>Sums over lists\<close>

lemma sum_list_map_filter_split:
  "sum_list (map f xs) = sum_list (map f (filter p xs)) + sum_list (map f (filter (\<lambda>x. \<not> p x) xs))"
  for f :: "'a \<Rightarrow> 'b::comm_monoid_add"
  by (induction xs) (auto simp: algebra_simps)

lemma sum_list_nonneg_map: "(\<And>x. x \<in> set xs \<Longrightarrow> 0 \<le> f x) \<Longrightarrow> 0 \<le> sum_list (map f xs)"
  for f :: "'a \<Rightarrow> 'b::ordered_comm_monoid_add"
  by (rule sum_list_nonneg) auto

lemma sum_list_map_zero: "(\<And>x. x \<in> set xs \<Longrightarrow> f x = 0) \<Longrightarrow> sum_list (map f xs) = 0"
  for f :: "'a \<Rightarrow> 'b::comm_monoid_add"
  by (induction xs) auto

lemma distinct_map_unique:
  "distinct (map f xs) \<Longrightarrow> x \<in> set xs \<Longrightarrow> y \<in> set xs \<Longrightarrow> f x = f y \<Longrightarrow> x = y"
  by (auto simp: distinct_map inj_on_def)

section \<open>Decimal digits\<close>

definition digit_char :: "nat \<Rightarrow> char" where
  "digit_char d = char_of (48 + d)"

definition char_digit :: "char \<Rightarrow> nat option" where
  "char_digit c = (let n = of_char c :: nat in if 48 \<le> n \<and> n \<le> 57 then Some (n - 48) else None)"

fun nat_string :: "nat \<Rightarrow> string" where
  "nat_string n = (if n < 10 then [digit_char n] else nat_string (n div 10) @ [digit_char (n mod 10)])"

declare nat_string.simps [simp del]

fun parse_digits :: "nat \<Rightarrow> string \<Rightarrow> nat option" where
  "parse_digits acc [] = Some acc"
| "parse_digits acc (c # cs) = (case char_digit c of None \<Rightarrow> None | Some d \<Rightarrow> parse_digits (10 * acc + d) cs)"

lemma char_digit_digit_char [simp]: "d < 10 \<Longrightarrow> char_digit (digit_char d) = Some d"
  by (simp add: char_digit_def digit_char_def)

lemma parse_digits_append:
  "parse_digits a (xs @ ys) = (case parse_digits a xs of None \<Rightarrow> None | Some b \<Rightarrow> parse_digits b ys)"
  by (induction xs arbitrary: a) (auto split: option.splits)

lemma nat_string_not_Nil [simp]: "nat_string n \<noteq> []"
  by (subst nat_string.simps) simp

lemma parse_nat_string: "parse_digits 0 (nat_string n) = Some n"
proof (induction n rule: nat_string.induct)
  case (1 n)
  show ?case
  proof (cases "n < 10")
    case True
    then show ?thesis by (subst nat_string.simps) simp
  next
    case False
    then show ?thesis using 1 by (subst nat_string.simps) (simp add: parse_digits_append)
  qed
qed

lemma nat_string_inj: "nat_string m = nat_string n \<Longrightarrow> m = n"
  using parse_nat_string by (metis option.inject)

end
