(* ===== verification/Runtime.thy ===== *)
theory Runtime
  imports Prelude
begin

text \<open>
  What the program takes from outside its own sources: the decimal library
  (\<open>shopspring/decimal\<close>), the column types of PostgreSQL, UUID generation and the clock.

  A \<open>decimal.Decimal\<close> is its value, a rational number; addition, subtraction, multiplication
  and comparison of the library are exact, so they are the operations of \<open>rat\<close>.  Everything
  that rounds or renders is a field of the record \<open>env\<close>, an argument of the definitions that
  use it, and what the program may rely on is the locale \<open>runtime_env\<close>:

  \<^item> \<open>Round(n)\<close>, \<open>Div\<close> (to 16 places) and the assignment to a \<open>NUMERIC(_, s)\<close> column return a
    nearest number of the decimal grid;
  \<^item> \<open>StringFixed(n)\<close> renders an amount for a remark; nothing is assumed of it;
  \<^item> \<open>NewFromString\<close> inverts \<open>String\<close> on decimal fractions;
  \<^item> \<open>uuid.New\<close> never repeats an id and never returns \<open>uuid.Nil\<close>.

  \<open>std_env\<close> is an executable instance (rounding half away from zero), on which the locale is
  interpreted.
\<close>

type_synonym uuid = nat
type_synonym gotime = int

abbreviation (input) uuid_Nil :: uuid where "uuid_Nil \<equiv> 0"

record env =
  ddiv :: "rat \<Rightarrow> rat \<Rightarrow> rat"
  dround :: "nat \<Rightarrow> rat \<Rightarrow> rat"
  numeric :: "nat \<Rightarrow> rat \<Rightarrow> rat"
  dec_string :: "rat \<Rightarrow> string"
  dec_fixed :: "nat \<Rightarrow> rat \<Rightarrow> string"
  dec_parse :: "string \<Rightarrow> rat option"
  new_uuid :: "nat \<Rightarrow> uuid"
  uuid_string :: "uuid \<Rightarrow> string"
  uuid_Parse :: "string \<Rightarrow> uuid option"
  now :: gotime

text \<open>The characters of \<open>uuid.UUID.String()\<close>.\<close>

definition uuid_chars :: string where "uuid_chars = ''0123456789abcdef-''"

section \<open>The decimal grid\<close>

definition on_grid :: "nat \<Rightarrow> rat \<Rightarrow> bool" where
  "on_grid n x \<longleftrightarrow> of_int \<lfloor>x * 10 ^ n\<rfloor> = x * 10 ^ n"

lemma on_gridI: "x * 10 ^ n = of_int k \<Longrightarrow> on_grid n x"
  by (simp add: on_grid_def)

lemma on_gridE:
  assumes "on_grid n x"
  obtains k where "x * 10 ^ n = of_int k"
  using assms unfolding on_grid_def by metis

lemma on_grid_add [intro]: "on_grid n x \<Longrightarrow> on_grid n y \<Longrightarrow> on_grid n (x + y)"
  by (elim on_gridE) (rule on_gridI [of _ _ "_ + _"], simp add: algebra_simps)

lemma on_grid_uminus [intro]: "on_grid n x \<Longrightarrow> on_grid n (- x)"
  by (elim on_gridE) (rule on_gridI [of _ _ "- _"], simp)

lemma on_grid_diff [intro]: "on_grid n x \<Longrightarrow> on_grid n y \<Longrightarrow> on_grid n (x - y)"
  using on_grid_add [of n x "- y"] by auto

lemma on_grid_0 [simp, intro]: "on_grid n 0"
  by (simp add: on_grid_def)

lemma on_grid_of_int [simp, intro]: "on_grid n (of_int k)"
  by (rule on_gridI [of _ _ "k * 10 ^ n"]) simp

lemma on_grid_numeral [simp, intro]: "on_grid n (numeral k)" "on_grid n 1"
  using on_grid_of_int [of n "numeral k"] on_grid_of_int [of n 1] by simp_all

lemma on_grid_max [intro]: "on_grid n x \<Longrightarrow> on_grid n y \<Longrightarrow> on_grid n (max x y)"
  by (simp add: max_def)

lemma on_grid_min [intro]: "on_grid n x \<Longrightarrow> on_grid n y \<Longrightarrow> on_grid n (min x y)"
  by (simp add: min_def)

lemma on_grid_mono:
  assumes "on_grid n x" "n \<le> m"
  shows "on_grid m x"
proof -
  obtain k where k: "x * 10 ^ n = of_int k" using assms(1) by (rule on_gridE)
  have "x * 10 ^ m = x * 10 ^ n * 10 ^ (m - n)"
    using assms(2) by (simp add: power_add [symmetric])
  then have "x * 10 ^ m = of_int (k * 10 ^ (m - n))" by (simp add: k)
  then show ?thesis by (rule on_gridI)
qed

lemma on_grid_mult: "on_grid n x \<Longrightarrow> on_grid m y \<Longrightarrow> on_grid (n + m) (x * y)"
proof (elim on_gridE)
  fix k l assume "x * 10 ^ n = of_int k" "y * 10 ^ m = of_int l"
  then have "x * y * 10 ^ (n + m) = of_int (k * l)"
    by (metis (no_types, opaque_lifting) mult.assoc mult.left_commute of_int_mult power_add)
  then show ?thesis by (rule on_gridI)
qed

lemma on_grid_sum_list: "(\<And>x. x \<in> set xs \<Longrightarrow> on_grid n x) \<Longrightarrow> on_grid n (sum_list xs)"
  by (induction xs) auto

lemma on_grid_close_eq:
  assumes "on_grid n x" "on_grid n y" "\<bar>x - y\<bar> < 1 / 10 ^ n"
  shows "x = y"
proof -
  obtain k l where kl: "x * 10 ^ n = of_int k" "y * 10 ^ n = of_int l"
    using assms(1,2) by (metis on_gridE)
  have "\<bar>x - y\<bar> * 10 ^ n < 1"
    using assms(3) by (simp add: pos_less_divide_eq)
  then have "\<bar>(x - y) * 10 ^ n\<bar> < 1"
    by (simp add: abs_mult)
  then have "\<bar>of_int (k - l)\<bar> < (1 :: rat)"
    by (simp add: left_diff_distrib kl)
  then have "\<bar>k - l\<bar> < 1" by linarith
  then have "k = l" by simp
  then have "x * 10 ^ n = y * 10 ^ n" using kl by simp
  then show ?thesis by simp
qed

section \<open>Rounding to the grid\<close>

lemma half_unit: "1 / (2 * 10 ^ n) + 1 / (2 * 10 ^ n) = (1 / 10 ^ n :: rat)" "0 < (1 / (2 * 10 ^ n) :: rat)"
  by simp_all

lemma grid_nearest_ge:
  assumes "on_grid n y" "on_grid n lo" "\<bar>y - x\<bar> \<le> 1 / (2 * 10 ^ n)" "lo \<le> x"
  shows "lo \<le> y"
proof (rule ccontr)
  assume less: "\<not> lo \<le> y"
  then have "\<bar>lo - y\<bar> < 1 / 10 ^ n"
    using assms(3,4) half_unit [of n] unfolding abs_less_iff abs_le_iff by linarith
  then have "lo = y" by (rule on_grid_close_eq [OF assms(2,1)])
  then show False using less by simp
qed

lemma grid_nearest_le:
  assumes "on_grid n y" "on_grid n hi" "\<bar>y - x\<bar> \<le> 1 / (2 * 10 ^ n)" "x \<le> hi"
  shows "y \<le> hi"
  using grid_nearest_ge [of n "- y" "- hi" "- x"] assms by (auto simp: abs_minus_commute)

text \<open>The one law of rounding the program relies on: the result is a nearest grid number.\<close>

locale decimal_rounding =
  fixes rnd :: "nat \<Rightarrow> rat \<Rightarrow> rat"
  assumes near: "\<bar>rnd n x - x\<bar> \<le> 1 / (2 * 10 ^ n)"
    and grid: "on_grid n (rnd n x)"
begin

lemma on_grid_fix: "on_grid n x \<Longrightarrow> rnd n x = x"
  by (rule on_grid_close_eq [OF grid]) (use near [of n x] half_unit [of n] in linarith)+

lemma zero [simp]: "rnd n 0 = 0"
  by (simp add: on_grid_fix)

lemma idem [simp]: "rnd n (rnd n x) = rnd n x"
  by (simp add: on_grid_fix grid)

lemma mono:
  assumes "x \<le> y"
  shows "rnd n x \<le> rnd n y"
proof (rule ccontr)
  assume less: "\<not> rnd n x \<le> rnd n y"
  then have "x < y" using assms by (cases "x = y") auto
  obtain k l where kl: "rnd n x * 10 ^ n = of_int k" "rnd n y * 10 ^ n = of_int l"
    by (metis grid on_gridE)
  have "rnd n y * 10 ^ n < rnd n x * 10 ^ n" using less by simp
  then have "l + 1 \<le> k" using kl by simp
  then have "of_int l + 1 \<le> (of_int k :: rat)" by (metis of_int_1 of_int_add of_int_le_iff)
  then have "1 \<le> (rnd n x - rnd n y) * 10 ^ n" by (simp add: left_diff_distrib kl)
  then have "1 / 10 ^ n \<le> rnd n x - rnd n y" by (simp add: field_simps)
  moreover have "rnd n x - x \<le> 1 / (2 * 10 ^ n)" "y - rnd n y \<le> 1 / (2 * 10 ^ n)"
    using near [of n x] near [of n y] by linarith+
  ultimately show False using \<open>x < y\<close> half_unit(1) [of n] by linarith
qed

lemma nonneg: "0 \<le> x \<Longrightarrow> 0 \<le> rnd n x"
  using mono [of 0 x n] by simp

lemma nonpos: "x \<le> 0 \<Longrightarrow> rnd n x \<le> 0"
  using mono [of x 0 n] by simp

lemma le_grid: "on_grid n y \<Longrightarrow> x \<le> y \<Longrightarrow> rnd n x \<le> y"
  using mono [of x y n] by (simp add: on_grid_fix)

lemma ge_grid: "on_grid n y \<Longrightarrow> y \<le> x \<Longrightarrow> y \<le> rnd n x"
  using mono [of y x n] by (simp add: on_grid_fix)

lemma upper: "rnd n x \<le> x + 1 / (2 * 10 ^ n)"
  using near [of n x] by linarith

lemma lower: "x - 1 / (2 * 10 ^ n) \<le> rnd n x"
  using near [of n x] by linarith

end

section \<open>The contract of the environment\<close>

locale runtime_env =
  dr: decimal_rounding "dround E" +
  num: decimal_rounding "numeric E"
  for E :: env +
  assumes ddiv_near: "b \<noteq> 0 \<Longrightarrow> \<bar>ddiv E a b - a / b\<bar> \<le> 1 / (2 * 10 ^ 16)"
    and ddiv_grid: "b \<noteq> 0 \<Longrightarrow> on_grid 16 (ddiv E a b)"
    and parse_string: "on_grid n x \<Longrightarrow> dec_parse E (dec_string E x) = Some x"
    and string_not_empty: "dec_string E x \<noteq> []"
    and parse_one: "dec_parse E ''1'' = Some 1"
    and new_uuid_inj: "new_uuid E i = new_uuid E j \<Longrightarrow> i = j"
    and new_uuid_not_nil: "new_uuid E i \<noteq> uuid_Nil"
    and uuid_Parse_string: "uuid_Parse E (uuid_string E u) = Some u"
    and uuid_string_chars: "list_all (\<lambda>c. c \<in> set uuid_chars) (uuid_string E u)"
    and uuid_string_not_empty: "uuid_string E u \<noteq> []"
begin

lemma uuid_string_inj: "uuid_string E u = uuid_string E v \<Longrightarrow> u = v"
  by (metis option.inject uuid_Parse_string)

lemma ddiv_nonneg: "0 \<le> a \<Longrightarrow> 0 < b \<Longrightarrow> 0 \<le> ddiv E a b"
  by (rule grid_nearest_ge [of 16 _ _ "a / b"]) (simp_all add: ddiv_grid ddiv_near del: power_numeral)

text \<open>\<open>a.Div(b).Round(n)\<close> is within half a unit of the last place, up to the error of the division.\<close>

lemma div_round_near:
  assumes "b \<noteq> 0"
  shows "\<bar>dround E n (ddiv E a b) - a / b\<bar> \<le> 1 / (2 * 10 ^ n) + 1 / (2 * 10 ^ 16)"
  using dr.near [of n "ddiv E a b"] ddiv_near [OF assms, of a] by linarith

lemma div_round_nonneg: "0 \<le> a \<Longrightarrow> 0 < b \<Longrightarrow> 0 \<le> dround E n (ddiv E a b)"
  by (rule dr.nonneg) (rule ddiv_nonneg)

lemma div_round_between:
  assumes b: "0 < b" and n: "n \<le> 16" and g: "on_grid n lo" "on_grid n hi"
    and lo: "lo * b \<le> a" and hi: "a \<le> hi * b"
  shows "lo \<le> dround E n (ddiv E a b)" "dround E n (ddiv E a b) \<le> hi"
proof -
  have q: "lo \<le> a / b" "a / b \<le> hi" using b lo hi by (simp_all add: field_simps)
  have g16: "on_grid 16 lo" "on_grid 16 hi" using g n by (auto intro: on_grid_mono)
  have near: "\<bar>ddiv E a b - a / b\<bar> \<le> 1 / (2 * 10 ^ 16)" using b ddiv_near by simp
  have dg: "on_grid 16 (ddiv E a b)" using b ddiv_grid by simp
  have "lo \<le> ddiv E a b" by (rule grid_nearest_ge [OF dg g16(1) near q(1)])
  then show "lo \<le> dround E n (ddiv E a b)" using g(1) by (rule dr.ge_grid [rotated])
  have "ddiv E a b \<le> hi" by (rule grid_nearest_le [OF dg g16(2) near q(2)])
  then show "dround E n (ddiv E a b) \<le> hi" using g(2) by (rule dr.le_grid [rotated])
qed

lemma dec_string_one:
  assumes "on_grid n x" "dec_string E x = ''1''"
  shows "x = 1"
  using parse_string [OF assms(1)] parse_one assms(2) by simp

end

text \<open>The contract as rules with the environment as an explicit premise.\<close>

lemma numeric_rounding: "runtime_env E \<Longrightarrow> decimal_rounding (numeric E)"
  by (rule runtime_env.axioms)

lemma dround_rounding: "runtime_env E \<Longrightarrow> decimal_rounding (dround E)"
  by (rule runtime_env.axioms)

lemmas numeric_fix = decimal_rounding.on_grid_fix [OF numeric_rounding]
  and numeric_grid = decimal_rounding.grid [OF numeric_rounding]
  and numeric_near = decimal_rounding.near [OF numeric_rounding]
  and numeric_nonneg = decimal_rounding.nonneg [OF numeric_rounding]
  and numeric_mono = decimal_rounding.mono [OF numeric_rounding]
  and numeric_zero = decimal_rounding.zero [OF numeric_rounding]
  and numeric_idem = decimal_rounding.idem [OF numeric_rounding]

lemmas dround_fix = decimal_rounding.on_grid_fix [OF dround_rounding]
  and dround_grid = decimal_rounding.grid [OF dround_rounding]
  and dround_near = decimal_rounding.near [OF dround_rounding]
  and dround_nonneg = decimal_rounding.nonneg [OF dround_rounding]
  and dround_mono = decimal_rounding.mono [OF dround_rounding]
  and dround_zero = decimal_rounding.zero [OF dround_rounding]

section \<open>An executable instance\<close>

definition round_half_away :: "nat \<Rightarrow> rat \<Rightarrow> rat" where
  "round_half_away n x =
     (if 0 \<le> x then of_int \<lfloor>x * 10 ^ n + 1 / 2\<rfloor> / 10 ^ n
      else - (of_int \<lfloor>- x * 10 ^ n + 1 / 2\<rfloor> / 10 ^ n))"

definition int_string :: "int \<Rightarrow> string" where
  "int_string k = (if k < 0 then CHR ''-'' # nat_string (nat (- k)) else nat_string (nat k))"

fun parse_int :: "string \<Rightarrow> int option" where
  "parse_int [] = None"
| "parse_int (c # cs) =
     (if c = CHR ''-'' then map_option (\<lambda>n. - int n) (parse_digits 0 cs)
      else map_option int (parse_digits 0 (c # cs)))"

fun split_slash :: "string \<Rightarrow> string \<times> string" where
  "split_slash [] = ([], [])"
| "split_slash (c # cs) = (if c = CHR ''/'' then ([], cs) else (let (a, b) = split_slash cs in (c # a, b)))"

text \<open>The instance renders an integer as such and any other value as a fraction.\<close>

definition std_string :: "rat \<Rightarrow> string" where
  "std_string x = (let (p, q) = quotient_of x in
     if q = 1 then int_string p else int_string p @ ''/'' @ int_string q)"

definition std_parse :: "string \<Rightarrow> rat option" where
  "std_parse s = (let (a, b) = split_slash s in
     case parse_int a of None \<Rightarrow> None
     | Some p \<Rightarrow> if b = [] then Some (of_int p)
                else (case parse_int b of None \<Rightarrow> None | Some q \<Rightarrow> Some (of_int p / of_int q)))"

definition std_env :: env where
  "std_env = \<lparr> ddiv = (\<lambda>a b. round_half_away 16 (a / b)), dround = round_half_away,
     numeric = round_half_away, dec_string = std_string,
     dec_fixed = (\<lambda>n x. std_string (round_half_away n x)), dec_parse = std_parse,
     new_uuid = (\<lambda>n. 1000 + n), uuid_string = nat_string, uuid_Parse = parse_digits 0, now = 63912506400000000000 \<rparr>"

lemma round_half_away_near: "\<bar>round_half_away n x - x\<bar> \<le> 1 / (2 * 10 ^ n)"
proof -
  have *: "\<bar>of_int \<lfloor>y * 10 ^ n + 1 / 2\<rfloor> / 10 ^ n - y\<bar> \<le> 1 / (2 * 10 ^ n)" for y :: rat
  proof -
    have "\<bar>of_int \<lfloor>y * 10 ^ n + 1 / 2\<rfloor> - y * 10 ^ n\<bar> \<le> (1 / 2 :: rat)" by linarith
    then have "\<bar>of_int \<lfloor>y * 10 ^ n + 1 / 2\<rfloor> - y * 10 ^ n\<bar> / 10 ^ n \<le> (1 / 2 :: rat) / 10 ^ n"
      by (rule divide_right_mono) simp
    moreover have "of_int \<lfloor>y * 10 ^ n + 1 / 2\<rfloor> / 10 ^ n - y = (of_int \<lfloor>y * 10 ^ n + 1 / 2\<rfloor> - y * 10 ^ n) / 10 ^ n"
      by (simp add: diff_divide_distrib)
    ultimately show ?thesis by (simp add: abs_divide)
  qed
  show ?thesis
  proof (cases "0 \<le> x")
    case True
    then show ?thesis using * [of x] by (simp add: round_half_away_def)
  next
    case False
    then show ?thesis using * [of "- x"] by (simp add: round_half_away_def abs_minus_commute algebra_simps)
  qed
qed

lemma round_half_away_grid: "on_grid n (round_half_away n x)"
proof (cases "0 \<le> x")
  case True
  then show ?thesis by (intro on_gridI) (simp add: round_half_away_def)
next
  case False
  then show ?thesis by (intro on_gridI [of _ _ "- _"]) (simp add: round_half_away_def)
qed

lemma nat_string_no_sign: "c \<in> set (nat_string n) \<Longrightarrow> char_digit c \<noteq> None"
proof (induction n rule: nat_string.induct)
  case (1 n)
  then show ?case by (subst (asm) nat_string.simps) (auto split: if_splits)
qed

lemma nat_string_digits: "c \<in> set (nat_string n) \<Longrightarrow> c \<in> set uuid_chars"
proof (induction n rule: nat_string.induct)
  case (1 n)
  have "\<forall>d \<in> set [0..<10]. digit_char d \<in> set uuid_chars" by code_simp
  then have "digit_char (n mod 10) \<in> set uuid_chars" "n < 10 \<Longrightarrow> digit_char n \<in> set uuid_chars" by simp_all
  then show ?case using 1 by (subst (asm) (2) nat_string.simps) (auto split: if_splits)
qed

lemma not_digits [simp]: "CHR ''-'' \<notin> set (nat_string n)" "CHR ''/'' \<notin> set (nat_string n)"
  using nat_string_no_sign [of "CHR ''-''" n] nat_string_no_sign [of "CHR ''/''" n]
  by (auto simp: char_digit_def)

lemma parse_int_string: "parse_int (int_string k) = Some k"
proof (cases "k < 0")
  case True
  then show ?thesis by (simp add: int_string_def parse_nat_string)
next
  case False
  obtain c cs where c: "nat_string (nat k) = c # cs" by (cases "nat_string (nat k)") auto
  then have "c \<noteq> CHR ''-''" using not_digits(1) [of "nat k"] by auto
  then show ?thesis using False c parse_nat_string [of "nat k"] by (simp add: int_string_def)
qed

lemma slash_not_in_int_string [simp]: "CHR ''/'' \<notin> set (int_string k)"
  by (simp add: int_string_def)

lemma split_slash_none: "CHR ''/'' \<notin> set a \<Longrightarrow> split_slash a = (a, [])"
  by (induction a) auto

lemma split_slash_join: "CHR ''/'' \<notin> set a \<Longrightarrow> split_slash (a @ ''/'' @ b) = (a, b)"
  by (induction a) auto

lemma int_string_not_Nil [simp]: "int_string k \<noteq> []"
  by (simp add: int_string_def)

lemma std_parse_string: "std_parse (std_string x) = Some x"
proof -
  obtain p q where pq: "quotient_of x = (p, q)" by force
  show ?thesis
  proof (cases "q = 1")
    case True
    then show ?thesis using pq quotient_of_div [OF pq]
      by (simp add: std_parse_def std_string_def split_slash_none parse_int_string)
  next
    case False
    then have "std_string x = int_string p @ ''/'' @ int_string q" by (simp add: pq std_string_def)
    then show ?thesis using quotient_of_div [OF pq]
      by (simp add: std_parse_def split_slash_join [simplified] parse_int_string)
  qed
qed

lemma std_string_not_Nil: "std_string x \<noteq> []"
  by (simp add: std_string_def split: prod.split)

interpretation std: runtime_env std_env
proof unfold_locales
  fix n i j :: nat and x a b :: rat and u v :: uuid
  show "\<bar>dround std_env n x - x\<bar> \<le> 1 / (2 * 10 ^ n)" "\<bar>numeric std_env n x - x\<bar> \<le> 1 / (2 * 10 ^ n)"
    by (simp_all add: std_env_def round_half_away_near)
  show "on_grid n (dround std_env n x)" "on_grid n (numeric std_env n x)"
    by (simp_all add: std_env_def round_half_away_grid)
  show "\<bar>ddiv std_env a b - a / b\<bar> \<le> 1 / (2 * 10 ^ 16)"
    using round_half_away_near [of 16 "a / b"] by (simp add: std_env_def)
  show "on_grid 16 (ddiv std_env a b)" by (simp add: std_env_def round_half_away_grid)
  show "dec_parse std_env (dec_string std_env x) = Some x" by (simp add: std_env_def std_parse_string)
  show "dec_string std_env x \<noteq> []" by (simp add: std_env_def std_string_not_Nil)
  show "dec_parse std_env ''1'' = Some 1" by (simp add: std_env_def std_parse_def char_digit_def)
  show "new_uuid std_env i = new_uuid std_env j \<Longrightarrow> i = j" by (simp add: std_env_def)
  show "new_uuid std_env i \<noteq> uuid_Nil" by (simp add: std_env_def)
  show "uuid_Parse std_env (uuid_string std_env u) = Some u" by (simp add: std_env_def parse_nat_string)
  show "list_all (\<lambda>c. c \<in> set uuid_chars) (uuid_string std_env u)"
    using nat_string_digits [of _ u] by (simp add: std_env_def list_all_iff)
  show "uuid_string std_env u \<noteq> []" by (simp add: std_env_def)
qed

lemma std_runtime: "runtime_env std_env"
  by (rule std.runtime_env_axioms)

end
