(* ===== verification/Store.thy ===== *)
theory Store
  imports Runtime
begin

text \<open>
  The data of the program: the domain entities (\<open>internal/domain/stock\<close>,
  \<open>internal/domain/bill\<close>, \<open>internal/domain/payment\<close>), the errors the use cases return and the
  database they work on.

  A Go struct is a record whose fields carry the struct's names behind a short prefix; an
  entity and its table row are one record, so a row also has the columns that the struct leaves
  out (\<open>link_bill_id\<close>, \<open>purchase_price\<close>, \<open>deleted_at\<close>).  A nullable column or pointer is an
  \<open>option\<close>; \<open>deleted_at IS NULL\<close> is the negation of a boolean.  A time is an integer (0 is the
  zero \<open>time.Time\<close>).  The database \<open>db\<close> is one list of rows per table, in insertion order, and
  the number of UUIDs drawn so far.
\<close>

section \<open>Errors\<close>

text \<open>
  \<open>ErrMsg\<close> is an error without a sentinel, \<open>Wrap\<close> one made by \<open>fmt.Errorf\<close> with \<open>%w\<close>,
  \<open>GoPanic\<close> a panic (a transaction rolls back on it and panics again).
\<close>

datatype err =
    ErrMsg string
  | Wrap string err
  | GoPanic string
  | ErrInvalidDirection
  | ErrInvalidUnitFactor
  | InsufficientStockError uuid rat rat
  | BatchInsufficientStockError "(uuid \<times> rat \<times> rat) list"
  | AdjustError string string "uuid list"
  | ErrBillNotFound
  | ErrInvalidBillStatus
  | ErrCannotCancelApproved
  | ErrBillApprovalConflict
  | ErrValidation
  | ErrNegativeFee
  | ErrWarehouseRequired
  | ErrPaidExceedsTotal
  | ErrBillAlreadyApproved
  | ErrInvalidPayMethod
  | ErrZeroPriceLines
  | ZeroPriceLinesError "(int \<times> uuid) list"
  | ErrInvalidUnitForProduct
  | ErrIllegalTransition
  | ErrCannotCancelPaidBill
  | ErrCannotRestoreApproved
  | ErrBillAlreadyRestoredOnce
  | ErrNothingToReverse
  | ErrSaleNotReturnable
  | ErrReturnItemNotFound
  | ErrWarehouseNotFound
  | ErrReturnExceedsSold
  | ReturnExceededError int rat
  | RefundExceededError rat
  | ErrPurchaseNotReturnable
  | ErrRefundReturnMismatch
  | ErrCheckoutAlreadyExists
  | DuplicateCheckoutError uuid string
  | ErrDuplicateClientRef
  | ErrInvalidPayType
  | ErrCreditNotPayment
  | ErrBillNotApproved
  | ErrBillNotPayable
  | ExceedsOutstandingError rat rat bool
  | ErrInvalidReceiptDirection
  | ErrReceiptAmount
  | ErrInvalidStatementRange
  | ErrPartnerNotFound
  | ExceedsPartnerDebtError rat rat bool
  | ErrImportNothingToReverse
  | ErrCurrencyValidation
  | ErrUniqueViolation string
  | ErrCheckViolation string

text \<open>
  \<open>errors.Is\<close> and \<open>errors.As\<close> look through the wrapping; \<open>ZeroPriceLinesError\<close> and
  \<open>DuplicateCheckoutError\<close> have an \<open>Is\<close> method that matches their sentinel too, and
  \<open>ReturnExceededError\<close> unwraps to its own.
\<close>

fun errors_unwrap :: "err \<Rightarrow> err" where
  "errors_unwrap (Wrap w e) = errors_unwrap e"
| "errors_unwrap e = e"

definition errors_Is :: "err \<Rightarrow> err \<Rightarrow> bool" where
  "errors_Is e target \<longleftrightarrow>
     (case errors_unwrap e of
        ZeroPriceLinesError _ \<Rightarrow> target = ErrZeroPriceLines \<or> errors_unwrap e = target
      | DuplicateCheckoutError _ _ \<Rightarrow> target = ErrCheckoutAlreadyExists \<or> errors_unwrap e = target
      | ReturnExceededError _ _ \<Rightarrow> target = ErrReturnExceedsSold \<or> errors_unwrap e = target
      | e' \<Rightarrow> e' = target)"

section \<open>Stock entities\<close>

datatype Direction = DirectionIn | DirectionOut | DirectionAdjust | DirectionOther string

fun Direction_string :: "Direction \<Rightarrow> string" where
  "Direction_string DirectionIn = ''in''"
| "Direction_string DirectionOut = ''out''"
| "Direction_string DirectionAdjust = ''adjust''"
| "Direction_string (DirectionOther s) = s"

fun Direction_Validate :: "Direction \<Rightarrow> err + unit" where
  "Direction_Validate DirectionIn = Inr ()"
| "Direction_Validate DirectionOut = Inr ()"
| "Direction_Validate DirectionAdjust = Inr ()"
| "Direction_Validate (DirectionOther _) = Inl ErrInvalidDirection"

datatype ReferenceType =
  RefPurchase | RefSale | RefReturn | RefAdjust | RefTransfer | RefInit | RefOther string

fun ReferenceType_string :: "ReferenceType \<Rightarrow> string" where
  "ReferenceType_string RefPurchase = ''purchase''"
| "ReferenceType_string RefSale = ''sale''"
| "ReferenceType_string RefReturn = ''return''"
| "ReferenceType_string RefAdjust = ''adjust''"
| "ReferenceType_string RefTransfer = ''transfer''"
| "ReferenceType_string RefInit = ''init''"
| "ReferenceType_string (RefOther s) = s"

record Movement =
  m_ID :: uuid
  m_TenantID :: uuid
  m_ProductID :: uuid
  m_WarehouseID :: uuid
  m_Direction :: Direction
  m_QtyBase :: rat
  m_UnitCost :: rat
  m_TotalCost :: rat
  m_ReferenceType :: ReferenceType
  m_ReferenceID :: "uuid option"
  m_OccurredAt :: gotime
  m_CreatedBy :: "uuid option"
  m_Note :: string
  m_CreatedAt :: gotime
  m_ExplicitCost :: bool
  m_AllowNegative :: bool

abbreviation "CostStrategyWAC \<equiv> ''wac''"
abbreviation "CostStrategyFIFO \<equiv> ''fifo''"

record Snapshot =
  s_ID :: uuid
  s_TenantID :: uuid
  s_ProductID :: uuid
  s_WarehouseID :: uuid
  s_OnHandQty :: rat
  s_AvailableQty :: rat
  s_UnitCost :: rat
  s_CostStrategy :: string
  s_UpdatedAt :: gotime

record Lot =
  l_ID :: uuid
  l_TenantID :: uuid
  l_ProductID :: uuid
  l_WarehouseID :: uuid
  l_LotNo :: string
  l_Qty :: rat
  l_QtyRemaining :: rat
  l_UnitCost :: rat
  l_ReceivedAt :: gotime
  l_SourceMovementID :: "uuid option"
  l_CreatedAt :: gotime

section \<open>Bill entities\<close>

datatype BillStatus = StatusDraft | StatusApproved | StatusCancelled | StatusOther int
datatype BillType = BillTypePurchase | BillTypeSale | BillTypeOther string
datatype BillSubType =
  BillSubTypePurchase | BillSubTypeSale | BillSubTypeSaleReturn | BillSubTypePurchaseReturn
  | BillSubTypeOther string

record BillHead =
  h_ID :: uuid
  h_TenantID :: uuid
  h_BillNo :: string
  h_BillType :: BillType
  h_SubType :: BillSubType
  h_Status :: BillStatus
  h_PartnerID :: "uuid option"
  h_WarehouseID :: "uuid option"
  h_OperatorID :: "uuid option"
  h_CreatorID :: uuid
  h_BillDate :: gotime
  h_Subtotal :: rat
  h_ShippingFee :: rat
  h_TaxAmount :: rat
  h_TotalAmount :: rat
  h_PaidAmount :: rat
  h_Currency :: string
  h_ExchangeRateVal :: rat
  h_AmountLocal :: rat
  h_ApprovedAt :: "gotime option"
  h_ApprovedBy :: "uuid option"
  h_Revision :: int
  h_Remark :: string
  h_CreatedAt :: gotime
  h_UpdatedAt :: gotime
  h_ClientRef :: string
  h_Source :: string
  h_OccurredAt :: "gotime option"
  h_link_bill_id :: "uuid option"
  h_deleted :: bool

record BillItem =
  it_ID :: uuid
  it_TenantID :: uuid
  it_HeadID :: uuid
  it_ProductID :: uuid
  it_UnitID :: "uuid option"
  it_UnitName :: string
  it_LineNo :: int
  it_Qty :: rat
  it_UnitPrice :: rat
  it_LineAmount :: rat
  it_Remark :: string
  it_purchase_price :: rat
  it_link_item_id :: "uuid option"
  it_deleted :: bool

section \<open>Payment entities\<close>

type_synonym PayType = string

abbreviation PayTypeCash :: PayType where "PayTypeCash \<equiv> ''cash''"
abbreviation PayTypeWechat :: PayType where "PayTypeWechat \<equiv> ''wechat''"
abbreviation PayTypeAlipay :: PayType where "PayTypeAlipay \<equiv> ''alipay''"
abbreviation PayTypeCard :: PayType where "PayTypeCard \<equiv> ''card''"
abbreviation PayTypeCredit :: PayType where "PayTypeCredit \<equiv> ''credit''"
abbreviation PayTypeTransfer :: PayType where "PayTypeTransfer \<equiv> ''transfer''"
abbreviation PayTypeBank :: PayType where "PayTypeBank \<equiv> ''bank''"

definition validPayTypes :: "PayType list" where
  "validPayTypes = [PayTypeCash, PayTypeWechat, PayTypeAlipay, PayTypeCard, PayTypeCredit,
     PayTypeTransfer, PayTypeBank]"

definition PayType_Validate :: "PayType \<Rightarrow> err + unit" where
  "PayType_Validate p =
     (if p \<in> set validPayTypes then Inr () else Inl (ErrMsg ''payment: invalid pay_type''))"

record Payment =
  p_ID :: uuid
  p_TenantID :: uuid
  p_BillID :: uuid
  p_PayType :: PayType
  p_Amount :: rat
  p_TotalAmount :: rat
  p_PartnerID :: "uuid option"
  p_OperatorID :: "uuid option"
  p_CreatorID :: uuid
  p_BillNo :: string
  p_PayDate :: gotime
  p_Remark :: string
  p_CreatedAt :: gotime
  p_deleted :: bool

section \<open>Other tables the use cases read or append to\<close>

record ProductRow =
  pr_id :: uuid
  pr_tenant_id :: uuid
  pr_name :: string
  pr_default_unit_id :: "uuid option"
  pr_unit_id :: "uuid option"
  pr_deleted :: bool

record SkuRow =
  sku_tenant_id :: uuid
  sku_product_id :: uuid
  sku_is_default :: bool
  sku_purchase_price :: rat
  sku_deleted :: bool

record ProductUnitRow =
  pu_product_id :: uuid
  pu_unit_id :: uuid
  pu_conversion_factor :: rat

record WarehouseRow =
  wh_id :: uuid
  wh_tenant_id :: uuid
  wh_name :: string
  wh_is_default :: "bool option"
  wh_enabled :: "bool option"
  wh_created_at :: gotime
  wh_deleted :: bool

record PartnerRow =
  pa_id :: uuid
  pa_tenant_id :: uuid
  pa_name :: string
  pa_deleted :: bool

record ImportOrderSeen =
  ios_tenant_id :: uuid
  ios_platform :: string
  ios_platform_order_no :: string
  ios_bill_id :: uuid

record SKUMapping =
  sm_ID :: uuid
  sm_TenantID :: uuid
  sm_Platform :: string
  sm_PlatformSKU :: string
  sm_ProductID :: uuid
  sm_CreatedAt :: gotime
  sm_UpdatedAt :: gotime

record ImportCancelSeen =
  ics_tenant_id :: uuid
  ics_platform :: string
  ics_platform_order_no :: string
  ics_original_bill_id :: uuid
  ics_reversal_bill_id :: uuid

record ImportRefundSeen =
  irs_tenant_id :: uuid
  irs_platform :: string
  irs_platform_order_no :: string
  irs_platform_refund_id :: string
  irs_bill_id :: uuid

record ExchangeRate =
  xr_ID :: uuid
  xr_TenantID :: uuid
  xr_FromCurrency :: string
  xr_ToCurrency :: string
  xr_Rate :: rat
  xr_Source :: string
  xr_EffectiveAt :: gotime
  xr_CreatedAt :: gotime

record BillSequence =
  seq_id :: uuid
  seq_tenant_id :: uuid
  seq_prefix :: string
  seq_current_val :: nat

text \<open>The event of a stock movement, before JSON encoding: the envelope and its payload.\<close>

record stockMovementPayload =
  ev_ProductID :: uuid
  ev_WarehouseID :: uuid
  ev_Direction :: string
  ev_QtyDelta :: string
  ev_OnHandAfter :: string
  ev_UnitCost :: string
  ev_ReferenceType :: string

record eventEnvelope =
  ev_EventID :: uuid
  ev_EventType :: string
  ev_TenantID :: uuid
  ev_OccurredAt :: gotime
  ev_Source :: string
  ev_Payload :: stockMovementPayload

record OutboxRow =
  ob_id :: uuid
  ob_tenant_id :: uuid
  ob_subject :: string
  ob_payload :: eventEnvelope
  ob_created_at :: gotime
  ob_published_at :: "gotime option"
  ob_attempts :: nat
  ob_last_error :: string

record AuditRow =
  au_tenant_id :: uuid
  au_user_id :: "uuid option"
  au_action :: string
  au_resource :: string
  au_resource_id :: uuid
  au_product_id :: uuid
  au_reason :: string

section \<open>The database\<close>

record db =
  stock_snapshot :: "Snapshot list"
  stock_movement :: "Movement list"
  stock_lot :: "Lot list"
  bill_head :: "BillHead list"
  bill_item :: "BillItem list"
  bill_sequence :: "BillSequence list"
  payment_head :: "Payment list"
  product :: "ProductRow list"
  product_sku :: "SkuRow list"
  product_unit :: "ProductUnitRow list"
  warehouse :: "WarehouseRow list"
  partner :: "PartnerRow list"
  import_order_seen :: "ImportOrderSeen list"
  import_sku_map :: "SKUMapping list"
  import_order_cancel_seen :: "ImportCancelSeen list"
  import_refund_seen :: "ImportRefundSeen list"
  exchange_rate :: "ExchangeRate list"
  event_outbox :: "OutboxRow list"
  audit_log :: "AuditRow list"
  draws :: nat

type_synonym 'a op = "db \<Rightarrow> err + ('a \<times> db)"

definition empty_db :: db where
  "empty_db = \<lparr> stock_snapshot = [], stock_movement = [], stock_lot = [], bill_head = [],
     bill_item = [], bill_sequence = [], payment_head = [], product = [], product_sku = [],
     product_unit = [], warehouse = [], partner = [], import_order_seen = [], import_sku_map = [],
     import_order_cancel_seen = [], import_refund_seen = [], exchange_rate = [], event_outbox = [],
     audit_log = [], draws = 0 \<rparr>"

text \<open>\<open>uuid.New()\<close>: the next id of the environment's sequence.\<close>

definition uuid_New :: "env \<Rightarrow> uuid op" where
  "uuid_New E s = Inr (new_uuid E (draws s), s\<lparr>draws := Suc (draws s)\<rparr>)"

lemma uuid_New_Inr [simp, opE_simps]:
  "uuid_New E s = Inr r \<longleftrightarrow> r = (new_uuid E (draws s), s\<lparr>draws := Suc (draws s)\<rparr>)"
  by (auto simp: uuid_New_def)

lemma uuid_New_Inl [simp]: "uuid_New E s \<noteq> Inl e"
  by (simp add: uuid_New_def)

lemma bindE_uuid_New [simp]: "bindE (uuid_New E) k s = k (new_uuid E (draws s)) (s\<lparr>draws := Suc (draws s)\<rparr>)"
  by (simp add: bindE_def uuid_New_def)

lemma preserves_uuid_New [tripleI]:
  "(\<And>s. I s \<Longrightarrow> I (s\<lparr>draws := Suc (draws s)\<rparr>)) \<Longrightarrow> preserves I (uuid_New E)"
  by (simp add: triple_def)

text \<open>\<open>decimalutil.Parse\<close>: the empty string is zero, anything else is \<open>decimal.NewFromString\<close>.\<close>

definition decimalutil_Parse :: "env \<Rightarrow> string \<Rightarrow> string \<Rightarrow> err + rat" where
  "decimalutil_Parse E str field =
     (if str = [] then Inr 0
      else case dec_parse E str of
             None \<Rightarrow> Inl (Wrap (''decimalutil: parse '' @ field) (ErrMsg str))
           | Some d \<Rightarrow> Inr d)"

end
