(* ===== verification/Stock_Repo.thy ===== *)
theory Stock_Repo
  imports Store "HOL-Library.List_Lexorder" "HOL-Library.Char_ord"
begin

text \<open>
  \<open>internal/adapter/repo/stock\<close>: the SQL behind \<open>StockRepo\<close> (snapshots, the movement log, the
  FIFO lots, ownership and price lookups) and the insertion into the event outbox
  (\<open>internal/adapter/repo/event_outbox\<close>).

  A write rounds to the scale of its column.  Of the schema's constraints the checks and the
  NOT NULL of \<open>stock_movement\<close> are modelled; foreign keys are not.  The advisory lock of a stock
  row and the row lock of \<open>SELECT ... FOR UPDATE\<close> are what lets an operation be one step on the
  state here.
\<close>

section \<open>Snapshots\<close>

definition snap_at :: "uuid \<Rightarrow> uuid \<Rightarrow> uuid \<Rightarrow> Snapshot \<Rightarrow> bool" where
  "snap_at t p w r \<longleftrightarrow> s_TenantID r = t \<and> s_ProductID r = p \<and> s_WarehouseID r = w"

definition GetSnapshot :: "uuid \<Rightarrow> uuid \<Rightarrow> uuid \<Rightarrow> db \<Rightarrow> Snapshot option" where
  "GetSnapshot t p w s = List.find (snap_at t p w) (stock_snapshot s)"

definition SelectForUpdate :: "uuid \<Rightarrow> uuid \<Rightarrow> uuid \<Rightarrow> Snapshot option op" where
  "SelectForUpdate t p w = readE (GetSnapshot t p w)"

definition stored_snapshot :: "env \<Rightarrow> Snapshot \<Rightarrow> Snapshot" where
  "stored_snapshot E r = r\<lparr>s_OnHandQty := numeric E 4 (s_OnHandQty r),
     s_AvailableQty := numeric E 4 (s_AvailableQty r), s_UnitCost := numeric E 6 (s_UnitCost r),
     s_UpdatedAt := now E\<rparr>"

definition UpsertSnapshot :: "env \<Rightarrow> Snapshot \<Rightarrow> unit op" where
  "UpsertSnapshot E r = modifyE (\<lambda>s. s\<lparr>stock_snapshot :=
     upsert (snap_at (s_TenantID r) (s_ProductID r) (s_WarehouseID r))
       (\<lambda>x. x\<lparr>s_OnHandQty := numeric E 4 (s_OnHandQty r), s_AvailableQty := numeric E 4 (s_AvailableQty r),
              s_UnitCost := numeric E 6 (s_UnitCost r), s_CostStrategy := s_CostStrategy r,
              s_UpdatedAt := now E\<rparr>)
       (stored_snapshot E r) (stock_snapshot s)\<rparr>)"

text \<open>The rows in reading order, a page of them: \<open>LIMIT\<close> and \<open>OFFSET\<close>.\<close>

definition page_of :: "int \<Rightarrow> int \<Rightarrow> 'a list \<Rightarrow> 'a list" where
  "page_of l off xs = take (nat l) (drop (nat off) xs)"

record MovementFilter =
  mf_TenantID :: uuid
  mf_ProductID :: uuid
  mf_WarehouseID :: uuid
  mf_Limit :: int
  mf_Offset :: int

definition ListSnapshots :: "MovementFilter \<Rightarrow> db \<Rightarrow> Snapshot list" where
  "ListSnapshots f s =
     (let rows = filter (\<lambda>r. s_TenantID r = mf_TenantID f
                   \<and> (mf_ProductID f \<noteq> uuid_Nil \<longrightarrow> s_ProductID r = mf_ProductID f)
                   \<and> (mf_WarehouseID f \<noteq> uuid_Nil \<longrightarrow> s_WarehouseID r = mf_WarehouseID f)) (stock_snapshot s);
          n_rows = (if mf_Limit f \<le> 0 then 20 else mf_Limit f)
      in page_of n_rows (mf_Offset f) (sort_key (\<lambda>r. - s_UpdatedAt r) rows))"

section \<open>Movements\<close>

definition mv_at :: "uuid \<Rightarrow> uuid \<Rightarrow> uuid \<Rightarrow> Movement \<Rightarrow> bool" where
  "mv_at t p w m \<longleftrightarrow> m_TenantID m = t \<and> m_ProductID m = p \<and> m_WarehouseID m = w"

definition stored_movement :: "env \<Rightarrow> Movement \<Rightarrow> Movement" where
  "stored_movement E m = m\<lparr>m_QtyBase := numeric E 6 (m_QtyBase m), m_UnitCost := numeric E 6 (m_UnitCost m),
     m_TotalCost := numeric E 6 (m_TotalCost m)\<rparr>"

fun RefOther_free :: "ReferenceType \<Rightarrow> bool" where
  "RefOther_free (RefOther _) = False"
| "RefOther_free _ = True"

text \<open>The checks of migrations 000022, 000034 and 000056.\<close>

definition movement_checks :: "Movement \<Rightarrow> bool" where
  "movement_checks m \<longleftrightarrow> Direction_Validate (m_Direction m) = Inr () \<and> RefOther_free (m_ReferenceType m)
     \<and> m_ReferenceID m \<noteq> None"

definition InsertMovement :: "env \<Rightarrow> Movement \<Rightarrow> unit op" where
  "InsertMovement E m =
     (if movement_checks m
      then modifyE (\<lambda>s. s\<lparr>stock_movement := stock_movement s @ [stored_movement E m]\<rparr>)
      else failE (Wrap ''stock repo: insert movement'' (ErrCheckViolation ''stock_movement'')))"

definition ListMovements :: "MovementFilter \<Rightarrow> db \<Rightarrow> Movement list" where
  "ListMovements f s =
     (let rows = filter (\<lambda>m. m_TenantID m = mf_TenantID f
                   \<and> (mf_ProductID f \<noteq> uuid_Nil \<longrightarrow> m_ProductID m = mf_ProductID f)
                   \<and> (mf_WarehouseID f \<noteq> uuid_Nil \<longrightarrow> m_WarehouseID m = mf_WarehouseID f)) (stock_movement s);
          n_rows = (if mf_Limit f \<le> 0 then 50 else mf_Limit f)
      in page_of n_rows (mf_Offset f) (sort_key (\<lambda>m. - m_OccurredAt m) rows))"

definition ListMovementsByReference :: "uuid \<Rightarrow> uuid \<Rightarrow> db \<Rightarrow> Movement list" where
  "ListMovementsByReference t ref s =
     sort_key m_CreatedAt (filter (\<lambda>m. m_TenantID m = t \<and> m_ReferenceID m = Some ref) (stock_movement s))"

section \<open>Lots\<close>

definition lot_at :: "uuid \<Rightarrow> uuid \<Rightarrow> uuid \<Rightarrow> Lot \<Rightarrow> bool" where
  "lot_at t p w l \<longleftrightarrow> l_TenantID l = t \<and> l_ProductID l = p \<and> l_WarehouseID l = w"

definition InsertLot :: "env \<Rightarrow> Lot \<Rightarrow> unit op" where
  "InsertLot E l = modifyE (\<lambda>s. s\<lparr>stock_lot := stock_lot s @
     [l\<lparr>l_Qty := numeric E 4 (l_Qty l), l_QtyRemaining := numeric E 4 (l_QtyRemaining l),
        l_UnitCost := numeric E 6 (l_UnitCost l)\<rparr>]\<rparr>)"

definition ListActiveLots :: "uuid \<Rightarrow> uuid \<Rightarrow> uuid \<Rightarrow> Lot list op" where
  "ListActiveLots t p w = readE (\<lambda>s.
     sort_key l_ReceivedAt (filter (\<lambda>l. lot_at t p w l \<and> 0 < l_QtyRemaining l) (stock_lot s)))"

definition UpdateLotQty :: "env \<Rightarrow> uuid \<Rightarrow> rat \<Rightarrow> unit op" where
  "UpdateLotQty E i q = modifyE (\<lambda>s. s\<lparr>stock_lot :=
     update_where (\<lambda>l. l_ID l = i) (\<lambda>l. l\<lparr>l_QtyRemaining := numeric E 4 q\<rparr>) (stock_lot s)\<rparr>)"

section \<open>Ownership and prices\<close>

text \<open>\<open>id = ANY(...)\<close> counts a product once, however often the list names it.\<close>

definition CheckOwned :: "uuid \<Rightarrow> uuid \<Rightarrow> uuid list \<Rightarrow> db \<Rightarrow> bool \<times> nat" where
  "CheckOwned t w ids s =
     (length (filter (\<lambda>r. wh_tenant_id r = t \<and> wh_id r = w \<and> \<not> wh_deleted r) (warehouse s)) = 1,
      length (filter (\<lambda>r. pr_tenant_id r = t \<and> pr_id r \<in> set ids \<and> \<not> pr_deleted r) (product s)))"

definition FallbackCost :: "uuid \<Rightarrow> uuid \<Rightarrow> uuid \<Rightarrow> db \<Rightarrow> rat" where
  "FallbackCost t p w s =
     (case List.find (\<lambda>k. sku_tenant_id k = t \<and> sku_product_id k = p \<and> sku_is_default k \<and> \<not> sku_deleted k
                          \<and> 0 < sku_purchase_price k) (product_sku s) of
        Some k \<Rightarrow> sku_purchase_price k
      | None \<Rightarrow>
          (case sort_key (\<lambda>r. - s_UpdatedAt r)
                  (filter (\<lambda>r. s_TenantID r = t \<and> s_ProductID r = p \<and> s_WarehouseID r \<noteq> w \<and> 0 < s_UnitCost r)
                     (stock_snapshot s)) of
             [] \<Rightarrow> 0
           | r # _ \<Rightarrow> s_UnitCost r))"

section \<open>Outbox\<close>

definition Enqueue :: "env \<Rightarrow> uuid \<Rightarrow> string \<Rightarrow> eventEnvelope \<Rightarrow> unit op" where
  "Enqueue E t subject payload = bindE (uuid_New E) (\<lambda>i.
     modifyE (\<lambda>s. s\<lparr>event_outbox := event_outbox s @
       [\<lparr> ob_id = i, ob_tenant_id = t, ob_subject = subject, ob_payload = payload,
          ob_created_at = now E, ob_published_at = None, ob_attempts = 0, ob_last_error = [] \<rparr>]\<rparr>))"

section \<open>Reading the book\<close>

text \<open>Quantity and cost on the book of one product in one warehouse; no row reads as zero.\<close>

definition on_hand :: "uuid \<Rightarrow> uuid \<Rightarrow> uuid \<Rightarrow> db \<Rightarrow> rat" where
  "on_hand t p w s = (case GetSnapshot t p w s of None \<Rightarrow> 0 | Some r \<Rightarrow> s_OnHandQty r)"

definition book_cost :: "uuid \<Rightarrow> uuid \<Rightarrow> uuid \<Rightarrow> db \<Rightarrow> rat" where
  "book_cost t p w s = (case GetSnapshot t p w s of None \<Rightarrow> 0 | Some r \<Rightarrow> s_UnitCost r)"

definition lot_total :: "uuid \<Rightarrow> uuid \<Rightarrow> uuid \<Rightarrow> db \<Rightarrow> rat" where
  "lot_total t p w s = sum_list (map l_QtyRemaining (filter (lot_at t p w) (stock_lot s)))"

definition signed_qty :: "Movement \<Rightarrow> rat" where
  "signed_qty m = (case m_Direction m of DirectionOut \<Rightarrow> - m_QtyBase m | _ \<Rightarrow> m_QtyBase m)"

lemma signed_qty_simps:
  "m_Direction m = DirectionIn \<Longrightarrow> signed_qty m = m_QtyBase m"
  "m_Direction m = DirectionOut \<Longrightarrow> signed_qty m = - m_QtyBase m"
  "m_Direction m = DirectionAdjust \<Longrightarrow> signed_qty m = m_QtyBase m"
  by (simp_all add: signed_qty_def)

definition ledger_qty :: "uuid \<Rightarrow> uuid \<Rightarrow> uuid \<Rightarrow> db \<Rightarrow> rat" where
  "ledger_qty t p w s = sum_list (map signed_qty (filter (mv_at t p w) (stock_movement s)))"

subsection \<open>What a write does to a read\<close>

lemma GetSnapshot_upsert_same:
  assumes "UpsertSnapshot E r s = Inr (u, s')"
    and "s_TenantID r = t" "s_ProductID r = p" "s_WarehouseID r = w"
  shows "\<exists>x. GetSnapshot t p w s' = Some x \<and> s_OnHandQty x = numeric E 4 (s_OnHandQty r)
           \<and> s_UnitCost x = numeric E 6 (s_UnitCost r) \<and> s_AvailableQty x = numeric E 4 (s_AvailableQty r)
           \<and> s_CostStrategy x = s_CostStrategy r"
proof -
  have "GetSnapshot t p w s' = Some (case GetSnapshot t p w s of None \<Rightarrow> stored_snapshot E r
      | Some x \<Rightarrow> x\<lparr>s_OnHandQty := numeric E 4 (s_OnHandQty r), s_AvailableQty := numeric E 4 (s_AvailableQty r),
              s_UnitCost := numeric E 6 (s_UnitCost r), s_CostStrategy := s_CostStrategy r,
              s_UpdatedAt := now E\<rparr>)"
    using assms unfolding UpsertSnapshot_def GetSnapshot_def
    by (simp, subst find_upsert_same) (auto simp: snap_at_def stored_snapshot_def)
  then show ?thesis by (auto simp: stored_snapshot_def split: option.split)
qed

lemma GetSnapshot_upsert_other:
  assumes "UpsertSnapshot E r s = Inr (u, s')" "(s_TenantID r, s_ProductID r, s_WarehouseID r) \<noteq> (t, p, w)"
  shows "GetSnapshot t p w s' = GetSnapshot t p w s"
proof -
  have "List.find (snap_at t p w) (stock_snapshot s') = List.find (snap_at t p w) (stock_snapshot s)"
    using assms unfolding UpsertSnapshot_def
    by (simp, intro find_upsert_other) (auto simp: snap_at_def stored_snapshot_def)
  then show ?thesis by (simp add: GetSnapshot_def)
qed

lemma GetSnapshot_cong: "stock_snapshot s' = stock_snapshot s \<Longrightarrow> GetSnapshot t p w s' = GetSnapshot t p w s"
  by (simp add: GetSnapshot_def)

lemma InsertMovement_Inr:
  "InsertMovement E m s = Inr (u, s') \<longleftrightarrow>
     movement_checks m \<and> s' = s\<lparr>stock_movement := stock_movement s @ [stored_movement E m]\<rparr>"
  by (auto simp: InsertMovement_def)

lemma SelectForUpdate_Inr [simp, opE_simps]:
  "SelectForUpdate t p w s = Inr r \<longleftrightarrow> r = (GetSnapshot t p w s, s)"
  by (auto simp: SelectForUpdate_def)

lemma SelectForUpdate_Inl [simp]: "SelectForUpdate t p w s \<noteq> Inl e"
  by (simp add: SelectForUpdate_def)

lemma bindE_SelectForUpdate [simp]: "bindE (SelectForUpdate t p w) f s = f (GetSnapshot t p w s) s"
  by (simp add: SelectForUpdate_def)

lemma bindE_mapErr_SelectForUpdate [simp]:
  "bindE (mapErr g (SelectForUpdate t p w)) f s = f (GetSnapshot t p w s) s"
  by (simp add: SelectForUpdate_def mapErr_def bindE_def readE_def)

end
