(* ===== verification/Calculator.thy ===== *)
theory Calculator
  imports Stock_Repo
begin

text \<open>
  The interface \<open>InventoryCalculator\<close> (\<open>internal/app/stock/calculator.go\<close>) with what its two
  implementations share, and the contract a calculator gives its callers.

  \<open>ApplyMovement\<close> receives a pointer and writes the movement's cost and times through it; here
  it returns the changed movement beside the snapshot.  The locale \<open>inventory_calculator\<close> is the
  contract; \<open>Calc_WAC\<close> and \<open>Calc_FIFO\<close> interpret it.
\<close>

record InventoryCalculator =
  ValidateMovement :: "Movement \<Rightarrow> unit op"
  ApplyMovement :: "Movement \<Rightarrow> (Snapshot \<times> Movement) op"
  CalculatorName :: string

definition old_qty :: "Snapshot option \<Rightarrow> rat" where
  "old_qty snap = (case snap of None \<Rightarrow> 0 | Some r \<Rightarrow> s_OnHandQty r)"

definition old_cost :: "Snapshot option \<Rightarrow> rat" where
  "old_cost snap = (case snap of None \<Rightarrow> 0 | Some r \<Rightarrow> s_UnitCost r)"

text \<open>Division of the decimal library panics on a zero divisor.\<close>

definition decimal_Div :: "env \<Rightarrow> rat \<Rightarrow> rat \<Rightarrow> err + rat" where
  "decimal_Div E a b = (if b = 0 then Inl (GoPanic ''decimal division by 0'') else Inr (ddiv E a b))"

definition stamp_times :: "env \<Rightarrow> Movement \<Rightarrow> Movement" where
  "stamp_times E m =
     (let m = (if m_OccurredAt m = 0 then m\<lparr>m_OccurredAt := now E\<rparr> else m)
      in if m_CreatedAt m = 0 then m\<lparr>m_CreatedAt := now E\<rparr> else m)"

definition blendedCost :: "env \<Rightarrow> rat \<Rightarrow> rat \<Rightarrow> rat \<Rightarrow> rat \<Rightarrow> rat" where
  "blendedCost E oldQty oldCost qty cost =
     (let newQty = oldQty + qty in
      if newQty = 0 then 0
      else if oldQty = 0 then cost
      else dround E 6 (ddiv E (oldQty * oldCost + qty * cost) newQty))"

definition costAfterExplicitOut :: "env \<Rightarrow> rat \<Rightarrow> rat \<Rightarrow> rat \<Rightarrow> rat \<Rightarrow> rat" where
  "costAfterExplicitOut E oldQty oldCost qty unitCost =
     (let left = oldQty - qty in
      if \<not> 0 < left then oldCost
      else max (dround E 6 (ddiv E (oldQty * oldCost - qty * unitCost) left)) 0)"

definition buildSnapshot ::
  "env \<Rightarrow> Snapshot option \<Rightarrow> uuid \<Rightarrow> uuid \<Rightarrow> uuid \<Rightarrow> rat \<Rightarrow> rat \<Rightarrow> string \<Rightarrow> Snapshot op" where
  "buildSnapshot E existing t p w qty cost strategy = bindE (uuid_New E) (\<lambda>i.
     returnE \<lparr> s_ID = (case existing of None \<Rightarrow> i | Some r \<Rightarrow> s_ID r), s_TenantID = t, s_ProductID = p,
       s_WarehouseID = w, s_OnHandQty = qty, s_AvailableQty = qty, s_UnitCost = cost,
       s_CostStrategy = strategy, s_UpdatedAt = now E \<rparr>)"

text \<open>The tail both methods share: the movement row, the snapshot and its upsert.\<close>

definition persist_movement ::
  "env \<Rightarrow> string \<Rightarrow> string \<Rightarrow> Snapshot option \<Rightarrow> rat \<Rightarrow> rat \<Rightarrow> Movement \<Rightarrow> (Snapshot \<times> Movement) op" where
  "persist_movement E who strategy snap newQty newCost m =
     thenE (mapErr (Wrap (who @ '' apply: insert movement'')) (InsertMovement E m))
     (bindE (buildSnapshot E snap (m_TenantID m) (m_ProductID m) (m_WarehouseID m) newQty newCost strategy)
       (\<lambda>newSnap.
     thenE (mapErr (Wrap (who @ '' apply: upsert snapshot'')) (UpsertSnapshot E newSnap))
     (returnE (newSnap, m))))"

section \<open>The contract\<close>

text \<open>When a movement asks for more than the book holds, and how much it asks for.\<close>

definition requested :: "Movement \<Rightarrow> rat" where
  "requested m = (case m_Direction m of DirectionAdjust \<Rightarrow> - m_QtyBase m | _ \<Rightarrow> m_QtyBase m)"

definition short :: "Movement \<Rightarrow> rat \<Rightarrow> bool" where
  "short m available \<longleftrightarrow>
     (m_Direction m = DirectionOut \<and> available < m_QtyBase m \<and> \<not> m_AllowNegative m)
     \<or> (m_Direction m = DirectionAdjust \<and> m_QtyBase m < 0 \<and> available < - m_QtyBase m)"

abbreviation book :: "Movement \<Rightarrow> db \<Rightarrow> rat" where
  "book m s \<equiv> on_hand (m_TenantID m) (m_ProductID m) (m_WarehouseID m) s"

abbreviation cost_of :: "Movement \<Rightarrow> db \<Rightarrow> rat" where
  "cost_of m s \<equiv> book_cost (m_TenantID m) (m_ProductID m) (m_WarehouseID m) s"

text \<open>The database without the tables that a calculator writes.\<close>

definition non_stock :: "db \<Rightarrow> db" where
  "non_stock s = s\<lparr>stock_snapshot := [], stock_movement := [], stock_lot := [], draws := 0\<rparr>"

lemma non_stock_updates [simp]:
  "non_stock (s\<lparr>stock_snapshot := x\<rparr>) = non_stock s"
  "non_stock (s\<lparr>stock_movement := y\<rparr>) = non_stock s"
  "non_stock (s\<lparr>stock_lot := z\<rparr>) = non_stock s"
  "non_stock (s\<lparr>draws := n\<rparr>) = non_stock s"
  by (simp_all add: non_stock_def)

lemma non_stockD:
  assumes "non_stock s' = non_stock s"
  shows "bill_head s' = bill_head s" "bill_item s' = bill_item s" "bill_sequence s' = bill_sequence s"
    "payment_head s' = payment_head s" "product s' = product s" "product_sku s' = product_sku s"
    "product_unit s' = product_unit s" "warehouse s' = warehouse s" "partner s' = partner s"
    "import_order_seen s' = import_order_seen s" "event_outbox s' = event_outbox s" "audit_log s' = audit_log s"
    "import_sku_map s' = import_sku_map s" "import_order_cancel_seen s' = import_order_cancel_seen s"
    "import_refund_seen s' = import_refund_seen s" "exchange_rate s' = exchange_rate s"
  using assms by (cases s; cases s'; simp add: non_stock_def)+

text \<open>What the pointer of \<open>ApplyMovement\<close> leaves alone.\<close>

definition same_movement :: "Movement \<Rightarrow> Movement \<Rightarrow> bool" where
  "same_movement m m' \<longleftrightarrow>
     m' = m\<lparr>m_UnitCost := m_UnitCost m', m_TotalCost := m_TotalCost m', m_OccurredAt := m_OccurredAt m',
            m_CreatedAt := m_CreatedAt m'\<rparr>"

lemma same_movementD:
  assumes "same_movement m m'"
  shows "m_ID m' = m_ID m" "m_TenantID m' = m_TenantID m" "m_ProductID m' = m_ProductID m"
    "m_WarehouseID m' = m_WarehouseID m" "m_Direction m' = m_Direction m" "m_QtyBase m' = m_QtyBase m"
    "m_ReferenceType m' = m_ReferenceType m" "m_ReferenceID m' = m_ReferenceID m" "m_CreatedBy m' = m_CreatedBy m"
    "m_Note m' = m_Note m" "m_ExplicitCost m' = m_ExplicitCost m" "m_AllowNegative m' = m_AllowNegative m"
  using assms by (cases m; cases m'; simp add: same_movement_def)+

lemma same_movement_stamp [simp]: "same_movement m (stamp_times E m)"
  by (simp add: same_movement_def stamp_times_def Let_def)

lemma same_movement_trans: "same_movement a b \<Longrightarrow> same_movement b c \<Longrightarrow> same_movement a c"
  by (cases a; cases b; cases c) (auto simp: same_movement_def)

lemma same_movement_costs [simp]:
  "same_movement m (m\<lparr>m_TotalCost := c\<rparr>)" "same_movement m (m\<lparr>m_UnitCost := u, m_TotalCost := c\<rparr>)" "same_movement m m"
  by (simp_all add: same_movement_def)

lemma persist_movement_facts:
  assumes "persist_movement E who strategy snap newQty newCost m s = Inr ((snap', m'), s')"
  shows "m' = m" "movement_checks m" "s_OnHandQty snap' = newQty" "s_AvailableQty snap' = newQty"
    "s_UnitCost snap' = newCost" "book m s' = numeric E 4 newQty" "cost_of m s' = numeric E 6 newCost"
    "stock_movement s' = stock_movement s @ [stored_movement E m]" "stock_lot s' = stock_lot s"
    "non_stock s' = non_stock s" "draws s' = Suc (draws s)"
    "(m_TenantID m, m_ProductID m, m_WarehouseID m) \<noteq> (t, p, w) \<Longrightarrow> GetSnapshot t p w s' = GetSnapshot t p w s"
proof -
  let ?s1 = "s\<lparr>stock_movement := stock_movement s @ [stored_movement E m]\<rparr>"
  let ?s2 = "?s1\<lparr>draws := Suc (draws s)\<rparr>"
  have ups: "UpsertSnapshot E snap' ?s2 = Inr ((), s')" and checks: "movement_checks m" and m: "m' = m"
    and key: "s_TenantID snap' = m_TenantID m" "s_ProductID snap' = m_ProductID m" "s_WarehouseID snap' = m_WarehouseID m"
    and vals: "s_OnHandQty snap' = newQty" "s_AvailableQty snap' = newQty" "s_UnitCost snap' = newCost"
    using assms by (auto simp: persist_movement_def buildSnapshot_def opE_simps InsertMovement_Inr)
  have s': "s' = ?s2\<lparr>stock_snapshot := stock_snapshot s'\<rparr>"
    using ups by (auto simp: UpsertSnapshot_def)
  show "m' = m" "movement_checks m" "s_OnHandQty snap' = newQty" "s_AvailableQty snap' = newQty" "s_UnitCost snap' = newCost"
    by (fact m checks vals)+
  show "book m s' = numeric E 4 newQty" "cost_of m s' = numeric E 6 newCost"
    using GetSnapshot_upsert_same [OF ups key] vals by (auto simp: on_hand_def book_cost_def)
  show "stock_movement s' = stock_movement s @ [stored_movement E m]" "stock_lot s' = stock_lot s"
    "non_stock s' = non_stock s" "draws s' = Suc (draws s)"
    by (subst s', simp)+
  show "GetSnapshot t p w s' = GetSnapshot t p w s"
    if "(m_TenantID m, m_ProductID m, m_WarehouseID m) \<noteq> (t, p, w)"
    using GetSnapshot_upsert_other [OF ups] that key by (simp add: GetSnapshot_def)
qed

lemma persist_movement_ok:
  assumes "movement_checks m"
  shows "\<exists>snap' m' s'. persist_movement E who strategy snap newQty newCost m s = Inr ((snap', m'), s')"
  using assms
  by (simp add: persist_movement_def buildSnapshot_def opE_simps InsertMovement_Inr UpsertSnapshot_def)

lemma old_qty_book [simp]:
  "old_qty (GetSnapshot t p w s) = on_hand t p w s" "old_cost (GetSnapshot t p w s) = book_cost t p w s"
  by (simp_all add: old_qty_def old_cost_def on_hand_def book_cost_def)

lemma stamp_times_simps [simp]:
  "m_ID (stamp_times E m) = m_ID m" "m_TenantID (stamp_times E m) = m_TenantID m"
  "m_ProductID (stamp_times E m) = m_ProductID m" "m_WarehouseID (stamp_times E m) = m_WarehouseID m"
  "m_Direction (stamp_times E m) = m_Direction m" "m_QtyBase (stamp_times E m) = m_QtyBase m"
  "m_UnitCost (stamp_times E m) = m_UnitCost m" "m_TotalCost (stamp_times E m) = m_TotalCost m"
  "m_ExplicitCost (stamp_times E m) = m_ExplicitCost m" "m_AllowNegative (stamp_times E m) = m_AllowNegative m"
  "m_ReferenceType (stamp_times E m) = m_ReferenceType m" "m_ReferenceID (stamp_times E m) = m_ReferenceID m"
  "movement_checks (stamp_times E m) = movement_checks m"
  by (simp_all add: stamp_times_def Let_def movement_checks_def)

lemma same_movement_keeps:
  assumes "same_movement m m'"
  shows "movement_checks m' = movement_checks m" "book m' s = book m s" "cost_of m' s = cost_of m s"
    "signed_qty m' = signed_qty m" "short m' q = short m q"
  using same_movementD [OF assms] by (simp_all add: movement_checks_def signed_qty_def short_def split: Direction.split)

lemma persist_movement_Inl:
  "persist_movement E who strategy snap newQty newCost m s = Inl e \<Longrightarrow> errors_unwrap e = ErrCheckViolation ''stock_movement''"
  by (auto simp: persist_movement_def thenE_Inl bindE_Inl mapErr_Inl InsertMovement_def buildSnapshot_def UpsertSnapshot_def
      split: if_splits option.splits)

locale inventory_calculator =
  fixes E :: env and calc :: InventoryCalculator
  assumes validate_pure: "ValidateMovement calc m s = Inr (u, s') \<Longrightarrow> s' = s"
    and validate_error: "ValidateMovement calc m s = Inl e \<longleftrightarrow>
          short m (book m s) \<and> e = InsufficientStockError (m_ProductID m) (book m s) (requested m)"
    and apply_checks: "ApplyMovement calc m s = Inr ((snap, m'), s') \<Longrightarrow> movement_checks m"
    and apply_not_short: "ApplyMovement calc m s = Inr ((snap, m'), s') \<Longrightarrow> \<not> short m (book m s)"
    and apply_qty: "ApplyMovement calc m s = Inr ((snap, m'), s') \<Longrightarrow>
          s_OnHandQty snap = book m s + signed_qty m \<and> s_AvailableQty snap = s_OnHandQty snap"
    and apply_stored: "ApplyMovement calc m s = Inr ((snap, m'), s') \<Longrightarrow>
          book m s' = numeric E 4 (s_OnHandQty snap) \<and> cost_of m s' = numeric E 6 (s_UnitCost snap)"
    and apply_other: "ApplyMovement calc m s = Inr ((snap, m'), s') \<Longrightarrow>
          (m_TenantID m, m_ProductID m, m_WarehouseID m) \<noteq> (t, p, w) \<Longrightarrow>
          GetSnapshot t p w s' = GetSnapshot t p w s"
    and apply_log: "ApplyMovement calc m s = Inr ((snap, m'), s') \<Longrightarrow>
          same_movement m m' \<and> stock_movement s' = stock_movement s @ [stored_movement E m']"
    and apply_frame: "ApplyMovement calc m s = Inr ((snap, m'), s') \<Longrightarrow>
          non_stock s' = non_stock s \<and> draws s \<le> draws s'"
    and apply_only_short: "ApplyMovement calc m s = Inl e \<Longrightarrow> errors_unwrap e = InsufficientStockError p a r \<Longrightarrow>
          m_Direction m = DirectionOut \<Longrightarrow> short m (book m s)"
begin

lemma validate_ok_iff: "(\<exists>r. ValidateMovement calc m s = Inr r) \<longleftrightarrow> \<not> short m (book m s)"
proof (cases "ValidateMovement calc m s")
  case (Inl e)
  then show ?thesis using validate_error [of m s e] by simp
next
  case (Inr r)
  then have "\<not> short m (book m s)" by (metis validate_error sum.distinct(1))
  then show ?thesis using Inr by blast
qed

text \<open>Without the offline-till exception a movement cannot take the book below zero.\<close>

lemma apply_book_nonneg:
  assumes "runtime_env E" "ApplyMovement calc m s = Inr ((snap, m'), s')"
    and "\<not> m_AllowNegative m" "0 \<le> book m s" "m_Direction m = DirectionIn \<longrightarrow> 0 \<le> m_QtyBase m"
  shows "0 \<le> book m s'"
proof -
  have "0 \<le> book m s + signed_qty m"
    using apply_not_short [OF assms(2)] apply_checks [OF assms(2)] assms(3-5)
    by (auto simp: short_def movement_checks_def signed_qty_def split: Direction.splits)
  then show ?thesis
    using apply_qty [OF assms(2)] apply_stored [OF assms(2)] numeric_nonneg [OF assms(1)] by simp
qed

text \<open>The book follows the movement log, up to the scale of the columns.\<close>

lemma apply_ledger:
  assumes "runtime_env E" "ApplyMovement calc m s = Inr ((snap, m'), s')"
    and "on_grid 4 (m_QtyBase m)" "on_grid 4 (book m s)" "on_hand t p w s = ledger_qty t p w s"
  shows "on_hand t p w s' = ledger_qty t p w s'"
proof -
  have log: "stock_movement s' = stock_movement s @ [stored_movement E m']" and same: "same_movement m m'"
    using apply_log [OF assms(2)] by auto
  have q6: "numeric E 6 (m_QtyBase m) = m_QtyBase m"
    by (rule numeric_fix [OF assms(1)], rule on_grid_mono [OF assms(3)]) simp
  have g: "on_grid 4 (book m s + signed_qty m)"
    using assms(3,4) by (auto simp: signed_qty_def split: Direction.splits)
  show ?thesis
  proof (cases "(m_TenantID m, m_ProductID m, m_WarehouseID m) = (t, p, w)")
    case True
    have "book m s' = book m s + signed_qty m"
      using apply_qty [OF assms(2)] apply_stored [OF assms(2)] numeric_fix [OF assms(1) g] by simp
    then have "on_hand t p w s' = on_hand t p w s + signed_qty m" using True by simp
    moreover have "ledger_qty t p w s' = ledger_qty t p w s + signed_qty m"
    proof -
      have "mv_at t p w (stored_movement E m')" "signed_qty (stored_movement E m') = signed_qty m"
        using True same_movementD [OF same] by (simp_all add: mv_at_def stored_movement_def signed_qty_def q6 split: Direction.split)
      then show ?thesis by (simp add: ledger_qty_def log)
    qed
    ultimately show ?thesis using assms(5) by simp
  next
    case False
    then have "\<not> mv_at t p w (stored_movement E m')"
      using same_movementD [OF same] by (auto simp: mv_at_def stored_movement_def)
    then have "ledger_qty t p w s' = ledger_qty t p w s" by (simp add: ledger_qty_def log)
    then show ?thesis using assms(5) apply_other [OF assms(2) False] by (simp add: on_hand_def)
  qed
qed

end

text \<open>
  A calculator that refuses no movement it has validated.  The premise on adjustments is needed:
  validation looks at negative adjustments only, so over an oversold book it lets a positive one
  pass that still leaves the book below zero, and \<open>ApplyMovement\<close> then refuses it.
\<close>

definition adjust_floor :: "Movement \<Rightarrow> rat \<Rightarrow> bool" where
  "adjust_floor m available \<longleftrightarrow> (m_Direction m = DirectionAdjust \<longrightarrow> 0 \<le> available + m_QtyBase m)"

locale total_calculator = inventory_calculator +
  assumes apply_total: "\<not> short m (book m s) \<Longrightarrow> adjust_floor m (book m s) \<Longrightarrow> movement_checks m \<Longrightarrow>
    \<exists>snap m' s'. ApplyMovement calc m s = Inr ((snap, m'), s')"
begin

lemma validated_applies:
  assumes "ValidateMovement calc m s = Inr (u, s')" "adjust_floor m (book m s)" "movement_checks m"
  shows "\<exists>snap m' s''. ApplyMovement calc m s' = Inr ((snap, m'), s'')"
proof -
  have "s' = s" using assms(1) by (rule validate_pure)
  moreover have "\<not> short m (book m s)" using assms(1) validate_ok_iff [of m s] by auto
  ultimately show ?thesis using apply_total assms(2,3) by simp
qed

end

section \<open>A sample book\<close>

text \<open>Ten units at cost 2 on the book of tenant 11, product 12, warehouse 13; used by the witnesses.\<close>

definition demo_snapshot :: Snapshot where
  "demo_snapshot = \<lparr> s_ID = 9, s_TenantID = 11, s_ProductID = 12, s_WarehouseID = 13, s_OnHandQty = 10,
     s_AvailableQty = 10, s_UnitCost = 2, s_CostStrategy = CostStrategyWAC, s_UpdatedAt = 5 \<rparr>"

definition demo_db :: db where
  "demo_db = empty_db\<lparr>stock_snapshot := [demo_snapshot]\<rparr>"

definition demo_movement :: "Direction \<Rightarrow> rat \<Rightarrow> rat \<Rightarrow> Movement" where
  "demo_movement d q c = \<lparr> m_ID = 7, m_TenantID = 11, m_ProductID = 12, m_WarehouseID = 13, m_Direction = d,
     m_QtyBase = q, m_UnitCost = c, m_TotalCost = 0, m_ReferenceType = RefPurchase, m_ReferenceID = Some 8,
     m_OccurredAt = 0, m_CreatedBy = None, m_Note = [], m_CreatedAt = 0, m_ExplicitCost = False,
     m_AllowNegative = False \<rparr>"

lemma demo_simps [simp]:
  "on_hand 11 12 13 demo_db = 10" "book_cost 11 12 13 demo_db = 2"
  "m_TenantID (demo_movement d q c) = 11" "m_ProductID (demo_movement d q c) = 12"
  "m_WarehouseID (demo_movement d q c) = 13" "m_Direction (demo_movement d q c) = d"
  "m_QtyBase (demo_movement d q c) = q" "m_UnitCost (demo_movement d q c) = c"
  "m_ExplicitCost (demo_movement d q c) = False" "m_AllowNegative (demo_movement d q c) = False"
  "movement_checks (demo_movement d q c) = (Direction_Validate d = Inr ())"
  by (simp_all add: demo_db_def demo_snapshot_def empty_db_def on_hand_def book_cost_def GetSnapshot_def
        snap_at_def demo_movement_def movement_checks_def)

end
