(* ===== verification/Calc_WAC.thy ===== *)
theory Calc_WAC
  imports Calculator
begin

text \<open>Weighted average cost, \<open>internal/app/stock/calc_wac.go\<close>.\<close>

section \<open>Weighted average cost\<close>

definition WAC_ValidateMovement :: "Movement \<Rightarrow> unit op" where
  "WAC_ValidateMovement m =
     (if m_Direction m = DirectionIn then returnE ()
      else bindE (mapErr (Wrap ''wac validate'') (SelectForUpdate (m_TenantID m) (m_ProductID m) (m_WarehouseID m)))
        (\<lambda>snap. let available = old_qty snap in
          case m_Direction m of
            DirectionOut \<Rightarrow>
              if available < m_QtyBase m \<and> \<not> m_AllowNegative m
              then failE (InsufficientStockError (m_ProductID m) available (m_QtyBase m)) else returnE ()
          | DirectionAdjust \<Rightarrow>
              if m_QtyBase m < 0 \<and> available < - m_QtyBase m
              then failE (InsufficientStockError (m_ProductID m) available (- m_QtyBase m)) else returnE ()
          | _ \<Rightarrow> returnE ()))"

text \<open>The switch of \<open>ApplyMovement\<close>: the new quantity, the new cost and the movement with its cost.\<close>

definition WAC_costs :: "env \<Rightarrow> Movement \<Rightarrow> rat \<Rightarrow> rat \<Rightarrow> err + (rat \<times> rat \<times> Movement)" where
  "WAC_costs E m oldQty oldCost =
     (case m_Direction m of
        DirectionIn \<Rightarrow>
          (let newQty = oldQty + m_QtyBase m;
               newCost = (if newQty = 0 then 0
                          else if \<not> 0 < oldQty then m_UnitCost m
                          else dround E 6 (ddiv E (oldQty * oldCost + m_QtyBase m * m_UnitCost m) newQty))
           in Inr (newQty, newCost, m\<lparr>m_TotalCost := m_QtyBase m * m_UnitCost m\<rparr>))
      | DirectionOut \<Rightarrow>
          if oldQty < m_QtyBase m \<and> \<not> m_AllowNegative m
          then Inl (InsufficientStockError (m_ProductID m) oldQty (m_QtyBase m))
          else if m_ExplicitCost m
          then Inr (oldQty - m_QtyBase m, costAfterExplicitOut E oldQty oldCost (m_QtyBase m) (m_UnitCost m),
                    m\<lparr>m_TotalCost := m_QtyBase m * m_UnitCost m\<rparr>)
          else Inr (oldQty - m_QtyBase m, oldCost, m\<lparr>m_UnitCost := oldCost, m_TotalCost := m_QtyBase m * oldCost\<rparr>)
      | DirectionAdjust \<Rightarrow>
          if oldQty + m_QtyBase m < 0
          then Inl (InsufficientStockError (m_ProductID m) oldQty (- m_QtyBase m))
          else if 0 < m_QtyBase m \<and> 0 < m_UnitCost m
          then Inr (oldQty + m_QtyBase m, blendedCost E oldQty oldCost (m_QtyBase m) (m_UnitCost m),
                    m\<lparr>m_TotalCost := m_QtyBase m * m_UnitCost m\<rparr>)
          else Inr (oldQty + m_QtyBase m, oldCost, m\<lparr>m_UnitCost := oldCost, m_TotalCost := \<bar>m_QtyBase m\<bar> * oldCost\<rparr>)
      | DirectionOther _ \<Rightarrow> Inr (0, 0, m))"

definition WAC_ApplyMovement :: "env \<Rightarrow> Movement \<Rightarrow> (Snapshot \<times> Movement) op" where
  "WAC_ApplyMovement E m =
     bindE (mapErr (Wrap ''wac apply: load snapshot'')
              (SelectForUpdate (m_TenantID m) (m_ProductID m) (m_WarehouseID m))) (\<lambda>snap.
     bindE (liftE (WAC_costs E m (old_qty snap) (old_cost snap))) (\<lambda>(newQty, newCost, m).
     let m = stamp_times E m in
     persist_movement E ''wac'' CostStrategyWAC snap newQty newCost m))"

definition WACCalculator :: "env \<Rightarrow> InventoryCalculator" where
  "WACCalculator E = \<lparr> ValidateMovement = WAC_ValidateMovement, ApplyMovement = WAC_ApplyMovement E,
     CalculatorName = CostStrategyWAC \<rparr>"


section \<open>The contract holds\<close>

lemma WAC_costs_facts:
  assumes "WAC_costs E m oldQty oldCost = Inr (newQty, newCost, m')" "movement_checks m"
  shows "newQty = oldQty + signed_qty m" "same_movement m m'" "\<not> short m oldQty"
  using assms
  by (auto simp: WAC_costs_def signed_qty_def short_def movement_checks_def Let_def
           split: Direction.splits if_splits)

lemma WAC_costs_ok:
  assumes "\<not> short m oldQty" "adjust_floor m oldQty" "movement_checks m"
  shows "\<exists>r. WAC_costs E m oldQty oldCost = Inr r"
  using assms
  by (auto simp: WAC_costs_def short_def movement_checks_def adjust_floor_def Let_def split: Direction.splits if_splits)

lemma WAC_ApplyMovement_Inr:
  "WAC_ApplyMovement E m s = Inr r \<longleftrightarrow>
     (\<exists>newQty newCost m1. WAC_costs E m (book m s) (cost_of m s) = Inr (newQty, newCost, m1) \<and>
        persist_movement E ''wac'' CostStrategyWAC (GetSnapshot (m_TenantID m) (m_ProductID m) (m_WarehouseID m) s)
          newQty newCost (stamp_times E m1) s = Inr r)"
  by (auto simp: WAC_ApplyMovement_def bindE_Inr liftE_Inr Let_def split: prod.splits)

lemma WAC_applied:
  assumes "WAC_ApplyMovement E m s = Inr ((snap, m'), s')"
  obtains newQty newCost m1 where
    "WAC_costs E m (book m s) (cost_of m s) = Inr (newQty, newCost, m1)" "m' = stamp_times E m1"
    "persist_movement E ''wac'' CostStrategyWAC (GetSnapshot (m_TenantID m) (m_ProductID m) (m_WarehouseID m) s)
       newQty newCost m' s = Inr ((snap, m'), s')"
    "movement_checks m" "same_movement m m'"
proof -
  obtain newQty newCost m1 where c: "WAC_costs E m (book m s) (cost_of m s) = Inr (newQty, newCost, m1)"
    and pm: "persist_movement E ''wac'' CostStrategyWAC (GetSnapshot (m_TenantID m) (m_ProductID m) (m_WarehouseID m) s)
          newQty newCost (stamp_times E m1) s = Inr ((snap, m'), s')"
    using assms by (auto simp: WAC_ApplyMovement_Inr)
  have same1: "same_movement m m1"
    using c by (auto simp: WAC_costs_def Let_def split: Direction.splits if_splits)
  have m': "m' = stamp_times E m1" and "movement_checks (stamp_times E m1)"
    using persist_movement_facts(1,2) [OF pm] by auto
  then have "movement_checks m" using same_movement_keeps(1) [OF same1] by simp
  moreover have "same_movement m m'" unfolding m' by (rule same_movement_trans [OF same1]) simp
  ultimately show ?thesis using that [OF c m'] pm m' by simp
qed

lemma WAC_only_short:
  assumes "WAC_ApplyMovement E m s = Inl e" "errors_unwrap e = InsufficientStockError p a r" "m_Direction m = DirectionOut"
  shows "short m (book m s)"
proof (rule ccontr)
  assume ns: "\<not> short m (book m s)"
  let ?snap = "GetSnapshot (m_TenantID m) (m_ProductID m) (m_WarehouseID m) s"
  obtain c where "WAC_costs E m (old_qty ?snap) (old_cost ?snap) = Inr c"
    using ns assms(3) by (cases "m_ExplicitCost m") (auto simp: WAC_costs_def short_def)
  then have "errors_unwrap e = ErrCheckViolation ''stock_movement''"
    using assms(1) by (auto simp: WAC_ApplyMovement_def Let_def split: prod.splits intro: persist_movement_Inl)
  then show False using assms(2) by simp
qed

interpretation wac: total_calculator E "WACCalculator E" for E
proof unfold_locales
  fix m s u s' e
  show "ValidateMovement (WACCalculator E) m s = Inr (u, s') \<Longrightarrow> s' = s"
    by (auto simp: WACCalculator_def WAC_ValidateMovement_def Let_def split: Direction.splits if_splits)
  show "(ValidateMovement (WACCalculator E) m s = Inl e) =
        (short m (book m s) \<and> e = InsufficientStockError (m_ProductID m) (book m s) (requested m))"
    by (auto simp: WACCalculator_def WAC_ValidateMovement_def short_def requested_def Let_def
             split: Direction.splits)
next
  fix m s snap m' s' t p w
  assume "ApplyMovement (WACCalculator E) m s = Inr ((snap, m'), s')"
  then have a: "WAC_ApplyMovement E m s = Inr ((snap, m'), s')" by (simp add: WACCalculator_def)
  then obtain newQty newCost m1 where c: "WAC_costs E m (book m s) (cost_of m s) = Inr (newQty, newCost, m1)"
    and pm: "persist_movement E ''wac'' CostStrategyWAC (GetSnapshot (m_TenantID m) (m_ProductID m) (m_WarehouseID m) s)
       newQty newCost m' s = Inr ((snap, m'), s')"
    and ch: "movement_checks m" and same: "same_movement m m'" by (rule WAC_applied)
  note q = WAC_costs_facts [OF c ch] and pf = persist_movement_facts [OF pm] and k = same_movement_keeps [OF same]
  show "movement_checks m" by (fact ch)
  show "\<not> short m (book m s)" by (fact q(3))
  show "s_OnHandQty snap = book m s + signed_qty m \<and> s_AvailableQty snap = s_OnHandQty snap" using q(1) pf(3,4) by simp
  show "book m s' = numeric E 4 (s_OnHandQty snap) \<and> cost_of m s' = numeric E 6 (s_UnitCost snap)"
    using pf(3,5,6,7) k(2,3) by simp
  show "same_movement m m' \<and> stock_movement s' = stock_movement s @ [stored_movement E m']" using same pf(8) by simp
  show "non_stock s' = non_stock s \<and> draws s \<le> draws s'" using pf(10,11) by simp
  show "GetSnapshot t p w s' = GetSnapshot t p w s"
    if "(m_TenantID m, m_ProductID m, m_WarehouseID m) \<noteq> (t, p, w)"
    using pf(12) that same_movementD [OF same] by simp
next
  fix m s e p a r
  show "ApplyMovement (WACCalculator E) m s = Inl e \<Longrightarrow> errors_unwrap e = InsufficientStockError p a r \<Longrightarrow>
          m_Direction m = DirectionOut \<Longrightarrow> short m (book m s)"
    by (rule WAC_only_short) (simp_all add: WACCalculator_def)
next
  fix m s
  assume sh: "\<not> short m (book m s)" and fl: "adjust_floor m (book m s)" and ch: "movement_checks m"
  obtain newQty newCost m1 where c: "WAC_costs E m (book m s) (cost_of m s) = Inr (newQty, newCost, m1)"
    using WAC_costs_ok [OF sh fl ch] by fastforce
  have "movement_checks (stamp_times E m1)"
    using WAC_costs_facts(2) [OF c ch] ch by (simp add: same_movement_keeps)
  from persist_movement_ok [OF this] c
  show "\<exists>snap m' s'. ApplyMovement (WACCalculator E) m s = Inr ((snap, m'), s')"
    by (simp add: WACCalculator_def WAC_ApplyMovement_Inr)
qed

section \<open>The cost the average carries\<close>

text \<open>A book row as the columns keep it, and a movement as its row keeps it.\<close>

definition book_grid :: "Movement \<Rightarrow> db \<Rightarrow> bool" where
  "book_grid m s \<longleftrightarrow> on_grid 4 (book m s) \<and> on_grid 6 (cost_of m s)"

definition movement_grid :: "Movement \<Rightarrow> bool" where
  "movement_grid m \<longleftrightarrow> on_grid 4 (m_QtyBase m) \<and> on_grid 6 (m_UnitCost m)"

abbreviation cost_error :: rat where
  "cost_error \<equiv> 1 / (2 * 10 ^ 6) + 1 / (2 * 10 ^ 16)"

lemma WAC_after:
  assumes "runtime_env E" "WAC_ApplyMovement E m s = Inr ((snap, m'), s')" "book_grid m s" "movement_grid m"
  obtains newCost m1 where "WAC_costs E m (book m s) (cost_of m s) = Inr (book m s + signed_qty m, newCost, m1)"
    "m' = stamp_times E m1" "book m s' = book m s + signed_qty m" "cost_of m s' = numeric E 6 newCost"
    "movement_checks m"
proof -
  obtain newQty newCost m1 where c: "WAC_costs E m (book m s) (cost_of m s) = Inr (newQty, newCost, m1)"
    and m': "m' = stamp_times E m1"
    and pm: "persist_movement E ''wac'' CostStrategyWAC (GetSnapshot (m_TenantID m) (m_ProductID m) (m_WarehouseID m) s)
       newQty newCost m' s = Inr ((snap, m'), s')"
    and ch: "movement_checks m" and same: "same_movement m m'" using assms(2) by (rule WAC_applied)
  have q: "newQty = book m s + signed_qty m" using WAC_costs_facts(1) [OF c ch] .
  have g: "on_grid 4 (book m s + signed_qty m)"
    using assms(3,4) by (auto simp: book_grid_def movement_grid_def signed_qty_def split: Direction.split)
  have "book m s' = numeric E 4 newQty" "cost_of m s' = numeric E 6 newCost"
    using persist_movement_facts(6,7) [OF pm] same_movement_keeps(2,3) [OF same] by simp_all
  then show ?thesis using that c m' ch numeric_fix [OF assms(1) g] by (simp add: q)
qed



text \<open>
  The average never leaves the range of the prices that went into it: after a receipt into
  positive stock it lies between the old average and the receipt's price.
\<close>

theorem wac_receipt_between:
  assumes "runtime_env E" "WAC_ApplyMovement E m s = Inr ((snap, m'), s')"
    and "m_Direction m = DirectionIn" "book_grid m s" "movement_grid m" "0 < book m s" "0 \<le> m_QtyBase m"
  shows "min (cost_of m s) (m_UnitCost m) \<le> cost_of m s' \<and> cost_of m s' \<le> max (cost_of m s) (m_UnitCost m)"
proof -
  let ?n = "book m s + m_QtyBase m" and ?v = "book m s * cost_of m s + m_QtyBase m * m_UnitCost m"
  let ?lo = "min (cost_of m s) (m_UnitCost m)" and ?hi = "max (cost_of m s) (m_UnitCost m)"
  obtain newCost m1 where c: "WAC_costs E m (book m s) (cost_of m s) = Inr (book m s + signed_qty m, newCost, m1)"
    and after: "cost_of m s' = numeric E 6 newCost"
    using assms(1,2,4,5) by (rule WAC_after)
  note c = c [unfolded signed_qty_simps(1) [OF assms(3)]]
  have pos: "0 < ?n" using assms(6,7) by simp
  have new: "newCost = dround E 6 (ddiv E ?v ?n)" using c assms(3,6) pos by (simp add: WAC_costs_def Let_def)
  have g: "on_grid 6 ?lo" "on_grid 6 ?hi" using assms(4,5) by (auto simp: book_grid_def movement_grid_def)
  have "book m s * ?lo \<le> book m s * cost_of m s" "m_QtyBase m * ?lo \<le> m_QtyBase m * m_UnitCost m"
    "book m s * cost_of m s \<le> book m s * ?hi" "m_QtyBase m * m_UnitCost m \<le> m_QtyBase m * ?hi"
    using assms(6,7) by (auto intro: mult_left_mono)
  then have "?lo * ?n \<le> ?v" "?v \<le> ?hi * ?n" by (simp_all add: algebra_simps)
  then have "?lo \<le> newCost" "newCost \<le> ?hi"
    unfolding new using runtime_env.div_round_between [OF assms(1) pos _ g] by simp_all
  then show ?thesis
    using after by (simp add: new numeric_fix [OF assms(1) dround_grid [OF assms(1)]])
qed

theorem wac_receipt_between_witness:
  "\<exists>snap m' s'. WAC_ApplyMovement std_env (demo_movement DirectionIn 5 8) demo_db = Inr ((snap, m'), s') \<and>
     2 \<le> cost_of (demo_movement DirectionIn 5 8) s' \<and> cost_of (demo_movement DirectionIn 5 8) s' \<le> 8"
proof -
  let ?m = "demo_movement DirectionIn 5 8"
  obtain snap m' s' where a: "WAC_ApplyMovement std_env ?m demo_db = Inr ((snap, m'), s')"
    using wac.apply_total [of ?m demo_db std_env] by (auto simp: WACCalculator_def short_def adjust_floor_def)
  have "book_grid ?m demo_db" "movement_grid ?m" by (simp_all add: book_grid_def movement_grid_def)
  from wac_receipt_between [OF std_runtime a _ this] a show ?thesis by auto
qed

text \<open>
  Goods leave at the average and leave it alone: an outbound movement without a price of its
  own is recorded at the book cost, and what stays plus what left is exactly what was there.
\<close>

theorem wac_out_value:
  assumes "runtime_env E" "WAC_ApplyMovement E m s = Inr ((snap, m'), s')"
    and "m_Direction m = DirectionOut" "\<not> m_ExplicitCost m" "book_grid m s" "movement_grid m"
  shows "cost_of m s' = cost_of m s \<and> m_UnitCost m' = cost_of m s
    \<and> book m s' * cost_of m s' + m_TotalCost m' = book m s * cost_of m s"
proof -
  obtain newCost m1 where c: "WAC_costs E m (book m s) (cost_of m s) = Inr (book m s + signed_qty m, newCost, m1)"
    and m': "m' = stamp_times E m1" and b: "book m s' = book m s + signed_qty m"
    and after: "cost_of m s' = numeric E 6 newCost"
    using assms(1,2,5,6) by (rule WAC_after)
  have "newCost = cost_of m s" "m1 = m\<lparr>m_UnitCost := cost_of m s, m_TotalCost := m_QtyBase m * cost_of m s\<rparr>"
    using c assms(3,4) by (auto simp: WAC_costs_def split: if_splits)
  moreover have "book m s' = book m s - m_QtyBase m" using b signed_qty_simps(2) [OF assms(3)] by simp
  ultimately show ?thesis
    using after m' assms(5) by (simp add: book_grid_def numeric_fix [OF assms(1)] left_diff_distrib)
qed

theorem wac_out_value_witness:
  "\<exists>snap m' s'. WAC_ApplyMovement std_env (demo_movement DirectionOut 4 0) demo_db = Inr ((snap, m'), s') \<and>
     cost_of (demo_movement DirectionOut 4 0) s' = 2 \<and> m_UnitCost m' = 2"
proof -
  let ?m = "demo_movement DirectionOut 4 0"
  obtain snap m' s' where a: "WAC_ApplyMovement std_env ?m demo_db = Inr ((snap, m'), s')"
    using wac.apply_total [of ?m demo_db std_env] by (auto simp: WACCalculator_def short_def adjust_floor_def)
  have "book_grid ?m demo_db" "movement_grid ?m" by (simp_all add: book_grid_def movement_grid_def)
  from wac_out_value [OF std_runtime a _ _ this] a show ?thesis by auto
qed

lemma max_zero_near: "\<bar>x - y\<bar> \<le> e \<Longrightarrow> \<bar>max x 0 - max 0 y\<bar> \<le> e" for x y e :: rat
  by (auto simp: max_def)

text \<open>
  Goods handed back at a price of their own (a purchase return) leave with exactly that value:
  what stays is worth the old total less it, up to rounding, as long as the old total covers it;
  otherwise the average is floored at zero.
\<close>

theorem wac_explicit_out_value:
  assumes "runtime_env E" "WAC_ApplyMovement E m s = Inr ((snap, m'), s')"
    and "m_Direction m = DirectionOut" "m_ExplicitCost m" "book_grid m s" "movement_grid m" "m_QtyBase m < book m s"
  shows "m_TotalCost m' = m_QtyBase m * m_UnitCost m \<and>
    \<bar>book m s' * cost_of m s' - max 0 (book m s * cost_of m s - m_TotalCost m')\<bar> \<le> book m s' * cost_error"
proof -
  let ?l = "book m s - m_QtyBase m" and ?v = "book m s * cost_of m s - m_QtyBase m * m_UnitCost m"
  obtain newCost m1 where c: "WAC_costs E m (book m s) (cost_of m s) = Inr (book m s + signed_qty m, newCost, m1)"
    and m': "m' = stamp_times E m1" and b: "book m s' = book m s + signed_qty m"
    and after: "cost_of m s' = numeric E 6 newCost"
    using assms(1,2,5,6) by (rule WAC_after)
  have pos: "0 < ?l" using assms(7) by simp
  have b: "book m s' = ?l" using b signed_qty_simps(2) [OF assms(3)] by simp
  have new: "newCost = max (dround E 6 (ddiv E ?v ?l)) 0" and tot: "m_TotalCost m' = m_QtyBase m * m_UnitCost m"
    using c m' pos assms(3,4) by (auto simp: WAC_costs_def costAfterExplicitOut_def Let_def split: if_splits)
  have cost: "cost_of m s' = newCost"
    unfolding after by (rule numeric_fix [OF assms(1)]) (auto simp: new intro: dround_grid [OF assms(1)])
  have "\<bar>newCost - max 0 (?v / ?l)\<bar> \<le> cost_error"
    unfolding new by (rule max_zero_near, rule runtime_env.div_round_near [OF assms(1)]) (use pos in simp)
  then have "\<bar>newCost - max 0 (?v / ?l)\<bar> * ?l \<le> cost_error * ?l" using pos by (intro mult_right_mono) auto
  moreover have "?l * newCost - max 0 ?v = (newCost - max 0 (?v / ?l)) * ?l"
    using pos by (auto simp: max_def field_simps split: if_splits)
  ultimately have "\<bar>?l * newCost - max 0 ?v\<bar> \<le> ?l * cost_error" using pos by (simp add: abs_mult mult.commute)
  then show ?thesis using b cost tot by simp
qed

theorem wac_explicit_out_value_witness:
  "\<exists>snap m' s'. WAC_ApplyMovement std_env ((demo_movement DirectionOut 4 3)\<lparr>m_ExplicitCost := True\<rparr>) demo_db
       = Inr ((snap, m'), s') \<and> m_TotalCost m' = 12 \<and>
     \<bar>on_hand 11 12 13 s' * book_cost 11 12 13 s' - 8\<bar> \<le> on_hand 11 12 13 s' * cost_error"
proof -
  let ?m = "(demo_movement DirectionOut 4 3)\<lparr>m_ExplicitCost := True\<rparr>"
  have ch: "movement_checks ?m" by (simp add: movement_checks_def demo_movement_def)
  have keys: "m_TenantID ?m = 11" "m_ProductID ?m = 12" "m_WarehouseID ?m = 13" by simp_all
  obtain snap m' s' where a: "WAC_ApplyMovement std_env ?m demo_db = Inr ((snap, m'), s')"
    using wac.apply_total [of ?m demo_db std_env] ch by (auto simp: WACCalculator_def short_def adjust_floor_def)
  have "book_grid ?m demo_db" "movement_grid ?m" by (simp_all add: book_grid_def movement_grid_def)
  from wac_explicit_out_value [OF std_runtime a _ _ this] a show ?thesis by (auto simp: keys)
qed

text \<open>
  C8: the average cost never turns negative, for movements with non-negative prices and receipts
  of a non-negative quantity, provided a stock count does not start from an oversold book.
\<close>

theorem wac_cost_nonneg:
  assumes "runtime_env E" "WAC_ApplyMovement E m s = Inr ((snap, m'), s')"
    and "0 \<le> cost_of m s" "0 \<le> m_UnitCost m"
    and "m_Direction m = DirectionIn \<longrightarrow> 0 \<le> m_QtyBase m"
    and "m_Direction m = DirectionAdjust \<longrightarrow> 0 \<le> book m s"
  shows "0 \<le> cost_of m s'"
proof -
  obtain newQty newCost m1 where c: "WAC_costs E m (book m s) (cost_of m s) = Inr (newQty, newCost, m1)"
    and pm: "persist_movement E ''wac'' CostStrategyWAC (GetSnapshot (m_TenantID m) (m_ProductID m) (m_WarehouseID m) s)
       newQty newCost m' s = Inr ((snap, m'), s')"
    and ch: "movement_checks m" and same: "same_movement m m'" using assms(2) by (rule WAC_applied)
  note round = runtime_env.div_round_nonneg [OF assms(1)]
  have blend: "0 \<le> blendedCost E (book m s) (cost_of m s) (m_QtyBase m) (m_UnitCost m)"
    if "0 \<le> book m s" "0 < m_QtyBase m"
    using that assms(3,4) by (auto simp: blendedCost_def Let_def intro!: round)
  have "0 \<le> newCost"
  proof (cases "m_Direction m")
    case DirectionIn
    then show ?thesis using c assms(3-5) by (auto simp: WAC_costs_def Let_def split: if_splits intro!: round)
  next
    case DirectionOut
    then show ?thesis using c assms(3) by (auto simp: WAC_costs_def costAfterExplicitOut_def Let_def split: if_splits)
  next
    case DirectionAdjust
    then show ?thesis using c assms(3,6) blend by (auto simp: WAC_costs_def split: if_splits)
  next
    case (DirectionOther d)
    then show ?thesis using ch by (simp add: movement_checks_def)
  qed
  moreover have "cost_of m s' = numeric E 6 newCost"
    using persist_movement_facts(7) [OF pm] same_movement_keeps(3) [OF same] by simp
  ultimately show ?thesis using numeric_nonneg [OF assms(1)] by simp
qed

theorem wac_cost_nonneg_witness:
  "\<exists>snap m' s'. WAC_ApplyMovement std_env (demo_movement DirectionAdjust (- 4) 0) demo_db = Inr ((snap, m'), s') \<and>
     0 \<le> book_cost 11 12 13 s'"
proof -
  let ?m = "demo_movement DirectionAdjust (- 4) 0"
  obtain snap m' s' where a: "WAC_ApplyMovement std_env ?m demo_db = Inr ((snap, m'), s')"
    using wac.apply_total [of ?m demo_db std_env] by (auto simp: WACCalculator_def short_def adjust_floor_def)
  from wac_cost_nonneg [OF std_runtime a] a show ?thesis by auto
qed

text \<open>
  Over an oversold book the proviso fails.  A priced count blends the negative quantity into
  the average instead of being valued like a receipt, and when the counted value does not cover
  the book value of what was oversold, the stored average cost is negative.
\<close>

theorem wac_count_over_oversold_negative:
  assumes "runtime_env E" "WAC_ApplyMovement E m s = Inr ((snap, m'), s')"
    and "m_Direction m = DirectionAdjust" "book_grid m s" "movement_grid m"
    and "book m s < 0" "0 < book m s + m_QtyBase m" "0 < m_UnitCost m"
    and "book m s * cost_of m s + m_QtyBase m * m_UnitCost m \<le> - (book m s + m_QtyBase m) / 10 ^ 6"
  shows "cost_of m s' < 0"
proof -
  let ?n = "book m s + m_QtyBase m" and ?v = "book m s * cost_of m s + m_QtyBase m * m_UnitCost m"
  obtain newCost m1 where c: "WAC_costs E m (book m s) (cost_of m s) = Inr (book m s + signed_qty m, newCost, m1)"
    and after: "cost_of m s' = numeric E 6 newCost"
    using assms(1,2,4,5) by (rule WAC_after)
  have "0 < m_QtyBase m" using assms(6,7) by simp
  then have new: "newCost = dround E 6 (ddiv E ?v ?n)"
    using c assms(3,6-8) by (auto simp: WAC_costs_def blendedCost_def Let_def split: if_splits)
  have "?v / ?n \<le> - 1 / 10 ^ 6" using assms(7,9) by (simp add: field_simps)
  then have "newCost \<le> - 1 / 10 ^ 6 + cost_error"
    using runtime_env.div_round_near [OF assms(1), of ?n 6 ?v] assms(7) unfolding new abs_le_iff by linarith
  then have "newCost < 0" by simp
  then show ?thesis using after by (simp add: new numeric_fix [OF assms(1) dround_grid [OF assms(1)]])
qed

theorem wac_count_over_oversold_negative_witness:
  "\<exists>snap m' s'. WAC_ApplyMovement std_env (demo_movement DirectionAdjust 6 1)
       (demo_db\<lparr>stock_snapshot := [demo_snapshot\<lparr>s_OnHandQty := - 5\<rparr>]\<rparr>) = Inr ((snap, m'), s') \<and>
     book_cost 11 12 13 s' < 0"
proof -
  let ?m = "demo_movement DirectionAdjust 6 1" and ?s = "demo_db\<lparr>stock_snapshot := [demo_snapshot\<lparr>s_OnHandQty := - 5\<rparr>]\<rparr>"
  have b: "on_hand 11 12 13 ?s = - 5" "book_cost 11 12 13 ?s = 2"
    by (simp_all add: on_hand_def book_cost_def GetSnapshot_def snap_at_def demo_snapshot_def)
  obtain snap m' s' where a: "WAC_ApplyMovement std_env ?m ?s = Inr ((snap, m'), s')"
    using wac.apply_total [of ?m ?s std_env] by (auto simp: WACCalculator_def short_def adjust_floor_def b)
  have "book_grid ?m ?s" "movement_grid ?m" by (auto simp: book_grid_def movement_grid_def b)
  from wac_count_over_oversold_negative [OF std_runtime a _ this] a show ?thesis by (auto simp: b)
qed

end
