(* ===== verification/Calc_FIFO.thy ===== *)
theory Calc_FIFO
  imports Calculator "HOL-Library.Multiset"
begin

text \<open>First in, first out, \<open>internal/app/stock/calc_fifo.go\<close>.\<close>

section \<open>First in, first out\<close>

definition FIFO_ValidateMovement :: "Movement \<Rightarrow> unit op" where
  "FIFO_ValidateMovement m =
     (if m_Direction m = DirectionIn then returnE ()
      else bindE (mapErr (Wrap ''fifo validate'') (SelectForUpdate (m_TenantID m) (m_ProductID m) (m_WarehouseID m)))
        (\<lambda>snap. let available = old_qty snap in
          case m_Direction m of
            DirectionOut \<Rightarrow>
              if available < m_QtyBase m \<and> \<not> m_AllowNegative m
              then failE (InsufficientStockError (m_ProductID m) available (m_QtyBase m)) else returnE ()
          | DirectionAdjust \<Rightarrow>
              if m_QtyBase m < 0 \<and> available < - m_QtyBase m
              then failE (InsufficientStockError (m_ProductID m) available (- m_QtyBase m)) else returnE ()
          | _ \<Rightarrow> returnE ()))"

definition lotsAtCostFirst :: "Lot list \<Rightarrow> rat \<Rightarrow> Lot list" where
  "lotsAtCostFirst lots unitCost =
     filter (\<lambda>l. l_UnitCost l = unitCost) lots @ filter (\<lambda>l. l_UnitCost l \<noteq> unitCost) lots"

text \<open>The drain loop: what is left to take and the cost of what was taken.\<close>

fun fifo_drain :: "env \<Rightarrow> Lot list \<Rightarrow> rat \<Rightarrow> rat \<Rightarrow> (rat \<times> rat) op" where
  "fifo_drain E [] remaining totalCost = returnE (remaining, totalCost)"
| "fifo_drain E (lot # lots) remaining totalCost =
     (if remaining = 0 then returnE (remaining, totalCost)
      else let consume = min (l_QtyRemaining lot) remaining in
        thenE (mapErr (Wrap ''fifo apply: update lot qty'')
                 (UpdateLotQty E (l_ID lot) (l_QtyRemaining lot - consume)))
              (fifo_drain E lots (remaining - consume) (totalCost + consume * l_UnitCost lot)))"

definition new_lot :: "env \<Rightarrow> Movement \<Rightarrow> rat \<Rightarrow> unit op" where
  "new_lot E m remaining = bindE (uuid_New E) (\<lambda>lotID.
     mapErr (Wrap ''fifo apply: insert lot'') (InsertLot E
       \<lparr> l_ID = lotID, l_TenantID = m_TenantID m, l_ProductID = m_ProductID m, l_WarehouseID = m_WarehouseID m,
         l_LotNo = ''LOT-'' @ take 8 (uuid_string E lotID), l_Qty = m_QtyBase m, l_QtyRemaining = remaining,
         l_UnitCost = m_UnitCost m, l_ReceivedAt = m_OccurredAt m, l_SourceMovementID = Some (m_ID m),
         l_CreatedAt = now E \<rparr>))"

definition FIFO_in :: "env \<Rightarrow> Movement \<Rightarrow> rat \<Rightarrow> rat \<Rightarrow> (rat \<times> rat \<times> Movement) op" where
  "FIFO_in E m oldQty oldCost =
     (let newQty = oldQty + m_QtyBase m in
      thenE (new_lot E m (if oldQty < 0 then max 0 (m_QtyBase m + oldQty) else m_QtyBase m))
      (bindE (if \<not> 0 < oldQty then returnE (m_UnitCost m)
              else liftE (map_sum id (dround E 6)
                     (decimal_Div E (oldQty * oldCost + m_QtyBase m * m_UnitCost m) newQty)))
        (\<lambda>newCost. returnE (newQty, newCost, m\<lparr>m_TotalCost := m_QtyBase m * m_UnitCost m\<rparr>))))"

text \<open>After the loop: the oversold part leaves at the book cost, otherwise everything must be drained.\<close>

definition fifo_settle :: "env \<Rightarrow> Movement \<Rightarrow> rat \<Rightarrow> rat \<Rightarrow> rat \<Rightarrow> rat \<Rightarrow> err + (rat \<times> rat \<times> Movement)" where
  "fifo_settle E m oldQty oldCost remaining totalCost =
     (let oversold = 0 < remaining \<and> m_AllowNegative m;
          totalCost = (if oversold then totalCost + remaining * oldCost else totalCost);
          remaining = (if oversold then 0 else remaining) in
      if 0 < remaining then Inl (ErrMsg ''fifo apply: lots exhausted before qty satisfied'')
      else case decimal_Div E totalCost (m_QtyBase m) of
             Inl e \<Rightarrow> Inl e
           | Inr d \<Rightarrow>
               (let m = m\<lparr>m_UnitCost := dround E 6 d, m_TotalCost := totalCost\<rparr>;
                    newCost = (if m_ExplicitCost m
                               then costAfterExplicitOut E oldQty oldCost (m_QtyBase m) (m_UnitCost m) else oldCost)
                in Inr (oldQty - m_QtyBase m, newCost, m)))"

definition FIFO_out :: "env \<Rightarrow> Movement \<Rightarrow> rat \<Rightarrow> rat \<Rightarrow> (rat \<times> rat \<times> Movement) op" where
  "FIFO_out E m oldQty oldCost =
     (if oldQty < m_QtyBase m \<and> \<not> m_AllowNegative m
      then failE (InsufficientStockError (m_ProductID m) oldQty (m_QtyBase m))
      else
      bindE (mapErr (Wrap ''fifo apply: list lots'') (ListActiveLots (m_TenantID m) (m_ProductID m) (m_WarehouseID m)))
        (\<lambda>lots. let lots = (if m_ExplicitCost m then lotsAtCostFirst lots (m_UnitCost m) else lots) in
      bindE (fifo_drain E lots (m_QtyBase m) 0) (\<lambda>(remaining, totalCost).
      liftE (fifo_settle E m oldQty oldCost remaining totalCost))))"

definition FIFO_adjust :: "env \<Rightarrow> Movement \<Rightarrow> rat \<Rightarrow> rat \<Rightarrow> (rat \<times> rat \<times> Movement) op" where
  "FIFO_adjust E m oldQty oldCost =
     (let newQty = oldQty + m_QtyBase m in
      if newQty < 0 then failE (InsufficientStockError (m_ProductID m) oldQty (- m_QtyBase m))
      else if 0 < m_QtyBase m \<and> 0 < m_UnitCost m
      then thenE (new_lot E m (m_QtyBase m))
             (returnE (newQty, blendedCost E oldQty oldCost (m_QtyBase m) (m_UnitCost m),
                       m\<lparr>m_TotalCost := m_QtyBase m * m_UnitCost m\<rparr>))
      else returnE (newQty, oldCost, m\<lparr>m_UnitCost := oldCost, m_TotalCost := \<bar>m_QtyBase m\<bar> * oldCost\<rparr>))"

definition FIFO_costs :: "env \<Rightarrow> Movement \<Rightarrow> rat \<Rightarrow> rat \<Rightarrow> (rat \<times> rat \<times> Movement) op" where
  "FIFO_costs E m oldQty oldCost =
     (case m_Direction m of
        DirectionIn \<Rightarrow> FIFO_in E m oldQty oldCost
      | DirectionOut \<Rightarrow> FIFO_out E m oldQty oldCost
      | DirectionAdjust \<Rightarrow> FIFO_adjust E m oldQty oldCost
      | DirectionOther _ \<Rightarrow> returnE (0, 0, m))"

definition FIFO_ApplyMovement :: "env \<Rightarrow> Movement \<Rightarrow> (Snapshot \<times> Movement) op" where
  "FIFO_ApplyMovement E m =
     bindE (mapErr (Wrap ''fifo apply: load snapshot'')
              (SelectForUpdate (m_TenantID m) (m_ProductID m) (m_WarehouseID m))) (\<lambda>snap.
     let m = stamp_times E m in
     bindE (FIFO_costs E m (old_qty snap) (old_cost snap)) (\<lambda>(newQty, newCost, m).
     persist_movement E ''fifo'' CostStrategyFIFO snap newQty newCost m))"

definition FIFOCalculator :: "env \<Rightarrow> InventoryCalculator" where
  "FIFOCalculator E = \<lparr> ValidateMovement = FIFO_ValidateMovement, ApplyMovement = FIFO_ApplyMovement E,
     CalculatorName = CostStrategyFIFO \<rparr>"


section \<open>The contract holds\<close>

text \<open>What the cost step leaves alone: everything but the lots and the id sequence.\<close>

definition lots_only :: "db \<Rightarrow> db" where
  "lots_only s = s\<lparr>stock_lot := [], draws := 0\<rparr>"

lemma lots_only_updates [simp]:
  "lots_only (s\<lparr>stock_lot := x\<rparr>) = lots_only s" "lots_only (s\<lparr>draws := n\<rparr>) = lots_only s"
  by (simp_all add: lots_only_def)

lemma lots_onlyD:
  assumes "lots_only s' = lots_only s"
  shows "stock_snapshot s' = stock_snapshot s" "stock_movement s' = stock_movement s" "non_stock s' = non_stock s"
  using assms by (cases s; cases s'; simp add: lots_only_def non_stock_def)+

definition lots_frame :: "db \<Rightarrow> db \<Rightarrow> bool" where
  "lots_frame s0 s \<longleftrightarrow> lots_only s = lots_only s0 \<and> draws s0 \<le> draws s"

lemma fifo_drain_frame: "preserves (lots_frame s0) (fifo_drain E lots r c)"
  by (induction E lots r c rule: fifo_drain.induct)
     (auto intro!: tripleI simp: Let_def UpdateLotQty_def lots_frame_def)

lemma new_lot_frame: "preserves (lots_frame s0) (new_lot E m r)"
  by (auto intro!: tripleI simp: new_lot_def InsertLot_def lots_frame_def)

lemma FIFO_costs_frame: "preserves (lots_frame s0) (FIFO_costs E m q c)"
  unfolding FIFO_costs_def FIFO_in_def FIFO_out_def FIFO_adjust_def ListActiveLots_def Let_def
  by (cases "m_Direction m") (auto intro!: tripleI new_lot_frame fifo_drain_frame)

text \<open>What each branch of the switch returns.\<close>

lemma FIFO_in_Inr:
  assumes "FIFO_in E m q c s = Inr (r, s')"
  obtains newCost where "r = (q + m_QtyBase m, newCost, m\<lparr>m_TotalCost := m_QtyBase m * m_UnitCost m\<rparr>)"
    "new_lot E m (if q < 0 then max 0 (m_QtyBase m + q) else m_QtyBase m) s = Inr ((), s')"
    "if 0 < q then q + m_QtyBase m \<noteq> 0 \<and>
       newCost = dround E 6 (ddiv E (q * c + m_QtyBase m * m_UnitCost m) (q + m_QtyBase m)) else newCost = m_UnitCost m"
  using assms unfolding FIFO_in_def Let_def thenE_Inr bindE_Inr
  by (cases "0 < q"; cases "q + m_QtyBase m = 0") (clarsimp simp: decimal_Div_def)+

definition drain_order :: "Movement \<Rightarrow> db \<Rightarrow> Lot list" where
  "drain_order m s =
     (let lots = sort_key l_ReceivedAt (filter (\<lambda>l. lot_at (m_TenantID m) (m_ProductID m) (m_WarehouseID m) l
                    \<and> 0 < l_QtyRemaining l) (stock_lot s))
      in if m_ExplicitCost m then lotsAtCostFirst lots (m_UnitCost m) else lots)"

lemma FIFO_out_Inr:
  assumes "FIFO_out E m q c s = Inr (r, s')"
  obtains remaining taken total m' where "fifo_drain E (drain_order m s) (m_QtyBase m) 0 s = Inr ((remaining, taken), s')"
    "\<not> (q < m_QtyBase m \<and> \<not> m_AllowNegative m)" "0 < remaining \<Longrightarrow> m_AllowNegative m" "m_QtyBase m \<noteq> 0"
    "total = (if 0 < remaining then taken + remaining * c else taken)"
    "m' = m\<lparr>m_UnitCost := dround E 6 (ddiv E total (m_QtyBase m)), m_TotalCost := total\<rparr>"
    "r = (q - m_QtyBase m,
          (if m_ExplicitCost m then costAfterExplicitOut E q c (m_QtyBase m) (m_UnitCost m') else c), m')"
proof -
  have ns: "\<not> (q < m_QtyBase m \<and> \<not> m_AllowNegative m)"
    using assms by (cases "q < m_QtyBase m \<and> \<not> m_AllowNegative m") (simp_all add: FIFO_out_def)
  then obtain remaining taken where d: "fifo_drain E (drain_order m s) (m_QtyBase m) 0 s = Inr ((remaining, taken), s')"
    and k: "fifo_settle E m q c remaining taken = Inr r"
    using assms by (auto simp: FIFO_out_def ListActiveLots_def drain_order_def bindE_Inr liftE_Inr Let_def
                         split: prod.splits simp del: not_less)
  show ?thesis
    using k by (intro that [OF d ns _ _ refl refl])
      (auto simp: fifo_settle_def decimal_Div_def Let_def split: if_splits)
qed

lemma FIFO_adjust_Inr:
  assumes "FIFO_adjust E m q c s = Inr (r, s')"
  shows "\<exists>newCost u t. r = (q + m_QtyBase m, newCost, m\<lparr>m_UnitCost := u, m_TotalCost := t\<rparr>)" "0 \<le> q + m_QtyBase m"
    "(if 0 < m_QtyBase m \<and> 0 < m_UnitCost m then new_lot E m (m_QtyBase m) s = Inr ((), s') else s' = s)"
proof -
  have f: "\<not> q + m_QtyBase m < 0"
    using assms by (cases "q + m_QtyBase m < 0") (simp_all add: FIFO_adjust_def Let_def)
  then show "0 \<le> q + m_QtyBase m" by simp
  show "\<exists>newCost u t. r = (q + m_QtyBase m, newCost, m\<lparr>m_UnitCost := u, m_TotalCost := t\<rparr>)"
    "(if 0 < m_QtyBase m \<and> 0 < m_UnitCost m then new_lot E m (m_QtyBase m) s = Inr ((), s') else s' = s)"
    using assms f by (cases m; auto simp: FIFO_adjust_def Let_def thenE_Inr split: if_splits)+
qed

lemma FIFO_costs_facts:
  assumes "FIFO_costs E m oldQty oldCost s = Inr ((newQty, newCost, m'), s')"
  shows "same_movement m m'" "movement_checks m \<Longrightarrow> newQty = oldQty + signed_qty m" "\<not> short m oldQty"
proof (atomize (full), cases "m_Direction m")
  case DirectionIn
  then have "FIFO_in E m oldQty oldCost s = Inr ((newQty, newCost, m'), s')" using assms by (simp add: FIFO_costs_def)
  then show "same_movement m m' \<and> (movement_checks m \<longrightarrow> newQty = oldQty + signed_qty m) \<and> \<not> short m oldQty"
    by (rule FIFO_in_Inr) (use DirectionIn in \<open>auto simp: signed_qty_def short_def\<close>)
next
  case DirectionOut
  then have "FIFO_out E m oldQty oldCost s = Inr ((newQty, newCost, m'), s')" using assms by (simp add: FIFO_costs_def)
  then show "same_movement m m' \<and> (movement_checks m \<longrightarrow> newQty = oldQty + signed_qty m) \<and> \<not> short m oldQty"
    by (rule FIFO_out_Inr) (use DirectionOut in \<open>auto simp: signed_qty_def short_def\<close>)
next
  case DirectionAdjust
  then have "FIFO_adjust E m oldQty oldCost s = Inr ((newQty, newCost, m'), s')" using assms by (simp add: FIFO_costs_def)
  from FIFO_adjust_Inr [OF this] DirectionAdjust
  show "same_movement m m' \<and> (movement_checks m \<longrightarrow> newQty = oldQty + signed_qty m) \<and> \<not> short m oldQty"
    by (auto simp: signed_qty_def short_def)
next
  case (DirectionOther d)
  then show "same_movement m m' \<and> (movement_checks m \<longrightarrow> newQty = oldQty + signed_qty m) \<and> \<not> short m oldQty"
    using assms by (simp add: FIFO_costs_def movement_checks_def short_def)
qed

lemmas FIFO_costs_same = FIFO_costs_facts(1)

lemma FIFO_applied:
  assumes "FIFO_ApplyMovement E m s = Inr ((snap, m'), s')"
  obtains newQty newCost s1 where
    "FIFO_costs E (stamp_times E m) (book m s) (cost_of m s) s = Inr ((newQty, newCost, m'), s1)"
    "persist_movement E ''fifo'' CostStrategyFIFO (GetSnapshot (m_TenantID m) (m_ProductID m) (m_WarehouseID m) s)
       newQty newCost m' s1 = Inr ((snap, m'), s')"
    "movement_checks m" "same_movement m m'" "lots_frame s s1"
proof -
  obtain newQty newCost m1 s1 where c: "FIFO_costs E (stamp_times E m) (book m s) (cost_of m s) s = Inr ((newQty, newCost, m1), s1)"
    and pm: "persist_movement E ''fifo'' CostStrategyFIFO (GetSnapshot (m_TenantID m) (m_ProductID m) (m_WarehouseID m) s)
       newQty newCost m1 s1 = Inr ((snap, m'), s')"
    using assms by (auto simp: FIFO_ApplyMovement_def bindE_Inr Let_def split: prod.splits)
  have m': "m' = m1" and "movement_checks m1" using persist_movement_facts(1,2) [OF pm] by auto
  have same: "same_movement m m'"
    unfolding m' by (rule same_movement_trans [OF same_movement_stamp FIFO_costs_same [OF c]])
  moreover have "movement_checks m" using \<open>movement_checks m1\<close> same_movement_keeps(1) [OF same] m' by simp
  moreover have "lots_frame s s1" by (rule tripleD [OF FIFO_costs_frame _ c]) (simp add: lots_frame_def)
  ultimately show ?thesis using that c pm m' by simp
qed

lemma fifo_drain_returns: "\<exists>r s'. fifo_drain E lots q c s = Inr (r, s')"
  by (induction E lots q c arbitrary: s rule: fifo_drain.induct)
     (auto simp: Let_def thenE_Inr UpdateLotQty_def)

lemma fifo_settle_Inl: "fifo_settle E m oq oc rem tc = Inl e \<Longrightarrow> \<exists>x. e = ErrMsg x \<or> e = GoPanic x"
  by (auto simp: fifo_settle_def Let_def decimal_Div_def split: if_splits)

lemma FIFO_only_short:
  assumes "FIFO_ApplyMovement E m s = Inl e" "errors_unwrap e = InsufficientStockError p a r" "m_Direction m = DirectionOut"
  shows "short m (book m s)"
proof (rule ccontr)
  assume ns: "\<not> short m (book m s)"
  let ?m = "stamp_times E m"
  have d: "m_Direction ?m = DirectionOut" "m_QtyBase ?m = m_QtyBase m" "m_AllowNegative ?m = m_AllowNegative m"
    using assms(3) by (simp_all add: stamp_times_def)
  have c: "FIFO_costs E ?m (book m s) (cost_of m s) s \<noteq> Inl e"
  proof
    assume f: "FIFO_costs E ?m (book m s) (cost_of m s) s = Inl e"
    have "\<not> (book m s < m_QtyBase ?m \<and> \<not> m_AllowNegative ?m)" using ns assms(3) d by (auto simp: short_def)
    then have "\<exists>lots. bindE (fifo_drain E lots (m_QtyBase ?m) 0) (\<lambda>(remaining, totalCost).
        liftE (fifo_settle E ?m (book m s) (cost_of m s) remaining totalCost)) s = Inl e"
      using f assms(3) by (auto simp: FIFO_costs_def FIFO_out_def Let_def ListActiveLots_def bindE_Inl mapErr_Inl) blast+
    then obtain lots where b: "bindE (fifo_drain E lots (m_QtyBase ?m) 0) (\<lambda>(remaining, totalCost).
        liftE (fifo_settle E ?m (book m s) (cost_of m s) remaining totalCost)) s = Inl e" by blast
    obtain rem tc s1 where "fifo_drain E lots (m_QtyBase ?m) 0 s = Inr ((rem, tc), s1)" using fifo_drain_returns by (metis surj_pair)
    then have "fifo_settle E ?m (book m s) (cost_of m s) rem tc = Inl e" using b by (simp add: liftE_Inl)
    then show False using fifo_settle_Inl assms(2) by fastforce
  qed
  then have "errors_unwrap e = ErrCheckViolation ''stock_movement''"
    using assms(1) by (auto simp: FIFO_ApplyMovement_def Let_def bindE_Inl split: prod.splits intro: persist_movement_Inl)
  then show False using assms(2) by simp
qed

interpretation fifo: inventory_calculator E "FIFOCalculator E" for E
proof unfold_locales
  fix m s u s' e
  show "ValidateMovement (FIFOCalculator E) m s = Inr (u, s') \<Longrightarrow> s' = s"
    by (auto simp: FIFOCalculator_def FIFO_ValidateMovement_def Let_def split: Direction.splits if_splits)
  show "(ValidateMovement (FIFOCalculator E) m s = Inl e) =
        (short m (book m s) \<and> e = InsufficientStockError (m_ProductID m) (book m s) (requested m))"
    by (auto simp: FIFOCalculator_def FIFO_ValidateMovement_def short_def requested_def Let_def
             split: Direction.splits)
next
  fix m s snap m' s' t p w
  assume "ApplyMovement (FIFOCalculator E) m s = Inr ((snap, m'), s')"
  then have a: "FIFO_ApplyMovement E m s = Inr ((snap, m'), s')" by (simp add: FIFOCalculator_def)
  then obtain newQty newCost s1 where
    c: "FIFO_costs E (stamp_times E m) (book m s) (cost_of m s) s = Inr ((newQty, newCost, m'), s1)"
    and pm: "persist_movement E ''fifo'' CostStrategyFIFO (GetSnapshot (m_TenantID m) (m_ProductID m) (m_WarehouseID m) s)
       newQty newCost m' s1 = Inr ((snap, m'), s')"
    and ch: "movement_checks m" and same: "same_movement m m'" and fr: "lots_frame s s1" by (rule FIFO_applied)
  have ch': "movement_checks (stamp_times E m)" using ch by simp
  note q = FIFO_costs_facts(2) [OF c ch'] FIFO_costs_facts(2,3) [OF c] and pf = persist_movement_facts [OF pm] and k = same_movement_keeps [OF same]
  have s1: "stock_snapshot s1 = stock_snapshot s" "stock_movement s1 = stock_movement s" "non_stock s1 = non_stock s"
    "draws s \<le> draws s1" using fr lots_onlyD [of s1 s] by (simp_all add: lots_frame_def)
  show "movement_checks m" by (fact ch)
  show "\<not> short m (book m s)" using q(3) same_movement_keeps(5) [OF same_movement_stamp [of m E]] by simp
  show "s_OnHandQty snap = book m s + signed_qty m \<and> s_AvailableQty snap = s_OnHandQty snap"
    using q(1) pf(3,4) same_movement_keeps(4) [OF same_movement_stamp [of m E]] by simp
  show "book m s' = numeric E 4 (s_OnHandQty snap) \<and> cost_of m s' = numeric E 6 (s_UnitCost snap)"
    using pf(3,5,6,7) k(2,3) by simp
  show "same_movement m m' \<and> stock_movement s' = stock_movement s @ [stored_movement E m']" using same pf(8) s1 by simp
  show "non_stock s' = non_stock s \<and> draws s \<le> draws s'" using pf(10,11) s1 by simp
  show "GetSnapshot t p w s' = GetSnapshot t p w s"
    if "(m_TenantID m, m_ProductID m, m_WarehouseID m) \<noteq> (t, p, w)"
    using pf(12) that same_movementD [OF same] s1 by (simp add: GetSnapshot_def)
next
  fix m s e p a r
  show "ApplyMovement (FIFOCalculator E) m s = Inl e \<Longrightarrow> errors_unwrap e = InsufficientStockError p a r \<Longrightarrow>
          m_Direction m = DirectionOut \<Longrightarrow> short m (book m s)"
    by (rule FIFO_only_short) (simp_all add: FIFOCalculator_def)
qed

section \<open>The drain loop against its specification\<close>

text \<open>How much each lot gives, in order: as much as it has, until the quantity is met.\<close>

fun drain_amounts :: "rat list \<Rightarrow> rat \<Rightarrow> rat list" where
  "drain_amounts [] q = []"
| "drain_amounts (r # rs) q = min r q # drain_amounts rs (q - min r q)"

definition amount_of :: "uuid list \<Rightarrow> rat list \<Rightarrow> uuid \<Rightarrow> rat" where
  "amount_of ids am i = (case map_of (zip ids am) i of None \<Rightarrow> 0 | Some a \<Rightarrow> a)"

definition consume_lots :: "(uuid \<Rightarrow> rat) \<Rightarrow> Lot list \<Rightarrow> Lot list" where
  "consume_lots f rows = map (\<lambda>l. l\<lparr>l_QtyRemaining := l_QtyRemaining l - f (l_ID l)\<rparr>) rows"

lemma length_drain_amounts [simp]: "length (drain_amounts rs q) = length rs"
  by (induction rs arbitrary: q) auto

lemma drain_amounts_zero: "(\<And>r. r \<in> set rs \<Longrightarrow> 0 \<le> r) \<Longrightarrow> drain_amounts rs 0 = map (\<lambda>_. 0) rs"
proof (induction rs)
  case (Cons r rs)
  have "0 \<le> r" using Cons.prems by simp
  then have "min r 0 = 0" by simp
  then show ?case using Cons by simp
qed simp

lemma drain_amounts_sum:
  assumes "\<And>r. r \<in> set rs \<Longrightarrow> 0 \<le> r" "0 \<le> q"
  shows "sum_list (drain_amounts rs q) = min q (sum_list rs)"
  using assms
proof (induction rs arbitrary: q)
  case (Cons r rs)
  have "0 \<le> sum_list rs" using Cons.prems by (intro sum_list_nonneg) auto
  then show ?case using Cons.prems Cons.IH [of "q - min r q"] by (auto simp: min_def split: if_splits)
qed simp

lemma drain_amounts_bounds:
  assumes "\<And>r. r \<in> set rs \<Longrightarrow> 0 \<le> r" "0 \<le> q" "i < length rs"
  shows "0 \<le> drain_amounts rs q ! i" "drain_amounts rs q ! i \<le> rs ! i"
  using assms by (induction rs arbitrary: q i; force simp: min_def less_Suc_eq_0_disj)+

text \<open>A lot gives only once every lot before it is empty.\<close>

lemma drain_amounts_order:
  assumes "\<And>r. r \<in> set rs \<Longrightarrow> 0 \<le> r" "0 \<le> q" "i < j" "j < length rs" "0 < drain_amounts rs q ! j"
  shows "drain_amounts rs q ! i = rs ! i"
  using assms
proof (induction rs arbitrary: q i j)
  case (Cons r rs)
  obtain j' where j: "j = Suc j'" using Cons.prems(3) by (cases j) auto
  have pos: "\<And>x. x \<in> set rs \<Longrightarrow> 0 \<le> x" using Cons.prems(1) by simp
  have "q - min r q \<noteq> 0"
  proof
    assume "q - min r q = 0"
    then have "drain_amounts (r # rs) q ! j = 0"
      using j Cons.prems(4) by (simp add: drain_amounts_zero [OF pos])
    then show False using Cons.prems(5) by simp
  qed
  then have "min r q = r" by (auto simp: min_def split: if_splits)
  then show ?case
    using Cons.IH [of "q - min r q" "i - 1" j'] Cons.prems j pos
    by (cases i) (auto simp: min_def split: if_splits)
qed simp

lemma drain_amounts_grid:
  assumes "\<And>r. r \<in> set rs \<Longrightarrow> on_grid n r" "on_grid n q" "a \<in> set (drain_amounts rs q)"
  shows "on_grid n a"
  using assms by (induction rs arbitrary: q) (auto intro!: on_grid_min on_grid_diff)

lemma amount_of_Cons: "amount_of (i # ids) (a # am) j = (if j = i then a else amount_of ids am j)"
  by (simp add: amount_of_def)

lemma amount_of_notin: "i \<notin> set ids \<Longrightarrow> amount_of ids am i = 0"
  by (auto simp: amount_of_def split: option.split dest: map_of_SomeD in_set_zipE elim: set_zip_leftD)

lemma amount_of_zero: "amount_of ids (map (\<lambda>_. 0) rs) = (\<lambda>_. 0)"
  by (auto simp: amount_of_def fun_eq_iff split: option.split dest!: map_of_SomeD set_zip_rightD)

lemma amount_of_nth: "distinct ids \<Longrightarrow> k < length ids \<Longrightarrow> length am = length ids \<Longrightarrow> amount_of ids am (ids ! k) = am ! k"
  by (simp add: amount_of_def map_of_zip_nth)

lemma consume_lots_zero [simp]: "consume_lots (\<lambda>_. 0) rows = rows"
  by (simp add: consume_lots_def)

definition lots_current :: "Lot list \<Rightarrow> db \<Rightarrow> bool" where
  "lots_current lots s \<longleftrightarrow>
     (\<forall>x \<in> set (stock_lot s). \<forall>l \<in> set lots. l_ID x = l_ID l \<longrightarrow> l_QtyRemaining x = l_QtyRemaining l)"

lemma fifo_drain_spec:
  assumes "runtime_env E" "0 \<le> q" "on_grid 4 q" "distinct (map l_ID lots)" "lots_current lots s"
    and "\<And>l. l \<in> set lots \<Longrightarrow> 0 \<le> l_QtyRemaining l \<and> on_grid 4 (l_QtyRemaining l)"
  shows "fifo_drain E lots q c s =
    (let am = drain_amounts (map l_QtyRemaining lots) q in
     Inr ((q - sum_list am, c + sum_list (map2 (\<lambda>l a. a * l_UnitCost l) lots am)),
          s\<lparr>stock_lot := consume_lots (amount_of (map l_ID lots) am) (stock_lot s)\<rparr>))"
  using assms(2-)
proof (induction lots arbitrary: q c s)
  case Nil
  then show ?case by (simp add: returnE_def amount_of_def)
next
  case (Cons l lots)
  let ?rs = "map l_QtyRemaining lots" and ?a = "min (l_QtyRemaining l) q"
  have pos: "\<And>r. r \<in> set (map l_QtyRemaining (l # lots)) \<Longrightarrow> 0 \<le> r" using Cons.prems(5) by auto
  show ?case
  proof (cases "q = 0")
    case True
    have "sum_list (map2 (\<lambda>l a. a * l_UnitCost l) xs (map (\<lambda>_. 0) ys)) = 0" for xs :: "Lot list" and ys :: "Lot list"
      by (induction xs arbitrary: ys) (auto simp: zip_Cons1 split: list.split)
    moreover have "drain_amounts (map l_QtyRemaining (l # lots)) q = map (\<lambda>_. 0) (l # lots)"
      unfolding True by (subst drain_amounts_zero [OF pos]) auto
    ultimately show ?thesis
      by (simp only: Let_def True amount_of_zero) (simp add: returnE_def)
  next
    case False
    let ?s1 = "s\<lparr>stock_lot := update_where (\<lambda>x. l_ID x = l_ID l)
       (\<lambda>x. x\<lparr>l_QtyRemaining := l_QtyRemaining l - ?a\<rparr>) (stock_lot s)\<rparr>"
    let ?f = "amount_of (map l_ID lots) (drain_amounts ?rs (q - ?a))"
    have ga: "on_grid 4 (l_QtyRemaining l - ?a)" using Cons.prems(2,5) by auto
    have cur: "lots_current lots ?s1"
      using Cons.prems(3,4) by (auto simp: lots_current_def update_where_def)
    have "fifo_drain E (l # lots) q c s = fifo_drain E lots (q - ?a) (c + ?a * l_UnitCost l) ?s1"
      using False by (simp add: Let_def thenE_def UpdateLotQty_def mapErr_def modifyE_def bindE_def numeric_fix [OF assms(1) ga])
    moreover have "consume_lots ?f (stock_lot ?s1) = consume_lots (amount_of (l_ID l # map l_ID lots) (?a # drain_amounts ?rs (q - ?a))) (stock_lot s)"
      using Cons.prems(3,4)
      by (auto simp: consume_lots_def update_where_def amount_of_Cons amount_of_notin lots_current_def)
    moreover have "0 \<le> q - ?a" "on_grid 4 (q - ?a)" using Cons.prems(1,2,5) by auto
    ultimately show ?thesis
      using Cons.IH [of "q - ?a" ?s1 "c + ?a * l_UnitCost l"] Cons.prems(3,5) cur by (simp add: Let_def algebra_simps)
  qed
qed

section \<open>The lots add up to the book\<close>

text \<open>
  The invariant behind FIFO costing: what the lots of a row still hold is what the book says is
  on hand (nothing, for an oversold book).
\<close>

definition lots_wf :: "env \<Rightarrow> db \<Rightarrow> bool" where
  "lots_wf E s \<longleftrightarrow> distinct (map l_ID (stock_lot s)) \<and>
     (\<forall>l \<in> set (stock_lot s). 0 \<le> l_QtyRemaining l \<and> on_grid 4 (l_QtyRemaining l)
        \<and> (\<exists>i < draws s. l_ID l = new_uuid E i))"

definition lots_match :: "db \<Rightarrow> bool" where
  "lots_match s \<longleftrightarrow> (\<forall>t p w. on_grid 4 (on_hand t p w s) \<and> lot_total t p w s = max 0 (on_hand t p w s))"

lemma drain_order_mset:
  "mset (drain_order m s) =
     mset (filter (\<lambda>l. lot_at (m_TenantID m) (m_ProductID m) (m_WarehouseID m) l \<and> 0 < l_QtyRemaining l) (stock_lot s))"
  by (simp add: drain_order_def lotsAtCostFirst_def Let_def flip: multiset_partition)

lemma set_drain_order:
  "set (drain_order m s) =
     {l \<in> set (stock_lot s). lot_at (m_TenantID m) (m_ProductID m) (m_WarehouseID m) l \<and> 0 < l_QtyRemaining l}"
  by (auto simp: drain_order_def lotsAtCostFirst_def Let_def)

lemma drain_order_facts:
  assumes "lots_wf E s"
  shows "distinct (map l_ID (drain_order m s))" "lots_current (drain_order m s) s"
    "l \<in> set (drain_order m s) \<Longrightarrow> 0 \<le> l_QtyRemaining l \<and> on_grid 4 (l_QtyRemaining l)"
proof -
  let ?P = "\<lambda>l. lot_at (m_TenantID m) (m_ProductID m) (m_WarehouseID m) l \<and> 0 < l_QtyRemaining l"
  have d: "distinct (map l_ID (stock_lot s))" using assms by (simp add: lots_wf_def)
  have "distinct (map l_ID (filter ?P (stock_lot s)))" using d by (simp add: distinct_map_filter)
  moreover have "mset (map l_ID (drain_order m s)) = mset (map l_ID (filter ?P (stock_lot s)))"
    using drain_order_mset [of m s] by (metis mset_map)
  ultimately show "distinct (map l_ID (drain_order m s))" by (metis mset_eq_imp_distinct_iff)
  show "lots_current (drain_order m s) s"
    using distinct_map_unique [OF d] by (force simp: lots_current_def set_drain_order)
  show "l \<in> set (drain_order m s) \<Longrightarrow> 0 \<le> l_QtyRemaining l \<and> on_grid 4 (l_QtyRemaining l)"
    using assms by (auto simp: set_drain_order lots_wf_def)
qed

lemma sum_amounts:
  assumes "distinct (map l_ID lots)" "length am = length lots"
  shows "sum_list (map (\<lambda>l. amount_of (map l_ID lots) am (l_ID l)) lots) = sum_list am"
proof -
  have "map (\<lambda>l. amount_of (map l_ID lots) am (l_ID l)) lots = am"
    using assms amount_of_nth [of "map l_ID lots" _ am] by (auto intro!: nth_equalityI)
  then show ?thesis by simp
qed

lemma sum_list_mset_cong: "mset xs = mset ys \<Longrightarrow> sum_list (map f xs) = sum_list (map f ys)"
  for f :: "'a \<Rightarrow> 'b::comm_monoid_add"
  by (metis mset_map sum_mset_sum_list)

lemma active_lots_total:
  assumes "lots_wf E s"
  shows "lot_total (m_TenantID m) (m_ProductID m) (m_WarehouseID m) s = sum_list (map l_QtyRemaining (drain_order m s))"
proof -
  let ?at = "lot_at (m_TenantID m) (m_ProductID m) (m_WarehouseID m)"
  have "lot_total (m_TenantID m) (m_ProductID m) (m_WarehouseID m) s =
      sum_list (map l_QtyRemaining (filter (\<lambda>l. 0 < l_QtyRemaining l) (filter ?at (stock_lot s))))
      + sum_list (map l_QtyRemaining (filter (\<lambda>l. \<not> 0 < l_QtyRemaining l) (filter ?at (stock_lot s))))"
    unfolding lot_total_def by (rule sum_list_map_filter_split)
  also have "sum_list (map l_QtyRemaining (filter (\<lambda>l. \<not> 0 < l_QtyRemaining l) (filter ?at (stock_lot s)))) = 0"
    using assms by (intro sum_list_map_zero) (force simp: lots_wf_def)
  also have "sum_list (map l_QtyRemaining (filter (\<lambda>l. 0 < l_QtyRemaining l) (filter ?at (stock_lot s)))) =
      sum_list (map l_QtyRemaining (drain_order m s))"
    by (rule sum_list_mset_cong) (auto simp: drain_order_mset filter_filter intro!: arg_cong [where f = mset] filter_cong)
  finally show ?thesis by simp
qed

lemma lot_total_consume:
  assumes "lots_wf E s" "length am = length (drain_order m s)"
  defines "f \<equiv> amount_of (map l_ID (drain_order m s)) am"
  shows "lot_total t p w (s\<lparr>stock_lot := consume_lots f (stock_lot s)\<rparr>) =
    (if (t, p, w) = (m_TenantID m, m_ProductID m, m_WarehouseID m) then lot_total t p w s - sum_list am
     else lot_total t p w s)"
proof -
  let ?at = "lot_at t p w" and ?rows = "stock_lot s" and ?key = "lot_at (m_TenantID m) (m_ProductID m) (m_WarehouseID m)"
  have d: "distinct (map l_ID ?rows)" using assms(1) by (simp add: lots_wf_def)
  have zero: "f (l_ID x) = 0" if "x \<in> set ?rows" "x \<notin> set (drain_order m s)" for x
    using that distinct_map_unique [OF d, of x] unfolding f_def
    by (intro amount_of_notin) (auto simp: set_drain_order)
  have "filter ?at (consume_lots f ?rows) = map (\<lambda>l. l\<lparr>l_QtyRemaining := l_QtyRemaining l - f (l_ID l)\<rparr>) (filter ?at ?rows)"
    by (induction ?rows) (auto simp: consume_lots_def filter_map lot_at_def o_def)
  then have total: "lot_total t p w (s\<lparr>stock_lot := consume_lots f ?rows\<rparr>) =
      lot_total t p w s - sum_list (map (\<lambda>l. f (l_ID l)) (filter ?at ?rows))"
    by (simp add: lot_total_def o_def sum_list_subtractf)
  show ?thesis
  proof (cases "(t, p, w) = (m_TenantID m, m_ProductID m, m_WarehouseID m)")
    case True
    have "sum_list (map (\<lambda>l. f (l_ID l)) (filter ?at ?rows)) =
        sum_list (map (\<lambda>l. f (l_ID l)) (filter (\<lambda>l. 0 < l_QtyRemaining l) (filter ?at ?rows)))
        + sum_list (map (\<lambda>l. f (l_ID l)) (filter (\<lambda>l. \<not> 0 < l_QtyRemaining l) (filter ?at ?rows)))"
      by (rule sum_list_map_filter_split)
    also have "sum_list (map (\<lambda>l. f (l_ID l)) (filter (\<lambda>l. \<not> 0 < l_QtyRemaining l) (filter ?at ?rows))) = 0"
      by (rule sum_list_map_zero, rule zero) (auto simp: set_drain_order)
    also have "sum_list (map (\<lambda>l. f (l_ID l)) (filter (\<lambda>l. 0 < l_QtyRemaining l) (filter ?at ?rows))) =
        sum_list (map (\<lambda>l. f (l_ID l)) (drain_order m s))"
      by (rule sum_list_mset_cong) (use True in \<open>auto simp: drain_order_mset filter_filter intro!: arg_cong [where f = mset] filter_cong\<close>)
    also have "\<dots> = sum_list am"
      unfolding f_def by (rule sum_amounts [OF drain_order_facts(1) [OF assms(1)] assms(2)])
    finally show ?thesis using total True by simp
  next
    case False
    have "f (l_ID l) = 0" if "l \<in> set (filter ?at ?rows)" for l
      using that False by (intro zero) (auto simp: set_drain_order lot_at_def)
    then have "sum_list (map (\<lambda>l. f (l_ID l)) (filter ?at ?rows)) = 0" by (rule sum_list_map_zero)
    then show ?thesis using total False by auto
  qed
qed


text \<open>How the two ways of writing lots change the invariant's parts.\<close>

lemma new_lot_state:
  assumes "runtime_env E" "new_lot E m r s = Inr (u, s')" "on_grid 4 r"
  obtains l where "s' = s\<lparr>draws := Suc (draws s), stock_lot := stock_lot s @ [l]\<rparr>" "l_ID l = new_uuid E (draws s)"
    "lot_at (m_TenantID m) (m_ProductID m) (m_WarehouseID m) l" "l_QtyRemaining l = r"
  using assms
  by (auto simp: new_lot_def InsertLot_def bindE_Inr lot_at_def numeric_fix [OF assms(1,3)])

lemma new_lot_wf:
  assumes "runtime_env E" "new_lot E m r s = Inr (u, s')" "on_grid 4 r" "0 \<le> r" "lots_wf E s"
  shows "lots_wf E s'"
proof -
  obtain l where s': "s' = s\<lparr>draws := Suc (draws s), stock_lot := stock_lot s @ [l]\<rparr>"
    and l: "l_ID l = new_uuid E (draws s)" "l_QtyRemaining l = r"
    using assms(1-3) by (rule new_lot_state)
  have "new_uuid E (draws s) \<noteq> new_uuid E i" if "i < draws s" for i
    using runtime_env.new_uuid_inj [OF assms(1)] that by blast
  then have "l_ID l \<noteq> l_ID x" if "x \<in> set (stock_lot s)" for x
    using that assms(5) l(1) unfolding lots_wf_def by metis
  then have "l_ID l \<notin> l_ID ` set (stock_lot s)" by blast
  then show ?thesis using assms(3-5) l by (auto simp: lots_wf_def s' less_Suc_eq)
qed

lemma new_lot_total:
  assumes "runtime_env E" "new_lot E m r s = Inr (u, s')" "on_grid 4 r"
  shows "lot_total t p w s' = lot_total t p w s +
    (if (t, p, w) = (m_TenantID m, m_ProductID m, m_WarehouseID m) then r else 0)"
  using assms by (rule new_lot_state) (auto simp: lot_total_def lot_at_def)

lemma drain_wf:
  fixes m :: Movement
  assumes "runtime_env E" "lots_wf E s" "0 \<le> q" "on_grid 4 q"
  defines "am \<equiv> drain_amounts (map l_QtyRemaining (drain_order m s)) q"
  shows "lots_wf E (s\<lparr>stock_lot := consume_lots (amount_of (map l_ID (drain_order m s)) am) (stock_lot s)\<rparr>)"
proof -
  let ?lots = "drain_order m s" and ?f = "amount_of (map l_ID (drain_order m s)) am"
  note df = drain_order_facts [OF assms(2), where m = m]
  have d: "distinct (map l_ID (stock_lot s))" using assms(2) by (simp add: lots_wf_def)
  have "0 \<le> l_QtyRemaining l - ?f (l_ID l) \<and> on_grid 4 (l_QtyRemaining l - ?f (l_ID l))" if l: "l \<in> set (stock_lot s)" for l
  proof (cases "l \<in> set ?lots")
    case True
    then obtain k where k: "k < length ?lots" "?lots ! k = l" by (auto simp: in_set_conv_nth)
    have f: "?f (l_ID l) = am ! k"
      using amount_of_nth [of "map l_ID ?lots" k am] k df(1) by (simp add: am_def)
    have pos: "\<And>r. r \<in> set (map l_QtyRemaining ?lots) \<Longrightarrow> 0 \<le> r" using df(3) by auto
    have "am ! k \<le> l_QtyRemaining l"
      using drain_amounts_bounds(2) [of "map l_QtyRemaining ?lots" q k] pos assms(3) k by (simp add: am_def)
    moreover have "on_grid 4 (am ! k)"
      by (rule drain_amounts_grid [of "map l_QtyRemaining ?lots" 4 q]) (use df(3) assms(4) k in \<open>auto simp: am_def\<close>)
    ultimately show ?thesis using f df(3) [OF True] by auto
  next
    case False
    then have "?f (l_ID l) = 0"
      using l distinct_map_unique [OF d, of l] by (intro amount_of_notin) (auto simp: set_drain_order)
    then show ?thesis using l assms(2) by (simp add: lots_wf_def)
  qed
  then show ?thesis using assms(2) by (simp add: lots_wf_def consume_lots_def o_def)
qed

text \<open>Receipts, shipments and priced counts, the movements that the lots follow.\<close>

definition lot_tracked :: "Movement \<Rightarrow> db \<Rightarrow> bool" where
  "lot_tracked m s \<longleftrightarrow> on_grid 4 (m_QtyBase m) \<and>
     (case m_Direction m of
        DirectionAdjust \<Rightarrow> 0 < m_QtyBase m \<and> 0 < m_UnitCost m \<and> 0 \<le> book m s
      | _ \<Rightarrow> 0 \<le> m_QtyBase m)"

lemma FIFO_costs_lots:
  assumes "runtime_env E" "lots_wf E s" "lots_match s" "lot_tracked m s" "movement_checks m"
    and "FIFO_costs E m (book m s) c s = Inr (r, s')"
  shows "lots_wf E s' \<and> lot_total t p w s' =
    (if (t, p, w) = (m_TenantID m, m_ProductID m, m_WarehouseID m) then max 0 (book m s + signed_qty m) else lot_total t p w s)"
proof -
  let ?key = "(m_TenantID m, m_ProductID m, m_WarehouseID m)" and ?q = "m_QtyBase m"
  have lt: "lot_total (m_TenantID m) (m_ProductID m) (m_WarehouseID m) s = max 0 (book m s)"
    and gb: "on_grid 4 (book m s)" using assms(3) by (auto simp: lots_match_def)
  have gq: "on_grid 4 ?q" using assms(4) by (simp add: lot_tracked_def)
  show ?thesis
  proof (cases "m_Direction m")
    case DirectionIn
    let ?r = "if book m s < 0 then max 0 (?q + book m s) else ?q"
    have q: "0 \<le> ?q" and nl: "new_lot E m ?r s = Inr ((), s')"
      using assms(4,6) DirectionIn by (auto simp: lot_tracked_def FIFO_costs_def elim: FIFO_in_Inr)
    have "on_grid 4 ?r" "0 \<le> ?r" using gq gb q by auto
    then show ?thesis
      using new_lot_wf [OF assms(1) nl _ _ assms(2)] new_lot_total [OF assms(1) nl, of t p w] lt q DirectionIn
      by (auto simp: signed_qty_def max_def)
  next
    case DirectionOut
    let ?am = "drain_amounts (map l_QtyRemaining (drain_order m s)) ?q"
    have q: "0 \<le> ?q" using assms(4) DirectionOut by (simp add: lot_tracked_def)
    note df = drain_order_facts [OF assms(2), where m = m]
    have s': "s' = s\<lparr>stock_lot := consume_lots (amount_of (map l_ID (drain_order m s)) ?am) (stock_lot s)\<rparr>"
      using assms(6) DirectionOut fifo_drain_spec [OF assms(1) q gq df(1,2,3)]
      by (auto simp: FIFO_costs_def Let_def elim!: FIFO_out_Inr)
    have "lot_total (m_TenantID m) (m_ProductID m) (m_WarehouseID m) s = sum_list (map l_QtyRemaining (drain_order m s))"
      by (rule active_lots_total [OF assms(2)])
    then have "sum_list ?am = min ?q (max 0 (book m s))"
      using drain_amounts_sum [of "map l_QtyRemaining (drain_order m s)" ?q] df(3) q lt by auto
    then show ?thesis
      using drain_wf [OF assms(1,2) q gq] lot_total_consume [OF assms(2), of ?am m t p w] s' lt q DirectionOut
      by (auto simp: signed_qty_def max_def min_def)
  next
    case DirectionAdjust
    have q: "0 < ?q" "0 < m_UnitCost m" "0 \<le> book m s" using assms(4) DirectionAdjust by (auto simp: lot_tracked_def)
    then have nl: "new_lot E m ?q s = Inr ((), s')"
      using assms(6) DirectionAdjust FIFO_adjust_Inr(3) [of E m "book m s" c s r s'] by (simp add: FIFO_costs_def)
    show ?thesis
      using new_lot_wf [OF assms(1) nl gq _ assms(2)] new_lot_total [OF assms(1) nl gq, of t p w] lt q DirectionAdjust
      by (auto simp: signed_qty_def)
  next
    case (DirectionOther d)
    then show ?thesis using assms(5) by (simp add: movement_checks_def)
  qed
qed


lemma stamp_times_keeps [simp]:
  "drain_order (stamp_times E m) s = drain_order m s" "lot_tracked (stamp_times E m) s = lot_tracked m s"
  "signed_qty (stamp_times E m) = signed_qty m" "short (stamp_times E m) q = short m q"
  by (simp_all add: drain_order_def lot_tracked_def signed_qty_def short_def cong: if_cong Direction.case_cong)

lemma lot_total_cong: "stock_lot s' = stock_lot s \<Longrightarrow> lot_total t p w s' = lot_total t p w s"
  by (simp add: lot_total_def)

text \<open>
  C3: the lots keep adding up to the book.  After a receipt, a shipment (oversold ones included; neither of
  a negative quantity) or a count upwards at a price from a book that is not oversold, every row's lots hold in total what the
  snapshot says is on hand, no lot is negative and lot ids stay distinct.
\<close>

theorem fifo_lots_match_book:
  assumes "runtime_env E" "lots_wf E s" "lots_match s" "lot_tracked m s"
    and "FIFO_ApplyMovement E m s = Inr ((snap, m'), s')"
  shows "lots_wf E s' \<and> lots_match s'"
proof -
  obtain newQty newCost s1 where
    c: "FIFO_costs E (stamp_times E m) (book m s) (cost_of m s) s = Inr ((newQty, newCost, m'), s1)"
    and pm: "persist_movement E ''fifo'' CostStrategyFIFO (GetSnapshot (m_TenantID m) (m_ProductID m) (m_WarehouseID m) s)
       newQty newCost m' s1 = Inr ((snap, m'), s')"
    and ch: "movement_checks m" and same: "same_movement m m'" and fr: "lots_frame s s1"
    using assms(5) by (rule FIFO_applied)
  note pf = persist_movement_facts [OF pm] and k = same_movement_keeps [OF same]
  have lots: "lots_wf E s1 \<and> lot_total t p w s1 =
    (if (t, p, w) = (m_TenantID m, m_ProductID m, m_WarehouseID m) then max 0 (book m s + signed_qty m) else lot_total t p w s)" for t p w
    using FIFO_costs_lots [OF assms(1-3), of "stamp_times E m" "cost_of m s" "(newQty, newCost, m')" s1 t p w]
      assms(4) ch c by simp
  have g: "on_grid 4 (book m s + signed_qty m)"
    using assms(3,4) by (auto simp: lots_match_def lot_tracked_def signed_qty_def split: Direction.splits)
  have q: "book m s' = book m s + signed_qty m"
    using pf(6) k(2) FIFO_costs_facts(2) [OF c] ch numeric_fix [OF assms(1) g] by simp
  have other: "on_hand t p w s' = on_hand t p w s" if "(m_TenantID m, m_ProductID m, m_WarehouseID m) \<noteq> (t, p, w)" for t p w
    using fifo.apply_other [of E m s snap m' s', OF _ that] assms(5) by (simp add: FIFOCalculator_def on_hand_def)
  have "lots_match s'"
    unfolding lots_match_def lot_total_cong [OF pf(9)] using lots g q other assms(3)
    by (metis (no_types, lifting) lots_match_def prod.inject)
  moreover have "lots_wf E s'"
    using lots [of 0 0 0] pf(9,11) unfolding lots_wf_def by (auto simp: less_Suc_eq)
  ultimately show ?thesis by simp
qed

text \<open>
  A shipment that the book covers never fails: with the lots adding up to the book the drain
  loop always finds the quantity, so neither the out-of-sync error nor the division by zero can
  occur.
\<close>

theorem fifo_shipment_succeeds:
  assumes "runtime_env E" "lots_wf E s" "lots_match s" "movement_checks m"
    and "m_Direction m = DirectionOut" "0 < m_QtyBase m" "on_grid 4 (m_QtyBase m)"
    and "m_QtyBase m \<le> book m s \<or> m_AllowNegative m"
  shows "\<exists>snap m' s'. FIFO_ApplyMovement E m s = Inr ((snap, m'), s')"
proof -
  let ?q = "m_QtyBase m" and ?m = "stamp_times E m"
  let ?am = "drain_amounts (map l_QtyRemaining (drain_order m s)) ?q"
  note df = drain_order_facts [OF assms(2), where m = m]
  have q: "0 \<le> ?q" using assms(6) by simp
  have "sum_list ?am = min ?q (max 0 (book m s))"
    using drain_amounts_sum [of "map l_QtyRemaining (drain_order m s)" ?q] df(3) q
      active_lots_total [OF assms(2), of m] assms(3) by (auto simp: lots_match_def)
  then have rem: "\<not> 0 < ?q - sum_list ?am \<or> m_AllowNegative m" using assms(8) by auto
  obtain rem taken s1 where d: "fifo_drain E (drain_order m s) ?q 0 s = Inr ((rem, taken), s1)" and r: "rem = ?q - sum_list ?am"
    using fifo_drain_spec [OF assms(1) q assms(7) df(1,2,3)] by (simp add: Let_def)
  have "\<exists>x. fifo_settle E ?m (book m s) (cost_of m s) rem taken = Inr x"
    using rem r assms(6) by (auto simp: fifo_settle_def decimal_Div_def Let_def)
  then obtain a b m1 where st: "fifo_settle E ?m (book m s) (cost_of m s) rem taken = Inr (a, b, m1)"
    by (metis prod_cases3)
  have "FIFO_costs E ?m (book m s) (cost_of m s) s = Inr ((a, b, m1), s1)"
    using d st assms(5,8)
    by (auto simp: FIFO_costs_def FIFO_out_def ListActiveLots_def drain_order_def bindE_def mapErr_def readE_def liftE_def Let_def)
  moreover from FIFO_costs_facts(1) [OF this] have "movement_checks m1" using assms(4) by (simp add: same_movement_keeps)
  ultimately show ?thesis
    using persist_movement_ok [of m1] by (auto simp: FIFO_ApplyMovement_def Let_def)
qed

lemma FIFO_out_lots:
  assumes "runtime_env E" "lots_wf E s" "m_Direction m = DirectionOut" "0 \<le> m_QtyBase m" "on_grid 4 (m_QtyBase m)"
    and "FIFO_ApplyMovement E m s = Inr ((snap, m'), s')"
  defines "am \<equiv> drain_amounts (map l_QtyRemaining (drain_order m s)) (m_QtyBase m)"
  shows "stock_lot s' = consume_lots (amount_of (map l_ID (drain_order m s)) am) (stock_lot s)"
    "m_TotalCost m' = sum_list (map2 (\<lambda>l a. a * l_UnitCost l) (drain_order m s) am)
       + max 0 (m_QtyBase m - sum_list am) * cost_of m s"
proof -
  obtain newQty newCost s1 where
    c: "FIFO_costs E (stamp_times E m) (book m s) (cost_of m s) s = Inr ((newQty, newCost, m'), s1)"
    and pm: "persist_movement E ''fifo'' CostStrategyFIFO (GetSnapshot (m_TenantID m) (m_ProductID m) (m_WarehouseID m) s)
       newQty newCost m' s1 = Inr ((snap, m'), s')"
    using assms(6) by (rule FIFO_applied)
  have "FIFO_out E (stamp_times E m) (book m s) (cost_of m s) s = Inr ((newQty, newCost, m'), s1)"
    using c assms(3) by (simp add: FIFO_costs_def)
  then obtain remaining taken total where
    d: "fifo_drain E (drain_order m s) (m_QtyBase m) 0 s = Inr ((remaining, taken), s1)"
    and t: "total = (if 0 < remaining then taken + remaining * cost_of m s else taken)" "m_TotalCost m' = total"
    by (rule FIFO_out_Inr) auto
  have "remaining = m_QtyBase m - sum_list am"
    "taken = sum_list (map2 (\<lambda>l a. a * l_UnitCost l) (drain_order m s) am)"
    "s1 = s\<lparr>stock_lot := consume_lots (amount_of (map l_ID (drain_order m s)) am) (stock_lot s)\<rparr>"
    using d fifo_drain_spec [OF assms(1,4,5) drain_order_facts(1,2,3) [OF assms(2), where m = m], where c = 0]
    by (simp_all add: Let_def am_def)
  then show "stock_lot s' = consume_lots (amount_of (map l_ID (drain_order m s)) am) (stock_lot s)"
    "m_TotalCost m' = sum_list (map2 (\<lambda>l a. a * l_UnitCost l) (drain_order m s) am)
       + max 0 (m_QtyBase m - sum_list am) * cost_of m s"
    using persist_movement_facts(9) [OF pm] t by (simp_all add: max_def)
qed

text \<open>
  The lot to take first: the older one; for a shipment at a given cost, first of all a lot of that cost.
\<close>

definition goes_first :: "Movement \<Rightarrow> Lot \<Rightarrow> Lot \<Rightarrow> bool" where
  "goes_first m l l' \<longleftrightarrow>
     (if m_ExplicitCost m \<and> (l_UnitCost l = m_UnitCost m) \<noteq> (l_UnitCost l' = m_UnitCost m) then l_UnitCost l = m_UnitCost m
      else l_ReceivedAt l < l_ReceivedAt l')"

lemma drain_order_sorted: "sorted_wrt (\<lambda>l l'. \<not> goes_first m l' l) (drain_order m s)"
proof -
  let ?ls = "sort_key l_ReceivedAt (filter (\<lambda>l. lot_at (m_TenantID m) (m_ProductID m) (m_WarehouseID m) l \<and> 0 < l_QtyRemaining l) (stock_lot s))"
  have old: "sorted_wrt (\<lambda>l l'. l_ReceivedAt l \<le> l_ReceivedAt l') ?ls"
    using sorted_sort_key [of l_ReceivedAt] by (simp add: sorted_map)
  have part: "sorted_wrt (\<lambda>l l'. \<not> goes_first m l' l) (filter p ?ls)"
    if "\<And>l l'. p l \<Longrightarrow> p l' \<Longrightarrow> m_ExplicitCost m \<Longrightarrow> (l_UnitCost l = m_UnitCost m) = (l_UnitCost l' = m_UnitCost m)" for p
    by (rule sorted_wrt_mono_rel [OF _ sorted_wrt_filter [OF old]]) (use that in \<open>auto simp: goes_first_def\<close>)
  show ?thesis
  proof (cases "m_ExplicitCost m")
    case True
    have "\<not> goes_first m l' l" if "l_UnitCost l = m_UnitCost m" "l_UnitCost l' \<noteq> m_UnitCost m" for l l'
      using that True by (simp add: goes_first_def)
    moreover have "drain_order m s = filter (\<lambda>l. l_UnitCost l = m_UnitCost m) ?ls @ filter (\<lambda>l. l_UnitCost l \<noteq> m_UnitCost m) ?ls"
      using True by (simp add: drain_order_def lotsAtCostFirst_def Let_def)
    ultimately show ?thesis
      using part [of "\<lambda>l. l_UnitCost l = m_UnitCost m"] part [of "\<lambda>l. l_UnitCost l \<noteq> m_UnitCost m"]
      by (simp add: sorted_wrt_append)
  next
    case False
    then show ?thesis using part [of "\<lambda>_. True"] by (simp add: drain_order_def)
  qed
qed

text \<open>
  C6: oldest first.  If a shipment takes anything from a lot, every older lot of the same product
  and warehouse is empty afterwards.  For a shipment at a given cost that holds among the lots of that cost and
  among the others, and nothing is taken from another lot while one of that cost has something left.
\<close>

theorem fifo_oldest_first:
  assumes "runtime_env E" "lots_wf E s" "m_Direction m = DirectionOut"
    and "0 \<le> m_QtyBase m" "on_grid 4 (m_QtyBase m)" "FIFO_ApplyMovement E m s = Inr ((snap, m'), s')"
    and "i < length (stock_lot s)" "j < length (stock_lot s)"
    and "lot_at (m_TenantID m) (m_ProductID m) (m_WarehouseID m) (stock_lot s ! i)"
    and "lot_at (m_TenantID m) (m_ProductID m) (m_WarehouseID m) (stock_lot s ! j)"
    and "goes_first m (stock_lot s ! i) (stock_lot s ! j)"
    and "l_QtyRemaining (stock_lot s' ! j) < l_QtyRemaining (stock_lot s ! j)"
  shows "l_QtyRemaining (stock_lot s' ! i) = 0"
proof -
  let ?lots = "drain_order m s" and ?q = "m_QtyBase m"
  define am where "am = drain_amounts (map l_QtyRemaining ?lots) ?q"
  let ?f = "amount_of (map l_ID ?lots) am" and ?li = "stock_lot s ! i" and ?lj = "stock_lot s ! j"
  note df = drain_order_facts [OF assms(2), where m = m]
  have s': "stock_lot s' = consume_lots ?f (stock_lot s)"
    unfolding am_def by (rule FIFO_out_lots(1) [OF assms(1-6)])
  have fj: "0 < ?f (l_ID ?lj)" using assms(8,12) by (simp add: s' consume_lots_def)
  show ?thesis
  proof (cases "0 < l_QtyRemaining ?li")
    case True
    have "?lj \<in> set ?lots"
    proof (rule ccontr)
      assume "?lj \<notin> set ?lots"
      then have "?f (l_ID ?lj) = 0"
        using distinct_map_unique [of l_ID "stock_lot s" ?lj] assms(2,8)
        by (intro amount_of_notin) (auto simp: set_drain_order lots_wf_def)
      then show False using fj by simp
    qed
    then obtain b where b: "b < length ?lots" "?lots ! b = ?lj" by (auto simp: in_set_conv_nth)
    have "?li \<in> set ?lots" using True assms(7,9) by (simp add: set_drain_order)
    then obtain a where a: "a < length ?lots" "?lots ! a = ?li" by (auto simp: in_set_conv_nth)
    have f: "?f (l_ID ?li) = am ! a" "?f (l_ID ?lj) = am ! b"
      using amount_of_nth [of "map l_ID ?lots" a am] amount_of_nth [of "map l_ID ?lots" b am] a b df(1)
      by (simp_all add: am_def)
    have "\<not> goes_first m ?li ?li" by (simp add: goes_first_def)
    then have "a \<noteq> b" using a b assms(11) by metis
    moreover have "\<not> b < a" using sorted_wrt_nth_less [OF drain_order_sorted, of b a m s] a b assms(11) by auto
    ultimately have "a < b" by simp
    moreover have pos: "\<And>r. r \<in> set (map l_QtyRemaining ?lots) \<Longrightarrow> 0 \<le> r" using df(3) by auto
    ultimately have "am ! a = map l_QtyRemaining ?lots ! a"
      unfolding am_def using fj f b assms(4) by (intro drain_amounts_order [of _ _ a b]) (auto simp: am_def)
    then show ?thesis using a f assms(7) by (simp add: s' consume_lots_def)
  next
    case False
    then have "l_QtyRemaining ?li = 0" using assms(2,7) by (auto simp: lots_wf_def intro: antisym)
    moreover have "?f (l_ID ?li) = 0"
      using False distinct_map_unique [of l_ID "stock_lot s" ?li] assms(2,7)
      by (intro amount_of_notin) (auto simp: set_drain_order lots_wf_def)
    ultimately show ?thesis using assms(7) by (simp add: s' consume_lots_def)
  qed
qed


lemma sum_rows_lots:
  assumes "\<And>x. x \<in> set (stock_lot s) \<Longrightarrow> x \<notin> set (drain_order m s) \<Longrightarrow> h x = (0 :: rat)"
  shows "sum_list (map h (stock_lot s)) = sum_list (map h (drain_order m s))"
proof -
  let ?P = "\<lambda>l. lot_at (m_TenantID m) (m_ProductID m) (m_WarehouseID m) l \<and> 0 < l_QtyRemaining l"
  have "sum_list (map h (filter (\<lambda>x. \<not> ?P x) (stock_lot s))) = 0"
    by (rule sum_list_map_zero, rule assms) (auto simp: set_drain_order)
  moreover have "sum_list (map h (filter ?P (stock_lot s))) = sum_list (map h (drain_order m s))"
    by (rule sum_list_mset_cong) (simp add: drain_order_mset)
  ultimately show ?thesis using sum_list_map_filter_split [of h "stock_lot s" ?P] by simp
qed

lemma amount_off_lots:
  assumes "lots_wf E s" "x \<in> set (stock_lot s)" "x \<notin> set (drain_order m s)"
  shows "amount_of (map l_ID (drain_order m s)) am (l_ID x) = 0"
  using assms distinct_map_unique [of l_ID "stock_lot s" x]
  by (intro amount_of_notin) (auto simp: set_drain_order lots_wf_def)

text \<open>
  C7: goods leave at what they cost.  The recorded cost of a shipment is what each lot gave up at
  the lot's own cost, plus the oversold part, if any, at the book cost.
\<close>

theorem fifo_cost_of_goods:
  assumes "runtime_env E" "lots_wf E s" "m_Direction m = DirectionOut" "0 \<le> m_QtyBase m"
    and "on_grid 4 (m_QtyBase m)" "FIFO_ApplyMovement E m s = Inr ((snap, m'), s')"
  shows "m_TotalCost m' =
      sum_list (map2 (\<lambda>l l'. (l_QtyRemaining l - l_QtyRemaining l') * l_UnitCost l) (stock_lot s) (stock_lot s'))
      + max 0 (m_QtyBase m - lot_total (m_TenantID m) (m_ProductID m) (m_WarehouseID m) s) * cost_of m s"
proof -
  let ?lots = "drain_order m s" and ?q = "m_QtyBase m"
  define am where "am = drain_amounts (map l_QtyRemaining ?lots) ?q"
  let ?f = "amount_of (map l_ID ?lots) am"
  note out = FIFO_out_lots [OF assms(1-6), folded am_def]
  note df = drain_order_facts [OF assms(2), where m = m]
  have "map2 (\<lambda>l l'. (l_QtyRemaining l - l_QtyRemaining l') * l_UnitCost l) rows (consume_lots f rows) =
      map (\<lambda>l. f (l_ID l) * l_UnitCost l) rows" for f rows
    by (induction rows) (auto simp: consume_lots_def)
  then have "sum_list (map2 (\<lambda>l l'. (l_QtyRemaining l - l_QtyRemaining l') * l_UnitCost l) (stock_lot s) (stock_lot s')) =
      sum_list (map (\<lambda>l. ?f (l_ID l) * l_UnitCost l) ?lots)"
    unfolding out(1) using sum_rows_lots [of s m "\<lambda>l. ?f (l_ID l) * l_UnitCost l"] amount_off_lots [OF assms(2)] by simp
  also have "map (\<lambda>l. ?f (l_ID l) * l_UnitCost l) ?lots = map2 (\<lambda>l a. a * l_UnitCost l) ?lots am"
    using amount_of_nth [of "map l_ID ?lots" _ am] df(1) by (auto intro!: nth_equalityI simp: am_def)
  finally have sum: "sum_list (map2 (\<lambda>l l'. (l_QtyRemaining l - l_QtyRemaining l') * l_UnitCost l) (stock_lot s) (stock_lot s'))
      = sum_list (map2 (\<lambda>l a. a * l_UnitCost l) ?lots am)" .
  have "sum_list am = min ?q (lot_total (m_TenantID m) (m_ProductID m) (m_WarehouseID m) s)"
    using drain_amounts_sum [of "map l_QtyRemaining ?lots" ?q] df(3) assms(4) active_lots_total [OF assms(2), of m]
    by (auto simp: am_def)
  then have "max 0 (?q - sum_list am) = max 0 (?q - lot_total (m_TenantID m) (m_ProductID m) (m_WarehouseID m) s)"
    by (auto simp: min_def max_def)
  then show ?thesis using out(2) sum by simp
qed

section \<open>A sample FIFO book\<close>

text \<open>Six units at 2 received first, four at 3 received later: ten on the book.\<close>

definition demo_lot :: "nat \<Rightarrow> rat \<Rightarrow> rat \<Rightarrow> Lot" where
  "demo_lot i q c = \<lparr> l_ID = 1000 + i, l_TenantID = 11, l_ProductID = 12, l_WarehouseID = 13, l_LotNo = [],
     l_Qty = q, l_QtyRemaining = q, l_UnitCost = c, l_ReceivedAt = int i, l_SourceMovementID = None, l_CreatedAt = 1 \<rparr>"

definition demo_fifo :: db where
  "demo_fifo = demo_db\<lparr>stock_lot := [demo_lot 0 6 2, demo_lot 1 4 3], draws := 2\<rparr>"

lemma demo_fifo_wf: "lots_wf std_env demo_fifo"
  by (auto simp: lots_wf_def demo_fifo_def demo_lot_def std_env_def)

lemma demo_fifo_book: "on_hand t p w demo_fifo = (if (t, p, w) = (11, 12, 13) then 10 else 0)"
  by (auto simp: demo_fifo_def demo_db_def demo_snapshot_def empty_db_def on_hand_def GetSnapshot_def snap_at_def)

lemma demo_fifo_total: "lot_total t p w demo_fifo = (if (t, p, w) = (11, 12, 13) then 10 else 0)"
  by (auto simp: demo_fifo_def demo_lot_def lot_total_def lot_at_def)

lemma demo_fifo_match: "lots_match demo_fifo"
  by (auto simp: lots_match_def demo_fifo_book demo_fifo_total)

abbreviation "demo_out \<equiv> demo_movement DirectionOut 7 0"

lemma demo_fifo_out: "\<exists>snap m' s'. FIFO_ApplyMovement std_env demo_out demo_fifo = Inr ((snap, m'), s')"
proof -
  define x where "x = FIFO_ApplyMovement std_env demo_out demo_fifo"
  have "\<not> isl x" unfolding x_def by code_simp
  then show ?thesis unfolding x_def [symmetric] by (cases x) auto
qed

theorem fifo_lots_match_book_witness:
  "\<exists>snap m' s'. FIFO_ApplyMovement std_env demo_out demo_fifo = Inr ((snap, m'), s') \<and> lots_match s'"
proof -
  obtain snap m' s' where a: "FIFO_ApplyMovement std_env demo_out demo_fifo = Inr ((snap, m'), s')"
    using demo_fifo_out by blast
  have "lot_tracked demo_out demo_fifo" by (simp add: lot_tracked_def)
  from fifo_lots_match_book [OF std_runtime demo_fifo_wf demo_fifo_match this a] a show ?thesis by blast
qed

theorem fifo_shipment_succeeds_witness:
  "\<exists>snap m' s'. FIFO_ApplyMovement std_env demo_out demo_fifo = Inr ((snap, m'), s')"
  by (rule fifo_shipment_succeeds [OF std_runtime demo_fifo_wf demo_fifo_match]) (simp_all add: demo_fifo_book)

theorem fifo_oldest_first_witness:
  "\<exists>snap m' s'. FIFO_ApplyMovement std_env demo_out demo_fifo = Inr ((snap, m'), s') \<and>
     (l_QtyRemaining (stock_lot s' ! 1) < 4 \<longrightarrow> l_QtyRemaining (stock_lot s' ! 0) = 0)"
proof -
  obtain snap m' s' where a: "FIFO_ApplyMovement std_env demo_out demo_fifo = Inr ((snap, m'), s')"
    using demo_fifo_out by blast
  have "stock_lot demo_fifo ! 0 = demo_lot 0 6 2" "stock_lot demo_fifo ! 1 = demo_lot 1 4 3" "length (stock_lot demo_fifo) = 2"
    by (simp_all add: demo_fifo_def)
  with fifo_oldest_first [OF std_runtime demo_fifo_wf _ _ _ a, of 0 1] a show ?thesis
    by (auto simp: lot_at_def demo_lot_def goes_first_def demo_movement_def)
qed

theorem fifo_cost_of_goods_witness:
  "\<exists>snap m' s'. FIFO_ApplyMovement std_env demo_out demo_fifo = Inr ((snap, m'), s') \<and> m_TotalCost m' =
      sum_list (map2 (\<lambda>l l'. (l_QtyRemaining l - l_QtyRemaining l') * l_UnitCost l) (stock_lot demo_fifo) (stock_lot s'))"
proof -
  obtain snap m' s' where a: "FIFO_ApplyMovement std_env demo_out demo_fifo = Inr ((snap, m'), s')"
    using demo_fifo_out by blast
  from fifo_cost_of_goods [OF std_runtime demo_fifo_wf _ _ _ a] a show ?thesis by (simp add: demo_fifo_total)
qed

end
