(* ===== verification/Record_Movement.thy ===== *)
theory Record_Movement
  imports Calc_WAC Calc_FIFO
begin

text \<open>
  \<open>RecordMovementUseCase\<close> (\<open>internal/app/stock/usecase.go\<close>): one stock movement with its cost
  and its event, in a transaction of its own (\<open>Execute\<close>) or in the caller's (\<open>ExecuteInTx\<close>).

  The locale \<open>stock_executor\<close> is what the bill use cases rely on (\<open>StockMovementExecutor\<close>); every
  calculator that keeps the contract of \<open>inventory_calculator\<close> provides it.
\<close>

text \<open>\<open>NewCalculator\<close>: a missing profile and any method but \<open>fifo\<close> give the weighted average.\<close>

definition NewCalculator :: "env \<Rightarrow> string option \<Rightarrow> InventoryCalculator" where
  "NewCalculator E profile =
     (let method = (case profile of None \<Rightarrow> [] | Some im \<Rightarrow> im)
      in if method = CostStrategyFIFO then FIFOCalculator E else WACCalculator E)"

record RecordMovementRequest =
  r_TenantID :: uuid
  r_ProductID :: uuid
  r_WarehouseID :: uuid
  r_Direction :: Direction
  r_Qty :: rat
  r_UnitID :: uuid
  r_ConvFactor :: string
  r_UnitCost :: rat
  r_ExplicitCost :: bool
  r_AllowNegative :: bool
  r_CostStrategy :: string
  r_ReferenceType :: ReferenceType
  r_ReferenceID :: "uuid option"
  r_OccurredAt :: gotime
  r_CreatedBy :: "uuid option"
  r_Note :: string

text \<open>The wired use case: its calculator and whether an outbox is configured.\<close>

record RecordMovementUseCase =
  uc_calculator :: InventoryCalculator
  uc_outbox :: bool

definition convertToBase :: "env \<Rightarrow> rat \<Rightarrow> string \<Rightarrow> err + rat" where
  "convertToBase E qty factor =
     (if factor = [] \<or> factor = ''1'' then Inr qty
      else case decimalutil_Parse E factor ''conversion_factor'' of
             Inl e \<Rightarrow> Inl (Wrap ''invalid conversion factor'' e)
           | Inr f \<Rightarrow> if f = 0 \<or> f < 0 then Inl (Wrap factor ErrInvalidUnitFactor) else Inr (qty * f))"

definition check_request :: "env \<Rightarrow> string \<Rightarrow> RecordMovementRequest \<Rightarrow> err + rat" where
  "check_request E who req =
     (if r_TenantID req = uuid_Nil then Inl (ErrMsg (who @ '': tenant_id is required''))
      else if r_ProductID req = uuid_Nil then Inl (ErrMsg (who @ '': product_id is required''))
      else if r_WarehouseID req = uuid_Nil then Inl (ErrMsg (who @ '': warehouse_id is required''))
      else case Direction_Validate (r_Direction req) of
             Inl e \<Rightarrow> Inl (Wrap who e)
           | Inr _ \<Rightarrow>
               (case convertToBase E (r_Qty req) (r_ConvFactor req) of
                  Inl e \<Rightarrow> Inl (Wrap (who @ '': unit conversion'') e)
                | Inr q \<Rightarrow> Inr q))"

definition new_movement :: "env \<Rightarrow> RecordMovementRequest \<Rightarrow> rat \<Rightarrow> Movement op" where
  "new_movement E req qtyBase = bindE (uuid_New E) (\<lambda>i.
     returnE \<lparr> m_ID = i, m_TenantID = r_TenantID req, m_ProductID = r_ProductID req,
       m_WarehouseID = r_WarehouseID req, m_Direction = r_Direction req, m_QtyBase = qtyBase,
       m_UnitCost = r_UnitCost req, m_TotalCost = 0, m_ReferenceType = r_ReferenceType req,
       m_ReferenceID = (if r_ReferenceType req = RefInit \<and> r_ReferenceID req = None then Some i
                        else r_ReferenceID req),
       m_OccurredAt = (if r_OccurredAt req = 0 then now E else r_OccurredAt req),
       m_CreatedBy = r_CreatedBy req, m_Note = r_Note req, m_CreatedAt = 0,
       m_ExplicitCost = r_ExplicitCost req, m_AllowNegative = r_AllowNegative req \<rparr>)"

abbreviation "movement_subject \<equiv> ''PSI_EVENTS.stock.movement_recorded''"

definition enqueueOutbox :: "env \<Rightarrow> RecordMovementRequest \<Rightarrow> Movement \<Rightarrow> Snapshot \<Rightarrow> unit op" where
  "enqueueOutbox E req m snap = bindE (uuid_New E) (\<lambda>eid.
     Enqueue E (r_TenantID req) movement_subject
       \<lparr> ev_EventID = eid, ev_EventType = ''stock.movement_recorded'', ev_TenantID = r_TenantID req,
         ev_OccurredAt = m_OccurredAt m, ev_Source = ''tally'',
         ev_Payload = \<lparr> ev_ProductID = m_ProductID m, ev_WarehouseID = m_WarehouseID m,
           ev_Direction = Direction_string (m_Direction m), ev_QtyDelta = dec_string E (m_QtyBase m),
           ev_OnHandAfter = dec_string E (s_OnHandQty snap), ev_UnitCost = dec_string E (m_UnitCost m),
           ev_ReferenceType = ReferenceType_string (m_ReferenceType m) \<rparr> \<rparr>)"

text \<open>Validate, apply, enqueue: the part both entry points run inside a transaction.\<close>

definition record_body :: "env \<Rightarrow> RecordMovementUseCase \<Rightarrow> string \<Rightarrow> RecordMovementRequest \<Rightarrow> Movement \<Rightarrow> Snapshot op" where
  "record_body E uc who req m =
     thenE (ValidateMovement (uc_calculator uc) m)
     (bindE (mapErr (Wrap (who @ ''apply movement'')) (ApplyMovement (uc_calculator uc) m)) (\<lambda>(snap, m).
      thenE (whenE (uc_outbox uc) (mapErr (Wrap (who @ ''enqueue outbox'')) (enqueueOutbox E req m snap)))
      (returnE snap)))"

definition RecordMovement_ExecuteInTx :: "env \<Rightarrow> RecordMovementUseCase \<Rightarrow> RecordMovementRequest \<Rightarrow> Snapshot op" where
  "RecordMovement_ExecuteInTx E uc req =
     bindE (liftE (check_request E ''record movement (tx)'' req)) (\<lambda>qtyBase.
     bindE (new_movement E req qtyBase) (\<lambda>m.
     record_body E uc ''record movement (tx): '' req m))"

definition RecordMovement_Execute ::
  "env \<Rightarrow> RecordMovementUseCase \<Rightarrow> RecordMovementRequest \<Rightarrow> db \<Rightarrow> (err + Snapshot) \<times> db" where
  "RecordMovement_Execute E uc req =
     runTx (bindE (liftE (check_request E ''record movement'' req)) (\<lambda>qtyBase.
            bindE (new_movement E req qtyBase) (\<lambda>m.
            record_body E uc [] req m)))"

section \<open>The executor's contract\<close>

text \<open>The database without what a recorded movement writes.\<close>

definition beyond_stock :: "db \<Rightarrow> db" where
  "beyond_stock s = (non_stock s)\<lparr>event_outbox := []\<rparr>"

lemma beyond_stock_updates [simp]:
  "beyond_stock (s\<lparr>draws := n\<rparr>) = beyond_stock s" "beyond_stock (s\<lparr>event_outbox := x\<rparr>) = beyond_stock s"
  by (simp_all add: beyond_stock_def non_stock_def)

lemma beyond_stockD:
  assumes "beyond_stock s' = beyond_stock s"
  shows "bill_head s' = bill_head s" "bill_item s' = bill_item s" "bill_sequence s' = bill_sequence s"
    "payment_head s' = payment_head s" "product s' = product s" "product_sku s' = product_sku s"
    "product_unit s' = product_unit s" "warehouse s' = warehouse s" "partner s' = partner s"
    "import_order_seen s' = import_order_seen s" "audit_log s' = audit_log s"
    "import_sku_map s' = import_sku_map s" "import_order_cancel_seen s' = import_order_cancel_seen s"
    "import_refund_seen s' = import_refund_seen s" "exchange_rate s' = exchange_rate s"
  using assms by (cases s; cases s'; simp add: beyond_stock_def non_stock_def)+

fun request_delta :: "RecordMovementRequest \<Rightarrow> rat \<Rightarrow> rat" where
  "request_delta req q = (case r_Direction req of DirectionOut \<Rightarrow> - q | _ \<Rightarrow> q)"

declare request_delta.simps [simp del]

definition request_short :: "RecordMovementRequest \<Rightarrow> rat \<Rightarrow> rat \<Rightarrow> bool" where
  "request_short req q available \<longleftrightarrow>
     (r_Direction req = DirectionOut \<and> available < q \<and> \<not> r_AllowNegative req)
     \<or> (r_Direction req = DirectionAdjust \<and> q < 0 \<and> available < - q)"

abbreviation req_book :: "RecordMovementRequest \<Rightarrow> db \<Rightarrow> rat" where
  "req_book req s \<equiv> on_hand (r_TenantID req) (r_ProductID req) (r_WarehouseID req) s"

definition recorded_for :: "RecordMovementRequest \<Rightarrow> rat \<Rightarrow> Movement \<Rightarrow> bool" where
  "recorded_for req q m \<longleftrightarrow> m_TenantID m = r_TenantID req \<and> m_ProductID m = r_ProductID req
     \<and> m_WarehouseID m = r_WarehouseID req \<and> m_Direction m = r_Direction req \<and> m_QtyBase m = q
     \<and> m_ReferenceType m = r_ReferenceType req
     \<and> (r_ReferenceID req \<noteq> None \<longrightarrow> m_ReferenceID m = r_ReferenceID req) \<and> m_CreatedBy m = r_CreatedBy req
     \<and> m_Note m = r_Note req"

locale stock_executor =
  fixes E :: env and exec :: "RecordMovementRequest \<Rightarrow> Snapshot op"
  assumes exec_qty: "exec req s = Inr (snap, s') \<Longrightarrow> \<exists>q. check_request E who req = Inr q"
    and exec_book: "exec req s = Inr (snap, s') \<Longrightarrow> check_request E who req = Inr q \<Longrightarrow>
          s_OnHandQty snap = req_book req s + request_delta req q \<and> req_book req s' = numeric E 4 (s_OnHandQty snap)
          \<and> \<not> request_short req q (req_book req s)"
    and exec_other: "exec req s = Inr (snap, s') \<Longrightarrow>
          (r_TenantID req, r_ProductID req, r_WarehouseID req) \<noteq> (t, p, w) \<Longrightarrow>
          GetSnapshot t p w s' = GetSnapshot t p w s"
    and exec_log: "exec req s = Inr (snap, s') \<Longrightarrow> check_request E who req = Inr q \<Longrightarrow>
          \<exists>m. recorded_for req q m \<and> stock_movement s' = stock_movement s @ [stored_movement E m]"
    and exec_frame: "exec req s = Inr (snap, s') \<Longrightarrow> beyond_stock s' = beyond_stock s"
    and exec_short: "check_request E who req = Inr q \<Longrightarrow> request_short req q (req_book req s) \<Longrightarrow>
          \<exists>r. exec req s = Inl (InsufficientStockError (r_ProductID req) (req_book req s) r)"
    and exec_only_short: "exec req s = Inl e \<Longrightarrow> errors_unwrap e = InsufficientStockError x a r \<Longrightarrow>
          r_Direction req = DirectionOut \<Longrightarrow> \<exists>q. check_request E who req = Inr q \<and> request_short req q (req_book req s)"

lemma check_request_Inl: "check_request E who req = Inl e \<Longrightarrow> errors_unwrap e \<noteq> InsufficientStockError x a r"
  by (auto simp: check_request_def convertToBase_def decimalutil_Parse_def split: if_splits sum.splits option.splits
      elim: Direction_Validate.elims)

lemma check_request_who:
  "check_request E who req = Inr q \<Longrightarrow> check_request E who' req = Inr q"
  by (auto simp: check_request_def split: if_splits sum.splits)

lemma check_request_direction: "check_request E who req = Inr q \<Longrightarrow> Direction_Validate (r_Direction req) = Inr ()"
  by (auto simp: check_request_def split: if_splits sum.splits)

lemma new_movement_Inr:
  assumes "new_movement E req q s = Inr (m, s')"
  shows "recorded_for req q m" "m_AllowNegative m = r_AllowNegative req" "s' = s\<lparr>draws := Suc (draws s)\<rparr>"
    "m_ID m = new_uuid E (draws s)" "m_UnitCost m = r_UnitCost req" "m_ExplicitCost m = r_ExplicitCost req"
  using assms by (auto simp: new_movement_def bindE_Inr recorded_for_def)

lemma new_movement_ok: "\<exists>m. new_movement E req q s = Inr (m, s\<lparr>draws := Suc (draws s)\<rparr>)"
  by (simp add: new_movement_def bindE_Inr)

lemma recorded_for_book:
  assumes "recorded_for req q m"
  shows "book m s = req_book req s" "signed_qty m = request_delta req q"
    "m_AllowNegative m = r_AllowNegative req \<Longrightarrow> short m a = request_short req q a"
  using assms by (auto simp: recorded_for_def signed_qty_def request_delta.simps short_def request_short_def split: Direction.split)

lemma recorded_for_same: "recorded_for req q m \<Longrightarrow> same_movement m m' \<Longrightarrow> recorded_for req q m'"
  using same_movementD by (fastforce simp: recorded_for_def)

lemma enqueueOutbox_Inr:
  assumes "enqueueOutbox E req m snap s = Inr (u, s')"
  shows "\<exists>row. s' = s\<lparr>draws := Suc (Suc (draws s)), event_outbox := event_outbox s @ [row]\<rparr>
     \<and> ob_tenant_id row = r_TenantID req \<and> ob_subject row = movement_subject \<and> ob_published_at row = None
     \<and> ob_attempts row = 0
     \<and> ev_ProductID (ev_Payload (ob_payload row)) = m_ProductID m
     \<and> ev_QtyDelta (ev_Payload (ob_payload row)) = dec_string E (m_QtyBase m)
     \<and> ev_OnHandAfter (ev_Payload (ob_payload row)) = dec_string E (s_OnHandQty snap)"
  using assms by (auto simp: enqueueOutbox_def Enqueue_def bindE_Inr)

lemma record_body_Inr:
  assumes "record_body E uc who req m s = Inr (snap, s')"
  obtains m' s0 s1 where "ValidateMovement (uc_calculator uc) m s = Inr ((), s0)"
    "ApplyMovement (uc_calculator uc) m s0 = Inr ((snap, m'), s1)"
    "if uc_outbox uc then enqueueOutbox E req m' snap s1 = Inr ((), s') else s' = s1"
proof -
  obtain s0 x m' s1 where v: "ValidateMovement (uc_calculator uc) m s = Inr ((), s0)"
    and a: "ApplyMovement (uc_calculator uc) m s0 = Inr ((x, m'), s1)"
    and k: "thenE (whenE (uc_outbox uc) (mapErr (Wrap (who @ ''enqueue outbox'')) (enqueueOutbox E req m' x))) (returnE x) s1 = Inr (snap, s')"
    using assms unfolding record_body_def thenE_Inr [of "ValidateMovement _ _"] bindE_Inr by auto
  from k have x: "x = snap" and o: "if uc_outbox uc then enqueueOutbox E req m' x s1 = Inr ((), s') else s' = s1"
    by (cases "uc_outbox uc"; auto simp: thenE_Inr whenE_Inr)+
  show ?thesis by (rule that [OF v a [unfolded x] o [unfolded x]])
qed

lemma record_body_iff:
  "record_body E uc who req m s = Inr (snap, s') \<longleftrightarrow>
     (\<exists>m' s0 s1. ValidateMovement (uc_calculator uc) m s = Inr ((), s0) \<and> ApplyMovement (uc_calculator uc) m s0 = Inr ((snap, m'), s1)
        \<and> (if uc_outbox uc then enqueueOutbox E req m' snap s1 = Inr ((), s') else s' = s1))"
    (is "?l \<longleftrightarrow> ?r")
proof
  assume ?l
  then show ?r by (rule record_body_Inr) blast
next
  assume ?r
  then obtain m' s0 s1 where v: "ValidateMovement (uc_calculator uc) m s = Inr ((), s0)"
    and a: "ApplyMovement (uc_calculator uc) m s0 = Inr ((snap, m'), s1)"
    and o: "if uc_outbox uc then enqueueOutbox E req m' snap s1 = Inr ((), s') else s' = s1" by blast
  have "thenE (whenE (uc_outbox uc) (mapErr (Wrap (who @ ''enqueue outbox'')) (enqueueOutbox E req m' snap))) (returnE snap) s1 = Inr (snap, s')"
    using o by (simp add: thenE_Inr whenE_Inr split: if_splits)
  then show ?l using v a by (simp add: record_body_def thenE_def)
qed

abbreviation recorder :: "InventoryCalculator \<Rightarrow> bool \<Rightarrow> RecordMovementUseCase" where
  "recorder calc outbox \<equiv> \<lparr>uc_calculator = calc, uc_outbox = outbox\<rparr>"

lemma read_draws [simp]:
  "GetSnapshot t p w (s\<lparr>draws := n\<rparr>) = GetSnapshot t p w s" "on_hand t p w (s\<lparr>draws := n\<rparr>) = on_hand t p w s"
  "book_cost t p w (s\<lparr>draws := n\<rparr>) = book_cost t p w s"
  by (simp_all add: on_hand_def book_cost_def GetSnapshot_def)

context inventory_calculator
begin

lemma executed:
  assumes "RecordMovement_ExecuteInTx E (recorder calc outbox) req s = Inr (snap, s')"
  obtains q m m' s1 where "check_request E ''record movement (tx)'' req = Inr q"
    "new_movement E req q s = Inr (m, s\<lparr>draws := Suc (draws s)\<rparr>)" "recorded_for req q m"
    "\<not> request_short req q (req_book req s)"
    "ApplyMovement calc m (s\<lparr>draws := Suc (draws s)\<rparr>) = Inr ((snap, m'), s1)"
    "if outbox then enqueueOutbox E req m' snap s1 = Inr ((), s') else s' = s1"
proof -
  let ?s = "s\<lparr>draws := Suc (draws s)\<rparr>"
  obtain q m s2 where q: "check_request E ''record movement (tx)'' req = Inr q" and m: "new_movement E req q s = Inr (m, s2)"
    and b: "record_body E (recorder calc outbox) ''record movement (tx): '' req m s2 = Inr (snap, s')"
    using assms unfolding RecordMovement_ExecuteInTx_def bindE_Inr liftE_Inr by blast
  note nm = new_movement_Inr [OF m]
  obtain m' s0 s1 where v: "ValidateMovement calc m s2 = Inr ((), s0)" and a: "ApplyMovement calc m s0 = Inr ((snap, m'), s1)"
    and o: "if outbox then enqueueOutbox E req m' snap s1 = Inr ((), s') else s' = s1"
    using b by (rule record_body_Inr) simp
  have "s0 = ?s" using validate_pure [OF v] nm(3) by simp
  moreover have "\<not> short m (book m s2)" using v validate_ok_iff [of m s2] by auto
  then have "\<not> request_short req q (req_book req s)"
    using recorded_for_book(3) [OF nm(1,2)] recorded_for_book(1) [OF nm(1)] nm(3) by (simp add: on_hand_def GetSnapshot_def)
  ultimately show ?thesis using that q m nm(1,3) a o by simp
qed

lemma enqueue_keeps:
  assumes "if outbox then enqueueOutbox E req m' snap s1 = Inr ((), s') else s' = s1"
  shows "stock_snapshot s' = stock_snapshot s1" "stock_movement s' = stock_movement s1" "stock_lot s' = stock_lot s1"
    "beyond_stock s' = beyond_stock s1"
  using assms enqueueOutbox_Inr [of E req m' snap s1 "()" s'] by (auto split: if_splits)

lemma exec_fails_short:
  assumes "RecordMovement_ExecuteInTx E (recorder calc outbox) req s = Inl e" "errors_unwrap e = InsufficientStockError x a r"
    "r_Direction req = DirectionOut"
  shows "\<exists>q. check_request E who req = Inr q \<and> request_short req q (req_book req s)"
proof -
  let ?s = "s\<lparr>draws := Suc (draws s)\<rparr>"
  obtain q where c: "check_request E ''record movement (tx)'' req = Inr q"
    using assms(1,2) check_request_Inl
    by (cases "check_request E ''record movement (tx)'' req") (auto simp: RecordMovement_ExecuteInTx_def bindE_Inl liftE_Inl)
  obtain m where m: "new_movement E req q s = Inr (m, ?s)" using new_movement_ok by blast
  note nm = new_movement_Inr [OF m]
  have dir: "m_Direction m = DirectionOut" using nm(1) assms(3) by (simp add: recorded_for_def)
  have b: "record_body E (recorder calc outbox) ''record movement (tx): '' req m ?s = Inl e"
    using assms(1) c m by (simp add: RecordMovement_ExecuteInTx_def)
  have "short m (book m ?s)"
  proof (rule ccontr)
    assume ns: "\<not> short m (book m ?s)"
    then obtain u s0 where v: "ValidateMovement calc m ?s = Inr (u, s0)" using validate_ok_iff [of m ?s] by fastforce
    have s0: "s0 = ?s" by (rule validate_pure [OF v])
    show False
    proof (cases "ApplyMovement calc m ?s")
      case (Inl e')
      then have "errors_unwrap e' = InsufficientStockError x a r" using b v s0 assms(2) by (auto simp: record_body_def thenE_def bindE_def mapErr_def)
      then show False using apply_only_short [OF Inl _ dir] ns by blast
    next
      case (Inr y)
      obtain sn m2 s2 where y: "y = ((sn, m2), s2)" by (metis surj_pair)
      have "\<exists>t. thenE (whenE outbox (mapErr (Wrap ''record movement (tx): enqueue outbox'') (enqueueOutbox E req m2 sn))) (returnE sn) s2 = Inr t"
        by (cases outbox) (simp_all add: thenE_def whenE_def bindE_def mapErr_def enqueueOutbox_def Enqueue_def uuid_New_def modifyE_def returnE_def)
      then show False using b v s0 Inr y by (auto simp: record_body_def thenE_def bindE_def mapErr_def)
    qed
  qed
  then have "request_short req q (req_book req s)"
    using recorded_for_book(3) [OF nm(1,2)] recorded_for_book(1) [OF nm(1)] by simp
  then show ?thesis using check_request_who [OF c] by blast
qed

lemma executor: "stock_executor E (RecordMovement_ExecuteInTx E (recorder calc outbox))"
proof
  fix req s snap s' who q t p w
  let ?exec = "RecordMovement_ExecuteInTx E (recorder calc outbox)"
  show "\<exists>r. ?exec req s = Inl (InsufficientStockError (r_ProductID req) (req_book req s) r)"
    if c: "check_request E who req = Inr q" and sh: "request_short req q (req_book req s)"
  proof -
    obtain m where m: "new_movement E req q s = Inr (m, s\<lparr>draws := Suc (draws s)\<rparr>)" using new_movement_ok by blast
    note nm = new_movement_Inr [OF m]
    have "short m (book m (s\<lparr>draws := Suc (draws s)\<rparr>))"
      using sh recorded_for_book(3) [OF nm(1,2)] recorded_for_book(1) [OF nm(1)] by simp
    then have "ValidateMovement calc m (s\<lparr>draws := Suc (draws s)\<rparr>)
        = Inl (InsufficientStockError (r_ProductID req) (req_book req s) (requested m))"
      using nm(1) by (subst validate_error) (auto simp: recorded_for_def)
    then show ?thesis
      using check_request_who [OF c, of "''record movement (tx)''"] m
      by (auto simp: RecordMovement_ExecuteInTx_def record_body_def thenE_def)
  qed
  show "\<exists>q. check_request E who req = Inr q \<and> request_short req q (req_book req s)"
    if "?exec req s = Inl e" "errors_unwrap e = InsufficientStockError x a r" "r_Direction req = DirectionOut" for e x a r
    by (rule exec_fails_short [OF that])
  assume x: "?exec req s = Inr (snap, s')"
  then obtain q0 m m' s1 where c: "check_request E ''record movement (tx)'' req = Inr q0" and rf: "recorded_for req q0 m"
    and sh: "\<not> request_short req q0 (req_book req s)"
    and a: "ApplyMovement calc m (s\<lparr>draws := Suc (draws s)\<rparr>) = Inr ((snap, m'), s1)"
    and o: "if outbox then enqueueOutbox E req m' snap s1 = Inr ((), s') else s' = s1"
    by (rule executed)
  note keep = enqueue_keeps [OF o] and rb = recorded_for_book [OF rf]
  have get: "GetSnapshot t p w s' = GetSnapshot t p w s1" for t p w using keep(1) by (rule GetSnapshot_cong)
  then have oh: "on_hand t p w s' = on_hand t p w s1" for t p w by (simp add: on_hand_def)
  show "\<exists>q. check_request E who req = Inr q" using check_request_who [OF c] by blast
  show "s_OnHandQty snap = req_book req s + request_delta req q \<and> req_book req s' = numeric E 4 (s_OnHandQty snap)
          \<and> \<not> request_short req q (req_book req s)" if "check_request E who req = Inr q"
    using check_request_who [OF that, of "''record movement (tx)''"] c apply_qty [OF a] apply_stored [OF a] sh rb rf
    by (simp add: oh recorded_for_def)
  show "\<exists>m. recorded_for req q m \<and> stock_movement s' = stock_movement s @ [stored_movement E m]"
    if "check_request E who req = Inr q"
    using check_request_who [OF that, of "''record movement (tx)''"] c apply_log [OF a] keep(2) recorded_for_same [OF rf] by auto
  show "beyond_stock s' = beyond_stock s"
    using keep(4) apply_frame [OF a] by (simp add: beyond_stock_def)
  show "GetSnapshot t p w s' = GetSnapshot t p w s" if "(r_TenantID req, r_ProductID req, r_WarehouseID req) \<noteq> (t, p, w)"
    using apply_other [OF a] rf that get by (simp add: recorded_for_def)
qed

end

interpretation wac_exec: stock_executor E "RecordMovement_ExecuteInTx E (recorder (WACCalculator E) outbox)" for E outbox
  by (rule wac.executor)

interpretation fifo_exec: stock_executor E "RecordMovement_ExecuteInTx E (recorder (FIFOCalculator E) outbox)" for E outbox
  by (rule fifo.executor)

section \<open>Recording one movement\<close>

text \<open>\<open>Execute\<close> is \<open>ExecuteInTx\<close> in a transaction of its own, with other texts on its errors.\<close>

lemma Execute_Inr:
  "RecordMovement_Execute E uc req s = (Inr snap, s') \<longleftrightarrow> RecordMovement_ExecuteInTx E uc req s = Inr (snap, s')"
proof -
  have body: "(record_body E uc [] req m s1 = Inr r) = (record_body E uc ''record movement (tx): '' req m s1 = Inr r)" for m s1 r
    by (cases r) (simp add: record_body_iff)
  have chk: "(check_request E ''record movement'' req = Inr q) = (check_request E ''record movement (tx)'' req = Inr q)" for q
    by (rule iffI; erule check_request_who)
  show ?thesis
    unfolding RecordMovement_Execute_def RecordMovement_ExecuteInTx_def runTx_Inr bindE_Inr liftE_Inr chk body ..
qed

lemma Execute_atomic: "RecordMovement_Execute E uc req s = (Inl e, s') \<Longrightarrow> s' = s"
  unfolding RecordMovement_Execute_def by (rule runTx_atomic)

lemma NewCalculator_cases: "NewCalculator E profile = WACCalculator E \<or> NewCalculator E profile = FIFOCalculator E"
  by (simp add: NewCalculator_def Let_def)

interpretation new: inventory_calculator E "NewCalculator E profile" for E profile
  by (cases "NewCalculator E profile = WACCalculator E")
     (use NewCalculator_cases [of E profile] wac.inventory_calculator_axioms fifo.inventory_calculator_axioms in auto)

abbreviation executor_of :: "env \<Rightarrow> string option \<Rightarrow> bool \<Rightarrow> RecordMovementUseCase" where
  "executor_of E profile outbox \<equiv> recorder (NewCalculator E profile) outbox"

text \<open>
  Overselling is refused before anything is written.  For either cost method, a valid request
  that asks for more than the book holds (an outbound one without the offline exception, or a
  negative count) returns \<open>InsufficientStockError\<close> naming the product and the quantity on hand, and
  the database is unchanged.
\<close>

theorem record_refuses_oversell:
  assumes "check_request E ''record movement'' req = Inr q" "request_short req q (req_book req s)"
  shows "\<exists>r. RecordMovement_Execute E (executor_of E profile outbox) req s
     = (Inl (InsufficientStockError (r_ProductID req) (req_book req s) r), s)"
proof -
  obtain m where m: "new_movement E req q s = Inr (m, s\<lparr>draws := Suc (draws s)\<rparr>)" using new_movement_ok by blast
  note nm = new_movement_Inr [OF m]
  have "short m (book m (s\<lparr>draws := Suc (draws s)\<rparr>))"
    using assms(2) recorded_for_book(3) [OF nm(1,2)] recorded_for_book(1) [OF nm(1)] by simp
  then have "ValidateMovement (NewCalculator E profile) m (s\<lparr>draws := Suc (draws s)\<rparr>)
      = Inl (InsufficientStockError (r_ProductID req) (req_book req s) (requested m))"
    using nm(1) by (subst new.validate_error) (auto simp: recorded_for_def)
  then show ?thesis
    using assms(1) m by (auto simp: RecordMovement_Execute_def record_body_def thenE_def)
qed

text \<open>
  Nothing else is refused under the weighted average: a valid request that is not short,
  carries a reference and, if it is a count, does not leave an oversold book below zero, is
  recorded.
\<close>

theorem wac_record_succeeds:
  assumes "check_request E ''record movement'' req = Inr q" "\<not> request_short req q (req_book req s)"
    and "r_Direction req = DirectionAdjust \<longrightarrow> 0 \<le> req_book req s + q"
    and "RefOther_free (r_ReferenceType req)" "r_ReferenceID req \<noteq> None \<or> r_ReferenceType req = RefInit"
  shows "\<exists>snap s'. RecordMovement_Execute E (executor_of E None outbox) req s = (Inr snap, s')"
proof -
  let ?s = "s\<lparr>draws := Suc (draws s)\<rparr>"
  have wac: "NewCalculator E None = WACCalculator E" by (simp add: NewCalculator_def)
  obtain m where m: "new_movement E req q s = Inr (m, ?s)" using new_movement_ok by blast
  note nm = new_movement_Inr [OF m] and dir = check_request_direction [OF assms(1)]
  have ch: "movement_checks m"
    using m dir assms(4,5) by (auto simp: new_movement_def bindE_Inr movement_checks_def)
  have ns: "\<not> short m (book m ?s)"
    using assms(2) recorded_for_book(1) [OF nm(1)] recorded_for_book(3) [OF nm(1,2)] by simp
  have fl: "adjust_floor m (book m ?s)"
    using assms(3) nm(1) by (simp add: adjust_floor_def recorded_for_def)
  obtain snap m' s1 where a: "ApplyMovement (WACCalculator E) m ?s = Inr ((snap, m'), s1)"
    using wac.apply_total [OF ns fl ch] by blast
  obtain u where v: "ValidateMovement (WACCalculator E) m ?s = Inr u" using wac.validate_ok_iff [of E m ?s] ns by auto
  then have v: "ValidateMovement (WACCalculator E) m ?s = Inr ((), ?s)" using wac.validate_pure by (cases u) fastforce
  have "\<exists>s'. thenE (whenE outbox (mapErr (Wrap ''enqueue outbox'') (enqueueOutbox E req m' snap))) (returnE snap) s1 = Inr (snap, s')"
    by (cases outbox) (simp_all add: thenE_Inr whenE_Inr enqueueOutbox_def Enqueue_def bindE_Inr)
  then show ?thesis
    using assms(1) m v a by (auto simp: RecordMovement_Execute_def wac record_body_def thenE_def)
qed

text \<open>
  C4: a recorded movement and its event commit together.  On success exactly one movement row is
  appended, with the request's identity and base quantity, and exactly one unpublished outbox row
  whose payload carries the same product, the quantity and the quantity on hand afterwards; on
  failure the database is as it was.
\<close>

theorem record_atomic_with_event:
  "case RecordMovement_Execute E (executor_of E profile True) req s of
     (Inl e, s') \<Rightarrow> s' = s
   | (Inr snap, s') \<Rightarrow> \<exists>q m row. check_request E ''record movement'' req = Inr q \<and> recorded_for req q m
       \<and> stock_movement s' = stock_movement s @ [stored_movement E m] \<and> event_outbox s' = event_outbox s @ [row]
       \<and> ob_tenant_id row = r_TenantID req \<and> ob_published_at row = None
       \<and> ev_ProductID (ev_Payload (ob_payload row)) = r_ProductID req
       \<and> ev_QtyDelta (ev_Payload (ob_payload row)) = dec_string E q
       \<and> ev_OnHandAfter (ev_Payload (ob_payload row)) = dec_string E (req_book req s + request_delta req q)
       \<and> beyond_stock s' = beyond_stock s"
proof -
  obtain r s' where r: "RecordMovement_Execute E (executor_of E profile True) req s = (r, s')" by force
  show ?thesis
  proof (cases r)
    case (Inl e)
    then show ?thesis using r Execute_atomic by auto
  next
    case (Inr snap)
    then have x: "RecordMovement_ExecuteInTx E (executor_of E profile True) req s = Inr (snap, s')"
      using r by (simp add: Execute_Inr)
    then obtain q m m' s1 where c: "check_request E ''record movement (tx)'' req = Inr q" and rf: "recorded_for req q m"
      and a: "ApplyMovement (NewCalculator E profile) m (s\<lparr>draws := Suc (draws s)\<rparr>) = Inr ((snap, m'), s1)"
      and o: "if True then enqueueOutbox E req m' snap s1 = Inr ((), s') else s' = s1"
      by (rule new.executed)
    have rf': "recorded_for req q m'" using new.apply_log [OF a] recorded_for_same [OF rf] by simp
    have oh: "s_OnHandQty snap = req_book req s + request_delta req q"
      using new.apply_qty [OF a] recorded_for_book(1,2) [OF rf] by simp
    have log: "stock_movement s1 = stock_movement s @ [stored_movement E m']" "non_stock s1 = non_stock s"
      using new.apply_log [OF a] new.apply_frame [OF a] by auto
    have "beyond_stock s1 = beyond_stock s" using log(2) by (simp add: beyond_stock_def)
    have "event_outbox s1 = event_outbox s" using non_stockD(11) [OF log(2)] .
    moreover obtain row where "s' = s1\<lparr>draws := Suc (Suc (draws s1)), event_outbox := event_outbox s1 @ [row]\<rparr>"
      "ob_tenant_id row = r_TenantID req" "ob_published_at row = None"
      "ev_ProductID (ev_Payload (ob_payload row)) = m_ProductID m'"
      "ev_QtyDelta (ev_Payload (ob_payload row)) = dec_string E (m_QtyBase m')"
      "ev_OnHandAfter (ev_Payload (ob_payload row)) = dec_string E (s_OnHandQty snap)"
      using o enqueueOutbox_Inr [of E req m' snap s1 "()" s'] by auto
    ultimately have "recorded_for req q m' \<and> stock_movement s' = stock_movement s @ [stored_movement E m'] \<and> event_outbox s' = event_outbox s @ [row]
       \<and> ob_tenant_id row = r_TenantID req \<and> ob_published_at row = None
       \<and> ev_ProductID (ev_Payload (ob_payload row)) = r_ProductID req
       \<and> ev_QtyDelta (ev_Payload (ob_payload row)) = dec_string E q
       \<and> ev_OnHandAfter (ev_Payload (ob_payload row)) = dec_string E (req_book req s + request_delta req q)
       \<and> beyond_stock s' = beyond_stock s"
      using rf' log(1) oh \<open>beyond_stock s1 = beyond_stock s\<close> by (simp add: recorded_for_def)
    then show ?thesis using r Inr check_request_who [OF c] by auto
  qed
qed

section \<open>The book is the sum of the log\<close>

definition book_is_ledger :: "db \<Rightarrow> bool" where
  "book_is_ledger s \<longleftrightarrow> (\<forall>t p w. on_grid 4 (on_hand t p w s) \<and> on_hand t p w s = ledger_qty t p w s)"

definition request_grid :: "env \<Rightarrow> RecordMovementRequest \<Rightarrow> bool" where
  "request_grid E req \<longleftrightarrow> (case check_request E [] req of Inl _ \<Rightarrow> True | Inr q \<Rightarrow> on_grid 4 q)"

lemma signed_recorded: "recorded_for req q m \<Longrightarrow> numeric E 6 q = q \<Longrightarrow> signed_qty (stored_movement E m) = request_delta req q"
  by (auto simp: recorded_for_def stored_movement_def signed_qty_def request_delta.simps split: Direction.split)

context stock_executor
begin

lemma exec_ledger:
  assumes "runtime_env E" "exec req s = Inr (snap, s')" "request_grid E req" "book_is_ledger s"
  shows "book_is_ledger s'"
proof -
  obtain q where c: "check_request E [] req = Inr q" using exec_qty [OF assms(2)] by blast
  then have gq: "on_grid 4 q" using assms(3) by (simp add: request_grid_def)
  obtain m where rf: "recorded_for req q m" and log: "stock_movement s' = stock_movement s @ [stored_movement E m]"
    using exec_log [OF assms(2) c] by blast
  have "on_grid 4 (req_book req s)" using assms(4) unfolding book_is_ledger_def by blast
  then have g: "on_grid 4 (req_book req s + request_delta req q)"
    using gq by (auto simp: request_delta.simps split: Direction.split)
  have same: "req_book req s' = req_book req s + request_delta req q"
    using exec_book [OF assms(2) c] numeric_fix [OF assms(1) g] by simp
  have q6: "numeric E 6 q = q" by (rule numeric_fix [OF assms(1)], rule on_grid_mono [OF gq]) simp
  have "on_grid 4 (on_hand t p w s') \<and> on_hand t p w s' = ledger_qty t p w s'" for t p w
  proof (cases "(r_TenantID req, r_ProductID req, r_WarehouseID req) = (t, p, w)")
    case True
    then have "mv_at t p w (stored_movement E m)" using rf by (simp add: mv_at_def stored_movement_def recorded_for_def)
    then have "ledger_qty t p w s' = ledger_qty t p w s + request_delta req q"
      by (simp add: ledger_qty_def log signed_recorded [OF rf q6])
    then show ?thesis using True same g assms(4) by (auto simp: book_is_ledger_def)
  next
    case False
    then have "\<not> mv_at t p w (stored_movement E m)"
      using rf by (auto simp: mv_at_def stored_movement_def recorded_for_def)
    then have "ledger_qty t p w s' = ledger_qty t p w s" by (simp add: ledger_qty_def log)
    moreover have "on_hand t p w s' = on_hand t p w s" using exec_other [OF assms(2) False] by (simp add: on_hand_def)
    ultimately show ?thesis using assms(4) unfolding book_is_ledger_def by metis
  qed
  then show ?thesis unfolding book_is_ledger_def by blast
qed

lemma exec_nonneg:
  assumes "runtime_env E" "exec req s = Inr (snap, s')" "\<not> r_AllowNegative req"
    and "r_Direction req = DirectionIn \<Longrightarrow> check_request E [] req = Inr q \<Longrightarrow> 0 \<le> q"
    and "\<And>t p w. 0 \<le> on_hand t p w s" "check_request E [] req = Inr q"
  shows "0 \<le> on_hand t p w s'"
proof (cases "(r_TenantID req, r_ProductID req, r_WarehouseID req) = (t, p, w)")
  case True
  have "0 \<le> req_book req s + request_delta req q"
    using exec_book [OF assms(2,6)] assms(3,4,6) assms(5) [of "r_TenantID req" "r_ProductID req" "r_WarehouseID req"]
      check_request_direction [OF assms(6)]
    by (auto simp: request_short_def request_delta.simps split: Direction.splits)
  then show ?thesis using True exec_book [OF assms(2,6)] numeric_nonneg [OF assms(1)] by auto
next
  case False
  then show ?thesis using exec_other [OF assms(2) False] assms(5) [of t p w] by (simp add: on_hand_def)
qed

end

text \<open>
  Runs of the use case: from the empty database, any requests that satisfy \<open>P\<close> at any times, the
  refused ones included.
\<close>

inductive stock_run :: "env \<Rightarrow> string option \<Rightarrow> (RecordMovementRequest \<Rightarrow> bool) \<Rightarrow> db \<Rightarrow> bool"
  for E profile P where
  start: "stock_run E profile P empty_db"
| step: "stock_run E profile P s \<Longrightarrow> P req \<Longrightarrow>
    stock_run E profile P (snd (RecordMovement_Execute (E\<lparr>now := t\<rparr>) (executor_of (E\<lparr>now := t\<rparr>) profile outbox) req s))"

lemma runtime_env_now: "runtime_env E \<Longrightarrow> runtime_env (E\<lparr>now := t\<rparr>)"
  by (simp add: runtime_env_def runtime_env_axioms_def)

lemma check_request_now [simp]: "check_request (E\<lparr>now := t\<rparr>) who req = check_request E who req"
proof -
  have "convertToBase (E\<lparr>now := t\<rparr>) q f = convertToBase E q f" for q f
    by (simp add: convertToBase_def decimalutil_Parse_def)
  then show ?thesis by (simp only: check_request_def)
qed

interpretation new_exec: stock_executor E "RecordMovement_ExecuteInTx E (executor_of E profile outbox)" for E profile outbox
  by (rule new.executor)

lemma Execute_snd_cases:
  obtains (refused) "snd (RecordMovement_Execute E uc req s) = s"
    | (recorded) snap s' where "snd (RecordMovement_Execute E uc req s) = s'" "RecordMovement_ExecuteInTx E uc req s = Inr (snap, s')"
  using Execute_atomic [of E uc req s] Execute_Inr [of E uc req s]
  by (cases "RecordMovement_Execute E uc req s"; cases "fst (RecordMovement_Execute E uc req s)") auto


definition ordinary_request :: "env \<Rightarrow> RecordMovementRequest \<Rightarrow> bool" where
  "ordinary_request E req \<longleftrightarrow> \<not> r_AllowNegative req \<and>
     (case check_request E [] req of Inl _ \<Rightarrow> True | Inr q \<Rightarrow> r_Direction req = DirectionIn \<longrightarrow> 0 \<le> q)"

text \<open>
  C5: stock never goes below zero.  In every state reachable without the offline exception, by
  receipts of non-negative quantities and any shipments and counts, no quantity on hand is
  negative.
\<close>

theorem reachable_book_nonneg:
  assumes "runtime_env E" "stock_run E profile (ordinary_request E) s"
  shows "0 \<le> on_hand t p w s"
  using assms(2)
proof (induction arbitrary: t p w rule: stock_run.induct)
  case start
  show ?case by (simp add: empty_db_def on_hand_def GetSnapshot_def)
next
  case (step s req n outbox)
  let ?E = "E\<lparr>now := n\<rparr>"
  show ?case
  proof (cases rule: Execute_snd_cases [of ?E "executor_of ?E profile outbox" req s])
    case refused
    then show ?thesis using step.IH by simp
  next
    case (recorded snap s')
    obtain q where c: "check_request E [] req = Inr q" using new_exec.exec_qty [OF recorded(2), of "[]"] by auto
    have "0 \<le> on_hand t p w s'"
      by (rule new_exec.exec_nonneg [OF runtime_env_now [OF assms(1)] recorded(2), of q])
         (use step c in \<open>auto simp: ordinary_request_def\<close>)
    then show ?thesis using recorded by simp
  qed
qed

section \<open>A sample run\<close>

definition demo_request :: "Direction \<Rightarrow> rat \<Rightarrow> rat \<Rightarrow> RecordMovementRequest" where
  "demo_request d q c = \<lparr> r_TenantID = 11, r_ProductID = 12, r_WarehouseID = 13, r_Direction = d, r_Qty = q,
     r_UnitID = 0, r_ConvFactor = [], r_UnitCost = c, r_ExplicitCost = False, r_AllowNegative = False,
     r_CostStrategy = [], r_ReferenceType = RefInit, r_ReferenceID = None, r_OccurredAt = 0, r_CreatedBy = None,
     r_Note = [] \<rparr>"

lemma demo_check: "Direction_Validate d = Inr () \<Longrightarrow> check_request E who (demo_request d q c) = Inr q"
  by (simp add: check_request_def demo_request_def convertToBase_def)

theorem record_refuses_oversell_witness:
  "\<exists>r. RecordMovement_Execute std_env (executor_of std_env None True) (demo_request DirectionOut 12 0) demo_db
     = (Inl (InsufficientStockError 12 10 r), demo_db)"
proof -
  have "request_short (demo_request DirectionOut 12 0) 12 (req_book (demo_request DirectionOut 12 0) demo_db)"
    by (simp add: request_short_def demo_request_def)
  from record_refuses_oversell [OF demo_check this, where profile = None and outbox = True and E = std_env]
  show ?thesis by (simp add: demo_request_def)
qed

theorem wac_record_succeeds_witness:
  "\<exists>snap s'. RecordMovement_Execute std_env (executor_of std_env None True) (demo_request DirectionOut 4 0) demo_db = (Inr snap, s')"
  by (rule wac_record_succeeds [OF demo_check]) (simp_all add: request_short_def demo_request_def)

definition demo_run :: db where
  "demo_run = snd (RecordMovement_Execute (std_env\<lparr>now := 1000\<rparr>) (executor_of (std_env\<lparr>now := 1000\<rparr>) None True) (demo_request DirectionIn 5 2) empty_db)"


theorem reachable_book_nonneg_witness: "0 \<le> on_hand 11 12 13 demo_run"
proof (rule reachable_book_nonneg [OF std_runtime])
  show "stock_run std_env None (ordinary_request std_env) demo_run"
    unfolding demo_run_def by (intro stock_run.intros) (simp add: ordinary_request_def demo_check, simp add: demo_request_def)
qed

end
