(* ===== verification/Adjust.thy ===== *)
theory Adjust
  imports Record_Movement
begin

text \<open>
  Stock counts, \<open>AdjustUseCase\<close> (\<open>internal/app/stock/adjust.go\<close>): a sheet of counted quantities
  becomes one adjust movement per difference, in one transaction.  The executor of the movements
  is a parameter of the loop, so its properties are proved in the locale \<open>stock_executor\<close>.
\<close>

definition maxAdjustItems :: nat where
  "maxAdjustItems = 500"

abbreviation "AdjustCostRequired \<equiv> ''cost_required''"

record AdjustItem =
  a_ProductID :: uuid
  a_CountedQty :: rat
  a_UnitCost :: rat

record AdjustRequest =
  aq_TenantID :: uuid
  aq_WarehouseID :: uuid
  aq_Items :: "AdjustItem list"
  aq_Remark :: string
  aq_CreatedBy :: "uuid option"

record AdjustLine =
  al_ProductID :: uuid
  al_Before :: rat
  al_Counted :: rat
  al_Delta :: rat

record AdjustResult =
  ar_AdjustID :: uuid
  ar_Adjusted :: nat
  ar_Unchanged :: nat
  ar_Lines :: "AdjustLine list"

fun scan_items :: "uuid list \<Rightarrow> AdjustItem list \<Rightarrow> err + unit" where
  "scan_items seen [] = Inr ()"
| "scan_items seen (it # items) =
     (if a_ProductID it = uuid_Nil then Inl (AdjustError ''product missing'' [] [])
      else if a_CountedQty it < 0 then Inl (AdjustError ''counted quantity negative'' [] [])
      else if a_UnitCost it < 0 then Inl (AdjustError ''unit cost negative'' [] [])
      else if a_ProductID it \<in> set seen then Inl (AdjustError ''product counted twice'' [] [])
      else scan_items (a_ProductID it # seen) items)"

definition validateAdjust :: "env \<Rightarrow> AdjustRequest \<Rightarrow> err + AdjustItem list" where
  "validateAdjust E req =
     (if aq_TenantID req = uuid_Nil then Inl (ErrMsg ''stock adjust: tenant_id is required'')
      else if aq_WarehouseID req = uuid_Nil then Inl (AdjustError ''no warehouse'' [] [])
      else if aq_Items req = [] then Inl (AdjustError ''no items'' [] [])
      else if maxAdjustItems < length (aq_Items req) then Inl (AdjustError ''too many items'' [] [])
      else case scan_items [] (aq_Items req) of
             Inl e \<Rightarrow> Inl e
           | Inr _ \<Rightarrow> Inr (sort_key (\<lambda>it. uuid_string E (a_ProductID it)) (aq_Items req)))"

text \<open>What the loop did with one item: nothing to do, a movement, or a price is missing.\<close>

datatype AdjustOutcome = Unchanged | Adjusted | NeedCost

definition count_cost :: "AdjustRequest \<Rightarrow> AdjustItem \<Rightarrow> Snapshot option \<Rightarrow> db \<Rightarrow> rat" where
  "count_cost req it snap s =
     (let cost = a_UnitCost it;
          cost = (case snap of Some r \<Rightarrow> if \<not> 0 < cost then s_UnitCost r else cost | None \<Rightarrow> cost)
      in if \<not> 0 < cost then FallbackCost (aq_TenantID req) (a_ProductID it) (aq_WarehouseID req) s else cost)"

definition count_request :: "AdjustRequest \<Rightarrow> uuid \<Rightarrow> AdjustItem \<Rightarrow> rat \<Rightarrow> rat \<Rightarrow> RecordMovementRequest" where
  "count_request req adjustID it delta cost =
     \<lparr> r_TenantID = aq_TenantID req, r_ProductID = a_ProductID it, r_WarehouseID = aq_WarehouseID req,
       r_Direction = DirectionAdjust, r_Qty = delta, r_UnitID = uuid_Nil, r_ConvFactor = [], r_UnitCost = cost,
       r_ExplicitCost = False, r_AllowNegative = False, r_CostStrategy = [], r_ReferenceType = RefAdjust,
       r_ReferenceID = Some adjustID, r_OccurredAt = 0, r_CreatedBy = aq_CreatedBy req, r_Note = aq_Remark req \<rparr>"

definition adjust_item ::
  "(RecordMovementRequest \<Rightarrow> Snapshot op) \<Rightarrow> AdjustRequest \<Rightarrow> uuid \<Rightarrow> AdjustItem \<Rightarrow> (AdjustLine \<times> AdjustOutcome) op" where
  "adjust_item exec req adjustID it =
     bindE (mapErr (Wrap ''stock adjust: load snapshot'')
              (SelectForUpdate (aq_TenantID req) (a_ProductID it) (aq_WarehouseID req))) (\<lambda>snap.
     let before = old_qty snap;
         line = \<lparr> al_ProductID = a_ProductID it, al_Before = before, al_Counted = a_CountedQty it,
                  al_Delta = a_CountedQty it - before \<rparr>;
         delta = al_Delta line in
     if delta = 0 then returnE (line, Unchanged)
     else bindE (if 0 < delta then readE (count_cost req it snap) else returnE 0) (\<lambda>cost.
       if 0 < delta \<and> \<not> 0 < cost \<and> before = 0 then returnE (line, NeedCost)
       else thenE (exec (count_request req adjustID it delta (if 0 < delta \<and> \<not> 0 < cost then 0 else cost)))
              (returnE (line, Adjusted))))"

definition adjust_body ::
  "(RecordMovementRequest \<Rightarrow> Snapshot op) \<Rightarrow> AdjustRequest \<Rightarrow> uuid \<Rightarrow> AdjustItem list \<Rightarrow> AdjustResult op" where
  "adjust_body exec req adjustID items =
     bindE (readE (CheckOwned (aq_TenantID req) (aq_WarehouseID req) (map a_ProductID items))) (\<lambda>(whOK, n).
     if \<not> whOK \<or> n \<noteq> length items then failE (AdjustError ''product or warehouse missing'' [] [])
     else bindE (forE (adjust_item exec req adjustID) items) (\<lambda>rs.
       let needCost = map (al_ProductID \<circ> fst) (filter (\<lambda>r. snd r = NeedCost) rs) in
       if needCost \<noteq> [] then failE (AdjustError ''price missing'' AdjustCostRequired needCost)
       else returnE \<lparr> ar_AdjustID = adjustID, ar_Adjusted = length (filter (\<lambda>r. snd r = Adjusted) rs),
              ar_Unchanged = length (filter (\<lambda>r. snd r = Unchanged) rs), ar_Lines = map fst rs \<rparr>))"

definition Adjust_Execute :: "env \<Rightarrow> RecordMovementUseCase \<Rightarrow> AdjustRequest \<Rightarrow> db \<Rightarrow> (err + AdjustResult) \<times> db" where
  "Adjust_Execute E uc req =
     runTx (bindE (liftE (validateAdjust E req)) (\<lambda>items.
            bindE (uuid_New E) (\<lambda>adjustID.
            adjust_body (RecordMovement_ExecuteInTx E uc) req adjustID items)))"

section \<open>Validation\<close>

lemma scan_items_ok:
  "scan_items seen items = Inr () \<longleftrightarrow>
     (\<forall>it \<in> set items. a_ProductID it \<noteq> uuid_Nil \<and> 0 \<le> a_CountedQty it \<and> 0 \<le> a_UnitCost it
        \<and> a_ProductID it \<notin> set seen) \<and> distinct (map a_ProductID items)"
  by (induction seen items rule: scan_items.induct) (auto simp: image_iff)

text \<open>
  A count sheet is accepted exactly when it names a tenant and a warehouse, has between one
  and 500 items, and every item names a product, once, with a non-negative quantity and price;
  the accepted items are the submitted ones, in the order of the lock keys.
\<close>

theorem validateAdjust_iff:
  "(\<exists>items. validateAdjust E req = Inr items) \<longleftrightarrow>
     aq_TenantID req \<noteq> uuid_Nil \<and> aq_WarehouseID req \<noteq> uuid_Nil \<and> 1 \<le> length (aq_Items req) \<and> length (aq_Items req) \<le> 500
     \<and> distinct (map a_ProductID (aq_Items req))
     \<and> list_all (\<lambda>it. a_ProductID it \<noteq> uuid_Nil \<and> 0 \<le> a_CountedQty it \<and> 0 \<le> a_UnitCost it) (aq_Items req)"
proof -
  have "1 \<le> length (aq_Items req) \<longleftrightarrow> aq_Items req \<noteq> []" by (cases "aq_Items req") auto
  then show ?thesis
    using scan_items_ok [of "[]" "aq_Items req"]
    by (cases "scan_items [] (aq_Items req)")
       (auto simp: validateAdjust_def maxAdjustItems_def list_all_iff)
qed

lemma validateAdjust_items:
  assumes "validateAdjust E req = Inr items"
  shows "distinct (map a_ProductID items)" "set items = set (aq_Items req)" "length items = length (aq_Items req)"
    "aq_TenantID req \<noteq> uuid_Nil" "aq_WarehouseID req \<noteq> uuid_Nil"
    "it \<in> set items \<Longrightarrow> a_ProductID it \<noteq> uuid_Nil \<and> 0 \<le> a_CountedQty it"
    "sorted (map (\<lambda>it. uuid_string E (a_ProductID it)) items)"
proof -
  have ok: "scan_items [] (aq_Items req) = Inr ()"
    and i: "items = sort_key (\<lambda>it. uuid_string E (a_ProductID it)) (aq_Items req)"
    and ids: "aq_TenantID req \<noteq> uuid_Nil" "aq_WarehouseID req \<noteq> uuid_Nil"
    using assms by (auto simp: validateAdjust_def split: if_splits sum.splits)
  show "distinct (map a_ProductID items)" "set items = set (aq_Items req)" "length items = length (aq_Items req)"
    "it \<in> set items \<Longrightarrow> a_ProductID it \<noteq> uuid_Nil \<and> 0 \<le> a_CountedQty it"
    "sorted (map (\<lambda>it. uuid_string E (a_ProductID it)) items)"
    using ok by (auto simp: i scan_items_ok distinct_map)
  show "aq_TenantID req \<noteq> uuid_Nil" "aq_WarehouseID req \<noteq> uuid_Nil" by (fact ids)+
qed

section \<open>The loop\<close>

lemma count_request_check:
  assumes "aq_TenantID req \<noteq> uuid_Nil" "aq_WarehouseID req \<noteq> uuid_Nil" "a_ProductID it \<noteq> uuid_Nil"
  shows "check_request E who (count_request req i it d c) = Inr d"
  using assms by (simp add: check_request_def count_request_def convertToBase_def)

context stock_executor
begin

lemma adjust_item_Inr:
  assumes "runtime_env E" "adjust_item exec req i it s = Inr ((line, out), s')" "out \<noteq> NeedCost"
    and "aq_TenantID req \<noteq> uuid_Nil" "aq_WarehouseID req \<noteq> uuid_Nil" "a_ProductID it \<noteq> uuid_Nil"
    and "on_grid 4 (a_CountedQty it)"
  shows "on_hand (aq_TenantID req) (a_ProductID it) (aq_WarehouseID req) s' = a_CountedQty it"
    "(t, p, w) \<noteq> (aq_TenantID req, a_ProductID it, aq_WarehouseID req) \<Longrightarrow> on_hand t p w s' = on_hand t p w s"
    "beyond_stock s' = beyond_stock s"
proof -
  let ?oh = "on_hand (aq_TenantID req) (a_ProductID it) (aq_WarehouseID req)"
  let ?d = "a_CountedQty it - ?oh s"
  have "?oh s' = a_CountedQty it \<and> ((t, p, w) \<noteq> (aq_TenantID req, a_ProductID it, aq_WarehouseID req) \<longrightarrow> on_hand t p w s' = on_hand t p w s)
      \<and> beyond_stock s' = beyond_stock s"
  proof (cases "?d = 0")
    case True
    then show ?thesis using assms(2) by (simp add: adjust_item_def Let_def)
  next
    case False
    then obtain cost snap where x: "exec (count_request req i it ?d cost) s = Inr (snap, s')"
      using assms(2,3) by (auto simp: adjust_item_def Let_def thenE_Inr bindE_Inr split: if_splits)
    let ?r = "count_request req i it ?d cost"
    have c: "check_request E [] ?r = Inr ?d" using assms(4-6) by (rule count_request_check)
    have key: "r_TenantID ?r = aq_TenantID req" "r_ProductID ?r = a_ProductID it" "r_WarehouseID ?r = aq_WarehouseID req"
      "r_Direction ?r = DirectionAdjust" by (simp_all add: count_request_def)
    have "?oh s' = numeric E 4 (a_CountedQty it)"
      using exec_book [OF x c] by (simp add: key request_delta.simps)
    moreover have "on_hand t p w s' = on_hand t p w s" if "(t, p, w) \<noteq> (aq_TenantID req, a_ProductID it, aq_WarehouseID req)"
      using exec_other [OF x, of t p w] that unfolding key by (auto simp: on_hand_def)
    ultimately show ?thesis
      using numeric_fix [OF assms(1,7)] exec_frame [OF x] by auto
  qed
  then show "on_hand (aq_TenantID req) (a_ProductID it) (aq_WarehouseID req) s' = a_CountedQty it"
    "(t, p, w) \<noteq> (aq_TenantID req, a_ProductID it, aq_WarehouseID req) \<Longrightarrow> on_hand t p w s' = on_hand t p w s"
    "beyond_stock s' = beyond_stock s"
    by blast+
qed

lemma adjust_loop:
  assumes "runtime_env E" "aq_TenantID req \<noteq> uuid_Nil" "aq_WarehouseID req \<noteq> uuid_Nil"
    and "forE (adjust_item exec req i) items s = Inr (rs, s')" "\<And>r. r \<in> set rs \<Longrightarrow> snd r \<noteq> NeedCost"
    and "distinct (map a_ProductID items)"
    and "\<And>it. it \<in> set items \<Longrightarrow> a_ProductID it \<noteq> uuid_Nil \<and> on_grid 4 (a_CountedQty it)"
  shows "(\<forall>it \<in> set items. on_hand (aq_TenantID req) (a_ProductID it) (aq_WarehouseID req) s' = a_CountedQty it)
    \<and> (\<forall>t p w. (t, w) \<noteq> (aq_TenantID req, aq_WarehouseID req) \<or> p \<notin> a_ProductID ` set items \<longrightarrow> on_hand t p w s' = on_hand t p w s)
    \<and> beyond_stock s' = beyond_stock s"
  using assms(4-)
proof (induction items arbitrary: s rs)
  case Nil
  then show ?case by simp
next
  case (Cons it items)
  obtain r s1 rs' where r: "adjust_item exec req i it s = Inr (r, s1)"
    and rest: "forE (adjust_item exec req i) items s1 = Inr (rs', s')" and rs: "rs = r # rs'"
    using Cons.prems(1) unfolding forE_Cons_Inr by blast
  obtain line out where lo: "r = (line, out)" by force
  note one = adjust_item_Inr [OF assms(1) r [unfolded lo] _ assms(2,3)]
  have pre: "out \<noteq> NeedCost" "a_ProductID it \<noteq> uuid_Nil" "on_grid 4 (a_CountedQty it)"
    using Cons.prems(2,4) rs lo by force+
  have IH: "(\<forall>it \<in> set items. on_hand (aq_TenantID req) (a_ProductID it) (aq_WarehouseID req) s' = a_CountedQty it)
    \<and> (\<forall>t p w. (t, w) \<noteq> (aq_TenantID req, aq_WarehouseID req) \<or> p \<notin> a_ProductID ` set items \<longrightarrow> on_hand t p w s' = on_hand t p w s1)
    \<and> beyond_stock s' = beyond_stock s1"
    by (rule Cons.IH [OF rest]) (use Cons.prems rs in auto)
  have new: "a_ProductID it \<notin> a_ProductID ` set items" using Cons.prems(3) by simp
  have "on_hand (aq_TenantID req) (a_ProductID it) (aq_WarehouseID req) s' = a_CountedQty it"
    using IH new one(1) [OF pre] by simp
  moreover have "on_hand t p w s' = on_hand t p w s"
    if "(t, w) \<noteq> (aq_TenantID req, aq_WarehouseID req) \<or> p \<notin> a_ProductID ` set (it # items)" for t p w
    using IH that one(2) [OF pre, of t p w] by auto
  ultimately show ?case using IH one(3) [OF pre] by auto
qed

lemma adjust_body_Inr:
  assumes "runtime_env E" "adjust_body exec req i items s = Inr (res, s')"
    and "aq_TenantID req \<noteq> uuid_Nil" "aq_WarehouseID req \<noteq> uuid_Nil" "distinct (map a_ProductID items)"
    and "\<And>it. it \<in> set items \<Longrightarrow> a_ProductID it \<noteq> uuid_Nil \<and> on_grid 4 (a_CountedQty it)"
  shows "(\<forall>it \<in> set items. on_hand (aq_TenantID req) (a_ProductID it) (aq_WarehouseID req) s' = a_CountedQty it)
    \<and> (\<forall>t p w. (t, w) \<noteq> (aq_TenantID req, aq_WarehouseID req) \<or> p \<notin> a_ProductID ` set items \<longrightarrow> on_hand t p w s' = on_hand t p w s)
    \<and> beyond_stock s' = beyond_stock s" "ar_Adjusted res + ar_Unchanged res = length items"
proof -
  obtain rs where f: "forE (adjust_item exec req i) items s = Inr (rs, s')"
    and nc: "filter (\<lambda>r. snd r = NeedCost) rs = []"
    and res: "ar_Adjusted res = length (filter (\<lambda>r. snd r = Adjusted) rs)" "ar_Unchanged res = length (filter (\<lambda>r. snd r = Unchanged) rs)"
    using assms(2) by (auto simp: adjust_body_def bindE_Inr Let_def split: if_splits prod.splits)
  have n: "\<And>r. r \<in> set rs \<Longrightarrow> snd r \<noteq> NeedCost" using nc by (auto simp: filter_empty_conv)
  show "(\<forall>it \<in> set items. on_hand (aq_TenantID req) (a_ProductID it) (aq_WarehouseID req) s' = a_CountedQty it)
    \<and> (\<forall>t p w. (t, w) \<noteq> (aq_TenantID req, aq_WarehouseID req) \<or> p \<notin> a_ProductID ` set items \<longrightarrow> on_hand t p w s' = on_hand t p w s)
    \<and> beyond_stock s' = beyond_stock s"
    by (rule adjust_loop [OF assms(1,3,4) f n assms(5,6)])
  have "filter (\<lambda>r. snd r = Unchanged) rs = filter (\<lambda>r. snd r \<noteq> Adjusted) rs"
    using n by (intro filter_cong) (auto, metis AdjustOutcome.exhaust)
  then show "ar_Adjusted res + ar_Unchanged res = length items"
    using res forE_length [OF f] sum_length_filter_compl [of "\<lambda>r. snd r = Adjusted" rs] by simp
qed

end

text \<open>
  C13: a count sheet is all or nothing and does what it says.  When it succeeds, the book of every
  counted product in the warehouse equals the counted quantity, no other book row changes, nothing
  outside the stock tables changes, and each item is reported as adjusted or unchanged; when it
  fails, the database is as it was.
\<close>

theorem adjust_sets_book:
  assumes "runtime_env E" "list_all (\<lambda>it. on_grid 4 (a_CountedQty it)) (aq_Items req)"
  shows "case Adjust_Execute E (executor_of E profile outbox) req s of
      (Inl e, s') \<Rightarrow> s' = s
    | (Inr res, s') \<Rightarrow>
        list_all (\<lambda>it. on_hand (aq_TenantID req) (a_ProductID it) (aq_WarehouseID req) s' = a_CountedQty it) (aq_Items req)
        \<and> (\<forall>t p w. (t, w) = (aq_TenantID req, aq_WarehouseID req) \<and> p \<in> a_ProductID ` set (aq_Items req)
                  \<or> on_hand t p w s' = on_hand t p w s)
        \<and> beyond_stock s' = beyond_stock s \<and> ar_Adjusted res + ar_Unchanged res = length (aq_Items req)"
proof -
  obtain r s' where r: "Adjust_Execute E (executor_of E profile outbox) req s = (r, s')" by force
  show ?thesis
  proof (cases r)
    case (Inl e)
    have "s' = s" by (rule runTx_atomic [OF r [unfolded Adjust_Execute_def Inl]])
    then show ?thesis using r Inl by simp
  next
    case (Inr res)
    then obtain items where v: "validateAdjust E req = Inr items"
      and b: "adjust_body (RecordMovement_ExecuteInTx E (executor_of E profile outbox)) req (new_uuid E (draws s)) items
                (s\<lparr>draws := Suc (draws s)\<rparr>) = Inr (res, s')"
      using r unfolding Adjust_Execute_def Inr runTx_Inr bindE_Inr liftE_Inr uuid_New_Inr by blast
    note vi = validateAdjust_items [OF v]
    have g: "\<And>it. it \<in> set items \<Longrightarrow> a_ProductID it \<noteq> uuid_Nil \<and> on_grid 4 (a_CountedQty it)"
      using vi(2,6) assms(2) by (auto simp: list_all_iff)
    note eff = new_exec.adjust_body_Inr [OF assms(1) b vi(4,5,1) g]
    have "(t, w) = (aq_TenantID req, aq_WarehouseID req) \<and> p \<in> a_ProductID ` set (aq_Items req)
        \<or> on_hand t p w s' = on_hand t p w s" for t p w
      using eff(1) vi(2) by (metis read_draws(2))
    then show ?thesis using eff r Inr vi(2,3) by (simp add: list_all_iff)
  qed
qed

definition demo_sheet :: AdjustRequest where
  "demo_sheet = \<lparr> aq_TenantID = 11, aq_WarehouseID = 13,
     aq_Items = [\<lparr> a_ProductID = 12, a_CountedQty = 8, a_UnitCost = 0 \<rparr>], aq_Remark = [], aq_CreatedBy = None \<rparr>"

definition demo_owned :: db where
  "demo_owned = demo_db\<lparr>
     product := [\<lparr> pr_id = 12, pr_tenant_id = 11, pr_name = ''tea'', pr_default_unit_id = Some 21, pr_unit_id = None, pr_deleted = False \<rparr>],
     warehouse := [\<lparr> wh_id = 13, wh_tenant_id = 11, wh_name = ''main'', wh_is_default = Some True, wh_enabled = None,
                     wh_created_at = 1, wh_deleted = False \<rparr>]\<rparr>"

lemma demo_sheet_accepted: "\<not> isl (fst (Adjust_Execute std_env (executor_of std_env None True) demo_sheet demo_owned))"
  by code_simp

theorem adjust_sets_book_witness:
  "\<exists>res s'. Adjust_Execute std_env (executor_of std_env None True) demo_sheet demo_owned = (Inr res, s') \<and> on_hand 11 12 13 s' = 8"
proof -
  obtain res s' where a: "Adjust_Execute std_env (executor_of std_env None True) demo_sheet demo_owned = (Inr res, s')"
    using demo_sheet_accepted
    by (cases "Adjust_Execute std_env (executor_of std_env None True) demo_sheet demo_owned"; cases "fst (Adjust_Execute std_env (executor_of std_env None True) demo_sheet demo_owned)") auto
  have "list_all (\<lambda>it. on_grid 4 (a_CountedQty it)) (aq_Items demo_sheet)" by (simp add: demo_sheet_def)
  from adjust_sets_book [OF std_runtime this, where profile = None and outbox = True and s = demo_owned] a
  show ?thesis by (auto simp: demo_sheet_def)
qed

end
