(* ===== verification/Bill_Domain.thy ===== *)
theory Bill_Domain
  imports Store
begin

text \<open>
  \<open>internal/domain/bill/bill.go\<close>: the status machine of a bill, what is still owed on it, and
  how far it is paid and invoiced.  Neither \<open>ReturnedAmount\<close> nor \<open>InvoicedAmount\<close> is a column, so
  they are arguments here.
\<close>

fun BillStatus_int :: "BillStatus \<Rightarrow> int" where
  "BillStatus_int StatusDraft = 0"
| "BillStatus_int StatusApproved = 2"
| "BillStatus_int StatusCancelled = 9"
| "BillStatus_int (StatusOther n) = n"

definition ReceivableAmount :: "BillHead \<Rightarrow> rat" where
  "ReceivableAmount h = (let diff = h_TotalAmount h - h_PaidAmount h in if diff < 0 then 0 else diff)"

fun BillStatus_CanTransitionTo :: "BillStatus \<Rightarrow> BillStatus \<Rightarrow> bool" where
  "BillStatus_CanTransitionTo StatusDraft n \<longleftrightarrow> n = StatusApproved \<or> n = StatusCancelled"
| "BillStatus_CanTransitionTo _ n \<longleftrightarrow> False"

definition BillHead_CanTransitionTo :: "BillHead \<Rightarrow> BillStatus \<Rightarrow> err + unit" where
  "BillHead_CanTransitionTo b n =
     (case h_Status b of
        StatusDraft \<Rightarrow> if n = StatusApproved \<or> n = StatusCancelled then Inr () else Inl ErrIllegalTransition
      | StatusApproved \<Rightarrow> if n = StatusCancelled then Inr () else Inl ErrIllegalTransition
      | StatusCancelled \<Rightarrow> if n = StatusDraft \<and> h_Revision b = 0 then Inr () else Inl ErrIllegalTransition
      | StatusOther _ \<Rightarrow> Inl ErrIllegalTransition)"

text \<open>\<open>Truncate(2)\<close> of the decimal library cuts towards zero.\<close>

definition truncate2 :: "rat \<Rightarrow> rat" where
  "truncate2 x = (if 0 \<le> x then of_int \<lfloor>x * 100\<rfloor> / 100 else - (of_int \<lfloor>- x * 100\<rfloor> / 100))"

datatype InvoiceStatus = InvoiceNone | InvoicePartial | InvoiceFull
datatype PaymentStatus = PaymentUnpaid | PaymentPartial | PaymentPaid

definition BillHead_InvoiceStatus :: "BillHead \<Rightarrow> rat \<Rightarrow> InvoiceStatus" where
  "BillHead_InvoiceStatus b invoiced =
     (if \<not> 0 < invoiced then InvoiceNone
      else if invoiced < truncate2 (h_TotalAmount b) then InvoicePartial
      else InvoiceFull)"

text \<open>The empty string of the source is \<open>None\<close>.\<close>

definition BillHead_PaymentStatus :: "BillHead \<Rightarrow> rat \<Rightarrow> PaymentStatus option" where
  "BillHead_PaymentStatus b returned =
     (if h_Status b \<noteq> StatusApproved then None
      else if \<not> 0 < h_PaidAmount b then Some PaymentUnpaid
      else if h_PaidAmount b < max (h_TotalAmount b - returned) 0 then Some PaymentPartial
      else Some PaymentPaid)"

section \<open>Facts\<close>

lemma approved_terminal [simp]: "\<not> BillStatus_CanTransitionTo StatusApproved n" "\<not> BillStatus_CanTransitionTo StatusCancelled n"
  by simp_all

lemma CanTransitionTo_draft [simp]: "BillStatus_CanTransitionTo st StatusApproved \<longleftrightarrow> st = StatusDraft"
  "BillStatus_CanTransitionTo st StatusCancelled \<longleftrightarrow> st = StatusDraft"
  by (cases st; simp)+

lemma truncate2_near: "0 \<le> x \<Longrightarrow> truncate2 x \<le> x \<and> x < truncate2 x + 1 / 100"
proof -
  assume "0 \<le> x"
  have "of_int \<lfloor>x * 100\<rfloor> \<le> x * 100" "x * 100 < of_int \<lfloor>x * 100\<rfloor> + (1 :: rat)" by linarith+
  then show ?thesis using \<open>0 \<le> x\<close> by (simp add: truncate2_def field_simps)
qed

lemma payment_status_paid:
  "BillHead_PaymentStatus b returned = Some PaymentPaid \<Longrightarrow> returned = 0 \<Longrightarrow> ReceivableAmount b = 0"
  by (auto simp: BillHead_PaymentStatus_def ReceivableAmount_def Let_def max_def split: if_splits)

end
