(* ===== verification/Go_Text.thy ===== *)
theory Go_Text
  imports Runtime
begin

text \<open>
  The parts of Go's \<open>strings\<close>, \<open>fmt\<close> and \<open>time\<close> packages the sources use.  A Go string is its
  bytes; text outside ASCII is written by its code points.  A time is the number of nanoseconds
  since 1 January of the year 1, 00:00 UTC, so the zero \<open>time.Time\<close> is 0.
\<close>

section \<open>UTF-8\<close>

definition utf8_char :: "int \<Rightarrow> string" where
  "utf8_char c =
     (if c < 128 then [char_of c]
      else if c < 2048 then [char_of (192 + c div 64), char_of (128 + c mod 64)]
      else if c < 65536 then [char_of (224 + c div 4096), char_of (128 + c div 64 mod 64), char_of (128 + c mod 64)]
      else [char_of (240 + c div 262144), char_of (128 + c div 4096 mod 64), char_of (128 + c div 64 mod 64),
            char_of (128 + c mod 64)])"

definition utf8 :: "int list \<Rightarrow> string" where
  "utf8 cs = concat (map utf8_char cs)"

section \<open>strings.TrimSpace\<close>

text \<open>The code points of \<open>unicode.IsSpace\<close>.\<close>

definition unicode_spaces :: "int list" where
  "unicode_spaces = [0x9, 0xA, 0xB, 0xC, 0xD, 0x20, 0x85, 0xA0, 0x1680, 0x2000, 0x2001, 0x2002, 0x2003, 0x2004,
     0x2005, 0x2006, 0x2007, 0x2008, 0x2009, 0x200A, 0x2028, 0x2029, 0x202F, 0x205F, 0x3000]"

definition leading :: "string list \<Rightarrow> string \<Rightarrow> string option" where
  "leading ws s = List.find (\<lambda>w. w \<noteq> [] \<and> take (length w) s = w) ws"

lemma leading_shorter:
  assumes "leading ws s \<noteq> None"
  shows "length (drop (length (the (leading ws s))) s) < length s"
proof -
  obtain w where w: "leading ws s = Some w" using assms by blast
  then have "w \<noteq> []" "take (length w) s = w" by (auto simp: leading_def dest: find_Some_P)
  then have "0 < length w" "s \<noteq> []" by auto
  then show ?thesis using w by simp
qed

function trim_front :: "string list \<Rightarrow> string \<Rightarrow> string" where
  "trim_front ws s = (if leading ws s = None then s else trim_front ws (drop (length (the (leading ws s))) s))"
  by pat_completeness auto
termination
  by (relation "measure (length \<circ> snd)") (use leading_shorter in auto)

declare trim_front.simps [simp del]

definition space_texts :: "string list" where
  "space_texts = map utf8_char unicode_spaces"

definition TrimSpace :: "string \<Rightarrow> string" where
  "TrimSpace s = rev (trim_front (map rev space_texts) (rev (trim_front space_texts s)))"

section \<open>fmt: padded numbers\<close>

definition pad0 :: "nat \<Rightarrow> nat \<Rightarrow> string" where
  "pad0 w n = (let ds = nat_string n in replicate (w - length ds) (CHR ''0'') @ ds)"

lemma parse_digits_zeros: "parse_digits 0 (replicate k (CHR ''0'') @ ds) = parse_digits 0 ds"
  by (induction k) (simp_all add: char_digit_def)

lemma parse_pad0: "parse_digits 0 (pad0 w n) = Some n"
  by (simp add: pad0_def Let_def parse_digits_zeros parse_nat_string)

lemma pad0_inj: "pad0 w m = pad0 w n \<Longrightarrow> m = n"
  using parse_pad0 by (metis option.inject)

lemma pad0_no_dash [simp]: "CHR ''-'' \<notin> set (pad0 w n)"
  by (simp add: pad0_def Let_def)

lemma split_at_first: "xs @ x # us = ys @ x # vs \<Longrightarrow> x \<notin> set xs \<Longrightarrow> x \<notin> set ys \<Longrightarrow> xs = ys \<and> us = vs"
  by (induction xs arbitrary: ys) (auto simp: Cons_eq_append_conv append_eq_Cons_conv)

lemma last_dash_split:
  assumes "a @ ''-'' @ b = c @ ''-'' @ d" "CHR ''-'' \<notin> set b" "CHR ''-'' \<notin> set d"
  shows "a = c \<and> b = d"
proof -
  have "rev b @ CHR ''-'' # rev a = rev d @ CHR ''-'' # rev c"
    using arg_cong [OF assms(1), of rev] by simp
  moreover have "CHR ''-'' \<notin> set (rev b)" "CHR ''-'' \<notin> set (rev d)" using assms(2,3) by simp_all
  ultimately have "rev b = rev d \<and> rev a = rev c" by (rule split_at_first)
  then show ?thesis by simp
qed

section \<open>time: the shop's wall clock\<close>

text \<open>
  The proleptic Gregorian date of a day number (day 0 is 1 January of the year 1), counted in
  years that begin in March.
\<close>

definition civil_date :: "int \<Rightarrow> int \<times> int \<times> int" where
  "civil_date day =
     (let z = day + 306; era = z div 146097; doe = z mod 146097;
          yoe = (doe - doe div 1460 + doe div 36524 - doe div 146096) div 365;
          doy = doe - (365 * yoe + yoe div 4 - yoe div 100);
          mp = (5 * doy + 2) div 153;
          d = doy - (153 * mp + 2) div 5 + 1;
          m = (if mp < 10 then mp + 3 else mp - 9);
          y = yoe + era * 400 + (if m \<le> 2 then 1 else 0)
      in (y, m, d))"

abbreviation seconds :: "int \<Rightarrow> int" where "seconds k \<equiv> k * 1000000000"

text \<open>\<open>t.In(time.FixedZone("CST", 8*3600))\<close>, in seconds, and its two formats.\<close>

definition cst_seconds :: "gotime \<Rightarrow> int" where
  "cst_seconds t = t div seconds 1 + 8 * 3600"

definition cst_date :: "string \<Rightarrow> gotime \<Rightarrow> string" where
  "cst_date sep t = (let (y, m, d) = civil_date (cst_seconds t div 86400)
     in pad0 4 (nat y) @ sep @ pad0 2 (nat m) @ sep @ pad0 2 (nat d))"

definition cst_minute :: "gotime \<Rightarrow> string" where
  "cst_minute t = (let sec = cst_seconds t mod 86400
     in cst_date ''-'' t @ '' '' @ pad0 2 (nat (sec div 3600)) @ '':'' @ pad0 2 (nat (sec div 60 mod 60)))"

lemma civil_date_examples:
  "civil_date 0 = (1, 1, 1)" "civil_date 739727 = (2026, 4, 22)" "civil_date 738944 = (2024, 2, 29)"
  by code_simp+

end
