(* ===== verification/Bill_Repo.thy ===== *)
theory Bill_Repo
  imports Bill_Domain Go_Text Stock_Repo
begin

text \<open>
  \<open>internal/adapter/repo/bill/repo.go\<close> (bill heads and lines, numbers, lookups of the referenced
  rows), \<open>GetConversionFactor\<close> of \<open>internal/adapter/repo/unit\<close> and
  \<open>internal/adapter/repo/payment\<close>.

  Writes round to the scale of the column (amounts 4 places, prices 6, the exchange rate 8).  Of
  the schema's constraints these are modelled: a bill number is unique among the live bills of a
  tenant, a client reference among all bills of a tenant, and \<open>paid_amount <= total_amount\<close>.
  Foreign keys, column lengths and overflow of a column are not.  The advisory lock of a bill has
  no counterpart: a transaction is one step on the state.
\<close>

section \<open>Bill numbers\<close>

definition BillNoDay :: "gotime \<Rightarrow> string" where
  "BillNoDay t = cst_date [] t"

definition seq_at :: "uuid \<Rightarrow> string \<Rightarrow> BillSequence \<Rightarrow> bool" where
  "seq_at t prefix r \<longleftrightarrow> seq_tenant_id r = t \<and> seq_prefix r = prefix"

definition seq_val :: "uuid \<Rightarrow> string \<Rightarrow> db \<Rightarrow> nat" where
  "seq_val t prefix s = (case List.find (seq_at t prefix) (bill_sequence s) of None \<Rightarrow> 0 | Some r \<Rightarrow> seq_current_val r)"

definition bill_number :: "string \<Rightarrow> nat \<Rightarrow> string" where
  "bill_number seqPrefix n = seqPrefix @ ''-'' @ pad0 4 n"

definition bump_sequence :: "uuid \<Rightarrow> string \<Rightarrow> uuid \<Rightarrow> BillSequence list \<Rightarrow> BillSequence list" where
  "bump_sequence t seqPrefix i = upsert (seq_at t seqPrefix) (\<lambda>r. r\<lparr>seq_current_val := seq_current_val r + 1\<rparr>)
     \<lparr> seq_id = i, seq_tenant_id = t, seq_prefix = seqPrefix, seq_current_val = 1 \<rparr>"

definition NextBillNo :: "env \<Rightarrow> uuid \<Rightarrow> string \<Rightarrow> string op" where
  "NextBillNo E t prefix =
     (let seqPrefix = prefix @ ''-'' @ BillNoDay (now E) in
      bindE (uuid_New E) (\<lambda>i.
      thenE (modifyE (\<lambda>s. s\<lparr>bill_sequence := bump_sequence t seqPrefix i (bill_sequence s)\<rparr>))
      (bindE (readE (seq_val t seqPrefix)) (\<lambda>n.
       returnE (bill_number seqPrefix n)))))"

section \<open>Heads and lines\<close>

definition head_at :: "uuid \<Rightarrow> uuid \<Rightarrow> BillHead \<Rightarrow> bool" where
  "head_at t b h \<longleftrightarrow> h_ID h = b \<and> h_TenantID h = t \<and> \<not> h_deleted h"

definition item_of :: "uuid \<Rightarrow> uuid \<Rightarrow> BillItem \<Rightarrow> bool" where
  "item_of t b it \<longleftrightarrow> it_HeadID it = b \<and> it_TenantID it = t"

definition stored_item :: "env \<Rightarrow> BillItem \<Rightarrow> BillItem" where
  "stored_item E it = it\<lparr>it_Qty := numeric E 4 (it_Qty it), it_UnitPrice := numeric E 6 (it_UnitPrice it),
     it_LineAmount := numeric E 4 (it_LineAmount it), it_purchase_price := 0, it_link_item_id := None,
     it_deleted := False\<rparr>"

definition insertItems :: "env \<Rightarrow> BillItem list \<Rightarrow> unit op" where
  "insertItems E items = modifyE (\<lambda>s. s\<lparr>bill_item := bill_item s @ map (stored_item E) items\<rparr>)"

text \<open>The row \<open>CreateBill\<close> inserts: defaults for currency, rate, local amount and source.\<close>

definition created_head :: "env \<Rightarrow> BillHead \<Rightarrow> BillHead" where
  "created_head E h =
     (let cur = (if h_Currency h = [] then ''CNY'' else h_Currency h);
          rate = (if h_ExchangeRateVal h = 0 \<or> h_ExchangeRateVal h < 0 then 1 else h_ExchangeRateVal h);
          amountLocal = (if h_AmountLocal h = 0 then h_TotalAmount h else h_AmountLocal h)
      in h\<lparr>h_Subtotal := numeric E 4 (h_Subtotal h), h_ShippingFee := numeric E 4 (h_ShippingFee h),
           h_TaxAmount := numeric E 4 (h_TaxAmount h), h_TotalAmount := numeric E 4 (h_TotalAmount h),
           h_PaidAmount := 0, h_Currency := cur, h_ExchangeRateVal := numeric E 8 rate,
           h_AmountLocal := numeric E 4 amountLocal, h_ApprovedAt := None, h_ApprovedBy := None, h_Revision := 0, h_OperatorID := None,
           h_Source := (if h_Source h = [] then ''web'' else h_Source h), h_link_bill_id := None, h_deleted := False\<rparr>)"

definition same_bill_no :: "BillHead \<Rightarrow> BillHead \<Rightarrow> bool" where
  "same_bill_no h x \<longleftrightarrow> h_TenantID x = h_TenantID h \<and> h_BillNo x = h_BillNo h \<and> \<not> h_deleted x"

definition same_client_ref :: "BillHead \<Rightarrow> BillHead \<Rightarrow> bool" where
  "same_client_ref h x \<longleftrightarrow> h_ClientRef h \<noteq> [] \<and> h_TenantID x = h_TenantID h \<and> h_ClientRef x = h_ClientRef h"

definition CreateBill :: "env \<Rightarrow> BillHead \<Rightarrow> BillItem list \<Rightarrow> unit op" where
  "CreateBill E h items =
     bindE (readE bill_head) (\<lambda>heads.
     let row = created_head E h in
     if \<not> h_PaidAmount row \<le> h_TotalAmount row
     then failE (Wrap ''bill repo: create head'' (ErrCheckViolation ''bill_head_paid_le_total''))
     else if list_ex (same_bill_no h) heads
     then failE (Wrap ''bill repo: create head'' (ErrUniqueViolation ''idx_bill_head_no''))
     else if list_ex (same_client_ref h) heads
     then failE (Wrap ''bill repo: create head'' ErrDuplicateClientRef)
     else thenE (modifyE (\<lambda>s. s\<lparr>bill_head := bill_head s @ [row]\<rparr>)) (insertItems E items))"

text \<open>\<open>scanBillHead\<close>: the columns a head is read with; the client reference and source are not among them.\<close>

definition scanBillHead :: "BillHead \<Rightarrow> BillHead" where
  "scanBillHead h = h\<lparr>h_ClientRef := [], h_Source := []\<rparr>"

definition find_head :: "uuid \<Rightarrow> uuid \<Rightarrow> db \<Rightarrow> BillHead option" where
  "find_head t b s = List.find (head_at t b) (bill_head s)"

definition GetBill :: "uuid \<Rightarrow> uuid \<Rightarrow> db \<Rightarrow> err + BillHead" where
  "GetBill t b s = (case find_head t b s of None \<Rightarrow> Inl ErrBillNotFound | Some h \<Rightarrow> Inr (scanBillHead h))"

definition GetBillForUpdate :: "uuid \<Rightarrow> uuid \<Rightarrow> BillHead op" where
  "GetBillForUpdate t b = queryE (GetBill t b)"

definition GetBillItems :: "uuid \<Rightarrow> uuid \<Rightarrow> db \<Rightarrow> BillItem list" where
  "GetBillItems t b s = sort_key it_LineNo (filter (item_of t b) (bill_item s))"

section \<open>Referenced rows\<close>

definition ProductExists :: "uuid \<Rightarrow> uuid \<Rightarrow> db \<Rightarrow> bool" where
  "ProductExists t p s = list_ex (\<lambda>r. pr_id r = p \<and> pr_tenant_id r = t \<and> \<not> pr_deleted r) (product s)"

definition WarehouseExists :: "uuid \<Rightarrow> uuid \<Rightarrow> db \<Rightarrow> bool" where
  "WarehouseExists t w s = list_ex (\<lambda>r. wh_id r = w \<and> wh_tenant_id r = t \<and> \<not> wh_deleted r) (warehouse s)"

definition PartnerExists :: "uuid \<Rightarrow> uuid \<Rightarrow> db \<Rightarrow> bool" where
  "PartnerExists t p s = list_ex (\<lambda>r. pa_id r = p \<and> pa_tenant_id r = t \<and> \<not> pa_deleted r) (partner s)"

definition DefaultWarehouseID :: "uuid \<Rightarrow> db \<Rightarrow> uuid option" where
  "DefaultWarehouseID t s =
     (let is_def = (\<lambda>r. case wh_is_default r of None \<Rightarrow> False | Some b \<Rightarrow> b);
          active = filter (\<lambda>r. wh_tenant_id r = t \<and> \<not> wh_deleted r
                     \<and> (case wh_enabled r of None \<Rightarrow> True | Some b \<Rightarrow> b)) (warehouse s);
          rows = take 2 (sort_key (\<lambda>r. if is_def r then 0 else 1 :: int) (sort_key wh_created_at active))
      in case rows of
           [] \<Rightarrow> None
         | r # others \<Rightarrow> if \<not> is_def r \<and> others \<noteq> [] then None else Some (wh_id r))"

definition SetBillWarehouse :: "env \<Rightarrow> uuid \<Rightarrow> uuid \<Rightarrow> uuid \<Rightarrow> unit op" where
  "SetBillWarehouse E t b w =
     bindE (readE (\<lambda>s. list_ex (head_at t b) (bill_head s))) (\<lambda>found.
     if \<not> found then failE ErrBillNotFound
     else modifyE (\<lambda>s. s\<lparr>bill_head := update_where (head_at t b)
            (\<lambda>h. h\<lparr>h_WarehouseID := Some w, h_UpdatedAt := now E\<rparr>) (bill_head s)\<rparr>))"

section \<open>Updates\<close>

text \<open>The metadata map of \<open>UpdateBillStatus\<close>: approval time and person, revision.\<close>

definition UpdateBillStatus :: "env \<Rightarrow> uuid \<Rightarrow> uuid \<Rightarrow> BillStatus \<Rightarrow> (gotime \<times> uuid) option \<Rightarrow> int option \<Rightarrow> unit op" where
  "UpdateBillStatus E t b st approved revision = modifyE (\<lambda>s. s\<lparr>bill_head := update_where (head_at t b)
     (\<lambda>h. h\<lparr>h_Status := st, h_UpdatedAt := now E,
            h_ApprovedAt := (case approved of None \<Rightarrow> h_ApprovedAt h | Some (a, _) \<Rightarrow> Some a),
            h_ApprovedBy := (case approved of None \<Rightarrow> h_ApprovedBy h | Some (_, u) \<Rightarrow> Some u),
            h_Revision := (case revision of None \<Rightarrow> h_Revision h | Some r \<Rightarrow> r)\<rparr>) (bill_head s)\<rparr>)"

definition updated_head :: "env \<Rightarrow> BillHead \<Rightarrow> BillHead \<Rightarrow> BillHead" where
  "updated_head E h x = x\<lparr>h_PartnerID := h_PartnerID h, h_WarehouseID := h_WarehouseID h, h_BillDate := h_BillDate h,
     h_Subtotal := numeric E 4 (h_Subtotal h), h_ShippingFee := numeric E 4 (h_ShippingFee h),
     h_TaxAmount := numeric E 4 (h_TaxAmount h), h_TotalAmount := numeric E 4 (h_TotalAmount h),
     h_Remark := h_Remark h, h_UpdatedAt := h_UpdatedAt h,
     h_AmountLocal := numeric E 4 (if h_AmountLocal h = 0 then h_TotalAmount h else h_AmountLocal h)\<rparr>"

text \<open>A row that an update would leave with more paid than its total is refused by the schema.\<close>

definition paid_checked :: "string \<Rightarrow> (BillHead \<Rightarrow> bool) \<Rightarrow> (BillHead \<Rightarrow> BillHead) \<Rightarrow> unit op" where
  "paid_checked who p f =
     bindE (readE (\<lambda>s. update_where p f (bill_head s))) (\<lambda>rows.
     if list_ex (\<lambda>h. p h \<and> \<not> h_PaidAmount h \<le> h_TotalAmount h) rows
     then failE (Wrap who (ErrCheckViolation ''bill_head_paid_le_total''))
     else modifyE (\<lambda>s. s\<lparr>bill_head := rows\<rparr>))"

definition UpdateBill :: "env \<Rightarrow> BillHead \<Rightarrow> BillItem list \<Rightarrow> unit op" where
  "UpdateBill E h items =
     thenE (paid_checked ''bill repo: update head'' (head_at (h_TenantID h) (h_ID h)) (updated_head E h))
     (thenE (modifyE (\<lambda>s. s\<lparr>bill_item := filter (\<lambda>it. \<not> item_of (h_TenantID h) (h_ID h) it) (bill_item s)\<rparr>))
      (insertItems E items))"

definition UpdatePaidAmount :: "env \<Rightarrow> uuid \<Rightarrow> uuid \<Rightarrow> rat \<Rightarrow> unit op" where
  "UpdatePaidAmount E t b paid =
     paid_checked ''bill repo: update paid_amount'' (head_at t b)
       (\<lambda>h. h\<lparr>h_PaidAmount := numeric E 4 paid, h_UpdatedAt := now E\<rparr>)"

definition UpdateItemPurchasePrice :: "env \<Rightarrow> uuid \<Rightarrow> uuid \<Rightarrow> rat \<Rightarrow> unit op" where
  "UpdateItemPurchasePrice E t i price = modifyE (\<lambda>s. s\<lparr>bill_item :=
     update_where (\<lambda>it. it_ID it = i \<and> it_TenantID it = t \<and> \<not> it_deleted it)
       (\<lambda>it. it\<lparr>it_purchase_price := numeric E 6 price\<rparr>) (bill_item s)\<rparr>)"

section \<open>Point of sale\<close>

definition FindBillByClientRef :: "uuid \<Rightarrow> string \<Rightarrow> db \<Rightarrow> (uuid \<times> string) option" where
  "FindBillByClientRef t ref s =
     map_option (\<lambda>h. (h_ID h, h_BillNo h))
       (List.find (\<lambda>h. h_TenantID h = t \<and> ref \<noteq> [] \<and> h_ClientRef h = ref) (bill_head s))"

text \<open>The to-do note on an oversold product, with its text as the statement writes it.\<close>

definition negative_stock_reason :: "string \<Rightarrow> string \<Rightarrow> string" where
  "negative_stock_reason name qty =
     utf8 [0x79BB, 0x7EBF, 0x9500, 0x552E, 0x5BFC, 0x81F4, 0x8D1F, 0x5E93, 0x5B58, 0xFF0C, 0x8BF7, 0x76D8, 0x70B9, 0xFF1A]
     @ name @ utf8 [0xFF08, 0x5F53, 0x524D, 0x20] @ qty @ utf8 [0xFF09]"

definition RecordNegativeStock :: "env \<Rightarrow> uuid \<Rightarrow> uuid \<Rightarrow> uuid \<Rightarrow> uuid \<Rightarrow> rat \<Rightarrow> unit op" where
  "RecordNegativeStock E t b user p onHandAfter = modifyE (\<lambda>s. s\<lparr>audit_log := audit_log s @
     map (\<lambda>r. \<lparr> au_tenant_id = t, au_user_id = (if user = uuid_Nil then None else Some user),
                au_action = ''stock.negative'', au_resource = ''sale_bill'', au_resource_id = b, au_product_id = pr_id r,
                au_reason = negative_stock_reason (pr_name r) (dec_string E onHandAfter) \<rparr>)
       (filter (\<lambda>r. pr_id r = p \<and> pr_tenant_id r = t) (product s))\<rparr>)"

section \<open>Units and payments\<close>

definition GetConversionFactor :: "uuid \<Rightarrow> uuid \<Rightarrow> db \<Rightarrow> err + rat" where
  "GetConversionFactor p u s =
     (case List.find (\<lambda>r. pu_product_id r = p \<and> pu_unit_id r = u) (product_unit s) of
        Some r \<Rightarrow> Inr (pu_conversion_factor r)
      | None \<Rightarrow>
          if list_ex (\<lambda>r. pr_id r = p \<and> (pr_default_unit_id r = Some u \<or> pr_unit_id r = Some u)) (product s)
          then Inr 1 else Inl ErrInvalidUnitForProduct)"

definition payment_of :: "uuid \<Rightarrow> uuid \<Rightarrow> Payment \<Rightarrow> bool" where
  "payment_of t b p \<longleftrightarrow> p_TenantID p = t \<and> p_BillID p = b \<and> \<not> p_deleted p"

definition stored_payment :: "env \<Rightarrow> uuid \<Rightarrow> Payment \<Rightarrow> Payment" where
  "stored_payment E i p = p\<lparr>p_ID := i, p_PayDate := (if p_PayDate p = 0 then now E else p_PayDate p),
     p_CreatedAt := (if p_CreatedAt p = 0 then now E else p_CreatedAt p),
     p_Amount := numeric E 4 (p_Amount p), p_TotalAmount := numeric E 4 (p_Amount p), p_deleted := False\<rparr>"

definition Payment_Record :: "env \<Rightarrow> Payment \<Rightarrow> unit op" where
  "Payment_Record E p =
     bindE (if p_ID p = uuid_Nil then uuid_New E else returnE (p_ID p)) (\<lambda>i.
     modifyE (\<lambda>s. s\<lparr>payment_head := payment_head s @ [stored_payment E i p]\<rparr>))"

lemma Payment_Record_Inr:
  "p_ID p \<noteq> uuid_Nil \<Longrightarrow> Payment_Record E p s = Inr (u, s') \<longleftrightarrow>
     s' = s\<lparr>payment_head := payment_head s @ [stored_payment E (p_ID p) p]\<rparr>"
  by (auto simp: Payment_Record_def bindE_def returnE_def)

lemma stored_payment_simps [simp]:
  "p_TenantID (stored_payment E i p) = p_TenantID p" "p_BillID (stored_payment E i p) = p_BillID p"
  "p_PayType (stored_payment E i p) = p_PayType p" "p_Amount (stored_payment E i p) = numeric E 4 (p_Amount p)"
  "p_deleted (stored_payment E i p) = False" "p_PartnerID (stored_payment E i p) = p_PartnerID p"
  by (simp_all add: stored_payment_def)

definition LatestPayType :: "uuid \<Rightarrow> uuid \<Rightarrow> db \<Rightarrow> PayType option" where
  "LatestPayType t b s =
     (case sort_key (\<lambda>p. - p_PayDate p) (sort_key (\<lambda>p. - p_CreatedAt p) (filter (payment_of t b) (payment_head s))) of
        [] \<Rightarrow> None | p # _ \<Rightarrow> Some (p_PayType p))"

definition ListByBill :: "uuid \<Rightarrow> uuid \<Rightarrow> db \<Rightarrow> Payment list" where
  "ListByBill t b s = sort_key p_PayDate (filter (payment_of t b) (payment_head s))"

definition SumByBill :: "uuid \<Rightarrow> uuid \<Rightarrow> db \<Rightarrow> rat" where
  "SumByBill t b s = sum_list (map p_Amount (filter (payment_of t b) (payment_head s)))"

section \<open>Numbering\<close>

lemma bill_number_inj: "bill_number p m = bill_number q n \<longleftrightarrow> p = q \<and> m = n"
  using last_dash_split [of p "pad0 4 m" q "pad0 4 n"] pad0_inj [of 4 m n]
  by (auto simp: bill_number_def)

lemma seq_val_bump:
  "seq_val t p (s\<lparr>bill_sequence := bump_sequence t' p' i (bill_sequence s)\<rparr>)
   = (if t = t' \<and> p = p' then seq_val t p s + 1 else seq_val t p s)"
proof (cases "t = t' \<and> p = p'")
  case True
  have "List.find (seq_at t p) (bump_sequence t p i (bill_sequence s))
    = Some (case List.find (seq_at t p) (bill_sequence s) of
        None \<Rightarrow> \<lparr> seq_id = i, seq_tenant_id = t, seq_prefix = p, seq_current_val = 1 \<rparr>
      | Some r \<Rightarrow> r\<lparr>seq_current_val := seq_current_val r + 1\<rparr>)"
    unfolding bump_sequence_def by (rule find_upsert_same) (simp_all add: seq_at_def)
  then show ?thesis using True by (simp add: seq_val_def split: option.split)
next
  case False
  have "List.find (seq_at t p) (bump_sequence t' p' i (bill_sequence s)) = List.find (seq_at t p) (bill_sequence s)"
    unfolding bump_sequence_def by (rule find_upsert_other) (use False in \<open>auto simp: seq_at_def\<close>)
  then show ?thesis using False by (auto simp: seq_val_def)
qed

lemma NextBillNo_Inr:
  assumes "NextBillNo E t prefix s = Inr (no, s')"
  defines "p \<equiv> prefix @ ''-'' @ BillNoDay (now E)"
  shows "no = bill_number p (seq_val t p s + 1)"
    "seq_val t' q s' = (if t' = t \<and> q = p then seq_val t p s + 1 else seq_val t' q s)"
    "\<exists>rows. s' = s\<lparr>draws := Suc (draws s), bill_sequence := rows\<rparr>"
proof -
  let ?s0 = "s\<lparr>draws := Suc (draws s)\<rparr>"
  let ?s1 = "?s0\<lparr>bill_sequence := bump_sequence t p (new_uuid E (draws s)) (bill_sequence ?s0)\<rparr>"
  have v: "seq_val t1 q1 ?s0 = seq_val t1 q1 s" for t1 q1 by (simp add: seq_val_def)
  have s': "s' = ?s1" and no: "no = bill_number p (seq_val t p ?s1)"
    using assms(1) unfolding p_def by (simp_all add: NextBillNo_def Let_def bindE_Inr thenE_Inr)
  show "no = bill_number p (seq_val t p s + 1)" unfolding no seq_val_bump v by simp
  show "seq_val t' q s' = (if t' = t \<and> q = p then seq_val t p s + 1 else seq_val t' q s)"
    unfolding s' seq_val_bump v by auto
  show "\<exists>rows. s' = s\<lparr>draws := Suc (draws s), bill_sequence := rows\<rparr>" unfolding s' by (auto intro!: exI)
qed

lemma NextBillNo_ok: "\<exists>no s'. NextBillNo E t prefix s = Inr (no, s')"
  by (simp add: NextBillNo_def Let_def bindE_Inr thenE_Inr)

text \<open>Every number in the table has been handed out by its sequence.\<close>

definition numbered :: "db \<Rightarrow> bool" where
  "numbered s \<longleftrightarrow> (\<forall>h \<in> set (bill_head s). \<exists>p n. h_BillNo h = bill_number p n \<and> n \<le> seq_val (h_TenantID h) p s)"

lemma NextBillNo_numbered:
  assumes "numbered s" "NextBillNo E t prefix s = Inr (no, s')"
  shows "numbered s'" "\<And>h. h \<in> set (bill_head s) \<Longrightarrow> h_TenantID h = t \<Longrightarrow> h_BillNo h \<noteq> no"
    "\<exists>p. no = bill_number p (seq_val t p s')" "bill_head s' = bill_head s"
proof -
  note n = NextBillNo_Inr [OF assms(2)]
  show b: "bill_head s' = bill_head s" using n(3) by auto
  have mono: "seq_val t' q s \<le> seq_val t' q s'" for t' q by (simp add: n(2))
  show "numbered s'"
    using assms(1) mono unfolding numbered_def b by (meson order_trans)
  show "\<exists>p. no = bill_number p (seq_val t p s')" using n(1,2) by auto
  show "h_BillNo h \<noteq> no" if "h \<in> set (bill_head s)" "h_TenantID h = t" for h
    using assms(1) that unfolding numbered_def n(1) by (force simp: bill_number_inj)
qed

section \<open>Reading back what was written\<close>

lemma find_head_key: "find_head t b s = Some h \<Longrightarrow> h_ID h = b \<and> h_TenantID h = t \<and> \<not> h_deleted h \<and> h \<in> set (bill_head s)"
  by (auto simp: find_head_def head_at_def dest: find_Some_P)

lemma GetBill_Inr: "GetBill t b s = Inr h \<longleftrightarrow> (\<exists>x. find_head t b s = Some x \<and> h = scanBillHead x)"
  by (auto simp: GetBill_def split: option.splits)

lemma GetBillForUpdate_Inr [opE_simps]:
  "GetBillForUpdate t b s = Inr (h, s') \<longleftrightarrow> s' = s \<and> (\<exists>x. find_head t b s = Some x \<and> h = scanBillHead x)"
  by (auto simp: GetBillForUpdate_def queryE_Inr GetBill_Inr)

lemma GetBillForUpdate_Inl [opE_simps]:
  "GetBillForUpdate t b s = Inl e \<longleftrightarrow> find_head t b s = None \<and> e = ErrBillNotFound"
  by (auto simp: GetBillForUpdate_def queryE_Inl GetBill_def split: option.splits)

lemma scanBillHead_simps [simp]:
  "h_ID (scanBillHead h) = h_ID h" "h_TenantID (scanBillHead h) = h_TenantID h" "h_BillNo (scanBillHead h) = h_BillNo h"
  "h_BillType (scanBillHead h) = h_BillType h" "h_SubType (scanBillHead h) = h_SubType h" "h_Status (scanBillHead h) = h_Status h"
  "h_PartnerID (scanBillHead h) = h_PartnerID h" "h_WarehouseID (scanBillHead h) = h_WarehouseID h"
  "h_CreatorID (scanBillHead h) = h_CreatorID h" "h_BillDate (scanBillHead h) = h_BillDate h"
  "h_Subtotal (scanBillHead h) = h_Subtotal h" "h_ShippingFee (scanBillHead h) = h_ShippingFee h"
  "h_TaxAmount (scanBillHead h) = h_TaxAmount h" "h_TotalAmount (scanBillHead h) = h_TotalAmount h"
  "h_PaidAmount (scanBillHead h) = h_PaidAmount h" "h_Currency (scanBillHead h) = h_Currency h"
  "h_ExchangeRateVal (scanBillHead h) = h_ExchangeRateVal h" "h_AmountLocal (scanBillHead h) = h_AmountLocal h"
  "h_Revision (scanBillHead h) = h_Revision h" "h_Remark (scanBillHead h) = h_Remark h"
  by (simp_all add: scanBillHead_def)

text \<open>An update of one head that keeps its key.\<close>

lemma find_head_update:
  assumes "\<And>h. h_ID (f h) = h_ID h \<and> h_TenantID (f h) = h_TenantID h \<and> h_deleted (f h) = h_deleted h"
  shows "find_head t' b' (s\<lparr>bill_head := update_where (head_at t b) f (bill_head s)\<rparr>) =
           (if (t', b') = (t, b) then map_option f (find_head t b s) else find_head t' b' s)"
proof (cases "(t', b') = (t, b)")
  case True
  have "List.find (head_at t b) (update_where (head_at t b) f (bill_head s))
      = map_option (\<lambda>r. if head_at t b r then f r else r) (List.find (head_at t b) (bill_head s))"
    by (rule find_update_where_same) (simp add: head_at_def assms)
  also have "\<dots> = map_option f (List.find (head_at t b) (bill_head s))"
    by (cases "List.find (head_at t b) (bill_head s)") (auto dest: find_Some_P)
  finally show ?thesis using True by (simp add: find_head_def)
next
  case False
  then show ?thesis unfolding find_head_def
    by (auto intro!: find_update_where_other simp: head_at_def assms)
qed

lemma find_head_cong [simp]:
  "find_head t b (s\<lparr>bill_item := x1\<rparr>) = find_head t b s" "find_head t b (s\<lparr>bill_sequence := x2\<rparr>) = find_head t b s"
  "find_head t b (s\<lparr>draws := n\<rparr>) = find_head t b s" "find_head t b (s\<lparr>payment_head := x3\<rparr>) = find_head t b s"
  "find_head t b (s\<lparr>audit_log := x4\<rparr>) = find_head t b s"
  by (simp_all add: find_head_def)

lemma find_head_eq: "bill_head s' = bill_head s \<Longrightarrow> find_head t b s' = find_head t b s"
  by (simp add: find_head_def)

lemma GetBillItems_eq: "bill_item s' = bill_item s \<Longrightarrow> GetBillItems t b s' = GetBillItems t b s"
  by (simp add: GetBillItems_def)

lemma paid_checked_Inr:
  "paid_checked who p f s = Inr (u, s') \<longleftrightarrow>
     list_all (\<lambda>h. p h \<longrightarrow> h_PaidAmount h \<le> h_TotalAmount h) (update_where p f (bill_head s))
     \<and> s' = s\<lparr>bill_head := update_where p f (bill_head s)\<rparr>"
  by (auto simp: paid_checked_def list_ex_iff list_all_iff)

lemma CreateBill_Inr:
  "CreateBill E h items s = Inr (u, s') \<longleftrightarrow>
     0 \<le> h_TotalAmount (created_head E h) \<and> \<not> list_ex (same_bill_no h) (bill_head s) \<and> \<not> list_ex (same_client_ref h) (bill_head s)
     \<and> s' = s\<lparr>bill_head := bill_head s @ [created_head E h], bill_item := bill_item s @ map (stored_item E) items\<rparr>"
  by (auto simp: CreateBill_def Let_def thenE_Inr insertItems_def created_head_def)

lemma created_head_key [simp]:
  "h_ID (created_head E h) = h_ID h" "h_TenantID (created_head E h) = h_TenantID h" "h_BillNo (created_head E h) = h_BillNo h"
  "h_deleted (created_head E h) = False" "h_Status (created_head E h) = h_Status h" "h_Revision (created_head E h) = 0"
  "h_ClientRef (created_head E h) = h_ClientRef h" "h_PaidAmount (created_head E h) = 0"
  "h_TotalAmount (created_head E h) = numeric E 4 (h_TotalAmount h)" "h_WarehouseID (created_head E h) = h_WarehouseID h"
  "h_PartnerID (created_head E h) = h_PartnerID h" "h_BillType (created_head E h) = h_BillType h"
  "h_SubType (created_head E h) = h_SubType h" "h_CreatorID (created_head E h) = h_CreatorID h"
  by (simp_all add: created_head_def Let_def)

lemma CreateBill_numbered:
  assumes "numbered s" "\<exists>p. h_BillNo h = bill_number p (seq_val (h_TenantID h) p s)" "CreateBill E h items s = Inr (u, s')"
  shows "numbered s'"
  using assms by (auto simp: numbered_def CreateBill_Inr seq_val_def)

text \<open>A new bill under a fresh id is found under it, and no other bill is hidden.\<close>

lemma find_head_create:
  assumes "CreateBill E h items s = Inr (u, s')" "find_head (h_TenantID h) (h_ID h) s = None"
  shows "find_head t b s' = (if (t, b) = (h_TenantID h, h_ID h) then Some (created_head E h) else find_head t b s)"
  using assms by (auto simp: CreateBill_Inr find_head_def find_append head_at_def split: option.split)

section \<open>The bill tables\<close>

text \<open>
  The invariant of the bill tables: numbers come from the sequences, ids from the generator and
  are distinct, every line belongs to a bill, and no bill is paid beyond its total.
\<close>

definition drawn :: "env \<Rightarrow> db \<Rightarrow> uuid \<Rightarrow> bool" where
  "drawn E s u \<longleftrightarrow> (\<exists>k < draws s. u = new_uuid E k)"

definition bills_ok :: "env \<Rightarrow> db \<Rightarrow> bool" where
  "bills_ok E s \<longleftrightarrow> numbered s \<and> distinct (map h_ID (bill_head s)) \<and> distinct (map it_ID (bill_item s))
     \<and> (\<forall>h \<in> set (bill_head s). drawn E s (h_ID h) \<and> 0 \<le> h_PaidAmount h \<and> h_PaidAmount h \<le> h_TotalAmount h)
     \<and> (\<forall>it \<in> set (bill_item s). drawn E s (it_ID it) \<and> it_HeadID it \<in> h_ID ` set (bill_head s))"

lemma bills_okD:
  assumes "bills_ok E s"
  shows "numbered s" "distinct (map h_ID (bill_head s))" "distinct (map it_ID (bill_item s))"
    "\<And>h. h \<in> set (bill_head s) \<Longrightarrow> drawn E s (h_ID h) \<and> 0 \<le> h_PaidAmount h \<and> h_PaidAmount h \<le> h_TotalAmount h"
    "\<And>it. it \<in> set (bill_item s) \<Longrightarrow> drawn E s (it_ID it) \<and> it_HeadID it \<in> h_ID ` set (bill_head s)"
  using assms unfolding bills_ok_def by blast+

lemma drawn_fresh: "runtime_env E \<Longrightarrow> drawn E s u \<Longrightarrow> draws s \<le> n \<Longrightarrow> u \<noteq> new_uuid E n"
  unfolding drawn_def using runtime_env.new_uuid_inj [of E] by (metis leD)

lemma drawn_mono: "drawn E s u \<Longrightarrow> draws s \<le> draws s' \<Longrightarrow> drawn E s' u"
  unfolding drawn_def by (elim exE conjE) (rule exI, rule conjI, erule (1) less_le_trans, assumption)

lemma seq_val_cong: "bill_sequence s' = bill_sequence s \<Longrightarrow> seq_val t p s' = seq_val t p s"
  by (simp add: seq_val_def)

lemma bills_ok_frame:
  assumes "bills_ok E s" "bill_head s' = bill_head s" "bill_item s' = bill_item s" "bill_sequence s' = bill_sequence s"
    "draws s \<le> draws s'"
  shows "bills_ok E s'"
  using assms drawn_mono [OF _ assms(5)] by (auto simp: bills_ok_def numbered_def seq_val_cong [OF assms(4)])

lemma empty_bills_ok: "bills_ok E (s\<lparr>bill_head := [], bill_item := []\<rparr>)"
  by (simp add: bills_ok_def numbered_def)

end
