(* ===== verification/Bill_Drafts.thy ===== *)
theory Bill_Drafts
  imports Bill_Repo
begin

text \<open>
  Drafts of purchases and sales (\<open>internal/app/bill\<close>: \<open>refs.go\<close>, \<open>create_purchase.go\<close>,
  \<open>create_sale.go\<close>, \<open>update_purchase.go\<close>, \<open>update_sale.go\<close>, \<open>cancel_purchase.go\<close>,
  \<open>restore_purchase.go\<close>).

  The use cases check references and lines before they open the write transaction; here the
  checks and the transaction read the same state.
\<close>

section \<open>References\<close>

fun validate_products :: "uuid \<Rightarrow> uuid list \<Rightarrow> uuid list \<Rightarrow> db \<Rightarrow> err + unit" where
  "validate_products t seen [] s = Inr ()"
| "validate_products t seen (p # ps) s =
     (if p = uuid_Nil then validate_products t seen ps s
      else if p \<in> set seen then validate_products t seen ps s
      else if ProductExists t p s then validate_products t (p # seen) ps s
      else Inl (Wrap ''product does not exist in this tenant'' ErrValidation))"

definition validateRefs :: "uuid \<Rightarrow> uuid list \<Rightarrow> uuid option \<Rightarrow> db \<Rightarrow> err + unit" where
  "validateRefs t productIDs warehouseID s =
     (case validate_products t [] productIDs s of
        Inl e \<Rightarrow> Inl e
      | Inr _ \<Rightarrow>
          (case warehouseID of
             None \<Rightarrow> Inr ()
           | Some w \<Rightarrow> if w \<noteq> uuid_Nil \<and> \<not> WarehouseExists t w s
                       then Inl (Wrap ''warehouse does not exist in this tenant'' ErrValidation) else Inr ()))"

definition validatePartner :: "uuid \<Rightarrow> uuid option \<Rightarrow> db \<Rightarrow> err + unit" where
  "validatePartner t partnerID s =
     (case partnerID of
        None \<Rightarrow> Inr ()
      | Some p \<Rightarrow> if p = uuid_Nil then Inr ()
                  else if \<not> PartnerExists t p s then Inl (Wrap ''partner does not exist'' ErrValidation) else Inr ())"

section \<open>Lines\<close>

text \<open>A sale line is a purchase line with a warehouse and a conversion factor of its own.\<close>

record CreatePurchaseItemInput =
  ci_ProductID :: uuid
  ci_UnitID :: "uuid option"
  ci_UnitName :: string
  ci_LineNo :: int
  ci_Qty :: rat
  ci_UnitPrice :: rat

record SaleItem = CreatePurchaseItemInput +
  si_WarehouseID :: uuid
  si_ConvFactor :: string

text \<open>The line built from an input at a price, and the checks every line passes on creation.\<close>

definition new_item :: "env \<Rightarrow> uuid \<Rightarrow> uuid \<Rightarrow> 'a CreatePurchaseItemInput_scheme \<Rightarrow> rat \<Rightarrow> BillItem op" where
  "new_item E t b it price = bindE (uuid_New E) (\<lambda>i.
     returnE \<lparr> it_ID = i, it_TenantID = t, it_HeadID = b, it_ProductID = ci_ProductID it, it_UnitID = ci_UnitID it,
       it_UnitName = ci_UnitName it, it_LineNo = ci_LineNo it, it_Qty = ci_Qty it, it_UnitPrice = price,
       it_LineAmount = dround E 2 (ci_Qty it * price), it_Remark = [], it_purchase_price = 0,
       it_link_item_id = None, it_deleted = False \<rparr>)"

definition build_item :: "env \<Rightarrow> uuid \<Rightarrow> uuid \<Rightarrow> 'a CreatePurchaseItemInput_scheme \<Rightarrow> BillItem op" where
  "build_item E t b it =
     (if ci_ProductID it = uuid_Nil then failE (Wrap ''item product_id is required'' ErrValidation)
      else if ci_Qty it = 0 \<or> ci_Qty it < 0 then failE (Wrap ''item qty must be positive'' ErrValidation)
      else if ci_UnitPrice it < 0 then failE (Wrap ''item unit_price must be non-negative'' ErrValidation)
      else new_item E t b it (ci_UnitPrice it))"

definition line_total :: "BillItem list \<Rightarrow> rat" where
  "line_total items = sum_list (map it_LineAmount items)"

definition set_head :: "uuid \<Rightarrow> BillItem \<Rightarrow> BillItem" where
  "set_head b it = it\<lparr>it_HeadID := b\<rparr>"

definition blank_head :: BillHead where
  "blank_head = \<lparr> h_ID = uuid_Nil, h_TenantID = uuid_Nil, h_BillNo = [], h_BillType = BillTypeOther [],
     h_SubType = BillSubTypeOther [], h_Status = StatusDraft, h_PartnerID = None, h_WarehouseID = None,
     h_OperatorID = None, h_CreatorID = uuid_Nil, h_BillDate = 0, h_Subtotal = 0, h_ShippingFee = 0, h_TaxAmount = 0, h_TotalAmount = 0,
     h_PaidAmount = 0, h_Currency = [], h_ExchangeRateVal = 0, h_AmountLocal = 0, h_ApprovedAt = None,
     h_ApprovedBy = None, h_Revision = 0, h_Remark = [], h_CreatedAt = 0, h_UpdatedAt = 0, h_ClientRef = [],
     h_Source = [], h_OccurredAt = None, h_link_bill_id = None, h_deleted = False \<rparr>"

text \<open>The write transaction both drafts share: a number, then head and lines.\<close>

definition persist_bill :: "env \<Rightarrow> string \<Rightarrow> string \<Rightarrow> BillHead \<Rightarrow> BillItem list \<Rightarrow> (uuid \<times> string) op" where
  "persist_bill E who prefix head items =
     bindE (mapErr (Wrap (who @ '': generate bill_no'')) (NextBillNo E (h_TenantID head) prefix)) (\<lambda>billNo.
     thenE (mapErr (Wrap (who @ '': persist bill'')) (CreateBill E (head\<lparr>h_BillNo := billNo\<rparr>) items))
     (returnE (h_ID head, billNo)))"

section \<open>Creating a purchase draft\<close>

record CreatePurchaseDraftRequest =
  cp_TenantID :: uuid
  cp_CreatorID :: uuid
  cp_PartnerID :: "uuid option"
  cp_WarehouseID :: "uuid option"
  cp_BillDate :: gotime
  cp_ShippingFee :: rat
  cp_TaxAmount :: rat
  cp_Remark :: string
  cp_Items :: "CreatePurchaseItemInput list"
  cp_Currency :: string
  cp_ExchangeRate :: rat

definition draft_checks :: "uuid \<Rightarrow> uuid \<Rightarrow> 'a list \<Rightarrow> err + unit" where
  "draft_checks t creator items =
     (if t = uuid_Nil then Inl (Wrap ''tenant_id is required'' ErrValidation)
      else if creator = uuid_Nil then Inl (Wrap ''creator_id is required'' ErrValidation)
      else if items = [] then Inl (Wrap ''at least one item is required'' ErrValidation)
      else Inr ())"

definition fee_checks :: "rat \<Rightarrow> rat \<Rightarrow> err + unit" where
  "fee_checks shipping tax =
     (if shipping < 0 then Inl (Wrap ''shipping_fee'' ErrNegativeFee)
      else if tax < 0 then Inl (Wrap ''tax_amount'' ErrNegativeFee) else Inr ())"

text \<open>Currency, rate, total in the bill's currency and total in CNY.\<close>

definition purchase_amounts :: "env \<Rightarrow> string \<Rightarrow> rat \<Rightarrow> rat \<Rightarrow> err + (string \<times> rat \<times> rat \<times> rat)" where
  "purchase_amounts E cur0 rate orig =
     (let cur = (if cur0 = [] then ''CNY'' else cur0)
      in if cur = ''CNY'' then Inr (cur, 1, orig, orig)
         else if rate = 0 \<or> rate < 0 then Inl (Wrap ''exchange_rate must be positive for non-CNY currency'' ErrValidation)
         else Inr (cur, rate, orig, dround E 2 (orig * rate)))"

definition purchase_head :: "env \<Rightarrow> CreatePurchaseDraftRequest \<Rightarrow> uuid \<Rightarrow> BillItem list \<Rightarrow> string \<times> rat \<times> rat \<times> rat \<Rightarrow> BillHead" where
  "purchase_head E req billID items amounts =
     (case amounts of (cur, rate, amountLocal, totalCNY) \<Rightarrow>
      blank_head\<lparr>h_ID := billID, h_TenantID := cp_TenantID req,
        h_BillType := BillTypePurchase, h_SubType := BillSubTypePurchase, h_Status := StatusDraft,
        h_PartnerID := cp_PartnerID req, h_WarehouseID := cp_WarehouseID req, h_CreatorID := cp_CreatorID req,
        h_BillDate := (if cp_BillDate req = 0 then now E else cp_BillDate req),
        h_Subtotal := line_total items, h_ShippingFee := cp_ShippingFee req, h_TaxAmount := cp_TaxAmount req,
        h_TotalAmount := totalCNY, h_Currency := cur, h_ExchangeRateVal := rate, h_AmountLocal := amountLocal,
        h_Remark := cp_Remark req, h_CreatedAt := now E, h_UpdatedAt := now E\<rparr>)"

definition CreatePurchaseDraft_Execute ::
  "env \<Rightarrow> CreatePurchaseDraftRequest \<Rightarrow> db \<Rightarrow> (err + uuid \<times> string) \<times> db" where
  "CreatePurchaseDraft_Execute E req = runTx (
     thenE (liftE (draft_checks (cp_TenantID req) (cp_CreatorID req) (cp_Items req)))
     (bindE (forE (build_item E (cp_TenantID req) uuid_Nil) (cp_Items req)) (\<lambda>items.
      thenE (liftE (fee_checks (cp_ShippingFee req) (cp_TaxAmount req)))
      (bindE (liftE (purchase_amounts E (cp_Currency req) (cp_ExchangeRate req)
                (dround E 2 (line_total items + cp_ShippingFee req + cp_TaxAmount req)))) (\<lambda>amounts.
       thenE (queryE (validateRefs (cp_TenantID req) (map ci_ProductID (cp_Items req)) (cp_WarehouseID req)))
       (thenE (queryE (validatePartner (cp_TenantID req) (cp_PartnerID req)))
        (bindE (uuid_New E) (\<lambda>billID.
         persist_bill E ''create purchase draft'' ''PO'' (purchase_head E req billID items amounts)
           (map (set_head billID) items)))))))))"

section \<open>Creating a sale draft\<close>

record CreateSaleRequest =
  cs_TenantID :: uuid
  cs_CreatorID :: uuid
  cs_PartnerID :: "uuid option"
  cs_WarehouseID :: "uuid option"
  cs_BillDate :: gotime
  cs_ShippingFee :: rat
  cs_TaxAmount :: rat
  cs_Remark :: string
  cs_Items :: "SaleItem list"

definition sale_warehouse :: "uuid option \<Rightarrow> SaleItem list \<Rightarrow> uuid option" where
  "sale_warehouse bill_level items =
     (case (bill_level, items) of
        (None, it # _) \<Rightarrow> if si_WarehouseID it \<noteq> uuid_Nil then Some (si_WarehouseID it) else None
      | _ \<Rightarrow> bill_level)"

definition sale_head :: "env \<Rightarrow> CreateSaleRequest \<Rightarrow> uuid \<Rightarrow> BillItem list \<Rightarrow> rat \<Rightarrow> BillHead" where
  "sale_head E req billID items amount =
      blank_head\<lparr>h_ID := billID, h_TenantID := cs_TenantID req,
        h_BillType := BillTypeSale, h_SubType := BillSubTypeSale, h_Status := StatusDraft,
        h_PartnerID := cs_PartnerID req, h_WarehouseID := sale_warehouse (cs_WarehouseID req) (cs_Items req),
        h_CreatorID := cs_CreatorID req,
        h_BillDate := (if cs_BillDate req = 0 then now E else cs_BillDate req),
        h_Subtotal := line_total items, h_ShippingFee := cs_ShippingFee req, h_TaxAmount := cs_TaxAmount req,
        h_TotalAmount := amount, h_Remark := cs_Remark req, h_CreatedAt := now E, h_UpdatedAt := now E\<rparr>"

definition CreateSale_Execute :: "env \<Rightarrow> CreateSaleRequest \<Rightarrow> db \<Rightarrow> (err + uuid \<times> string) \<times> db" where
  "CreateSale_Execute E req = runTx (
     thenE (liftE (draft_checks (cs_TenantID req) (cs_CreatorID req) (cs_Items req)))
     (bindE (forE (build_item E (cs_TenantID req) uuid_Nil) (cs_Items req)) (\<lambda>items.
      thenE (liftE (fee_checks (cs_ShippingFee req) (cs_TaxAmount req)))
      (let amount = dround E 2 (line_total items + cs_ShippingFee req + cs_TaxAmount req) in
       thenE (queryE (validateRefs (cs_TenantID req) (map ci_ProductID (cs_Items req))
                        (sale_warehouse (cs_WarehouseID req) (cs_Items req))))
       (thenE (queryE (validatePartner (cs_TenantID req) (cs_PartnerID req)))
        (bindE (uuid_New E) (\<lambda>billID.
         persist_bill E ''create sale draft'' ''SL'' (sale_head E req billID items amount)
           (map (set_head billID) items))))))))"

section \<open>Updating a purchase draft\<close>

record UpdatePurchaseDraftRequest =
  up_TenantID :: uuid
  up_BillID :: uuid
  up_OnlyCreatorID :: uuid
  up_KeepPrices :: bool
  up_PartnerID :: "uuid option"
  up_WarehouseID :: "uuid option"
  up_BillDate :: gotime
  up_ShippingFee :: rat
  up_TaxAmount :: rat
  up_Remark :: string
  up_Items :: "CreatePurchaseItemInput list"

definition sameUnit :: "uuid option \<Rightarrow> uuid option \<Rightarrow> bool" where
  "sameUnit a b = (case (a, b) of (Some x, Some y) \<Rightarrow> x = y | _ \<Rightarrow> a = None \<and> b = None)"

text \<open>\<open>units\<close> tells whether a unit repository is wired.\<close>

definition unitFactor :: "bool \<Rightarrow> db \<Rightarrow> uuid \<Rightarrow> uuid option \<Rightarrow> rat option" where
  "unitFactor units s p unitID =
     (case unitID of
        None \<Rightarrow> Some 1
      | Some u \<Rightarrow>
          if \<not> units then None
          else (case GetConversionFactor p u s of Inl _ \<Rightarrow> None | Inr f \<Rightarrow> if \<not> 0 < f then None else Some f))"

definition price_match :: "BillItem list \<Rightarrow> CreatePurchaseItemInput \<Rightarrow> BillItem option" where
  "price_match old it =
     (case List.find (\<lambda>o'. it_LineNo o' = ci_LineNo it \<and> it_ProductID o' = ci_ProductID it) old of
        Some o' \<Rightarrow> Some o'
      | None \<Rightarrow> List.find (\<lambda>o'. it_ProductID o' = ci_ProductID it) old)"

definition keptPrice :: "env \<Rightarrow> bool \<Rightarrow> db \<Rightarrow> BillItem list \<Rightarrow> CreatePurchaseItemInput \<Rightarrow> rat" where
  "keptPrice E units s old it =
     (case price_match old it of
        None \<Rightarrow> 0
      | Some m \<Rightarrow>
          if sameUnit (it_UnitID m) (ci_UnitID it) then it_UnitPrice m
          else (case unitFactor units s (ci_ProductID it) (it_UnitID m) of
                  None \<Rightarrow> 0
                | Some from \<Rightarrow>
                    (case unitFactor units s (ci_ProductID it) (ci_UnitID it) of
                       None \<Rightarrow> 0
                     | Some to \<Rightarrow> dround E 6 (ddiv E (it_UnitPrice m * to) from))))"

definition update_item :: "env \<Rightarrow> bool \<Rightarrow> UpdatePurchaseDraftRequest \<Rightarrow> BillItem list \<Rightarrow> CreatePurchaseItemInput \<Rightarrow> BillItem op" where
  "update_item E units req old it =
     (if ci_ProductID it = uuid_Nil then failE (Wrap ''item product_id is required'' ErrValidation)
      else if ci_Qty it = 0 \<or> ci_Qty it < 0 then failE (Wrap ''item qty must be positive'' ErrValidation)
      else bindE (readE (\<lambda>s. if up_KeepPrices req then keptPrice E units s old it else ci_UnitPrice it)) (\<lambda>price.
           new_item E (up_TenantID req) (up_BillID req) it price))"

definition update_amounts :: "env \<Rightarrow> BillHead \<Rightarrow> rat \<Rightarrow> err + rat" where
  "update_amounts E head amountLocal =
     (if h_Currency head \<noteq> [] \<and> h_Currency head \<noteq> ''CNY''
      then if \<not> 0 < h_ExchangeRateVal head
           then Inl (Wrap ''update purchase draft: stored exchange_rate is invalid'' ErrValidation)
           else Inr (dround E 2 (amountLocal * h_ExchangeRateVal head))
      else Inr amountLocal)"

definition purchase_edit :: "env \<Rightarrow> UpdatePurchaseDraftRequest \<Rightarrow> BillHead \<Rightarrow> BillItem list \<Rightarrow> BillHead op" where
  "purchase_edit E req head items =
     (let shipping = (if up_KeepPrices req then h_ShippingFee head else up_ShippingFee req);
          tax = (if up_KeepPrices req then h_TaxAmount head else up_TaxAmount req);
          shipping' = (if shipping < 0 then 0 else shipping);
          tax' = (if tax < 0 then 0 else tax);
          amountLocal = dround E 2 (line_total items + shipping' + tax')
      in bindE (liftE (update_amounts E head amountLocal)) (\<lambda>amount.
         let head' = head\<lparr>h_PartnerID := up_PartnerID req, h_WarehouseID := up_WarehouseID req,
               h_BillDate := (if up_BillDate req = 0 then h_BillDate head else up_BillDate req),
               h_Subtotal := line_total items, h_ShippingFee := shipping', h_TaxAmount := tax', h_TotalAmount := amount,
               h_AmountLocal := amountLocal, h_Remark := up_Remark req, h_UpdatedAt := now E\<rparr>
         in thenE (mapErr (Wrap ''update purchase draft: persist'') (UpdateBill E head' items)) (returnE head')))"

definition UpdatePurchaseDraft_Execute ::
  "env \<Rightarrow> bool \<Rightarrow> UpdatePurchaseDraftRequest \<Rightarrow> db \<Rightarrow> (err + BillHead) \<times> db" where
  "UpdatePurchaseDraft_Execute E units req = runTx (
     if up_TenantID req = uuid_Nil then failE (Wrap ''tenant_id is required'' ErrValidation)
     else if up_BillID req = uuid_Nil then failE (Wrap ''bill_id is required'' ErrValidation)
     else if up_Items req = [] then failE (Wrap ''at least one item is required'' ErrValidation)
     else
       thenE (queryE (validateRefs (up_TenantID req) (map ci_ProductID (up_Items req)) (up_WarehouseID req)))
       (thenE (queryE (validatePartner (up_TenantID req) (up_PartnerID req)))
        (bindE (mapErr (Wrap ''update purchase draft'') (GetBillForUpdate (up_TenantID req) (up_BillID req))) (\<lambda>head.
         if up_OnlyCreatorID req \<noteq> uuid_Nil \<and> h_CreatorID head \<noteq> up_OnlyCreatorID req
         then failE (Wrap ''update purchase draft'' ErrBillNotFound)
         else if h_Status head \<noteq> StatusDraft
         then failE (Wrap ''update purchase draft: only draft bills can be updated'' ErrInvalidBillStatus)
         else
           bindE (readE (\<lambda>s. if up_KeepPrices req then GetBillItems (up_TenantID req) (up_BillID req) s else [])) (\<lambda>old.
           bindE (forE (update_item E units req old) (up_Items req)) (\<lambda>items.
           purchase_edit E req head items))))))"

section \<open>Updating a sale draft\<close>

record UpdateSaleDraftRequest =
  us_TenantID :: uuid
  us_BillID :: uuid
  us_PartnerID :: "uuid option"
  us_WarehouseID :: "uuid option"
  us_BillDate :: gotime
  us_ShippingFee :: rat
  us_TaxAmount :: rat
  us_Remark :: string
  us_Items :: "SaleItem list"

definition sale_edit :: "env \<Rightarrow> UpdateSaleDraftRequest \<Rightarrow> BillHead \<Rightarrow> BillItem list \<Rightarrow> BillHead op" where
  "sale_edit E req head items =
     (let amount = dround E 2 (line_total items + us_ShippingFee req + us_TaxAmount req);
          head' = head\<lparr>h_PartnerID := us_PartnerID req, h_WarehouseID := sale_warehouse (us_WarehouseID req) (us_Items req),
               h_BillDate := (if us_BillDate req = 0 then h_BillDate head else us_BillDate req),
               h_Subtotal := line_total items, h_ShippingFee := us_ShippingFee req, h_TaxAmount := us_TaxAmount req,
               h_TotalAmount := amount, h_AmountLocal := amount, h_Remark := us_Remark req, h_UpdatedAt := now E\<rparr>
      in thenE (mapErr (Wrap ''update sale draft: persist'') (UpdateBill E head' items)) (returnE head'))"

definition UpdateSaleDraft_Execute :: "env \<Rightarrow> UpdateSaleDraftRequest \<Rightarrow> db \<Rightarrow> (err + BillHead) \<times> db" where
  "UpdateSaleDraft_Execute E req = runTx (
     if us_TenantID req = uuid_Nil then failE (Wrap ''tenant_id is required'' ErrValidation)
     else if us_BillID req = uuid_Nil then failE (Wrap ''bill_id is required'' ErrValidation)
     else if us_Items req = [] then failE (Wrap ''at least one item is required'' ErrValidation)
     else
       thenE (liftE (fee_checks (us_ShippingFee req) (us_TaxAmount req)))
       (bindE (forE (build_item E (us_TenantID req) (us_BillID req)) (us_Items req)) (\<lambda>items.
        thenE (queryE (validateRefs (us_TenantID req) (map ci_ProductID (us_Items req))
                         (sale_warehouse (us_WarehouseID req) (us_Items req))))
        (thenE (queryE (validatePartner (us_TenantID req) (us_PartnerID req)))
         (bindE (mapErr (Wrap ''update sale draft'') (GetBillForUpdate (us_TenantID req) (us_BillID req))) (\<lambda>head.
          if h_BillType head \<noteq> BillTypeSale \<or> h_SubType head \<noteq> BillSubTypeSale
          then failE (Wrap ''update sale draft'' ErrBillNotFound)
          else if h_Status head \<noteq> StatusDraft
          then failE (Wrap ''update sale draft: only draft bills can be updated'' ErrInvalidBillStatus)
          else sale_edit E req head items))))))"

section \<open>Cancelling and restoring\<close>

definition CancelPurchase_Execute :: "env \<Rightarrow> uuid \<Rightarrow> uuid \<Rightarrow> db \<Rightarrow> (err + unit) \<times> db" where
  "CancelPurchase_Execute E t b = runTx (
     if t = uuid_Nil then failE (ErrMsg ''cancel purchase: tenant_id is required'')
     else if b = uuid_Nil then failE (ErrMsg ''cancel purchase: bill_id is required'')
     else bindE (mapErr (Wrap ''cancel purchase'') (GetBillForUpdate t b)) (\<lambda>head.
       if h_Status head = StatusApproved then failE (Wrap ''approved bills require a purchase-return flow'' ErrCannotCancelApproved)
       else if h_Status head = StatusCancelled then returnE ()
       else if \<not> BillStatus_CanTransitionTo (h_Status head) StatusCancelled
       then failE (Wrap ''cancel purchase'' ErrInvalidBillStatus)
       else mapErr (Wrap ''cancel purchase: update status'') (UpdateBillStatus E t b StatusCancelled None None)))"

definition RestorePurchase_Execute :: "env \<Rightarrow> uuid \<Rightarrow> uuid \<Rightarrow> db \<Rightarrow> (err + unit) \<times> db" where
  "RestorePurchase_Execute E t b = runTx (
     if t = uuid_Nil then failE (ErrMsg ''restore purchase: tenant_id is required'')
     else if b = uuid_Nil then failE (ErrMsg ''restore purchase: bill_id is required'')
     else bindE (mapErr (Wrap ''restore purchase'') (GetBillForUpdate t b)) (\<lambda>head.
       if h_Status head = StatusApproved then failE (Wrap ''approved bills require a purchase-return flow'' ErrCannotRestoreApproved)
       else if h_Status head = StatusDraft then returnE ()
       else if h_Status head \<noteq> StatusCancelled then failE (Wrap ''restore purchase'' ErrInvalidBillStatus)
       else if 1 \<le> h_Revision head then failE (Wrap ''restore purchase'' ErrBillAlreadyRestoredOnce)
       else mapErr (Wrap ''restore purchase: update status'')
              (UpdateBillStatus E t b StatusDraft None (Some (h_Revision head + 1)))))"

section \<open>What the checks accept\<close>

lemma validate_products_ok:
  "validate_products t seen ps s = Inr () \<longleftrightarrow> (\<forall>p \<in> set ps. p = uuid_Nil \<or> p \<in> set seen \<or> ProductExists t p s)"
  by (induction t seen ps s rule: validate_products.induct) auto

definition refs_ok :: "uuid \<Rightarrow> uuid list \<Rightarrow> uuid option \<Rightarrow> uuid option \<Rightarrow> db \<Rightarrow> bool" where
  "refs_ok t ps w pid s \<longleftrightarrow>
     list_all (\<lambda>p. p = uuid_Nil \<or> ProductExists t p s) ps
     \<and> (case w of None \<Rightarrow> True | Some x \<Rightarrow> x = uuid_Nil \<or> WarehouseExists t x s)
     \<and> (case pid of None \<Rightarrow> True | Some x \<Rightarrow> x = uuid_Nil \<or> PartnerExists t x s)"

lemma refs_ok_iff:
  "refs_ok t ps w pid s \<longleftrightarrow> validateRefs t ps w s = Inr () \<and> validatePartner t pid s = Inr ()"
proof -
  have "validate_products t [] ps s = Inr () \<longleftrightarrow> list_all (\<lambda>p. p = uuid_Nil \<or> ProductExists t p s) ps"
    by (simp add: validate_products_ok list_all_iff)
  then show ?thesis
    by (cases "validate_products t [] ps s") (auto simp: refs_ok_def validateRefs_def validatePartner_def split: option.split)
qed

definition item_ok :: "'a CreatePurchaseItemInput_scheme \<Rightarrow> bool" where
  "item_ok it \<longleftrightarrow> ci_ProductID it \<noteq> uuid_Nil \<and> 0 < ci_Qty it \<and> 0 \<le> ci_UnitPrice it"

text \<open>The line \<open>bi\<close> says what the input \<open>it\<close> says, at the price given.\<close>

definition line_for :: "env \<Rightarrow> uuid \<Rightarrow> uuid \<Rightarrow> rat \<Rightarrow> 'a CreatePurchaseItemInput_scheme \<Rightarrow> BillItem \<Rightarrow> bool" where
  "line_for E t b price it bi \<longleftrightarrow> it_TenantID bi = t \<and> it_HeadID bi = b \<and> it_ProductID bi = ci_ProductID it
     \<and> it_UnitID bi = ci_UnitID it \<and> it_LineNo bi = ci_LineNo it \<and> it_Qty bi = ci_Qty it \<and> it_UnitPrice bi = price
     \<and> it_LineAmount bi = dround E 2 (ci_Qty it * price)"

lemma new_item_Inr:
  "new_item E t b it price s = Inr (bi, s') \<Longrightarrow>
     line_for E t b price it bi \<and> it_ID bi = new_uuid E (draws s) \<and> s' = s\<lparr>draws := Suc (draws s)\<rparr>"
  by (auto simp: new_item_def bindE_Inr line_for_def)

lemma build_item_Inr:
  "build_item E t b it s = Inr (bi, s') \<Longrightarrow>
     item_ok it \<and> line_for E t b (ci_UnitPrice it) it bi \<and> it_ID bi = new_uuid E (draws s) \<and> s' = s\<lparr>draws := Suc (draws s)\<rparr>"
  using new_item_Inr [of E t b it "ci_UnitPrice it"] by (auto simp: build_item_def item_ok_def split: if_splits)

lemma build_item_ok: "item_ok it \<Longrightarrow> \<exists>bi. build_item E t b it s = Inr (bi, s\<lparr>draws := Suc (draws s)\<rparr>)"
  by (auto simp: build_item_def item_ok_def new_item_def bindE_Inr)

lemma build_items_Inr:
  assumes "forE (build_item E t b) items s = Inr (bis, s')"
  shows "list_all item_ok items \<and> list_all2 (\<lambda>it. line_for E t b (ci_UnitPrice it) it) items bis
    \<and> map it_ID bis = map (new_uuid E) [draws s ..< draws s + length items] \<and> s' = s\<lparr>draws := draws s + length items\<rparr>"
  using assms
proof (induction items arbitrary: s bis)
  case Nil
  then show ?case by simp
next
  case (Cons it items)
  obtain y s1 zs where y: "build_item E t b it s = Inr (y, s1)" and r: "forE (build_item E t b) items s1 = Inr (zs, s')"
    and bis: "bis = y # zs" using Cons.prems unfolding forE_Cons_Inr by blast
  note one = build_item_Inr [OF y] and rest = Cons.IH [OF r]
  have "map it_ID bis = map (new_uuid E) [draws s ..< draws s + length (it # items)]"
    using one rest bis by (simp add: upt_conv_Cons del: upt_Suc)
  then show ?case using one rest bis by simp
qed

lemma build_items_ok:
  "list_all item_ok items \<Longrightarrow> \<exists>bis. forE (build_item E t b) items s = Inr (bis, s\<lparr>draws := draws s + length items\<rparr>)"
proof (induction items arbitrary: s)
  case (Cons it items)
  obtain y where y: "build_item E t b it s = Inr (y, s\<lparr>draws := Suc (draws s)\<rparr>)"
    using Cons.prems build_item_ok [of it] by fastforce
  have "list_all item_ok items" using Cons.prems by simp
  from Cons.IH [OF this, of "s\<lparr>draws := Suc (draws s)\<rparr>"]
  show ?case using y by (auto simp: bindE_Inr)
qed simp

lemma line_total_for:
  "list_all2 (\<lambda>it. line_for E t b (ci_UnitPrice it) it) items bis \<Longrightarrow>
   line_total bis = sum_list (map (\<lambda>it. dround E 2 (ci_Qty it * ci_UnitPrice it)) items)"
  by (induction rule: list_all2_induct) (simp_all add: line_total_def line_for_def)

section \<open>Persisting a bill\<close>

text \<open>The database without the bill tables.\<close>

definition beyond_bills :: "db \<Rightarrow> db" where
  "beyond_bills s = s\<lparr>bill_head := [], bill_item := [], bill_sequence := [], draws := 0\<rparr>"

lemma beyond_bills_updates [simp]:
  "beyond_bills (s\<lparr>bill_head := x1\<rparr>) = beyond_bills s" "beyond_bills (s\<lparr>bill_item := x2\<rparr>) = beyond_bills s"
  "beyond_bills (s\<lparr>bill_sequence := x3\<rparr>) = beyond_bills s" "beyond_bills (s\<lparr>draws := n\<rparr>) = beyond_bills s"
  by (simp_all add: beyond_bills_def)

lemma beyond_billsD:
  assumes "beyond_bills s' = beyond_bills s"
  shows "stock_snapshot s' = stock_snapshot s" "payment_head s' = payment_head s" "product_unit s' = product_unit s" "product s' = product s"
    "warehouse s' = warehouse s" "import_order_seen s' = import_order_seen s" "import_sku_map s' = import_sku_map s"
    "import_order_cancel_seen s' = import_order_cancel_seen s" "import_refund_seen s' = import_refund_seen s"
    "exchange_rate s' = exchange_rate s" "stock_movement s' = stock_movement s" "stock_lot s' = stock_lot s"
  using assms by (cases s; cases s'; simp add: beyond_bills_def)+

text \<open>A bill whose ids have been drawn and are not in the tables yet.\<close>

definition new_bill :: "env \<Rightarrow> db \<Rightarrow> BillHead \<Rightarrow> BillItem list \<Rightarrow> bool" where
  "new_bill E s h items \<longleftrightarrow> drawn E s (h_ID h) \<and> h_ID h \<notin> h_ID ` set (bill_head s) \<and> distinct (map it_ID items)
     \<and> (\<forall>it \<in> set items. drawn E s (it_ID it) \<and> it_ID it \<notin> it_ID ` set (bill_item s) \<and> it_HeadID it = h_ID h)"

lemma stored_item_key [simp]:
  "it_ID (stored_item E it) = it_ID it" "it_HeadID (stored_item E it) = it_HeadID it" "it_TenantID (stored_item E it) = it_TenantID it"
  "it_ProductID (stored_item E it) = it_ProductID it" "it_LineNo (stored_item E it) = it_LineNo it" "it_UnitID (stored_item E it) = it_UnitID it"
  by (simp_all add: stored_item_def)

lemma find_head_fresh: "b \<notin> h_ID ` set (bill_head s) \<Longrightarrow> find_head t b s = None"
  using find_head_key [of t b s] by (cases "find_head t b s") auto

lemma new_bill_frame:
  "new_bill E s h items \<Longrightarrow> bill_head s' = bill_head s \<Longrightarrow> bill_item s' = bill_item s \<Longrightarrow> draws s \<le> draws s' \<Longrightarrow> new_bill E s' h items"
  using drawn_mono [of E s _ s'] by (auto simp: new_bill_def)

lemma CreateBill_bills_ok:
  assumes "bills_ok E s" "new_bill E s h items" "\<exists>p. h_BillNo h = bill_number p (seq_val (h_TenantID h) p s)"
    and "CreateBill E h items s = Inr (u, s')"
  shows "bills_ok E s'"
proof -
  have s': "s' = s\<lparr>bill_head := bill_head s @ [created_head E h], bill_item := bill_item s @ map (stored_item E) items\<rparr>"
    and tot: "0 \<le> h_TotalAmount (created_head E h)" using assms(4) by (simp_all add: CreateBill_Inr)
  have nb: "numbered s'" by (rule CreateBill_numbered [OF _ assms(3,4)]) (use assms(1) in \<open>simp add: bills_ok_def\<close>)
  have dr: "drawn E s' u = drawn E s u" for u by (simp add: drawn_def s')
  have ids: "distinct (map h_ID (bill_head s'))" "distinct (map it_ID (bill_item s'))"
    using assms(1,2) by (auto simp: s' bills_ok_def new_bill_def o_def) (metis imageI)
  have "drawn E s' (h_ID x) \<and> 0 \<le> h_PaidAmount x \<and> h_PaidAmount x \<le> h_TotalAmount x" if "x \<in> set (bill_head s')" for x
    using that assms(1,2) tot unfolding dr by (auto simp: s' bills_ok_def new_bill_def)
  moreover have "drawn E s' (it_ID x) \<and> it_HeadID x \<in> h_ID ` set (bill_head s')" if "x \<in> set (bill_item s')" for x
    using that assms(1,2) unfolding dr by (auto simp: s' bills_ok_def new_bill_def)
  ultimately show ?thesis using nb ids by (simp add: bills_ok_def)
qed

lemma persist_bill_Inr:
  assumes "bills_ok E s" "new_bill E s h items" "persist_bill E who prefix h items s = Inr ((i, no), s')"
  shows "i = h_ID h" "bills_ok E s'" "list_all (\<lambda>x. h_TenantID x = h_TenantID h \<longrightarrow> h_BillNo x \<noteq> no) (bill_head s)"
    "find_head t b s' = (if (t, b) = (h_TenantID h, h_ID h) then Some (created_head E (h\<lparr>h_BillNo := no\<rparr>)) else find_head t b s)"
    "bill_item s' = bill_item s @ map (stored_item E) items" "beyond_bills s' = beyond_bills s"
proof -
  obtain s1 where n: "NextBillNo E (h_TenantID h) prefix s = Inr (no, s1)" and c: "CreateBill E (h\<lparr>h_BillNo := no\<rparr>) items s1 = Inr ((), s')"
    and i: "i = h_ID h" using assms(3) by (auto simp: persist_bill_def bindE_Inr thenE_Inr)
  show "i = h_ID h" by (fact i)
  obtain rows where s1: "s1 = s\<lparr>draws := Suc (draws s), bill_sequence := rows\<rparr>" using NextBillNo_Inr(3) [OF n] by blast
  have num: "numbered s" using assms(1) by (simp add: bills_ok_def)
  note N = NextBillNo_numbered [OF num n]
  have new1: "new_bill E s1 (h\<lparr>h_BillNo := no\<rparr>) items"
    using assms(2) drawn_mono [of E s _ s1] unfolding new_bill_def by (auto simp: s1)
  have ok1: "bills_ok E s1"
    using assms(1) N(1) drawn_mono [of E s _ s1] by (auto simp: bills_ok_def s1)
  show "bills_ok E s'" by (rule CreateBill_bills_ok [OF ok1 new1 _ c]) (use N(3) in simp)
  show "list_all (\<lambda>x. h_TenantID x = h_TenantID h \<longrightarrow> h_BillNo x \<noteq> no) (bill_head s)"
    using N(2) by (auto simp: list_all_iff)
  have "find_head (h_TenantID h) (h_ID h) s1 = None" using new1 by (simp add: new_bill_def find_head_fresh)
  then show "find_head t b s' = (if (t, b) = (h_TenantID h, h_ID h) then Some (created_head E (h\<lparr>h_BillNo := no\<rparr>)) else find_head t b s)"
    using find_head_create [OF c] by (simp add: s1)
  show "bill_item s' = bill_item s @ map (stored_item E) items" "beyond_bills s' = beyond_bills s"
    using c by (auto simp: CreateBill_Inr s1)
qed

lemma persist_bill_ok:
  assumes "runtime_env E" "bills_ok E s" "0 \<le> h_TotalAmount h" "h_ClientRef h = []"
  shows "\<exists>no s'. persist_bill E who prefix h items s = Inr ((h_ID h, no), s')"
proof -
  obtain no s1 where n: "NextBillNo E (h_TenantID h) prefix s = Inr (no, s1)" using NextBillNo_ok by blast
  have num: "numbered s" using assms(2) by (simp add: bills_ok_def)
  note N = NextBillNo_numbered [OF num n]
  have "\<not> list_ex (same_bill_no (h\<lparr>h_BillNo := no\<rparr>)) (bill_head s1)"
    using N(2,4) by (auto simp: list_ex_iff same_bill_no_def)
  moreover have "\<not> list_ex (same_client_ref (h\<lparr>h_BillNo := no\<rparr>)) (bill_head s1)"
    using assms(4) by (auto simp: list_ex_iff same_client_ref_def)
  moreover have "0 \<le> numeric E 4 (h_TotalAmount h)" using numeric_nonneg [OF assms(1,3)] by simp
  ultimately show ?thesis using n by (simp add: persist_bill_def bindE_Inr thenE_Inr CreateBill_Inr)
qed

lemma bills_ok_fresh:
  assumes "runtime_env E" "bills_ok E s" "draws s \<le> n"
  shows "new_uuid E n \<notin> h_ID ` set (bill_head s)" "new_uuid E n \<notin> it_ID ` set (bill_item s)"
    "new_uuid E n \<notin> it_HeadID ` set (bill_item s)"
proof -
  show h: "new_uuid E n \<notin> h_ID ` set (bill_head s)"
  proof
    assume "new_uuid E n \<in> h_ID ` set (bill_head s)"
    then obtain x where x: "x \<in> set (bill_head s)" "h_ID x = new_uuid E n" by auto
    have "drawn E s (h_ID x)" using bills_okD(4) [OF assms(2) x(1)] by blast
    from drawn_fresh [OF assms(1) this assms(3)] show False using x(2) by simp
  qed
  show "new_uuid E n \<notin> it_ID ` set (bill_item s)"
  proof
    assume "new_uuid E n \<in> it_ID ` set (bill_item s)"
    then obtain x where x: "x \<in> set (bill_item s)" "it_ID x = new_uuid E n" by auto
    have "drawn E s (it_ID x)" using bills_okD(5) [OF assms(2) x(1)] by blast
    from drawn_fresh [OF assms(1) this assms(3)] show False using x(2) by simp
  qed
  show "new_uuid E n \<notin> it_HeadID ` set (bill_item s)" using h bills_okD(5) [OF assms(2)] by fastforce
qed

lemma built_new_bill:
  assumes "runtime_env E" "bills_ok E s" "map it_ID bis = map (new_uuid E) [draws s ..< n]" "draws s \<le> n"
    and "h_ID h = new_uuid E n"
  shows "new_bill E (s\<lparr>draws := Suc n\<rparr>) h (map (set_head (new_uuid E n)) bis)"
proof -
  have inj: "inj (new_uuid E)" using runtime_env.new_uuid_inj [OF assms(1)] by (simp add: inj_on_def)
  have "it_ID (set_head b it) = it_ID it" "it_HeadID (set_head b it) = b" for b it by (simp_all add: set_head_def)
  moreover have "distinct (map it_ID bis)" using assms(3) by (auto simp: distinct_map intro: inj_on_subset [OF inj])
  moreover have "drawn E (s\<lparr>draws := Suc n\<rparr>) (it_ID x) \<and> it_ID x \<notin> it_ID ` set (bill_item s)" if "x \<in> set bis" for x
  proof -
    have "it_ID x \<in> set (map (new_uuid E) [draws s ..< n])" using that assms(3) by (metis image_eqI list.set_map)
    then obtain k where k: "it_ID x = new_uuid E k" "draws s \<le> k" "k < n" by auto
    have "it_ID x \<notin> it_ID ` set (bill_item s)"
      unfolding k(1) by (rule bills_ok_fresh(2) [OF assms(1,2) k(2)])
    then show ?thesis using k by (auto simp: drawn_def intro!: exI [of _ k])
  qed
  moreover have "new_uuid E n \<notin> h_ID ` set (bill_head s)"
    by (rule bills_ok_fresh(1) [OF assms(1,2,4)])
  ultimately show ?thesis using assms(5) by (auto simp: new_bill_def drawn_def o_def)
qed

lemma refs_ok_draws [simp]: "refs_ok t ps w pid (s\<lparr>draws := n\<rparr>) = refs_ok t ps w pid s"
  by (simp add: refs_ok_def ProductExists_def WarehouseExists_def PartnerExists_def cong: option.case_cong)

section \<open>A purchase draft is accepted exactly when it is valid, and books what it says\<close>

definition domestic :: "string \<Rightarrow> bool" where
  "domestic cur \<longleftrightarrow> cur = [] \<or> cur = ''CNY''"

definition purchase_valid :: "CreatePurchaseDraftRequest \<Rightarrow> db \<Rightarrow> bool" where
  "purchase_valid req s \<longleftrightarrow> cp_TenantID req \<noteq> uuid_Nil \<and> cp_CreatorID req \<noteq> uuid_Nil \<and> cp_Items req \<noteq> []
     \<and> list_all item_ok (cp_Items req) \<and> 0 \<le> cp_ShippingFee req \<and> 0 \<le> cp_TaxAmount req
     \<and> (domestic (cp_Currency req) \<or> 0 < cp_ExchangeRate req)
     \<and> refs_ok (cp_TenantID req) (map ci_ProductID (cp_Items req)) (cp_WarehouseID req) (cp_PartnerID req) s"

text \<open>The sum of the rounded lines and the fees, rounded, and that in CNY.\<close>

definition lines_amount :: "env \<Rightarrow> 'a CreatePurchaseItemInput_scheme list \<Rightarrow> rat" where
  "lines_amount E items = sum_list (map (\<lambda>it. dround E 2 (ci_Qty it * ci_UnitPrice it)) items)"

definition purchase_total :: "env \<Rightarrow> CreatePurchaseDraftRequest \<Rightarrow> rat" where
  "purchase_total E req =
     (let orig = dround E 2 (lines_amount E (cp_Items req) + cp_ShippingFee req + cp_TaxAmount req)
      in if domestic (cp_Currency req) then orig else dround E 2 (orig * cp_ExchangeRate req))"

lemma purchase_amounts_Inr:
  "(\<exists>a. purchase_amounts E cur rate orig = Inr a) \<longleftrightarrow> domestic cur \<or> 0 < rate"
  "purchase_amounts E cur rate orig = Inr (c, r, l, tot) \<Longrightarrow>
     tot = (if domestic cur then orig else dround E 2 (orig * rate)) \<and> l = orig"
  by (auto simp: purchase_amounts_def domestic_def Let_def split: if_splits)

lemma draft_checks_Inr: "draft_checks t c items = Inr () \<longleftrightarrow> t \<noteq> uuid_Nil \<and> c \<noteq> uuid_Nil \<and> items \<noteq> []"
  by (simp add: draft_checks_def)

lemma fee_checks_Inr: "fee_checks a b = Inr () \<longleftrightarrow> 0 \<le> a \<and> 0 \<le> b"
  by (auto simp: fee_checks_def)

lemma create_purchase_Inr:
  "CreatePurchaseDraft_Execute E req s = (Inr out, s') \<longleftrightarrow>
     draft_checks (cp_TenantID req) (cp_CreatorID req) (cp_Items req) = Inr ()
     \<and> fee_checks (cp_ShippingFee req) (cp_TaxAmount req) = Inr ()
     \<and> (\<exists>items s1 a. forE (build_item E (cp_TenantID req) uuid_Nil) (cp_Items req) s = Inr (items, s1)
          \<and> purchase_amounts E (cp_Currency req) (cp_ExchangeRate req)
               (dround E 2 (line_total items + cp_ShippingFee req + cp_TaxAmount req)) = Inr a
          \<and> refs_ok (cp_TenantID req) (map ci_ProductID (cp_Items req)) (cp_WarehouseID req) (cp_PartnerID req) s1
          \<and> persist_bill E ''create purchase draft'' ''PO'' (purchase_head E req (new_uuid E (draws s1)) items a)
              (map (set_head (new_uuid E (draws s1))) items) (s1\<lparr>draws := Suc (draws s1)\<rparr>) = Inr (out, s'))"
  unfolding CreatePurchaseDraft_Execute_def runTx_Inr guard_simps bindE_Inr [of "forE _ _"] bindE_uuid_New refs_ok_iff
  by blast

lemma purchase_head_simps [simp]:
  "h_ID (purchase_head E req b items a) = b" "h_TenantID (purchase_head E req b items a) = cp_TenantID req"
  "h_TotalAmount (purchase_head E req b items a) = snd (snd (snd a))" "h_ClientRef (purchase_head E req b items a) = []"
  "h_Status (purchase_head E req b items a) = StatusDraft"
  by (simp_all add: purchase_head_def blank_head_def split: prod.split)

lemma lines_amount_nonneg: "runtime_env E \<Longrightarrow> list_all item_ok items \<Longrightarrow> 0 \<le> lines_amount E items"
  unfolding lines_amount_def
  by (rule sum_list_nonneg_map) (auto simp: list_all_iff item_ok_def intro!: dround_nonneg)

lemma purchase_total_nonneg:
  assumes "runtime_env E" "purchase_valid req s"
  shows "0 \<le> purchase_total E req"
proof -
  have "0 \<le> lines_amount E (cp_Items req) + cp_ShippingFee req + cp_TaxAmount req"
    using lines_amount_nonneg [OF assms(1), of "cp_Items req"] assms(2) by (simp add: purchase_valid_def)
  then show ?thesis using assms
    by (auto simp: purchase_total_def Let_def purchase_valid_def intro!: dround_nonneg mult_nonneg_nonneg)
qed

text \<open>
  A purchase draft is accepted exactly when it is valid (tenant, creator, at least one line,
  every line with a product, a positive quantity and a non-negative price, non-negative fees, a
  positive rate for a foreign currency, and only products, warehouse and partner of the tenant);
  a refused one changes nothing.
\<close>

theorem create_purchase_accepts:
  assumes "runtime_env E" "bills_ok E s"
  shows "case CreatePurchaseDraft_Execute E req s of
           (Inl e, s') \<Rightarrow> s' = s \<and> \<not> purchase_valid req s | (Inr out, s') \<Rightarrow> purchase_valid req s"
proof -
  obtain r s' where r: "CreatePurchaseDraft_Execute E req s = (r, s')" by force
  have "\<exists>out s'. CreatePurchaseDraft_Execute E req s = (Inr out, s')" if v: "purchase_valid req s"
  proof -
    have ok: "list_all item_ok (cp_Items req)" using v by (simp add: purchase_valid_def)
    from build_items_ok [OF this, of E "cp_TenantID req" uuid_Nil s] obtain items
      where f: "forE (build_item E (cp_TenantID req) uuid_Nil) (cp_Items req) s = Inr (items, s\<lparr>draws := draws s + length (cp_Items req)\<rparr>)"
      by blast
    let ?s1 = "s\<lparr>draws := draws s + length (cp_Items req)\<rparr>"
    let ?orig = "dround E 2 (line_total items + cp_ShippingFee req + cp_TaxAmount req)"
    obtain a where a: "purchase_amounts E (cp_Currency req) (cp_ExchangeRate req) ?orig = Inr a"
      using purchase_amounts_Inr(1) v by (metis purchase_valid_def)
    have lt: "line_total items = lines_amount E (cp_Items req)"
      unfolding lines_amount_def using build_items_Inr [OF f] by (intro line_total_for) blast
    have "snd (snd (snd a)) = purchase_total E req"
      using purchase_amounts_Inr(2) [of E "cp_Currency req" "cp_ExchangeRate req" ?orig] a
      by (cases a) (auto simp: purchase_total_def Let_def lt)
    then have t0: "0 \<le> snd (snd (snd a))" using purchase_total_nonneg [OF assms(1) v] by simp
    have b: "bills_ok E (?s1\<lparr>draws := Suc (draws ?s1)\<rparr>)"
      by (rule bills_ok_frame [OF assms(2)]) simp_all
    obtain no s2 where p: "persist_bill E ''create purchase draft'' ''PO'' (purchase_head E req (new_uuid E (draws ?s1)) items a)
        (map (set_head (new_uuid E (draws ?s1))) items) (?s1\<lparr>draws := Suc (draws ?s1)\<rparr>) = Inr ((new_uuid E (draws ?s1), no), s2)"
      using persist_bill_ok [OF assms(1) b, of "purchase_head E req (new_uuid E (draws ?s1)) items a" "''create purchase draft''" "''PO''" "map (set_head (new_uuid E (draws ?s1))) items"] t0 by auto
    have "CreatePurchaseDraft_Execute E req s = (Inr (new_uuid E (draws ?s1), no), s2)"
      unfolding create_purchase_Inr
      by (intro conjI exI [of _ items] exI [of _ ?s1] exI [of _ a] f a p)
         (use v in \<open>simp_all add: purchase_valid_def draft_checks_Inr fee_checks_Inr\<close>)
    then show ?thesis by blast
  qed
  moreover have "purchase_valid req s" if rr: "r = Inr out" for out
  proof -
    obtain items s1 a where x: "draft_checks (cp_TenantID req) (cp_CreatorID req) (cp_Items req) = Inr ()"
      "fee_checks (cp_ShippingFee req) (cp_TaxAmount req) = Inr ()"
      "forE (build_item E (cp_TenantID req) uuid_Nil) (cp_Items req) s = Inr (items, s1)"
      "purchase_amounts E (cp_Currency req) (cp_ExchangeRate req)
               (dround E 2 (line_total items + cp_ShippingFee req + cp_TaxAmount req)) = Inr a"
      "refs_ok (cp_TenantID req) (map ci_ProductID (cp_Items req)) (cp_WarehouseID req) (cp_PartnerID req) s1"
      using r unfolding rr create_purchase_Inr by blast
    have y: "domestic (cp_Currency req) \<or> 0 < cp_ExchangeRate req" using x(4) purchase_amounts_Inr(1) by blast
    show ?thesis using build_items_Inr [OF x(3)] x(1,2,5) y by (simp add: purchase_valid_def draft_checks_Inr fee_checks_Inr)
  qed
  moreover have "s' = s" if "r = Inl e" for e
    by (rule runTx_atomic) (rule r [unfolded CreatePurchaseDraft_Execute_def that])
  ultimately show ?thesis using r by (cases r) auto
qed

text \<open>What an accepted purchase draft leaves behind, with the partner and the kind of the bill.\<close>

lemma purchase_draft_stored:
  assumes "runtime_env E" "bills_ok E s" "CreatePurchaseDraft_Execute E req s = (Inr (billID, billNo), s')"
  shows "bills_ok E s' \<and> beyond_bills s' = beyond_bills s
    \<and> list_all (\<lambda>h. h_TenantID h = cp_TenantID req \<longrightarrow> h_BillNo h \<noteq> billNo) (bill_head s)
    \<and> (\<forall>t b. (t, b) = (cp_TenantID req, billID) \<or> find_head t b s' = find_head t b s)
    \<and> find_head (cp_TenantID req) billID s = None
    \<and> (\<exists>h. find_head (cp_TenantID req) billID s' = Some h \<and> h_BillNo h = billNo \<and> h_Status h = StatusDraft
         \<and> h_PaidAmount h = 0 \<and> h_TotalAmount h = purchase_total E req
         \<and> h_BillType h = BillTypePurchase \<and> h_SubType h = BillSubTypePurchase \<and> h_PartnerID h = cp_PartnerID req)
    \<and> (\<exists>items. list_all2 (\<lambda>it. line_for E (cp_TenantID req) billID (ci_UnitPrice it) it) (cp_Items req) items
         \<and> bill_item s' = bill_item s @ map (stored_item E) items)"
proof -
  obtain items s1 a where f: "forE (build_item E (cp_TenantID req) uuid_Nil) (cp_Items req) s = Inr (items, s1)"
    and a: "purchase_amounts E (cp_Currency req) (cp_ExchangeRate req)
               (dround E 2 (line_total items + cp_ShippingFee req + cp_TaxAmount req)) = Inr a"
    and p: "persist_bill E ''create purchase draft'' ''PO'' (purchase_head E req (new_uuid E (draws s1)) items a)
              (map (set_head (new_uuid E (draws s1))) items) (s1\<lparr>draws := Suc (draws s1)\<rparr>) = Inr ((billID, billNo), s')"
    using assms(3) unfolding create_purchase_Inr by blast
  note B = build_items_Inr [OF f]
  let ?n = "draws s + length (cp_Items req)"
  have s1: "s1 = s\<lparr>draws := ?n\<rparr>" and ids: "map it_ID items = map (new_uuid E) [draws s ..< ?n]" using B by simp_all
  have nb: "new_bill E (s\<lparr>draws := Suc ?n\<rparr>) (purchase_head E req (new_uuid E ?n) items a) (map (set_head (new_uuid E ?n)) items)"
    by (rule built_new_bill [OF assms(1,2) ids]) simp_all
  have ok: "bills_ok E (s\<lparr>draws := Suc ?n\<rparr>)" by (rule bills_ok_frame [OF assms(2)]) simp_all
  note P = persist_bill_Inr [OF ok nb p [unfolded s1, simplified]]
  have i: "billID = new_uuid E ?n" using P(1) by simp
  have none: "find_head (cp_TenantID req) billID s = None"
    unfolding i by (rule find_head_fresh, rule bills_ok_fresh(1) [OF assms(1,2)]) simp
  have lt: "line_total items = lines_amount E (cp_Items req)"
    unfolding lines_amount_def using B by (intro line_total_for) blast
  have tot: "snd (snd (snd a)) = purchase_total E req"
    using purchase_amounts_Inr(2) [of E "cp_Currency req" "cp_ExchangeRate req"] a
    by (cases a) (auto simp: purchase_total_def Let_def lt)
  have "on_grid 4 (purchase_total E req)"
    unfolding purchase_total_def Let_def
    by (auto intro!: on_grid_mono [OF dround_grid [OF assms(1)], of 2 4])
  then have num: "numeric E 4 (snd (snd (snd a))) = purchase_total E req" using numeric_fix [OF assms(1)] tot by simp
  have lines: "list_all2 (\<lambda>it. line_for E (cp_TenantID req) billID (ci_UnitPrice it) it) (cp_Items req) (map (set_head billID) items)"
    using B by (auto simp: list_all2_conv_all_nth line_for_def set_head_def)
  show ?thesis
    using P(2-6) none num lines i by (auto simp: purchase_head_def blank_head_def split: prod.split intro!: exI)
qed

text \<open>
  C14: an accepted purchase draft is stored as it says: under a new id a draft with an unused
  number, nothing paid, and as total the rounded sum of the rounded lines and the fees, converted
  at the rate for a foreign currency; its lines are the submitted ones; no other bill, stock row or
  payment changes, and the tables stay consistent.
\<close>

theorem create_purchase_books:
  assumes "runtime_env E" "bills_ok E s" "CreatePurchaseDraft_Execute E req s = (Inr (billID, billNo), s')"
  shows "bills_ok E s' \<and> beyond_bills s' = beyond_bills s
    \<and> list_all (\<lambda>h. h_TenantID h = cp_TenantID req \<longrightarrow> h_BillNo h \<noteq> billNo) (bill_head s)
    \<and> (\<forall>t b. (t, b) = (cp_TenantID req, billID) \<or> find_head t b s' = find_head t b s)
    \<and> find_head (cp_TenantID req) billID s = None
    \<and> (\<exists>h. find_head (cp_TenantID req) billID s' = Some h \<and> h_BillNo h = billNo \<and> h_Status h = StatusDraft
         \<and> h_PaidAmount h = 0 \<and> h_TotalAmount h = purchase_total E req)
    \<and> (\<exists>items. list_all2 (\<lambda>it. line_for E (cp_TenantID req) billID (ci_UnitPrice it) it) (cp_Items req) items
         \<and> bill_item s' = bill_item s @ map (stored_item E) items)"
  using purchase_draft_stored [OF assms] by blast

section \<open>Examples\<close>

definition demo_shop :: db where
  "demo_shop = empty_db\<lparr>
     product := [\<lparr> pr_id = 12, pr_tenant_id = 11, pr_name = ''tea'', pr_default_unit_id = Some 21, pr_unit_id = None, pr_deleted = False \<rparr>],
     product_unit := [\<lparr> pu_product_id = 12, pu_unit_id = 22, pu_conversion_factor = 10 \<rparr>],
     warehouse := [\<lparr> wh_id = 13, wh_tenant_id = 11, wh_name = ''main'', wh_is_default = Some True, wh_enabled = None,
                     wh_created_at = 2, wh_deleted = False \<rparr>]\<rparr>"

definition demo_purchase :: CreatePurchaseDraftRequest where
  "demo_purchase = \<lparr> cp_TenantID = 11, cp_CreatorID = 14, cp_PartnerID = None, cp_WarehouseID = Some 13, cp_BillDate = 0,
     cp_ShippingFee = 5, cp_TaxAmount = 0, cp_Remark = [],
     cp_Items = [\<lparr> ci_ProductID = 12, ci_UnitID = Some 22, ci_UnitName = ''box'', ci_LineNo = 2, ci_Qty = 3, ci_UnitPrice = 20 \<rparr>],
     cp_Currency = ''USD'', cp_ExchangeRate = 7 \<rparr>"

lemma demo_shop_ok: "bills_ok E demo_shop"
  by (simp add: bills_ok_def numbered_def demo_shop_def empty_db_def)

lemma demo_purchase_accepted: "\<not> isl (fst (CreatePurchaseDraft_Execute std_env demo_purchase demo_shop))"
  by code_simp

lemma not_isl_result: "\<not> isl (fst r) \<Longrightarrow> \<exists>a s'. r = (Inr a, s')"
  by (cases r; cases "fst r") auto

theorem create_purchase_accepts_witness: "purchase_valid demo_purchase demo_shop"
proof -
  obtain a s' where "CreatePurchaseDraft_Execute std_env demo_purchase demo_shop = (Inr a, s')"
    using not_isl_result [OF demo_purchase_accepted] by blast
  then show ?thesis using create_purchase_accepts [OF std_runtime demo_shop_ok, of demo_purchase] by simp
qed

lemma demo_purchase_total: "purchase_total std_env demo_purchase = 455"
  by code_simp

theorem create_purchase_books_witness:
  "\<exists>billID billNo s' h. CreatePurchaseDraft_Execute std_env demo_purchase demo_shop = (Inr (billID, billNo), s')
     \<and> find_head 11 billID s' = Some h \<and> h_TotalAmount h = 455"
proof -
  obtain billID billNo s' where e: "CreatePurchaseDraft_Execute std_env demo_purchase demo_shop = (Inr (billID, billNo), s')"
    using not_isl_result [OF demo_purchase_accepted] by force
  have "cp_TenantID demo_purchase = 11" by (simp add: demo_purchase_def)
  with create_purchase_books [OF std_runtime demo_shop_ok e] e demo_purchase_total show ?thesis by metis
qed

section \<open>Price-blind edits\<close>

text \<open>The same request with other prices and fees.\<close>

definition reprice :: "rat list \<Rightarrow> rat \<Rightarrow> rat \<Rightarrow> UpdatePurchaseDraftRequest \<Rightarrow> UpdatePurchaseDraftRequest" where
  "reprice ps shipping tax req = req\<lparr>up_ShippingFee := shipping, up_TaxAmount := tax,
     up_Items := map2 (\<lambda>p it. it\<lparr>ci_UnitPrice := p\<rparr>) ps (up_Items req)\<rparr>"

lemma keptPrice_reprice: "keptPrice E units s old (it\<lparr>ci_UnitPrice := p\<rparr>) = keptPrice E units s old it"
  by (simp add: keptPrice_def price_match_def cong: option.case_cong if_cong)

lemma new_item_reprice: "new_item E t b (it\<lparr>ci_UnitPrice := p\<rparr>) = new_item E t b it"
  by (rule ext)+ (simp add: new_item_def)

lemma update_item_reprice:
  assumes "up_KeepPrices req"
  shows "update_item E units (reprice ps a b req) old (it\<lparr>ci_UnitPrice := p\<rparr>) = update_item E units req old it"
  using assms by (simp add: update_item_def keptPrice_reprice reprice_def new_item_reprice)

lemma update_items_reprice:
  assumes "up_KeepPrices req" "length qs = length items"
  shows "forE (update_item E units (reprice ps a b req) old) (map2 (\<lambda>p it. it\<lparr>ci_UnitPrice := p\<rparr>) qs items)
       = forE (update_item E units req old) items"
  using assms(2) by (induction qs items rule: list_induct2) (simp_all add: update_item_reprice assms(1))

lemma reprice_simps [simp]:
  "up_TenantID (reprice ps a b req) = up_TenantID req" "up_BillID (reprice ps a b req) = up_BillID req"
  "up_OnlyCreatorID (reprice ps a b req) = up_OnlyCreatorID req" "up_KeepPrices (reprice ps a b req) = up_KeepPrices req"
  "up_PartnerID (reprice ps a b req) = up_PartnerID req" "up_WarehouseID (reprice ps a b req) = up_WarehouseID req"
  "up_BillDate (reprice ps a b req) = up_BillDate req" "up_Remark (reprice ps a b req) = up_Remark req"
  "up_Items (reprice ps a b req) = map2 (\<lambda>p it. it\<lparr>ci_UnitPrice := p\<rparr>) ps (up_Items req)"
  by (simp_all add: reprice_def)

lemma purchase_edit_reprice: "up_KeepPrices req \<Longrightarrow> purchase_edit E (reprice ps a b req) head items = purchase_edit E req head items"
  by (simp add: purchase_edit_def)

text \<open>
  C15: someone who may not see prices cannot influence them.  With \<open>KeepPrices\<close> the outcome of an
  edit, the stored bill and the returned one, is the same whatever prices and fees the request
  carries.
\<close>

theorem keep_prices_blind:
  assumes "up_KeepPrices req" "length ps = length (up_Items req)"
  shows "UpdatePurchaseDraft_Execute E units (reprice ps shipping tax req) s = UpdatePurchaseDraft_Execute E units req s"
proof -
  have ids: "map ci_ProductID (map2 (\<lambda>p it. it\<lparr>ci_UnitPrice := p\<rparr>) ps (up_Items req)) = map ci_ProductID (up_Items req)"
    using assms(2) by (intro nth_equalityI) auto
  have nil: "map2 (\<lambda>p it. it\<lparr>ci_UnitPrice := p\<rparr>) ps (up_Items req) = [] \<longleftrightarrow> up_Items req = []"
    using assms(2) by (cases ps) (auto simp: zip_eq_Nil_iff)
  show ?thesis
    unfolding UpdatePurchaseDraft_Execute_def reprice_simps ids nil update_items_reprice [OF assms]
      purchase_edit_reprice [OF assms(1)] by (rule refl)
qed

definition demo_booked :: db where
  "demo_booked = snd (CreatePurchaseDraft_Execute std_env demo_purchase demo_shop)"

definition demo_edit :: UpdatePurchaseDraftRequest where
  "demo_edit = \<lparr> up_TenantID = 11, up_BillID = 1001, up_OnlyCreatorID = 14, up_KeepPrices = True, up_PartnerID = None,
     up_WarehouseID = Some 13, up_BillDate = 0, up_ShippingFee = 0, up_TaxAmount = 0, up_Remark = [],
     up_Items = [\<lparr> ci_ProductID = 12, ci_UnitID = None, ci_UnitName = ''piece'', ci_LineNo = 2, ci_Qty = 30, ci_UnitPrice = 0 \<rparr>] \<rparr>"

lemma demo_edit_accepted: "\<not> isl (fst (UpdatePurchaseDraft_Execute std_env True demo_edit demo_booked))"
  by code_simp

theorem keep_prices_blind_witness:
  "\<not> isl (fst (UpdatePurchaseDraft_Execute std_env True (reprice [99] 7 8 demo_edit) demo_booked))"
proof -
  have "up_KeepPrices demo_edit" "length [99::rat] = length (up_Items demo_edit)" by (simp_all add: demo_edit_def)
  from keep_prices_blind [OF this] show ?thesis using demo_edit_accepted by simp
qed

text \<open>
  When a price-blind edit changes a line from one unit of the product to another, the price is
  rescaled so that the price per base unit stays the same, up to the rounding of the new price.
\<close>

theorem kept_price_rescaled:
  assumes "runtime_env E" "price_match old it = Some m" "\<not> sameUnit (it_UnitID m) (ci_UnitID it)"
    and "unitFactor units s (ci_ProductID it) (it_UnitID m) = Some from"
    and "unitFactor units s (ci_ProductID it) (ci_UnitID it) = Some to"
  shows "\<bar>keptPrice E units s old it / to - it_UnitPrice m / from\<bar> \<le> (1 / (2 * 10 ^ 6) + 1 / (2 * 10 ^ 16)) / to"
proof -
  have pos: "0 < to" "0 < from" using assms(4,5) by (auto simp: unitFactor_def split: option.splits if_splits sum.splits)
  let ?p = "it_UnitPrice m" and ?k = "keptPrice E units s old it"
  have k: "?k = dround E 6 (ddiv E (?p * to) from)" using assms(2-5) by (simp add: keptPrice_def)
  have "\<bar>?k - ddiv E (?p * to) from\<bar> \<le> 1 / (2 * 10 ^ 6)" unfolding k by (rule dround_near [OF assms(1)])
  moreover have "\<bar>ddiv E (?p * to) from - ?p * to / from\<bar> \<le> 1 / (2 * 10 ^ 16)"
    by (rule runtime_env.ddiv_near [OF assms(1)]) (use pos in simp)
  ultimately have "\<bar>?k - ?p * to / from\<bar> \<le> 1 / (2 * 10 ^ 6) + 1 / (2 * 10 ^ 16)" by linarith
  then have "\<bar>?k - ?p * to / from\<bar> / to \<le> (1 / (2 * 10 ^ 6) + 1 / (2 * 10 ^ 16)) / to"
    using pos by (intro divide_right_mono) simp_all
  moreover have "\<bar>?k - ?p * to / from\<bar> / to = \<bar>?k / to - ?p / from\<bar>"
  proof -
    have "?k / to - ?p / from = (?k - ?p * to / from) / to" using pos by (simp add: field_simps)
    then show ?thesis using pos by (simp add: abs_divide)
  qed
  ultimately show ?thesis by simp
qed

definition demo_line :: BillItem where
  "demo_line = \<lparr> it_ID = 1000, it_TenantID = 11, it_HeadID = 1001, it_ProductID = 12, it_UnitID = Some 22, it_UnitName = ''box'',
     it_LineNo = 2, it_Qty = 3, it_UnitPrice = 20, it_LineAmount = 60, it_Remark = [], it_purchase_price = 0,
     it_link_item_id = None, it_deleted = False \<rparr>"

theorem kept_price_rescaled_witness:
  "\<bar>keptPrice std_env True demo_shop [demo_line] (hd (up_Items demo_edit)) / 1 - 20 / 10\<bar>
     \<le> (1 / (2 * 10 ^ 6) + 1 / (2 * 10 ^ 16)) / 1"
proof -
  let ?it = "hd (up_Items demo_edit)"
  have "price_match [demo_line] ?it = Some demo_line" by (simp add: price_match_def demo_edit_def demo_line_def)
  moreover have "\<not> sameUnit (it_UnitID demo_line) (ci_UnitID ?it)" by (simp add: sameUnit_def demo_edit_def demo_line_def)
  moreover have "unitFactor True demo_shop (ci_ProductID ?it) (it_UnitID demo_line) = Some 10"
    by (simp add: unitFactor_def GetConversionFactor_def demo_shop_def demo_edit_def demo_line_def)
  moreover have "unitFactor True demo_shop (ci_ProductID ?it) (ci_UnitID ?it) = Some 1"
    by (simp add: unitFactor_def demo_edit_def)
  moreover have "it_UnitPrice demo_line = 20" by (simp add: demo_line_def)
  ultimately show ?thesis using kept_price_rescaled [OF std_runtime, of "[demo_line]" ?it demo_line True demo_shop 10 1] by simp
qed

end
