(* ===== verification/Bill_Approval.thy ===== *)
theory Bill_Approval
  imports Bill_Drafts Record_Movement
begin

text \<open>
  Approval of purchases and sales (\<open>internal/app/bill/approve_purchase.go\<close>,
  \<open>approve_sale.go\<close>): the stock movements of every line, the status and the payment that rides
  along, in one transaction.

  The stock use case is the argument \<open>exec\<close> (\<open>StockMovementExecutor\<close>), and the lemmas about it are
  those of the locale \<open>stock_executor\<close>.  The unlocked look at the bill before the transaction reads
  the state \<open>pre\<close>, which may be older than the one the transaction works on: other requests may
  have committed in between.
\<close>

section \<open>Warehouse, payment method, payment\<close>

definition resolveApprovalWarehouse :: "env \<Rightarrow> BillHead \<Rightarrow> uuid \<Rightarrow> uuid \<Rightarrow> uuid op" where
  "resolveApprovalWarehouse E head t b =
     (case h_WarehouseID head of
        Some w \<Rightarrow> returnE w
      | None \<Rightarrow> bindE (readE (DefaultWarehouseID t)) (\<lambda>d.
          case d of
            None \<Rightarrow> failE ErrWarehouseRequired
          | Some w \<Rightarrow> thenE (mapErr (Wrap ''set bill warehouse'') (SetBillWarehouse E t b w)) (returnE w)))"

definition resolvePayType :: "string \<Rightarrow> err + PayType" where
  "resolvePayType pm =
     (if pm = [] then Inr PayTypeCash
      else case PayType_Validate pm of Inl _ \<Rightarrow> Inl (Wrap pm ErrInvalidPayMethod) | Inr _ \<Rightarrow> Inr pm)"

definition checkSettlementMethod :: "string \<Rightarrow> rat \<Rightarrow> err + unit" where
  "checkSettlementMethod pm amount =
     (if 0 < amount \<and> pm = PayTypeCredit then Inl (Wrap pm ErrInvalidPayMethod) else Inr ())"

definition initial_payment :: "BillHead \<Rightarrow> uuid \<Rightarrow> uuid \<Rightarrow> uuid \<Rightarrow> rat \<Rightarrow> PayType \<Rightarrow> gotime \<Rightarrow> string \<Rightarrow> uuid \<Rightarrow> Payment" where
  "initial_payment head t b creator amount payType when remark i =
     \<lparr> p_ID = i, p_TenantID = t, p_BillID = b, p_PayType = payType, p_Amount = amount, p_TotalAmount = 0,
       p_PartnerID = h_PartnerID head, p_OperatorID = None, p_CreatorID = creator, p_BillNo = [], p_PayDate = when,
       p_Remark = remark, p_CreatedAt = 0, p_deleted = False \<rparr>"

definition recordInitialPayment ::
  "env \<Rightarrow> BillHead \<Rightarrow> uuid \<Rightarrow> uuid \<Rightarrow> uuid \<Rightarrow> rat \<Rightarrow> string \<Rightarrow> gotime \<Rightarrow> string \<Rightarrow> unit op" where
  "recordInitialPayment E head t b creator amount pm when remark =
     bindE (liftE (resolvePayType pm)) (\<lambda>payType.
     thenE (liftE (checkSettlementMethod pm amount))
     (bindE (uuid_New E) (\<lambda>i.
      thenE (mapErr (Wrap ''record payment'')
               (Payment_Record E (initial_payment head t b creator amount payType when remark i)))
      (mapErr (Wrap ''update paid_amount'') (UpdatePaidAmount E t b amount)))))"

section \<open>Purchases\<close>

record ApprovePurchaseRequest =
  ap_TenantID :: uuid
  ap_BillID :: uuid
  ap_ApprovedBy :: uuid
  ap_PaidAmount :: rat
  ap_PayType :: string
  ap_AllowZeroPrice :: bool

text \<open>The factor of a line, as the decimal and as the string that travels with the movement.\<close>

definition line_factor :: "env \<Rightarrow> BillItem \<Rightarrow> db \<Rightarrow> err + (string \<times> rat)" where
  "line_factor E item s =
     (case it_UnitID item of
        None \<Rightarrow> Inr (''1'', 1)
      | Some u \<Rightarrow> (case GetConversionFactor (it_ProductID item) u s of
                    Inl e \<Rightarrow> Inl e | Inr f \<Rightarrow> Inr (dec_string E f, f)))"

definition receipt_request :: "uuid \<Rightarrow> uuid \<Rightarrow> uuid \<Rightarrow> BillItem \<Rightarrow> string \<Rightarrow> rat \<Rightarrow> RecordMovementRequest" where
  "receipt_request t b w item conv cost =
     \<lparr> r_TenantID = t, r_ProductID = it_ProductID item, r_WarehouseID = w, r_Direction = DirectionIn,
       r_Qty = it_Qty item, r_UnitID = (case it_UnitID item of None \<Rightarrow> uuid_Nil | Some u \<Rightarrow> u), r_ConvFactor = conv,
       r_UnitCost = cost, r_ExplicitCost = False, r_AllowNegative = False, r_CostStrategy = CostStrategyWAC,
       r_ReferenceType = RefPurchase, r_ReferenceID = Some b, r_OccurredAt = 0, r_CreatedBy = None, r_Note = [] \<rparr>"

definition base_rate :: "BillHead \<Rightarrow> rat" where
  "base_rate head = (if h_ExchangeRateVal head = 0 \<or> h_ExchangeRateVal head < 0 then 1 else h_ExchangeRateVal head)"

definition receive_line ::
  "env \<Rightarrow> (RecordMovementRequest \<Rightarrow> Snapshot op) \<Rightarrow> uuid \<Rightarrow> uuid \<Rightarrow> uuid \<Rightarrow> rat \<Rightarrow> BillItem \<Rightarrow> Snapshot op" where
  "receive_line E exec t b w rate item =
     bindE (mapErr (Wrap ''approve purchase: item'') (queryE (line_factor E item))) (\<lambda>(conv, factor).
     bindE (liftE (decimal_Div E (it_UnitPrice item * rate) factor)) (\<lambda>cost.
     mapErr (Wrap ''approve purchase: record movement for item'') (exec (receipt_request t b w item conv cost))))"

definition zero_price_lines :: "BillItem list \<Rightarrow> (int \<times> uuid) list" where
  "zero_price_lines items = map (\<lambda>it. (it_LineNo it, it_ProductID it)) (filter (\<lambda>it. it_UnitPrice it = 0) items)"

definition alreadyPaidApprovalResult :: "rat \<Rightarrow> err + unit" where
  "alreadyPaidApprovalResult paid = (if 0 < paid then Inl ErrBillAlreadyApproved else Inr ())"

definition approve_purchase_tx ::
  "env \<Rightarrow> (RecordMovementRequest \<Rightarrow> Snapshot op) \<Rightarrow> ApprovePurchaseRequest \<Rightarrow> unit op" where
  "approve_purchase_tx E exec req =
     (let t = ap_TenantID req; b = ap_BillID req; paid = ap_PaidAmount req in
      bindE (mapErr (Wrap ''approve purchase: load bill'') (GetBillForUpdate t b)) (\<lambda>head.
      if h_Status head = StatusApproved then liftE (alreadyPaidApprovalResult paid)
      else if h_TotalAmount head < paid then failE (Wrap ''approve purchase'' ErrPaidExceedsTotal)
      else if \<not> BillStatus_CanTransitionTo (h_Status head) StatusApproved
      then failE (Wrap ''approve purchase'' ErrInvalidBillStatus)
      else
        bindE (readE (GetBillItems t b)) (\<lambda>items.
        if \<not> ap_AllowZeroPrice req \<and> zero_price_lines items \<noteq> []
        then failE (Wrap ''approve purchase'' (ZeroPriceLinesError (zero_price_lines items)))
        else
          bindE (mapErr (Wrap ''approve purchase'') (resolveApprovalWarehouse E head t b)) (\<lambda>w.
          bindE (forE (receive_line E exec t b w (base_rate head)) items) (\<lambda>_.
          thenE (mapErr (Wrap ''approve purchase: update status'')
                   (UpdateBillStatus E t b StatusApproved (Some (now E, ap_ApprovedBy req)) None))
          (whenE (0 < paid)
             (mapErr (Wrap ''approve purchase'')
                (recordInitialPayment E head t b (ap_ApprovedBy req) paid (ap_PayType req) (now E) []))))))))"

definition approve_purchase_checks :: "bool \<Rightarrow> ApprovePurchaseRequest \<Rightarrow> err + unit" where
  "approve_purchase_checks payments req =
     (if ap_TenantID req = uuid_Nil then Inl (ErrMsg ''approve purchase: tenant_id is required'')
      else if ap_BillID req = uuid_Nil then Inl (ErrMsg ''approve purchase: bill_id is required'')
      else if ap_PaidAmount req < 0 then Inl (Wrap ''approve purchase: paid_amount must be non-negative'' ErrValidation)
      else case resolvePayType (ap_PayType req) of
             Inl e \<Rightarrow> Inl e
           | Inr _ \<Rightarrow>
               (case checkSettlementMethod (ap_PayType req) (ap_PaidAmount req) of
                  Inl e \<Rightarrow> Inl e
                | Inr _ \<Rightarrow> if 0 < ap_PaidAmount req \<and> \<not> payments
                           then Inl (ErrMsg ''approve purchase: payments are not enabled'') else Inr ()))"

text \<open>Whether the bill was already approved when it was looked at without a lock.\<close>

definition seen_approved :: "uuid \<Rightarrow> uuid \<Rightarrow> db \<Rightarrow> bool" where
  "seen_approved t b pre = (case GetBill t b pre of Inl _ \<Rightarrow> False | Inr h \<Rightarrow> h_Status h = StatusApproved)"

definition ApprovePurchase_ExecuteWithPayment ::
  "env \<Rightarrow> (RecordMovementRequest \<Rightarrow> Snapshot op) \<Rightarrow> bool \<Rightarrow> ApprovePurchaseRequest \<Rightarrow> db \<Rightarrow> db \<Rightarrow> (err + unit) \<times> db" where
  "ApprovePurchase_ExecuteWithPayment E exec payments req pre = runTx (
     thenE (liftE (approve_purchase_checks payments req))
     (if seen_approved (ap_TenantID req) (ap_BillID req) pre
      then liftE (alreadyPaidApprovalResult (ap_PaidAmount req))
      else approve_purchase_tx E exec req))"

section \<open>Sales\<close>

record ApproveSaleRequest =
  as_TenantID :: uuid
  as_BillID :: uuid
  as_CreatorID :: uuid
  as_PaidAmount :: rat
  as_PayType :: string
  as_PaymentRemark :: string
  as_OccurredAt :: gotime
  as_AllowNegative :: bool

definition shipment_request :: "ApproveSaleRequest \<Rightarrow> uuid \<Rightarrow> BillItem \<Rightarrow> string \<Rightarrow> RecordMovementRequest" where
  "shipment_request req w item conv =
     \<lparr> r_TenantID = as_TenantID req, r_ProductID = it_ProductID item, r_WarehouseID = w, r_Direction = DirectionOut,
       r_Qty = it_Qty item, r_UnitID = (case it_UnitID item of None \<Rightarrow> uuid_Nil | Some u \<Rightarrow> u), r_ConvFactor = conv,
       r_UnitCost = 0, r_ExplicitCost = False, r_AllowNegative = as_AllowNegative req, r_CostStrategy = CostStrategyWAC,
       r_ReferenceType = RefSale, r_ReferenceID = Some (as_BillID req), r_OccurredAt = as_OccurredAt req,
       r_CreatedBy = None, r_Note = [] \<rparr>"

text \<open>
  What became of a line: it left, perhaps taking its product below zero (the call of
  \<open>OnNegativeStock\<close>), or it was short and the loop went on to the next line.  A movement that is
  short is refused before anything of it is written.
\<close>

datatype SaleLine = Shipped "(uuid \<times> rat) option" | LineShort "uuid \<times> rat \<times> rat"

definition ship_line :: "env \<Rightarrow> (RecordMovementRequest \<Rightarrow> Snapshot op) \<Rightarrow> ApproveSaleRequest \<Rightarrow> uuid \<Rightarrow> BillItem \<Rightarrow> SaleLine op" where
  "ship_line E exec req w item =
     bindE (mapErr (Wrap ''approve sale: item'') (queryE (line_factor E item))) (\<lambda>(conv, _) s.
     case exec (shipment_request req w item conv) s of
       Inl e \<Rightarrow>
         (case errors_unwrap e of
            InsufficientStockError p avail need \<Rightarrow> Inr (LineShort (p, avail, need), s)
          | _ \<Rightarrow> Inl (Wrap ''approve sale: record movement for item'' e))
     | Inr (snap, s') \<Rightarrow>
         thenE (mapErr (Wrap ''approve sale: persist purchase_price'')
                  (UpdateItemPurchasePrice E (as_TenantID req) (it_ID item) (s_UnitCost snap)))
         (returnE (Shipped (if as_AllowNegative req \<and> s_OnHandQty snap < 0
                            then Some (it_ProductID item, s_OnHandQty snap) else None))) s')"

definition shortages :: "SaleLine list \<Rightarrow> (uuid \<times> rat \<times> rat) list" where
  "shortages ls = concat (map (\<lambda>l. case l of LineShort x \<Rightarrow> [x] | Shipped _ \<Rightarrow> []) ls)"

definition negatives :: "SaleLine list \<Rightarrow> (uuid \<times> rat) list" where
  "negatives ls = concat (map (\<lambda>l. case l of Shipped (Some x) \<Rightarrow> [x] | _ \<Rightarrow> []) ls)"

definition alreadyApprovedResult :: "ApproveSaleRequest \<Rightarrow> err + unit" where
  "alreadyApprovedResult req = (if 0 < as_PaidAmount req then Inl ErrBillAlreadyApproved else Inr ())"

text \<open>Status and payment, once every line has left.\<close>

definition close_sale :: "env \<Rightarrow> ApproveSaleRequest \<Rightarrow> BillHead \<Rightarrow> unit op" where
  "close_sale E req head =
     thenE (mapErr (Wrap ''approve sale: update status'')
              (UpdateBillStatus E (as_TenantID req) (as_BillID req) StatusApproved (Some (now E, as_CreatorID req)) None))
     (whenE (0 < as_PaidAmount req)
        (mapErr (Wrap ''approve sale'')
           (recordInitialPayment E head (as_TenantID req) (as_BillID req) (as_CreatorID req) (as_PaidAmount req)
              (as_PayType req) (if as_OccurredAt req = 0 then now E else as_OccurredAt req) (as_PaymentRemark req))))"

definition ApproveSale_executeInTx ::
  "env \<Rightarrow> (RecordMovementRequest \<Rightarrow> Snapshot op) \<Rightarrow> ApproveSaleRequest \<Rightarrow> (uuid \<times> rat) list op" where
  "ApproveSale_executeInTx E exec req s =
     (let t = as_TenantID req; b = as_BillID req; paid = as_PaidAmount req in
      bindE (mapErr (Wrap ''approve sale: load bill'') (GetBillForUpdate t b)) (\<lambda>head.
      if h_Status head = StatusApproved then thenE (liftE (alreadyApprovedResult req)) (returnE [])
      else if paid < 0 then failE (Wrap ''approve sale: paid_amount must be non-negative'' ErrValidation)
      else if h_TotalAmount head < paid then failE (Wrap ''approve sale'' ErrPaidExceedsTotal)
      else if \<not> BillStatus_CanTransitionTo (h_Status head) StatusApproved
      then failE (Wrap ''approve sale'' ErrInvalidBillStatus)
      else
        bindE (readE (GetBillItems t b)) (\<lambda>items.
        bindE (mapErr (Wrap ''approve sale'') (resolveApprovalWarehouse E head t b)) (\<lambda>w.
        bindE (forE (ship_line E exec req w) items) (\<lambda>ls.
        if shortages ls \<noteq> [] then failE (BatchInsufficientStockError (shortages ls))
        else thenE (close_sale E req head) (returnE (negatives ls)))))) s)"

definition ApproveSale_Execute ::
  "env \<Rightarrow> (RecordMovementRequest \<Rightarrow> Snapshot op) \<Rightarrow> ApproveSaleRequest \<Rightarrow> db \<Rightarrow> db \<Rightarrow> (err + (uuid \<times> rat) list) \<times> db" where
  "ApproveSale_Execute E exec req pre = runTx (
     if as_TenantID req = uuid_Nil then failE (ErrMsg ''approve sale: tenant_id is required'')
     else if as_BillID req = uuid_Nil then failE (ErrMsg ''approve sale: bill_id is required'')
     else if as_PaidAmount req < 0 then failE (Wrap ''approve sale: paid_amount must be non-negative'' ErrValidation)
     else bindE (liftE (resolvePayType (as_PayType req))) (\<lambda>_.
       if seen_approved (as_TenantID req) (as_BillID req) pre
       then thenE (liftE (alreadyApprovedResult req)) (returnE [])
       else ApproveSale_executeInTx E exec req))"

section \<open>Quantities in base units\<close>

text \<open>What the schema says of \<open>product_unit.conversion_factor\<close>: six places and positive.\<close>

definition units_ok :: "db \<Rightarrow> bool" where
  "units_ok s \<longleftrightarrow> (\<forall>r \<in> set (product_unit s). on_grid 6 (pu_conversion_factor r) \<and> 0 < pu_conversion_factor r)"

definition factor_of :: "BillItem \<Rightarrow> db \<Rightarrow> rat" where
  "factor_of item s =
     (case it_UnitID item of
        None \<Rightarrow> 1
      | Some u \<Rightarrow> (case GetConversionFactor (it_ProductID item) u s of Inl _ \<Rightarrow> 1 | Inr f \<Rightarrow> f))"

definition base_qty :: "db \<Rightarrow> BillItem \<Rightarrow> rat" where
  "base_qty s item = it_Qty item * factor_of item s"

lemma GetConversionFactor_ok:
  assumes "units_ok s" "GetConversionFactor p u s = Inr f"
  shows "on_grid 6 f" "0 < f"
  using assms by (auto simp: GetConversionFactor_def units_ok_def split: option.splits if_splits dest!: find_Some_P)

lemma line_factor_Inr:
  assumes "line_factor E item s = Inr (conv, f)"
  shows "f = factor_of item s" "conv = ''1'' \<and> f = 1 \<or> conv = dec_string E f \<and> it_UnitID item \<noteq> None"
  using assms by (auto simp: line_factor_def factor_of_def split: option.splits sum.splits)

lemma factor_of_ok:
  assumes "units_ok s"
  shows "on_grid 6 (factor_of item s)" "0 < factor_of item s"
  using GetConversionFactor_ok [OF assms, of "it_ProductID item"]
  by (auto simp: factor_of_def split: option.split sum.split)

lemma convert_line:
  assumes "runtime_env E" "units_ok s" "line_factor E item s = Inr (conv, f)"
  shows "convertToBase E (it_Qty item) conv = Inr (base_qty s item)"
proof -
  have f: "f = factor_of item s" by (rule line_factor_Inr(1) [OF assms(3)])
  note ok = factor_of_ok [OF assms(2), of item, folded f]
  consider "conv = ''1''" "f = 1" | "conv = dec_string E f" using line_factor_Inr(2) [OF assms(3)] by blast
  then show ?thesis
  proof cases
    case 1
    then show ?thesis by (simp add: convertToBase_def base_qty_def f [symmetric])
  next
    case 2
    have ne: "conv \<noteq> []" unfolding 2 by (rule runtime_env.string_not_empty [OF assms(1)])
    have p: "dec_parse E conv = Some f" unfolding 2 by (rule runtime_env.parse_string [OF assms(1) ok(1)])
    show ?thesis
    proof (cases "conv = ''1''")
      case True
      then have "f = 1" using p runtime_env.parse_one [OF assms(1)] by simp
      then show ?thesis using True by (simp add: convertToBase_def base_qty_def f [symmetric])
    next
      case False
      then show ?thesis using ne p ok(2) by (simp add: convertToBase_def decimalutil_Parse_def base_qty_def f [symmetric])
    qed
  qed
qed

lemma base_qty_frame:
  "product_unit s' = product_unit s \<Longrightarrow> product s' = product s \<Longrightarrow> base_qty s' item = base_qty s item"
  by (simp add: base_qty_def factor_of_def GetConversionFactor_def cong: option.case_cong)

lemma units_ok_frame: "product_unit s' = product_unit s \<Longrightarrow> units_ok s' = units_ok s"
  by (simp add: units_ok_def)

text \<open>What the lines move of one product.\<close>

definition moved :: "db \<Rightarrow> uuid \<Rightarrow> BillItem list \<Rightarrow> rat" where
  "moved s p items = sum_list (map (base_qty s) (filter (\<lambda>it. it_ProductID it = p) items))"

lemma moved_Cons: "moved s p (it # items) = (if it_ProductID it = p then base_qty s it else 0) + moved s p items"
  by (simp add: moved_def)

lemma moved_frame:
  "product_unit s' = product_unit s \<Longrightarrow> product s' = product s \<Longrightarrow> moved s' p items = moved s p items"
  unfolding moved_def by (rule arg_cong [of _ _ sum_list], rule map_cong, rule refl, rule base_qty_frame)

section \<open>Receiving goods\<close>

lemma receipt_request_simps [simp]:
  "r_TenantID (receipt_request t b w item conv cost) = t" "r_ProductID (receipt_request t b w item conv cost) = it_ProductID item"
  "r_WarehouseID (receipt_request t b w item conv cost) = w" "r_Direction (receipt_request t b w item conv cost) = DirectionIn"
  "r_Qty (receipt_request t b w item conv cost) = it_Qty item" "r_ConvFactor (receipt_request t b w item conv cost) = conv"
  "r_UnitCost (receipt_request t b w item conv cost) = cost" "r_ReferenceID (receipt_request t b w item conv cost) = Some b"
  "r_ReferenceType (receipt_request t b w item conv cost) = RefPurchase"
  by (simp_all add: receipt_request_def)

lemma check_request_qty: "check_request E who req = Inr q \<Longrightarrow> convertToBase E (r_Qty req) (r_ConvFactor req) = Inr q"
  by (auto simp: check_request_def split: if_splits sum.splits)

lemma receive_line_Inr:
  assumes "receive_line E exec t b w rate item s = Inr (snap, s')"
  obtains conv f cost where "line_factor E item s = Inr (conv, f)" "decimal_Div E (it_UnitPrice item * rate) f = Inr cost"
    "exec (receipt_request t b w item conv cost) s = Inr (snap, s')"
  using assms unfolding receive_line_def bindE_mapErr_Inr queryE_Inr
  by (auto simp: bindE_liftE_Inr split: prod.splits)

context stock_executor
begin

lemma received_line:
  assumes "runtime_env E" "units_ok s" "receive_line E exec t b w rate item s = Inr (snap, s')"
    and "on_grid 4 (base_qty s item)" "on_grid 4 (on_hand t (it_ProductID item) w s)"
  shows "on_hand t p w s' = on_hand t p w s + (if it_ProductID item = p then base_qty s item else 0)"
    "(t', w') \<noteq> (t, w) \<Longrightarrow> on_hand t' p w' s' = on_hand t' p w' s" "beyond_stock s' = beyond_stock s"
proof -
  obtain conv f cost where l: "line_factor E item s = Inr (conv, f)"
    and x: "exec (receipt_request t b w item conv cost) s = Inr (snap, s')" using assms(3) by (rule receive_line_Inr)
  let ?r = "receipt_request t b w item conv cost"
  obtain q where c: "check_request E [] ?r = Inr q" using exec_qty [OF x] by blast
  have q: "q = base_qty s item" using check_request_qty [OF c] convert_line [OF assms(1,2) l] by simp
  show "beyond_stock s' = beyond_stock s" by (rule exec_frame [OF x])
  have other: "(t', p, w') \<noteq> (t, it_ProductID item, w) \<Longrightarrow> on_hand t' p w' s' = on_hand t' p w' s" for t' p w'
    using exec_other [OF x, of t' p w'] by (auto simp: on_hand_def)
  then show "(t', w') \<noteq> (t, w) \<Longrightarrow> on_hand t' p w' s' = on_hand t' p w' s" by auto
  have "on_hand t (it_ProductID item) w s' = numeric E 4 (on_hand t (it_ProductID item) w s + base_qty s item)"
    using exec_book [OF x c] by (simp add: q request_delta.simps)
  also have "\<dots> = on_hand t (it_ProductID item) w s + base_qty s item"
    by (rule numeric_fix [OF assms(1)]) (use assms(4,5) in auto)
  finally show "on_hand t p w s' = on_hand t p w s + (if it_ProductID item = p then base_qty s item else 0)"
    using other [of t p w] by auto
qed

lemma received_lines:
  assumes "runtime_env E" "units_ok s" "forE (receive_line E exec t b w rate) items s = Inr (snaps, s')"
    and "\<And>it. it \<in> set items \<Longrightarrow> on_grid 4 (base_qty s it)" "\<And>p. on_grid 4 (on_hand t p w s)"
  shows "(\<forall>p. on_hand t p w s' = on_hand t p w s + moved s p items)
    \<and> (\<forall>t' p w'. (t', w') \<noteq> (t, w) \<longrightarrow> on_hand t' p w' s' = on_hand t' p w' s) \<and> beyond_stock s' = beyond_stock s"
  using assms(2-)
proof (induction items arbitrary: s snaps)
  case Nil
  then show ?case by (simp add: moved_def)
next
  case (Cons it items)
  obtain y s1 ys where l: "receive_line E exec t b w rate it s = Inr (y, s1)"
    and r: "forE (receive_line E exec t b w rate) items s1 = Inr (ys, s')"
    using Cons.prems(2) unfolding forE_Cons_Inr by blast
  have g: "on_grid 4 (base_qty s it)" using Cons.prems(3) by simp
  note one = received_line [OF assms(1) Cons.prems(1) l g Cons.prems(4)]
  note fr = beyond_stockD(5,7) [OF one(3)]
  have IH: "(\<forall>p. on_hand t p w s' = on_hand t p w s1 + moved s1 p items)
    \<and> (\<forall>t' p w'. (t', w') \<noteq> (t, w) \<longrightarrow> on_hand t' p w' s' = on_hand t' p w' s1) \<and> beyond_stock s' = beyond_stock s1"
  proof (rule Cons.IH [OF _ r])
    show "units_ok s1" using Cons.prems(1) units_ok_frame [OF fr(2)] by simp
    show "on_grid 4 (base_qty s1 x)" if "x \<in> set items" for x
      using Cons.prems(3) that base_qty_frame [OF fr(2,1)] by simp
    show "on_grid 4 (on_hand t p w s1)" for p using one(1) [of p] Cons.prems(4) g by auto
  qed
  show ?case using IH one moved_frame [OF fr(2,1)] by (simp add: moved_Cons algebra_simps)
qed

end

section \<open>Steps of an approval\<close>

text \<open>An update of the head of one bill, and nothing else, that keeps its key.\<close>

definition head_update :: "uuid \<Rightarrow> uuid \<Rightarrow> (BillHead \<Rightarrow> BillHead) \<Rightarrow> db \<Rightarrow> db" where
  "head_update t b f = (\<lambda>s. s\<lparr>bill_head := update_where (head_at t b) f (bill_head s)\<rparr>)"

definition head_ids :: "BillHead \<Rightarrow> uuid \<times> uuid \<times> bool \<times> string \<times> string" where
  "head_ids h = (h_ID h, h_TenantID h, h_deleted h, h_BillNo h, h_ClientRef h)"

abbreviation same_ids :: "db \<Rightarrow> db \<Rightarrow> bool" where
  "same_ids s' s \<equiv> map head_ids (bill_head s') = map head_ids (bill_head s)"

definition keeps_key :: "(BillHead \<Rightarrow> BillHead) \<Rightarrow> bool" where
  "keeps_key f \<longleftrightarrow> (\<forall>h. head_ids (f h) = head_ids h)"

lemma find_head_head_update:
  "keeps_key f \<Longrightarrow> find_head t' b' (head_update t b f s) =
     (if (t', b') = (t, b) then map_option f (find_head t b s) else find_head t' b' s)"
  unfolding head_update_def by (rule find_head_update) (simp add: keeps_key_def head_ids_def)

lemma head_update_ids: "keeps_key f \<Longrightarrow> same_ids (head_update t b f s) s"
  unfolding head_update_def by (simp add: map_update_where_key keeps_key_def)

lemma find_map: "List.find P (map f xs) = map_option f (List.find (\<lambda>x. P (f x)) xs)"
  by (induction xs) auto

text \<open>A bill found in two tables with the same ids has the same number and reference in both.\<close>

lemma find_head_ids:
  assumes "same_ids s' s" "find_head t b s = Some h" "find_head t b s' = Some h'"
  shows "head_ids h' = head_ids h"
proof -
  let ?P = "\<lambda>(i, t', d, _, _). i = b \<and> t' = t \<and> \<not> d"
  have "map_option head_ids (find_head t b x) = List.find ?P (map head_ids (bill_head x))" for x
    by (simp add: find_map find_head_def head_ids_def head_at_def [abs_def])
  then have "map_option head_ids (find_head t b s') = map_option head_ids (find_head t b s)" using assms(1) by simp
  then show ?thesis using assms(2,3) by simp
qed

lemma FindBillByClientRef_ids:
  assumes "same_ids s' s"
  shows "FindBillByClientRef t ref s' = FindBillByClientRef t ref s"
proof -
  let ?P = "\<lambda>(_, t', _, _, r). t' = t \<and> ref \<noteq> [] \<and> r = ref"
  have "FindBillByClientRef t ref x = map_option (\<lambda>(i, _, _, no, _). (i, no)) (List.find ?P (map head_ids (bill_head x)))" for x
    by (simp add: find_map FindBillByClientRef_def head_ids_def option.map_comp o_def)
  then show ?thesis using assms by simp
qed

lemma head_update_frame [simp]:
  "GetSnapshot t' p w (head_update t b f s) = GetSnapshot t' p w s" "on_hand t' p w (head_update t b f s) = on_hand t' p w s"
  "bill_item (head_update t b f s) = bill_item s" "payment_head (head_update t b f s) = payment_head s"
  "product_unit (head_update t b f s) = product_unit s" "product (head_update t b f s) = product s"
  "stock_movement (head_update t b f s) = stock_movement s" "stock_snapshot (head_update t b f s) = stock_snapshot s"
  "draws (head_update t b f s) = draws s" "bill_sequence (head_update t b f s) = bill_sequence s"
  by (simp_all add: head_update_def on_hand_def GetSnapshot_def)

definition set_warehouse :: "env \<Rightarrow> uuid \<Rightarrow> BillHead \<Rightarrow> BillHead" where
  "set_warehouse E w = (\<lambda>h. h\<lparr>h_WarehouseID := Some w, h_UpdatedAt := now E\<rparr>)"

definition set_approved :: "env \<Rightarrow> uuid \<Rightarrow> BillHead \<Rightarrow> BillHead" where
  "set_approved E who = (\<lambda>h. h\<lparr>h_Status := StatusApproved, h_UpdatedAt := now E, h_ApprovedAt := Some (now E),
     h_ApprovedBy := Some who\<rparr>)"

definition set_paid :: "env \<Rightarrow> rat \<Rightarrow> BillHead \<Rightarrow> BillHead" where
  "set_paid E paid = (\<lambda>h. h\<lparr>h_PaidAmount := numeric E 4 paid, h_UpdatedAt := now E\<rparr>)"

lemmas head_setters = set_warehouse_def set_approved_def set_paid_def

lemma setters_simps [simp]:
  "h_WarehouseID (set_warehouse E w h) = Some w" "h_Status (set_warehouse E w h) = h_Status h"
  "h_PaidAmount (set_warehouse E w h) = h_PaidAmount h" "h_TotalAmount (set_warehouse E w h) = h_TotalAmount h"
  "h_Revision (set_warehouse E w h) = h_Revision h"
  "h_WarehouseID (set_approved E u h) = h_WarehouseID h" "h_Status (set_approved E u h) = StatusApproved"
  "h_PaidAmount (set_approved E u h) = h_PaidAmount h" "h_TotalAmount (set_approved E u h) = h_TotalAmount h"
  "h_Revision (set_approved E u h) = h_Revision h" "h_ApprovedBy (set_approved E u h) = Some u"
  "h_WarehouseID (set_paid E a h) = h_WarehouseID h" "h_Status (set_paid E a h) = h_Status h"
  "h_PaidAmount (set_paid E a h) = numeric E 4 a" "h_TotalAmount (set_paid E a h) = h_TotalAmount h"
  "h_Revision (set_paid E a h) = h_Revision h" "h_ApprovedBy (set_paid E a h) = h_ApprovedBy h"
  by (simp_all add: head_setters)

lemma keeps_key_setters [simp]: "keeps_key (set_warehouse E w)" "keeps_key (set_approved E u)" "keeps_key (set_paid E a)"
  by (simp_all add: keeps_key_def head_ids_def head_setters)

lemma resolveApprovalWarehouse_Inr:
  assumes "resolveApprovalWarehouse E head t b s = Inr (w, s')"
  shows "h_WarehouseID head = Some w \<and> s' = s
     \<or> h_WarehouseID head = None \<and> DefaultWarehouseID t s = Some w \<and> s' = head_update t b (set_warehouse E w) s"
  using assms
  by (auto simp: resolveApprovalWarehouse_def SetBillWarehouse_def thenE_Inr head_update_def set_warehouse_def
      split: option.splits if_splits)

lemma UpdateBillStatus_approved:
  "UpdateBillStatus E t b StatusApproved (Some (now E, who)) None = modifyE (head_update t b (set_approved E who))"
  by (simp add: UpdateBillStatus_def head_update_def set_approved_def)

text \<open>A payment row and the paid amount it lifts the bill to, in this order.\<close>

lemma UpdatePaidAmount_Inr:
  "UpdatePaidAmount E t b amount s = Inr (u, s') \<longleftrightarrow>
     list_all (\<lambda>h. head_at t b h \<longrightarrow> h_PaidAmount h \<le> h_TotalAmount h) (update_where (head_at t b) (set_paid E amount) (bill_head s))
     \<and> s' = head_update t b (set_paid E amount) s"
proof -
  have f: "(\<lambda>h. h\<lparr>h_PaidAmount := numeric E 4 amount, h_UpdatedAt := now E\<rparr>) = set_paid E amount" by (simp add: set_paid_def fun_eq_iff)
  show ?thesis unfolding UpdatePaidAmount_def f paid_checked_Inr by (simp add: head_update_def)
qed

lemma UpdatePaidAmount_le_total:
  assumes "UpdatePaidAmount E t b amount s = Inr (u, s')" "find_head t b s = Some h"
  shows "numeric E 4 amount \<le> h_TotalAmount h"
proof -
  have h: "h \<in> set (bill_head s)" "head_at t b h" using find_head_key [OF assms(2)] by (auto simp: head_at_def)
  then have "set_paid E amount h \<in> set (update_where (head_at t b) (set_paid E amount) (bill_head s))"
    by (force simp: update_where_def)
  moreover have "head_at t b (set_paid E amount h)" using h(2) by (simp add: head_at_def set_paid_def)
  ultimately have "h_PaidAmount (set_paid E amount h) \<le> h_TotalAmount (set_paid E amount h)"
    using assms(1) unfolding UpdatePaidAmount_Inr list_all_iff by blast
  then show ?thesis by simp
qed

lemma payment_booked:
  assumes "Payment_Record E p s = Inr (u, s1)" "UpdatePaidAmount E t b amount s1 = Inr (v, s')" "p_ID p \<noteq> uuid_Nil"
  shows "s' = (head_update t b (set_paid E amount) s)\<lparr>payment_head := payment_head s @ [stored_payment E (p_ID p) p]\<rparr>"
    "find_head t b s = Some h \<Longrightarrow> numeric E 4 amount \<le> h_TotalAmount h"
proof -
  have s1: "s1 = s\<lparr>payment_head := payment_head s @ [stored_payment E (p_ID p) p]\<rparr>" using assms(1) unfolding Payment_Record_Inr [OF assms(3)] .
  show "s' = (head_update t b (set_paid E amount) s)\<lparr>payment_head := payment_head s @ [stored_payment E (p_ID p) p]\<rparr>"
    using assms(2) unfolding UpdatePaidAmount_Inr by (simp add: s1 head_update_def)
  show "numeric E 4 amount \<le> h_TotalAmount h" if "find_head t b s = Some h"
    by (rule UpdatePaidAmount_le_total [OF assms(2)]) (use that in \<open>simp add: s1 find_head_def\<close>)
qed

lemma recordInitialPayment_Inr:
  assumes "recordInitialPayment E head t b creator amount pm when remark s = Inr (u, s')" "runtime_env E"
  obtains p rows where "resolvePayType pm = Inr (p_PayType p)" "checkSettlementMethod pm amount = Inr ()"
    "p_TenantID p = t" "p_BillID p = b" "p_Amount p = numeric E 4 amount" "p_deleted p = False" "p_PartnerID p = h_PartnerID head"
    "list_all (\<lambda>h. head_at t b h \<longrightarrow> h_PaidAmount h \<le> h_TotalAmount h) (update_where (head_at t b) (set_paid E amount) (bill_head s))"
    "s' = (head_update t b (set_paid E amount) s)\<lparr>draws := Suc (draws s), payment_head := payment_head s @ [p]\<rparr>"
proof -
  obtain payType s1 where 1: "resolvePayType pm = Inr payType" "checkSettlementMethod pm amount = Inr ()"
    and r: "Payment_Record E (initial_payment head t b creator amount payType when remark (new_uuid E (draws s))) (s\<lparr>draws := Suc (draws s)\<rparr>) = Inr ((), s1)"
    and u: "UpdatePaidAmount E t b amount s1 = Inr ((), s')"
    using assms(1) unfolding recordInitialPayment_def guard_simps bindE_uuid_New by (auto simp: thenE_Inr)
  let ?p0 = "initial_payment head t b creator amount payType when remark (new_uuid E (draws s))"
  have nz: "p_ID ?p0 \<noteq> uuid_Nil" using runtime_env.new_uuid_not_nil [OF assms(2)] by (simp add: initial_payment_def)
  define p where "p = stored_payment E (p_ID ?p0) ?p0"
  have p: "p_PayType p = payType" "p_TenantID p = t" "p_BillID p = b" "p_Amount p = numeric E 4 amount"
      "p_deleted p = False" "p_PartnerID p = h_PartnerID head"
    by (simp_all add: p_def initial_payment_def)
  have s1: "s1 = s\<lparr>draws := Suc (draws s), payment_head := payment_head s @ [p]\<rparr>"
    using r unfolding Payment_Record_Inr [OF nz] by (simp add: p_def)
  have u': "list_all (\<lambda>h. head_at t b h \<longrightarrow> h_PaidAmount h \<le> h_TotalAmount h) (update_where (head_at t b) (set_paid E amount) (bill_head s))"
    "s' = (head_update t b (set_paid E amount) s)\<lparr>draws := Suc (draws s), payment_head := payment_head s @ [p]\<rparr>"
    using u unfolding UpdatePaidAmount_Inr by (simp_all add: s1 head_update_def)
  show ?thesis using that [of p] 1 p u' by simp
qed

section \<open>Approving a purchase\<close>

lemma approve_purchase_tx_Inr:
  assumes "approve_purchase_tx E exec req s = Inr (u, s')" "find_head (ap_TenantID req) (ap_BillID req) s = Some h"
    "h_Status h = StatusDraft"
  obtains w s1 snaps s2 where "ap_PaidAmount req \<le> h_TotalAmount h"
    "ap_AllowZeroPrice req \<or> zero_price_lines (GetBillItems (ap_TenantID req) (ap_BillID req) s) = []"
    "resolveApprovalWarehouse E (scanBillHead h) (ap_TenantID req) (ap_BillID req) s = Inr (w, s1)"
    "forE (receive_line E exec (ap_TenantID req) (ap_BillID req) w (base_rate (scanBillHead h)))
       (GetBillItems (ap_TenantID req) (ap_BillID req) s) s1 = Inr (snaps, s2)"
    "if 0 < ap_PaidAmount req
     then recordInitialPayment E (scanBillHead h) (ap_TenantID req) (ap_BillID req) (ap_ApprovedBy req) (ap_PaidAmount req)
            (ap_PayType req) (now E) [] (head_update (ap_TenantID req) (ap_BillID req) (set_approved E (ap_ApprovedBy req)) s2) = Inr ((), s')
     else s' = head_update (ap_TenantID req) (ap_BillID req) (set_approved E (ap_ApprovedBy req)) s2"
proof -
  let ?t = "ap_TenantID req" and ?b = "ap_BillID req"
  have g: "GetBillForUpdate ?t ?b s = Inr (scanBillHead h, s)" using assms(2) by (simp add: GetBillForUpdate_Inr)
  obtain w s1 where 1: "ap_PaidAmount req \<le> h_TotalAmount h"
    "ap_AllowZeroPrice req \<or> zero_price_lines (GetBillItems ?t ?b s) = []"
    "resolveApprovalWarehouse E (scanBillHead h) ?t ?b s = Inr (w, s1)"
    and k: "bindE (forE (receive_line E exec ?t ?b w (base_rate (scanBillHead h))) (GetBillItems ?t ?b s)) (\<lambda>_.
          thenE (mapErr (Wrap ''approve purchase: update status'')
                   (UpdateBillStatus E ?t ?b StatusApproved (Some (now E, ap_ApprovedBy req)) None))
          (whenE (0 < ap_PaidAmount req)
             (mapErr (Wrap ''approve purchase'')
                (recordInitialPayment E (scanBillHead h) ?t ?b (ap_ApprovedBy req) (ap_PaidAmount req) (ap_PayType req) (now E) [])))) s1
        = Inr (u, s')"
    using assms(1,3) unfolding approve_purchase_tx_def Let_def bindE_mapErr_Inr g
    by (auto simp: bindE_mapErr_Inr split: if_splits)
  obtain snaps s2 where 2: "forE (receive_line E exec ?t ?b w (base_rate (scanBillHead h))) (GetBillItems ?t ?b s) s1 = Inr (snaps, s2)"
    and k2: "thenE (mapErr (Wrap ''approve purchase: update status'')
                   (UpdateBillStatus E ?t ?b StatusApproved (Some (now E, ap_ApprovedBy req)) None))
          (whenE (0 < ap_PaidAmount req)
             (mapErr (Wrap ''approve purchase'')
                (recordInitialPayment E (scanBillHead h) ?t ?b (ap_ApprovedBy req) (ap_PaidAmount req) (ap_PayType req) (now E) []))) s2
        = Inr (u, s')"
    using k unfolding bindE_Inr by blast
  show ?thesis
    by (rule that [OF 1 2]) (use k2 in \<open>auto simp: UpdateBillStatus_approved thenE_Inr whenE_Inr split: if_splits\<close>)
qed

lemma ApprovePurchase_Inr:
  "ApprovePurchase_ExecuteWithPayment E exec payments req pre s = (Inr u, s') \<longleftrightarrow>
     approve_purchase_checks payments req = Inr ()
     \<and> (if seen_approved (ap_TenantID req) (ap_BillID req) pre
        then alreadyPaidApprovalResult (ap_PaidAmount req) = Inr () \<and> s' = s
        else approve_purchase_tx E exec req s = Inr (u, s'))"
  unfolding ApprovePurchase_ExecuteWithPayment_def runTx_Inr thenE_liftE_Inr by (auto simp: liftE_Inr)

text \<open>Every book quantity is a number of its column.\<close>

definition book_on_grid :: "db \<Rightarrow> bool" where
  "book_on_grid s \<longleftrightarrow> (\<forall>r \<in> set (stock_snapshot s). on_grid 4 (s_OnHandQty r))"

lemma on_hand_grid: "book_on_grid s \<Longrightarrow> on_grid 4 (on_hand t p w s)"
  by (auto simp: on_hand_def GetSnapshot_def book_on_grid_def split: option.split dest: find_Some_P)

text \<open>The warehouse an approval books against.\<close>

definition approval_warehouse :: "BillHead \<Rightarrow> db \<Rightarrow> uuid option" where
  "approval_warehouse h s = (case h_WarehouseID h of Some w \<Rightarrow> Some w | None \<Rightarrow> DefaultWarehouseID (h_TenantID h) s)"

lemma resolved_warehouse:
  assumes "resolveApprovalWarehouse E (scanBillHead h) t b s = Inr (w, s1)" "find_head t b s = Some h"
  obtains h1 where "approval_warehouse h s = Some w" "find_head t b s1 = Some h1" "h_WarehouseID h1 = Some w"
    "h_Revision h1 = h_Revision h" "h_Status h1 = h_Status h" "h_PaidAmount h1 = h_PaidAmount h" "h_TotalAmount h1 = h_TotalAmount h"
    "\<forall>t' b'. (t', b') \<noteq> (t, b) \<longrightarrow> find_head t' b' s1 = find_head t' b' s" "s1 = s \<or> s1 = head_update t b (set_warehouse E w) s"
proof -
  have key: "h_TenantID h = t" using find_head_key [OF assms(2)] by simp
  from resolveApprovalWarehouse_Inr [OF assms(1)] show ?thesis
  proof
    assume "h_WarehouseID (scanBillHead h) = Some w \<and> s1 = s"
    then show ?thesis using assms(2) by (intro that [of h]) (simp_all add: approval_warehouse_def)
  next
    assume "h_WarehouseID (scanBillHead h) = None \<and> DefaultWarehouseID t s = Some w \<and> s1 = head_update t b (set_warehouse E w) s"
    then show ?thesis using assms(2) key
      by (intro that [of "set_warehouse E w h"]) (auto simp: approval_warehouse_def find_head_head_update)
  qed
qed

text \<open>
  The result of an approval, from the state \<open>s2\<close> in which the goods have moved: the status is set,
  and a positive amount is booked as one payment of the bill.
\<close>

definition settled :: "env \<Rightarrow> uuid \<Rightarrow> uuid \<Rightarrow> rat \<Rightarrow> string \<Rightarrow> BillHead \<Rightarrow> db \<Rightarrow> BillHead \<Rightarrow> db \<Rightarrow> bool" where
  "settled E t b paid pm h s h' s' \<longleftrightarrow> h_Status h' = StatusApproved \<and> h_TotalAmount h' = h_TotalAmount h
     \<and> h_PaidAmount h' = (if 0 < paid then numeric E 4 paid else h_PaidAmount h)
     \<and> (if 0 < paid
        then \<exists>p. payment_head s' = payment_head s @ [p] \<and> payment_of t b p \<and> p_Amount p = numeric E 4 paid
               \<and> resolvePayType pm = Inr (p_PayType p) \<and> p_PayType p \<noteq> PayTypeCredit
        else payment_head s' = payment_head s)"

lemma settle_approval:
  assumes "runtime_env E" "find_head t b s2 = Some h"
    and "if 0 < paid then recordInitialPayment E head t b who paid pm when remark (head_update t b (set_approved E who) s2) = Inr ((), s')
         else s' = head_update t b (set_approved E who) s2"
  obtains h' where "find_head t b s' = Some h'" "settled E t b paid pm h s2 h' s'" "h_WarehouseID h' = h_WarehouseID h"
    "\<forall>t' b'. (t', b') \<noteq> (t, b) \<longrightarrow> find_head t' b' s' = find_head t' b' s2" "stock_snapshot s' = stock_snapshot s2"
    "stock_movement s' = stock_movement s2" "bill_item s' = bill_item s2" "h_Revision h' = h_Revision h" "same_ids s' s2"
    "bill_sequence s' = bill_sequence s2"
proof (cases "0 < paid")
  case False
  then have s': "s' = head_update t b (set_approved E who) s2" using assms(3) by simp
  show ?thesis
    by (rule that [of "set_approved E who h"]) (use False assms(2) in \<open>auto simp: s' find_head_head_update head_update_ids settled_def\<close>)
next
  case True
  then have "recordInitialPayment E head t b who paid pm when remark (head_update t b (set_approved E who) s2) = Inr ((), s')"
    using assms(3) by simp
  then obtain p where p: "resolvePayType pm = Inr (p_PayType p)" "checkSettlementMethod pm paid = Inr ()"
    "p_TenantID p = t" "p_BillID p = b" "p_Amount p = numeric E 4 paid" "p_deleted p = False"
    and s': "s' = (head_update t b (set_paid E paid) (head_update t b (set_approved E who) s2))
        \<lparr>draws := Suc (draws s2), payment_head := payment_head s2 @ [p]\<rparr>"
    by (rule recordInitialPayment_Inr [OF _ assms(1)]) auto
  have "p_PayType p \<noteq> PayTypeCredit"
    using p(1,2) True by (auto simp: resolvePayType_def checkSettlementMethod_def split: if_splits sum.splits)
  then show ?thesis
    by (intro that [of "set_paid E paid (set_approved E who h)"])
       (use True assms(2) p in \<open>auto simp: s' find_head_head_update head_update_ids settled_def payment_of_def\<close>)
qed

context stock_executor
begin

lemma approved_purchase:
  assumes "runtime_env E" "units_ok s" "book_on_grid s" "approve_purchase_tx E exec req s = Inr (u, s')"
    and h: "find_head (ap_TenantID req) (ap_BillID req) s = Some h" "h_Status h = StatusDraft"
    and g: "list_all (\<lambda>it. on_grid 4 (base_qty s it)) (GetBillItems (ap_TenantID req) (ap_BillID req) s)"
  obtains w h' where "approval_warehouse h s = Some w" "find_head (ap_TenantID req) (ap_BillID req) s' = Some h'"
    "h_WarehouseID h' = Some w" "settled E (ap_TenantID req) (ap_BillID req) (ap_PaidAmount req) (ap_PayType req) h s h' s'"
    "ap_PaidAmount req \<le> h_TotalAmount h"
    "\<forall>p. on_hand (ap_TenantID req) p w s' = on_hand (ap_TenantID req) p w s + moved s p (GetBillItems (ap_TenantID req) (ap_BillID req) s)"
    "\<forall>t p w'. (t, w') \<noteq> (ap_TenantID req, w) \<longrightarrow> on_hand t p w' s' = on_hand t p w' s"
    "\<forall>t b. (t, b) \<noteq> (ap_TenantID req, ap_BillID req) \<longrightarrow> find_head t b s' = find_head t b s"
    "bill_item s' = bill_item s" "h_Revision h' = h_Revision h"
proof -
  let ?t = "ap_TenantID req" and ?b = "ap_BillID req"
  let ?items = "GetBillItems ?t ?b s"
  obtain w s1 snaps s2 where paid: "ap_PaidAmount req \<le> h_TotalAmount h"
    and r: "resolveApprovalWarehouse E (scanBillHead h) ?t ?b s = Inr (w, s1)"
    and f: "forE (receive_line E exec ?t ?b w (base_rate (scanBillHead h))) ?items s1 = Inr (snaps, s2)"
    and k: "if 0 < ap_PaidAmount req
       then recordInitialPayment E (scanBillHead h) ?t ?b (ap_ApprovedBy req) (ap_PaidAmount req)
              (ap_PayType req) (now E) [] (head_update ?t ?b (set_approved E (ap_ApprovedBy req)) s2) = Inr ((), s')
       else s' = head_update ?t ?b (set_approved E (ap_ApprovedBy req)) s2"
    using assms(4) h by (rule approve_purchase_tx_Inr)
  obtain h1 where w: "approval_warehouse h s = Some w" and h1: "find_head ?t ?b s1 = Some h1" "h_WarehouseID h1 = Some w"
      "h_Revision h1 = h_Revision h" "h_Status h1 = h_Status h" "h_PaidAmount h1 = h_PaidAmount h" "h_TotalAmount h1 = h_TotalAmount h"
    and o1: "\<forall>t' b'. (t', b') \<noteq> (?t, ?b) \<longrightarrow> find_head t' b' s1 = find_head t' b' s"
    and s1: "s1 = s \<or> s1 = head_update ?t ?b (set_warehouse E w) s"
    using r h(1) by (rule resolved_warehouse)
  have same: "on_hand t p w' s1 = on_hand t p w' s" "base_qty s1 it = base_qty s it" "units_ok s1" "moved s1 p ?items = moved s p ?items"
    "payment_head s1 = payment_head s" "bill_item s1 = bill_item s" for t p w' it
    using s1 assms(2) by (auto simp: units_ok_def intro!: base_qty_frame moved_frame)
  have rec: "(\<forall>p. on_hand ?t p w s2 = on_hand ?t p w s1 + moved s1 p ?items)
    \<and> (\<forall>t' p w'. (t', w') \<noteq> (?t, w) \<longrightarrow> on_hand t' p w' s2 = on_hand t' p w' s1) \<and> beyond_stock s2 = beyond_stock s1"
    by (rule received_lines [OF assms(1) same(3) f]) (use g same on_hand_grid [OF assms(3)] in \<open>auto simp: list_all_iff\<close>)
  then have fr: "find_head t' b' s2 = find_head t' b' s1" "payment_head s2 = payment_head s1" "bill_item s2 = bill_item s1" for t' b'
    using beyond_stockD [of s2 s1] by (auto intro: find_head_eq)
  have h2: "find_head ?t ?b s2 = Some h1" using h1(1) fr(1) by simp
  obtain h' where h': "find_head ?t ?b s' = Some h'" "settled E ?t ?b (ap_PaidAmount req) (ap_PayType req) h1 s2 h' s'"
    "h_WarehouseID h' = h_WarehouseID h1"
    and o2: "\<forall>t' b'. (t', b') \<noteq> (?t, ?b) \<longrightarrow> find_head t' b' s' = find_head t' b' s2"
    and st: "stock_snapshot s' = stock_snapshot s2" "stock_movement s' = stock_movement s2" "bill_item s' = bill_item s2"
    and rv: "h_Revision h' = h_Revision h1" and ids: "same_ids s' s2" "bill_sequence s' = bill_sequence s2"
    using assms(1) h2 k by (rule settle_approval)
  have oh: "on_hand t p w' s' = on_hand t p w' s2" for t p w' using st(1) by (simp add: on_hand_def GetSnapshot_def)
  show ?thesis
  proof (rule that [OF w h'(1) _ _ paid])
    show "h_WarehouseID h' = Some w" using h'(3) h1(2) by simp
    show "settled E ?t ?b (ap_PaidAmount req) (ap_PayType req) h s h' s'"
      using h'(2) unfolding settled_def h1(5,6) fr(2) same(5) .
    show "\<forall>p. on_hand ?t p w s' = on_hand ?t p w s + moved s p ?items" using rec oh same by simp
    show "\<forall>t p w'. (t, w') \<noteq> (?t, w) \<longrightarrow> on_hand t p w' s' = on_hand t p w' s" using rec oh same by simp
    show "\<forall>t b. (t, b) \<noteq> (?t, ?b) \<longrightarrow> find_head t b s' = find_head t b s" using o1 o2 fr(1) by simp
    show "bill_item s' = bill_item s" using st(3) fr(3) same(6) by simp
    show "h_Revision h' = h_Revision h" using rv h1(3) by simp
  qed
qed

end

text \<open>
  C12: an approved purchase has moved exactly its goods and booked exactly its payment.  For either
  cost method the book of every product in the bill's warehouse (or the tenant's default one) grows
  by the quantities of its lines in base units and no other book row changes; the bill is approved,
  records that warehouse, and carries the paid amount, with one payment row of that amount when it
  is positive and none otherwise; the amount never exceeds the total, and no other bill changes.
\<close>

theorem approve_purchase_books:
  assumes "runtime_env E" "units_ok s" "book_on_grid s"
    and "find_head (ap_TenantID req) (ap_BillID req) s = Some h" "h_Status h = StatusDraft"
    and "list_all (\<lambda>it. on_grid 4 (base_qty s it)) (GetBillItems (ap_TenantID req) (ap_BillID req) s)"
    and "\<not> seen_approved (ap_TenantID req) (ap_BillID req) pre"
  shows "case ApprovePurchase_ExecuteWithPayment E (RecordMovement_ExecuteInTx E (executor_of E profile outbox)) payments req pre s of
      (Inl e, s') \<Rightarrow> s' = s
    | (Inr _, s') \<Rightarrow> \<exists>w h'. approval_warehouse h s = Some w
        \<and> find_head (ap_TenantID req) (ap_BillID req) s' = Some h' \<and> h_WarehouseID h' = Some w
        \<and> settled E (ap_TenantID req) (ap_BillID req) (ap_PaidAmount req) (ap_PayType req) h s h' s'
        \<and> ap_PaidAmount req \<le> h_TotalAmount h
        \<and> (\<forall>p. on_hand (ap_TenantID req) p w s' = on_hand (ap_TenantID req) p w s
              + moved s p (GetBillItems (ap_TenantID req) (ap_BillID req) s))
        \<and> (\<forall>t p w'. (t, w') \<noteq> (ap_TenantID req, w) \<longrightarrow> on_hand t p w' s' = on_hand t p w' s)
        \<and> (\<forall>t b. (t, b) \<noteq> (ap_TenantID req, ap_BillID req) \<longrightarrow> find_head t b s' = find_head t b s)"
proof -
  let ?exec = "RecordMovement_ExecuteInTx E (executor_of E profile outbox)"
  obtain r s' where r: "ApprovePurchase_ExecuteWithPayment E ?exec payments req pre s = (r, s')" by force
  show ?thesis
  proof (cases r)
    case (Inl e)
    have "s' = s" by (rule runTx_atomic) (rule r [unfolded ApprovePurchase_ExecuteWithPayment_def Inl])
    then show ?thesis using r Inl by simp
  next
    case (Inr u)
    then have tx: "approve_purchase_tx E ?exec req s = Inr (u, s')"
      using r assms(7) unfolding Inr ApprovePurchase_Inr by simp
    show ?thesis unfolding r Inr
      by (rule new_exec.approved_purchase [OF assms(1-3) tx assms(4-6)]) auto
  qed
qed

section \<open>Repeating an approval\<close>

lemma bindE_mapErr_returns: "m s = Inr (a, s1) \<Longrightarrow> bindE (mapErr w m) k s = k a s1"
  by (simp add: bindE_def mapErr_def)

lemma approve_purchase_tx_again:
  assumes "find_head (ap_TenantID req) (ap_BillID req) s = Some h" "h_Status h = StatusApproved"
  shows "approve_purchase_tx E exec req s = liftE (alreadyPaidApprovalResult (ap_PaidAmount req)) s"
proof -
  have "GetBillForUpdate (ap_TenantID req) (ap_BillID req) s = Inr (scanBillHead h, s)" using assms(1) by (simp add: GetBillForUpdate_Inr)
  then show ?thesis using assms(2) unfolding approve_purchase_tx_def Let_def by (simp add: bindE_mapErr_returns)
qed

lemma approve_sale_tx_again:
  assumes "find_head (as_TenantID req) (as_BillID req) s = Some h" "h_Status h = StatusApproved"
  shows "ApproveSale_executeInTx E exec req s = thenE (liftE (alreadyApprovedResult req)) (returnE []) s"
proof -
  have "GetBillForUpdate (as_TenantID req) (as_BillID req) s = Inr (scanBillHead h, s)" using assms(1) by (simp add: GetBillForUpdate_Inr)
  then show ?thesis using assms(2) unfolding ApproveSale_executeInTx_def Let_def by (simp add: bindE_mapErr_returns)
qed

text \<open>
  An approval happens once.  When the bill is already approved, a purchase or a sale approval
  changes nothing whatever the unlocked look saw: a repeat is answered with success, a repeat that
  carries a payment with \<open>ErrBillAlreadyApproved\<close>, so no payment is silently dropped.
\<close>

theorem approval_happens_once:
  assumes "find_head t b s = Some h" "h_Status h = StatusApproved"
    and "ap_TenantID preq = t" "ap_BillID preq = b" "approve_purchase_checks payments preq = Inr ()"
    and "as_TenantID sreq = t" "as_BillID sreq = b" "t \<noteq> uuid_Nil" "b \<noteq> uuid_Nil" "0 \<le> as_PaidAmount sreq"
    and "resolvePayType (as_PayType sreq) = Inr pt"
  shows "ApprovePurchase_ExecuteWithPayment E exec payments preq pre s
           = (if 0 < ap_PaidAmount preq then Inl ErrBillAlreadyApproved else Inr (), s)
       \<and> ApproveSale_Execute E exec sreq pre s = (if 0 < as_PaidAmount sreq then Inl ErrBillAlreadyApproved else Inr [], s)"
proof
  note p = approve_purchase_tx_again [of preq, unfolded assms(3,4), OF assms(1,2)]
    and q = approve_sale_tx_again [of sreq, unfolded assms(6,7), OF assms(1,2)]
  show "ApprovePurchase_ExecuteWithPayment E exec payments preq pre s
           = (if 0 < ap_PaidAmount preq then Inl ErrBillAlreadyApproved else Inr (), s)"
    by (simp add: ApprovePurchase_ExecuteWithPayment_def assms(3-5) runTx_def thenE_def p alreadyPaidApprovalResult_def)
  show "ApproveSale_Execute E exec sreq pre s = (if 0 < as_PaidAmount sreq then Inl ErrBillAlreadyApproved else Inr [], s)"
    using assms(8-10)
    by (simp add: ApproveSale_Execute_def assms(6,7,11) runTx_def thenE_def q alreadyApprovedResult_def returnE_def)
qed

section \<open>Shipping goods\<close>

lemma shipment_request_simps [simp]:
  "r_TenantID (shipment_request req w item conv) = as_TenantID req" "r_ProductID (shipment_request req w item conv) = it_ProductID item"
  "r_WarehouseID (shipment_request req w item conv) = w" "r_Direction (shipment_request req w item conv) = DirectionOut"
  "r_Qty (shipment_request req w item conv) = it_Qty item" "r_ConvFactor (shipment_request req w item conv) = conv"
  "r_AllowNegative (shipment_request req w item conv) = as_AllowNegative req"
  by (simp_all add: shipment_request_def)

text \<open>The database without what shipping a line writes: stock, events, and the cost on the line.\<close>

definition beyond_sale :: "db \<Rightarrow> db" where
  "beyond_sale s = (beyond_stock s)\<lparr>bill_item := []\<rparr>"

lemma beyond_saleD:
  assumes "beyond_sale s' = beyond_sale s"
  shows "bill_head s' = bill_head s" "payment_head s' = payment_head s" "product s' = product s" "product_unit s' = product_unit s"
    "bill_sequence s' = bill_sequence s" "warehouse s' = warehouse s" "audit_log s' = audit_log s"
  using assms by (cases s; cases s'; simp add: beyond_sale_def beyond_stock_def non_stock_def)+

lemma UpdateItemPurchasePrice_Inr:
  "UpdateItemPurchasePrice E t i c s = Inr (u, s') \<Longrightarrow>
     stock_snapshot s' = stock_snapshot s \<and> stock_movement s' = stock_movement s \<and> beyond_sale s' = beyond_sale s
     \<and> map (\<lambda>it. it\<lparr>it_purchase_price := 0\<rparr>) (bill_item s') = map (\<lambda>it. it\<lparr>it_purchase_price := 0\<rparr>) (bill_item s)
     \<and> draws s' = draws s"
  by (auto simp: UpdateItemPurchasePrice_def beyond_sale_def beyond_stock_def non_stock_def update_where_def)

lemma ship_line_cases:
  assumes "ship_line E exec req w item s = Inr (l, s')"
  obtains (shipped) conv f snap s1 where "line_factor E item s = Inr (conv, f)" "exec (shipment_request req w item conv) s = Inr (snap, s1)"
      "UpdateItemPurchasePrice E (as_TenantID req) (it_ID item) (s_UnitCost snap) s1 = Inr ((), s')"
      "l = Shipped (if as_AllowNegative req \<and> s_OnHandQty snap < 0 then Some (it_ProductID item, s_OnHandQty snap) else None)"
  | (short) conv f e x y z where "line_factor E item s = Inr (conv, f)" "exec (shipment_request req w item conv) s = Inl e"
      "errors_unwrap e = InsufficientStockError x y z" "l = LineShort (x, y, z)" "s' = s"
proof -
  obtain conv f where lf: "line_factor E item s = Inr (conv, f)"
    and k: "(case exec (shipment_request req w item conv) s of
       Inl e \<Rightarrow>
         (case errors_unwrap e of
            InsufficientStockError p avail need \<Rightarrow> Inr (LineShort (p, avail, need), s)
          | _ \<Rightarrow> Inl (Wrap ''approve sale: record movement for item'' e))
     | Inr (snap, s') \<Rightarrow>
         thenE (mapErr (Wrap ''approve sale: persist purchase_price'')
                  (UpdateItemPurchasePrice E (as_TenantID req) (it_ID item) (s_UnitCost snap)))
         (returnE (Shipped (if as_AllowNegative req \<and> s_OnHandQty snap < 0
                            then Some (it_ProductID item, s_OnHandQty snap) else None))) s') = Inr (l, s')"
    using assms unfolding ship_line_def bindE_mapErr_Inr queryE_Inr by auto
  show ?thesis
  proof (cases "exec (shipment_request req w item conv) s")
    case (Inl e)
    then obtain x y z where "errors_unwrap e = InsufficientStockError x y z" "l = LineShort (x, y, z)" "s' = s"
      using k by (cases "errors_unwrap e") simp_all
    then show ?thesis using short [OF lf Inl] by blast
  next
    case (Inr r)
    obtain snap s1 where r: "r = (snap, s1)" by force
    have "UpdateItemPurchasePrice E (as_TenantID req) (it_ID item) (s_UnitCost snap) s1 = Inr ((), s')"
      "l = Shipped (if as_AllowNegative req \<and> s_OnHandQty snap < 0 then Some (it_ProductID item, s_OnHandQty snap) else None)"
      using k by (auto simp: Inr r thenE_Inr)
    then show ?thesis using shipped [OF lf Inr [unfolded r]] by blast
  qed
qed

lemma ship_line_shipped:
  assumes "ship_line E exec req w item s = Inr (l, s')" "shortages [l] = []"
  obtains conv f snap s1 where "line_factor E item s = Inr (conv, f)" "exec (shipment_request req w item conv) s = Inr (snap, s1)"
      "UpdateItemPurchasePrice E (as_TenantID req) (it_ID item) (s_UnitCost snap) s1 = Inr ((), s')"
      "l = Shipped (if as_AllowNegative req \<and> s_OnHandQty snap < 0 then Some (it_ProductID item, s_OnHandQty snap) else None)"
  using assms(1)
proof (cases rule: ship_line_cases)
  case (shipped conv f snap s1)
  then show ?thesis by (rule that)
next
  case (short conv f e x y z)
  then show ?thesis using assms(2) by (simp add: shortages_def)
qed

lemma shortages_Cons: "shortages (l # ls) = (case l of LineShort x \<Rightarrow> x # shortages ls | Shipped _ \<Rightarrow> shortages ls)"
  by (simp add: shortages_def split: SaleLine.split)

text \<open>Lines up to the cost recorded on them.\<close>

abbreviation lines_of :: "db \<Rightarrow> BillItem list" where
  "lines_of s \<equiv> map (\<lambda>it. it\<lparr>it_purchase_price := 0\<rparr>) (bill_item s)"

lemma base_qty_sale_frame: "beyond_sale s' = beyond_sale s \<Longrightarrow> base_qty s' it = base_qty s it"
  by (rule base_qty_frame) (erule beyond_saleD)+

context stock_executor
begin

lemma shipped_line:
  assumes "runtime_env E" "units_ok s" "ship_line E exec req w item s = Inr (l, s')" "shortages [l] = []"
    and "on_grid 4 (base_qty s item)" "on_grid 4 (on_hand (as_TenantID req) (it_ProductID item) w s)"
  defines "t \<equiv> as_TenantID req"
  shows "on_hand t p w s' = on_hand t p w s - (if it_ProductID item = p then base_qty s item else 0)"
    "(t', w') \<noteq> (t, w) \<Longrightarrow> on_hand t' p w' s' = on_hand t' p w' s" "beyond_sale s' = beyond_sale s" "lines_of s' = lines_of s"
    "\<not> as_AllowNegative req \<Longrightarrow> base_qty s item \<le> on_hand t (it_ProductID item) w s"
    "negatives [l] = (if as_AllowNegative req \<and> on_hand t (it_ProductID item) w s' < 0
                       then [(it_ProductID item, on_hand t (it_ProductID item) w s')] else [])"
proof -
  obtain conv f snap s1 where shipped: "line_factor E item s = Inr (conv, f)" "exec (shipment_request req w item conv) s = Inr (snap, s1)"
      "UpdateItemPurchasePrice E (as_TenantID req) (it_ID item) (s_UnitCost snap) s1 = Inr ((), s')"
      "l = Shipped (if as_AllowNegative req \<and> s_OnHandQty snap < 0 then Some (it_ProductID item, s_OnHandQty snap) else None)"
    using assms(3,4) by (rule ship_line_shipped)
  let ?r = "shipment_request req w item conv"
  note x = shipped(2) and u = UpdateItemPurchasePrice_Inr [OF shipped(3)]
  obtain q where c: "check_request E [] ?r = Inr q" using exec_qty [OF x] by blast
  have q: "q = base_qty s item" using check_request_qty [OF c] convert_line [OF assms(1,2) shipped(1)] by simp
  have snap: "on_hand t' p w' s' = on_hand t' p w' s1" for t' p w' using u by (simp add: on_hand_def GetSnapshot_def)
  have other: "(t', p, w') \<noteq> (t, it_ProductID item, w) \<Longrightarrow> on_hand t' p w' s' = on_hand t' p w' s" for t' p w'
    using exec_other [OF x, of t' p w'] snap by (auto simp: on_hand_def t_def)
  then show "(t', w') \<noteq> (t, w) \<Longrightarrow> on_hand t' p w' s' = on_hand t' p w' s" by auto
  note bk = exec_book [OF x c, unfolded q]
  have sn: "s_OnHandQty snap = on_hand t (it_ProductID item) w s - base_qty s item"
    using bk by (simp add: request_delta.simps t_def)
  have g: "on_grid 4 (on_hand t (it_ProductID item) w s - base_qty s item)" using assms(5,6) t_def by auto
  have "on_hand t (it_ProductID item) w s' = numeric E 4 (on_hand t (it_ProductID item) w s - base_qty s item)"
    using bk snap sn by (simp add: t_def)
  then have oh: "on_hand t (it_ProductID item) w s' = on_hand t (it_ProductID item) w s - base_qty s item"
    using numeric_fix [OF assms(1) g] by simp
  then show "on_hand t p w s' = on_hand t p w s - (if it_ProductID item = p then base_qty s item else 0)"
    using other [of t p w] by auto
  show "beyond_sale s' = beyond_sale s" using exec_frame [OF x] u by (simp add: beyond_sale_def)
  show "lines_of s' = lines_of s" using u beyond_stockD(2) [OF exec_frame [OF x]] by simp
  show "\<not> as_AllowNegative req \<Longrightarrow> base_qty s item \<le> on_hand t (it_ProductID item) w s"
    using bk by (auto simp: request_short_def t_def)
  show "negatives [l] = (if as_AllowNegative req \<and> on_hand t (it_ProductID item) w s' < 0
                       then [(it_ProductID item, on_hand t (it_ProductID item) w s')] else [])"
    using shipped(4) sn oh by (simp add: negatives_def)
qed

lemma shipped_lines:
  assumes "runtime_env E" "units_ok s" "forE (ship_line E exec req w) items s = Inr (ls, s')" "shortages ls = []"
    and "\<And>it. it \<in> set items \<Longrightarrow> on_grid 4 (base_qty s it)" "\<And>p. on_grid 4 (on_hand (as_TenantID req) p w s)"
  defines "t \<equiv> as_TenantID req"
  shows "(\<forall>p. on_hand t p w s' = on_hand t p w s - moved s p items)
    \<and> (\<forall>t' p w'. (t', w') \<noteq> (t, w) \<longrightarrow> on_hand t' p w' s' = on_hand t' p w' s)
    \<and> beyond_sale s' = beyond_sale s \<and> lines_of s' = lines_of s
    \<and> (\<forall>p. \<not> as_AllowNegative req \<longrightarrow> p \<in> it_ProductID ` set items \<longrightarrow> 0 \<le> on_hand t p w s')"
  using assms(2-6)
proof (induction items arbitrary: s ls)
  case Nil
  then show ?case by (simp add: moved_def)
next
  case (Cons it items)
  obtain l s1 ls' where l: "ship_line E exec req w it s = Inr (l, s1)" and r: "forE (ship_line E exec req w) items s1 = Inr (ls', s')"
    and ls: "ls = l # ls'" using Cons.prems(2) unfolding forE_Cons_Inr by blast
  have sh: "shortages [l] = []" "shortages ls' = []"
    using Cons.prems(3) by (auto simp: ls shortages_def)
  have g: "on_grid 4 (base_qty s it)" using Cons.prems(4) by simp
  note one = shipped_line [OF assms(1) Cons.prems(1) l sh(1) g Cons.prems(5), folded t_def]
  note fr = beyond_saleD(4,3) [OF one(3)]
  have IH: "(\<forall>p. on_hand t p w s' = on_hand t p w s1 - moved s1 p items)
    \<and> (\<forall>t' p w'. (t', w') \<noteq> (t, w) \<longrightarrow> on_hand t' p w' s' = on_hand t' p w' s1)
    \<and> beyond_sale s' = beyond_sale s1 \<and> lines_of s' = lines_of s1
    \<and> (\<forall>p. \<not> as_AllowNegative req \<longrightarrow> p \<in> it_ProductID ` set items \<longrightarrow> 0 \<le> on_hand t p w s')"
  proof (rule Cons.IH [OF _ r sh(2)])
    show "units_ok s1" using Cons.prems(1) units_ok_frame [OF fr(1)] by simp
    show "on_grid 4 (base_qty s1 x)" if "x \<in> set items" for x
      using Cons.prems(4) that base_qty_sale_frame [OF one(3)] by simp
    show "on_grid 4 (on_hand (as_TenantID req) p w s1)" for p
      using one(1) [of p] Cons.prems(5) [of p] g by (auto simp: t_def)
  qed
  have nn: "0 \<le> on_hand t p w s'" if "\<not> as_AllowNegative req" "p \<in> it_ProductID ` set (it # items)" for p
  proof (cases "p \<in> it_ProductID ` set items")
    case True
    then show ?thesis using IH that(1) by blast
  next
    case False
    then have p: "p = it_ProductID it" using that(2) by auto
    have "filter (\<lambda>i. it_ProductID i = p) items = []" using False by (auto simp: filter_empty_conv)
    then have "moved s1 p items = 0" by (simp add: moved_def)
    then show ?thesis using IH one(1) [of p] one(5) [OF that(1)] p by simp
  qed
  then show ?case using IH one(1-4) moved_frame [OF fr] by (auto simp: moved_Cons)
qed

end

section \<open>Approving a sale\<close>

lemma close_sale_Inr:
  "close_sale E req head s = Inr (u, s') \<longleftrightarrow>
    (if 0 < as_PaidAmount req
     then recordInitialPayment E head (as_TenantID req) (as_BillID req) (as_CreatorID req) (as_PaidAmount req) (as_PayType req)
            (if as_OccurredAt req = 0 then now E else as_OccurredAt req) (as_PaymentRemark req)
            (head_update (as_TenantID req) (as_BillID req) (set_approved E (as_CreatorID req)) s) = Inr ((), s')
     else s' = head_update (as_TenantID req) (as_BillID req) (set_approved E (as_CreatorID req)) s)"
  by (auto simp: close_sale_def UpdateBillStatus_approved thenE_Inr whenE_Inr)

lemma approve_sale_tx_Inr:
  assumes "ApproveSale_executeInTx E exec req s = Inr (notes, s')" "find_head (as_TenantID req) (as_BillID req) s = Some h"
    "h_Status h = StatusDraft"
  obtains w s1 ls s2 where "0 \<le> as_PaidAmount req" "as_PaidAmount req \<le> h_TotalAmount h"
    "resolveApprovalWarehouse E (scanBillHead h) (as_TenantID req) (as_BillID req) s = Inr (w, s1)"
    "forE (ship_line E exec req w) (GetBillItems (as_TenantID req) (as_BillID req) s) s1 = Inr (ls, s2)"
    "shortages ls = []" "close_sale E req (scanBillHead h) s2 = Inr ((), s')" "notes = negatives ls"
proof -
  let ?t = "as_TenantID req" and ?b = "as_BillID req"
  have g: "GetBillForUpdate ?t ?b s = Inr (scanBillHead h, s)" using assms(2) by (simp add: GetBillForUpdate_Inr)
  obtain w s1 where 1: "0 \<le> as_PaidAmount req" "as_PaidAmount req \<le> h_TotalAmount h"
    "resolveApprovalWarehouse E (scanBillHead h) ?t ?b s = Inr (w, s1)"
    and k: "bindE (forE (ship_line E exec req w) (GetBillItems ?t ?b s)) (\<lambda>ls.
        if shortages ls \<noteq> [] then failE (BatchInsufficientStockError (shortages ls))
        else thenE (close_sale E req (scanBillHead h)) (returnE (negatives ls))) s1 = Inr (notes, s')"
    using assms(1,3) unfolding ApproveSale_executeInTx_def Let_def bindE_mapErr_Inr g
    by (auto simp: bindE_mapErr_Inr split: if_splits)
  obtain ls s2 where 2: "forE (ship_line E exec req w) (GetBillItems ?t ?b s) s1 = Inr (ls, s2)"
    and k2: "(if shortages ls \<noteq> [] then failE (BatchInsufficientStockError (shortages ls))
        else thenE (close_sale E req (scanBillHead h)) (returnE (negatives ls))) s2 = Inr (notes, s')"
    using k unfolding bindE_Inr by blast
  show ?thesis by (rule that [OF 1 2]) (use k2 in \<open>auto simp: thenE_Inr split: if_splits\<close>)
qed

context stock_executor
begin

lemma approved_sale:
  assumes "runtime_env E" "units_ok s" "book_on_grid s" "ApproveSale_executeInTx E exec req s = Inr (notes, s')"
    and h: "find_head (as_TenantID req) (as_BillID req) s = Some h" "h_Status h = StatusDraft"
    and g: "list_all (\<lambda>it. on_grid 4 (base_qty s it)) (GetBillItems (as_TenantID req) (as_BillID req) s)"
  obtains w h' where "approval_warehouse h s = Some w" "find_head (as_TenantID req) (as_BillID req) s' = Some h'"
    "h_WarehouseID h' = Some w" "settled E (as_TenantID req) (as_BillID req) (as_PaidAmount req) (as_PayType req) h s h' s'"
    "as_PaidAmount req \<le> h_TotalAmount h"
    "\<forall>p. on_hand (as_TenantID req) p w s' = on_hand (as_TenantID req) p w s - moved s p (GetBillItems (as_TenantID req) (as_BillID req) s)"
    "\<forall>t p w'. (t, w') \<noteq> (as_TenantID req, w) \<longrightarrow> on_hand t p w' s' = on_hand t p w' s"
    "\<forall>t b. (t, b) \<noteq> (as_TenantID req, as_BillID req) \<longrightarrow> find_head t b s' = find_head t b s"
    "lines_of s' = lines_of s" "h_Revision h' = h_Revision h" "same_ids s' s" "bill_sequence s' = bill_sequence s"
    "\<not> as_AllowNegative req \<longrightarrow> list_all (\<lambda>it. 0 \<le> on_hand (as_TenantID req) (it_ProductID it) w s') (GetBillItems (as_TenantID req) (as_BillID req) s)"
proof -
  let ?t = "as_TenantID req" and ?b = "as_BillID req"
  let ?items = "GetBillItems ?t ?b s"
  obtain w s1 ls s2 where paid: "0 \<le> as_PaidAmount req" "as_PaidAmount req \<le> h_TotalAmount h"
    and r: "resolveApprovalWarehouse E (scanBillHead h) ?t ?b s = Inr (w, s1)"
    and f: "forE (ship_line E exec req w) ?items s1 = Inr (ls, s2)" and sh: "shortages ls = []"
    and k: "close_sale E req (scanBillHead h) s2 = Inr ((), s')" "notes = negatives ls"
    using assms(4) h by (rule approve_sale_tx_Inr)
  obtain h1 where w: "approval_warehouse h s = Some w" and h1: "find_head ?t ?b s1 = Some h1" "h_WarehouseID h1 = Some w"
      "h_Revision h1 = h_Revision h" "h_Status h1 = h_Status h" "h_PaidAmount h1 = h_PaidAmount h" "h_TotalAmount h1 = h_TotalAmount h"
    and o1: "\<forall>t' b'. (t', b') \<noteq> (?t, ?b) \<longrightarrow> find_head t' b' s1 = find_head t' b' s"
    and s1: "s1 = s \<or> s1 = head_update ?t ?b (set_warehouse E w) s"
    using r h(1) by (rule resolved_warehouse)
  have same: "on_hand t p w' s1 = on_hand t p w' s" "base_qty s1 it = base_qty s it" "units_ok s1" "moved s1 p ?items = moved s p ?items"
    "payment_head s1 = payment_head s" "bill_item s1 = bill_item s" for t p w' it
    using s1 assms(2) by (auto simp: units_ok_def intro!: base_qty_frame moved_frame)
  have rec: "(\<forall>p. on_hand ?t p w s2 = on_hand ?t p w s1 - moved s1 p ?items)
    \<and> (\<forall>t' p w'. (t', w') \<noteq> (?t, w) \<longrightarrow> on_hand t' p w' s2 = on_hand t' p w' s1)
    \<and> beyond_sale s2 = beyond_sale s1 \<and> lines_of s2 = lines_of s1
    \<and> (\<forall>p. \<not> as_AllowNegative req \<longrightarrow> p \<in> it_ProductID ` set ?items \<longrightarrow> 0 \<le> on_hand ?t p w s2)"
    by (rule shipped_lines [OF assms(1) same(3) f sh]) (use g same on_hand_grid [OF assms(3)] in \<open>auto simp: list_all_iff\<close>)
  then have fr: "find_head t' b' s2 = find_head t' b' s1" "payment_head s2 = payment_head s1" for t' b'
    using beyond_saleD [of s2 s1] by (auto intro: find_head_eq)
  have h2: "find_head ?t ?b s2 = Some h1" using h1(1) fr(1) by simp
  obtain h' where h': "find_head ?t ?b s' = Some h'" "settled E ?t ?b (as_PaidAmount req) (as_PayType req) h1 s2 h' s'"
    "h_WarehouseID h' = h_WarehouseID h1"
    and o2: "\<forall>t' b'. (t', b') \<noteq> (?t, ?b) \<longrightarrow> find_head t' b' s' = find_head t' b' s2"
    and st: "stock_snapshot s' = stock_snapshot s2" "stock_movement s' = stock_movement s2" "bill_item s' = bill_item s2"
    and rv: "h_Revision h' = h_Revision h1" and ids: "same_ids s' s2" "bill_sequence s' = bill_sequence s2"
    using assms(1) h2 k(1) [unfolded close_sale_Inr] by (rule settle_approval)
  have oh: "on_hand t p w' s' = on_hand t p w' s2" for t p w' using st(1) by (simp add: on_hand_def GetSnapshot_def)
  show ?thesis
  proof (rule that [OF w h'(1) _ _ paid(2)])
    show "h_WarehouseID h' = Some w" using h'(3) h1(2) by simp
    show "settled E ?t ?b (as_PaidAmount req) (as_PayType req) h s h' s'"
      using h'(2) unfolding settled_def h1(5,6) fr(2) same(5) .
    show "\<forall>p. on_hand ?t p w s' = on_hand ?t p w s - moved s p ?items" using rec oh same by simp
    show "\<forall>t p w'. (t, w') \<noteq> (?t, w) \<longrightarrow> on_hand t p w' s' = on_hand t p w' s" using rec oh same by simp
    show "\<forall>t b. (t, b) \<noteq> (?t, ?b) \<longrightarrow> find_head t b s' = find_head t b s" using o1 o2 fr(1) by simp
    show "lines_of s' = lines_of s" using st(3) rec same(6) by simp
    show "h_Revision h' = h_Revision h" using rv h1(3) by simp
    show "bill_sequence s' = bill_sequence s" using ids(2) s1 rec beyond_saleD [of s2 s1] by auto
    show "same_ids s' s" using ids(1) s1 rec beyond_saleD [of s2 s1] head_update_ids [of "set_warehouse E w" ?t ?b s] by auto
    show "\<not> as_AllowNegative req \<longrightarrow> list_all (\<lambda>it. 0 \<le> on_hand ?t (it_ProductID it) w s') ?items"
      unfolding list_all_iff oh using rec by blast
  qed
qed

end

lemma ApproveSale_Inr:
  "ApproveSale_Execute E exec req pre s = (Inr notes, s') \<longleftrightarrow>
     as_TenantID req \<noteq> uuid_Nil \<and> as_BillID req \<noteq> uuid_Nil \<and> 0 \<le> as_PaidAmount req
     \<and> (\<exists>pt. resolvePayType (as_PayType req) = Inr pt)
     \<and> (if seen_approved (as_TenantID req) (as_BillID req) pre
        then alreadyApprovedResult req = Inr () \<and> notes = [] \<and> s' = s
        else ApproveSale_executeInTx E exec req s = Inr (notes, s'))"
  unfolding ApproveSale_Execute_def runTx_Inr by (auto simp: bindE_liftE_Inr thenE_liftE_Inr)

text \<open>
  C11: an approved sale has shipped exactly its goods and booked exactly its payment.  The book of
  every product in the bill's warehouse shrinks by the quantities of its lines in base units and no
  other book row changes; unless the offline exception is on, no product of the bill ends below
  zero; the bill is approved, with one payment row of the paid amount when it is positive; the
  amount never exceeds the total; and a failed approval leaves the database unchanged.
\<close>

theorem approve_sale_books:
  assumes "runtime_env E" "units_ok s" "book_on_grid s"
    and "find_head (as_TenantID req) (as_BillID req) s = Some h" "h_Status h = StatusDraft"
    and "list_all (\<lambda>it. on_grid 4 (base_qty s it)) (GetBillItems (as_TenantID req) (as_BillID req) s)"
    and "\<not> seen_approved (as_TenantID req) (as_BillID req) pre"
  shows "case ApproveSale_Execute E (RecordMovement_ExecuteInTx E (executor_of E profile outbox)) req pre s of
      (Inl e, s') \<Rightarrow> s' = s
    | (Inr notes, s') \<Rightarrow> \<exists>w h'. approval_warehouse h s = Some w
        \<and> find_head (as_TenantID req) (as_BillID req) s' = Some h' \<and> h_WarehouseID h' = Some w
        \<and> settled E (as_TenantID req) (as_BillID req) (as_PaidAmount req) (as_PayType req) h s h' s'
        \<and> as_PaidAmount req \<le> h_TotalAmount h
        \<and> (\<forall>p. on_hand (as_TenantID req) p w s' = on_hand (as_TenantID req) p w s
              - moved s p (GetBillItems (as_TenantID req) (as_BillID req) s))
        \<and> (\<forall>t p w'. (t, w') \<noteq> (as_TenantID req, w) \<longrightarrow> on_hand t p w' s' = on_hand t p w' s)
        \<and> (\<forall>t b. (t, b) \<noteq> (as_TenantID req, as_BillID req) \<longrightarrow> find_head t b s' = find_head t b s)
        \<and> (\<not> as_AllowNegative req \<longrightarrow>
            list_all (\<lambda>it. 0 \<le> on_hand (as_TenantID req) (it_ProductID it) w s') (GetBillItems (as_TenantID req) (as_BillID req) s))"
proof -
  let ?exec = "RecordMovement_ExecuteInTx E (executor_of E profile outbox)"
  obtain r s' where r: "ApproveSale_Execute E ?exec req pre s = (r, s')" by force
  show ?thesis
  proof (cases r)
    case (Inl e)
    have "s' = s" by (rule runTx_atomic) (rule r [unfolded ApproveSale_Execute_def Inl])
    then show ?thesis using r Inl by simp
  next
    case (Inr ns)
    then have tx: "ApproveSale_executeInTx E ?exec req s = Inr (ns, s')"
      using r assms(7) unfolding Inr ApproveSale_Inr by simp
    show ?thesis unfolding r Inr
      by (rule new_exec.approved_sale [OF assms(1-3) tx assms(4-6)]) auto
  qed
qed

section \<open>Shortages\<close>

text \<open>
  The specification of the shortage list: walk the lines with what is available of each product; a
  line that does not fit is reported with the quantity then available, one that fits is taken off.
\<close>

fun short_of :: "(uuid \<Rightarrow> rat) \<Rightarrow> (uuid \<times> rat) list \<Rightarrow> (uuid \<times> rat) list" where
  "short_of av [] = []"
| "short_of av ((p, q) # ls) = (if av p < q then (p, av p) # short_of av ls else short_of (av(p := av p - q)) ls)"

definition wanted :: "db \<Rightarrow> BillItem list \<Rightarrow> (uuid \<times> rat) list" where
  "wanted s items = map (\<lambda>it. (it_ProductID it, base_qty s it)) items"

context stock_executor
begin

lemma short_line:
  assumes "runtime_env E" "units_ok s" "ship_line E exec req w item s = Inr (LineShort (x, y, z), s')" "\<not> as_AllowNegative req"
  shows "s' = s" "x = it_ProductID item" "y = on_hand (as_TenantID req) (it_ProductID item) w s" "y < base_qty s item"
proof -
  obtain conv f e where l: "line_factor E item s = Inr (conv, f)" and e: "exec (shipment_request req w item conv) s = Inl e"
    and u: "errors_unwrap e = InsufficientStockError x y z" and s': "s' = s"
    using assms(3) by (cases rule: ship_line_cases) auto
  let ?r = "shipment_request req w item conv"
  obtain q where c: "check_request E [] ?r = Inr q" and sh: "request_short ?r q (req_book ?r s)"
    using exec_only_short [OF e u] by auto
  have q: "q = base_qty s item" using check_request_qty [OF c] convert_line [OF assms(1,2) l] by simp
  have xy: "x = it_ProductID item \<and> y = on_hand (as_TenantID req) (it_ProductID item) w s"
    using exec_short [OF c sh] e u by auto
  then show "s' = s" "x = it_ProductID item" "y = on_hand (as_TenantID req) (it_ProductID item) w s" using s' by auto
  show "y < base_qty s item" using sh xy assms(4) by (simp add: request_short_def q)
qed

lemma shortages_spec:
  assumes "runtime_env E" "units_ok s" "\<not> as_AllowNegative req" "forE (ship_line E exec req w) items s = Inr (ls, s')"
    and "\<And>it. it \<in> set items \<Longrightarrow> on_grid 4 (base_qty s it)" "\<And>p. on_grid 4 (on_hand (as_TenantID req) p w s)"
  shows "map (\<lambda>(p, a, r). (p, a)) (shortages ls) = short_of (\<lambda>p. on_hand (as_TenantID req) p w s) (wanted s items)"
  using assms(2,4-)
proof (induction items arbitrary: s ls)
  case Nil
  then show ?case by (simp add: wanted_def shortages_def)
next
  case (Cons it items)
  obtain l s1 ls' where l: "ship_line E exec req w it s = Inr (l, s1)" and r: "forE (ship_line E exec req w) items s1 = Inr (ls', s')"
    and ls: "ls = l # ls'" using Cons.prems(2) unfolding forE_Cons_Inr by blast
  have g: "on_grid 4 (base_qty s it)" using Cons.prems(3) by simp
  have w: "wanted s (it # items) = (it_ProductID it, base_qty s it) # wanted s items" by (simp add: wanted_def)
  show ?case
  proof (cases l)
    case (LineShort xyz)
    obtain x y z where xyz: "xyz = (x, y, z)" by (metis surj_pair)
    note sl = short_line [OF assms(1) Cons.prems(1) l [unfolded LineShort xyz] assms(3)]
    have "map (\<lambda>(p, a, r). (p, a)) (shortages ls') = short_of (\<lambda>p. on_hand (as_TenantID req) p w s) (wanted s items)"
      by (rule Cons.IH [OF Cons.prems(1) r [unfolded sl(1)]]) (use Cons.prems(3,4) in auto)
    then show ?thesis using sl(2-4) by (simp add: ls LineShort xyz shortages_Cons w)
  next
    case (Shipped note1)
    then have sh: "shortages [l] = []" by (simp add: shortages_def)
    note one = shipped_line [OF assms(1) Cons.prems(1) l sh g Cons.prems(4)]
    note fr = beyond_saleD(4,3) [OF one(3)]
    have av: "(\<lambda>p. on_hand (as_TenantID req) p w s1)
        = (\<lambda>p. on_hand (as_TenantID req) p w s)(it_ProductID it := on_hand (as_TenantID req) (it_ProductID it) w s - base_qty s it)"
      using one(1) by auto
    have wn: "wanted s1 items = wanted s items" using base_qty_sale_frame [OF one(3)] by (simp add: wanted_def)
    have "map (\<lambda>(p, a, r). (p, a)) (shortages ls') = short_of (\<lambda>p. on_hand (as_TenantID req) p w s1) (wanted s1 items)"
    proof (rule Cons.IH [OF _ r])
      show "units_ok s1" using Cons.prems(1) units_ok_frame [OF fr(1)] by simp
      show "on_grid 4 (base_qty s1 x)" if "x \<in> set items" for x
        using Cons.prems(3) that base_qty_sale_frame [OF one(3)] by simp
      show "on_grid 4 (on_hand (as_TenantID req) p w s1)" for p using one(1) [of p] Cons.prems(4) [of p] g by auto
    qed
    then show ?thesis using one(5) [OF assms(3)] by (simp add: ls Shipped shortages_Cons w wn av)
  qed
qed

end

lemma forE_Inl_all:
  assumes "\<And>x s e. f x s = Inl e \<Longrightarrow> P e" "forE f xs s = Inl e"
  shows "P e"
  using assms(2) by (induction xs arbitrary: s) (auto simp: bindE_Inl dest: assms(1))

definition wrapped :: "err \<Rightarrow> bool" where
  "wrapped e \<longleftrightarrow> (\<exists>w e'. e = Wrap w e')"

lemma ship_line_Inl:
  assumes "ship_line E exec req w item s = Inl e"
  shows "wrapped e"
proof (cases "line_factor E item s")
  case (Inl e')
  then show ?thesis using assms by (auto simp: ship_line_def bindE_Inl mapErr_Inl queryE_Inl queryE_Inr wrapped_def)
next
  case (Inr cf)
  obtain conv f where cf: "cf = (conv, f)" by force
  have q: "queryE (line_factor E item) s = Inr ((conv, f), s)" using Inr cf by (simp add: queryE_Inr)
  show ?thesis
  proof (cases "exec (shipment_request req w item conv) s")
    case (Inl e')
    then show ?thesis using assms q
      by (cases "errors_unwrap e'") (auto simp: ship_line_def bindE_mapErr_returns wrapped_def)
  next
    case (Inr r)
    then show ?thesis using assms q
      by (cases r) (auto simp: ship_line_def bindE_mapErr_returns thenE_Inl mapErr_Inl wrapped_def)
  qed
qed

lemma close_sale_Inl: "close_sale E req head s = Inl e \<Longrightarrow> wrapped e"
  by (auto simp: close_sale_def thenE_Inl mapErr_Inl whenE_Inl wrapped_def)

lemma ApproveSale_batch:
  assumes "fst (ApproveSale_Execute E exec req pre s) = Inl (BatchInsufficientStockError xs)"
  shows "ApproveSale_executeInTx E exec req s = Inl (BatchInsufficientStockError xs)"
proof -
  have r: "resolvePayType (as_PayType req) \<noteq> Inl (BatchInsufficientStockError xs)"
    by (auto simp: resolvePayType_def split: sum.splits)
  show ?thesis
    using assms r unfolding ApproveSale_Execute_def runTx_Inl_iff
    by (auto simp: bindE_Inl thenE_Inl liftE_Inl liftE_Inr alreadyApprovedResult_def split: if_splits)
qed

text \<open>
  A sale that cannot be covered reports every short line at once.  When approval fails with the
  batch error, the list names exactly the lines that do not fit what the earlier lines leave, in
  order, each with the quantity available; and nothing has changed.
\<close>

theorem approve_sale_shortages:
  assumes "runtime_env E" "units_ok s" "book_on_grid s" "\<not> as_AllowNegative req"
    and "find_head (as_TenantID req) (as_BillID req) s = Some h" "h_Status h = StatusDraft" "approval_warehouse h s = Some w"
    and "list_all (\<lambda>it. on_grid 4 (base_qty s it)) (GetBillItems (as_TenantID req) (as_BillID req) s)"
    and "ApproveSale_Execute E (RecordMovement_ExecuteInTx E (executor_of E profile outbox)) req pre s
           = (Inl (BatchInsufficientStockError xs), s')"
  shows "s' = s \<and> xs \<noteq> [] \<and> map (\<lambda>(p, a, r). (p, a)) xs
    = short_of (\<lambda>p. on_hand (as_TenantID req) p w s) (wanted s (GetBillItems (as_TenantID req) (as_BillID req) s))"
proof
  show "s' = s" by (rule runTx_atomic) (rule assms(9) [unfolded ApproveSale_Execute_def])
  let ?t = "as_TenantID req" and ?b = "as_BillID req" and ?exec = "RecordMovement_ExecuteInTx E (executor_of E profile outbox)"
  have tx: "ApproveSale_executeInTx E ?exec req s = Inl (BatchInsufficientStockError xs)"
    by (rule ApproveSale_batch [of _ _ _ pre]) (use assms(9) in simp)
  let ?items = "GetBillItems ?t ?b s"
  have g: "GetBillForUpdate ?t ?b s = Inr (scanBillHead h, s)" using assms(5) by (simp add: GetBillForUpdate_Inr)
  obtain w' s1 where r: "resolveApprovalWarehouse E (scanBillHead h) ?t ?b s = Inr (w', s1)"
    and k: "bindE (forE (ship_line E ?exec req w') ?items) (\<lambda>ls.
        if shortages ls \<noteq> [] then failE (BatchInsufficientStockError (shortages ls))
        else thenE (close_sale E req (scanBillHead h)) (returnE (negatives ls))) s1 = Inl (BatchInsufficientStockError xs)"
    using assms(6) tx g unfolding ApproveSale_executeInTx_def Let_def
    by (auto simp: bindE_mapErr_returns bindE_Inl [of "mapErr _ _"] mapErr_Inl split: if_splits)
  obtain h1 where w: "w' = w" and s1: "s1 = s \<or> s1 = head_update ?t ?b (set_warehouse E w') s"
    using r assms(5) by (rule resolved_warehouse) (use assms(7) in auto)
  obtain ls s2 where f: "forE (ship_line E ?exec req w') ?items s1 = Inr (ls, s2)"
    and xs: "xs = shortages ls" "shortages ls \<noteq> []"
    using k forE_Inl_all [OF ship_line_Inl] close_sale_Inl
    by (fastforce simp: bindE_Inl thenE_Inl wrapped_def split: if_splits)
  have same: "on_hand t p w' s1 = on_hand t p w' s" "base_qty s1 it = base_qty s it" "units_ok s1" for t p w' it
    using s1 assms(2) by (auto simp: units_ok_def intro!: base_qty_frame)
  have "map (\<lambda>(p, a, r). (p, a)) (shortages ls) = short_of (\<lambda>p. on_hand ?t p w' s1) (wanted s1 ?items)"
    by (rule new_exec.shortages_spec [OF assms(1) same(3) assms(4) f])
       (use assms(8) same on_hand_grid [OF assms(3)] in \<open>auto simp: list_all_iff\<close>)
  then show "xs \<noteq> [] \<and> map (\<lambda>(p, a, r). (p, a)) xs = short_of (\<lambda>p. on_hand ?t p w s) (wanted s ?items)"
    using xs same by (simp add: w wanted_def)
qed

section \<open>Examples\<close>

definition demo_po :: BillHead where
  "demo_po = blank_head\<lparr>h_ID := 1001, h_TenantID := 11, h_BillNo := ''PO-20260423-0002'', h_BillType := BillTypePurchase,
     h_SubType := BillSubTypePurchase, h_WarehouseID := Some 13, h_CreatorID := 14, h_Subtotal := 60, h_ShippingFee := 5,
     h_TotalAmount := 455, h_Currency := ''USD'', h_ExchangeRateVal := 7, h_AmountLocal := 65\<rparr>"

definition demo_so :: BillHead where
  "demo_so = blank_head\<lparr>h_ID := 1002, h_TenantID := 11, h_BillNo := ''SL-20260423-0002'', h_BillType := BillTypeSale,
     h_SubType := BillSubTypeSale, h_CreatorID := 14, h_Subtotal := 36, h_TotalAmount := 36, h_Currency := ''CNY'',
     h_ExchangeRateVal := 1, h_AmountLocal := 36\<rparr>"

definition demo_sale_line :: "rat \<Rightarrow> BillItem" where
  "demo_sale_line q = \<lparr> it_ID = 1003, it_TenantID = 11, it_HeadID = 1002, it_ProductID = 12, it_UnitID = None, it_UnitName = [],
     it_LineNo = 2, it_Qty = q, it_UnitPrice = 9, it_LineAmount = 9 * q, it_Remark = [], it_purchase_price = 0,
     it_link_item_id = None, it_deleted = False \<rparr>"

definition demo_bills :: "rat \<Rightarrow> db" where
  "demo_bills q = demo_shop\<lparr>bill_head := [demo_po, demo_so], bill_item := [demo_line, demo_sale_line q],
     stock_snapshot := [demo_snapshot]\<rparr>"

definition demo_pay :: ApprovePurchaseRequest where
  "demo_pay = \<lparr> ap_TenantID = 11, ap_BillID = 1001, ap_ApprovedBy = 15, ap_PaidAmount = 100, ap_PayType = ''wechat'',
     ap_AllowZeroPrice = False \<rparr>"

definition demo_ship :: ApproveSaleRequest where
  "demo_ship = \<lparr> as_TenantID = 11, as_BillID = 1002, as_CreatorID = 15, as_PaidAmount = 30, as_PayType = [],
     as_PaymentRemark = [], as_OccurredAt = 0, as_AllowNegative = False \<rparr>"

lemmas demo_bill_defs = demo_bills_def demo_po_def demo_so_def demo_sale_line_def demo_shop_def demo_line_def blank_head_def
  demo_snapshot_def empty_db_def

lemma demo_bills_facts:
  "units_ok (demo_bills q)" "book_on_grid (demo_bills q)" "find_head 11 1001 (demo_bills q) = Some demo_po"
  "find_head 11 1002 (demo_bills q) = Some demo_so" "GetBillItems 11 1001 (demo_bills q) = [demo_line]"
  "GetBillItems 11 1002 (demo_bills q) = [demo_sale_line q]" "on_hand 11 12 13 (demo_bills q) = 10"
  "base_qty (demo_bills q) demo_line = 30" "base_qty (demo_bills q) (demo_sale_line q) = q"
  "\<not> seen_approved 11 1001 (demo_bills q)" "\<not> seen_approved 11 1002 (demo_bills q)"
  "approval_warehouse demo_po (demo_bills q) = Some 13" "approval_warehouse demo_so (demo_bills q) = Some 13"
  by (simp_all add: units_ok_def book_on_grid_def find_head_def head_at_def GetBillItems_def item_of_def on_hand_def GetSnapshot_def
      snap_at_def base_qty_def factor_of_def GetConversionFactor_def seen_approved_def GetBill_def scanBillHead_def approval_warehouse_def
      DefaultWarehouseID_def demo_bill_defs)

abbreviation demo_exec :: "RecordMovementRequest \<Rightarrow> Snapshot op" where
  "demo_exec \<equiv> RecordMovement_ExecuteInTx std_env (executor_of std_env None True)"

lemma demo_pay_accepted: "\<not> isl (fst (ApprovePurchase_ExecuteWithPayment std_env demo_exec True demo_pay (demo_bills 4) (demo_bills 4)))"
  by code_simp

lemma demo_ship_accepted: "\<not> isl (fst (ApproveSale_Execute std_env demo_exec demo_ship (demo_bills 4) (demo_bills 4)))"
  by code_simp

lemma demo_ship_short:
  "fst (ApproveSale_Execute std_env demo_exec demo_ship (demo_bills 14) (demo_bills 14)) = Inl (BatchInsufficientStockError [(12, 10, 14)])"
  by code_simp

theorem approve_purchase_books_witness:
  "\<exists>s' h'. ApprovePurchase_ExecuteWithPayment std_env demo_exec True demo_pay (demo_bills 4) (demo_bills 4) = (Inr (), s')
     \<and> on_hand 11 12 13 s' = 40 \<and> find_head 11 1001 s' = Some h' \<and> h_Status h' = StatusApproved"
proof -
  obtain s' where r: "ApprovePurchase_ExecuteWithPayment std_env demo_exec True demo_pay (demo_bills 4) (demo_bills 4) = (Inr (), s')"
    using not_isl_result [OF demo_pay_accepted] by auto
  have k: "ap_TenantID demo_pay = 11" "ap_BillID demo_pay = 1001" by (simp_all add: demo_pay_def)
  have st: "h_Status demo_po = StatusDraft" "it_ProductID demo_line = 12" by (simp_all add: demo_po_def blank_head_def demo_line_def)
  note f = demo_bills_facts [of 4]
  have "on_grid 4 (base_qty (demo_bills 4) demo_line)" unfolding f(8) by simp
  with approve_purchase_books [of std_env "demo_bills 4" demo_pay demo_po "demo_bills 4" None True True, unfolded k f(5),
      OF std_runtime f(1,2,3) st(1) _ f(10)] r
  show ?thesis by (auto simp: f(7,8,12) moved_def st settled_def)
qed

theorem approve_sale_books_witness:
  "\<exists>ns s' h'. ApproveSale_Execute std_env demo_exec demo_ship (demo_bills 4) (demo_bills 4) = (Inr ns, s')
     \<and> on_hand 11 12 13 s' = 6 \<and> find_head 11 1002 s' = Some h' \<and> h_Status h' = StatusApproved"
proof -
  obtain ns s' where r: "ApproveSale_Execute std_env demo_exec demo_ship (demo_bills 4) (demo_bills 4) = (Inr ns, s')"
    using not_isl_result [OF demo_ship_accepted] by blast
  have k: "as_TenantID demo_ship = 11" "as_BillID demo_ship = 1002" by (simp_all add: demo_ship_def)
  have st: "h_Status demo_so = StatusDraft" "it_ProductID (demo_sale_line 4) = 12" by (simp_all add: demo_so_def blank_head_def demo_sale_line_def)
  note f = demo_bills_facts [of 4]
  have "on_grid 4 (base_qty (demo_bills 4) (demo_sale_line 4))" unfolding f(9) by simp
  with approve_sale_books [of std_env "demo_bills 4" demo_ship demo_so "demo_bills 4" None True, unfolded k f(6),
      OF std_runtime f(1,2,4) st(1) _ f(11)] r
  show ?thesis by (auto simp: f(7,9,13) moved_def st settled_def)
qed

theorem approve_sale_shortages_witness:
  "short_of (\<lambda>p. on_hand 11 p 13 (demo_bills 14)) (wanted (demo_bills 14) [demo_sale_line 14]) = [(12, 10)]"
proof -
  obtain s' where r: "ApproveSale_Execute std_env demo_exec demo_ship (demo_bills 14) (demo_bills 14)
      = (Inl (BatchInsufficientStockError [(12, 10, 14)]), s')"
    using demo_ship_short by (metis prod.collapse)
  have k: "as_TenantID demo_ship = 11" "as_BillID demo_ship = 1002" "\<not> as_AllowNegative demo_ship" by (simp_all add: demo_ship_def)
  have st: "h_Status demo_so = StatusDraft" by (simp add: demo_so_def blank_head_def)
  note f = demo_bills_facts [of 14]
  have g: "list_all (\<lambda>it. on_grid 4 (base_qty (demo_bills 14) it)) [demo_sale_line 14]" by (simp add: f(9))
  show ?thesis
    using approve_sale_shortages [of std_env "demo_bills 14" demo_ship demo_so 13, unfolded k(1,2) f(6),
      OF std_runtime f(1,2) k(3) f(4) st f(13) g r] by simp
qed

definition demo_closed :: db where
  "demo_closed = demo_shop\<lparr>bill_head := [demo_po\<lparr>h_Status := StatusApproved\<rparr>]\<rparr>"

theorem approval_happens_once_witness:
  "ApprovePurchase_ExecuteWithPayment std_env demo_exec True demo_pay demo_shop demo_closed = (Inl ErrBillAlreadyApproved, demo_closed)"
proof -
  have f: "find_head 11 1001 demo_closed = Some (demo_po\<lparr>h_Status := StatusApproved\<rparr>)"
    by (simp add: find_head_def head_at_def demo_closed_def demo_po_def blank_head_def)
  have c: "approve_purchase_checks True demo_pay = Inr ()" "resolvePayType [] = Inr PayTypeCash"
    by (simp_all add: approve_purchase_checks_def demo_pay_def resolvePayType_def checkSettlementMethod_def PayType_Validate_def validPayTypes_def)
  have "as_BillID (demo_ship\<lparr>as_BillID := 1001\<rparr>) = 1001" "as_TenantID (demo_ship\<lparr>as_BillID := 1001\<rparr>) = 11"
    "0 \<le> as_PaidAmount (demo_ship\<lparr>as_BillID := 1001\<rparr>)" "as_PayType (demo_ship\<lparr>as_BillID := 1001\<rparr>) = []"
    by (simp_all add: demo_ship_def)
  then show ?thesis
    using approval_happens_once [OF f, of demo_pay True "demo_ship\<lparr>as_BillID := 1001\<rparr>" PayTypeCash std_env demo_exec demo_shop] c
    by (simp add: demo_pay_def)
qed

end
