(* ===== verification/Return_Repo.thy ===== *)
theory Return_Repo
  imports Bill_Repo "HOL-Library.Sublist"
begin

text \<open>
  What the bill repository answers about returns
  (\<open>internal/adapter/repo/bill/return_cost.go\<close>, \<open>return_link.go\<close>, \<open>purchase_return.go\<close>) and the
  pointer from a return to the sale it gives back, written into its remark
  (\<open>internal/app/bill/return_origin.go\<close>).  A Go map from ids to quantities is a map; reading a
  missing key gives zero.
\<close>

section \<open>Text\<close>

text \<open>\<open>strings.LastIndex\<close>, \<open>strings.CutPrefix\<close>, \<open>strings.Cut\<close>.\<close>

definition LastIndex :: "string \<Rightarrow> string \<Rightarrow> nat option" where
  "LastIndex s sub = List.find (\<lambda>i. prefix sub (drop i s)) (rev [0..<Suc (length s)])"

definition CutPrefix :: "string \<Rightarrow> string \<Rightarrow> string option" where
  "CutPrefix s pre = (if prefix pre s then Some (drop (length pre) s) else None)"

definition Cut :: "string \<Rightarrow> string \<Rightarrow> (string \<times> string) option" where
  "Cut s sep = map_option (\<lambda>i. (take i s, drop (i + length sep) s)) (List.find (\<lambda>i. prefix sep (drop i s)) [0..<Suc (length s)])"

text \<open>SQL \<open>LIKE\<close>: \<open>%\<close> stands for any text, \<open>_\<close> for one character, that is one byte and the continuation bytes after it.\<close>

definition continuation :: "char \<Rightarrow> bool" where
  "continuation c = (let n = of_char c :: int in 128 \<le> n \<and> n < 192)"

function sql_like :: "string \<Rightarrow> string \<Rightarrow> bool" where
  "sql_like [] s = (s = [])"
| "sql_like (p # ps) [] = (p = CHR ''%'' \<and> sql_like ps [])"
| "sql_like (p # ps) (c # cs) =
     (if p = CHR ''%'' then sql_like ps (c # cs) \<or> sql_like (p # ps) cs
      else if p = CHR ''_'' then sql_like ps (dropWhile continuation cs)
      else c = p \<and> sql_like ps cs)"
  by pat_completeness auto
termination
  by (relation "measure (\<lambda>(p, s). length p + length s)") (auto simp: less_Suc_eq_le intro: le_SucI length_dropWhile_le)

section \<open>Where a return says it comes from\<close>

record OriginRef =
  or_BillID :: uuid
  or_Platform :: string
  or_PlatformOrderNo :: string

definition originBillIDKey :: string where "originBillIDKey = ''original_bill_id=''"
definition refundIDKey :: string where "refundIDKey = '':refund_id=''"

definition ParseOriginRef :: "env \<Rightarrow> string \<Rightarrow> OriginRef option" where
  "ParseOriginRef E remark =
     (case LastIndex remark originBillIDKey of
        Some i \<Rightarrow> map_option (\<lambda>id. \<lparr> or_BillID = id, or_Platform = [], or_PlatformOrderNo = [] \<rparr>)
                    (uuid_Parse E (TrimSpace (drop (i + length originBillIDKey) remark)))
      | None \<Rightarrow>
          (case CutPrefix remark ''refund:'' of
             None \<Rightarrow> None
           | Some rest \<Rightarrow>
               (case Cut rest '':'' of
                  None \<Rightarrow> None
                | Some (platform, tail) \<Rightarrow>
                    (case LastIndex tail refundIDKey of
                       None \<Rightarrow> None
                     | Some e \<Rightarrow>
                         if 0 < e \<and> platform \<noteq> []
                         then Some \<lparr> or_BillID = uuid_Nil, or_Platform = platform, or_PlatformOrderNo = take e tail \<rparr>
                         else None))))"

section \<open>Costs and origins\<close>

definition LinkedBillID :: "uuid \<Rightarrow> uuid \<Rightarrow> db \<Rightarrow> uuid option" where
  "LinkedBillID t b s =
     (case List.find (\<lambda>h. h_ID h = b \<and> h_TenantID h = t \<and> h_link_bill_id h \<noteq> None) (bill_head s) of
        None \<Rightarrow> None | Some h \<Rightarrow> h_link_bill_id h)"

definition ImportedOrderBillID :: "uuid \<Rightarrow> string \<Rightarrow> string \<Rightarrow> db \<Rightarrow> uuid option" where
  "ImportedOrderBillID t platform orderNo s =
     map_option ios_bill_id
       (List.find (\<lambda>r. ios_tenant_id r = t \<and> ios_platform r = platform \<and> ios_platform_order_no r = orderNo) (import_order_seen s))"

definition SaleOutUnitCost :: "env \<Rightarrow> uuid \<Rightarrow> uuid \<Rightarrow> uuid \<Rightarrow> db \<Rightarrow> rat option" where
  "SaleOutUnitCost E t sale p s =
     (let rows = filter (\<lambda>m. m_TenantID m = t \<and> m_ReferenceType m = RefSale \<and> m_ReferenceID m = Some sale
                   \<and> m_ProductID m = p \<and> m_Direction m = DirectionOut) (stock_movement s);
          cost = sum_list (map m_TotalCost rows); q = sum_list (map m_QtyBase rows)
      in if rows = [] \<or> \<not> 0 < q then None else Some (dround E 6 (ddiv E cost q)))"

definition SnapshotUnitCost :: "uuid \<Rightarrow> uuid \<Rightarrow> uuid \<Rightarrow> db \<Rightarrow> rat option" where
  "SnapshotUnitCost t p w s = map_option s_UnitCost (GetSnapshot t p w s)"

section \<open>What has come back already\<close>

text \<open>The three ways an approved return can point at a sale.\<close>

definition gives_back :: "env \<Rightarrow> uuid \<Rightarrow> uuid \<Rightarrow> db \<Rightarrow> BillHead \<Rightarrow> bool" where
  "gives_back E t sale s h \<longleftrightarrow> h_TenantID h = t \<and> h_SubType h = BillSubTypeSaleReturn \<and> h_Status h = StatusApproved \<and> \<not> h_deleted h
     \<and> (h_link_bill_id h = Some sale
        \<or> sql_like (''cancel:%:original_bill_id='' @ uuid_string E sale) (h_Remark h)
        \<or> list_ex (\<lambda>r. ios_tenant_id r = h_TenantID h \<and> ios_bill_id r = sale
             \<and> prefix (''refund:'' @ ios_platform r @ '':'' @ ios_platform_order_no r @ '':refund_id='') (h_Remark h)) (import_order_seen s))"

definition joined_items :: "(BillHead \<Rightarrow> bool) \<Rightarrow> db \<Rightarrow> BillItem list" where
  "joined_items P s = concat (map (\<lambda>h. filter (\<lambda>i. it_HeadID i = h_ID h \<and> it_TenantID i = h_TenantID h) (bill_item s))
     (filter P (bill_head s)))"

text \<open>\<open>GROUP BY\<close> a key with the sum of the quantities.\<close>

definition qty_by :: "(BillItem \<Rightarrow> 'k) \<Rightarrow> BillItem list \<Rightarrow> ('k \<times> rat) list" where
  "qty_by key items = map (\<lambda>k. (k, sum_list (map it_Qty (filter (\<lambda>i. key i = k) items)))) (remdups (map key items))"

definition ReturnedQty :: "env \<Rightarrow> uuid \<Rightarrow> uuid \<Rightarrow> db \<Rightarrow> ((uuid \<times> uuid option) \<times> rat) list" where
  "ReturnedQty E t sale s = qty_by (\<lambda>i. (it_ProductID i, it_UnitID i)) (joined_items (gives_back E t sale s) s)"

definition ReturnedAmount :: "env \<Rightarrow> uuid \<Rightarrow> uuid \<Rightarrow> db \<Rightarrow> rat" where
  "ReturnedAmount E t sale s = sum_list (map h_TotalAmount (filter (gives_back E t sale s) (bill_head s)))"

definition linked_back :: "BillSubType \<Rightarrow> uuid \<Rightarrow> uuid \<Rightarrow> BillHead \<Rightarrow> bool" where
  "linked_back sub t b h \<longleftrightarrow> h_TenantID h = t \<and> h_SubType h = sub \<and> h_Status h = StatusApproved \<and> \<not> h_deleted h
     \<and> h_link_bill_id h = Some b"

definition qty_by_link :: "BillSubType \<Rightarrow> uuid \<Rightarrow> uuid \<Rightarrow> db \<Rightarrow> (uuid, rat) map" where
  "qty_by_link sub t b s =
     map_of (qty_by (\<lambda>i. the (it_link_item_id i)) (filter (\<lambda>i. it_link_item_id i \<noteq> None) (joined_items (linked_back sub t b) s)))"

definition ReturnedQtyByLine :: "uuid \<Rightarrow> uuid \<Rightarrow> db \<Rightarrow> (uuid, rat) map" where
  "ReturnedQtyByLine t sale s = qty_by_link BillSubTypeSaleReturn t sale s"

definition PurchaseReturnedQtyByLine :: "uuid \<Rightarrow> uuid \<Rightarrow> db \<Rightarrow> (uuid, rat) map" where
  "PurchaseReturnedQtyByLine t po s = qty_by_link BillSubTypePurchaseReturn t po s"

definition ReturnLinks :: "uuid \<Rightarrow> uuid \<Rightarrow> db \<Rightarrow> (uuid, uuid) map" where
  "ReturnLinks t b s = map_of (map (\<lambda>i. (it_ID i, the (it_link_item_id i)))
     (filter (\<lambda>i. it_HeadID i = b \<and> it_TenantID i = t \<and> it_link_item_id i \<noteq> None) (bill_item s)))"

section \<open>Linking a return to its sale\<close>

definition SetLinkBill :: "uuid \<Rightarrow> uuid \<Rightarrow> uuid \<Rightarrow> unit op" where
  "SetLinkBill t b linked =
     bindE (readE (\<lambda>s. list_ex (\<lambda>h. h_ID h = b \<and> h_TenantID h = t) (bill_head s)
                      \<and> list_ex (\<lambda>h. h_ID h = linked \<and> h_TenantID h = t) (bill_head s))) (\<lambda>found.
     if \<not> found then failE (ErrMsg ''bill repo: set link bill: bill or linked sale not found in tenant'')
     else modifyE (\<lambda>s. s\<lparr>bill_head := update_where (\<lambda>h. h_ID h = b \<and> h_TenantID h = t)
            (\<lambda>h. h\<lparr>h_link_bill_id := Some linked\<rparr>) (bill_head s)\<rparr>))"

definition set_link_item :: "uuid \<Rightarrow> uuid \<Rightarrow> uuid \<times> uuid \<Rightarrow> unit op" where
  "set_link_item t sale = (\<lambda>(item, saleItem).
     bindE (readE (\<lambda>s. list_ex (\<lambda>i. it_ID i = item \<and> it_TenantID i = t) (bill_item s)
                      \<and> list_ex (\<lambda>i. it_ID i = saleItem \<and> it_TenantID i = t \<and> it_HeadID i = sale) (bill_item s))) (\<lambda>found.
     if \<not> found then failE (ErrMsg ''bill repo: set link item: line or linked sale line not found in tenant'')
     else modifyE (\<lambda>s. s\<lparr>bill_item := update_where (\<lambda>i. it_ID i = item \<and> it_TenantID i = t)
            (\<lambda>i. i\<lparr>it_link_item_id := Some saleItem\<rparr>) (bill_item s)\<rparr>)))"

definition SetLinkItems :: "uuid \<Rightarrow> uuid \<Rightarrow> (uuid \<times> uuid) list \<Rightarrow> unit op" where
  "SetLinkItems t sale links = bindE (forE (set_link_item t sale) links) (\<lambda>_. returnE ())"

end
