(* ===== verification/Returns.thy ===== *)
theory Returns
  imports Bill_Approval Return_Repo
begin

text \<open>
  Goods coming back from a customer (\<open>internal/app/bill/create_return.go\<close>, \<open>create_return_clone.go\<close>,
  \<open>return_remaining.go\<close>, \<open>return_strict.go\<close>, \<open>return_origin.go\<close>, \<open>approve_return.go\<close>): the draft of a
  return, what a sale has left to give back, and the approval that puts the goods into stock again.

  The argument \<open>units\<close> says whether a unit repository is wired.  As for the other approvals, the
  look at the bill before the transaction reads the state \<open>pre\<close>.
\<close>

section \<open>What a sale has left, in base units\<close>

definition get0 :: "('k, rat) map \<Rightarrow> 'k \<Rightarrow> rat" where
  "get0 m k = (case m k of None \<Rightarrow> 0 | Some v \<Rightarrow> v)"

definition baseFactor :: "bool \<Rightarrow> uuid \<Rightarrow> uuid option \<Rightarrow> db \<Rightarrow> err + rat" where
  "baseFactor units p u s =
     (case u of
        None \<Rightarrow> Inr 1
      | Some unit \<Rightarrow>
          if \<not> units then Inr 1
          else (case GetConversionFactor p unit s of
                  Inl e \<Rightarrow> Inl e | Inr f \<Rightarrow> if 0 < f then Inr f else Inr 1))"

text \<open>The loops that add up quantities per product.\<close>

fun pool_add :: "bool \<Rightarrow> db \<Rightarrow> ((uuid \<times> uuid option) \<times> rat) list \<Rightarrow> (uuid, rat) map \<Rightarrow> err + (uuid, rat) map" where
  "pool_add units s [] pool = Inr pool"
| "pool_add units s (((p, u), q) # rest) pool =
     (case baseFactor units p u s of
        Inl e \<Rightarrow> Inl e | Inr f \<Rightarrow> pool_add units s rest (pool(p \<mapsto> get0 pool p + q * f)))"

definition returnedBase :: "env \<Rightarrow> bool \<Rightarrow> uuid \<Rightarrow> uuid \<Rightarrow> db \<Rightarrow> err + (uuid, rat) map" where
  "returnedBase E units t sale s =
     (case pool_add units s (ReturnedQty E t sale s) Map.empty of Inl e \<Rightarrow> Inl (Wrap ''returned qty'' e) | Inr m \<Rightarrow> Inr m)"

definition is_sale :: "BillHead \<Rightarrow> bool" where
  "is_sale h \<longleftrightarrow> h_BillType h = BillTypeSale \<and> h_SubType h \<noteq> BillSubTypePurchaseReturn"

definition line_key :: "BillItem \<Rightarrow> (uuid \<times> uuid option) \<times> rat" where
  "line_key l = ((it_ProductID l, it_UnitID l), it_Qty l)"

definition deduct :: "(uuid, rat) map \<Rightarrow> (uuid, rat) map \<Rightarrow> (uuid, rat) map" where
  "deduct rem returned = (\<lambda>p. case returned p of None \<Rightarrow> rem p | Some q \<Rightarrow> Some (max (get0 rem p - q) 0))"

text \<open>\<open>None\<close> when the origin is not a sale.\<close>

definition remainingBase :: "env \<Rightarrow> bool \<Rightarrow> uuid \<Rightarrow> uuid \<Rightarrow> db \<Rightarrow> err + (uuid, rat) map option" where
  "remainingBase E units t origin s =
     (case GetBill t origin s of
        Inl e \<Rightarrow> if errors_Is e ErrBillNotFound then Inr None else Inl (Wrap ''remaining qty: load sale'' e)
      | Inr orig \<Rightarrow>
          if \<not> is_sale orig then Inr None
          else if h_Status orig \<noteq> StatusApproved then Inr (Some Map.empty)
          else (case pool_add units s (map line_key (GetBillItems t origin s)) Map.empty of
                  Inl e \<Rightarrow> Inl (Wrap ''remaining qty'' e)
                | Inr rem \<Rightarrow> (case returnedBase E units t origin s of
                                Inl e \<Rightarrow> Inl e | Inr returned \<Rightarrow> Inr (Some (deduct rem returned)))))"

definition takeBase :: "(uuid, rat) map \<Rightarrow> uuid \<Rightarrow> rat \<Rightarrow> rat \<times> (uuid, rat) map" where
  "takeBase rem p want =
     (let got = min (get0 rem p) want
      in if \<not> 0 < got then (0, rem) else (got, rem(p \<mapsto> get0 rem p - got)))"

section \<open>A return draft\<close>

record ReturnItem = CreatePurchaseItemInput +
  ri_LinkItemID :: "uuid option"

record CreateReturnRequest =
  cr_TenantID :: uuid
  cr_CreatorID :: uuid
  cr_WarehouseID :: "uuid option"
  cr_PartnerID :: "uuid option"
  cr_LinkBillID :: "uuid option"
  cr_BillDate :: gotime
  cr_Remark :: string
  cr_Items :: "ReturnItem list"

definition return_head :: "env \<Rightarrow> CreateReturnRequest \<Rightarrow> uuid \<Rightarrow> BillItem list \<Rightarrow> BillHead" where
  "return_head E req billID items =
     blank_head\<lparr>h_ID := billID, h_TenantID := cr_TenantID req, h_BillType := BillTypePurchase,
       h_SubType := BillSubTypeSaleReturn, h_Status := StatusDraft, h_WarehouseID := cr_WarehouseID req,
       h_PartnerID := cr_PartnerID req, h_CreatorID := cr_CreatorID req,
       h_BillDate := (if cr_BillDate req = 0 then now E else cr_BillDate req), h_Subtotal := line_total items,
       h_TotalAmount := line_total items, h_Remark := cr_Remark req, h_CreatedAt := now E, h_UpdatedAt := now E\<rparr>"

definition item_links :: "ReturnItem list \<Rightarrow> BillItem list \<Rightarrow> (uuid \<times> uuid) list" where
  "item_links req items = concat (map2 (\<lambda>r it. case ri_LinkItemID r of None \<Rightarrow> [] | Some l \<Rightarrow> [(it_ID it, l)]) req items)"

definition CreateReturn_Execute :: "env \<Rightarrow> CreateReturnRequest \<Rightarrow> db \<Rightarrow> (err + uuid \<times> string) \<times> db" where
  "CreateReturn_Execute E req = runTx (
     thenE (liftE (draft_checks (cr_TenantID req) (cr_CreatorID req) (cr_Items req)))
     (bindE (forE (build_item E (cr_TenantID req) uuid_Nil) (cr_Items req)) (\<lambda>items.
      thenE (queryE (validateRefs (cr_TenantID req) (map ci_ProductID (cr_Items req)) (cr_WarehouseID req)))
      (bindE (uuid_New E) (\<lambda>billID.
       bindE (persist_bill E ''create return draft'' ''RT'' (return_head E req billID items) (map (set_head billID) items)) (\<lambda>out.
       case cr_LinkBillID req of
         None \<Rightarrow> returnE out
       | Some sale \<Rightarrow>
           thenE (mapErr (Wrap ''create return draft: link sale'') (SetLinkBill (cr_TenantID req) billID sale))
           (thenE (whenE (item_links (cr_Items req) items \<noteq> [])
                     (mapErr (Wrap ''create return draft: link sale lines'')
                        (SetLinkItems (cr_TenantID req) sale (item_links (cr_Items req) items))))
            (returnE out))))))))"

section \<open>Cloning and capping\<close>

definition clone_line :: "env \<Rightarrow> bool \<Rightarrow> db \<Rightarrow> BillItem \<Rightarrow> (uuid, rat) map \<Rightarrow> err + (ReturnItem option \<times> (uuid, rat) map)" where
  "clone_line E units s l pool =
     (case baseFactor units (it_ProductID l) (it_UnitID l) s of
        Inl e \<Rightarrow> Inl (Wrap ''clone original bill'' e)
      | Inr f \<Rightarrow>
          (let t0 = min (get0 pool (it_ProductID l)) (it_Qty l * f);
               pool' = (if 0 < t0 then pool(it_ProductID l \<mapsto> get0 pool (it_ProductID l) - t0) else pool);
               left = (if 0 < t0 then it_Qty l - ddiv E t0 f else it_Qty l)
           in Inr (if \<not> 0 < left then None
                   else Some \<lparr> ci_ProductID = it_ProductID l, ci_UnitID = it_UnitID l, ci_UnitName = it_UnitName l,
                               ci_LineNo = it_LineNo l, ci_Qty = left, ci_UnitPrice = it_UnitPrice l, ri_LinkItemID = None \<rparr>,
                   pool')))"

fun clone_lines :: "env \<Rightarrow> bool \<Rightarrow> db \<Rightarrow> BillItem list \<Rightarrow> (uuid, rat) map \<Rightarrow> err + ReturnItem list" where
  "clone_lines E units s [] pool = Inr []"
| "clone_lines E units s (l # ls) pool =
     (case clone_line E units s l pool of
        Inl e \<Rightarrow> Inl e
      | Inr (x, pool') \<Rightarrow> (case clone_lines E units s ls pool' of
                            Inl e \<Rightarrow> Inl e
                          | Inr rest \<Rightarrow> Inr ((case x of None \<Rightarrow> [] | Some it \<Rightarrow> [it]) @ rest)))"

definition CloneOriginal :: "env \<Rightarrow> bool \<Rightarrow> uuid \<Rightarrow> uuid \<Rightarrow> db \<Rightarrow> err + (uuid \<times> ReturnItem list)" where
  "CloneOriginal E units t sale s =
     (case GetBill t sale s of
        Inl e \<Rightarrow> Inl (Wrap ''clone original bill'' e)
      | Inr orig \<Rightarrow>
          if \<not> is_sale orig then Inl (Wrap ''original bill is not a sale'' ErrValidation)
          else if h_Status orig \<noteq> StatusApproved then Inl ErrNothingToReverse
          else if GetBillItems t sale s = [] then Inl (Wrap ''original sale has no lines'' ErrValidation)
          else (case returnedBase E units t sale s of
                  Inl e \<Rightarrow> Inl (Wrap ''clone original bill'' e)
                | Inr pool \<Rightarrow>
                    (case clone_lines E units s (GetBillItems t sale s) pool of
                       Inl e \<Rightarrow> Inl e
                     | Inr items \<Rightarrow>
                         if items = [] then Inl ErrNothingToReverse
                         else (case h_WarehouseID orig of
                                 Some w \<Rightarrow> Inr (w, items)
                               | None \<Rightarrow> (case DefaultWarehouseID t s of
                                           None \<Rightarrow> Inl ErrWarehouseRequired | Some w \<Rightarrow> Inr (w, items))))))"

fun cap_lines :: "env \<Rightarrow> bool \<Rightarrow> db \<Rightarrow> ReturnItem list \<Rightarrow> (uuid, rat) map \<Rightarrow> err + ReturnItem list" where
  "cap_lines E units s [] rem = Inr []"
| "cap_lines E units s (it # its) rem =
     (case baseFactor units (ci_ProductID it) (ci_UnitID it) s of
        Inl e \<Rightarrow> Inl (Wrap ''cap return'' e)
      | Inr f \<Rightarrow>
          (let want = ci_Qty it * f; (got, rem') = takeBase rem (ci_ProductID it) want
           in case cap_lines E units s its rem' of
                Inl e \<Rightarrow> Inl e
              | Inr rest \<Rightarrow>
                  Inr (if \<not> 0 < got then rest
                       else (if got < want then it\<lparr>ci_Qty := ddiv E got f\<rparr> else it) # rest)))"

definition CapToRemaining :: "env \<Rightarrow> bool \<Rightarrow> uuid \<Rightarrow> string \<Rightarrow> ReturnItem list \<Rightarrow> db \<Rightarrow> err + ReturnItem list" where
  "CapToRemaining E units t remark items s =
     (case ParseOriginRef E remark of
        None \<Rightarrow> Inr items
      | Some ref \<Rightarrow>
          (case (if or_BillID ref \<noteq> uuid_Nil then Some (or_BillID ref)
                 else ImportedOrderBillID t (or_Platform ref) (or_PlatformOrderNo ref) s) of
             None \<Rightarrow> Inr items
           | Some origin \<Rightarrow>
               (case remainingBase E units t origin s of
                  Inl e \<Rightarrow> Inl (Wrap ''cap return'' e)
                | Inr None \<Rightarrow> Inr items
                | Inr (Some rem) \<Rightarrow>
                    (case cap_lines E units s items rem of
                       Inl e \<Rightarrow> Inl e
                     | Inr capped \<Rightarrow> if capped = [] then Inl ErrNothingToReverse else Inr capped))))"

section \<open>Approving a return\<close>

definition resolveOriginBill :: "env \<Rightarrow> BillHead \<Rightarrow> db \<Rightarrow> uuid" where
  "resolveOriginBill E head s =
     (case LinkedBillID (h_TenantID head) (h_ID head) s of
        Some i \<Rightarrow> i
      | None \<Rightarrow>
          (case ParseOriginRef E (h_Remark head) of
             None \<Rightarrow> uuid_Nil
           | Some ref \<Rightarrow>
               if or_BillID ref \<noteq> uuid_Nil then or_BillID ref
               else (case ImportedOrderBillID (h_TenantID head) (or_Platform ref) (or_PlatformOrderNo ref) s of
                       None \<Rightarrow> uuid_Nil | Some i \<Rightarrow> i)))"

record ApproveReturnRequest =
  ar_TenantID :: uuid
  ar_BillID :: uuid
  ar_CreatorID :: uuid
  ar_Strict :: bool

record strictReturnCheck =
  sc_saleLines :: "(uuid, BillItem) map"
  sc_links :: "(uuid, uuid) map"
  sc_returned :: "(uuid, rat) map"

definition newStrictCheck :: "uuid \<Rightarrow> uuid \<Rightarrow> uuid \<Rightarrow> db \<Rightarrow> strictReturnCheck" where
  "newStrictCheck t b sale s =
     \<lparr> sc_saleLines = map_of (rev (map (\<lambda>l. (it_ID l, l)) (GetBillItems t sale s))),
       sc_links = ReturnLinks t b s, sc_returned = ReturnedQtyByLine t sale s \<rparr>"

definition linked_line :: "strictReturnCheck \<Rightarrow> BillItem \<Rightarrow> BillItem option" where
  "linked_line c item = sc_saleLines c (case sc_links c (it_ID item) of None \<Rightarrow> uuid_Nil | Some l \<Rightarrow> l)"

definition line_room :: "strictReturnCheck \<Rightarrow> BillItem \<Rightarrow> (int \<times> rat) option" where
  "line_room c item =
     (case sc_links c (it_ID item) of
        None \<Rightarrow> None
      | Some l \<Rightarrow> map_option (\<lambda>sl. (it_LineNo sl, max (it_Qty sl - get0 (sc_returned c) l) 0)) (sc_saleLines c l))"

definition strict_take :: "env \<Rightarrow> strictReturnCheck \<Rightarrow> (uuid, rat) map \<Rightarrow> BillItem \<Rightarrow> rat \<Rightarrow> err + (uuid, rat) map" where
  "strict_take E c rem item factor =
     (let pool = (\<lambda>_. let want = it_Qty item * factor; (got, rem') = takeBase rem (it_ProductID item) want
            in if got < want
               then Inl (ReturnExceededError (case linked_line c item of None \<Rightarrow> it_LineNo item | Some sl \<Rightarrow> it_LineNo sl) (ddiv E got factor))
               else Inr rem')
      in case line_room c item of
           None \<Rightarrow> pool ()
         | Some (no, left) \<Rightarrow> if left < it_Qty item then Inl (ReturnExceededError no left) else pool ())"

definition returnUnitCost :: "env \<Rightarrow> uuid \<Rightarrow> uuid \<Rightarrow> uuid \<Rightarrow> uuid \<Rightarrow> db \<Rightarrow> rat" where
  "returnUnitCost E origin t p w s =
     (case (if origin \<noteq> uuid_Nil then SaleOutUnitCost E t origin p s else None) of
        Some c \<Rightarrow> c
      | None \<Rightarrow> (case SnapshotUnitCost t p w s of Some c \<Rightarrow> c | None \<Rightarrow> 0))"

definition return_factor :: "env \<Rightarrow> bool \<Rightarrow> BillItem \<Rightarrow> db \<Rightarrow> err + string" where
  "return_factor E units item s =
     (case it_UnitID item of
        None \<Rightarrow> Inr ''1''
      | Some u \<Rightarrow> if \<not> units then Inr ''1''
                  else (case GetConversionFactor (it_ProductID item) u s of Inl e \<Rightarrow> Inl e | Inr f \<Rightarrow> Inr (dec_string E f)))"

definition parsed_factor :: "env \<Rightarrow> string \<Rightarrow> rat" where
  "parsed_factor E conv = (case dec_parse E conv of None \<Rightarrow> 1 | Some f \<Rightarrow> if 0 < f then f else 1)"

text \<open>How much of a line goes back, and what the sale has left after it; \<open>None\<close> skips the line.\<close>

definition return_qty ::
  "env \<Rightarrow> strictReturnCheck option \<Rightarrow> (uuid, rat) map option \<Rightarrow> BillItem \<Rightarrow> rat \<Rightarrow> err + (rat option \<times> (uuid, rat) map option)" where
  "return_qty E strict rem item f =
     (case rem of
        None \<Rightarrow> Inr (Some (it_Qty item), None)
      | Some r \<Rightarrow>
          (case strict of
             Some c \<Rightarrow> (case strict_take E c r item f of Inl e \<Rightarrow> Inl e | Inr r' \<Rightarrow> Inr (Some (it_Qty item), Some r'))
           | None \<Rightarrow>
               (let want = it_Qty item * f; (got, r') = takeBase r (it_ProductID item) want
                in Inr (if \<not> 0 < got then None else if got < want then Some (ddiv E got f) else Some (it_Qty item), Some r'))))"

definition return_request :: "ApproveReturnRequest \<Rightarrow> uuid \<Rightarrow> BillItem \<Rightarrow> rat \<Rightarrow> string \<Rightarrow> rat \<Rightarrow> RecordMovementRequest" where
  "return_request req w item qty conv cost =
     \<lparr> r_TenantID = ar_TenantID req, r_ProductID = it_ProductID item, r_WarehouseID = w, r_Direction = DirectionIn,
       r_Qty = qty, r_UnitID = (case it_UnitID item of None \<Rightarrow> uuid_Nil | Some u \<Rightarrow> u), r_ConvFactor = conv,
       r_UnitCost = cost, r_ExplicitCost = False, r_AllowNegative = False, r_CostStrategy = CostStrategyWAC,
       r_ReferenceType = RefReturn, r_ReferenceID = Some (ar_BillID req), r_OccurredAt = 0, r_CreatedBy = None, r_Note = [] \<rparr>"

definition return_line ::
  "env \<Rightarrow> bool \<Rightarrow> (RecordMovementRequest \<Rightarrow> Snapshot op) \<Rightarrow> ApproveReturnRequest \<Rightarrow> uuid \<Rightarrow> uuid \<Rightarrow> strictReturnCheck option
     \<Rightarrow> BillItem \<Rightarrow> (uuid, rat) map option \<times> nat \<Rightarrow> ((uuid, rat) map option \<times> nat) op" where
  "return_line E units exec req w origin strict item = (\<lambda>(rem, cnt).
     bindE (mapErr (Wrap ''approve return: item'') (queryE (return_factor E units item))) (\<lambda>conv.
     bindE (liftE (return_qty E strict rem item (parsed_factor E conv))) (\<lambda>(q, rem').
     case q of
       None \<Rightarrow> returnE (rem', cnt)
     | Some qty \<Rightarrow>
         bindE (readE (returnUnitCost E origin (ar_TenantID req) (it_ProductID item) w)) (\<lambda>cost.
         thenE (mapErr (Wrap ''approve return: record movement for item'') (exec (return_request req w item qty conv cost)))
         (returnE (rem', Suc cnt))))))"

definition sale_left :: "env \<Rightarrow> bool \<Rightarrow> uuid \<Rightarrow> uuid \<Rightarrow> (uuid, rat) map option op" where
  "sale_left E units t origin =
     (if origin = uuid_Nil then returnE None else mapErr (Wrap ''approve return'') (queryE (remainingBase E units t origin)))"

definition strict_check :: "ApproveReturnRequest \<Rightarrow> uuid \<Rightarrow> strictReturnCheck option op" where
  "strict_check req origin =
     (if ar_Strict req \<and> origin \<noteq> uuid_Nil
      then readE (\<lambda>s. Some (newStrictCheck (ar_TenantID req) (ar_BillID req) origin s)) else returnE None)"

text \<open>The status the bill ends in; the result says that nothing was left to give back.\<close>

definition close_return :: "env \<Rightarrow> ApproveReturnRequest \<Rightarrow> bool \<Rightarrow> bool op" where
  "close_return E req nothing =
     (if nothing
      then thenE (UpdateBillStatus E (ar_TenantID req) (ar_BillID req) StatusCancelled None None) (returnE True)
      else thenE (mapErr (Wrap ''approve return: update status'')
                    (UpdateBillStatus E (ar_TenantID req) (ar_BillID req) StatusApproved (Some (now E, ar_CreatorID req)) None))
           (returnE False))"

definition approve_return_tx ::
  "env \<Rightarrow> bool \<Rightarrow> (RecordMovementRequest \<Rightarrow> Snapshot op) \<Rightarrow> ApproveReturnRequest \<Rightarrow> bool op" where
  "approve_return_tx E units exec req s =
     (let t = ar_TenantID req; b = ar_BillID req in
      bindE (mapErr (Wrap ''approve return: load bill'') (GetBillForUpdate t b)) (\<lambda>head.
      if h_Status head = StatusApproved then returnE False
      else if \<not> BillStatus_CanTransitionTo (h_Status head) StatusApproved
      then failE (Wrap ''approve return'' ErrInvalidBillStatus)
      else
        bindE (readE (GetBillItems t b)) (\<lambda>items.
        bindE (mapErr (Wrap ''approve return'') (resolveApprovalWarehouse E head t b)) (\<lambda>w.
        bindE (readE (resolveOriginBill E head)) (\<lambda>origin.
        bindE (sale_left E units t origin) (\<lambda>rem.
        bindE (strict_check req origin) (\<lambda>strict.
        bindE (foldE (return_line E units exec req w origin strict) items (rem, 0)) (\<lambda>(_, cnt).
        close_return E req (rem \<noteq> None \<and> cnt = 0)))))))) s)"

definition ApproveReturn_Execute ::
  "env \<Rightarrow> bool \<Rightarrow> (RecordMovementRequest \<Rightarrow> Snapshot op) \<Rightarrow> ApproveReturnRequest \<Rightarrow> db \<Rightarrow> db \<Rightarrow> (err + unit) \<times> db" where
  "ApproveReturn_Execute E units exec req pre s =
     (if ar_TenantID req = uuid_Nil then (Inl (ErrMsg ''approve return: tenant_id is required''), s)
      else if ar_BillID req = uuid_Nil then (Inl (ErrMsg ''approve return: bill_id is required''), s)
      else if seen_approved (ar_TenantID req) (ar_BillID req) pre then (Inr (), s)
      else case runTx (approve_return_tx E units exec req) s of
             (Inl e, s') \<Rightarrow> (Inl e, s')
           | (Inr nothingLeft, s') \<Rightarrow> (if nothingLeft then Inl ErrNothingToReverse else Inr (), s'))"

section \<open>What one line gives back\<close>

lemma return_factor_Inr:
  "return_factor E True item s = Inr conv \<longleftrightarrow> (\<exists>f. line_factor E item s = Inr (conv, f))"
  by (auto simp: return_factor_def line_factor_def split: option.split sum.split)

lemma line_factor_qty [simp]: "line_factor E (item\<lparr>it_Qty := q\<rparr>) s = line_factor E item s"
  by (simp add: line_factor_def cong: option.case_cong)

lemma convert_qty:
  assumes "runtime_env E" "units_ok s" "line_factor E item s = Inr (conv, f)"
  shows "convertToBase E q conv = Inr (q * factor_of item s)"
  using convert_line [of E s "item\<lparr>it_Qty := q\<rparr>" conv f] assms by (simp add: base_qty_def factor_of_def cong: option.case_cong)

lemma parsed_line_factor:
  assumes "runtime_env E" "units_ok s" "line_factor E item s = Inr (conv, f)"
  shows "parsed_factor E conv = factor_of item s"
proof -
  have f: "f = factor_of item s" by (rule line_factor_Inr(1) [OF assms(3)])
  note ok = factor_of_ok [OF assms(2), of item, folded f]
  have "dec_parse E conv = Some f"
    using line_factor_Inr(2) [OF assms(3)] runtime_env.parse_one [OF assms(1)] runtime_env.parse_string [OF assms(1) ok(1)] by auto
  then show ?thesis using ok(2) by (simp add: parsed_factor_def f)
qed

lemma takeBase_draws:
  assumes "takeBase rem p want = (got, rem')"
  shows "0 \<le> got" "0 < got \<Longrightarrow> got \<le> get0 rem p" "0 \<le> want \<Longrightarrow> got \<le> want"
    "get0 rem' p' = get0 rem p' - (if p' = p then got else 0)" "got = 0 \<or> got = min (get0 rem p) want"
  using assms by (auto simp: takeBase_def Let_def get0_def split: if_splits option.splits)

text \<open>
  How a line of the bill, \<open>f\<close> base units to the unit, draws on what is left: \<open>got\<close> is the base
  quantity granted, all of the line unless the return may be trimmed.
\<close>

definition granted :: "env \<Rightarrow> bool \<Rightarrow> (uuid, rat) map option \<Rightarrow> BillItem \<Rightarrow> rat \<Rightarrow> rat option \<Rightarrow> (uuid, rat) map option \<Rightarrow> rat \<Rightarrow> bool" where
  "granted E strict rem item f q rem' got \<longleftrightarrow> 0 \<le> got \<and> got \<le> it_Qty item * f \<and> (strict \<longrightarrow> got = it_Qty item * f)
     \<and> (case q of None \<Rightarrow> got = 0 \<and> rem \<noteq> None
         | Some x \<Rightarrow> x = it_Qty item \<and> got = it_Qty item * f \<or> x = ddiv E got f \<and> 0 < got \<and> rem \<noteq> None)
     \<and> (case rem of
          None \<Rightarrow> rem' = None \<and> got = it_Qty item * f
        | Some r \<Rightarrow> (0 < got \<longrightarrow> got \<le> get0 r (it_ProductID item)) \<and> (got = it_Qty item * f \<or> got = 0 \<or> got = get0 r (it_ProductID item))
            \<and> (\<exists>r'. rem' = Some r' \<and> (\<forall>p. get0 r' p = get0 r p - (if p = it_ProductID item then got else 0))))"

lemma strict_take_Inr:
  assumes "strict_take E c r item f = Inr r'"
  shows "\<exists>got. takeBase r (it_ProductID item) (it_Qty item * f) = (got, r') \<and> it_Qty item * f \<le> got"
  using assms by (cases "takeBase r (it_ProductID item) (it_Qty item * f)")
    (auto simp: strict_take_def Let_def not_less split: option.splits if_splits)

lemma return_qty_granted:
  assumes "return_qty E strict rem item f = Inr (q, rem')" "0 < it_Qty item" "0 < f"
  obtains got where "granted E (strict \<noteq> None) rem item f q rem' got"
proof (cases rem)
  case None
  then show ?thesis
    using assms by (intro that [of "it_Qty item * f"]) (auto simp: return_qty_def granted_def)
next
  case (Some r)
  have w: "0 < it_Qty item * f" using assms(2,3) by simp
  show ?thesis
  proof (cases strict)
    case s: (Some c)
    then obtain r' where t: "strict_take E c r item f = Inr r'" and e: "q = Some (it_Qty item)" "rem' = Some r'"
      using assms(1) Some by (auto simp: return_qty_def split: sum.splits)
    obtain got where g: "takeBase r (it_ProductID item) (it_Qty item * f) = (got, r')" "it_Qty item * f \<le> got"
      using strict_take_Inr [OF t] by blast
    note d = takeBase_draws [OF g(1)]
    have "got = it_Qty item * f" using g(2) d(3) w by simp
    then show ?thesis using d w Some e by (intro that [of got]) (auto simp: granted_def)
  next
    case n: None
    obtain got r' where g: "takeBase r (it_ProductID item) (it_Qty item * f) = (got, r')" by force
    note d = takeBase_draws [OF g]
    have "rem' = Some r'" "q = (if \<not> 0 < got then None else if got < it_Qty item * f then Some (ddiv E got f) else Some (it_Qty item))"
      using assms(1) by (auto simp: return_qty_def Some n g Let_def)
    then show ?thesis using d w Some n by (intro that [of got]) (auto simp: granted_def min_def split: if_splits)
  qed
qed


text \<open>Factors below a milliard, so that trimming a line to what is left loses nothing to the sixteen places of a quotient.\<close>

definition units_small :: "db \<Rightarrow> bool" where
  "units_small s \<longleftrightarrow> (\<forall>r \<in> set (product_unit s). pu_conversion_factor r \<le> 10 ^ 9)"

lemma factor_small: "units_small s \<Longrightarrow> factor_of item s \<le> 10 ^ 9"
  by (auto simp: factor_of_def GetConversionFactor_def units_small_def split: option.split sum.split dest!: find_Some_P)

lemma numeric_near_grid:
  assumes "runtime_env E" "on_grid 4 v" "\<bar>y - v\<bar> \<le> 1 / (2 * 10 ^ 7)"
  shows "numeric E 4 y = v"
proof (rule on_grid_close_eq)
  note r = numeric_rounding [OF assms(1)]
  show "on_grid 4 (numeric E 4 y)" by (rule decimal_rounding.grid [OF r])
  show "on_grid 4 v" by (rule assms(2))
  have "\<bar>numeric E 4 y - y\<bar> \<le> 1 / (2 * 10 ^ 4)" by (rule decimal_rounding.near [OF r])
  then show "\<bar>numeric E 4 y - v\<bar> < 1 / 10 ^ 4" using assms(3) abs_triangle_ineq [of "numeric E 4 y - y" "y - v"] by simp
qed

lemma granted_books:
  assumes "runtime_env E" "units_ok s" "units_small s" "granted E strict rem item (factor_of item s) (Some x) rem' got"
    and "on_grid 4 (base_qty s item)" "on_grid 4 a" "\<And>r p. rem = Some r \<Longrightarrow> on_grid 4 (get0 r p)"
  shows "numeric E 4 (a + x * factor_of item s) = a + got"
proof -
  let ?f = "factor_of item s"
  have f: "0 < ?f" "?f \<le> 10 ^ 9" using factor_of_ok(2) [OF assms(2)] factor_small [OF assms(3)] by auto
  have g: "on_grid 4 got"
    using assms(4,5,7) by (auto simp: granted_def base_qty_def split: option.splits)
  have "\<bar>x * ?f - got\<bar> \<le> 1 / (2 * 10 ^ 7)"
  proof (cases "x = ddiv E got ?f")
    case True
    have "\<bar>ddiv E got ?f - got / ?f\<bar> \<le> 1 / (2 * 10 ^ 16)" using runtime_env.ddiv_near [OF assms(1), of ?f got] f(1) by simp
    then have "\<bar>ddiv E got ?f - got / ?f\<bar> * ?f \<le> 1 / (2 * 10 ^ 16) * 10 ^ 9" by (rule mult_mono) (use f in auto)
    moreover have "\<bar>ddiv E got ?f - got / ?f\<bar> * ?f = \<bar>(ddiv E got ?f - got / ?f) * ?f\<bar>" using f(1) by (simp add: abs_mult)
    moreover have "(ddiv E got ?f - got / ?f) * ?f = ddiv E got ?f * ?f - got" using f(1) by (simp add: left_diff_distrib)
    ultimately show ?thesis using True by simp
  next
    case False
    then show ?thesis using assms(4) by (auto simp: granted_def)
  qed
  then show ?thesis by (intro numeric_near_grid [OF assms(1)]) (use assms(6) g in auto)
qed


section \<open>The lines of a return\<close>

lemma return_request_simps [simp]:
  "r_TenantID (return_request req w item q conv cost) = ar_TenantID req" "r_ProductID (return_request req w item q conv cost) = it_ProductID item"
  "r_WarehouseID (return_request req w item q conv cost) = w" "r_Direction (return_request req w item q conv cost) = DirectionIn"
  "r_Qty (return_request req w item q conv cost) = q" "r_ConvFactor (return_request req w item q conv cost) = conv"
  by (simp_all add: return_request_def)

lemma return_line_Inr:
  assumes "return_line E True exec req w origin strict item (rem, n) s = Inr ((rem', n'), s')"
  obtains conv f q where "line_factor E item s = Inr (conv, f)" "return_qty E strict rem item (parsed_factor E conv) = Inr (q, rem')"
    "case q of None \<Rightarrow> s' = s \<and> n' = n
     | Some x \<Rightarrow> \<exists>cost snap. exec (return_request req w item x conv cost) s = Inr (snap, s') \<and> n' = Suc n"
proof -
  obtain conv q rm where 1: "return_factor E True item s = Inr conv" "return_qty E strict rem item (parsed_factor E conv) = Inr (q, rm)"
    and k: "(case q of
       None \<Rightarrow> returnE (rm, n)
     | Some qty \<Rightarrow>
         bindE (readE (returnUnitCost E origin (ar_TenantID req) (it_ProductID item) w)) (\<lambda>cost.
         thenE (mapErr (Wrap ''approve return: record movement for item'') (exec (return_request req w item qty conv cost)))
         (returnE (rm, Suc n)))) s = Inr ((rem', n'), s')"
    using assms unfolding return_line_def prod.case bindE_mapErr_Inr queryE_Inr bindE_liftE_Inr by (auto split: prod.splits)
  obtain f where f: "line_factor E item s = Inr (conv, f)" using 1(1) unfolding return_factor_Inr by blast
  have "rm = rem'" using k by (auto simp: thenE_Inr split: option.splits)
  then show ?thesis by (intro that [OF f, of q]) (use 1 k in \<open>auto simp: thenE_Inr split: option.splits\<close>)
qed

definition left_on_grid :: "(uuid, rat) map option \<Rightarrow> bool" where
  "left_on_grid rem \<longleftrightarrow> (\<forall>r p. rem = Some r \<longrightarrow> on_grid 4 (get0 r p))"

lemma granted_left_on_grid:
  assumes "granted E strict rem item f q rem' got" "left_on_grid rem" "on_grid 4 (it_Qty item * f)"
  shows "left_on_grid rem'" "on_grid 4 got"
proof -
  show g: "on_grid 4 got" using assms by (auto simp: granted_def left_on_grid_def split: option.splits)
  show "left_on_grid rem'" using assms g by (auto simp: granted_def left_on_grid_def intro!: on_grid_diff split: option.splits)
qed

text \<open>
  What the lines of a return give back of each product: no more than they hold, all of it in the
  strict mode and without a sale to draw on, and no more than the sale has left.
\<close>

definition handed_back :: "bool \<Rightarrow> (uuid, rat) map option \<Rightarrow> (uuid \<Rightarrow> rat) \<Rightarrow> bool \<Rightarrow> (uuid \<Rightarrow> rat) \<Rightarrow> bool" where
  "handed_back strict rem lines none gave \<longleftrightarrow> (\<forall>p. 0 \<le> gave p \<and> gave p \<le> lines p) \<and> (strict \<or> rem = None \<longrightarrow> gave = lines)
     \<and> (\<forall>r p. rem = Some r \<longrightarrow> 0 < gave p \<longrightarrow> gave p \<le> get0 r p) \<and> (none \<longrightarrow> gave = (\<lambda>_. 0))"

lemma handed_back_weaken:
  "handed_back a rem lines n gave \<Longrightarrow> (strict \<Longrightarrow> a \<or> rem = None) \<Longrightarrow> (none \<Longrightarrow> n) \<Longrightarrow> handed_back strict rem lines none gave"
  unfolding handed_back_def by blast

lemma handed_back_Cons:
  assumes "granted E strict rem it f q rem1 got" "handed_back strict rem1 lines none1 gave" "none \<Longrightarrow> none1 \<and> q = None"
  shows "handed_back strict rem (\<lambda>p. lines p + (if it_ProductID it = p then it_Qty it * f else 0)) none
    (\<lambda>p. gave p + (if it_ProductID it = p then got else 0))"
proof -
  let ?b = "\<lambda>p. gave p + (if it_ProductID it = p then got else 0)"
  have gr: "0 \<le> got" "got \<le> it_Qty it * f" "strict \<or> rem = None \<Longrightarrow> got = it_Qty it * f" "rem = None \<longleftrightarrow> rem1 = None" "q = None \<Longrightarrow> got = 0"
    using assms(1) by (auto simp: granted_def split: option.splits)
  have gp: "0 \<le> gave p" "gave p \<le> lines p" for p using assms(2) by (auto simp: handed_back_def)
  have cap: "?b p \<le> get0 r p" if rm: "rem = Some r" and pos: "0 < ?b p" for r p
  proof -
    obtain r' where r': "rem1 = Some r'" "\<And>p. get0 r' p = get0 r p - (if p = it_ProductID it then got else 0)"
      "0 < got \<longrightarrow> got \<le> get0 r (it_ProductID it)" using assms(1) unfolding granted_def rm option.case by blast
    then have "0 < gave p \<longrightarrow> gave p \<le> get0 r' p" using assms(2) by (auto simp: handed_back_def)
    then show ?thesis using gp(1) [of p] r'(2) [of p] r'(3) pos by (cases "0 < gave p") (auto split: if_splits)
  qed
  show ?thesis unfolding handed_back_def
  proof (intro conjI allI impI)
    show "?b = (\<lambda>p. lines p + (if it_ProductID it = p then it_Qty it * f else 0))" if "strict \<or> rem = None"
      using assms(2) gr(3,4) that by (auto simp: handed_back_def)
    show "?b = (\<lambda>_. 0)" if none using assms(2,3) gr(5) that by (auto simp: handed_back_def)
  qed (use gr gp cap in \<open>auto intro: add_mono\<close>)
qed

context stock_executor
begin

lemma returned_line:
  assumes "runtime_env E" "units_ok s" "units_small s"
    and "return_line E True exec req w origin strict item (rem, n) s = Inr ((rem', n'), s')"
    and "0 < it_Qty item" "on_grid 4 (base_qty s item)" "on_grid 4 (on_hand (ar_TenantID req) (it_ProductID item) w s)" "left_on_grid rem"
  obtains q got where "granted E (strict \<noteq> None) rem item (factor_of item s) q rem' got" "n' = n + (if q = None then 0 else 1)"
    "\<And>p. on_hand (ar_TenantID req) p w s' = on_hand (ar_TenantID req) p w s + (if it_ProductID item = p then got else 0)"
    "\<And>t p w'. (t, w') \<noteq> (ar_TenantID req, w) \<Longrightarrow> on_hand t p w' s' = on_hand t p w' s" "beyond_stock s' = beyond_stock s"
proof -
  let ?t = "ar_TenantID req" and ?f = "factor_of item s"
  obtain conv f q where l: "line_factor E item s = Inr (conv, f)" and rq: "return_qty E strict rem item (parsed_factor E conv) = Inr (q, rem')"
    and k: "case q of None \<Rightarrow> s' = s \<and> n' = n
     | Some x \<Rightarrow> \<exists>cost snap. exec (return_request req w item x conv cost) s = Inr (snap, s') \<and> n' = Suc n"
    using assms(4) by (rule return_line_Inr)
  have pf: "parsed_factor E conv = ?f" by (rule parsed_line_factor [OF assms(1,2) l])
  obtain got where g: "granted E (strict \<noteq> None) rem item ?f q rem' got"
    using rq assms(5) factor_of_ok(2) [OF assms(2)] unfolding pf by (rule return_qty_granted)
  show ?thesis
  proof (cases q)
    case None
    then show ?thesis using k g by (intro that [OF g]) (auto simp: granted_def)
  next
    case (Some x)
    then obtain cost snap where e: "exec (return_request req w item x conv cost) s = Inr (snap, s')" and n: "n' = Suc n" using k by auto
    let ?r = "return_request req w item x conv cost"
    obtain c where c: "check_request E [] ?r = Inr c" using exec_qty [OF e] by blast
    have c': "c = x * ?f" using check_request_qty [OF c] convert_qty [OF assms(1,2) l, of x] by simp
    have "on_hand ?t (it_ProductID item) w s' = numeric E 4 (on_hand ?t (it_ProductID item) w s + x * ?f)"
      using exec_book [OF e c] by (simp add: c' request_delta.simps)
    also have "\<dots> = on_hand ?t (it_ProductID item) w s + got"
      by (rule granted_books [OF assms(1-3) g [unfolded Some] assms(6,7)]) (use assms(8) in \<open>auto simp: left_on_grid_def\<close>)
    finally have b: "on_hand ?t (it_ProductID item) w s' = on_hand ?t (it_ProductID item) w s + got" .
    have other: "(t, p, w') \<noteq> (?t, it_ProductID item, w) \<Longrightarrow> on_hand t p w' s' = on_hand t p w' s" for t p w'
      using exec_other [OF e, of t p w'] by (auto simp: on_hand_def)
    show ?thesis
      by (rule that [OF g]) (use n Some b other exec_frame [OF e] in auto)
  qed
qed

lemma returned_lines:
  assumes "runtime_env E" "units_ok s" "units_small s"
    and "foldE (return_line E True exec req w origin strict) items (rem, n) s = Inr ((rem', n'), s')"
    and "\<And>it. it \<in> set items \<Longrightarrow> 0 < it_Qty it \<and> on_grid 4 (base_qty s it)" "\<And>p. on_grid 4 (on_hand (ar_TenantID req) p w s)" "left_on_grid rem"
  shows "\<exists>gave. handed_back (strict \<noteq> None) rem (\<lambda>p. moved s p items) (n' = n) gave \<and> n \<le> n'
    \<and> (\<forall>p. on_hand (ar_TenantID req) p w s' = on_hand (ar_TenantID req) p w s + gave p)
    \<and> (\<forall>t p w'. (t, w') \<noteq> (ar_TenantID req, w) \<longrightarrow> on_hand t p w' s' = on_hand t p w' s) \<and> beyond_stock s' = beyond_stock s"
  using assms(2-)
proof (induction items arbitrary: s rem n)
  case Nil
  then show ?case by (intro exI [of _ "\<lambda>_. 0"]) (simp add: moved_def handed_back_def)
next
  case (Cons it items)
  let ?t = "ar_TenantID req"
  obtain rem1 n1 s1 where l: "return_line E True exec req w origin strict it (rem, n) s = Inr ((rem1, n1), s1)"
    and r: "foldE (return_line E True exec req w origin strict) items (rem1, n1) s1 = Inr ((rem', n'), s')"
    using Cons.prems(3) unfolding foldE_Cons_Inr by auto
  have pos: "0 < it_Qty it" "on_grid 4 (base_qty s it)" using Cons.prems(4) by auto
  obtain q got where g: "granted E (strict \<noteq> None) rem it (factor_of it s) q rem1 got" and n1: "n1 = n + (if q = None then 0 else 1)"
    and oh: "\<And>p. on_hand ?t p w s1 = on_hand ?t p w s + (if it_ProductID it = p then got else 0)"
    and ot: "\<And>t p w'. (t, w') \<noteq> (?t, w) \<Longrightarrow> on_hand t p w' s1 = on_hand t p w' s" and fr: "beyond_stock s1 = beyond_stock s"
    using returned_line [OF assms(1) Cons.prems(1,2) l pos Cons.prems(5,6)] by metis
  note fr' = beyond_stockD(5,7) [OF fr]
  note lg = granted_left_on_grid [OF g Cons.prems(6) pos(2) [unfolded base_qty_def]]
  have u: "units_ok s1" "units_small s1" using Cons.prems(1,2) fr' by (simp_all add: units_ok_def units_small_def)
  have it: "0 < it_Qty x \<and> on_grid 4 (base_qty s1 x)" if "x \<in> set items" for x
    using Cons.prems(4) [of x] that base_qty_frame [OF fr'(2,1)] by simp
  have og: "on_grid 4 (on_hand ?t p w s1)" for p using oh [of p] Cons.prems(5) lg(2) by auto
  obtain gave where b: "handed_back (strict \<noteq> None) rem1 (\<lambda>p. moved s1 p items) (n' = n1) gave" "n1 \<le> n'"
    and b': "\<forall>p. on_hand ?t p w s' = on_hand ?t p w s1 + gave p"
      "\<forall>t p w'. (t, w') \<noteq> (?t, w) \<longrightarrow> on_hand t p w' s' = on_hand t p w' s1" "beyond_stock s' = beyond_stock s1"
    using Cons.IH [OF u r it og lg(1)] by blast
  let ?b = "\<lambda>p. gave p + (if it_ProductID it = p then got else 0)"
  have mv: "moved s p (it # items) = moved s1 p items + (if it_ProductID it = p then it_Qty it * factor_of it s else 0)" for p
    using moved_frame [OF fr'(2,1)] by (simp add: moved_Cons base_qty_def)
  have "handed_back (strict \<noteq> None) rem (\<lambda>p. moved s p (it # items)) (n' = n) ?b"
    unfolding mv by (rule handed_back_Cons [OF g b(1)]) (use n1 b(2) in \<open>auto split: if_splits\<close>)
  then show ?case using b(2) b' oh ot n1 fr by (intro exI [of _ ?b]) (auto simp: algebra_simps)
qed

end

section \<open>What the approval reads\<close>

text \<open>The parts of a head that say what has come back.\<close>

definition return_view :: "BillHead \<Rightarrow> uuid \<times> uuid \<times> bool \<times> BillType \<times> BillSubType \<times> BillStatus \<times> uuid option \<times> string" where
  "return_view h = (h_ID h, h_TenantID h, h_deleted h, h_BillType h, h_SubType h, h_Status h, h_link_bill_id h, h_Remark h)"

abbreviation same_returns :: "db \<Rightarrow> db \<Rightarrow> bool" where
  "same_returns s' s \<equiv> map return_view (bill_head s') = map return_view (bill_head s) \<and> bill_item s' = bill_item s
     \<and> product_unit s' = product_unit s \<and> product s' = product s \<and> import_order_seen s' = import_order_seen s"

lemma find_view:
  fixes s s' :: db
  assumes "map v (bill_head s') = map v (bill_head s)" "\<And>h. P h = Q (v h)"
  shows "map_option v (List.find P (bill_head s')) = map_option v (List.find P (bill_head s))"
proof -
  have "map_option v (List.find P (bill_head x)) = List.find Q (map v (bill_head x))" for x :: db
    by (simp add: find_map assms(2) [symmetric])
  then show ?thesis using assms(1) by simp
qed

lemma filter_view:
  fixes s s' :: db
  assumes "map v (bill_head s') = map v (bill_head s)" "\<And>h. P h = Q (v h)" "\<And>h. f h = g (v h)"
  shows "map f (filter P (bill_head s')) = map f (filter P (bill_head s))"
proof -
  have "map f (filter P (bill_head x)) = map g (filter Q (map v (bill_head x)))" for x :: db
    by (simp add: filter_map o_def assms(2,3) [symmetric])
  then show ?thesis using assms(1) by simp
qed

lemma ReturnedQty_view: "same_returns s' s \<Longrightarrow> ReturnedQty E t sale s' = ReturnedQty E t sale s"
proof -
  assume v: "same_returns s' s"
  let ?Q = "\<lambda>(_, t', d, _, sub, st, l, rm). t' = t \<and> sub = BillSubTypeSaleReturn \<and> st = StatusApproved \<and> \<not> d
     \<and> (l = Some sale \<or> sql_like (''cancel:%:original_bill_id='' @ uuid_string E sale) rm
        \<or> list_ex (\<lambda>r. ios_tenant_id r = t' \<and> ios_bill_id r = sale
             \<and> prefix (''refund:'' @ ios_platform r @ '':'' @ ios_platform_order_no r @ '':refund_id='') rm) (import_order_seen s))"
  have "map (\<lambda>h. filter (\<lambda>i. it_HeadID i = h_ID h \<and> it_TenantID i = h_TenantID h) (bill_item s)) (filter (gives_back E t sale s) (bill_head s'))
      = map (\<lambda>h. filter (\<lambda>i. it_HeadID i = h_ID h \<and> it_TenantID i = h_TenantID h) (bill_item s)) (filter (gives_back E t sale s) (bill_head s))"
    by (rule filter_view [where v = return_view and Q = ?Q and g = "\<lambda>(b, t', _). filter (\<lambda>i. it_HeadID i = b \<and> it_TenantID i = t') (bill_item s)"])
       (use v in \<open>auto simp: gives_back_def return_view_def\<close>)
  moreover have "gives_back E t sale s' = gives_back E t sale s" using v by (simp add: gives_back_def fun_eq_iff)
  ultimately show ?thesis using v by (simp add: ReturnedQty_def joined_items_def)
qed

lemma baseFactor_frame:
  "product_unit s' = product_unit s \<Longrightarrow> product s' = product s \<Longrightarrow> baseFactor units p u s' = baseFactor units p u s"
  by (simp add: baseFactor_def GetConversionFactor_def cong: option.case_cong if_cong)

lemma pool_add_frame:
  assumes "product_unit s' = product_unit s" "product s' = product s"
  shows "pool_add units s' xs pool = pool_add units s xs pool"
proof (induction xs arbitrary: pool)
  case (Cons x xs)
  obtain p u q where x: "x = ((p, u), q)" by (metis prod.exhaust)
  show ?case unfolding x pool_add.simps baseFactor_frame [OF assms] Cons.IH ..
qed simp

lemma remainingBase_view:
  assumes "same_returns s' s"
  shows "remainingBase E units t o' s' = remainingBase E units t o' s"
proof -
  have "map_option return_view (find_head t o' s') = map_option return_view (find_head t o' s)"
    unfolding find_head_def
    by (rule find_view [where Q = "\<lambda>(b, t', d, _). b = o' \<and> t' = t \<and> \<not> d"]) (use assms in \<open>auto simp: return_view_def head_at_def\<close>)
  then have h: "GetBill t o' s' = GetBill t o' s \<or> (\<exists>h h'. GetBill t o' s' = Inr h' \<and> GetBill t o' s = Inr h
      \<and> h_BillType h' = h_BillType h \<and> h_SubType h' = h_SubType h \<and> h_Status h' = h_Status h)"
    by (cases "find_head t o' s"; cases "find_head t o' s'") (auto simp: GetBill_def return_view_def)
  have p: "pool_add units s' = pool_add units s" unfolding fun_eq_iff using pool_add_frame [of s' s] assms by simp
  have r: "returnedBase E units t o' s' = returnedBase E units t o' s"
    unfolding returnedBase_def ReturnedQty_view [OF assms] p ..
  have g: "GetBillItems t o' s' = GetBillItems t o' s" using assms by (auto intro: GetBillItems_eq)
  show ?thesis using h unfolding remainingBase_def is_sale_def p r g by (elim disjE exE conjE) simp_all
qed

lemma resolveOriginBill_view:
  assumes "same_returns s' s"
  shows "resolveOriginBill E h s' = resolveOriginBill E h s"
proof -
  have l: "LinkedBillID t b s' = LinkedBillID t b s" for t b
  proof -
    let ?P = "\<lambda>h. h_ID h = b \<and> h_TenantID h = t \<and> h_link_bill_id h \<noteq> None"
    have "LinkedBillID t b x = Option.bind (map_option return_view (List.find ?P (bill_head x))) (\<lambda>(_, _, _, _, _, _, l, _). l)" for x :: db
      by (simp add: LinkedBillID_def return_view_def split: option.split)
    moreover have "map_option return_view (List.find ?P (bill_head s')) = map_option return_view (List.find ?P (bill_head s))"
      by (rule find_view [where Q = "\<lambda>(b', t', _, _, _, _, l, _). b' = b \<and> t' = t \<and> l \<noteq> None"]) (use assms in \<open>auto simp: return_view_def\<close>)
    ultimately show ?thesis by simp
  qed
  have i: "ImportedOrderBillID t platform no s' = ImportedOrderBillID t platform no s" for t platform no
    using assms by (simp add: ImportedOrderBillID_def)
  show ?thesis unfolding resolveOriginBill_def l i ..
qed


section \<open>Approving a return\<close>

text \<open>What the sale a return points at has left, when it points at one.\<close>

definition return_cap :: "env \<Rightarrow> BillHead \<Rightarrow> db \<Rightarrow> err + (uuid, rat) map option" where
  "return_cap E h s =
     (if resolveOriginBill E h s = uuid_Nil then Inr None else remainingBase E True (h_TenantID h) (resolveOriginBill E h s) s)"

definition set_cancelled :: "env \<Rightarrow> BillHead \<Rightarrow> BillHead" where
  "set_cancelled E = (\<lambda>h. h\<lparr>h_Status := StatusCancelled, h_UpdatedAt := now E\<rparr>)"

lemma set_cancelled_simps [simp]:
  "h_Status (set_cancelled E h) = StatusCancelled" "h_TotalAmount (set_cancelled E h) = h_TotalAmount h"
  "h_WarehouseID (set_cancelled E h) = h_WarehouseID h" "keeps_key (set_cancelled E)"
  by (simp_all add: set_cancelled_def keeps_key_def head_ids_def)

lemma UpdateBillStatus_cancelled:
  "UpdateBillStatus E t b StatusCancelled None None = modifyE (head_update t b (set_cancelled E))"
  by (simp add: UpdateBillStatus_def head_update_def set_cancelled_def)

lemma resolveOriginBill_scan [simp]: "resolveOriginBill E (scanBillHead h) s = resolveOriginBill E h s"
  unfolding resolveOriginBill_def scanBillHead_simps ..

lemma sale_left_Inr:
  "sale_left E True (h_TenantID h) (resolveOriginBill E h s) s = Inr (rem, s') \<longleftrightarrow> return_cap E h s = Inr rem \<and> s' = s"
  by (auto simp: sale_left_def return_cap_def queryE_Inr)

lemma strict_check_Inr:
  "strict_check req origin s = Inr (strict, s') \<Longrightarrow> s' = s \<and> (strict \<noteq> None \<longleftrightarrow> ar_Strict req \<and> origin \<noteq> uuid_Nil)"
  by (auto simp: strict_check_def split: if_splits)

lemma close_return_Inr:
  "close_return E req nothing s = Inr (r, s') \<longleftrightarrow> r = nothing
     \<and> s' = head_update (ar_TenantID req) (ar_BillID req) (if nothing then set_cancelled E else set_approved E (ar_CreatorID req)) s"
  by (auto simp: close_return_def UpdateBillStatus_approved UpdateBillStatus_cancelled thenE_Inr)

lemma approve_return_tx_Inr:
  assumes "approve_return_tx E True exec req s = Inr (nothing, s')" "find_head (ar_TenantID req) (ar_BillID req) s = Some h"
    "h_Status h = StatusDraft"
  obtains w s1 rem strict rem' n s2 where
    "resolveApprovalWarehouse E (scanBillHead h) (ar_TenantID req) (ar_BillID req) s = Inr (w, s1)" "return_cap E h s1 = Inr rem"
    "strict \<noteq> None \<longleftrightarrow> ar_Strict req \<and> resolveOriginBill E h s1 \<noteq> uuid_Nil"
    "foldE (return_line E True exec req w (resolveOriginBill E h s1) strict) (GetBillItems (ar_TenantID req) (ar_BillID req) s) (rem, 0) s1
       = Inr ((rem', n), s2)"
    "nothing \<longleftrightarrow> rem \<noteq> None \<and> n = 0"
    "s' = head_update (ar_TenantID req) (ar_BillID req) (if nothing then set_cancelled E else set_approved E (ar_CreatorID req)) s2"
proof -
  let ?t = "ar_TenantID req" and ?b = "ar_BillID req"
  have g: "GetBillForUpdate ?t ?b s = Inr (scanBillHead h, s)" using assms(2) by (simp add: GetBillForUpdate_Inr)
  have t: "h_TenantID h = ?t" using find_head_key [OF assms(2)] by simp
  obtain w s1 rem s3 strict s4 rem' n s2 where 1: "resolveApprovalWarehouse E (scanBillHead h) ?t ?b s = Inr (w, s1)"
    and 2: "sale_left E True ?t (resolveOriginBill E h s1) s1 = Inr (rem, s3)"
    and 3: "strict_check req (resolveOriginBill E h s1) s3 = Inr (strict, s4)"
    and 4: "foldE (return_line E True exec req w (resolveOriginBill E h s1) strict) (GetBillItems ?t ?b s) (rem, 0) s4 = Inr ((rem', n), s2)"
    and 5: "close_return E req (rem \<noteq> None \<and> n = 0) s2 = Inr (nothing, s')"
    using assms(1,3) unfolding approve_return_tx_def Let_def bindE_mapErr_Inr g
    by (fastforce simp: bindE_mapErr_Inr bindE_Inr split: if_splits)
  have r: "return_cap E h s1 = Inr rem" "s3 = s1" using 2 sale_left_Inr [of E h s1 rem s3] by (simp_all add: t)
  note st = strict_check_Inr [OF 3]
  show ?thesis
    by (rule that [OF 1 r(1) conjunct2 [OF st] 4 [unfolded conjunct1 [OF st] r(2)]]) (use 5 in \<open>auto simp: close_return_Inr\<close>)
qed


lemma warehouse_same_returns: "same_returns (head_update t b (set_warehouse E w) s) s"
  by (auto simp: head_update_def set_warehouse_def return_view_def intro!: map_update_where_key)

lemma return_cap_view:
  assumes "same_returns s' s"
  shows "return_cap E h s' = return_cap E h s"
  unfolding return_cap_def resolveOriginBill_view [OF assms] remainingBase_view [OF assms] ..

definition return_line_ok :: "db \<Rightarrow> BillItem \<Rightarrow> bool" where
  "return_line_ok s it \<longleftrightarrow> 0 < it_Qty it \<and> on_grid 4 (base_qty s it)"

context stock_executor
begin

lemma approved_return:
  assumes "runtime_env E" "units_ok s" "units_small s" "book_on_grid s" "approve_return_tx E True exec req s = Inr (nothing, s')"
    and h: "find_head (ar_TenantID req) (ar_BillID req) s = Some h" "h_Status h = StatusDraft"
    and g: "list_all (return_line_ok s) (GetBillItems (ar_TenantID req) (ar_BillID req) s)"
    and l: "\<forall>rem. return_cap E h s = Inr rem \<longrightarrow> left_on_grid rem"
  obtains w rem gave h' where "approval_warehouse h s = Some w" "return_cap E h s = Inr rem"
    "handed_back (ar_Strict req) rem (\<lambda>p. moved s p (GetBillItems (ar_TenantID req) (ar_BillID req) s)) nothing gave"
    "find_head (ar_TenantID req) (ar_BillID req) s' = Some h'" "h_Status h' = (if nothing then StatusCancelled else StatusApproved)"
    "h_TotalAmount h' = h_TotalAmount h"
    "\<forall>p. on_hand (ar_TenantID req) p w s' = on_hand (ar_TenantID req) p w s + gave p"
    "\<forall>t p w'. (t, w') \<noteq> (ar_TenantID req, w) \<longrightarrow> on_hand t p w' s' = on_hand t p w' s"
    "\<forall>t b. (t, b) \<noteq> (ar_TenantID req, ar_BillID req) \<longrightarrow> find_head t b s' = find_head t b s"
    "payment_head s' = payment_head s" "bill_item s' = bill_item s"
proof -
  let ?t = "ar_TenantID req" and ?b = "ar_BillID req"
  let ?items = "GetBillItems ?t ?b s"
  obtain w s1 rem strict rem' n s2 where r: "resolveApprovalWarehouse E (scanBillHead h) ?t ?b s = Inr (w, s1)"
    and cap: "return_cap E h s1 = Inr rem" and st: "strict \<noteq> None \<longleftrightarrow> ar_Strict req \<and> resolveOriginBill E h s1 \<noteq> uuid_Nil"
    and f: "foldE (return_line E True exec req w (resolveOriginBill E h s1) strict) ?items (rem, 0) s1 = Inr ((rem', n), s2)"
    and nt: "nothing \<longleftrightarrow> rem \<noteq> None \<and> n = 0"
    and s': "s' = head_update ?t ?b (if nothing then set_cancelled E else set_approved E (ar_CreatorID req)) s2"
    using assms(5) h by (rule approve_return_tx_Inr)
  obtain h1 where w: "approval_warehouse h s = Some w" and h1: "find_head ?t ?b s1 = Some h1" "h_TotalAmount h1 = h_TotalAmount h"
    and o1: "\<forall>t' b'. (t', b') \<noteq> (?t, ?b) \<longrightarrow> find_head t' b' s1 = find_head t' b' s"
    and s1: "s1 = s \<or> s1 = head_update ?t ?b (set_warehouse E w) s"
    using r h(1) by (rule resolved_warehouse)
  have "same_returns s1 s" using s1 warehouse_same_returns by auto
  then have cap': "return_cap E h s = Inr rem" using cap return_cap_view [of s1 s E h] by simp
  have same: "on_hand t p w' s1 = on_hand t p w' s" "base_qty s1 it = base_qty s it" "units_ok s1" "units_small s1"
    "moved s1 p ?items = moved s p ?items" "payment_head s1 = payment_head s" "bill_item s1 = bill_item s" for t p w' it
    using s1 assms(2,3) by (auto simp: units_ok_def units_small_def intro!: base_qty_frame moved_frame)
  have ok: "0 < it_Qty it \<and> on_grid 4 (base_qty s1 it)" if "it \<in> set ?items" for it
    using g that same(2) by (simp add: list_all_iff return_line_ok_def)
  have og: "on_grid 4 (on_hand ?t p w s1)" for p using on_hand_grid [OF assms(4)] same(1) by simp
  obtain gave where b: "handed_back (strict \<noteq> None) rem (\<lambda>p. moved s p ?items) (n = 0) gave"
    and oh: "\<forall>p. on_hand ?t p w s2 = on_hand ?t p w s1 + gave p"
      "\<forall>t p w'. (t, w') \<noteq> (?t, w) \<longrightarrow> on_hand t p w' s2 = on_hand t p w' s1" "beyond_stock s2 = beyond_stock s1"
    using returned_lines [OF assms(1) same(3,4) f ok og mp [OF spec [OF l] cap']] unfolding same(5) by auto
  have fr: "find_head t' b' s2 = find_head t' b' s1" "payment_head s2 = payment_head s1" "bill_item s2 = bill_item s1" for t' b'
    using beyond_stockD [OF oh(3)] by (auto intro: find_head_eq)
  have sr: "strict \<noteq> None \<or> rem = None" if "ar_Strict req"
    using that st cap by (auto simp: return_cap_def)
  have hb: "handed_back (ar_Strict req) rem (\<lambda>p. moved s p ?items) nothing gave"
    by (rule handed_back_weaken [OF b]) (use sr nt in blast)+
  show ?thesis
  proof (rule that [OF w cap' hb])
    show "find_head ?t ?b s' = Some ((if nothing then set_cancelled E else set_approved E (ar_CreatorID req)) h1)"
      using h1(1) fr(1) by (simp add: s' find_head_head_update)
    show "\<forall>t b. (t, b) \<noteq> (?t, ?b) \<longrightarrow> find_head t b s' = find_head t b s"
      using o1 fr(1) by (auto simp: s' find_head_head_update)
  qed (use oh same fr h1(2) in \<open>auto simp: s'\<close>)
qed

end

text \<open>
  C18: a return puts into stock what it says and no more than the sale has left.  For either cost
  method, approving a draft return gives back of every product no more than its lines hold; all of
  it in the strict mode of the counter; and, when the return points at a sale, never more than that
  sale shipped less what earlier approved returns gave back.  The book of the bill's warehouse grows
  by exactly that and no other book row, bill or payment changes.  When nothing is left, the draft
  is cancelled, \<open>ErrNothingToReverse\<close> returned and no stock moved; any other error changes nothing.
\<close>

theorem approve_return_books:
  assumes "runtime_env E" "units_ok s" "units_small s" "book_on_grid s"
    and "find_head (ar_TenantID req) (ar_BillID req) s = Some h" "h_Status h = StatusDraft"
    and "list_all (return_line_ok s) (GetBillItems (ar_TenantID req) (ar_BillID req) s)"
    and "\<forall>rem. return_cap E h s = Inr rem \<longrightarrow> left_on_grid rem"
    and "\<not> seen_approved (ar_TenantID req) (ar_BillID req) pre"
  shows "case ApproveReturn_Execute E True (RecordMovement_ExecuteInTx E (executor_of E profile outbox)) req pre s of (res, s') \<Rightarrow>
      s' = s \<and> isl res
    \<or> (\<exists>w rem gave h'. approval_warehouse h s = Some w \<and> return_cap E h s = Inr rem
        \<and> res = (if h_Status h' = StatusApproved then Inr () else Inl ErrNothingToReverse)
        \<and> handed_back (ar_Strict req) rem (\<lambda>p. moved s p (GetBillItems (ar_TenantID req) (ar_BillID req) s)) (isl res) gave
        \<and> find_head (ar_TenantID req) (ar_BillID req) s' = Some h' \<and> h_Status h' = (if isl res then StatusCancelled else StatusApproved)
        \<and> (\<forall>p. on_hand (ar_TenantID req) p w s' = on_hand (ar_TenantID req) p w s + gave p)
        \<and> (\<forall>t p w'. (t, w') \<noteq> (ar_TenantID req, w) \<longrightarrow> on_hand t p w' s' = on_hand t p w' s)
        \<and> (\<forall>t b. (t, b) \<noteq> (ar_TenantID req, ar_BillID req) \<longrightarrow> find_head t b s' = find_head t b s)
        \<and> payment_head s' = payment_head s)"
proof -
  let ?exec = "RecordMovement_ExecuteInTx E (executor_of E profile outbox)"
  let ?tx = "approve_return_tx E True ?exec req"
  show ?thesis
  proof (cases "?tx s")
    case (Inl e)
    then show ?thesis using assms(9) by (simp add: ApproveReturn_Execute_def)
  next
    case (Inr x)
    then obtain nothing s' where tx: "?tx s = Inr (nothing, s')" by (cases x) auto
    obtain w rem gave h' where k: "approval_warehouse h s = Some w" "return_cap E h s = Inr rem"
      "handed_back (ar_Strict req) rem (\<lambda>p. moved s p (GetBillItems (ar_TenantID req) (ar_BillID req) s)) nothing gave"
      "find_head (ar_TenantID req) (ar_BillID req) s' = Some h'" "h_Status h' = (if nothing then StatusCancelled else StatusApproved)"
      "h_TotalAmount h' = h_TotalAmount h" "\<forall>p. on_hand (ar_TenantID req) p w s' = on_hand (ar_TenantID req) p w s + gave p"
      "\<forall>t p w'. (t, w') \<noteq> (ar_TenantID req, w) \<longrightarrow> on_hand t p w' s' = on_hand t p w' s"
      "\<forall>t b. (t, b) \<noteq> (ar_TenantID req, ar_BillID req) \<longrightarrow> find_head t b s' = find_head t b s" "payment_head s' = payment_head s"
      "bill_item s' = bill_item s"
      by (rule new_exec.approved_return [OF assms(1-4) tx assms(5-8)])
    have x: "ApproveReturn_Execute E True ?exec req pre s = (if ar_TenantID req = uuid_Nil \<or> ar_BillID req = uuid_Nil
        then (Inl (if ar_TenantID req = uuid_Nil then ErrMsg ''approve return: tenant_id is required'' else ErrMsg ''approve return: bill_id is required''), s)
        else (if nothing then Inl ErrNothingToReverse else Inr (), s'))"
      using assms(9) tx by (simp add: ApproveReturn_Execute_def runTx_def)
    show ?thesis
    proof (cases "ar_TenantID req = uuid_Nil \<or> ar_BillID req = uuid_Nil")
      case True
      then show ?thesis unfolding x by simp
    next
      case False
      show ?thesis unfolding x if_not_P [OF False] prod.case
        by (intro disjI2 exI [of _ w] exI [of _ rem] exI [of _ gave] exI [of _ h']) (use k in auto)
    qed
  qed
qed

section \<open>Examples\<close>

definition demo_rt :: BillHead where
  "demo_rt = blank_head\<lparr>h_ID := 1004, h_TenantID := 11, h_BillNo := ''RT-20260423-0001'', h_BillType := BillTypePurchase,
     h_SubType := BillSubTypeSaleReturn, h_WarehouseID := Some 13, h_CreatorID := 14, h_Subtotal := 27, h_TotalAmount := 27,
     h_link_bill_id := Some 1002\<rparr>"

definition demo_return_line :: BillItem where
  "demo_return_line = (demo_sale_line 3)\<lparr>it_ID := 1005, it_HeadID := 1004, it_link_item_id := Some 1003\<rparr>"

definition demo_returns :: db where
  "demo_returns = (demo_bills 4)\<lparr>bill_head := [demo_so\<lparr>h_Status := StatusApproved, h_PaidAmount := 36\<rparr>, demo_rt],
     bill_item := [demo_sale_line 4, demo_return_line]\<rparr>"

definition demo_take_back :: ApproveReturnRequest where
  "demo_take_back = \<lparr> ar_TenantID = 11, ar_BillID = 1004, ar_CreatorID = 15, ar_Strict = True \<rparr>"

lemmas demo_return_defs = demo_returns_def demo_rt_def demo_return_line_def demo_bill_defs

lemma demo_returns_facts:
  "units_ok demo_returns" "book_on_grid demo_returns" "units_small demo_returns" "find_head 11 1004 demo_returns = Some demo_rt"
  "GetBillItems 11 1004 demo_returns = [demo_return_line]" "on_hand 11 12 13 demo_returns = 10"
  "base_qty demo_returns demo_return_line = 3" "\<not> seen_approved 11 1004 demo_returns" "approval_warehouse demo_rt demo_returns = Some 13"
  "return_line_ok demo_returns demo_return_line"
  by (simp_all add: units_ok_def book_on_grid_def units_small_def find_head_def head_at_def GetBillItems_def item_of_def on_hand_def
      GetSnapshot_def snap_at_def base_qty_def factor_of_def GetConversionFactor_def seen_approved_def GetBill_def scanBillHead_def
      approval_warehouse_def return_line_ok_def demo_return_defs)

lemma demo_return_cap: "\<forall>rem. return_cap E demo_rt demo_returns = Inr rem \<longrightarrow> left_on_grid rem"
  by (auto simp: return_cap_def resolveOriginBill_def LinkedBillID_def remainingBase_def GetBill_def find_head_def head_at_def scanBillHead_def
      is_sale_def GetBillItems_def item_of_def baseFactor_def returnedBase_def ReturnedQty_def joined_items_def gives_back_def qty_by_def
      left_on_grid_def deduct_def get0_def line_key_def demo_return_defs)

lemma demo_take_back_accepted: "\<not> isl (fst (ApproveReturn_Execute std_env True demo_exec demo_take_back demo_returns demo_returns))"
  by code_simp

theorem approve_return_books_witness:
  "\<exists>s' h'. ApproveReturn_Execute std_env True demo_exec demo_take_back demo_returns demo_returns = (Inr (), s')
     \<and> on_hand 11 12 13 s' = 13 \<and> find_head 11 1004 s' = Some h' \<and> h_Status h' = StatusApproved"
proof -
  obtain s' where r: "ApproveReturn_Execute std_env True demo_exec demo_take_back demo_returns demo_returns = (Inr (), s')"
    using not_isl_result [OF demo_take_back_accepted] by auto
  have k: "ar_TenantID demo_take_back = 11" "ar_BillID demo_take_back = 1004" "ar_Strict demo_take_back" by (simp_all add: demo_take_back_def)
  have st: "h_Status demo_rt = StatusDraft" "it_ProductID demo_return_line = 12"
    by (simp_all add: demo_rt_def blank_head_def demo_return_line_def demo_sale_line_def)
  note f = demo_returns_facts
  have g: "list_all (return_line_ok demo_returns) [demo_return_line]" using f(10) by simp
  have mv: "moved demo_returns 12 [demo_return_line] = 3" by (simp add: moved_def f(7) st)
  show ?thesis
    using approve_return_books [of std_env demo_returns demo_take_back demo_rt demo_returns None True, unfolded k(1,2) f(5),
      OF std_runtime f(1,3,2,4) st(1) g demo_return_cap f(8)] r k(3)
    by (auto simp: f(6,9) mv handed_back_def)
qed

end
