(* ===== verification/Return_Origin.thy ===== *)
theory Return_Origin
  imports Returns
begin

text \<open>
  The pointer from a return to the sale it gives back, as the importer writes it into the remark
  (\<open>internal/app/importing/usecase.go\<close>), as the parser reads it (\<open>internal/app/bill/return_origin.go\<close>)
  and as the queries match it (\<open>internal/adapter/repo/bill/return_cost.go\<close>).
\<close>

section \<open>Pointers survive the trip through a remark\<close>

text \<open>The remarks the importer writes on a cancellation and on a refund.\<close>

definition cancel_remark :: "env \<Rightarrow> string \<Rightarrow> string \<Rightarrow> uuid \<Rightarrow> string" where
  "cancel_remark E platform orderNo billID = ''cancel:'' @ platform @ '':'' @ orderNo @ '':original_bill_id='' @ uuid_string E billID"

definition refund_remark :: "string \<Rightarrow> string \<Rightarrow> string \<Rightarrow> string" where
  "refund_remark platform orderNo refundID = ''refund:'' @ platform @ '':'' @ orderNo @ '':refund_id='' @ refundID"

lemma find_rev_upt:
  assumes "P i" "i < n" "\<And>j. i < j \<Longrightarrow> j < n \<Longrightarrow> \<not> P j"
  shows "List.find P (rev [0..<n]) = Some i"
  using assms(2,3)
proof (induction n)
  case (Suc n)
  then show ?case using assms(1) by (cases "i = n") auto
qed simp

text \<open>A key that ends in a mark found nowhere else in it is last found where it was last written.\<close>

lemma LastIndex_key:
  assumes "c \<notin> set k" "c \<notin> set u"
  shows "LastIndex (pre @ (k @ [c]) @ u) (k @ [c]) = Some (length pre)"
  unfolding LastIndex_def
proof (rule find_rev_upt)
  show "prefix (k @ [c]) (drop (length pre) (pre @ (k @ [c]) @ u))" by simp
  fix j assume j: "length pre < j"
  show "\<not> prefix (k @ [c]) (drop j (pre @ (k @ [c]) @ u))"
  proof
    assume "prefix (k @ [c]) (drop j (pre @ (k @ [c]) @ u))"
    then obtain v where v: "drop (j - length pre) ((k @ [c]) @ u) = (k @ [c]) @ v" using j by (auto elim: prefixE)
    define d where "d = j - length pre"
    have d: "0 < d" "drop d ((k @ [c]) @ u) = (k @ [c]) @ v" using j v by (simp_all add: d_def)
    have "d + length k < length ((k @ [c]) @ u)" using arg_cong [OF d(2), of length] by simp
    then have i: "d - 1 < length u" "((k @ [c]) @ u) ! (d + length k) = u ! (d - 1)" using d(1) by (auto simp: nth_append)
    have "drop d ((k @ [c]) @ u) ! length k = c" unfolding d(2) by (simp add: nth_append)
    moreover have "drop d ((k @ [c]) @ u) ! length k = ((k @ [c]) @ u) ! (d + length k)"
      by (rule nth_drop) (use arg_cong [OF d(2), of length] in simp)
    ultimately have "u ! (d - 1) = c" using i(2) by simp
    then show False using i(1) assms(2) nth_mem by blast
  qed
qed simp

lemma LastIndex_None:
  assumes "\<And>a b. s \<noteq> a @ k @ b"
  shows "LastIndex s k = None"
  unfolding LastIndex_def find_None_iff using assms by (metis append_take_drop_id prefixE)

lemma Cut_first: "c \<notin> set a \<Longrightarrow> Cut (a @ c # b) [c] = Some (a, b)"
proof -
  assume c: "c \<notin> set a"
  have "List.find (\<lambda>i. prefix [c] (drop i (a @ c # b))) [0..<Suc (length (a @ c # b))] = Some (length a)"
    unfolding find_Some_iff
  proof (intro exI [of _ "length a"] conjI allI impI)
    fix j assume "j < length a"
    then show "\<not> prefix [c] (drop ([0..<Suc (length (a @ c # b))] ! j) (a @ c # b))"
      using c by (auto simp: drop_Cons' Cons_nth_drop_Suc [symmetric] nth_append dest: nth_mem)
  qed (simp_all add: nth_upt del: upt_Suc)
  then show ?thesis by (simp add: Cut_def)
qed

lemma trim_front_id:
  assumes "s = [] \<or> hd s \<notin> hd ` set ws"
  shows "trim_front ws s = s"
proof -
  have "take (length w) s \<noteq> w" if "w \<in> set ws" "w \<noteq> []" for w
  proof
    assume "take (length w) s = w"
    then have "s \<noteq> []" "hd s = hd w" using that(2) by (metis take_Nil, metis hd_take length_greater_0_conv)
    then show False using assms that(1) by force
  qed
  then have "leading ws s = None" unfolding leading_def find_None_iff by blast
  then show ?thesis by (simp add: trim_front.simps)
qed

lemma TrimSpace_id:
  assumes "list_all (\<lambda>c. c \<in> set uuid_chars) s"
  shows "TrimSpace s = s"
proof -
  have 1: "list_all (\<lambda>w. hd w \<notin> set uuid_chars) space_texts" "list_all (\<lambda>w. hd w \<notin> set uuid_chars) (map rev space_texts)"
    by code_simp+
  have "s = [] \<or> hd s \<in> set uuid_chars" using assms by (cases s) auto
  moreover have "rev s = [] \<or> hd (rev s) \<in> set uuid_chars" using assms by (cases s rule: rev_cases) auto
  ultimately have "trim_front space_texts s = s" "trim_front (map rev space_texts) (rev s) = rev s"
    using 1 by (auto simp: list_all_iff intro!: trim_front_id)
  then show ?thesis by (simp add: TrimSpace_def)
qed

lemma not_in_uuid:
  assumes "runtime_env E" "c \<notin> set uuid_chars"
  shows "c \<notin> set (uuid_string E u)"
  using runtime_env.uuid_string_chars [OF assms(1), of u] assms(2) by (auto simp: list_all_iff)

lemma ParseOriginRef_cancel:
  assumes "runtime_env E"
  shows "ParseOriginRef E (cancel_remark E platform orderNo b) = Some \<lparr> or_BillID = b, or_Platform = [], or_PlatformOrderNo = [] \<rparr>"
proof -
  let ?pre = "''cancel:'' @ platform @ '':'' @ orderNo @ '':''"
  have "CHR ''='' \<notin> set (uuid_string E b)" by (rule not_in_uuid [OF assms]) (simp add: uuid_chars_def)
  then have "LastIndex (?pre @ (''original_bill_id'' @ ''='') @ uuid_string E b) (''original_bill_id'' @ ''='') = Some (length ?pre)"
    by (intro LastIndex_key) simp_all
  moreover have "?pre @ (''original_bill_id'' @ ''='') @ uuid_string E b = cancel_remark E platform orderNo b"
    by (simp add: cancel_remark_def)
  moreover have "''original_bill_id'' @ ''='' = originBillIDKey" by (simp add: originBillIDKey_def)
  ultimately have i: "LastIndex (cancel_remark E platform orderNo b) originBillIDKey = Some (length ?pre)" by simp
  have "cancel_remark E platform orderNo b = (?pre @ originBillIDKey) @ uuid_string E b"
    by (simp add: cancel_remark_def originBillIDKey_def)
  then have "drop (length ?pre + length originBillIDKey) (cancel_remark E platform orderNo b) = uuid_string E b"
    by (metis append_eq_conv_conj length_append)
  then show ?thesis
    using TrimSpace_id [OF runtime_env.uuid_string_chars [OF assms]] runtime_env.uuid_Parse_string [OF assms]
    by (simp add: ParseOriginRef_def i)
qed

lemma one_mark:
  assumes "a @ k @ c # b = x @ c # y" "c \<notin> set x" "c \<notin> set y"
  shows "a @ k = x"
proof -
  have "filter (\<lambda>z. z = c) x = []" "filter (\<lambda>z. z = c) y = []" using assms(2,3) by (auto simp: filter_empty_conv)
  then have "filter (\<lambda>z. z = c) (a @ k @ c # b) = [c]" unfolding assms(1) by simp
  then have "filter (\<lambda>z. z = c) (a @ k) = []" by (auto simp: append_eq_Cons_conv)
  then have "c \<notin> set (a @ k)" by (auto simp: filter_empty_conv)
  then show ?thesis using split_at_first [of "a @ k" c b x y] assms by simp
qed

lemma ParseOriginRef_refund:
  assumes "CHR ''='' \<notin> set platform" "CHR '':'' \<notin> set platform" "platform \<noteq> []" "CHR ''='' \<notin> set orderNo" "orderNo \<noteq> []" "CHR ''='' \<notin> set refundID"
  shows "ParseOriginRef E (refund_remark platform orderNo refundID) = Some \<lparr> or_BillID = uuid_Nil, or_Platform = platform, or_PlatformOrderNo = orderNo \<rparr>"
proof -
  let ?x = "''refund:'' @ platform @ '':'' @ orderNo @ '':refund_id''"
  have r: "refund_remark platform orderNo refundID = ?x @ CHR ''='' # refundID" by (simp add: refund_remark_def)
  have n: "LastIndex (refund_remark platform orderNo refundID) originBillIDKey = None"
  proof (rule LastIndex_None, rule notI)
    fix a b assume "refund_remark platform orderNo refundID = a @ originBillIDKey @ b"
    then have "a @ ''original_bill_id'' @ CHR ''='' # b = ?x @ CHR ''='' # refundID" unfolding r originBillIDKey_def by simp
    then have "a @ ''original_bill_id'' = ?x" by (rule one_mark) (use assms in auto)
    then have "rev (a @ ''original_bill_id'') = rev ?x" by (rule arg_cong)
    then show False by simp
  qed
  have c: "Cut (platform @ CHR '':'' # (orderNo @ '':refund_id='' @ refundID)) '':'' = Some (platform, orderNo @ '':refund_id='' @ refundID)"
    by (rule Cut_first) (use assms(2) in simp)
  have l: "LastIndex (orderNo @ ('':refund_id'' @ ''='') @ refundID) ('':refund_id'' @ ''='') = Some (length orderNo)"
    by (rule LastIndex_key) (use assms(6) in simp_all)
  have k: "'':refund_id'' @ ''='' = refundIDKey" "CutPrefix (refund_remark platform orderNo refundID) ''refund:'' = Some (platform @ CHR '':'' # (orderNo @ '':refund_id='' @ refundID))"
    by (simp_all add: refundIDKey_def CutPrefix_def refund_remark_def)
  have "LastIndex (orderNo @ '':refund_id='' @ refundID) refundIDKey = Some (length orderNo)" using l unfolding k(1) by (simp add: refundIDKey_def)
  then show ?thesis using assms(3,5) unfolding ParseOriginRef_def n k(2) option.case c prod.case by simp
qed

text \<open>The mark that separates the parts of a remark does not occur inside one.\<close>

abbreviation plain :: "string \<Rightarrow> bool" where "plain x \<equiv> CHR ''='' \<notin> set x"

text \<open>
  The pointer from a return to its sale survives the trip through the remark.  Reading back what
  the importer writes on a cancellation gives the bill it named, whatever the platform and the order
  number hold; reading back a refund gives its platform and order number, when neither holds the
  mark the reader splits at.
\<close>

theorem origin_roundtrip:
  assumes "runtime_env E" "plain platform" "CHR '':'' \<notin> set platform" "platform \<noteq> []" "plain orderNo" "orderNo \<noteq> []" "plain refundID"
  shows "ParseOriginRef E (cancel_remark E p no b) = Some \<lparr> or_BillID = b, or_Platform = [], or_PlatformOrderNo = [] \<rparr>
    \<and> ParseOriginRef E (refund_remark platform orderNo refundID)
        = Some \<lparr> or_BillID = uuid_Nil, or_Platform = platform, or_PlatformOrderNo = orderNo \<rparr>"
  using ParseOriginRef_cancel [OF assms(1)] ParseOriginRef_refund [OF assms(2-7)] by simp

section \<open>The parser and the query agree\<close>

lemma sql_like_any: "sql_like ps y \<Longrightarrow> sql_like (CHR ''%'' # ps) (x @ y)"
  by (induction x) (cases y, auto)

lemma sql_like_literal:
  "list_all (\<lambda>c. c \<noteq> CHR ''%'' \<and> c \<noteq> CHR ''_'') u \<Longrightarrow> sql_like (u @ ps) (u @ y) = sql_like ps y"
  by (induction u) auto

lemma last_mark_split:
  assumes "a @ c # b = x @ c # d" "c \<notin> set b" "c \<notin> set d"
  shows "a = x \<and> b = d"
proof -
  have "rev b @ c # rev a = rev d @ c # rev x" using arg_cong [OF assms(1), of rev] by simp
  moreover have "c \<notin> set (rev b)" "c \<notin> set (rev d)" using assms(2,3) by simp_all
  ultimately have "rev b = rev d \<and> rev a = rev x" by (rule split_at_first)
  then show ?thesis by simp
qed

lemma sql_like_exact: "list_all (\<lambda>c. c \<noteq> CHR ''%'' \<and> c \<noteq> CHR ''_'') u \<Longrightarrow> sql_like u s \<longleftrightarrow> s = u"
proof (induction u arbitrary: s)
  case (Cons c u)
  then show ?case by (cases s) auto
qed simp

lemma sql_like_suffix:
  assumes "sql_like (ps @ u) s" "list_all (\<lambda>c. c \<noteq> CHR ''%'' \<and> c \<noteq> CHR ''_'') u"
  shows "\<exists>x. s = x @ u"
  using assms(1)
proof (induction ps s rule: sql_like.induct)
  case (1 s)
  then show ?case using sql_like_exact [OF assms(2)] by auto
next
  case (2 p ps)
  then show ?case by auto
next
  case (3 p ps d ds)
  show ?case
  proof (cases "p = CHR ''%''")
    case True
    then have "sql_like (ps @ u) (d # ds) \<or> sql_like ((p # ps) @ u) ds" using 3 by simp
    then show ?thesis using 3(1,2) True by (metis append_Cons)
  next
    case np: False
    show ?thesis
    proof (cases "p = CHR ''_''")
      case True
      then have "sql_like (ps @ u) (dropWhile continuation ds)" using 3 np by simp
      then obtain x where "dropWhile continuation ds = x @ u" using 3(3) np True by blast
      then have "d # ds = (d # takeWhile continuation ds @ x) @ u" by (metis append.assoc append_Cons takeWhile_dropWhile_id)
      then show ?thesis by blast
    next
      case False
      then have "sql_like (ps @ u) ds" using 3 np by simp
      then show ?thesis using 3(4) np False by (metis append_Cons)
    qed
  qed
qed

lemma uuid_literal:
  assumes "runtime_env E"
  shows "list_all (\<lambda>c. c \<noteq> CHR ''%'' \<and> c \<noteq> CHR ''_'') (uuid_string E u)" "CHR ''='' \<notin> set (uuid_string E u)"
proof -
  have "list_all (\<lambda>c. c \<noteq> CHR ''%'' \<and> c \<noteq> CHR ''_'' \<and> c \<noteq> CHR ''='') uuid_chars" by code_simp
  then show "list_all (\<lambda>c. c \<noteq> CHR ''%'' \<and> c \<noteq> CHR ''_'') (uuid_string E u)" "CHR ''='' \<notin> set (uuid_string E u)"
    using runtime_env.uuid_string_chars [OF assms, of u] unfolding list_all_iff by blast+
qed

lemma cancel_remark_like:
  assumes "runtime_env E"
  shows "sql_like (''cancel:%:original_bill_id='' @ uuid_string E sale) (cancel_remark E platform orderNo b) \<longleftrightarrow> sale = b"
proof
  assume "sql_like (''cancel:%:original_bill_id='' @ uuid_string E sale) (cancel_remark E platform orderNo b)"
  then have "sql_like (''cancel:%:original_bill_id'' @ (CHR ''='' # uuid_string E sale)) (cancel_remark E platform orderNo b)" by simp
  moreover have "list_all (\<lambda>c. c \<noteq> CHR ''%'' \<and> c \<noteq> CHR ''_'') (CHR ''='' # uuid_string E sale)" using uuid_literal [OF assms] by simp
  ultimately obtain x where x: "cancel_remark E platform orderNo b = x @ CHR ''='' # uuid_string E sale" using sql_like_suffix by blast
  have e: "cancel_remark E platform orderNo b
      = (''cancel:'' @ platform @ '':'' @ orderNo @ '':original_bill_id'') @ CHR ''='' # uuid_string E b" by (simp add: cancel_remark_def)
  have "(''cancel:'' @ platform @ '':'' @ orderNo @ '':original_bill_id'') @ CHR ''='' # uuid_string E b
      = x @ CHR ''='' # uuid_string E sale" using x unfolding e .
  from last_mark_split [OF this uuid_literal(2) [OF assms] uuid_literal(2) [OF assms]]
  have "uuid_string E b = uuid_string E sale" ..
  then show "sale = b" using runtime_env.uuid_string_inj [OF assms] by auto
next
  assume "sale = b"
  moreover have "sql_like (''id='' @ uuid_string E b) (''id='' @ uuid_string E b)"
    by (subst sql_like_exact) (use uuid_literal(1) [OF assms] in simp_all)
  then have "sql_like (''_id='' @ uuid_string E b) (''_id='' @ uuid_string E b)" by (simp add: continuation_def)
  then have "sql_like (''bill'' @ (''_id='' @ uuid_string E b)) (''bill'' @ (''_id='' @ uuid_string E b))" by (subst sql_like_literal) simp_all
  then have "sql_like (''_bill_id='' @ uuid_string E b) (''_bill_id='' @ uuid_string E b)" by (simp add: continuation_def)
  then have "sql_like ('':original'' @ (''_bill_id='' @ uuid_string E b)) ('':original'' @ (''_bill_id='' @ uuid_string E b))"
    by (subst sql_like_literal) simp_all
  then have "sql_like ('':original_bill_id='' @ uuid_string E b) ('':original_bill_id='' @ uuid_string E b)"
    by (simp only: append_Cons append_Nil)
  then have "sql_like (CHR ''%'' # '':original_bill_id='' @ uuid_string E b)
      ((platform @ '':'' @ orderNo) @ ('':original_bill_id='' @ uuid_string E b))"
    by (rule sql_like_any)
  then have "sql_like (''cancel:'' @ (CHR ''%'' # '':original_bill_id='' @ uuid_string E b))
      (''cancel:'' @ ((platform @ '':'' @ orderNo) @ ('':original_bill_id='' @ uuid_string E b)))"
    by (subst sql_like_literal) simp_all
  moreover have "''cancel:'' @ ((platform @ '':'' @ orderNo) @ ('':original_bill_id='' @ uuid_string E b)) = cancel_remark E platform orderNo b"
    by (simp add: cancel_remark_def)
  moreover have "''cancel:'' @ (CHR ''%'' # '':original_bill_id='' @ uuid_string E b) = ''cancel:%:original_bill_id='' @ uuid_string E b"
    by simp
  ultimately show "sql_like (''cancel:%:original_bill_id='' @ uuid_string E sale) (cancel_remark E platform orderNo b)" by (simp only:)
qed

text \<open>
  A cancellation counts against exactly the sale it names.  For an approved return that carries
  the remark of a cancellation and no link, the Go parser, which decides the cost and the cap at
  approval, and the SQL condition, which decides what later returns still have left, single out the
  same sale.
\<close>

theorem cancellation_counts_once:
  assumes "runtime_env E" "h_TenantID h = t" "h_SubType h = BillSubTypeSaleReturn" "h_Status h = StatusApproved" "\<not> h_deleted h"
    and "h_link_bill_id h = None" "h_Remark h = cancel_remark E platform orderNo b"
  shows "map_option or_BillID (ParseOriginRef E (h_Remark h)) = Some b \<and> (gives_back E t sale s h \<longleftrightarrow> sale = b)"
proof -
  have "\<not> prefix (''refund:'' @ x) (cancel_remark E platform orderNo b)" for x by (auto simp: cancel_remark_def)
  then show ?thesis
    unfolding gives_back_def using assms ParseOriginRef_cancel [OF assms(1)] cancel_remark_like [OF assms(1)] by (simp add: list_ex_iff)
qed

theorem origin_roundtrip_witness:
  "ParseOriginRef std_env (cancel_remark std_env ''shopify'' ''#1001'' 77) = Some \<lparr> or_BillID = 77, or_Platform = [], or_PlatformOrderNo = [] \<rparr>
    \<and> ParseOriginRef std_env (refund_remark ''shopify'' ''#1001:2'' ''9'') = Some \<lparr> or_BillID = uuid_Nil, or_Platform = ''shopify'', or_PlatformOrderNo = ''#1001:2'' \<rparr>"
  using origin_roundtrip [OF std_runtime, of "''shopify''" "''#1001:2''" "''9''" "''shopify''" "''#1001''" 77] by simp

theorem cancellation_counts_once_witness:
  "gives_back std_env 11 77 demo_returns
     (demo_rt\<lparr>h_Status := StatusApproved, h_link_bill_id := None, h_Remark := cancel_remark std_env ''shopify'' ''#1001'' 77\<rparr>)"
proof -
  let ?h = "demo_rt\<lparr>h_Status := StatusApproved, h_link_bill_id := None, h_Remark := cancel_remark std_env ''shopify'' ''#1001'' 77\<rparr>"
  have "h_TenantID ?h = 11" "h_SubType ?h = BillSubTypeSaleReturn" "h_Status ?h = StatusApproved" "\<not> h_deleted ?h" "h_link_bill_id ?h = None"
    "h_Remark ?h = cancel_remark std_env ''shopify'' ''#1001'' 77"
    by (simp_all add: demo_rt_def blank_head_def)
  from cancellation_counts_once [OF std_runtime this, of 77 demo_returns] show ?thesis by simp
qed

end
