(* ===== verification/Programs.thy ===== *)
theory Programs
  imports Store
begin

text \<open>
  Use cases that are not one transaction.  A webhook handler or a batch import runs several
  statements and transactions one after the other; what an earlier one committed stays when a
  later one fails.  Such a use case is a function from a state to a result and the state it leaves
  behind (\<open>prog\<close>).  \<open>bindP\<close> stops at the first error and keeps the state, \<open>tryP\<close> hands the error to
  the caller, and \<open>runTx\<close> makes a program of a single statement or transaction.
\<close>

type_synonym ('s, 'e, 'a) program = "'s \<Rightarrow> ('e + 'a) \<times> 's"
type_synonym 'a prog = "(db, err, 'a) program"

definition returnP :: "'a \<Rightarrow> ('s, 'e, 'a) program" where
  "returnP a s = (Inr a, s)"

definition failP :: "'e \<Rightarrow> ('s, 'e, 'a) program" where
  "failP e s = (Inl e, s)"

definition bindP :: "('s, 'e, 'a) program \<Rightarrow> ('a \<Rightarrow> ('s, 'e, 'b) program) \<Rightarrow> ('s, 'e, 'b) program" where
  "bindP m k s = (case m s of (Inl e, s') \<Rightarrow> (Inl e, s') | (Inr a, s') \<Rightarrow> k a s')"

definition thenP :: "('s, 'e, 'a) program \<Rightarrow> ('s, 'e, 'b) program \<Rightarrow> ('s, 'e, 'b) program" where
  "thenP m k = bindP m (\<lambda>_. k)"

definition tryP :: "('s, 'e, 'a) program \<Rightarrow> ('e + 'a \<Rightarrow> ('s, 'e, 'b) program) \<Rightarrow> ('s, 'e, 'b) program" where
  "tryP m k s = (case m s of (r, s') \<Rightarrow> k r s')"

definition mapErrP :: "('e \<Rightarrow> 'f) \<Rightarrow> ('s, 'e, 'a) program \<Rightarrow> ('s, 'f, 'a) program" where
  "mapErrP w m s = (case m s of (Inl e, s') \<Rightarrow> (Inl (w e), s') | (Inr a, s') \<Rightarrow> (Inr a, s'))"

definition readP :: "('s \<Rightarrow> 'a) \<Rightarrow> ('s, 'e, 'a) program" where
  "readP f s = (Inr (f s), s)"

definition queryP :: "('s \<Rightarrow> 'e + 'a) \<Rightarrow> ('s, 'e, 'a) program" where
  "queryP f s = (f s, s)"

definition liftP :: "'e + 'a \<Rightarrow> ('s, 'e, 'a) program" where
  "liftP r s = (r, s)"

primrec forP :: "('a \<Rightarrow> ('s, 'e, 'b) program) \<Rightarrow> 'a list \<Rightarrow> ('s, 'e, 'b list) program" where
  "forP f [] = returnP []"
| "forP f (x # xs) = bindP (f x) (\<lambda>y. bindP (forP f xs) (\<lambda>ys. returnP (y # ys)))"

primrec foldP :: "('a \<Rightarrow> 'b \<Rightarrow> ('s, 'e, 'b) program) \<Rightarrow> 'a list \<Rightarrow> 'b \<Rightarrow> ('s, 'e, 'b) program" where
  "foldP f [] = (\<lambda>acc. returnP acc)"
| "foldP f (x # xs) = (\<lambda>acc. bindP (f x acc) (foldP f xs))"

section \<open>The state a program leaves\<close>

text \<open>
  \<open>stays I m\<close>: the program leaves every state of \<open>I\<close> in \<open>I\<close>, whether it fails or not.
\<close>

definition stays :: "('s \<Rightarrow> bool) \<Rightarrow> ('s, 'e, 'a) program \<Rightarrow> bool" where
  "stays I m \<longleftrightarrow> (\<forall>s. I s \<longrightarrow> I (snd (m s)))"

named_theorems staysI \<open>introduction rules for invariants of programs\<close>

lemma staysD: "stays I m \<Longrightarrow> I s \<Longrightarrow> I (snd (m s))"
  by (simp add: stays_def)

lemma stays_simple [staysI]:
  "stays I (returnP a)" "stays I (failP e)" "stays I (readP f)" "stays I (queryP g)" "stays I (liftP r)"
  by (simp_all add: stays_def returnP_def failP_def readP_def queryP_def liftP_def)

lemma stays_bindP [staysI]: "stays I m \<Longrightarrow> (\<And>a. stays I (k a)) \<Longrightarrow> stays I (bindP m k)"
  by (fastforce simp: stays_def bindP_def split: prod.split sum.split)

lemma bindP_stays: "I (snd (m s)) \<Longrightarrow> (\<And>a. stays I (k a)) \<Longrightarrow> I (snd (bindP m k s))"
  by (cases "m s") (auto simp: bindP_def stays_def split: sum.split)

lemma stays_thenP [staysI]: "stays I m \<Longrightarrow> stays I k \<Longrightarrow> stays I (thenP m k)"
  by (simp add: thenP_def stays_bindP)

lemma stays_tryP [staysI]: "stays I m \<Longrightarrow> (\<And>r. stays I (k r)) \<Longrightarrow> stays I (tryP m k)"
  by (fastforce simp: stays_def tryP_def split: prod.split)

lemma stays_mapErrP [staysI]: "stays I m \<Longrightarrow> stays I (mapErrP w m)"
  by (fastforce simp: stays_def mapErrP_def split: prod.split sum.split)

lemma stays_if [staysI]: "(b \<Longrightarrow> stays I m) \<Longrightarrow> (\<not> b \<Longrightarrow> stays I k) \<Longrightarrow> stays I (if b then m else k)"
  by simp

lemma stays_forP [staysI]: "(\<And>x. stays I (f x)) \<Longrightarrow> stays I (forP f xs)"
  by (induction xs) (simp_all add: staysI)

lemma stays_foldP [staysI]: "(\<And>x acc. stays I (f x acc)) \<Longrightarrow> stays I (foldP f xs acc)"
  by (induction xs arbitrary: acc) (simp_all add: staysI)

lemma stays_case_sum [staysI]: "(\<And>a. stays I (f a)) \<Longrightarrow> (\<And>b. stays I (g b)) \<Longrightarrow> stays I (case x of Inl a \<Rightarrow> f a | Inr b \<Rightarrow> g b)"
  by (cases x) simp_all

lemma stays_case_option [staysI]: "stays I m \<Longrightarrow> (\<And>a. stays I (h a)) \<Longrightarrow> stays I (case y of None \<Rightarrow> m | Some a \<Rightarrow> h a)"
  by (cases y) simp_all

lemma stays_case_prod [staysI]: "(\<And>a b. stays I (k a b)) \<Longrightarrow> stays I (case z of (a, b) \<Rightarrow> k a b)"
  by (cases z) simp

text \<open>A transaction stays in an invariant that its body establishes when it commits.\<close>

lemma stays_runTx: "preserves I m \<Longrightarrow> stays I (runTx m)"
  by (auto simp: stays_def runTx_def triple_def split: sum.split)

section \<open>What a program returns\<close>

lemma bindP_Inr: "bindP m k s = (Inr b, s'') \<longleftrightarrow> (\<exists>a s'. m s = (Inr a, s') \<and> k a s' = (Inr b, s''))"
  by (auto simp: bindP_def split: prod.split sum.split)

lemma bindP_readP [simp]: "bindP (readP f) k s = k (f s) s"
  by (simp add: bindP_def readP_def)

lemma tryP_readP [simp]: "tryP (readP f) k s = k (Inr (f s)) s"
  by (simp add: tryP_def readP_def)

lemma bindP_liftP [simp]: "bindP (liftP (Inr a)) k s = k a s" "bindP (liftP (Inl e)) k s = (Inl e, s)"
  by (simp_all add: bindP_def liftP_def)

lemma thenP_liftP [simp]: "thenP (liftP (Inr a)) k s = k s" "thenP (liftP (Inl e)) k s = (Inl e, s)"
  by (simp_all add: thenP_def)

section \<open>ORDER BY\<close>

lemma sort_key_Nil_iff [simp]: "sort_key f xs = [] \<longleftrightarrow> xs = []"
  by (metis length_0_conv length_sort)

end
