(* ===== verification/Import_Repo.thy ===== *)
theory Import_Repo
  imports Programs Return_Repo
begin

text \<open>
  The tables of the order import (\<open>internal/adapter/repo/importing\<close>): which product a platform's
  SKU stands for, and which orders, cancellations and refunds have been taken in already.

  A write of one of the deduplication rows may be lost (the connection may fail after the bill is
  committed), which the callers handle: the argument \<open>up\<close> of the three \<open>Mark\<close> operations says
  whether the write reaches the database.
\<close>

section \<open>SKU mappings\<close>

definition mapping_at :: "uuid \<Rightarrow> string \<Rightarrow> string \<Rightarrow> SKUMapping \<Rightarrow> bool" where
  "mapping_at t platform sku m \<longleftrightarrow> sm_TenantID m = t \<and> sm_Platform m = platform \<and> sm_PlatformSKU m = sku"

definition GetMapping :: "uuid \<Rightarrow> string \<Rightarrow> string \<Rightarrow> db \<Rightarrow> SKUMapping option" where
  "GetMapping t platform sku s = List.find (mapping_at t platform sku) (import_sku_map s)"

definition UpsertMapping :: "env \<Rightarrow> SKUMapping \<Rightarrow> unit op" where
  "UpsertMapping E m =
     bindE (if sm_ID m = uuid_Nil then uuid_New E else returnE (sm_ID m)) (\<lambda>i.
     modifyE (\<lambda>s. s\<lparr>import_sku_map := upsert (mapping_at (sm_TenantID m) (sm_Platform m) (sm_PlatformSKU m))
       (\<lambda>x. x\<lparr>sm_ProductID := sm_ProductID m, sm_UpdatedAt := now E\<rparr>)
       (m\<lparr>sm_ID := i, sm_CreatedAt := now E, sm_UpdatedAt := now E\<rparr>) (import_sku_map s)\<rparr>))"

text \<open>The list is ordered by platform and SKU; the order of the collation is left to the argument.\<close>

definition ListMappings :: "(SKUMapping list \<Rightarrow> SKUMapping list) \<Rightarrow> uuid \<Rightarrow> string \<Rightarrow> db \<Rightarrow> SKUMapping list" where
  "ListMappings ordered t platform s =
     ordered (filter (\<lambda>m. sm_TenantID m = t \<and> (platform = [] \<or> sm_Platform m = platform)) (import_sku_map s))"

section \<open>Orders\<close>

definition import_remark :: "string \<Rightarrow> string \<Rightarrow> string" where
  "import_remark platform orderNo = ''import:'' @ platform @ '':'' @ orderNo"

definition order_at :: "uuid \<Rightarrow> string \<Rightarrow> string \<Rightarrow> ImportOrderSeen \<Rightarrow> bool" where
  "order_at t platform orderNo r \<longleftrightarrow> ios_tenant_id r = t \<and> ios_platform r = platform \<and> ios_platform_order_no r = orderNo"

definition MarkOrderSeen :: "bool \<Rightarrow> uuid \<Rightarrow> string \<Rightarrow> string \<Rightarrow> uuid \<Rightarrow> unit op" where
  "MarkOrderSeen up t platform orderNo billID =
     (if \<not> up then failE (Wrap ''import repo: mark order seen'' (ErrMsg ''connection''))
      else modifyE (\<lambda>s. s\<lparr>import_order_seen := upsert (order_at t platform orderNo) (\<lambda>x. x)
             \<lparr> ios_tenant_id = t, ios_platform = platform, ios_platform_order_no = orderNo, ios_bill_id = billID \<rparr> (import_order_seen s)\<rparr>))"

text \<open>The newest live bill whose remark names the order.\<close>

definition orphan_bill :: "uuid \<Rightarrow> string \<Rightarrow> db \<Rightarrow> uuid option" where
  "orphan_bill t remark s =
     (case sort_key (\<lambda>h. - h_CreatedAt h) (filter (\<lambda>h. h_TenantID h = t \<and> h_Remark h = remark \<and> \<not> h_deleted h) (bill_head s)) of
        [] \<Rightarrow> None | h # _ \<Rightarrow> Some (h_ID h))"

definition IsOrderSeen :: "bool \<Rightarrow> uuid \<Rightarrow> string \<Rightarrow> string \<Rightarrow> uuid option prog" where
  "IsOrderSeen up t platform orderNo =
     bindP (readP (ImportedOrderBillID t platform orderNo)) (\<lambda>hit.
     case hit of
       Some b \<Rightarrow> returnP (Some b)
     | None \<Rightarrow>
         bindP (readP (orphan_bill t (import_remark platform orderNo))) (\<lambda>orphan.
         case orphan of
           None \<Rightarrow> returnP None
         | Some b \<Rightarrow> tryP (runTx (MarkOrderSeen up t platform orderNo b)) (\<lambda>_. returnP (Some b))))"

section \<open>Cancellations and refunds\<close>

definition cancel_at :: "uuid \<Rightarrow> string \<Rightarrow> string \<Rightarrow> ImportCancelSeen \<Rightarrow> bool" where
  "cancel_at t platform orderNo r \<longleftrightarrow> ics_tenant_id r = t \<and> ics_platform r = platform \<and> ics_platform_order_no r = orderNo"

definition IsCancelSeen :: "uuid \<Rightarrow> string \<Rightarrow> string \<Rightarrow> db \<Rightarrow> (uuid \<times> uuid) option" where
  "IsCancelSeen t platform orderNo s =
     map_option (\<lambda>r. (ics_original_bill_id r, ics_reversal_bill_id r))
       (List.find (cancel_at t platform orderNo) (import_order_cancel_seen s))"

definition MarkCancelSeen :: "bool \<Rightarrow> uuid \<Rightarrow> string \<Rightarrow> string \<Rightarrow> uuid \<Rightarrow> uuid \<Rightarrow> unit op" where
  "MarkCancelSeen up t platform orderNo original reversal =
     (if \<not> up then failE (Wrap ''import repo: mark cancel seen'' (ErrMsg ''connection''))
      else modifyE (\<lambda>s. s\<lparr>import_order_cancel_seen := upsert (cancel_at t platform orderNo)
             (\<lambda>x. if ics_reversal_bill_id x = uuid_Nil \<and> reversal \<noteq> uuid_Nil
                  then x\<lparr>ics_original_bill_id := original, ics_reversal_bill_id := reversal\<rparr> else x)
             \<lparr> ics_tenant_id = t, ics_platform = platform, ics_platform_order_no = orderNo,
               ics_original_bill_id = original, ics_reversal_bill_id = reversal \<rparr> (import_order_cancel_seen s)\<rparr>))"

definition refund_at :: "uuid \<Rightarrow> string \<Rightarrow> string \<Rightarrow> ImportRefundSeen \<Rightarrow> bool" where
  "refund_at t platform refundID r \<longleftrightarrow> irs_tenant_id r = t \<and> irs_platform r = platform \<and> irs_platform_refund_id r = refundID"

definition IsRefundSeen :: "uuid \<Rightarrow> string \<Rightarrow> string \<Rightarrow> db \<Rightarrow> uuid option" where
  "IsRefundSeen t platform refundID s = map_option irs_bill_id (List.find (refund_at t platform refundID) (import_refund_seen s))"

definition MarkRefundSeen :: "bool \<Rightarrow> uuid \<Rightarrow> string \<Rightarrow> string \<Rightarrow> string \<Rightarrow> uuid \<Rightarrow> unit op" where
  "MarkRefundSeen up t platform orderNo refundID billID =
     (if \<not> up then failE (Wrap ''import repo: mark refund seen'' (ErrMsg ''connection''))
      else modifyE (\<lambda>s. s\<lparr>import_refund_seen := upsert (refund_at t platform refundID) (\<lambda>x. x)
             \<lparr> irs_tenant_id = t, irs_platform = platform, irs_platform_order_no = orderNo, irs_platform_refund_id = refundID,
               irs_bill_id = billID \<rparr> (import_refund_seen s)\<rparr>))"

definition ReversalBillNo :: "uuid \<Rightarrow> uuid \<Rightarrow> db \<Rightarrow> string" where
  "ReversalBillNo t b s =
     (case List.find (\<lambda>h. h_ID h = b \<and> h_TenantID h = t) (bill_head s) of None \<Rightarrow> [] | Some h \<Rightarrow> h_BillNo h)"

end
