(* ===== verification/Currency.thy ===== *)
theory Currency
  imports Programs
begin

text \<open>
  Exchange rates (\<open>internal/domain/currency\<close>, \<open>internal/app/currency\<close>,
  \<open>internal/adapter/repo/currency\<close>): the rate in force on a day, and the rates entered by hand.
  The reference table of currencies is static and left out, with its foreign keys.
\<close>

abbreviation "SourceManual \<equiv> ''manual''"

definition rate_for :: "uuid \<Rightarrow> string \<Rightarrow> string \<Rightarrow> ExchangeRate \<Rightarrow> bool" where
  "rate_for t from to r \<longleftrightarrow> xr_TenantID r = t \<and> xr_FromCurrency r = from \<and> xr_ToCurrency r = to"

definition GetRateOn :: "uuid \<Rightarrow> string \<Rightarrow> string \<Rightarrow> gotime \<Rightarrow> db \<Rightarrow> ExchangeRate option" where
  "GetRateOn t from to date s =
     (case sort_key (\<lambda>r. - xr_EffectiveAt r) (filter (\<lambda>r. rate_for t from to r \<and> xr_EffectiveAt r \<le> date) (exchange_rate s)) of
        [] \<Rightarrow> None | r # _ \<Rightarrow> Some r)"

definition stored_rate :: "env \<Rightarrow> ExchangeRate \<Rightarrow> ExchangeRate" where
  "stored_rate E r = r\<lparr>xr_Rate := numeric E 8 (xr_Rate r)\<rparr>"

definition SaveRate :: "env \<Rightarrow> ExchangeRate \<Rightarrow> unit op" where
  "SaveRate E r =
     (if \<not> 0 < numeric E 8 (xr_Rate r) then failE (Wrap ''currency repo: save rate'' (ErrCheckViolation ''exchange_rate''))
      else modifyE (\<lambda>s. s\<lparr>exchange_rate := upsert
             (\<lambda>x. rate_for (xr_TenantID r) (xr_FromCurrency r) (xr_ToCurrency r) x \<and> xr_EffectiveAt x = xr_EffectiveAt r)
             (\<lambda>x. x\<lparr>xr_Rate := numeric E 8 (xr_Rate r), xr_Source := xr_Source r\<rparr>) (stored_rate E r) (exchange_rate s)\<rparr>))"

definition ListRateHistory :: "env \<Rightarrow> uuid \<Rightarrow> string \<Rightarrow> string \<Rightarrow> int \<Rightarrow> db \<Rightarrow> ExchangeRate list" where
  "ListRateHistory E t from to days s =
     sort_key xr_EffectiveAt (filter (\<lambda>r. rate_for t from to r \<and> now E - days * 86400 * 1000000000 \<le> xr_EffectiveAt r) (exchange_rate s))"

section \<open>Use cases\<close>

record RateResult =
  rr_Rate :: rat
  rr_Source :: string
  rr_Warning :: string

definition GetRate_Execute :: "uuid \<Rightarrow> string \<Rightarrow> string \<Rightarrow> gotime \<Rightarrow> db \<Rightarrow> RateResult" where
  "GetRate_Execute t from to date s =
     (if from = to then \<lparr> rr_Rate = 1, rr_Source = SourceManual, rr_Warning = [] \<rparr>
      else case GetRateOn t from to date s of
             None \<Rightarrow> \<lparr> rr_Rate = 1, rr_Source = ''default'', rr_Warning = ''no_rate_found'' \<rparr>
           | Some r \<Rightarrow> \<lparr> rr_Rate = xr_Rate r, rr_Source = xr_Source r, rr_Warning = [] \<rparr>)"

record CreateRateRequest =
  cx_TenantID :: uuid
  cx_FromCurrency :: string
  cx_ToCurrency :: string
  cx_Rate :: rat
  cx_EffectiveAt :: gotime

definition create_rate_checks :: "CreateRateRequest \<Rightarrow> err + unit" where
  "create_rate_checks req =
     (if cx_TenantID req = uuid_Nil then Inl (Wrap ''tenant_id is required'' ErrCurrencyValidation)
      else if cx_Rate req = 0 \<or> cx_Rate req < 0 then Inl (Wrap ''rate must be positive'' ErrCurrencyValidation)
      else if cx_FromCurrency req = [] then Inl (Wrap ''from_currency is required'' ErrCurrencyValidation)
      else if cx_ToCurrency req = [] then Inl (Wrap ''to_currency is required'' ErrCurrencyValidation)
      else if cx_FromCurrency req = cx_ToCurrency req
           then Inl (Wrap ''from_currency and to_currency must differ'' ErrCurrencyValidation)
      else if cx_EffectiveAt req = 0 then Inl (Wrap ''effective_at is required'' ErrCurrencyValidation)
      else Inr ())"

definition CreateRate_Execute :: "env \<Rightarrow> CreateRateRequest \<Rightarrow> db \<Rightarrow> (err + ExchangeRate) \<times> db" where
  "CreateRate_Execute E req = runTx (
     thenE (liftE (create_rate_checks req))
     (bindE (uuid_New E) (\<lambda>i.
      let r = \<lparr> xr_ID = i, xr_TenantID = cx_TenantID req, xr_FromCurrency = cx_FromCurrency req, xr_ToCurrency = cx_ToCurrency req,
                xr_Rate = cx_Rate req, xr_Source = SourceManual, xr_EffectiveAt = cx_EffectiveAt req, xr_CreatedAt = now E \<rparr>
      in thenE (mapErr (Wrap ''create rate'') (SaveRate E r)) (returnE r))))"

definition ListRateHistory_Execute :: "env \<Rightarrow> uuid \<Rightarrow> string \<Rightarrow> string \<Rightarrow> int \<Rightarrow> db \<Rightarrow> ExchangeRate list" where
  "ListRateHistory_Execute E t from to days s =
     (let days = (if days \<le> 0 then 30 else days); days = (if 365 < days then 365 else days)
      in ListRateHistory E t from to days s)"

section \<open>The rate in force\<close>

text \<open>The rate of a day is the latest one that had taken effect.\<close>

lemma GetRateOn_Some:
  assumes "GetRateOn t from to date s = Some r"
  shows "r \<in> set (exchange_rate s)" "rate_for t from to r" "xr_EffectiveAt r \<le> date"
    "\<And>x. x \<in> set (exchange_rate s) \<Longrightarrow> rate_for t from to x \<Longrightarrow> xr_EffectiveAt x \<le> date \<Longrightarrow> xr_EffectiveAt x \<le> xr_EffectiveAt r"
proof -
  let ?rows = "filter (\<lambda>r. rate_for t from to r \<and> xr_EffectiveAt r \<le> date) (exchange_rate s)"
  obtain rest where e: "sort_key (\<lambda>r. - xr_EffectiveAt r) ?rows = r # rest" using assms by (auto simp: GetRateOn_def split: list.splits)
  have "set (r # rest) = set ?rows" unfolding e [symmetric] by simp
  then have m: "r \<in> set ?rows" by auto
  then show "r \<in> set (exchange_rate s)" "rate_for t from to r" "xr_EffectiveAt r \<le> date" by auto
  have so: "sorted (map (\<lambda>r. - xr_EffectiveAt r) (r # rest))" unfolding e [symmetric] by simp
  fix x assume "x \<in> set (exchange_rate s)" "rate_for t from to x" "xr_EffectiveAt x \<le> date"
  then have "x \<in> set ?rows" by simp
  then have "x \<in> set (r # rest)" using \<open>set (r # rest) = set ?rows\<close> by simp
  then show "xr_EffectiveAt x \<le> xr_EffectiveAt r" using so by auto
qed

lemma GetRateOn_None:
  "GetRateOn t from to date s = None \<longleftrightarrow> (\<forall>r \<in> set (exchange_rate s). rate_for t from to r \<longrightarrow> date < xr_EffectiveAt r)"
proof -
  let ?rows = "filter (\<lambda>r. rate_for t from to r \<and> xr_EffectiveAt r \<le> date) (exchange_rate s)"
  have "GetRateOn t from to date s = None \<longleftrightarrow> ?rows = []"
    by (auto simp: GetRateOn_def split: list.splits)
  then show ?thesis by (auto simp: filter_empty_conv not_le)
qed

end
