(* ===== verification/Bill_Views.thy ===== *)
theory Bill_Views
  imports Programs Returns
begin

text \<open>
  What the use cases leave of the bill table.  A view of a head that does not show the warehouse
  and the paid amount is kept by everything an approval does before it writes the status; a view
  that does not show the status either is kept by the whole approval.
\<close>

definition views :: "(BillHead \<Rightarrow> 'v) \<Rightarrow> db \<Rightarrow> 'v list" where
  "views v s = map v (bill_head s)"

lemma views_eq: "bill_head s' = bill_head s \<Longrightarrow> views v s' = views v s"
  by (simp add: views_def)

lemma views_updates [simp]:
  "views v (s\<lparr>draws := n\<rparr>) = views v s" "views v (s\<lparr>bill_item := x1\<rparr>) = views v s" "views v (s\<lparr>payment_head := x2\<rparr>) = views v s"
  "views v (s\<lparr>bill_sequence := x3\<rparr>) = views v s" "views v (s\<lparr>import_order_seen := x4\<rparr>) = views v s"
  "views v (s\<lparr>import_order_cancel_seen := x5\<rparr>) = views v s" "views v (s\<lparr>import_refund_seen := x6\<rparr>) = views v s"
  "views v (s\<lparr>import_sku_map := x7\<rparr>) = views v s" "views v (s\<lparr>audit_log := x8\<rparr>) = views v s"
  by (simp_all add: views_def)

lemma views_update_where: "(\<And>h. v (f h) = v h) \<Longrightarrow> views v (s\<lparr>bill_head := update_where p f (bill_head s)\<rparr>) = views v s"
  by (simp add: views_def map_update_where_key)

lemma views_head_update: "(\<And>h. v (f h) = v h) \<Longrightarrow> views v (head_update t b f s) = views v s"
  by (simp add: head_update_def views_update_where)

lemma untouched_intros [tripleI]:
  "untouched p (returnE a)" "untouched p (failE e)" "untouched p (readE f)" "untouched p (queryE g)" "untouched p (liftE r)"
  by (rule untouchedI, intro tripleI)+

lemma untouchedI': "(\<And>s a s'. m s = Inr (a, s') \<Longrightarrow> p s' = p s) \<Longrightarrow> untouched p m"
  by (auto simp: untouched_def triple_def)

lemma untouched_bindE [tripleI]: "untouched p m \<Longrightarrow> (\<And>a. untouched p (f a)) \<Longrightarrow> untouched p (bindE m f)"
  unfolding untouched_def by (blast intro: preserves_bindE)

lemma untouched_thenE [tripleI]: "untouched p m \<Longrightarrow> untouched p k \<Longrightarrow> untouched p (thenE m k)"
  unfolding untouched_def by (blast intro: preserves_thenE)

lemma untouched_mapErr [tripleI]: "untouched p m \<Longrightarrow> untouched p (mapErr w m)"
  unfolding untouched_def by (blast intro: preserves_mapErr)

lemma untouched_whenE [tripleI]: "(b \<Longrightarrow> untouched p m) \<Longrightarrow> untouched p (whenE b m)"
  by (auto simp: whenE_def intro: untouched_intros)

lemma untouched_if [tripleI]: "(b \<Longrightarrow> untouched p m) \<Longrightarrow> (\<not> b \<Longrightarrow> untouched p n) \<Longrightarrow> untouched p (if b then m else n)"
  by simp

lemma untouched_case [tripleI]:
  "untouched p m \<Longrightarrow> (\<And>a. untouched p (f a)) \<Longrightarrow> untouched p (case x of None \<Rightarrow> m | Some a \<Rightarrow> f a)"
  "(\<And>a b. untouched p (g a b)) \<Longrightarrow> untouched p (case y of (a, b) \<Rightarrow> g a b)"
  by (cases x, auto) (cases y, auto)

lemma untouched_forE [tripleI]: "(\<And>x. untouched p (f x)) \<Longrightarrow> untouched p (forE f xs)"
  unfolding untouched_def by (blast intro: preserves_forE)

lemma untouched_foldE [tripleI]: "(\<And>x acc. untouched p (f x acc)) \<Longrightarrow> untouched p (foldE f xs acc)"
  by (induction xs arbitrary: acc) (auto intro!: tripleI)

lemma untouched_views [tripleI]:
  "untouched (views v) (uuid_New E)" "untouched (views v) (Payment_Record E p)" "untouched (views v) (NextBillNo E t x)"
  "untouched (views v) (UpdateItemPurchasePrice E t i c)" "untouched (views v) (GetBillForUpdate t b)"
  by (auto simp: untouched_def triple_def Payment_Record_def bindE_Inr UpdateItemPurchasePrice_def GetBillForUpdate_Inr split: if_splits
      dest!: NextBillNo_Inr(3))

lemma views_GetBill:
  assumes "views v s' = views v s" "\<And>h. u (v h) = (h_ID h, h_TenantID h, h_deleted h)"
  shows "map_option v (find_head t b s') = map_option v (find_head t b s)"
  unfolding find_head_def
  by (rule find_view [where Q = "\<lambda>x. u x = (b, t, False)"]) (use assms in \<open>auto simp: views_def head_at_def\<close>)

section \<open>Everything up to the status\<close>

locale head_view =
  fixes v :: "BillHead \<Rightarrow> 'v"
  assumes v_warehouse: "v (set_warehouse E w h) = v h"
    and v_paid: "v (set_paid E a h) = v h"
begin

lemma resolveApprovalWarehouse_view: "untouched (views v) (resolveApprovalWarehouse E head t b)"
proof (rule untouchedI')
  fix s w s' assume "resolveApprovalWarehouse E head t b s = Inr (w, s')"
  from resolveApprovalWarehouse_Inr [OF this] show "views v s' = views v s"
    by (auto simp: views_head_update [where f = "set_warehouse E w"] v_warehouse)
qed

lemma UpdatePaidAmount_view: "untouched (views v) (UpdatePaidAmount E t b a)"
  by (rule untouchedI') (auto simp: UpdatePaidAmount_Inr views_head_update [where f = "set_paid E a"] v_paid)

lemma recordInitialPayment_view: "untouched (views v) (recordInitialPayment E head t b c a pm w r)"
  unfolding recordInitialPayment_def by (intro tripleI UpdatePaidAmount_view)

end

text \<open>The same for the movements of an approval.\<close>

context stock_executor
begin

lemma exec_view: "untouched (views v) (exec r)"
  by (rule untouchedI', rule views_eq, rule beyond_stockD(1), rule exec_frame)

lemma ship_line_view: "untouched (views v) (ship_line E exec req w item)"
proof (rule untouchedI')
  fix s l s' assume "ship_line E exec req w item s = Inr (l, s')"
  then show "views v s' = views v s"
  proof (cases rule: ship_line_cases)
    case (shipped conv f snap s1)
    then show ?thesis using untouchedD [OF exec_view [of v] shipped(2)] untouchedD [OF untouched_views(4) shipped(3), of v] by simp
  qed simp
qed

lemma return_line_view: "untouched (views v) (return_line E units exec req w origin strict item acc)"
  unfolding return_line_def by (cases acc) (auto intro!: tripleI exec_view)

end

section \<open>Views without the status\<close>

locale steady_view = head_view +
  assumes v_status: "v (h\<lparr>h_Status := st, h_UpdatedAt := u, h_ApprovedAt := a, h_ApprovedBy := b, h_Revision := r\<rparr>) = v h"
begin

lemma UpdateBillStatus_view: "untouched (views v) (UpdateBillStatus E t b st ap rv)"
  by (auto simp: UpdateBillStatus_def untouched_def triple_def views_update_where v_status)

lemma close_sale_view: "untouched (views v) (close_sale E req head)"
  unfolding close_sale_def by (intro tripleI UpdateBillStatus_view recordInitialPayment_view)

lemma close_return_view: "untouched (views v) (close_return E req nothing)"
  unfolding close_return_def by (intro tripleI UpdateBillStatus_view)

lemma ApproveSale_views:
  assumes "stock_executor E exec"
  shows "views v (snd (ApproveSale_Execute E exec req pre s)) = views v s"
proof -
  have tx: "untouched (views v) (ApproveSale_executeInTx E exec req)"
    unfolding ApproveSale_executeInTx_def [abs_def] Let_def
    by (intro tripleI resolveApprovalWarehouse_view close_sale_view stock_executor.ship_line_view [OF assms])
  have "untouched (views v) (if as_TenantID req = uuid_Nil then failE (ErrMsg ''approve sale: tenant_id is required'')
     else if as_BillID req = uuid_Nil then failE (ErrMsg ''approve sale: bill_id is required'')
     else if as_PaidAmount req < 0 then failE (Wrap ''approve sale: paid_amount must be non-negative'' ErrValidation)
     else bindE (liftE (resolvePayType (as_PayType req))) (\<lambda>_.
       if seen_approved (as_TenantID req) (as_BillID req) pre
       then thenE (liftE (alreadyApprovedResult req)) (returnE [])
       else ApproveSale_executeInTx E exec req))" (is "untouched _ ?m")
    by (intro tripleI tx)
  then show ?thesis
    unfolding ApproveSale_Execute_def by (cases "?m s") (auto simp: runTx_def dest: untouchedD)
qed

lemma ApproveReturn_views:
  assumes "stock_executor E exec"
  shows "views v (snd (ApproveReturn_Execute E units exec req pre s)) = views v s"
proof -
  have "untouched (views v) (approve_return_tx E units exec req)"
    unfolding approve_return_tx_def [abs_def] Let_def sale_left_def strict_check_def
    by (intro tripleI resolveApprovalWarehouse_view close_return_view stock_executor.return_line_view [OF assms])
  then show ?thesis
    by (cases "approve_return_tx E units exec req s") (auto simp: ApproveReturn_Execute_def runTx_def dest: untouchedD)
qed

end

section \<open>New bills\<close>

lemma persist_bill_views:
  assumes "persist_bill E who px h items s = Inr ((i, no), s')"
  shows "views v s' = views v s @ [v (created_head E (h\<lparr>h_BillNo := no\<rparr>))]" "i = h_ID h"
proof -
  obtain s1 where n: "NextBillNo E (h_TenantID h) px s = Inr (no, s1)" and c: "CreateBill E (h\<lparr>h_BillNo := no\<rparr>) items s1 = Inr ((), s')"
    and i: "i = h_ID h" using assms by (auto simp: persist_bill_def bindE_Inr thenE_Inr)
  show "i = h_ID h" by (fact i)
  show "views v s' = views v s @ [v (created_head E (h\<lparr>h_BillNo := no\<rparr>))]"
    using c untouchedD [OF untouched_views(3) n, of v] by (auto simp: CreateBill_Inr views_def)
qed

lemma CreateSale_views:
  obtains e where "CreateSale_Execute E req s = (Inl e, s)"
  | i no items amount s' where "CreateSale_Execute E req s = (Inr (i, no), s')"
      "\<And>v :: BillHead \<Rightarrow> 'v. views v s' = views v s @ [v (created_head E ((sale_head E req i items amount)\<lparr>h_BillNo := no\<rparr>))]"
proof (cases "CreateSale_Execute E req s")
  case (Pair r s')
  show ?thesis
  proof (cases r)
    case (Inl e)
    then show ?thesis using Pair that(1) by (auto simp: CreateSale_Execute_def runTx_def split: sum.splits)
  next
    case (Inr x)
    obtain i no where x: "x = (i, no)" by force
    obtain items s1 bs where b: "forE (build_item E (cs_TenantID req) uuid_Nil) (cs_Items req) s = Inr (items, s1)"
      and p: "persist_bill E ''create sale draft'' ''SL'' (sale_head E req (new_uuid E (draws s1)) items
          (dround E 2 (line_total items + cs_ShippingFee req + cs_TaxAmount req))) bs (s1\<lparr>draws := Suc (draws s1)\<rparr>) = Inr ((i, no), s')"
      using Pair unfolding Inr x CreateSale_Execute_def runTx_Inr
      by (auto simp: thenE_liftE_Inr bindE_Inr Let_def thenE_queryE_Inr)
    have s1: "views v s1 = views v s" for v :: "BillHead \<Rightarrow> 'v" using build_items_Inr [OF b] by simp
    have i: "i = new_uuid E (draws s1)" using persist_bill_views(2) [OF p] by (simp add: sale_head_def)
    have "views v s' = views v s @ [v (created_head E ((sale_head E req i items
        (dround E 2 (line_total items + cs_ShippingFee req + cs_TaxAmount req)))\<lparr>h_BillNo := no\<rparr>))]" for v :: "BillHead \<Rightarrow> 'v"
      using persist_bill_views(1) [OF p, of v] s1 [of v] i by simp
    then show ?thesis by (intro that(2)) (use Pair Inr x in auto)
  qed
qed

text \<open>A return that names no sale by id: the head it appends, and its link is left empty.\<close>

lemma CreateReturn_views:
  assumes "cr_LinkBillID req = None"
  obtains e where "CreateReturn_Execute E req s = (Inl e, s)"
  | i no items s' where "CreateReturn_Execute E req s = (Inr (i, no), s')"
      "\<And>v :: BillHead \<Rightarrow> 'v. views v s' = views v s @ [v (created_head E ((return_head E req i items)\<lparr>h_BillNo := no\<rparr>))]"
proof (cases "CreateReturn_Execute E req s")
  case (Pair r s')
  show ?thesis
  proof (cases r)
    case (Inl e)
    then show ?thesis using Pair that(1) by (auto simp: CreateReturn_Execute_def runTx_def split: sum.splits)
  next
    case (Inr x)
    obtain i no where x: "x = (i, no)" by force
    obtain items s1 bs where b: "forE (build_item E (cr_TenantID req) uuid_Nil) (cr_Items req) s = Inr (items, s1)"
      and p: "persist_bill E ''create return draft'' ''RT'' (return_head E req (new_uuid E (draws s1)) items) bs
          (s1\<lparr>draws := Suc (draws s1)\<rparr>) = Inr ((i, no), s')"
      using Pair assms unfolding Inr x CreateReturn_Execute_def runTx_Inr
      by (auto simp: thenE_liftE_Inr bindE_Inr thenE_queryE_Inr)
    have s1: "views v s1 = views v s" for v :: "BillHead \<Rightarrow> 'v" using build_items_Inr [OF b] by simp
    have i: "i = new_uuid E (draws s1)" using persist_bill_views(2) [OF p] by (simp add: return_head_def)
    have "views v s' = views v s @ [v (created_head E ((return_head E req i items)\<lparr>h_BillNo := no\<rparr>))]" for v :: "BillHead \<Rightarrow> 'v"
      using persist_bill_views(1) [OF p, of v] s1 [of v] i by simp
    then show ?thesis by (intro that(2)) (use Pair Inr x in auto)
  qed
qed

end
