(* ===== verification/Order_Import.thy ===== *)
theory Order_Import
  imports Import_Repo Currency Return_Origin Bill_Views
begin

text \<open>
  Orders of an e-commerce platform (\<open>internal/app/importing/usecase.go\<close> and the ports it is wired
  to, \<open>internal/lifecycle/import_adapters.go\<close> and \<open>return_adapters.go\<close>): an order becomes a sale
  that is drafted, approved and remembered; a cancellation or a refund becomes a return.

  A delivery is not one transaction.  The record \<open>marks\<close> says which of the deduplication writes
  reach the database; whatever it says, the bills that were committed stay.
\<close>

section \<open>Orders\<close>

datatype Platform = PlatformAmazon | PlatformShopify | PlatformOther string

fun Platform_string :: "Platform \<Rightarrow> string" where
  "Platform_string PlatformAmazon = ''amazon''"
| "Platform_string PlatformShopify = ''shopify''"
| "Platform_string (PlatformOther s) = s"

fun Platform_Validate :: "Platform \<Rightarrow> err + unit" where
  "Platform_Validate PlatformAmazon = Inr ()"
| "Platform_Validate PlatformShopify = Inr ()"
| "Platform_Validate (PlatformOther s) = Inl (Wrap ''importing: unknown platform'' (ErrMsg s))"

record OrderRow =
  or_OrderNo :: string
  or_SKU :: string
  or_Qty :: rat
  or_UnitPrice :: rat
  or_Currency :: string
  or_OrderDate :: gotime

record SaleLineItem =
  sl_ProductID :: uuid
  sl_LineNo :: int
  sl_Qty :: rat
  sl_UnitPrice :: rat

record ImportedOrder =
  im_PlatformOrderNo :: string
  im_BillID :: uuid
  im_BillNo :: string
  im_MarkSeenError :: "err option"

text \<open>The reason texts: \<open>duplicate:bill_id=\<close>, \<open>unknown_sku\<close> with or without the SKU, \<open>approve_failed:\<close>, \<open>cancelled\<close>.\<close>

datatype SkipReason =
  SkipDuplicate uuid | SkipUnknownSKUs | SkipUnknownSKU string | SkipApproveFailed err | SkipCancelled

record SkippedOrder =
  sk_PlatformOrderNo :: string
  sk_Reason :: SkipReason

record marks =
  mk_heal :: bool
  mk_order :: bool
  mk_alias :: bool
  mk_cancel :: bool
  mk_refund :: bool

text \<open>The use case as it is wired: the currency of the bills and whether the return handlers are attached.\<close>

record ImportOrdersUseCase =
  iu_targetCurrency :: string
  iu_returns :: bool

definition NewImportOrdersUseCase :: "string \<Rightarrow> ImportOrdersUseCase" where
  "NewImportOrdersUseCase target = \<lparr> iu_targetCurrency = (if target = [] then ''CNY'' else target), iu_returns = False \<rparr>"

definition WithReturnHandlers :: "ImportOrdersUseCase \<Rightarrow> ImportOrdersUseCase" where
  "WithReturnHandlers uc = uc\<lparr>iu_returns := True\<rparr>"

section \<open>Ports\<close>

definition sale_item :: "uuid \<Rightarrow> SaleLineItem \<Rightarrow> SaleItem" where
  "sale_item w it = \<lparr> ci_ProductID = sl_ProductID it, ci_UnitID = None, ci_UnitName = [], ci_LineNo = sl_LineNo it, ci_Qty = sl_Qty it,
     ci_UnitPrice = sl_UnitPrice it, si_WarehouseID = w, si_ConvFactor = ''1'' \<rparr>"

definition importSaleCreator :: "env \<Rightarrow> uuid \<Rightarrow> uuid \<Rightarrow> uuid option \<Rightarrow> gotime \<Rightarrow> string \<Rightarrow> SaleLineItem list \<Rightarrow> (uuid \<times> string) prog" where
  "importSaleCreator E t creator w date remark items =
     CreateSale_Execute E \<lparr> cs_TenantID = t, cs_CreatorID = creator, cs_PartnerID = None, cs_WarehouseID = w, cs_BillDate = date,
       cs_ShippingFee = 0, cs_TaxAmount = 0, cs_Remark = remark,
       cs_Items = map (sale_item (case w of None \<Rightarrow> uuid_Nil | Some x \<Rightarrow> x)) items \<rparr>"

definition import_approval :: "uuid \<Rightarrow> uuid \<Rightarrow> uuid \<Rightarrow> ApproveSaleRequest" where
  "import_approval t billID creator = \<lparr> as_TenantID = t, as_BillID = billID, as_CreatorID = creator, as_PaidAmount = 0, as_PayType = [],
     as_PaymentRemark = [], as_OccurredAt = 0, as_AllowNegative = False \<rparr>"

definition importSaleApprover ::
  "env \<Rightarrow> (RecordMovementRequest \<Rightarrow> Snapshot op) \<Rightarrow> uuid \<Rightarrow> uuid \<Rightarrow> uuid \<Rightarrow> unit prog" where
  "importSaleApprover E exec t billID creator =
     (\<lambda>s. case ApproveSale_Execute E exec (import_approval t billID creator) s s of
            (Inl e, s') \<Rightarrow> (Inl e, s') | (Inr _, s') \<Rightarrow> (Inr (), s'))"

definition importStockChecker :: "uuid \<Rightarrow> uuid \<Rightarrow> uuid \<Rightarrow> db \<Rightarrow> rat" where
  "importStockChecker t p w s = (case GetSnapshot t p w s of None \<Rightarrow> 0 | Some snap \<Rightarrow> s_AvailableQty snap)"

definition importWarehouseChecker :: "uuid \<Rightarrow> uuid \<Rightarrow> db \<Rightarrow> err + unit" where
  "importWarehouseChecker t w s = (if WarehouseExists t w s then Inr () else Inl (ErrMsg ''warehouse: not found''))"

definition importCurrencyRater :: "uuid \<Rightarrow> string \<Rightarrow> string \<Rightarrow> gotime \<Rightarrow> db \<Rightarrow> rat" where
  "importCurrencyRater t from to date s = rr_Rate (GetRate_Execute t from to date s)"

definition return_item :: "SaleLineItem \<Rightarrow> ReturnItem" where
  "return_item it = \<lparr> ci_ProductID = sl_ProductID it, ci_UnitID = None, ci_UnitName = [], ci_LineNo = sl_LineNo it, ci_Qty = sl_Qty it,
     ci_UnitPrice = sl_UnitPrice it, ri_LinkItemID = None \<rparr>"

definition as_import_error :: "err \<Rightarrow> err" where
  "as_import_error e = (if errors_Is e ErrNothingToReverse then ErrImportNothingToReverse else e)"

text \<open>The lines and the warehouse of the return: cloned from the sale when none are given, capped otherwise.\<close>

definition return_lines_for :: "env \<Rightarrow> uuid \<Rightarrow> uuid option \<Rightarrow> string \<Rightarrow> SaleLineItem list \<Rightarrow> db \<Rightarrow> err + (uuid option \<times> ReturnItem list)" where
  "return_lines_for E t w remark items s =
     (if items = []
      then (case ParseOriginRef E remark of
              None \<Rightarrow> Inr (w, [])
            | Some ref \<Rightarrow>
                if or_BillID ref = uuid_Nil then Inr (w, [])
                else (case CloneOriginal E True t (or_BillID ref) s of
                        Inl e \<Rightarrow> Inl (as_import_error e)
                      | Inr (wh, cloned) \<Rightarrow> Inr (case w of None \<Rightarrow> Some wh | Some x \<Rightarrow> Some x, cloned)))
      else (case CapToRemaining E True t remark (map return_item items) s of
              Inl e \<Rightarrow> Inl (as_import_error e) | Inr capped \<Rightarrow> Inr (w, capped)))"

definition importReturnCreator :: "env \<Rightarrow> uuid \<Rightarrow> uuid \<Rightarrow> uuid option \<Rightarrow> gotime \<Rightarrow> string \<Rightarrow> SaleLineItem list \<Rightarrow> (uuid \<times> string) prog" where
  "importReturnCreator E t creator w date remark items =
     bindP (queryP (return_lines_for E t w remark items)) (\<lambda>(wh, ritems).
     CreateReturn_Execute E \<lparr> cr_TenantID = t, cr_CreatorID = creator, cr_WarehouseID = wh, cr_PartnerID = None, cr_LinkBillID = None,
       cr_BillDate = date, cr_Remark = remark, cr_Items = ritems \<rparr>)"

definition importReturnApprover ::
  "env \<Rightarrow> (RecordMovementRequest \<Rightarrow> Snapshot op) \<Rightarrow> uuid \<Rightarrow> uuid \<Rightarrow> uuid \<Rightarrow> unit prog" where
  "importReturnApprover E exec t billID creator =
     mapErrP as_import_error (\<lambda>s. ApproveReturn_Execute E True exec
       \<lparr> ar_TenantID = t, ar_BillID = billID, ar_CreatorID = creator, ar_Strict = False \<rparr> s s)"

section \<open>One order\<close>

text \<open>\<open>strings.ToUpper\<close> on ASCII text.\<close>

definition ascii_upper :: "char \<Rightarrow> char" where
  "ascii_upper c = (let n = of_char c :: nat in if 97 \<le> n \<and> n \<le> 122 then char_of (n - 32) else c)"

definition ToUpper :: "string \<Rightarrow> string" where
  "ToUpper = map ascii_upper"

definition resolveSKU :: "uuid \<Rightarrow> string \<Rightarrow> string \<Rightarrow> (string, uuid) map \<Rightarrow> db \<Rightarrow> uuid option" where
  "resolveSKU t platform sku hints s =
     (case hints sku of Some p \<Rightarrow> Some p | None \<Rightarrow> map_option sm_ProductID (GetMapping t platform sku s))"

definition converted_price :: "env \<Rightarrow> string \<Rightarrow> uuid \<Rightarrow> string \<Rightarrow> gotime \<Rightarrow> rat \<Rightarrow> db \<Rightarrow> rat" where
  "converted_price E target t currency date price s =
     (let src = ToUpper currency in
      if src \<noteq> [] \<and> src \<noteq> target then dround E 4 (price * importCurrencyRater t src target date s) else price)"

definition order_items :: "env \<Rightarrow> string \<Rightarrow> uuid \<Rightarrow> (OrderRow \<times> uuid) list \<Rightarrow> db \<Rightarrow> SaleLineItem list" where
  "order_items E target t resolved s =
     map (\<lambda>(k, row, p). \<lparr> sl_ProductID = p, sl_LineNo = int (Suc k), sl_Qty = or_Qty row,
            sl_UnitPrice = converted_price E target t (or_Currency row) (or_OrderDate row) (or_UnitPrice row) s \<rparr>)
       (enumerate 0 resolved)"

fun resolve_rows :: "uuid \<Rightarrow> string \<Rightarrow> OrderRow list \<Rightarrow> db \<Rightarrow> string + (OrderRow \<times> uuid) list" where
  "resolve_rows t platform [] s = Inr []"
| "resolve_rows t platform (row # rows) s =
     (case resolveSKU t platform (or_SKU row) Map.empty s of
        None \<Rightarrow> Inl (or_SKU row)
      | Some p \<Rightarrow> (case resolve_rows t platform rows s of Inl sku \<Rightarrow> Inl sku | Inr rest \<Rightarrow> Inr ((row, p) # rest)))"

text \<open>A bill for the order, approved and remembered; a failed approval leaves the draft and is reported as a skip.\<close>

definition book_order ::
  "env \<Rightarrow> marks \<Rightarrow> (RecordMovementRequest \<Rightarrow> Snapshot op) \<Rightarrow> uuid \<Rightarrow> uuid \<Rightarrow> uuid \<Rightarrow> string \<Rightarrow> string \<Rightarrow> gotime \<Rightarrow> SaleLineItem list
     \<Rightarrow> (SkippedOrder + ImportedOrder) prog" where
  "book_order E mk exec t creator w platform orderNo date items =
     bindP (mapErrP (Wrap ''importing: create sale bill for order'')
              (importSaleCreator E t creator (Some w) date (import_remark platform orderNo) items)) (\<lambda>(billID, billNo).
     tryP (importSaleApprover E exec t billID creator) (\<lambda>approved.
     case approved of
       Inl e \<Rightarrow> returnP (Inl \<lparr> sk_PlatformOrderNo = orderNo, sk_Reason = SkipApproveFailed e \<rparr>)
     | Inr _ \<Rightarrow>
         tryP (runTx (MarkOrderSeen (mk_order mk) t platform orderNo billID)) (\<lambda>marked.
         returnP (Inr \<lparr> im_PlatformOrderNo = orderNo, im_BillID = billID, im_BillNo = billNo,
                        im_MarkSeenError = (case marked of Inl e \<Rightarrow> Some e | Inr _ \<Rightarrow> None) \<rparr>))))"

definition ingestOneOrder ::
  "env \<Rightarrow> ImportOrdersUseCase \<Rightarrow> marks \<Rightarrow> (RecordMovementRequest \<Rightarrow> Snapshot op) \<Rightarrow> uuid \<Rightarrow> uuid \<Rightarrow> uuid \<Rightarrow> Platform \<Rightarrow> string
     \<Rightarrow> OrderRow list \<Rightarrow> (SkippedOrder + ImportedOrder) prog" where
  "ingestOneOrder E uc mk exec t creator w platform orderNo lines =
     (let pf = Platform_string platform in
      bindP (mapErrP (Wrap ''importing: dedup check for order'') (IsOrderSeen (mk_heal mk) t pf orderNo)) (\<lambda>seen.
      case seen of
        Some b \<Rightarrow> returnP (Inl \<lparr> sk_PlatformOrderNo = orderNo, sk_Reason = SkipDuplicate b \<rparr>)
      | None \<Rightarrow>
          bindP (readP (resolve_rows t pf lines)) (\<lambda>resolved.
          case resolved of
            Inl sku \<Rightarrow> returnP (Inl \<lparr> sk_PlatformOrderNo = orderNo, sk_Reason = SkipUnknownSKU sku \<rparr>)
          | Inr rows \<Rightarrow>
              bindP (readP (order_items E (iu_targetCurrency uc) t rows)) (\<lambda>items.
              book_order E mk exec t creator w pf orderNo (or_OrderDate (hd lines)) items))))"

record SingleOrderRequest =
  so_TenantID :: uuid
  so_CreatorID :: uuid
  so_WarehouseID :: uuid
  so_Platform :: Platform
  so_PlatformOrderNo :: string
  so_PlatformOrderAlias :: string
  so_Lines :: "OrderRow list"

definition single_order_checks :: "SingleOrderRequest \<Rightarrow> err + unit" where
  "single_order_checks req =
     (if so_TenantID req = uuid_Nil then Inl (ErrMsg ''importing: tenant_id is required'')
      else if so_CreatorID req = uuid_Nil then Inl (ErrMsg ''importing: creator_id is required'')
      else if so_WarehouseID req = uuid_Nil then Inl (ErrMsg ''importing: warehouse_id is required'')
      else case Platform_Validate (so_Platform req) of
             Inl e \<Rightarrow> Inl e
           | Inr _ \<Rightarrow>
               if so_PlatformOrderNo req = [] then Inl (ErrMsg ''importing: platform_order_no is required'')
               else if so_Lines req = [] then Inl (ErrMsg ''importing: at least one order line is required'')
               else Inr ())"

definition IngestSingleOrder ::
  "env \<Rightarrow> ImportOrdersUseCase \<Rightarrow> marks \<Rightarrow> (RecordMovementRequest \<Rightarrow> Snapshot op) \<Rightarrow> SingleOrderRequest \<Rightarrow> (SkippedOrder + ImportedOrder) prog" where
  "IngestSingleOrder E uc mk exec req =
     (let t = so_TenantID req; pf = Platform_string (so_Platform req); no = so_PlatformOrderNo req; alias = so_PlatformOrderAlias req in
      thenP (liftP (single_order_checks req))
      (bindP (readP (IsCancelSeen t pf no)) (\<lambda>cancelled.
       if cancelled \<noteq> None then returnP (Inl \<lparr> sk_PlatformOrderNo = no, sk_Reason = SkipCancelled \<rparr>)
       else
         bindP (ingestOneOrder E uc mk exec t (so_CreatorID req) (so_WarehouseID req) (so_Platform req) no (so_Lines req)) (\<lambda>r.
         case r of
           Inl skipped \<Rightarrow> returnP (Inl skipped)
         | Inr imported \<Rightarrow>
             if im_MarkSeenError imported = None \<and> alias \<noteq> [] \<and> alias \<noteq> no
             then tryP (runTx (MarkOrderSeen (mk_alias mk) t pf alias (im_BillID imported))) (\<lambda>_. returnP (Inr imported))
             else returnP (Inr imported)))))"

section \<open>A file of orders\<close>

record OversellRow =
  ov_PlatformOrderNo :: string
  ov_PlatformSKU :: string
  ov_ProductID :: uuid
  ov_Requested :: rat
  ov_Available :: rat

record ImportRequest =
  ir_TenantID :: uuid
  ir_CreatorID :: uuid
  ir_WarehouseID :: uuid
  ir_Platform :: Platform
  ir_CSVData :: string
  ir_SKUHints :: "(string \<times> uuid) list"
  ir_DryRun :: bool

record ImportResult =
  iz_Imported :: "ImportedOrder list"
  iz_Skipped :: "SkippedOrder list"
  iz_Oversells :: "OversellRow list"
  iz_UnknownSKUs :: "(string \<times> string) list"

definition empty_result :: ImportResult where
  "empty_result = \<lparr> iz_Imported = [], iz_Skipped = [], iz_Oversells = [], iz_UnknownSKUs = [] \<rparr>"

definition import_checks :: "ImportRequest \<Rightarrow> err + unit" where
  "import_checks req =
     (if ir_TenantID req = uuid_Nil then Inl (ErrMsg ''importing: tenant_id is required'')
      else if ir_CreatorID req = uuid_Nil then Inl (ErrMsg ''importing: creator_id is required'')
      else if ir_WarehouseID req = uuid_Nil then Inl (ErrMsg ''importing: warehouse_id is required'')
      else case Platform_Validate (ir_Platform req) of
             Inl e \<Rightarrow> Inl e
           | Inr _ \<Rightarrow> if ir_CSVData req = [] then Inl (ErrMsg ''importing: csv_data is empty'') else Inr ())"

text \<open>The later of two hints for one SKU wins.\<close>

definition hint_map :: "(string \<times> uuid) list \<Rightarrow> (string, uuid) map" where
  "hint_map hints = map_of (rev hints)"

text \<open>One group per order number, in the order the numbers are met.\<close>

fun add_to_group :: "OrderRow \<Rightarrow> (string \<times> OrderRow list) list \<Rightarrow> (string \<times> OrderRow list) list" where
  "add_to_group row [] = [(or_OrderNo row, [row])]"
| "add_to_group row ((no, rows) # groups) =
     (if no = or_OrderNo row then (no, rows @ [row]) # groups else (no, rows) # add_to_group row groups)"

definition group_orders :: "OrderRow list \<Rightarrow> (string \<times> OrderRow list) list" where
  "group_orders rows = fold add_to_group rows []"

definition appendUniqueSKU :: "(string \<times> string) list \<Rightarrow> string \<times> string \<Rightarrow> (string \<times> string) list" where
  "appendUniqueSKU ls x = (if list_ex (\<lambda>y. snd y = snd x) ls then ls else ls @ [x])"

definition resolve_all :: "uuid \<Rightarrow> string \<Rightarrow> (string, uuid) map \<Rightarrow> OrderRow list \<Rightarrow> db \<Rightarrow> (OrderRow \<times> uuid option) list" where
  "resolve_all t platform hints rows s = map (\<lambda>row. (row, resolveSKU t platform (or_SKU row) hints s)) rows"

definition oversells :: "ImportRequest \<Rightarrow> string \<Rightarrow> (OrderRow \<times> uuid) list \<Rightarrow> db \<Rightarrow> OversellRow list" where
  "oversells req orderNo rows s =
     map (\<lambda>(row, p). \<lparr> ov_PlatformOrderNo = orderNo, ov_PlatformSKU = or_SKU row, ov_ProductID = p, ov_Requested = or_Qty row,
            ov_Available = importStockChecker (ir_TenantID req) p (ir_WarehouseID req) s \<rparr>)
       (filter (\<lambda>(row, p). importStockChecker (ir_TenantID req) p (ir_WarehouseID req) s < or_Qty row) rows)"

text \<open>The mappings confirmed by the caller are kept once an order used them.\<close>

definition persist_hint :: "env \<Rightarrow> ImportRequest \<Rightarrow> (string, uuid) map \<Rightarrow> OrderRow \<times> uuid \<Rightarrow> unit prog" where
  "persist_hint E req hints = (\<lambda>(row, _).
     case hints (or_SKU row) of
       None \<Rightarrow> returnP ()
     | Some p \<Rightarrow> mapErrP (Wrap ''importing: persist mapping for sku'')
         (runTx (UpsertMapping E \<lparr> sm_ID = uuid_Nil, sm_TenantID = ir_TenantID req, sm_Platform = Platform_string (ir_Platform req),
            sm_PlatformSKU = or_SKU row, sm_ProductID = p, sm_CreatedAt = 0, sm_UpdatedAt = 0 \<rparr>)))"

definition import_resolved ::
  "env \<Rightarrow> ImportOrdersUseCase \<Rightarrow> marks \<Rightarrow> (RecordMovementRequest \<Rightarrow> Snapshot op) \<Rightarrow> ImportRequest \<Rightarrow> string \<Rightarrow> (OrderRow \<times> uuid) list
     \<Rightarrow> ImportResult \<Rightarrow> ImportResult prog" where
  "import_resolved E uc mk exec req orderNo rows res =
     (let t = ir_TenantID req; pf = Platform_string (ir_Platform req) in
      if ir_DryRun req
      then readP (\<lambda>s. res\<lparr>iz_Oversells := iz_Oversells res @ oversells req orderNo rows s,
             iz_Imported := iz_Imported res @ [\<lparr> im_PlatformOrderNo = orderNo, im_BillID = uuid_Nil, im_BillNo = ''(preview)'', im_MarkSeenError = None \<rparr>]\<rparr>)
      else
        bindP (readP (order_items E (iu_targetCurrency uc) t rows)) (\<lambda>items.
        bindP (book_order E mk exec t (ir_CreatorID req) (ir_WarehouseID req) pf orderNo (or_OrderDate (fst (hd rows))) items) (\<lambda>r.
        case r of
          Inl skipped \<Rightarrow> returnP (res\<lparr>iz_Skipped := iz_Skipped res @ [skipped]\<rparr>)
        | Inr imported \<Rightarrow>
            thenP (if im_MarkSeenError imported = None then forP (persist_hint E req (hint_map (ir_SKUHints req))) rows else returnP [])
            (returnP (res\<lparr>iz_Imported := iz_Imported res @ [imported]\<rparr>)))))"

definition import_group ::
  "env \<Rightarrow> ImportOrdersUseCase \<Rightarrow> marks \<Rightarrow> (RecordMovementRequest \<Rightarrow> Snapshot op) \<Rightarrow> ImportRequest \<Rightarrow> string \<times> OrderRow list
     \<Rightarrow> ImportResult \<Rightarrow> ImportResult prog" where
  "import_group E uc mk exec req = (\<lambda>(orderNo, rows) res.
     (let t = ir_TenantID req; pf = Platform_string (ir_Platform req) in
      bindP (mapErrP (Wrap ''importing: dedup check for order'') (IsOrderSeen (mk_heal mk) t pf orderNo)) (\<lambda>seen.
      case seen of
        Some b \<Rightarrow> returnP (res\<lparr>iz_Skipped := iz_Skipped res @ [\<lparr> sk_PlatformOrderNo = orderNo, sk_Reason = SkipDuplicate b \<rparr>]\<rparr>)
      | None \<Rightarrow>
          bindP (readP (resolve_all t pf (hint_map (ir_SKUHints req)) rows)) (\<lambda>resolved.
          if list_ex (\<lambda>(_, p). p = None) resolved
          then returnP (res\<lparr>iz_UnknownSKUs := fold (\<lambda>(row, p) ls. if p = None then appendUniqueSKU ls (pf, or_SKU row) else ls) resolved (iz_UnknownSKUs res),
                 iz_Skipped := iz_Skipped res @ [\<lparr> sk_PlatformOrderNo = orderNo, sk_Reason = SkipUnknownSKUs \<rparr>]\<rparr>)
          else import_resolved E uc mk exec req orderNo (map (\<lambda>(row, p). (row, the p)) resolved) res))))"

text \<open>\<open>Execute\<close> after the file has been read: \<open>rows\<close> is what \<open>parseCSV\<close> returned.\<close>

definition import_rows ::
  "env \<Rightarrow> ImportOrdersUseCase \<Rightarrow> marks \<Rightarrow> (RecordMovementRequest \<Rightarrow> Snapshot op) \<Rightarrow> ImportRequest \<Rightarrow> OrderRow list \<Rightarrow> ImportResult prog" where
  "import_rows E uc mk exec req rows = foldP (import_group E uc mk exec req) (group_orders rows) empty_result"

section \<open>Cancellations\<close>

record CancelRequest =
  cq_TenantID :: uuid
  cq_CreatorID :: uuid
  cq_Platform :: Platform
  cq_PlatformOrderNo :: string

record CancelResult =
  cz_PlatformOrderNo :: string
  cz_OriginalBillID :: uuid
  cz_ReversalBillID :: uuid
  cz_ReversalBillNo :: string
  cz_NothingToReverse :: bool

definition cancel_checks :: "ImportOrdersUseCase \<Rightarrow> CancelRequest \<Rightarrow> err + unit" where
  "cancel_checks uc req =
     (if cq_TenantID req = uuid_Nil then Inl (ErrMsg ''importing: tenant_id is required'')
      else if cq_CreatorID req = uuid_Nil then Inl (ErrMsg ''importing: creator_id is required'')
      else case Platform_Validate (cq_Platform req) of
             Inl e \<Rightarrow> Inl e
           | Inr _ \<Rightarrow>
               if cq_PlatformOrderNo req = [] then Inl (ErrMsg ''importing: platform_order_no is required'')
               else if \<not> iu_returns uc then Inl (ErrMsg ''importing: ReturnCreator/ReturnApprover not wired; call WithReturnHandlers'')
               else Inr ())"

definition cancelNothingToReverse :: "marks \<Rightarrow> CancelRequest \<Rightarrow> uuid \<Rightarrow> CancelResult prog" where
  "cancelNothingToReverse mk req original =
     thenP (mapErrP (Wrap ''importing: mark_cancel_seen for order'')
              (runTx (MarkCancelSeen (mk_cancel mk) (cq_TenantID req) (Platform_string (cq_Platform req)) (cq_PlatformOrderNo req) original uuid_Nil)))
     (returnP \<lparr> cz_PlatformOrderNo = cq_PlatformOrderNo req, cz_OriginalBillID = original, cz_ReversalBillID = uuid_Nil,
                cz_ReversalBillNo = [], cz_NothingToReverse = True \<rparr>)"

definition cancelled_before :: "CancelRequest \<Rightarrow> uuid \<times> uuid \<Rightarrow> CancelResult prog" where
  "cancelled_before req = (\<lambda>(original, reversal).
     readP (\<lambda>s. \<lparr> cz_PlatformOrderNo = cq_PlatformOrderNo req, cz_OriginalBillID = original, cz_ReversalBillID = reversal,
       cz_ReversalBillNo = (if reversal \<noteq> uuid_Nil then ReversalBillNo (cq_TenantID req) reversal s else []),
       cz_NothingToReverse = (reversal = uuid_Nil) \<rparr>))"

definition cancel_imported ::
  "env \<Rightarrow> marks \<Rightarrow> (RecordMovementRequest \<Rightarrow> Snapshot op) \<Rightarrow> CancelRequest \<Rightarrow> uuid \<Rightarrow> CancelResult prog" where
  "cancel_imported E mk exec req original =
     (let t = cq_TenantID req; pf = Platform_string (cq_Platform req); no = cq_PlatformOrderNo req in
      tryP (importReturnCreator E t (cq_CreatorID req) None (now E) (cancel_remark E pf no original) []) (\<lambda>created.
      case created of
        Inl e \<Rightarrow> if errors_Is e ErrImportNothingToReverse then cancelNothingToReverse mk req original
                 else failP (Wrap ''importing: create reversal bill for order'' e)
      | Inr (billID, billNo) \<Rightarrow>
          tryP (importReturnApprover E exec t billID (cq_CreatorID req)) (\<lambda>approved.
          case approved of
            Inl e \<Rightarrow> if errors_Is e ErrImportNothingToReverse then cancelNothingToReverse mk req original
                     else failP (Wrap ''importing: approve reversal bill for order'' e)
          | Inr _ \<Rightarrow>
              thenP (mapErrP (Wrap ''importing: mark_cancel_seen failed (reversal committed)'')
                       (runTx (MarkCancelSeen (mk_cancel mk) t pf no original billID)))
              (returnP \<lparr> cz_PlatformOrderNo = no, cz_OriginalBillID = original, cz_ReversalBillID = billID,
                         cz_ReversalBillNo = billNo, cz_NothingToReverse = False \<rparr>))))"

definition IngestCancelOrder ::
  "env \<Rightarrow> ImportOrdersUseCase \<Rightarrow> marks \<Rightarrow> (RecordMovementRequest \<Rightarrow> Snapshot op) \<Rightarrow> CancelRequest \<Rightarrow> CancelResult prog" where
  "IngestCancelOrder E uc mk exec req =
     (let t = cq_TenantID req; pf = Platform_string (cq_Platform req); no = cq_PlatformOrderNo req in
      thenP (liftP (cancel_checks uc req))
      (bindP (readP (IsCancelSeen t pf no)) (\<lambda>already.
       case already of
         Some ids \<Rightarrow> cancelled_before req ids
       | None \<Rightarrow>
           bindP (mapErrP (Wrap ''importing: lookup original order'') (IsOrderSeen (mk_heal mk) t pf no)) (\<lambda>seen.
           case seen of
             None \<Rightarrow>
               thenP (mapErrP (Wrap ''importing: mark_cancel_seen for unknown order'')
                        (runTx (MarkCancelSeen (mk_cancel mk) t pf no uuid_Nil uuid_Nil)))
               (returnP \<lparr> cz_PlatformOrderNo = no, cz_OriginalBillID = uuid_Nil, cz_ReversalBillID = uuid_Nil,
                          cz_ReversalBillNo = [], cz_NothingToReverse = True \<rparr>)
           | Some original \<Rightarrow> cancel_imported E mk exec req original))))"

section \<open>Refunds\<close>

record RefundLine =
  rf_PlatformSKU :: string
  rf_Qty :: rat
  rf_RefundAmount :: rat

record RefundRequest =
  rq_TenantID :: uuid
  rq_CreatorID :: uuid
  rq_WarehouseID :: uuid
  rq_Platform :: Platform
  rq_PlatformOrderNo :: string
  rq_PlatformRefundID :: string
  rq_Currency :: string
  rq_RefundDate :: gotime
  rq_Lines :: "RefundLine list"

record RefundResult =
  rz_PlatformOrderNo :: string
  rz_PlatformRefundID :: string
  rz_BillID :: uuid
  rz_BillNo :: string
  rz_NothingToReverse :: bool

definition refund_checks :: "ImportOrdersUseCase \<Rightarrow> RefundRequest \<Rightarrow> err + unit" where
  "refund_checks uc req =
     (if rq_TenantID req = uuid_Nil then Inl (ErrMsg ''importing: tenant_id is required'')
      else if rq_CreatorID req = uuid_Nil then Inl (ErrMsg ''importing: creator_id is required'')
      else if rq_WarehouseID req = uuid_Nil then Inl (ErrMsg ''importing: warehouse_id is required'')
      else case Platform_Validate (rq_Platform req) of
             Inl e \<Rightarrow> Inl e
           | Inr _ \<Rightarrow>
               if rq_PlatformOrderNo req = [] then Inl (ErrMsg ''importing: platform_order_no is required'')
               else if rq_PlatformRefundID req = [] then Inl (ErrMsg ''importing: platform_refund_id is required'')
               else if rq_Lines req = [] then Inl (ErrMsg ''importing: refund has no lines'')
               else if \<not> iu_returns uc then Inl (ErrMsg ''importing: ReturnCreator/ReturnApprover not wired; call WithReturnHandlers'')
               else Inr ())"

definition refund_result :: "RefundRequest \<Rightarrow> uuid \<Rightarrow> string \<Rightarrow> bool \<Rightarrow> RefundResult" where
  "refund_result req billID billNo nothing = \<lparr> rz_PlatformOrderNo = rq_PlatformOrderNo req, rz_PlatformRefundID = rq_PlatformRefundID req,
     rz_BillID = billID, rz_BillNo = billNo, rz_NothingToReverse = nothing \<rparr>"

definition refundNothingToReverse :: "marks \<Rightarrow> RefundRequest \<Rightarrow> RefundResult prog" where
  "refundNothingToReverse mk req =
     thenP (mapErrP (Wrap ''importing: mark_refund_seen'')
              (runTx (MarkRefundSeen (mk_refund mk) (rq_TenantID req) (Platform_string (rq_Platform req)) (rq_PlatformOrderNo req)
                        (rq_PlatformRefundID req) uuid_Nil)))
     (returnP (refund_result req uuid_Nil [] True))"

fun refund_items :: "env \<Rightarrow> ImportOrdersUseCase \<Rightarrow> RefundRequest \<Rightarrow> nat \<Rightarrow> RefundLine list \<Rightarrow> db \<Rightarrow> err + SaleLineItem list" where
  "refund_items E uc req k [] s = Inr []"
| "refund_items E uc req k (l # ls) s =
     (case resolveSKU (rq_TenantID req) (Platform_string (rq_Platform req)) (rf_PlatformSKU l) Map.empty s of
        None \<Rightarrow> Inl (Wrap ''importing: refund sku not in import_sku_map; map it before re-sending'' (ErrMsg (rf_PlatformSKU l)))
      | Some p \<Rightarrow>
          (case refund_items E uc req (Suc k) ls s of
             Inl e \<Rightarrow> Inl e
           | Inr rest \<Rightarrow> Inr (\<lparr> sl_ProductID = p, sl_LineNo = int (Suc k), sl_Qty = rf_Qty l,
               sl_UnitPrice = converted_price E (iu_targetCurrency uc) (rq_TenantID req) (rq_Currency req) (rq_RefundDate req)
                                (rf_RefundAmount l) s \<rparr> # rest)))"

definition book_refund ::
  "env \<Rightarrow> marks \<Rightarrow> (RecordMovementRequest \<Rightarrow> Snapshot op) \<Rightarrow> RefundRequest \<Rightarrow> SaleLineItem list \<Rightarrow> RefundResult prog" where
  "book_refund E mk exec req items =
     (let t = rq_TenantID req; pf = Platform_string (rq_Platform req); no = rq_PlatformOrderNo req; rid = rq_PlatformRefundID req in
      tryP (importReturnCreator E t (rq_CreatorID req) (Some (rq_WarehouseID req)) (rq_RefundDate req) (refund_remark pf no rid) items) (\<lambda>created.
      case created of
        Inl e \<Rightarrow> if errors_Is e ErrImportNothingToReverse then refundNothingToReverse mk req
                 else failP (Wrap ''importing: create refund bill'' e)
      | Inr (billID, billNo) \<Rightarrow>
          tryP (importReturnApprover E exec t billID (rq_CreatorID req)) (\<lambda>approved.
          case approved of
            Inl e \<Rightarrow> if errors_Is e ErrImportNothingToReverse then refundNothingToReverse mk req
                     else failP (Wrap ''importing: approve refund bill'' e)
          | Inr _ \<Rightarrow>
              thenP (mapErrP (Wrap ''importing: mark_refund_seen failed (bill committed)'')
                       (runTx (MarkRefundSeen (mk_refund mk) t pf no rid billID)))
              (returnP (refund_result req billID billNo False)))))"

definition IngestRefund ::
  "env \<Rightarrow> ImportOrdersUseCase \<Rightarrow> marks \<Rightarrow> (RecordMovementRequest \<Rightarrow> Snapshot op) \<Rightarrow> RefundRequest \<Rightarrow> RefundResult prog" where
  "IngestRefund E uc mk exec req =
     (let t = rq_TenantID req; pf = Platform_string (rq_Platform req); no = rq_PlatformOrderNo req; rid = rq_PlatformRefundID req in
      thenP (liftP (refund_checks uc req))
      (bindP (readP (IsRefundSeen t pf rid)) (\<lambda>already.
       case already of
         Some b \<Rightarrow> readP (\<lambda>s. refund_result req b (if b \<noteq> uuid_Nil then ReversalBillNo t b s else []) (b = uuid_Nil))
       | None \<Rightarrow>
           bindP (mapErrP (Wrap ''importing: lookup order for refund'') (IsOrderSeen (mk_heal mk) t pf no)) (\<lambda>seen.
           if seen = None then returnP (refund_result req uuid_Nil [] True)
           else bindP (queryP (refund_items E uc req 0 (rq_Lines req))) (book_refund E mk exec req)))))"

end
