(* ===== verification/Import_Safety.thy ===== *)
theory Import_Safety
  imports Order_Import
begin

text \<open>
  What the deduplication of the order import guarantees: an order has at most one bill whatever is
  delivered, and a cancellation that was answered is final.
\<close>

section \<open>The bills of an order\<close>

text \<open>What tells that a bill belongs to an order: its tenant, its remark, and that it is not deleted.\<close>

definition head_tag :: "BillHead \<Rightarrow> uuid \<times> string \<times> bool" where
  "head_tag h = (h_TenantID h, h_Remark h, h_deleted h)"

interpretation tag: steady_view head_tag
  by unfold_locales (simp_all add: head_tag_def set_warehouse_def set_paid_def)

definition live_bills :: "uuid \<Rightarrow> string \<Rightarrow> db \<Rightarrow> nat" where
  "live_bills t remark s = length (filter (\<lambda>h. h_TenantID h = t \<and> h_Remark h = remark \<and> \<not> h_deleted h) (bill_head s))"

definition is_import :: "string \<Rightarrow> bool" where
  "is_import remark \<longleftrightarrow> take 7 remark = ''import:''"

lemma is_import_remarks [simp]:
  "is_import (import_remark pf no)" "\<not> is_import (cancel_remark E pf no b)" "\<not> is_import (refund_remark pf no rid)"
  by (simp_all add: is_import_def import_remark_def cancel_remark_def refund_remark_def)

definition one_bill_each :: "db \<Rightarrow> bool" where
  "one_bill_each s \<longleftrightarrow> (\<forall>t remark. is_import remark \<longrightarrow> live_bills t remark s \<le> 1)"

lemma live_bills_tags: "live_bills t remark s = length (filter (\<lambda>x. x = (t, remark, False)) (views head_tag s))"
  by (simp add: live_bills_def views_def filter_map o_def head_tag_def)

lemma live_bills_eq: "views head_tag s' = views head_tag s \<Longrightarrow> live_bills t remark s' = live_bills t remark s"
  by (simp add: live_bills_tags)

lemma orphan_None: "orphan_bill t remark s = None \<longleftrightarrow> live_bills t remark s = 0"
  by (auto simp: orphan_bill_def live_bills_def split: list.splits)

section \<open>What a delivery does to the bill table\<close>

lemma MarkOrderSeen_tags [simp]: "views v (snd (runTx (MarkOrderSeen up t pf no b) s)) = views v s"
  by (simp add: runTx_def MarkOrderSeen_def failE_def modifyE_def)

lemma IsOrderSeen_tags [simp]: "views v (snd (IsOrderSeen up t pf no s)) = views v s"
  by (auto simp: IsOrderSeen_def bindP_def readP_def returnP_def tryP_def split: option.split prod.split)
     (metis MarkOrderSeen_tags snd_conv)

lemma IsOrderSeen_unseen:
  "IsOrderSeen up t pf no s = (Inr None, s') \<Longrightarrow> s' = s \<and> live_bills t (import_remark pf no) s = 0"
  by (auto simp: IsOrderSeen_def bindP_def readP_def returnP_def tryP_def orphan_None [symmetric] split: option.splits prod.splits)

text \<open>A booked order adds at most its own bill.\<close>

lemma book_order_tags:
  assumes "stock_executor E exec"
  shows "views head_tag (snd (book_order E mk exec t c w pf no d items s)) \<in>
           {views head_tag s, views head_tag s @ [(t, import_remark pf no, False)]}"
proof -
  let ?req = "\<lparr> cs_TenantID = t, cs_CreatorID = c, cs_PartnerID = None, cs_WarehouseID = Some w, cs_BillDate = d,
       cs_ShippingFee = 0, cs_TaxAmount = 0, cs_Remark = import_remark pf no, cs_Items = map (sale_item w) items \<rparr>"
  have c: "importSaleCreator E t c (Some w) d (import_remark pf no) items = CreateSale_Execute E ?req"
    by (simp add: importSaleCreator_def)
  have ap: "views head_tag (snd (importSaleApprover E exec t b c s1)) = views head_tag s1" for b s1
    using tag.ApproveSale_views [OF assms, of "import_approval t b c" s1 s1] by (auto simp: importSaleApprover_def split: prod.split sum.split)
  show ?thesis
  proof (rule CreateSale_views [where 'v = "uuid \<times> string \<times> bool", of E ?req s])
    fix e assume "CreateSale_Execute E ?req s = (Inl e, s)"
    then show ?thesis by (simp add: book_order_def c bindP_def mapErrP_def)
  next
    fix i no' its amount s'
    assume r: "CreateSale_Execute E ?req s = (Inr (i, no'), s')"
      and m: "\<And>v :: BillHead \<Rightarrow> uuid \<times> string \<times> bool. views v s' = views v s @ [v (created_head E (sale_head E ?req i its amount\<lparr>h_BillNo := no'\<rparr>))]"
    have v: "views head_tag s' = views head_tag s @ [(t, import_remark pf no, False)]"
      unfolding m by (simp add: head_tag_def sale_head_def created_head_def Let_def blank_head_def)
    obtain a s2 where a: "importSaleApprover E exec t i c s' = (a, s2)" by force
    then have "views head_tag s2 = views head_tag s'" using ap [of i s'] by simp
    moreover obtain m s3 where m: "runTx (MarkOrderSeen (mk_order mk) t pf no i) s2 = (m, s3)" by force
    moreover have "views head_tag s3 = views head_tag s2" using MarkOrderSeen_tags [of head_tag "mk_order mk" t pf no i s2] m by simp
    ultimately show ?thesis using v a r
      by (cases a) (simp_all add: book_order_def c bindP_def mapErrP_def tryP_def returnP_def)
  qed
qed

text \<open>A return adds no bill of an order.\<close>

definition orders_kept :: "db \<Rightarrow> db \<Rightarrow> bool" where
  "orders_kept s s' \<longleftrightarrow> (\<forall>t remark. is_import remark \<longrightarrow> live_bills t remark s' = live_bills t remark s)"

lemma orders_kept_refl [simp]: "orders_kept s s"
  by (simp add: orders_kept_def)

lemma orders_kept_trans: "orders_kept s s' \<Longrightarrow> orders_kept s' s'' \<Longrightarrow> orders_kept s s''"
  by (simp add: orders_kept_def)

lemma orders_keptI: "views head_tag s' = views head_tag s \<Longrightarrow> orders_kept s s'"
  by (simp add: orders_kept_def live_bills_tags)

lemma stays_orders_kept:
  assumes "\<And>s. orders_kept s (snd (m s))"
  shows "stays (orders_kept s0) m"
  unfolding stays_def by (intro allI impI) (rule orders_kept_trans [OF _ assms])

lemma CreateReturn_orders_kept:
  assumes "cr_LinkBillID req = None" "\<not> is_import (cr_Remark req)"
  shows "orders_kept s (snd (CreateReturn_Execute E req s))"
proof (rule CreateReturn_views [where 'v = "uuid \<times> string \<times> bool", OF assms(1), of E s])
  fix i no items s'
  assume r: "CreateReturn_Execute E req s = (Inr (i, no), s')"
    and m: "\<And>v :: BillHead \<Rightarrow> uuid \<times> string \<times> bool. views v s' = views v s @ [v (created_head E (return_head E req i items\<lparr>h_BillNo := no\<rparr>))]"
  have v: "views head_tag s' = views head_tag s @ [(cr_TenantID req, cr_Remark req, False)]"
    unfolding m by (simp add: head_tag_def return_head_def created_head_def Let_def blank_head_def)
  show ?thesis unfolding orders_kept_def live_bills_tags using v r assms(2) by auto
qed simp

lemma stays_importReturnCreator [staysI]:
  assumes "\<not> is_import remark"
  shows "stays (orders_kept s0) (importReturnCreator E t c w d remark items)"
proof -
  have "stays (orders_kept s0) (CreateReturn_Execute E \<lparr> cr_TenantID = t, cr_CreatorID = c, cr_WarehouseID = wh, cr_PartnerID = None,
      cr_LinkBillID = None, cr_BillDate = d, cr_Remark = remark, cr_Items = its \<rparr>)" for wh its
    by (rule stays_orders_kept, rule CreateReturn_orders_kept) (simp_all add: assms)
  then show ?thesis unfolding importReturnCreator_def by (intro staysI)
qed

lemma stays_importReturnApprover [staysI]:
  assumes "stock_executor E exec"
  shows "stays (orders_kept s0) (importReturnApprover E exec t b c)"
  unfolding importReturnApprover_def
  by (rule stays_mapErrP, rule stays_orders_kept, rule orders_keptI, rule tag.ApproveReturn_views [OF assms])

lemma stays_marks [staysI]:
  "stays (orders_kept s0) (runTx (MarkOrderSeen up t pf no b))" "stays (orders_kept s0) (runTx (MarkCancelSeen up t pf no b r))"
  "stays (orders_kept s0) (runTx (MarkRefundSeen up t pf no rid b))" "stays (orders_kept s0) (IsOrderSeen up t pf no)"
  "stays (orders_kept s0) (runTx (UpsertMapping E m))"
  by (rule stays_orders_kept, rule orders_keptI,
      simp add: runTx_def MarkOrderSeen_def MarkCancelSeen_def MarkRefundSeen_def UpsertMapping_def failE_def modifyE_def bindE_def returnE_def uuid_New_def)+

lemma cancel_orders_kept:
  assumes "stock_executor E exec"
  shows "orders_kept s (snd (IngestCancelOrder E uc mk exec req s))"
proof (rule staysD [where I = "orders_kept s", OF _ orders_kept_refl])
  show "stays (orders_kept s) (IngestCancelOrder E uc mk exec req)"
    unfolding IngestCancelOrder_def Let_def cancelled_before_def cancel_imported_def cancelNothingToReverse_def
    by (intro staysI assms is_import_remarks)
qed

lemma refund_orders_kept:
  assumes "stock_executor E exec"
  shows "orders_kept s (snd (IngestRefund E uc mk exec req s))"
proof (rule staysD [where I = "orders_kept s", OF _ orders_kept_refl])
  show "stays (orders_kept s) (IngestRefund E uc mk exec req)"
    unfolding IngestRefund_def Let_def book_refund_def refundNothingToReverse_def
    by (intro staysI assms is_import_remarks)
qed

section \<open>An order has at most one bill\<close>

lemma one_bill_kept: "orders_kept s s' \<Longrightarrow> one_bill_each s \<Longrightarrow> one_bill_each s'"
  by (simp add: orders_kept_def one_bill_each_def)

text \<open>A delivered order ends with no more than one bill, provided it had none when it was looked up.\<close>

lemma book_order_one_bill:
  assumes "stock_executor E exec" "one_bill_each s" "live_bills t (import_remark pf no) s = 0"
  shows "one_bill_each (snd (book_order E mk exec t c w pf no d items s))"
proof -
  let ?s' = "snd (book_order E mk exec t c w pf no d items s)"
  have le: "live_bills t' r ?s' \<le> live_bills t' r s + (if (t', r) = (t, import_remark pf no) then 1 else 0)" for t' r
    using book_order_tags [OF assms(1), of mk t c w pf no d items s] by (auto simp: live_bills_tags)
  have "live_bills t' r ?s' \<le> 1" if "is_import r" for t' r
    using le [of t' r] assms(2,3) that by (auto simp: one_bill_each_def split: if_splits intro: le_trans)
  then show ?thesis by (simp add: one_bill_each_def)
qed

lemma after_lookup:
  assumes "\<And>s. one_bill_each s \<Longrightarrow> live_bills t (import_remark pf no) s = 0 \<Longrightarrow> one_bill_each (snd (k None s))"
    and "\<And>b. stays one_bill_each (k (Some b))"
  shows "stays one_bill_each (bindP (mapErrP f (IsOrderSeen up t pf no)) k)"
proof -
  have "one_bill_each (snd (bindP (mapErrP f (IsOrderSeen up t pf no)) k s))" if i: "one_bill_each s" for s
  proof -
    obtain r s1 where l: "IsOrderSeen up t pf no s = (r, s1)" by force
    have i1: "one_bill_each s1"
      using one_bill_kept [OF orders_keptI i, of s1] IsOrderSeen_tags [of head_tag up t pf no s] l by simp
    show ?thesis
    proof (cases r)
      case (Inl e)
      then show ?thesis using l i1 by (simp add: bindP_def mapErrP_def)
    next
      case (Inr hit)
      show ?thesis
      proof (cases hit)
        case None
        then have "s1 = s" "live_bills t (import_remark pf no) s = 0" using IsOrderSeen_unseen l Inr by auto
        then show ?thesis using assms(1) i l Inr None by (simp add: bindP_def mapErrP_def)
      next
        case (Some b)
        then show ?thesis using staysD [OF assms(2) i1, of b] l Inr by (simp add: bindP_def mapErrP_def)
      qed
    qed
  qed
  then show ?thesis by (simp add: stays_def)
qed

lemma stays_one_bill [staysI]: "(\<And>s0. stays (orders_kept s0) m) \<Longrightarrow> stays one_bill_each m"
  unfolding stays_def using one_bill_kept orders_kept_refl by blast

lemma single_order_one_bill:
  assumes "stock_executor E exec"
  shows "stays one_bill_each (IngestSingleOrder E uc mk exec req)"
proof -
  have "stays one_bill_each (ingestOneOrder E uc mk exec t c w pf no lines)" for t c w pf no lines
    unfolding ingestOneOrder_def Let_def
  proof (rule after_lookup)
    fix s assume "one_bill_each s" "live_bills t (import_remark (Platform_string pf) no) s = 0"
    then show "one_bill_each (snd ((case None of None \<Rightarrow> bindP (readP (resolve_rows t (Platform_string pf) lines)) (\<lambda>resolved.
          case resolved of
            Inl sku \<Rightarrow> returnP (Inl \<lparr> sk_PlatformOrderNo = no, sk_Reason = SkipUnknownSKU sku \<rparr>)
          | Inr rows \<Rightarrow>
              bindP (readP (order_items E (iu_targetCurrency uc) t rows)) (\<lambda>items.
              book_order E mk exec t c w (Platform_string pf) no (or_OrderDate (hd lines)) items))
        | Some b \<Rightarrow> returnP (Inl \<lparr> sk_PlatformOrderNo = no, sk_Reason = SkipDuplicate b \<rparr>)) s))"
      by (cases "resolve_rows t (Platform_string pf) lines s") (simp_all add: returnP_def book_order_one_bill [OF assms])
  qed (auto intro: stays_simple)
  note one = this
  have marks: "stays one_bill_each (runTx (MarkOrderSeen up t pf no b))" for up t pf no b by (intro staysI)
  show ?thesis unfolding IngestSingleOrder_def Let_def
    by (intro stays_thenP stays_bindP stays_tryP stays_if stays_case_sum stays_simple one marks)
qed

lemma import_rows_one_bill:
  assumes "stock_executor E exec"
  shows "stays one_bill_each (import_rows E uc mk exec req rows)"
proof -
  have hints: "stays one_bill_each (forP (persist_hint E req h) ls)" for h ls
    unfolding persist_hint_def
    by (intro stays_forP stays_case_prod stays_case_option stays_mapErrP stays_simple stays_one_bill stays_marks)
  have resolved: "one_bill_each (snd (import_resolved E uc mk exec req no ls res s))"
    if i: "one_bill_each s" "live_bills (ir_TenantID req) (import_remark (Platform_string (ir_Platform req)) no) s = 0" for no ls res s
  proof (cases "ir_DryRun req")
    case True
    then show ?thesis using i(1) by (simp add: import_resolved_def readP_def)
  next
    case False
    let ?m = "book_order E mk exec (ir_TenantID req) (ir_CreatorID req) (ir_WarehouseID req) (Platform_string (ir_Platform req)) no
       (or_OrderDate (fst (hd ls))) (order_items E (iu_targetCurrency uc) (ir_TenantID req) ls s)"
    let ?k = "\<lambda>r. case r of Inl skipped \<Rightarrow> returnP (res\<lparr>iz_Skipped := iz_Skipped res @ [skipped]\<rparr>)
        | Inr imported \<Rightarrow>
            thenP (if im_MarkSeenError imported = None then forP (persist_hint E req (hint_map (ir_SKUHints req))) ls else returnP [])
            (returnP (res\<lparr>iz_Imported := iz_Imported res @ [imported]\<rparr>))"
    have e: "import_resolved E uc mk exec req no ls res s = bindP ?m ?k s" using False by (simp add: import_resolved_def Let_def)
    have k: "stays one_bill_each (?k r)" for r by (intro stays_case_sum stays_thenP stays_if stays_simple hints)
    have m: "one_bill_each (snd (?m s))" by (rule book_order_one_bill [OF assms i])
    show ?thesis unfolding e using m k by (rule bindP_stays)
  qed
  have "stays one_bill_each (import_group E uc mk exec req g res)" for g res
    unfolding import_group_def Let_def
  proof (cases g, simp only: prod.case, rule after_lookup)
    fix no ls and s :: db assume "one_bill_each s" "live_bills (ir_TenantID req) (import_remark (Platform_string (ir_Platform req)) no) s = 0"
    then show "one_bill_each (snd ((case None of None \<Rightarrow>
          bindP (readP (resolve_all (ir_TenantID req) (Platform_string (ir_Platform req)) (hint_map (ir_SKUHints req)) ls)) (\<lambda>resolved.
          if list_ex (\<lambda>(_, p). p = None) resolved
          then returnP (res\<lparr>iz_UnknownSKUs := fold (\<lambda>(row, p) ls. if p = None then appendUniqueSKU ls (Platform_string (ir_Platform req), or_SKU row) else ls) resolved (iz_UnknownSKUs res),
                 iz_Skipped := iz_Skipped res @ [\<lparr> sk_PlatformOrderNo = no, sk_Reason = SkipUnknownSKUs \<rparr>]\<rparr>)
          else import_resolved E uc mk exec req no (map (\<lambda>(row, p). (row, the p)) resolved) res)
        | Some b \<Rightarrow> returnP (res\<lparr>iz_Skipped := iz_Skipped res @ [\<lparr> sk_PlatformOrderNo = no, sk_Reason = SkipDuplicate b \<rparr>]\<rparr>)) s))"
      using resolved by (simp add: returnP_def)
  qed (auto intro: stays_simple)
  then show ?thesis unfolding import_rows_def by (intro stays_foldP)
qed

section \<open>Cancellations stay\<close>

definition cancels_kept :: "db \<Rightarrow> db \<Rightarrow> bool" where
  "cancels_kept s s' \<longleftrightarrow> (\<forall>t pf no. IsCancelSeen t pf no s \<noteq> None \<longrightarrow> IsCancelSeen t pf no s' \<noteq> None)"

lemma cancels_kept_refl [simp]: "cancels_kept s s"
  by (simp add: cancels_kept_def)

lemma cancels_kept_trans: "cancels_kept s s' \<Longrightarrow> cancels_kept s' s'' \<Longrightarrow> cancels_kept s s''"
  by (simp add: cancels_kept_def)

lemma cancels_keptI: "import_order_cancel_seen s' = import_order_cancel_seen s \<Longrightarrow> cancels_kept s s'"
  by (simp add: cancels_kept_def IsCancelSeen_def)

text \<open>The bill use cases do not write the table.\<close>

lemma untouched_cancels [tripleI]:
  "untouched import_order_cancel_seen (uuid_New E)" "untouched import_order_cancel_seen (Payment_Record E p)"
  "untouched import_order_cancel_seen (NextBillNo E t x)" "untouched import_order_cancel_seen (UpdateItemPurchasePrice E t i c)"
  "untouched import_order_cancel_seen (GetBillForUpdate t b)" "untouched import_order_cancel_seen (CreateBill E h items)"
  "untouched import_order_cancel_seen (UpdateBillStatus E t b st ap rv)" "untouched import_order_cancel_seen (UpdatePaidAmount E t b a)"
  by (rule untouchedI', auto simp: Payment_Record_def bindE_Inr UpdateItemPurchasePrice_def GetBillForUpdate_Inr CreateBill_Inr
      UpdateBillStatus_def UpdatePaidAmount_Inr head_update_def split: if_splits dest!: NextBillNo_Inr(3))+

lemma untouched_cancels_warehouse [tripleI]: "untouched import_order_cancel_seen (resolveApprovalWarehouse E head t b)"
  by (rule untouchedI') (auto simp: head_update_def dest!: resolveApprovalWarehouse_Inr)

lemma untouched_cancels_items [tripleI]: "untouched import_order_cancel_seen (forE (build_item E t b) items)"
  by (rule untouchedI') (auto dest!: build_items_Inr)

lemma runTx_cancels: "untouched import_order_cancel_seen m \<Longrightarrow> import_order_cancel_seen (snd (runTx m s)) = import_order_cancel_seen s"
  by (cases "m s") (auto simp: runTx_def dest: untouchedD)

lemma CreateSale_cancels: "import_order_cancel_seen (snd (CreateSale_Execute E req s)) = import_order_cancel_seen s"
  unfolding CreateSale_Execute_def Let_def persist_bill_def by (intro runTx_cancels tripleI)

lemma CreateReturn_cancels:
  assumes "cr_LinkBillID req = None"
  shows "import_order_cancel_seen (snd (CreateReturn_Execute E req s)) = import_order_cancel_seen s"
  unfolding CreateReturn_Execute_def persist_bill_def assms option.case by (intro runTx_cancels tripleI)

context stock_executor
begin

lemma exec_cancels: "untouched import_order_cancel_seen (exec r)"
  by (rule untouchedI', rule beyond_stockD(13), rule exec_frame)

lemma ship_line_cancels: "untouched import_order_cancel_seen (ship_line E exec req w item)"
proof (rule untouchedI')
  fix s l s' assume "ship_line E exec req w item s = Inr (l, s')"
  then show "import_order_cancel_seen s' = import_order_cancel_seen s"
  proof (cases rule: ship_line_cases)
    case (shipped conv f snap s1)
    then show ?thesis using untouchedD [OF exec_cancels shipped(2)] untouchedD [OF untouched_cancels(4) shipped(3)] by simp
  qed simp
qed

lemma ApproveSale_cancels: "import_order_cancel_seen (snd (ApproveSale_Execute E exec req pre s)) = import_order_cancel_seen s"
  unfolding ApproveSale_Execute_def ApproveSale_executeInTx_def [abs_def] Let_def close_sale_def recordInitialPayment_def
  by (intro runTx_cancels tripleI ship_line_cancels)

lemma ApproveReturn_cancels:
  "import_order_cancel_seen (snd (ApproveReturn_Execute E units exec req pre s)) = import_order_cancel_seen s"
proof -
  have "untouched import_order_cancel_seen (approve_return_tx E units exec req)"
    unfolding approve_return_tx_def [abs_def] Let_def sale_left_def strict_check_def close_return_def return_line_def
    by (intro tripleI exec_cancels)
  then show ?thesis
    by (cases "approve_return_tx E units exec req s") (auto simp: ApproveReturn_Execute_def runTx_def dest: untouchedD)
qed

end

lemma stays_cancels_kept:
  assumes "\<And>s. cancels_kept s (snd (m s))"
  shows "stays (cancels_kept s0) m"
  unfolding stays_def by (intro allI impI) (rule cancels_kept_trans [OF _ assms])

lemma IsCancelSeen_iff: "IsCancelSeen t pf no s \<noteq> None \<longleftrightarrow> list_ex (cancel_at t pf no) (import_order_cancel_seen s)"
  by (auto simp: IsCancelSeen_def find_None_iff list_ex_iff)

lemma MarkCancelSeen_seen:
  "IsCancelSeen t' pf' no' (snd (runTx (MarkCancelSeen True t pf no b r) s)) \<noteq> None
     \<longleftrightarrow> IsCancelSeen t' pf' no' s \<noteq> None \<or> (t', pf', no') = (t, pf, no)"
proof -
  have "cancel_at t' pf' no' (if c x then x\<lparr>ics_original_bill_id := b, ics_reversal_bill_id := r\<rparr> else x) = cancel_at t' pf' no' x" for c x
    by (simp add: cancel_at_def)
  then show ?thesis unfolding IsCancelSeen_iff
    by (auto simp: runTx_def MarkCancelSeen_def modifyE_def list_ex_upsert cancel_at_def)
qed

lemma MarkCancelSeen_known: "up \<Longrightarrow> IsCancelSeen t pf no (snd (runTx (MarkCancelSeen up t pf no b r) s)) \<noteq> None"
  using MarkCancelSeen_seen [of t pf no t pf no b r s] by simp

lemma MarkCancelSeen_kept: "cancels_kept s (snd (runTx (MarkCancelSeen up t pf no b r) s))"
  using MarkCancelSeen_seen [of _ _ _ t pf no b r s] by (cases up) (auto simp: cancels_kept_def runTx_def MarkCancelSeen_def failE_def)

lemma stays_cancels [staysI]:
  "stays (cancels_kept s0) (runTx (MarkCancelSeen up t pf no b r))" "stays (cancels_kept s0) (runTx (MarkOrderSeen up t pf no b))"
  "stays (cancels_kept s0) (runTx (MarkRefundSeen up t pf no rid b))" "stays (cancels_kept s0) (runTx (UpsertMapping E m))"
  by (rule stays_cancels_kept, rule MarkCancelSeen_kept)
     (rule stays_cancels_kept, rule cancels_keptI,
      simp add: runTx_def MarkOrderSeen_def MarkRefundSeen_def UpsertMapping_def failE_def modifyE_def bindE_def returnE_def uuid_New_def)+

lemma stays_cancels_lookup [staysI]: "stays (cancels_kept s0) (IsOrderSeen up t pf no)"
  unfolding IsOrderSeen_def by (intro staysI)

lemma stays_cancels_ports [staysI]:
  assumes "stock_executor E exec"
  shows "stays (cancels_kept s0) (importSaleApprover E exec t b c)" "stays (cancels_kept s0) (importReturnApprover E exec t b c)"
proof -
  have "import_order_cancel_seen (snd (importSaleApprover E exec t b c s)) = import_order_cancel_seen s" for s
    using stock_executor.ApproveSale_cancels [OF assms, of "import_approval t b c" s s]
    by (cases "ApproveSale_Execute E exec (import_approval t b c) s s") (auto simp: importSaleApprover_def split: sum.split)
  then show "stays (cancels_kept s0) (importSaleApprover E exec t b c)" by (intro stays_cancels_kept cancels_keptI)
  show "stays (cancels_kept s0) (importReturnApprover E exec t b c)"
    unfolding importReturnApprover_def
    by (rule stays_mapErrP, rule stays_cancels_kept, rule cancels_keptI, rule stock_executor.ApproveReturn_cancels [OF assms])
qed

lemma stays_cancels_creators [staysI]:
  "stays (cancels_kept s0) (importSaleCreator E t c w d remark items)" "stays (cancels_kept s0) (importReturnCreator E t c w d remark items)"
proof -
  show "stays (cancels_kept s0) (importSaleCreator E t c w d remark items)"
    unfolding importSaleCreator_def by (rule stays_cancels_kept, rule cancels_keptI, rule CreateSale_cancels)
  have "stays (cancels_kept s0) (CreateReturn_Execute E \<lparr> cr_TenantID = t, cr_CreatorID = c, cr_WarehouseID = wh, cr_PartnerID = None,
      cr_LinkBillID = None, cr_BillDate = d, cr_Remark = remark, cr_Items = its \<rparr>)" for wh its
    by (rule stays_cancels_kept, rule cancels_keptI, rule CreateReturn_cancels) simp
  then show "stays (cancels_kept s0) (importReturnCreator E t c w d remark items)" unfolding importReturnCreator_def by (intro staysI)
qed

lemma deliveries_keep_cancels:
  assumes "stock_executor E exec"
  shows "stays (cancels_kept s0) (IngestSingleOrder E uc mk exec req)" "stays (cancels_kept s0) (import_rows E uc mk exec ireq rows)"
    "stays (cancels_kept s0) (IngestCancelOrder E uc mk exec creq)" "stays (cancels_kept s0) (IngestRefund E uc mk exec rreq)"
proof -
  have b: "stays (cancels_kept s0) (book_order E mk exec t c w pf no d items)" for t c w pf no d items
    unfolding book_order_def by (intro staysI assms)
  show "stays (cancels_kept s0) (IngestSingleOrder E uc mk exec req)"
    unfolding IngestSingleOrder_def ingestOneOrder_def Let_def by (intro staysI b)
  have "stays (cancels_kept s0) (import_group E uc mk exec ireq g res)" for g res
    unfolding import_group_def import_resolved_def persist_hint_def Let_def by (cases g, simp only: prod.case) (intro staysI b)
  then show "stays (cancels_kept s0) (import_rows E uc mk exec ireq rows)" unfolding import_rows_def by (intro stays_foldP)
  show "stays (cancels_kept s0) (IngestCancelOrder E uc mk exec creq)"
    unfolding IngestCancelOrder_def Let_def cancelled_before_def cancel_imported_def cancelNothingToReverse_def by (intro staysI assms)
  show "stays (cancels_kept s0) (IngestRefund E uc mk exec rreq)"
    unfolding IngestRefund_def Let_def book_refund_def refundNothingToReverse_def by (intro staysI assms)
qed

text \<open>A cancellation that was answered has left its row.\<close>

lemma answered_cancel_seen:
  assumes "IngestCancelOrder E uc mk exec req s = (Inr res, s')"
  shows "IsCancelSeen (cq_TenantID req) (Platform_string (cq_Platform req)) (cq_PlatformOrderNo req) s' \<noteq> None"
proof -
  let ?t = "cq_TenantID req" and ?pf = "Platform_string (cq_Platform req)" and ?no = "cq_PlatformOrderNo req"
  have m: "IsCancelSeen ?t ?pf ?no s2 \<noteq> None" if "thenP (mapErrP f (runTx (MarkCancelSeen up ?t ?pf ?no b r))) (returnP x) s1 = (Inr y, s2)" for f up b r x s1 y s2
  proof -
    have "up" using that by (auto simp: thenP_def bindP_def mapErrP_def runTx_def MarkCancelSeen_def failE_def split: if_splits)
    then have "s2 = snd (runTx (MarkCancelSeen up ?t ?pf ?no b r) s1)" using that
      by (auto simp: thenP_def bindP_def mapErrP_def runTx_def MarkCancelSeen_def modifyE_def returnP_def)
    then show ?thesis using MarkCancelSeen_known \<open>up\<close> by simp
  qed
  have n: "IsCancelSeen ?t ?pf ?no s2 \<noteq> None" if "cancelNothingToReverse mk req o' s1 = (Inr y, s2)" for o' s1 y s2
    using that unfolding cancelNothingToReverse_def by (rule m)
  have c: "cancel_checks uc req = Inr ()" using assms by (cases "cancel_checks uc req") (auto simp: IngestCancelOrder_def Let_def)
  show ?thesis
  proof (cases "IsCancelSeen ?t ?pf ?no s")
    case (Some ids)
    then show ?thesis using assms c by (auto simp: IngestCancelOrder_def Let_def cancelled_before_def readP_def split: prod.splits)
  next
    case None
    obtain seen s1 where l: "IsOrderSeen (mk_heal mk) ?t ?pf ?no s = (Inr seen, s1)"
      and k: "(case seen of
             None \<Rightarrow>
               thenP (mapErrP (Wrap ''importing: mark_cancel_seen for unknown order'') (runTx (MarkCancelSeen (mk_cancel mk) ?t ?pf ?no uuid_Nil uuid_Nil)))
               (returnP \<lparr> cz_PlatformOrderNo = ?no, cz_OriginalBillID = uuid_Nil, cz_ReversalBillID = uuid_Nil, cz_ReversalBillNo = [], cz_NothingToReverse = True \<rparr>)
           | Some original \<Rightarrow> cancel_imported E mk exec req original) s1 = (Inr res, s')"
      using assms c None unfolding IngestCancelOrder_def Let_def by (auto simp: bindP_Inr mapErrP_def split: prod.splits sum.splits)
    show ?thesis
    proof (cases seen)
      case None
      then show ?thesis using k m by simp
    next
      case (Some original)
      then show ?thesis using k m n unfolding option.case cancel_imported_def Let_def tryP_def
        by (auto simp: failP_def split: prod.splits sum.splits if_splits)
    qed
  qed
qed

section \<open>Deliveries\<close>

text \<open>
  What can happen to the shop while orders come in: webhooks and files in any order and any number
  of times, with whatever deduplication writes lost, on any clock and either cost method; and any
  other activity that writes no bill with the remark of an order and deletes no recorded cancellation.
\<close>

inductive delivery :: "db \<Rightarrow> db \<Rightarrow> bool" where
  order: "delivery s (snd (IngestSingleOrder E uc mk (RecordMovement_ExecuteInTx E (executor_of E profile outbox)) req s))"
| batch: "delivery s (snd (import_rows E uc mk (RecordMovement_ExecuteInTx E (executor_of E profile outbox)) ireq rows s))"
| cancel: "delivery s (snd (IngestCancelOrder E uc mk (RecordMovement_ExecuteInTx E (executor_of E profile outbox)) creq s))"
| refund: "delivery s (snd (IngestRefund E uc mk (RecordMovement_ExecuteInTx E (executor_of E profile outbox)) rreq s))"
| quiet: "orders_kept s s' \<Longrightarrow> cancels_kept s s' \<Longrightarrow> delivery s s'"

inductive_cases deliveryE: "delivery s s'"

lemma executor_ok: "stock_executor E (RecordMovement_ExecuteInTx E (executor_of E profile outbox))"
  by (rule new_exec.stock_executor_axioms)

lemma deliveries_one_bill:
  assumes "delivery\<^sup>*\<^sup>* s0 s" "one_bill_each s0"
  shows "one_bill_each s"
  using assms
proof (induction rule: rtranclp_induct)
  case (step s s')
  then have i: "one_bill_each s" by simp
  from step(2) show ?case
  proof cases
    case order
    then show ?thesis using staysD [OF single_order_one_bill [OF executor_ok] i] by simp
  next
    case batch
    then show ?thesis using staysD [OF import_rows_one_bill [OF executor_ok] i] by simp
  next
    case cancel
    then show ?thesis using one_bill_kept [OF cancel_orders_kept [OF executor_ok] i] by simp
  next
    case refund
    then show ?thesis using one_bill_kept [OF refund_orders_kept [OF executor_ok] i] by simp
  next
    case quiet
    then show ?thesis using one_bill_kept i by blast
  qed
qed

text \<open>A known order is turned away: no bill, no movement, nothing but the deduplication row.\<close>

lemma IsOrderSeen_known:
  assumes "0 < live_bills t (import_remark pf no) s"
  obtains b s' where "IsOrderSeen up t pf no s = (Inr (Some b), s')" "bill_head s' = bill_head s" "stock_movement s' = stock_movement s"
    "stock_snapshot s' = stock_snapshot s" "payment_head s' = payment_head s"
proof (cases "ImportedOrderBillID t pf no s")
  case (Some b)
  then show ?thesis by (intro that [of b s]) (simp_all add: IsOrderSeen_def bindP_def readP_def returnP_def)
next
  case None
  obtain b where b: "orphan_bill t (import_remark pf no) s = Some b" using assms orphan_None by (metis neq0_conv not_Some_eq)
  show ?thesis
    by (rule that [of b "snd (runTx (MarkOrderSeen up t pf no b) s)"])
       (simp_all add: IsOrderSeen_def bindP_def readP_def None b tryP_def returnP_def runTx_def MarkOrderSeen_def failE_def modifyE_def)
qed

lemma known_order_refused:
  assumes "0 < live_bills (so_TenantID req) (import_remark (Platform_string (so_Platform req)) (so_PlatformOrderNo req)) s"
    and "IngestSingleOrder E uc mk exec req s = (res, s')"
  shows "(\<forall>imported. res \<noteq> Inr (Inr imported)) \<and> bill_head s' = bill_head s \<and> stock_movement s' = stock_movement s
    \<and> stock_snapshot s' = stock_snapshot s \<and> payment_head s' = payment_head s"
proof (cases "single_order_checks req = Inr () \<and> IsCancelSeen (so_TenantID req) (Platform_string (so_Platform req)) (so_PlatformOrderNo req) s = None")
  case False
  then show ?thesis using assms(2) by (cases "single_order_checks req") (auto simp: IngestSingleOrder_def Let_def returnP_def split: if_splits)
next
  case True
  obtain b s1 where s1: "IsOrderSeen (mk_heal mk) (so_TenantID req) (Platform_string (so_Platform req)) (so_PlatformOrderNo req) s = (Inr (Some b), s1)"
    "bill_head s1 = bill_head s" "stock_movement s1 = stock_movement s" "stock_snapshot s1 = stock_snapshot s" "payment_head s1 = payment_head s"
    using assms(1) by (rule IsOrderSeen_known)
  have "ingestOneOrder E uc mk exec (so_TenantID req) (so_CreatorID req) (so_WarehouseID req) (so_Platform req) (so_PlatformOrderNo req) (so_Lines req) s
      = (Inr (Inl \<lparr> sk_PlatformOrderNo = so_PlatformOrderNo req, sk_Reason = SkipDuplicate b \<rparr>), s1)"
    by (simp add: ingestOneOrder_def Let_def bindP_def mapErrP_def s1(1) returnP_def)
  then show ?thesis using assms(2) True s1 by (auto simp: IngestSingleOrder_def Let_def bindP_def readP_def returnP_def)
qed

text \<open>
  C21: an order of a platform is booked at most once.  Whatever deliveries an empty shop handles one after
  the other, however often and in whatever order, with whatever deduplication writes lost, no order has more
  than one live bill; and once it has one, a further single delivery of it writes no bill, no movement, no book
  row and no payment and does not report an import.  Deliveries that overlap are outside this
  statement: the code looks an order up and books it in separate transactions, without a lock.
\<close>

theorem order_booked_once:
  assumes "delivery\<^sup>*\<^sup>* empty_db s"
  shows "live_bills t (import_remark pf no) s \<le> 1
    \<and> (\<forall>E uc mk profile outbox req. 0 < live_bills (so_TenantID req) (import_remark (Platform_string (so_Platform req)) (so_PlatformOrderNo req)) s \<longrightarrow>
        (case IngestSingleOrder E uc mk (RecordMovement_ExecuteInTx E (executor_of E profile outbox)) req s of (res, s') \<Rightarrow>
           (\<forall>imported. res \<noteq> Inr (Inr imported)) \<and> bill_head s' = bill_head s \<and> stock_movement s' = stock_movement s
           \<and> stock_snapshot s' = stock_snapshot s \<and> payment_head s' = payment_head s))"
proof
  have "one_bill_each empty_db" by (simp add: one_bill_each_def live_bills_def empty_db_def)
  then have "one_bill_each s" by (rule deliveries_one_bill [OF assms])
  then show "live_bills t (import_remark pf no) s \<le> 1" by (simp add: one_bill_each_def)
qed (use known_order_refused in blast)

lemma deliveries_cancels:
  assumes "delivery\<^sup>*\<^sup>* s0 s"
  shows "cancels_kept s0 s"
  using assms
proof (induction rule: rtranclp_induct)
  case (step s s')
  note keep = staysD [where I = "cancels_kept s0", OF _ step.IH]
  from step(2) show ?case
  proof cases
    case (quiet)
    then show ?thesis using step.IH cancels_kept_trans by blast
  qed (simp_all add: keep deliveries_keep_cancels [OF executor_ok])
qed simp

lemma cancelled_order_refused:
  assumes "IsCancelSeen (so_TenantID req) (Platform_string (so_Platform req)) (so_PlatformOrderNo req) s \<noteq> None" "single_order_checks req = Inr ()"
  shows "IngestSingleOrder E uc mk exec req s = (Inr (Inl \<lparr> sk_PlatformOrderNo = so_PlatformOrderNo req, sk_Reason = SkipCancelled \<rparr>), s)"
  using assms by (auto simp: IngestSingleOrder_def Let_def returnP_def)

lemma cancelled_again:
  assumes "IsCancelSeen (cq_TenantID req) (Platform_string (cq_Platform req)) (cq_PlatformOrderNo req) s \<noteq> None" "cancel_checks uc req = Inr ()"
  shows "\<exists>res. IngestCancelOrder E uc mk exec req s = (Inr res, s)"
  using assms by (auto simp: IngestCancelOrder_def Let_def cancelled_before_def readP_def split: prod.splits)

text \<open>
  C22: a cancellation is final.  Once a cancellation of an order has been answered, then whatever
  is handled afterwards, a single delivery of that order is skipped as cancelled and a repeated
  cancellation is answered again, both without a change to the data: the order is not booked and
  the goods are not taken back a second time.
\<close>

theorem cancel_is_final:
  assumes "IngestCancelOrder E uc mk (RecordMovement_ExecuteInTx E (executor_of E profile outbox)) creq s = (Inr res, s1)"
    and "delivery\<^sup>*\<^sup>* s1 s2"
    and "so_TenantID req = cq_TenantID creq" "so_Platform req = cq_Platform creq" "so_PlatformOrderNo req = cq_PlatformOrderNo creq"
    and "single_order_checks req = Inr ()"
  shows "IngestSingleOrder E' uc' mk' exec' req s2 = (Inr (Inl \<lparr> sk_PlatformOrderNo = so_PlatformOrderNo req, sk_Reason = SkipCancelled \<rparr>), s2)
    \<and> (cancel_checks uc' creq = Inr () \<longrightarrow> (\<exists>res'. IngestCancelOrder E' uc' mk' exec' creq s2 = (Inr res', s2)))"
proof -
  have "IsCancelSeen (cq_TenantID creq) (Platform_string (cq_Platform creq)) (cq_PlatformOrderNo creq) s2 \<noteq> None"
    using answered_cancel_seen [OF assms(1)] deliveries_cancels [OF assms(2)] by (auto simp: cancels_kept_def)
  then show ?thesis using cancelled_order_refused cancelled_again assms(3-6) by metis
qed

section \<open>Examples\<close>

definition demo_imports :: db where
  "demo_imports = demo_shop\<lparr>stock_snapshot := [demo_snapshot],
     import_sku_map := [\<lparr> sm_ID = 31, sm_TenantID = 11, sm_Platform = ''shopify'', sm_PlatformSKU = ''TEA-1'', sm_ProductID = 12,
                          sm_CreatedAt = 5, sm_UpdatedAt = 5 \<rparr>]\<rparr>"

definition demo_order :: SingleOrderRequest where
  "demo_order = \<lparr> so_TenantID = 11, so_CreatorID = 15, so_WarehouseID = 13, so_Platform = PlatformShopify, so_PlatformOrderNo = ''#1001'',
     so_PlatformOrderAlias = ''555'',
     so_Lines = [\<lparr> or_OrderNo = ''#1001'', or_SKU = ''TEA-1'', or_Qty = 4, or_UnitPrice = 9, or_Currency = ''cny'', or_OrderDate = 7 \<rparr>] \<rparr>"

text \<open>A delivery whose deduplication row is lost.\<close>

definition demo_marks :: marks where
  "demo_marks = \<lparr> mk_heal = True, mk_order = False, mk_alias = True, mk_cancel = True, mk_refund = True \<rparr>"

definition demo_uc :: ImportOrdersUseCase where
  "demo_uc = WithReturnHandlers (NewImportOrdersUseCase [])"

lemma demo_order_booked:
  "live_bills 11 (import_remark ''shopify'' ''#1001'') (snd (IngestSingleOrder std_env demo_uc demo_marks demo_exec demo_order demo_imports)) = 1"
  by code_simp

theorem order_booked_once_witness:
  "\<exists>s s'. delivery\<^sup>*\<^sup>* empty_db s \<and> live_bills 11 (import_remark ''shopify'' ''#1001'') s = 1
     \<and> snd (IngestSingleOrder std_env demo_uc demo_marks demo_exec demo_order s) = s' \<and> bill_head s' = bill_head s"
proof -
  let ?s = "snd (IngestSingleOrder std_env demo_uc demo_marks demo_exec demo_order demo_imports)"
  have "delivery empty_db demo_imports"
    by (rule quiet) (simp_all add: orders_kept_def live_bills_def empty_db_def demo_imports_def demo_shop_def cancels_kept_def IsCancelSeen_def)
  moreover have "delivery demo_imports ?s" by (rule order)
  ultimately have d: "delivery\<^sup>*\<^sup>* empty_db ?s" by simp
  have r: "so_TenantID demo_order = 11" "Platform_string (so_Platform demo_order) = ''shopify''" "so_PlatformOrderNo demo_order = ''#1001''"
    by (simp_all add: demo_order_def)
  have "bill_head (snd (IngestSingleOrder std_env demo_uc demo_marks demo_exec demo_order ?s)) = bill_head ?s"
    using conjunct2 [OF order_booked_once [OF d], rule_format, of demo_order std_env demo_uc demo_marks None True] demo_order_booked
    by (simp add: r case_prod_beta)
  then show ?thesis using d demo_order_booked by blast
qed

definition demo_cancel :: CancelRequest where
  "demo_cancel = \<lparr> cq_TenantID = 11, cq_CreatorID = 15, cq_Platform = PlatformShopify, cq_PlatformOrderNo = ''#1001'' \<rparr>"

definition demo_cancelled :: db where
  "demo_cancelled = snd (IngestCancelOrder std_env demo_uc demo_marks demo_exec demo_cancel
     (snd (IngestSingleOrder std_env demo_uc demo_marks demo_exec demo_order demo_imports)))"

lemma answered_Inr: "isl (fst x) = False \<Longrightarrow> \<exists>r. x = (Inr r, snd x)"
  by (cases x; cases "fst x") simp_all

lemma demo_cancel_answered:
  "isl (fst (IngestCancelOrder std_env demo_uc demo_marks demo_exec demo_cancel
     (snd (IngestSingleOrder std_env demo_uc demo_marks demo_exec demo_order demo_imports)))) = False"
  by code_simp

theorem cancel_is_final_witness:
  "\<exists>s2. delivery demo_cancelled s2
     \<and> IngestSingleOrder std_env demo_uc demo_marks demo_exec demo_order s2 = (Inr (Inl \<lparr> sk_PlatformOrderNo = ''#1001'', sk_Reason = SkipCancelled \<rparr>), s2)"
proof -
  let ?s = "snd (IngestSingleOrder std_env demo_uc demo_marks demo_exec demo_order demo_imports)"
  let ?s2 = "snd (IngestSingleOrder std_env demo_uc demo_marks demo_exec demo_order demo_cancelled)"
  obtain res where c: "IngestCancelOrder std_env demo_uc demo_marks demo_exec demo_cancel ?s = (Inr res, demo_cancelled)"
    using answered_Inr [OF demo_cancel_answered] unfolding demo_cancelled_def by (rule exE)
  have d: "delivery demo_cancelled ?s2" by (rule order)
  have r: "so_TenantID demo_order = cq_TenantID demo_cancel" "so_Platform demo_order = cq_Platform demo_cancel"
    "so_PlatformOrderNo demo_order = cq_PlatformOrderNo demo_cancel" "so_PlatformOrderNo demo_order = ''#1001''"
    by (simp_all add: demo_order_def demo_cancel_def)
  have v: "single_order_checks demo_order = Inr ()" by code_simp
  show ?thesis
    using conjunct1 [OF cancel_is_final [OF c r_into_rtranclp [of delivery, OF d] r(1-3) v, of std_env demo_uc demo_marks demo_exec]] d r(4) by auto
qed

end
