(* ===== verification/Quick_Checkout.thy ===== *)
theory Quick_Checkout
  imports Bill_Approval "HOL-Library.Multiset"
begin

text \<open>
  The point of sale (\<open>internal/app/bill/quick_checkout.go\<close>): draft, approval and payment in one
  transaction, once per client reference.

  As for approvals, the looks at the database before the transaction read the state \<open>pre\<close>, which
  may be older than the one the transaction works on.
\<close>

record QuickCheckoutRequest =
  q_TenantID :: uuid
  q_CreatorID :: uuid
  q_PartnerID :: "uuid option"
  q_CustomerName :: string
  q_Remark :: string
  q_Items :: "SaleItem list"
  q_PaymentMethod :: string
  q_PaidAmount :: rat
  q_DiscountAmount :: rat
  q_ClientRef :: string
  q_Source :: string
  q_OccurredAt :: gotime

abbreviation "SourcePOS \<equiv> ''pos''"
abbreviation "SourcePOSOffline \<equiv> ''pos_offline''"

definition MaxClientRefLen :: nat where "MaxClientRefLen = 64"
definition maxOccurredAtFuture :: gotime where "maxOccurredAtFuture = seconds (5 * 60)"
definition maxOccurredAtPastAge :: gotime where "maxOccurredAtPastAge = seconds (30 * 24 * 3600)"

record QuickCheckoutResult =
  qr_BillID :: uuid
  qr_BillNo :: string
  qr_TotalAmount :: rat
  qr_ReceivableAmount :: rat
  qr_ChangeAmount :: rat

definition resolveOccurredAt :: "gotime \<Rightarrow> gotime \<Rightarrow> err + gotime" where
  "resolveOccurredAt reported nw =
     (if reported = 0 then Inr nw
      else if nw + maxOccurredAtFuture < reported then Inl (Wrap ''occurred_at is in the future'' ErrValidation)
      else if reported < nw - maxOccurredAtPastAge then Inl (Wrap ''occurred_at is older than 30 days'' ErrValidation)
      else Inr reported)"

definition findDuplicate :: "uuid \<Rightarrow> string \<Rightarrow> db \<Rightarrow> err option" where
  "findDuplicate t ref s = map_option (\<lambda>(i, no). DuplicateCheckoutError i no) (FindBillByClientRef t ref s)"

definition cashTenderRemark :: "env \<Rightarrow> string \<Rightarrow> rat \<Rightarrow> rat \<Rightarrow> string" where
  "cashTenderRemark E pm received change =
     (if pm \<noteq> [] \<and> pm \<noteq> ''cash'' \<or> \<not> 0 < received then []
      else utf8 [0x5B9E, 0x6536, 0x20] @ dec_fixed E 2 received @ utf8 [0xFF0C, 0x627E, 0x96F6, 0x20] @ dec_fixed E 2 change)"

definition assembleSaleItems :: "env \<Rightarrow> uuid \<Rightarrow> uuid \<Rightarrow> SaleItem list \<Rightarrow> (BillItem list \<times> rat) op" where
  "assembleSaleItems E t b items =
     bindE (forE (build_item E t b) items) (\<lambda>out. returnE (out, dround E 2 (line_total out)))"

text \<open>The remark: the walk-in name, the note on an offline sale, the cashier's note.\<close>

definition join_remark :: "string \<Rightarrow> string \<Rightarrow> string" where
  "join_remark a b = (if a \<noteq> [] then a @ utf8 [0xFF1B] else []) @ b"

definition checkout_remark :: "QuickCheckoutRequest \<Rightarrow> gotime \<Rightarrow> string" where
  "checkout_remark req occurredAt =
     (let r0 = (if q_PartnerID req = None then q_CustomerName req else []);
          r1 = (if q_OccurredAt req \<noteq> 0
                then join_remark r0 (utf8 [0x79BB, 0x7EBF, 0x9500, 0x552E, 0xFF0C, 0x5B9E, 0x9645, 0x53D1, 0x751F, 0x4E8E, 0x20]
                       @ cst_minute occurredAt) else r0);
          note1 = TrimSpace (q_Remark req)
      in if note1 \<noteq> [] then join_remark r1 note1 else r1)"

definition checkout_warehouse :: "QuickCheckoutRequest \<Rightarrow> uuid option" where
  "checkout_warehouse req =
     (case q_Items req of
        [] \<Rightarrow> None
      | it # _ \<Rightarrow> if si_WarehouseID it \<noteq> uuid_Nil then Some (si_WarehouseID it) else None)"

definition checkout_source :: "QuickCheckoutRequest \<Rightarrow> err + string" where
  "checkout_source req =
     (if q_Source req = [] then Inr SourcePOS
      else if q_Source req = SourcePOS \<or> q_Source req = SourcePOSOffline then Inr (q_Source req)
      else Inl (Wrap ''unsupported source'' ErrValidation))"

text \<open>The checks before the transaction; they yield the source and the time of the sale.\<close>

definition checkout_checks :: "env \<Rightarrow> QuickCheckoutRequest \<Rightarrow> db \<Rightarrow> err + (string \<times> gotime)" where
  "checkout_checks E req pre =
     (if q_TenantID req = uuid_Nil then Inl (Wrap ''tenant_id is required'' ErrValidation)
      else if q_CreatorID req = uuid_Nil then Inl (Wrap ''creator_id is required'' ErrValidation)
      else if q_Items req = [] then Inl (Wrap ''at least one item is required'' ErrValidation)
      else case validateRefs (q_TenantID req) (map ci_ProductID (q_Items req)) (checkout_warehouse req) pre of
        Inl e \<Rightarrow> Inl e | Inr _ \<Rightarrow>
      if q_PaidAmount req < 0 then Inl (Wrap ''paid_amount must be non-negative'' ErrValidation)
      else if q_PaidAmount req \<noteq> dround E 2 (q_PaidAmount req) then Inl (Wrap ''paid_amount has more than 2 decimals'' ErrValidation)
      else if q_DiscountAmount req < 0 then Inl (Wrap ''discount_amount must be non-negative'' ErrValidation)
      else case resolvePayType (q_PaymentMethod req) of
        Inl e \<Rightarrow> Inl e | Inr _ \<Rightarrow>
      case validatePartner (q_TenantID req) (q_PartnerID req) pre of
        Inl e \<Rightarrow> Inl e | Inr _ \<Rightarrow>
      if MaxClientRefLen < length (q_ClientRef req) then Inl (Wrap ''client_ref is too long'' ErrValidation)
      else case checkout_source req of
        Inl e \<Rightarrow> Inl e | Inr source \<Rightarrow>
      if source = SourcePOSOffline \<and> (q_ClientRef req = [] \<or> q_OccurredAt req = 0)
      then Inl (Wrap ''pos_offline requires client_ref and occurred_at'' ErrValidation)
      else case resolveOccurredAt (q_OccurredAt req) (now E) of
        Inl e \<Rightarrow> Inl e | Inr occurredAt \<Rightarrow>
      if q_ClientRef req \<noteq> []
      then case findDuplicate (q_TenantID req) (q_ClientRef req) pre of
             Some dup \<Rightarrow> Inl dup | None \<Rightarrow> Inr (source, occurredAt)
      else Inr (source, occurredAt))"

definition checkout_head ::
  "env \<Rightarrow> QuickCheckoutRequest \<Rightarrow> string \<Rightarrow> gotime \<Rightarrow> uuid \<Rightarrow> string \<Rightarrow> rat \<Rightarrow> rat \<Rightarrow> BillHead" where
  "checkout_head E req source occurredAt billID billNo subtotal amount =
     blank_head\<lparr>h_ID := billID, h_TenantID := q_TenantID req, h_BillNo := billNo, h_BillType := BillTypeSale,
       h_SubType := BillSubTypeSale, h_Status := StatusDraft, h_PartnerID := q_PartnerID req,
       h_WarehouseID := checkout_warehouse req, h_CreatorID := q_CreatorID req, h_BillDate := now E,
       h_Subtotal := subtotal, h_TotalAmount := amount, h_Remark := checkout_remark req occurredAt,
       h_CreatedAt := now E, h_UpdatedAt := now E, h_ClientRef := q_ClientRef req, h_Source := source,
       h_OccurredAt := (if q_OccurredAt req \<noteq> 0 then Some occurredAt else None)\<rparr>"

definition checkout_approval :: "env \<Rightarrow> QuickCheckoutRequest \<Rightarrow> string \<Rightarrow> uuid \<Rightarrow> rat \<Rightarrow> rat \<Rightarrow> ApproveSaleRequest" where
  "checkout_approval E req source billID recorded change =
     \<lparr> as_TenantID = q_TenantID req, as_BillID = billID, as_CreatorID = q_CreatorID req, as_PaidAmount = recorded,
       as_PayType = q_PaymentMethod req, as_PaymentRemark = cashTenderRemark E (q_PaymentMethod req) (q_PaidAmount req) change,
       as_OccurredAt = 0, as_AllowNegative = (source = SourcePOSOffline) \<rparr>"

definition checkout_tx ::
  "env \<Rightarrow> (RecordMovementRequest \<Rightarrow> Snapshot op) \<Rightarrow> QuickCheckoutRequest \<Rightarrow> string \<Rightarrow> gotime \<Rightarrow> QuickCheckoutResult op" where
  "checkout_tx E exec req source occurredAt =
     bindE (uuid_New E) (\<lambda>billID.
     bindE (mapErr (Wrap ''quick checkout: generate bill_no'') (NextBillNo E (q_TenantID req) ''SL'')) (\<lambda>billNo.
     bindE (mapErr (Wrap ''quick checkout: validate items'') (assembleSaleItems E (q_TenantID req) billID (q_Items req))) (\<lambda>(billItems, subtotal).
     if subtotal < q_DiscountAmount req then failE (Wrap ''discount_amount exceeds the line total'' ErrValidation)
     else
       let amount = dround E 2 (subtotal - q_DiscountAmount req);
           recorded = (if amount < q_PaidAmount req then amount else q_PaidAmount req);
           change = (if amount < q_PaidAmount req then q_PaidAmount req - amount else 0)
       in
       thenE (mapErr (Wrap ''quick checkout: create bill'')
                (CreateBill E (checkout_head E req source occurredAt billID billNo subtotal amount) billItems))
       (bindE (mapErr (Wrap ''quick checkout: approve'')
                (ApproveSale_executeInTx E exec (checkout_approval E req source billID recorded change))) (\<lambda>oversold.
        bindE (forE (\<lambda>(p, onHand). mapErr (Wrap ''quick checkout: record negative stock'')
                       (RecordNegativeStock E (q_TenantID req) billID (q_CreatorID req) p onHand)) oversold) (\<lambda>_.
        returnE \<lparr> qr_BillID = billID, qr_BillNo = billNo, qr_TotalAmount = amount,
                  qr_ReceivableAmount = amount - recorded, qr_ChangeAmount = change \<rparr>))))))"

definition QuickCheckout_Execute ::
  "env \<Rightarrow> (RecordMovementRequest \<Rightarrow> Snapshot op) \<Rightarrow> QuickCheckoutRequest \<Rightarrow> db \<Rightarrow> db \<Rightarrow> (err + QuickCheckoutResult) \<times> db" where
  "QuickCheckout_Execute E exec req pre s =
     (case checkout_checks E req pre of
        Inl e \<Rightarrow> (Inl e, s)
      | Inr (source, occurredAt) \<Rightarrow>
          (case runTx (checkout_tx E exec req source occurredAt) s of
             (Inl e, s') \<Rightarrow>
               if q_ClientRef req \<noteq> [] \<and> errors_Is e ErrDuplicateClientRef
               then (case findDuplicate (q_TenantID req) (q_ClientRef req) s' of
                       Some dup \<Rightarrow> (Inl dup, s') | None \<Rightarrow> (Inl e, s'))
               else (Inl e, s')
           | (Inr res, s') \<Rightarrow> (Inr res, s')))"

section \<open>A new bill in the tables\<close>

lemma fresh_new_bill:
  assumes "runtime_env E" "bills_ok E s" "map it_ID bis = map (new_uuid E) [k ..< n]"
    and "draws s \<le> m" "m < k" "k \<le> n" "h_ID h = new_uuid E m" "\<forall>it \<in> set bis. it_HeadID it = h_ID h"
    and s': "bill_head s' = bill_head s" "bill_item s' = bill_item s" "draws s' = n"
  shows "new_bill E s' h bis"
proof -
  have inj: "inj (new_uuid E)" using runtime_env.new_uuid_inj [OF assms(1)] by (simp add: inj_on_def)
  have "distinct (map it_ID bis)" unfolding assms(3) by (auto simp: distinct_map intro: inj_on_subset [OF inj])
  moreover have "drawn E s' (it_ID x) \<and> it_ID x \<notin> it_ID ` set (bill_item s')" if "x \<in> set bis" for x
  proof -
    have "it_ID x \<in> set (map it_ID bis)" using that by simp
    then obtain i where i: "it_ID x = new_uuid E i" "k \<le> i" "i < n" unfolding assms(3) by auto
    have "new_uuid E i \<notin> it_ID ` set (bill_item s)"
      by (rule bills_ok_fresh(2) [OF assms(1,2)]) (use i assms(4-6) in simp)
    then show ?thesis using i s' by (auto simp: drawn_def)
  qed
  moreover have "h_ID h \<notin> h_ID ` set (bill_head s')" unfolding assms(7) s' by (rule bills_ok_fresh(1) [OF assms(1,2,4)])
  ultimately show ?thesis using assms(4-8) s' by (auto simp: new_bill_def drawn_def intro!: exI [of _ m])
qed

lemma NextBillNo_bills_ok:
  assumes "bills_ok E s" "NextBillNo E t prefix s = Inr (no, s1)"
  shows "bills_ok E s1"
proof -
  obtain rows where s1: "s1 = s\<lparr>draws := Suc (draws s), bill_sequence := rows\<rparr>" using NextBillNo_Inr(3) [OF assms(2)] by blast
  have "numbered s1" by (rule NextBillNo_numbered(1) [OF bills_okD(1) [OF assms(1)] assms(2)])
  then show ?thesis using assms(1) drawn_mono [of E s _ s1] by (auto simp: bills_ok_def s1)
qed

text \<open>The lines of a bill that has just been created.\<close>

lemma GetBillItems_created:
  assumes "CreateBill E h items s = Inr (u, s')" "h_ID h \<notin> it_HeadID ` set (bill_item s)"
    and "\<forall>it \<in> set items. it_HeadID it = h_ID h \<and> it_TenantID it = h_TenantID h"
  shows "GetBillItems (h_TenantID h) (h_ID h) s' = sort_key it_LineNo (map (stored_item E) items)"
proof -
  have "filter (item_of (h_TenantID h) (h_ID h)) (bill_item s) = []"
    using assms(2) by (force simp: filter_empty_conv item_of_def)
  moreover have "filter (item_of (h_TenantID h) (h_ID h)) (map (stored_item E) items) = map (stored_item E) items"
    using assms(3) by (auto simp: filter_id_conv item_of_def)
  ultimately show ?thesis using assms(1) by (simp add: GetBillItems_def CreateBill_Inr)
qed

lemma moved_sort_key: "moved s p (sort_key f items) = moved s p items"
proof -
  have "mset (map (base_qty s) (filter (\<lambda>it. it_ProductID it = p) (sort_key f items)))
      = mset (map (base_qty s) (filter (\<lambda>it. it_ProductID it = p) items))" by simp
  then show ?thesis unfolding moved_def by (metis sum_mset_sum_list)
qed

section \<open>Quantities of a request\<close>

definition sale_factor :: "db \<Rightarrow> 'a CreatePurchaseItemInput_scheme \<Rightarrow> rat" where
  "sale_factor s it = (case ci_UnitID it of None \<Rightarrow> 1 | Some u \<Rightarrow>
     (case GetConversionFactor (ci_ProductID it) u s of Inl _ \<Rightarrow> 1 | Inr f \<Rightarrow> f))"

definition sold :: "db \<Rightarrow> uuid \<Rightarrow> 'a CreatePurchaseItemInput_scheme list \<Rightarrow> rat" where
  "sold s p items = sum_list (map (\<lambda>it. ci_Qty it * sale_factor s it) (filter (\<lambda>it. ci_ProductID it = p) items))"

lemma base_qty_line:
  assumes "runtime_env E" "line_for E t b price it bi" "on_grid 4 (ci_Qty it)"
  shows "base_qty s (stored_item E bi) = ci_Qty it * sale_factor s it"
proof -
  have "it_Qty (stored_item E bi) = ci_Qty it"
    using assms by (simp add: stored_item_def line_for_def numeric_fix)
  then show ?thesis using assms(2) by (simp add: base_qty_def factor_of_def sale_factor_def line_for_def cong: option.case_cong)
qed

lemma moved_lines:
  assumes "runtime_env E" "list_all2 (\<lambda>it. line_for E t b (ci_UnitPrice it) it) items bis" "list_all (\<lambda>it. on_grid 4 (ci_Qty it)) items"
  shows "moved s p (map (stored_item E) bis) = sold s p items"
  using assms(2,3)
  by (induction rule: list_all2_induct)
     (auto simp: moved_def sold_def base_qty_line [OF assms(1)] line_for_def)

lemma lines_amount_grid: "runtime_env E \<Longrightarrow> on_grid 2 (lines_amount E items)"
  unfolding lines_amount_def by (rule on_grid_sum_list) (auto intro: dround_grid)

section \<open>The checkout transaction\<close>

definition checkout_total :: "env \<Rightarrow> QuickCheckoutRequest \<Rightarrow> rat" where
  "checkout_total E req = dround E 2 (lines_amount E (q_Items req) - q_DiscountAmount req)"

lemma assembleSaleItems_Inr:
  assumes "runtime_env E" "assembleSaleItems E t b items s = Inr ((bis, subtotal), s')"
  shows "forE (build_item E t b) items s = Inr (bis, s')" "subtotal = lines_amount E items"
proof -
  have f: "forE (build_item E t b) items s = Inr (bis, s')" and st: "subtotal = dround E 2 (line_total bis)"
    using assms(2) by (auto simp: assembleSaleItems_def bindE_Inr)
  have "line_total bis = lines_amount E items"
    unfolding lines_amount_def using build_items_Inr [OF f] by (intro line_total_for) blast
  then show "subtotal = lines_amount E items" using st dround_fix [OF assms(1) lines_amount_grid [OF assms(1)]] by simp
  show "forE (build_item E t b) items s = Inr (bis, s')" by (rule f)
qed

lemma checkout_tx_Inr:
  assumes "checkout_tx E exec req source occ s = Inr (res, s')" "runtime_env E"
  obtains no s1 bis s2 s3 oversold s4 us where "NextBillNo E (q_TenantID req) ''SL'' (s\<lparr>draws := Suc (draws s)\<rparr>) = Inr (no, s1)"
    "forE (build_item E (q_TenantID req) (new_uuid E (draws s))) (q_Items req) s1 = Inr (bis, s2)"
    "q_DiscountAmount req \<le> lines_amount E (q_Items req)"
    "CreateBill E (checkout_head E req source occ (new_uuid E (draws s)) no (lines_amount E (q_Items req)) (checkout_total E req)) bis s2 = Inr ((), s3)"
    "ApproveSale_executeInTx E exec (checkout_approval E req source (new_uuid E (draws s)) (min (q_PaidAmount req) (checkout_total E req))
        (max 0 (q_PaidAmount req - checkout_total E req))) s3 = Inr (oversold, s4)"
    "forE (\<lambda>(p, onHand). mapErr (Wrap ''quick checkout: record negative stock'')
        (RecordNegativeStock E (q_TenantID req) (new_uuid E (draws s)) (q_CreatorID req) p onHand)) oversold s4 = Inr (us, s')"
    "res = \<lparr> qr_BillID = new_uuid E (draws s), qr_BillNo = no, qr_TotalAmount = checkout_total E req,
        qr_ReceivableAmount = checkout_total E req - min (q_PaidAmount req) (checkout_total E req),
        qr_ChangeAmount = max 0 (q_PaidAmount req - checkout_total E req) \<rparr>"
proof -
  obtain no s1 bis subtotal s2 where n: "NextBillNo E (q_TenantID req) ''SL'' (s\<lparr>draws := Suc (draws s)\<rparr>) = Inr (no, s1)"
    and a: "assembleSaleItems E (q_TenantID req) (new_uuid E (draws s)) (q_Items req) s1 = Inr ((bis, subtotal), s2)"
    and k: "(if subtotal < q_DiscountAmount req then failE (Wrap ''discount_amount exceeds the line total'' ErrValidation)
     else
       let amount = dround E 2 (subtotal - q_DiscountAmount req);
           recorded = (if amount < q_PaidAmount req then amount else q_PaidAmount req);
           change = (if amount < q_PaidAmount req then q_PaidAmount req - amount else 0)
       in
       thenE (mapErr (Wrap ''quick checkout: create bill'')
                (CreateBill E (checkout_head E req source occ (new_uuid E (draws s)) no subtotal amount) bis))
       (bindE (mapErr (Wrap ''quick checkout: approve'')
                (ApproveSale_executeInTx E exec (checkout_approval E req source (new_uuid E (draws s)) recorded change))) (\<lambda>oversold.
        bindE (forE (\<lambda>(p, onHand). mapErr (Wrap ''quick checkout: record negative stock'')
                       (RecordNegativeStock E (q_TenantID req) (new_uuid E (draws s)) (q_CreatorID req) p onHand)) oversold) (\<lambda>_.
        returnE \<lparr> qr_BillID = new_uuid E (draws s), qr_BillNo = no, qr_TotalAmount = amount,
                  qr_ReceivableAmount = amount - recorded, qr_ChangeAmount = change \<rparr>)))) s2 = Inr (res, s')"
    using assms(1) unfolding checkout_tx_def by (auto simp: bindE_Inr)
  note A = assembleSaleItems_Inr [OF assms(2) a]
  have min: "(if x < y then x else y) = min y x" "(if x < y then y - x else 0) = max 0 (y - x)" for x y :: rat
    by (auto simp: min_def max_def)
  show ?thesis
    using k unfolding A(2) checkout_total_def [symmetric] Let_def min
    by (auto simp: bindE_Inr thenE_Inr not_less split: if_splits intro!: that [OF n A(1)])
qed

lemma negatives_recorded:
  assumes "forE (\<lambda>(p, onHand). mapErr w (RecordNegativeStock E t b who p onHand)) xs s = Inr (us, s')"
  shows "\<exists>a. s' = s\<lparr>audit_log := a\<rparr>"
  using assms
proof (induction xs arbitrary: s us)
  case Nil
  then show ?case by (auto intro!: exI [of _ "audit_log s"])
next
  case (Cons x xs)
  obtain p q where x: "x = (p, q)" by force
  obtain u s1 vs where one: "mapErr w (RecordNegativeStock E t b who p q) s = Inr (u, s1)"
    and r: "forE (\<lambda>(p, onHand). mapErr w (RecordNegativeStock E t b who p onHand)) xs s1 = Inr (vs, s')"
    using Cons.prems unfolding forE_Cons_Inr x by auto
  obtain a where "s1 = s\<lparr>audit_log := a\<rparr>" using one by (auto simp: RecordNegativeStock_def)
  then show ?case using Cons.IH [OF r] by auto
qed

lemma checkout_head_simps [simp]:
  "h_ID (checkout_head E req source occ b no st am) = b" "h_TenantID (checkout_head E req source occ b no st am) = q_TenantID req"
  "h_BillNo (checkout_head E req source occ b no st am) = no" "h_Status (checkout_head E req source occ b no st am) = StatusDraft"
  "h_TotalAmount (checkout_head E req source occ b no st am) = am" "h_WarehouseID (checkout_head E req source occ b no st am) = checkout_warehouse req"
  "h_ClientRef (checkout_head E req source occ b no st am) = q_ClientRef req"
  by (simp_all add: checkout_head_def)

lemma checkout_approval_simps [simp]:
  "as_TenantID (checkout_approval E req source b paid change) = q_TenantID req" "as_BillID (checkout_approval E req source b paid change) = b"
  "as_PaidAmount (checkout_approval E req source b paid change) = paid" "as_PayType (checkout_approval E req source b paid change) = q_PaymentMethod req"
  "as_AllowNegative (checkout_approval E req source b paid change) = (source = SourcePOSOffline)"
  by (simp_all add: checkout_approval_def)

text \<open>The bill the transaction has just drafted, ready to be approved.\<close>

lemma checkout_drafted:
  assumes E: "runtime_env E" and ok: "bills_ok E s"
    and n: "NextBillNo E (q_TenantID req) ''SL'' (s\<lparr>draws := Suc (draws s)\<rparr>) = Inr (no, s1)"
    and f: "forE (build_item E (q_TenantID req) (new_uuid E (draws s))) (q_Items req) s1 = Inr (bis, s2)"
    and c: "CreateBill E (checkout_head E req source occ (new_uuid E (draws s)) no st am) bis s2 = Inr ((), s3)"
    and g: "list_all (\<lambda>it. on_grid 4 (ci_Qty it)) (q_Items req)"
  defines "h0 \<equiv> created_head E (checkout_head E req source occ (new_uuid E (draws s)) no st am)"
  shows "find_head t b s3 = (if (t, b) = (q_TenantID req, new_uuid E (draws s)) then Some h0 else find_head t b s)"
    "find_head t (new_uuid E (draws s)) s = None"
    "GetBillItems (q_TenantID req) (new_uuid E (draws s)) s3 = sort_key it_LineNo (map (stored_item E) bis)"
    "moved s3 p (sort_key it_LineNo (map (stored_item E) bis)) = sold s p (q_Items req)"
    "list_all2 (\<lambda>it. line_for E (q_TenantID req) (new_uuid E (draws s)) (ci_UnitPrice it) it) (q_Items req) bis"
    "list_all item_ok (q_Items req)" "bills_ok E s3"
    "list_all (\<lambda>x. h_TenantID x = q_TenantID req \<longrightarrow> h_BillNo x \<noteq> no) (bill_head s)"
    "beyond_bills s3 = beyond_bills s"
proof -
  let ?b = "new_uuid E (draws s)" and ?h = "checkout_head E req source occ (new_uuid E (draws s)) no st am"
  obtain rows where s1: "s1 = s\<lparr>draws := Suc (Suc (draws s)), bill_sequence := rows\<rparr>" using NextBillNo_Inr(3) [OF n] by auto
  note B = build_items_Inr [OF f]
  have s2: "s2 = s1\<lparr>draws := Suc (Suc (draws s)) + length (q_Items req)\<rparr>" using B by (simp add: s1)
  have s3: "s3 = s2\<lparr>bill_head := bill_head s2 @ [created_head E ?h], bill_item := bill_item s2 @ map (stored_item E) bis\<rparr>"
    using c by (simp add: CreateBill_Inr)
  show lines: "list_all2 (\<lambda>it. line_for E (q_TenantID req) ?b (ci_UnitPrice it) it) (q_Items req) bis"
    and "list_all item_ok (q_Items req)" using B by simp_all
  have own: "it_HeadID x = ?b \<and> it_TenantID x = q_TenantID req" if "x \<in> set bis" for x
    using lines that by (auto simp: list_all2_conv_all_nth in_set_conv_nth line_for_def)
  have ok0: "bills_ok E (s\<lparr>draws := Suc (draws s)\<rparr>)" by (rule bills_ok_frame [OF ok]) simp_all
  have ok1: "bills_ok E s1" by (rule NextBillNo_bills_ok [OF ok0 n])
  have ok2: "bills_ok E s2" by (rule bills_ok_frame [OF ok1]) (simp_all add: s2 s1)
  have new: "new_bill E s2 ?h bis"
    by (rule fresh_new_bill [OF E ok, of _ "Suc (Suc (draws s))" "draws s2" "draws s"]) (use B own in \<open>auto simp: s1 s2\<close>)
  note N = NextBillNo_numbered [OF bills_okD(1) [OF ok0] n]
  show "bills_ok E s3"
  proof (rule CreateBill_bills_ok [OF ok2 new _ c])
    show "\<exists>p. h_BillNo ?h = bill_number p (seq_val (h_TenantID ?h) p s2)"
      using N(3) seq_val_cong [of s2 s1] by (simp add: s2)
  qed
  show "list_all (\<lambda>x. h_TenantID x = q_TenantID req \<longrightarrow> h_BillNo x \<noteq> no) (bill_head s)" using N(2) by (auto simp: list_all_iff)
  have fresh: "?b \<notin> h_ID ` set (bill_head s)" "?b \<notin> it_HeadID ` set (bill_item s)" by (rule bills_ok_fresh [OF E ok], simp)+
  show none: "find_head t ?b s = None" for t by (rule find_head_fresh [OF fresh(1)])
  show "find_head t b s3 = (if (t, b) = (q_TenantID req, ?b) then Some h0 else find_head t b s)"
    using find_head_create [OF c] none by (auto simp: s1 s2 h0_def)
  show "GetBillItems (q_TenantID req) ?b s3 = sort_key it_LineNo (map (stored_item E) bis)"
    using GetBillItems_created [OF c] fresh(2) own by (simp add: s1 s2)
  have "moved s3 p (sort_key it_LineNo (map (stored_item E) bis)) = moved s p (map (stored_item E) bis)"
    unfolding moved_sort_key by (rule moved_frame) (simp_all add: s1 s2 s3)
  then show "moved s3 p (sort_key it_LineNo (map (stored_item E) bis)) = sold s p (q_Items req)"
    using moved_lines [OF E lines g] by simp
  show "beyond_bills s3 = beyond_bills s" by (simp add: s1 s2 s3)
qed

section \<open>What a checkout books\<close>

lemma checkout_checks_Inr:
  assumes "checkout_checks E req pre = Inr (source, occ)"
  shows "q_PaidAmount req = dround E 2 (q_PaidAmount req)" "0 \<le> q_PaidAmount req" "0 \<le> q_DiscountAmount req"
    "q_Items req \<noteq> []" "source = SourcePOSOffline \<longleftrightarrow> q_Source req = SourcePOSOffline"
    "resolveOccurredAt (q_OccurredAt req) (now E) = Inr occ" "q_ClientRef req \<noteq> [] \<longrightarrow> findDuplicate (q_TenantID req) (q_ClientRef req) pre = None"
    "source = SourcePOSOffline \<longrightarrow> q_ClientRef req \<noteq> [] \<and> q_OccurredAt req \<noteq> 0" "\<exists>pt. resolvePayType (q_PaymentMethod req) = Inr pt"
  using assms unfolding checkout_checks_def
  by (auto simp: checkout_source_def split: if_splits sum.splits option.splits)

lemma QuickCheckout_Inr:
  assumes "QuickCheckout_Execute E exec req pre s = (Inr res, s')"
  obtains source occ where "checkout_checks E req pre = Inr (source, occ)" "checkout_tx E exec req source occ s = Inr (res, s')"
  using assms unfolding QuickCheckout_Execute_def
  by (auto simp: runTx_def split: sum.splits if_splits option.splits prod.splits)

lemma numbered_ids:
  assumes "numbered s" "same_ids s' s" "bill_sequence s' = bill_sequence s"
  shows "numbered s'"
proof -
  have "\<exists>p n. h_BillNo x = bill_number p n \<and> n \<le> seq_val (h_TenantID x) p s'" if x: "x \<in> set (bill_head s')" for x
  proof -
    have "head_ids x \<in> head_ids ` set (bill_head s)" using x assms(2) by (metis image_eqI set_map)
    then obtain y where y: "y \<in> set (bill_head s)" "head_ids x = head_ids y" by blast
    then have "h_BillNo x = h_BillNo y" "h_TenantID x = h_TenantID y" by (simp_all add: head_ids_def)
    then show ?thesis using assms(1) y(1) seq_val_cong [OF assms(3)] by (auto simp: numbered_def)
  qed
  then show ?thesis by (simp add: numbered_def)
qed

lemma CreateBill_client_ref:
  assumes "CreateBill E h items s = Inr (u, s')"
  shows "FindBillByClientRef (h_TenantID h) (h_ClientRef h) s' = (if h_ClientRef h = [] then None else Some (h_ID h, h_BillNo h))"
proof (cases "h_ClientRef h = []")
  case True
  then show ?thesis by (simp add: FindBillByClientRef_def find_None_iff)
next
  case False
  then have "\<not> list_ex (same_client_ref h) (bill_head s)" using assms by (simp add: CreateBill_Inr)
  then have "List.find (\<lambda>x. h_TenantID x = h_TenantID h \<and> h_ClientRef h \<noteq> [] \<and> h_ClientRef x = h_ClientRef h) (bill_head s) = None"
    unfolding find_None_iff list_ex_iff same_client_ref_def by blast
  then show ?thesis using assms False by (simp add: CreateBill_Inr FindBillByClientRef_def find_append)
qed

text \<open>What the checkout says and what the books say.\<close>

definition checkout_booked :: "env \<Rightarrow> QuickCheckoutRequest \<Rightarrow> QuickCheckoutResult \<Rightarrow> db \<Rightarrow> db \<Rightarrow> BillHead \<Rightarrow> bool" where
  "checkout_booked E req res s s' h \<longleftrightarrow>
     find_head (q_TenantID req) (qr_BillID res) s = None \<and> find_head (q_TenantID req) (qr_BillID res) s' = Some h
     \<and> list_all (\<lambda>x. h_TenantID x = q_TenantID req \<longrightarrow> h_BillNo x \<noteq> qr_BillNo res) (bill_head s)
     \<and> h_BillNo h = qr_BillNo res \<and> h_ClientRef h = q_ClientRef req \<and> h_Status h = StatusApproved
     \<and> h_TotalAmount h = checkout_total E req \<and> qr_TotalAmount res = checkout_total E req
     \<and> h_PaidAmount h = min (q_PaidAmount req) (checkout_total E req)
     \<and> qr_ReceivableAmount res = h_TotalAmount h - h_PaidAmount h
     \<and> q_PaidAmount req = h_PaidAmount h + qr_ChangeAmount res \<and> 0 \<le> qr_ReceivableAmount res \<and> 0 \<le> qr_ChangeAmount res
     \<and> (0 < h_PaidAmount h \<longrightarrow> (\<exists>p. payment_head s' = payment_head s @ [p] \<and> payment_of (q_TenantID req) (qr_BillID res) p
            \<and> p_Amount p = h_PaidAmount h \<and> resolvePayType (q_PaymentMethod req) = Inr (p_PayType p)))
     \<and> (h_PaidAmount h = 0 \<longrightarrow> payment_head s' = payment_head s)"

definition checkout_shipped :: "QuickCheckoutRequest \<Rightarrow> uuid \<Rightarrow> db \<Rightarrow> db \<Rightarrow> bool" where
  "checkout_shipped req w s s' \<longleftrightarrow>
     (\<forall>p. on_hand (q_TenantID req) p w s' = on_hand (q_TenantID req) p w s - sold s p (q_Items req))
     \<and> (\<forall>t p w'. (t, w') \<noteq> (q_TenantID req, w) \<longrightarrow> on_hand t p w' s' = on_hand t p w' s)
     \<and> (q_Source req \<noteq> SourcePOSOffline \<longrightarrow> list_all (\<lambda>it. 0 \<le> on_hand (q_TenantID req) (ci_ProductID it) w s') (q_Items req))"

lemma checkout_total_ok:
  assumes "runtime_env E" "q_DiscountAmount req \<le> lines_amount E (q_Items req)"
  shows "0 \<le> checkout_total E req" "on_grid 4 (checkout_total E req)" "numeric E 4 (checkout_total E req) = checkout_total E req"
proof -
  show "0 \<le> checkout_total E req" unfolding checkout_total_def by (rule dround_nonneg [OF assms(1)]) (use assms(2) in simp)
  show g: "on_grid 4 (checkout_total E req)"
    unfolding checkout_total_def by (rule on_grid_mono [OF dround_grid [OF assms(1)]]) simp
  show "numeric E 4 (checkout_total E req) = checkout_total E req" by (rule numeric_fix [OF assms(1) g])
qed

context stock_executor
begin

lemma checked_out:
  assumes E: "runtime_env E" and ok: "bills_ok E s" and u: "units_ok s" "book_on_grid s"
    and g: "list_all (\<lambda>it. on_grid 4 (ci_Qty it) \<and> on_grid 4 (ci_Qty it * sale_factor s it)) (q_Items req)"
    and x: "QuickCheckout_Execute E exec req pre s = (Inr res, s')"
  obtains h w where "checkout_booked E req res s s' h" "h_WarehouseID h = Some w" "checkout_shipped req w s s'"
    "FindBillByClientRef (q_TenantID req) (q_ClientRef req) s' = (if q_ClientRef req = [] then None else Some (qr_BillID res, qr_BillNo res))"
    "\<forall>t b. (t, b) \<noteq> (q_TenantID req, qr_BillID res) \<longrightarrow> find_head t b s' = find_head t b s" "numbered s'"
proof -
  let ?t = "q_TenantID req" and ?b = "new_uuid E (draws s)" and ?tot = "checkout_total E req"
  obtain source occ where c: "checkout_checks E req pre = Inr (source, occ)" and tx: "checkout_tx E exec req source occ s = Inr (res, s')"
    using x by (rule QuickCheckout_Inr)
  note C = checkout_checks_Inr [OF c]
  let ?paid = "min (q_PaidAmount req) ?tot" and ?change = "max 0 (q_PaidAmount req - ?tot)"
  obtain no s1 bis s2 s3 ns s4 us where n: "NextBillNo E ?t ''SL'' (s\<lparr>draws := Suc (draws s)\<rparr>) = Inr (no, s1)"
    and f: "forE (build_item E ?t ?b) (q_Items req) s1 = Inr (bis, s2)" and d: "q_DiscountAmount req \<le> lines_amount E (q_Items req)"
    and cr: "CreateBill E (checkout_head E req source occ ?b no (lines_amount E (q_Items req)) ?tot) bis s2 = Inr ((), s3)"
    and ap: "ApproveSale_executeInTx E exec (checkout_approval E req source ?b ?paid ?change) s3 = Inr (ns, s4)"
    and neg: "forE (\<lambda>(p, onHand). mapErr (Wrap ''quick checkout: record negative stock'')
        (RecordNegativeStock E ?t ?b (q_CreatorID req) p onHand)) ns s4 = Inr (us, s')"
    and res: "res = \<lparr> qr_BillID = ?b, qr_BillNo = no, qr_TotalAmount = ?tot, qr_ReceivableAmount = ?tot - ?paid, qr_ChangeAmount = ?change \<rparr>"
    using tx E by (rule checkout_tx_Inr)
  let ?h0 = "created_head E (checkout_head E req source occ ?b no (lines_amount E (q_Items req)) ?tot)"
  have g1: "list_all (\<lambda>it. on_grid 4 (ci_Qty it)) (q_Items req)" using g by (simp add: list_all_iff)
  note D = checkout_drafted [OF E ok n f cr g1] and T = checkout_total_ok [OF E d]
  note fr = beyond_billsD [OF D(9)]
  have u3: "units_ok s3" "book_on_grid s3" using u by (simp_all add: units_ok_def book_on_grid_def fr)
  have oh3: "on_hand t p w s3 = on_hand t p w s" for t p w by (simp add: on_hand_def GetSnapshot_def fr)
  have h0: "find_head ?t ?b s3 = Some ?h0" "h_Status ?h0 = StatusDraft" using D(1) [of ?t ?b] by simp_all
  have q: "base_qty s3 (stored_item E bi) = ci_Qty it * sale_factor s it" if "line_for E ?t ?b (ci_UnitPrice it) it bi" "on_grid 4 (ci_Qty it)" for it bi
    using base_qty_line [OF E that, of s] base_qty_frame [OF fr(3,4), of "stored_item E bi"] by simp
  have g3: "list_all (\<lambda>it. on_grid 4 (base_qty s3 it)) (GetBillItems ?t ?b s3)"
    unfolding D(3) list_all_iff
  proof
    fix y assume "y \<in> set (sort_key it_LineNo (map (stored_item E) bis))"
    then obtain bi where bi: "bi \<in> set bis" "y = stored_item E bi" by auto
    obtain it where it: "it \<in> set (q_Items req)" "line_for E ?t ?b (ci_UnitPrice it) it bi" using list_all2_left [OF D(5) bi(1)] by blast
    then show "on_grid 4 (base_qty s3 y)" unfolding bi(2) using q [OF it(2)] g by (simp add: list_all_iff)
  qed
  obtain w h' where w: "find_head ?t ?b s4 = Some h'" "h_WarehouseID h' = Some w" "settled E ?t ?b ?paid (q_PaymentMethod req) ?h0 s3 h' s4"
    "\<forall>p. on_hand ?t p w s4 = on_hand ?t p w s3 - moved s3 p (GetBillItems ?t ?b s3)"
    "\<forall>t p w'. (t, w') \<noteq> (?t, w) \<longrightarrow> on_hand t p w' s4 = on_hand t p w' s3"
    "\<forall>t b. (t, b) \<noteq> (?t, ?b) \<longrightarrow> find_head t b s4 = find_head t b s3" "same_ids s4 s3" "bill_sequence s4 = bill_sequence s3"
    "source \<noteq> SourcePOSOffline \<longrightarrow> list_all (\<lambda>it. 0 \<le> on_hand ?t (it_ProductID it) w s4) (GetBillItems ?t ?b s3)"
    by (rule approved_sale [OF E u3 ap, of "?h0"]) (use h0 g3 in \<open>auto simp: \<close>)
  obtain a where s': "s' = s4\<lparr>audit_log := a\<rparr>" using negatives_recorded [OF neg] by blast
  have end_frame: "find_head t b s' = find_head t b s4" "on_hand t p w' s' = on_hand t p w' s4" "payment_head s' = payment_head s4" "same_ids s' s3" for t b p w'
    using w(7) by (auto simp: s' find_head_def on_hand_def GetSnapshot_def)
  have ids: "h_BillNo h' = no \<and> h_ClientRef h' = q_ClientRef req"
    using find_head_ids [OF w(7) h0(1) w(1)] by (simp add: head_ids_def)
  have paid: "h_PaidAmount h' = ?paid" "h_TotalAmount h' = ?tot" "h_Status h' = StatusApproved"
  proof -
    have "on_grid 4 (q_PaidAmount req)" using on_grid_mono [OF dround_grid [OF E, of 2 "q_PaidAmount req"], of 4] C(1) by simp
    then have "numeric E 4 ?paid = ?paid" using numeric_fix [OF E] T(2) by (simp add: min_def)
    moreover have "0 \<le> ?paid" using C(2) T(1) by simp
    ultimately show "h_PaidAmount h' = ?paid" "h_TotalAmount h' = ?tot" "h_Status h' = StatusApproved"
      using w(3) T(3) by (auto simp: settled_def)
  qed
  show ?thesis
  proof (rule that [of h' w])
    show "checkout_booked E req res s s' h'"
      using D(2,8) w(1,3) ids paid unfolding checkout_booked_def res end_frame settled_def by (auto simp: fr(2) min_def max_def split: if_splits)
    show "h_WarehouseID h' = Some w" by (rule w(2))
    have "0 \<le> on_hand ?t (ci_ProductID it) w s4" if src: "q_Source req \<noteq> SourcePOSOffline" and mem: "it \<in> set (q_Items req)" for it
    proof -
      obtain bi where bi: "bi \<in> set bis" "line_for E ?t ?b (ci_UnitPrice it) it bi" using list_all2_right [OF D(5) mem] by blast
      have "stored_item E bi \<in> set (GetBillItems ?t ?b s3)" unfolding D(3) using bi(1) by simp
      then have "0 \<le> on_hand ?t (it_ProductID (stored_item E bi)) w s4" using w(9) src C(5) by (auto simp: list_all_iff)
      then show ?thesis using bi(2) by (simp add: line_for_def)
    qed
    then show "checkout_shipped req w s s'"
      unfolding checkout_shipped_def end_frame using w(4,5) D(4) by (auto simp: oh3 D(3) list_all_iff)
    have "FindBillByClientRef ?t (q_ClientRef req) s3 = (if q_ClientRef req = [] then None else Some (?b, no))"
      using CreateBill_client_ref [OF cr] by simp
    then show "FindBillByClientRef ?t (q_ClientRef req) s' = (if q_ClientRef req = [] then None else Some (qr_BillID res, qr_BillNo res))"
      unfolding FindBillByClientRef_ids [OF end_frame(4)] res by simp
    show "\<forall>t b. (t, b) \<noteq> (?t, qr_BillID res) \<longrightarrow> find_head t b s' = find_head t b s"
      unfolding res end_frame using w(6) D(1) by auto
    show "numbered s'" by (rule numbered_ids [OF bills_okD(1) [OF D(7)] end_frame(4)]) (simp add: s' w(8))
  qed
qed

end

text \<open>
  C9: a checkout books what it tells the till.  On success there is a new, approved bill under an
  unused number with the discounted total; the tendered money is the booked payment plus the change
  handed back, and the receivable is what the payment leaves open, neither ever negative; exactly
  the sold quantities have left the warehouse and, unless the sale is an offline one, none of its
  products is below zero; no other bill and no other book row changes.
\<close>

theorem checkout_books:
  assumes "runtime_env E" "bills_ok E s" "units_ok s" "book_on_grid s"
    and "list_all (\<lambda>it. on_grid 4 (ci_Qty it) \<and> on_grid 4 (ci_Qty it * sale_factor s it)) (q_Items req)"
    and "QuickCheckout_Execute E (RecordMovement_ExecuteInTx E (executor_of E profile outbox)) req pre s = (Inr res, s')"
  shows "\<exists>h w. checkout_booked E req res s s' h \<and> h_WarehouseID h = Some w \<and> checkout_shipped req w s s'
    \<and> (\<forall>t b. (t, b) \<noteq> (q_TenantID req, qr_BillID res) \<longrightarrow> find_head t b s' = find_head t b s)"
  by (rule new_exec.checked_out [OF assms]) blast

section \<open>Replays\<close>

lemma FindBillByClientRef_Some:
  assumes "FindBillByClientRef t ref s = Some x"
  shows "ref \<noteq> []" "\<exists>y \<in> set (bill_head s). h_TenantID y = t \<and> h_ClientRef y = ref"
  using assms by (auto simp: FindBillByClientRef_def dest!: find_Some_P)

lemma checkout_tx_duplicate:
  assumes "FindBillByClientRef (q_TenantID req) (q_ClientRef req) s = Some x"
  shows "\<exists>e. checkout_tx E exec req source occ s = Inl e"
proof (rule ccontr)
  assume "\<not> ?thesis"
  then obtain res s' where tx: "checkout_tx E exec req source occ s = Inr (res, s')"
    by (cases "checkout_tx E exec req source occ s") auto
  obtain no s1 bis subtotal s2 u s3 am where n: "NextBillNo E (q_TenantID req) ''SL'' (s\<lparr>draws := Suc (draws s)\<rparr>) = Inr (no, s1)"
    and a: "assembleSaleItems E (q_TenantID req) (new_uuid E (draws s)) (q_Items req) s1 = Inr ((bis, subtotal), s2)"
    and c: "CreateBill E (checkout_head E req source occ (new_uuid E (draws s)) no subtotal am) bis s2 = Inr (u, s3)"
    using tx unfolding checkout_tx_def by (auto simp: bindE_Inr thenE_Inr Let_def split: if_splits)
  have "bill_head s2 = bill_head s1" using a build_items_Inr by (fastforce simp: assembleSaleItems_def bindE_Inr)
  moreover have "bill_head s1 = bill_head s" using NextBillNo_Inr(3) [OF n] by auto
  ultimately show False using c FindBillByClientRef_Some [OF assms] by (auto simp: CreateBill_Inr same_client_ref_def list_ex_iff)
qed

lemma checkout_duplicate:
  assumes "FindBillByClientRef (q_TenantID req) (q_ClientRef req) s = Some x"
  shows "\<exists>e. QuickCheckout_Execute E exec req pre s = (Inl e, s)"
proof -
  obtain e where "checkout_tx E exec req source occ s = Inl (e source occ)" for source occ
    using checkout_tx_duplicate [OF assms, of E exec] by metis
  then show ?thesis unfolding QuickCheckout_Execute_def
    by (auto simp: runTx_def split: sum.split option.split prod.split)
qed

text \<open>A transaction that loses the race to another one with the same reference reports the winner.\<close>

lemma checkout_lost_race:
  assumes E: "runtime_env E" and nb: "numbered s" and dup: "FindBillByClientRef (q_TenantID req) (q_ClientRef req) s = Some (i, no)"
    and c: "checkout_checks E req pre = Inr (source, occ)" and ok: "list_all item_ok (q_Items req)"
    and d: "q_DiscountAmount req \<le> lines_amount E (q_Items req)"
  shows "QuickCheckout_Execute E exec req pre s = (Inl (DuplicateCheckoutError i no), s)"
proof -
  let ?t = "q_TenantID req" and ?b = "new_uuid E (draws s)"
  obtain n1 s1 where n: "NextBillNo E ?t ''SL'' (s\<lparr>draws := Suc (draws s)\<rparr>) = Inr (n1, s1)" using NextBillNo_ok by blast
  obtain bis where f: "forE (build_item E ?t ?b) (q_Items req) s1 = Inr (bis, s1\<lparr>draws := draws s1 + length (q_Items req)\<rparr>)"
    using build_items_ok [OF ok] by blast
  let ?s2 = "s1\<lparr>draws := draws s1 + length (q_Items req)\<rparr>"
  have lt: "dround E 2 (line_total bis) = lines_amount E (q_Items req)"
    using assembleSaleItems_Inr(2) [OF E, of ?t ?b "q_Items req" s1 bis _ ?s2] f by (simp add: assembleSaleItems_def bindE_Inr)
  then have a: "assembleSaleItems E ?t ?b (q_Items req) s1 = Inr ((bis, lines_amount E (q_Items req)), ?s2)"
    using f by (simp add: assembleSaleItems_def bindE_Inr)
  let ?h = "checkout_head E req source occ ?b n1 (lines_amount E (q_Items req)) (checkout_total E req)"
  have num: "numbered (s\<lparr>draws := Suc (draws s)\<rparr>)" using nb by (simp add: numbered_def seq_val_def)
  note N = NextBillNo_numbered [OF num n]
  have heads: "bill_head ?s2 = bill_head s" using N(4) by simp
  have "0 \<le> h_TotalAmount (created_head E ?h)" using checkout_total_ok [OF E d] by simp
  moreover have "\<not> list_ex (same_bill_no ?h) (bill_head s)" using N(2) by (auto simp: list_ex_iff same_bill_no_def)
  moreover have "list_ex (same_client_ref ?h) (bill_head s)"
    using FindBillByClientRef_Some [OF dup] by (auto simp: same_client_ref_def list_ex_iff)
  ultimately have cb: "CreateBill E ?h bis ?s2 = Inl (Wrap ''bill repo: create head'' ErrDuplicateClientRef)"
    unfolding CreateBill_def Let_def by (simp add: bindE_def readE_def heads failE_def)
  have "checkout_tx E exec req source occ s = Inl (Wrap ''quick checkout: create bill'' (Wrap ''bill repo: create head'' ErrDuplicateClientRef))"
    using d unfolding checkout_tx_def Let_def
    by (simp add: bindE_def thenE_def mapErr_def uuid_New_def n a cb [unfolded checkout_total_def])
  then show ?thesis using c FindBillByClientRef_Some(1) [OF dup] dup unfolding QuickCheckout_Execute_def by (simp add: runTx_def findDuplicate_def errors_Is_def)
qed

text \<open>
  C10: a checkout happens once per client reference.  After a successful checkout that carries a
  reference, every further checkout of the tenant with that reference is refused and changes
  nothing, whatever its content and whatever the look before the transaction saw; a well-formed
  replay that lost the race, so that its look saw no duplicate, is told the bill that won.
\<close>

theorem checkout_once:
  assumes "runtime_env E" "bills_ok E s" "units_ok s" "book_on_grid s"
    and "list_all (\<lambda>it. on_grid 4 (ci_Qty it) \<and> on_grid 4 (ci_Qty it * sale_factor s it)) (q_Items req)"
    and "QuickCheckout_Execute E (RecordMovement_ExecuteInTx E (executor_of E profile outbox)) req pre s = (Inr res, s')"
    and "q_ClientRef req \<noteq> []" "q_TenantID req2 = q_TenantID req" "q_ClientRef req2 = q_ClientRef req" "runtime_env E2"
  shows "(\<exists>e. QuickCheckout_Execute E2 exec2 req2 pre2 s' = (Inl e, s'))
    \<and> (findDuplicate (q_TenantID req) (q_ClientRef req) s' = Some (DuplicateCheckoutError (qr_BillID res) (qr_BillNo res)))
    \<and> (\<not> isl (checkout_checks E2 req2 pre2) \<and> list_all item_ok (q_Items req2) \<and> q_DiscountAmount req2 \<le> lines_amount E2 (q_Items req2)
        \<longrightarrow> QuickCheckout_Execute E2 exec2 req2 pre2 s' = (Inl (DuplicateCheckoutError (qr_BillID res) (qr_BillNo res)), s'))"
proof -
  obtain nb: "numbered s'" and f: "FindBillByClientRef (q_TenantID req) (q_ClientRef req) s' = Some (qr_BillID res, qr_BillNo res)"
    by (rule new_exec.checked_out [OF assms(1-6)]) (use assms(7) in auto)
  have f2: "FindBillByClientRef (q_TenantID req2) (q_ClientRef req2) s' = Some (qr_BillID res, qr_BillNo res)" using f assms(8,9) by simp
  have "QuickCheckout_Execute E2 exec2 req2 pre2 s' = (Inl (DuplicateCheckoutError (qr_BillID res) (qr_BillNo res)), s')"
    if "\<not> isl (checkout_checks E2 req2 pre2)" "list_all item_ok (q_Items req2)" "q_DiscountAmount req2 \<le> lines_amount E2 (q_Items req2)"
    using checkout_lost_race [OF assms(10) nb f2 _ that(2,3)] that(1) by (cases "checkout_checks E2 req2 pre2") auto
  then show ?thesis using checkout_duplicate [OF f2] f by (auto simp: findDuplicate_def)
qed

text \<open>
  The time a till reports is accepted exactly when it is not more than five minutes ahead of
  the clock and not more than thirty days behind it, and no reported time means now.
\<close>

theorem occurred_at_window:
  "resolveOccurredAt reported nw = Inr t \<longleftrightarrow>
     (if reported = 0 then t = nw
      else t = reported \<and> nw - 30 * 24 * 3600 * 1000000000 \<le> reported \<and> reported \<le> nw + 5 * 60 * 1000000000)"
  by (auto simp: resolveOccurredAt_def maxOccurredAtFuture_def maxOccurredAtPastAge_def)

section \<open>Examples\<close>

definition demo_till :: QuickCheckoutRequest where
  "demo_till = \<lparr> q_TenantID = 11, q_CreatorID = 14, q_PartnerID = None, q_CustomerName = [], q_Remark = [],
     q_Items = [\<lparr> ci_ProductID = 12, ci_UnitID = None, ci_UnitName = [], ci_LineNo = 2, ci_Qty = 4, ci_UnitPrice = 9, si_WarehouseID = 13, si_ConvFactor = [] \<rparr>],
     q_PaymentMethod = [], q_PaidAmount = 50, q_DiscountAmount = 1, q_ClientRef = ''till-7'', q_Source = [], q_OccurredAt = 0 \<rparr>"

definition demo_store :: db where
  "demo_store = demo_shop\<lparr>stock_snapshot := [demo_snapshot]\<rparr>"

lemma demo_store_facts:
  "bills_ok E demo_store" "units_ok demo_store" "book_on_grid demo_store" "on_hand 11 12 13 demo_store = 10"
  "list_all (\<lambda>it. on_grid 4 (ci_Qty it) \<and> on_grid 4 (ci_Qty it * sale_factor demo_store it)) (q_Items demo_till)"
  by (simp_all add: demo_store_def bills_ok_def numbered_def units_ok_def book_on_grid_def on_hand_def GetSnapshot_def snap_at_def
      sale_factor_def demo_till_def demo_bill_defs)

lemma demo_till_accepted: "\<not> isl (fst (QuickCheckout_Execute std_env demo_exec demo_till demo_store demo_store))"
  by code_simp

lemma demo_till_total: "checkout_total std_env demo_till = 35" "sold demo_store 12 (q_Items demo_till) = 4"
  by code_simp+

theorem checkout_books_witness:
  "\<exists>res s'. QuickCheckout_Execute std_env demo_exec demo_till demo_store demo_store = (Inr res, s')
     \<and> qr_TotalAmount res = 35 \<and> qr_ChangeAmount res = 15 \<and> (\<exists>w. on_hand 11 12 w s' = on_hand 11 12 w demo_store - 4)"
proof -
  obtain res s' where r: "QuickCheckout_Execute std_env demo_exec demo_till demo_store demo_store = (Inr res, s')"
    using not_isl_result [OF demo_till_accepted] by blast
  obtain h w where b: "checkout_booked std_env demo_till res demo_store s' h" "checkout_shipped demo_till w demo_store s'"
    using checkout_books [OF std_runtime demo_store_facts(1,2,3,5) r] by blast
  have k: "q_TenantID demo_till = 11" "q_PaidAmount demo_till = 50" by (simp_all add: demo_till_def)
  have "qr_TotalAmount res = 35" "qr_ChangeAmount res = 15" using b(1) by (auto simp: checkout_booked_def demo_till_total k)
  moreover have "on_hand 11 12 w s' = on_hand 11 12 w demo_store - 4"
    using b(2) by (auto simp: checkout_shipped_def demo_till_total k)
  ultimately show ?thesis using r by blast
qed

theorem checkout_once_witness:
  "\<exists>res s'. QuickCheckout_Execute std_env demo_exec demo_till demo_store demo_store = (Inr res, s')
     \<and> QuickCheckout_Execute std_env demo_exec demo_till demo_store s' = (Inl (DuplicateCheckoutError (qr_BillID res) (qr_BillNo res)), s')"
proof -
  obtain res s' where r: "QuickCheckout_Execute std_env demo_exec demo_till demo_store demo_store = (Inr res, s')"
    using not_isl_result [OF demo_till_accepted] by blast
  have ref: "q_ClientRef demo_till \<noteq> []" by (simp add: demo_till_def)
  have "\<not> isl (checkout_checks std_env demo_till demo_store)" "list_all item_ok (q_Items demo_till)"
    "q_DiscountAmount demo_till \<le> lines_amount std_env (q_Items demo_till)" by code_simp+
  then show ?thesis
    using checkout_once [OF std_runtime demo_store_facts(1,2,3,5) r ref refl refl std_runtime, of demo_exec demo_store] r by blast
qed

end
