(* ===== verification/Sale_Return.thy ===== *)
theory Sale_Return
  imports Returns
begin

text \<open>
  The return at the counter (\<open>internal/app/bill/sale_return.go\<close>) and the money paid back with it
  (\<open>sale_return_refund.go\<close>, \<open>sale_refund_only.go\<close>).  A return is a draft, an approval and, when the
  approval fails, the voiding of the draft, each in its own transaction; a refund is a negative
  payment on the sale.
\<close>

section \<open>Returning lines of a sale\<close>

record ReturnSaleLine =
  rl_BillItemID :: uuid
  rl_Qty :: rat

record ReturnSaleRequest =
  rs_TenantID :: uuid
  rs_CreatorID :: uuid
  rs_SaleBillID :: uuid
  rs_Items :: "ReturnSaleLine list"
  rs_WarehouseID :: "uuid option"
  rs_Remark :: string

record ReturnSaleOutput =
  ro_BillID :: uuid
  ro_BillNo :: string
  ro_ReturnAmount :: rat

definition by_id :: "BillItem list \<Rightarrow> (uuid, BillItem) map" where
  "by_id lines = map_of (rev (map (\<lambda>l. (it_ID l, l)) lines))"

text \<open>One entry per line, in the order the request first names it; repeated ids add up.\<close>

fun collect_lines ::
  "bool \<Rightarrow> (uuid, BillItem) map \<Rightarrow> ReturnSaleLine list \<Rightarrow> (uuid, rat) map \<Rightarrow> uuid list \<Rightarrow> err + ((uuid, rat) map \<times> uuid list)" where
  "collect_lines check lines [] want order = Inr (want, order)"
| "collect_lines check lines (it # its) want order =
     (if lines (rl_BillItemID it) = None then Inl ErrReturnItemNotFound
      else if check \<and> \<not> 0 < rl_Qty it then Inl (Wrap ''item qty must be positive'' ErrValidation)
      else collect_lines check lines its (want(rl_BillItemID it \<mapsto> get0 want (rl_BillItemID it) + rl_Qty it))
             (if want (rl_BillItemID it) = None then order @ [rl_BillItemID it] else order))"

text \<open>One line against what it and its product have left.\<close>

definition sale_return_line ::
  "env \<Rightarrow> bool \<Rightarrow> db \<Rightarrow> (uuid, rat) map \<Rightarrow> nat \<Rightarrow> BillItem \<Rightarrow> rat \<Rightarrow> (uuid, rat) map \<Rightarrow> err + (ReturnItem \<times> (uuid, rat) map)" where
  "sale_return_line E units s lineReturned k l qty rem =
     (case baseFactor units (it_ProductID l) (it_UnitID l) s of
        Inl e \<Rightarrow> Inl (Wrap ''return sale'' e)
      | Inr f \<Rightarrow>
          (let left = min (ddiv E (get0 rem (it_ProductID l)) f) (max (it_Qty l - get0 lineReturned (it_ID l)) 0)
           in if left < qty then Inl (ReturnExceededError (it_LineNo l) left)
              else Inr (\<lparr> ci_ProductID = it_ProductID l, ci_UnitID = it_UnitID l, ci_UnitName = it_UnitName l,
                          ci_LineNo = int (Suc k), ci_Qty = qty, ci_UnitPrice = it_UnitPrice l, ri_LinkItemID = Some (it_ID l) \<rparr>,
                        snd (takeBase rem (it_ProductID l) (qty * f)))))"

fun sale_return_lines ::
  "env \<Rightarrow> bool \<Rightarrow> db \<Rightarrow> (uuid, rat) map \<Rightarrow> nat \<Rightarrow> (BillItem \<times> rat) list \<Rightarrow> (uuid, rat) map \<Rightarrow> err + ReturnItem list" where
  "sale_return_lines E units s lineReturned k [] rem = Inr []"
| "sale_return_lines E units s lineReturned k ((l, qty) # ls) rem =
     (case sale_return_line E units s lineReturned k l qty rem of
        Inl e \<Rightarrow> Inl e
      | Inr (it, rem') \<Rightarrow> (case sale_return_lines E units s lineReturned (Suc k) ls rem' of
                            Inl e \<Rightarrow> Inl e | Inr rest \<Rightarrow> Inr (it # rest)))"

definition returnable :: "BillHead \<Rightarrow> bool" where
  "returnable sale \<longleftrightarrow> is_sale sale \<and> h_Status sale = StatusApproved"

definition sale_return_items :: "env \<Rightarrow> bool \<Rightarrow> ReturnSaleRequest \<Rightarrow> db \<Rightarrow> err + (BillHead \<times> ReturnItem list)" where
  "sale_return_items E units req s =
     (let t = rs_TenantID req; b = rs_SaleBillID req in
      if rs_Items req = [] then Inl (Wrap ''at least one item is required'' ErrValidation)
      else case GetBill t b s of
        Inl e \<Rightarrow> Inl e
      | Inr sale \<Rightarrow>
          if \<not> returnable sale then Inl ErrSaleNotReturnable
          else if (case rs_WarehouseID req of None \<Rightarrow> False | Some w \<Rightarrow> w \<noteq> uuid_Nil \<and> \<not> WarehouseExists t w s)
          then Inl ErrWarehouseNotFound
          else
            let lines = by_id (GetBillItems t b s) in
            case collect_lines True lines (rs_Items req) Map.empty [] of
              Inl e \<Rightarrow> Inl e
            | Inr (want, order) \<Rightarrow>
                (case remainingBase E units t b s of
                   Inl e \<Rightarrow> Inl (Wrap ''return sale'' e)
                 | Inr rem \<Rightarrow>
                     (case sale_return_lines E units s (ReturnedQtyByLine t b s) 0
                              (map (\<lambda>i. (the (lines i), get0 want i)) order) (case rem of None \<Rightarrow> Map.empty | Some r \<Rightarrow> r) of
                        Inl e \<Rightarrow> Inl e | Inr items \<Rightarrow> Inr (sale, items))))"

definition sale_return_draft :: "ReturnSaleRequest \<Rightarrow> BillHead \<Rightarrow> ReturnItem list \<Rightarrow> CreateReturnRequest" where
  "sale_return_draft req sale items =
     \<lparr> cr_TenantID = rs_TenantID req, cr_CreatorID = rs_CreatorID req,
       cr_WarehouseID = (case rs_WarehouseID req of Some w \<Rightarrow> Some w | None \<Rightarrow> h_WarehouseID sale),
       cr_PartnerID = h_PartnerID sale, cr_LinkBillID = Some (rs_SaleBillID req), cr_BillDate = 0,
       cr_Remark = (if rs_Remark req = [] then utf8 [0x9500, 0x552E, 0x9000, 0x8D27, 0x20] @ h_BillNo sale else rs_Remark req),
       cr_Items = items \<rparr>"

definition discardDraft :: "env \<Rightarrow> uuid \<Rightarrow> uuid \<Rightarrow> db \<Rightarrow> db" where
  "discardDraft E t b s =
     (case GetBill t b s of
        Inl _ \<Rightarrow> s
      | Inr head \<Rightarrow> if h_Status head \<noteq> StatusDraft then s else snd (runTx (UpdateBillStatus E t b StatusCancelled None None) s))"

definition ReturnSale_Execute ::
  "env \<Rightarrow> bool \<Rightarrow> (RecordMovementRequest \<Rightarrow> Snapshot op) \<Rightarrow> ReturnSaleRequest \<Rightarrow> db \<Rightarrow> (err + ReturnSaleOutput) \<times> db" where
  "ReturnSale_Execute E units exec req s =
     (case sale_return_items E units req s of
        Inl e \<Rightarrow> (Inl e, s)
      | Inr (sale, items) \<Rightarrow>
          (case CreateReturn_Execute E (sale_return_draft req sale items) s of
             (Inl e, s1) \<Rightarrow> (Inl e, s1)
           | (Inr (billID, billNo), s1) \<Rightarrow>
               (case ApproveReturn_Execute E units exec
                       \<lparr> ar_TenantID = rs_TenantID req, ar_BillID = billID, ar_CreatorID = rs_CreatorID req, ar_Strict = True \<rparr> s1 s1 of
                  (Inl e, s2) \<Rightarrow> (Inl e, discardDraft E (rs_TenantID req) billID s2)
                | (Inr _, s2) \<Rightarrow>
                    (Inr \<lparr> ro_BillID = billID, ro_BillNo = billNo,
                           ro_ReturnAmount = sum_list (map (\<lambda>it. dround E 2 (ci_Qty it * ci_UnitPrice it)) items) \<rparr>, s2))))"

section \<open>What has come back, per line\<close>

text \<open>First the returns that point at a line, then the rest of the product's returns in line order.\<close>

fun summary_linked :: "bool \<Rightarrow> db \<Rightarrow> (uuid, rat) map \<Rightarrow> BillItem list \<Rightarrow> (uuid, rat) map \<Rightarrow> (uuid, rat) map
    \<Rightarrow> (uuid, rat) map \<Rightarrow> err + ((uuid, rat) map \<times> (uuid, rat) map \<times> (uuid, rat) map)" where
  "summary_linked units s byLine [] factors out pool = Inr (factors, out, pool)"
| "summary_linked units s byLine (l # ls) factors out pool =
     (case baseFactor units (it_ProductID l) (it_UnitID l) s of
        Inl e \<Rightarrow> Inl e
      | Inr f \<Rightarrow>
          (let linked = min (get0 byLine (it_ID l)) (it_Qty l)
           in if 0 < linked
              then summary_linked units s byLine ls (factors(it_ID l \<mapsto> f)) (out(it_ID l \<mapsto> linked))
                     (pool(it_ProductID l \<mapsto> max (get0 pool (it_ProductID l) - linked * f) 0))
              else summary_linked units s byLine ls (factors(it_ID l \<mapsto> f)) out pool))"

fun summary_rest :: "env \<Rightarrow> (uuid, rat) map \<Rightarrow> BillItem list \<Rightarrow> (uuid, rat) map \<Rightarrow> (uuid, rat) map \<Rightarrow> (uuid, rat) map" where
  "summary_rest E factors [] out pool = out"
| "summary_rest E factors (l # ls) out pool =
     (let f = get0 factors (it_ID l);
          room = (it_Qty l - get0 out (it_ID l)) * f;
          tk = min (get0 pool (it_ProductID l)) room
      in if \<not> 0 < tk then summary_rest E factors ls out pool
         else summary_rest E factors ls (out(it_ID l \<mapsto> get0 out (it_ID l) + ddiv E tk f))
                (pool(it_ProductID l \<mapsto> get0 pool (it_ProductID l) - tk)))"

definition ReturnSale_Summary :: "env \<Rightarrow> bool \<Rightarrow> uuid \<Rightarrow> BillHead \<Rightarrow> BillItem list \<Rightarrow> db \<Rightarrow> err + ((uuid, rat) map \<times> rat)" where
  "ReturnSale_Summary E units t sale items s =
     (if \<not> returnable sale then Inr (Map.empty, 0)
      else case returnedBase E units t (h_ID sale) s of
        Inl e \<Rightarrow> Inl e
      | Inr pool \<Rightarrow>
          (case summary_linked units s (ReturnedQtyByLine t (h_ID sale) s) items Map.empty Map.empty pool of
             Inl e \<Rightarrow> Inl e
           | Inr (factors, out, pool') \<Rightarrow> Inr (summary_rest E factors items out pool', ReturnedAmount E t (h_ID sale) s)))"

section \<open>Paying the customer back\<close>

record SaleRefundRequest =
  sr_Return :: ReturnSaleRequest
  sr_Amount :: rat
  sr_Method :: string
  sr_onlyReturn :: "BillHead option"

record SaleRefundOutput =
  so_Return :: ReturnSaleOutput
  so_Refunded :: rat
  so_RefundErr :: "err option"

definition refundCap :: "rat \<Rightarrow> rat \<Rightarrow> rat \<Rightarrow> rat" where
  "refundCap amount paid returned = max (paid - max (amount - returned) 0) 0"

definition resolveRefundMethod :: "string \<Rightarrow> err + PayType" where
  "resolveRefundMethod method =
     (case resolvePayType method of
        Inl e \<Rightarrow> Inl e
      | Inr pt \<Rightarrow> if pt = PayTypeCredit then Inl (Wrap method ErrInvalidPayMethod) else Inr pt)"

definition refund_label :: "string \<Rightarrow> string" where
  "refund_label billNo = utf8 [0x9000, 0x8D27, 0x9000, 0x6B3E, 0x20] @ billNo"

definition refund_value :: "env \<Rightarrow> ReturnSaleRequest \<Rightarrow> db \<Rightarrow> rat" where
  "refund_value E r s =
     (let price = map_of (rev (map (\<lambda>l. (it_ID l, it_UnitPrice l)) (GetBillItems (rs_TenantID r) (rs_SaleBillID r) s)))
      in sum_list (map (\<lambda>it. dround E 2 (rl_Qty it * get0 price (rl_BillItemID it))) (rs_Items r)))"

definition refund_precheck :: "env \<Rightarrow> SaleRefundRequest \<Rightarrow> db \<Rightarrow> err + unit" where
  "refund_precheck E req s =
     (let r = sr_Return req in
      case GetBill (rs_TenantID r) (rs_SaleBillID r) s of
        Inl e \<Rightarrow> Inl e
      | Inr sale \<Rightarrow>
          if \<not> returnable sale then Inl ErrSaleNotReturnable
          else let before = ReturnedAmount E (rs_TenantID r) (rs_SaleBillID r) s;
                   cap = refundCap (h_TotalAmount sale) (h_PaidAmount sale) (before + refund_value E r s)
               in if cap < sr_Amount req then Inl (RefundExceededError cap) else Inr ())"

text \<open>What is still unrefunded of one return: its value less the refunds labelled with its number.\<close>

definition returnRefundLeft :: "uuid \<Rightarrow> uuid \<Rightarrow> BillHead \<Rightarrow> db \<Rightarrow> rat" where
  "returnRefundLeft t sale ret s =
     max (h_TotalAmount ret + sum_list (map p_Amount (filter (\<lambda>p. p_Amount p < 0 \<and> p_Remark p = refund_label (h_BillNo ret))
            (ListByBill t sale s)))) 0"

definition refund_payment :: "env \<Rightarrow> SaleRefundRequest \<Rightarrow> BillHead \<Rightarrow> string \<Rightarrow> PayType \<Rightarrow> uuid \<Rightarrow> Payment" where
  "refund_payment E req sale retNo pt i =
     \<lparr> p_ID = i, p_TenantID = rs_TenantID (sr_Return req), p_BillID = rs_SaleBillID (sr_Return req), p_PayType = pt,
       p_Amount = - sr_Amount req, p_TotalAmount = 0, p_PartnerID = h_PartnerID sale, p_OperatorID = None,
       p_CreatorID = rs_CreatorID (sr_Return req), p_BillNo = [], p_PayDate = now E, p_Remark = refund_label retNo,
       p_CreatedAt = 0, p_deleted = False \<rparr>"

definition refund_book_tx :: "env \<Rightarrow> SaleRefundRequest \<Rightarrow> string \<Rightarrow> PayType \<Rightarrow> unit op" where
  "refund_book_tx E req retNo pt =
     (let t = rs_TenantID (sr_Return req); b = rs_SaleBillID (sr_Return req) in
      bindE (mapErr (Wrap ''load sale'') (GetBillForUpdate t b)) (\<lambda>sale.
      bindE (readE (ReturnedAmount E t b)) (\<lambda>returned.
      let cap = refundCap (h_TotalAmount sale) (h_PaidAmount sale) returned in
      if cap < sr_Amount req then failE (RefundExceededError cap)
      else
        thenE (case sr_onlyReturn req of
                 None \<Rightarrow> returnE ()
               | Some ret \<Rightarrow> bindE (readE (returnRefundLeft t b ret)) (\<lambda>left.
                   if left < sr_Amount req then failE (RefundExceededError left) else returnE ()))
        (bindE (uuid_New E) (\<lambda>i.
         thenE (mapErr (Wrap ''record refund'') (Payment_Record E (refund_payment E req sale retNo pt i)))
         (mapErr (Wrap ''update paid_amount'') (UpdatePaidAmount E t b (h_PaidAmount sale - sr_Amount req))))))))"

definition SaleRefund_Execute ::
  "env \<Rightarrow> bool \<Rightarrow> (RecordMovementRequest \<Rightarrow> Snapshot op) \<Rightarrow> SaleRefundRequest \<Rightarrow> db \<Rightarrow> (err + SaleRefundOutput) \<times> db" where
  "SaleRefund_Execute E units exec req s =
     (if sr_Amount req < 0 then (Inl (Wrap ''refund amount must not be negative'' ErrValidation), s)
      else if \<not> 0 < sr_Amount req
      then (case ReturnSale_Execute E units exec (sr_Return req) s of
              (Inl e, s1) \<Rightarrow> (Inl e, s1)
            | (Inr out, s1) \<Rightarrow> (Inr \<lparr> so_Return = out, so_Refunded = 0, so_RefundErr = None \<rparr>, s1))
      else case resolveRefundMethod (sr_Method req) of
        Inl e \<Rightarrow> (Inl e, s)
      | Inr pt \<Rightarrow>
          (case refund_precheck E req s of
             Inl e \<Rightarrow> (Inl e, s)
           | Inr _ \<Rightarrow>
               (case ReturnSale_Execute E units exec (sr_Return req) s of
                  (Inl e, s1) \<Rightarrow> (Inl e, s1)
                | (Inr out, s1) \<Rightarrow>
                    (case runTx (refund_book_tx E req (ro_BillNo out) pt) s1 of
                       (Inl e, s2) \<Rightarrow> (Inr \<lparr> so_Return = out, so_Refunded = 0, so_RefundErr = Some e \<rparr>, s2)
                     | (Inr _, s2) \<Rightarrow> (Inr \<lparr> so_Return = out, so_Refunded = sr_Amount req, so_RefundErr = None \<rparr>, s2)))))"

record SaleRefundOnlyRequest =
  sf_TenantID :: uuid
  sf_CreatorID :: uuid
  sf_SaleBillID :: uuid
  sf_Amount :: rat
  sf_Method :: string
  sf_ReturnBillID :: uuid

definition refund_only_checks :: "SaleRefundOnlyRequest \<Rightarrow> db \<Rightarrow> err + (PayType \<times> BillHead)" where
  "refund_only_checks req s =
     (if \<not> 0 < sf_Amount req then Inl (Wrap ''refund amount must be positive'' ErrValidation)
      else case resolveRefundMethod (sf_Method req) of
        Inl e \<Rightarrow> Inl e
      | Inr pt \<Rightarrow>
          (case GetBill (sf_TenantID req) (sf_SaleBillID req) s of
             Inl e \<Rightarrow> Inl e
           | Inr sale \<Rightarrow>
               if \<not> returnable sale then Inl ErrSaleNotReturnable
               else (case GetBill (sf_TenantID req) (sf_ReturnBillID req) s of
                       Inl e \<Rightarrow> if errors_Is e ErrBillNotFound then Inl ErrRefundReturnMismatch else Inl e
                     | Inr ret \<Rightarrow>
                         if h_SubType ret \<noteq> BillSubTypeSaleReturn \<or> h_Status ret \<noteq> StatusApproved then Inl ErrRefundReturnMismatch
                         else if LinkedBillID (sf_TenantID req) (h_ID ret) s \<noteq> Some (sf_SaleBillID req) then Inl ErrRefundReturnMismatch
                         else Inr (pt, ret))))"

definition RecordRefund :: "env \<Rightarrow> SaleRefundOnlyRequest \<Rightarrow> db \<Rightarrow> (err + unit) \<times> db" where
  "RecordRefund E req s =
     (case refund_only_checks req s of
        Inl e \<Rightarrow> (Inl e, s)
      | Inr (pt, ret) \<Rightarrow>
          runTx (refund_book_tx E
            \<lparr> sr_Return = \<lparr> rs_TenantID = sf_TenantID req, rs_CreatorID = sf_CreatorID req, rs_SaleBillID = sf_SaleBillID req,
                             rs_Items = [], rs_WarehouseID = None, rs_Remark = [] \<rparr>,
              sr_Amount = sf_Amount req, sr_Method = [], sr_onlyReturn = Some ret \<rparr> (h_BillNo ret) pt) s)"

section \<open>Refunds\<close>

text \<open>What has been paid back under the number of one return.\<close>

definition refunded :: "uuid \<Rightarrow> uuid \<Rightarrow> string \<Rightarrow> db \<Rightarrow> rat" where
  "refunded t sale retNo s =
     - sum_list (map p_Amount (filter (\<lambda>p. payment_of t sale p \<and> p_Amount p < 0 \<and> p_Remark p = refund_label retNo) (payment_head s)))"

lemma sum_list_sort_key: "sum_list (map f (sort_key k xs)) = sum_list (map f xs)"
  for f :: "'a \<Rightarrow> rat"
  by (metis mset_map mset_sort sum_mset_sum_list)

lemma returnRefundLeft_eq: "returnRefundLeft t sale ret s = max (h_TotalAmount ret - refunded t sale (h_BillNo ret) s) 0"
  by (simp add: returnRefundLeft_def refunded_def ListByBill_def filter_sort sum_list_sort_key conj_commute)

lemma refundCap_pos: "0 < a \<Longrightarrow> a \<le> refundCap amount paid returned \<longleftrightarrow> max (amount - returned) 0 \<le> paid - a"
  by (auto simp: refundCap_def)

lemma resolveRefundMethod_Inr: "resolveRefundMethod m = Inr pt \<Longrightarrow> pt \<noteq> PayTypeCredit"
  by (auto simp: resolveRefundMethod_def split: sum.splits if_splits)

lemma refund_book_tx_Inr:
  assumes "refund_book_tx E req retNo pt s = Inr (u, s')" "runtime_env E"
    and "find_head (rs_TenantID (sr_Return req)) (rs_SaleBillID (sr_Return req)) s = Some h"
  obtains p where
    "sr_Amount req \<le> refundCap (h_TotalAmount h) (h_PaidAmount h) (ReturnedAmount E (rs_TenantID (sr_Return req)) (rs_SaleBillID (sr_Return req)) s)"
    "\<And>ret. sr_onlyReturn req = Some ret \<Longrightarrow>
       sr_Amount req \<le> returnRefundLeft (rs_TenantID (sr_Return req)) (rs_SaleBillID (sr_Return req)) ret s"
    "payment_of (rs_TenantID (sr_Return req)) (rs_SaleBillID (sr_Return req)) p" "p_Amount p = numeric E 4 (- sr_Amount req)"
    "p_PayType p = pt" "p_Remark p = refund_label retNo"
    "s' = (head_update (rs_TenantID (sr_Return req)) (rs_SaleBillID (sr_Return req)) (set_paid E (h_PaidAmount h - sr_Amount req)) s)
       \<lparr>draws := Suc (draws s), payment_head := payment_head s @ [p]\<rparr>"
proof -
  let ?t = "rs_TenantID (sr_Return req)" and ?b = "rs_SaleBillID (sr_Return req)"
  let ?p0 = "refund_payment E req (scanBillHead h) retNo pt (new_uuid E (draws s))"
  let ?cap = "refundCap (h_TotalAmount h) (h_PaidAmount h) (ReturnedAmount E ?t ?b s)"
  have g: "GetBillForUpdate ?t ?b s = Inr (scanBillHead h, s)" using assms(3) by (simp add: GetBillForUpdate_Inr)
  obtain s1 where c: "sr_Amount req \<le> ?cap"
    and l: "\<And>ret. sr_onlyReturn req = Some ret \<Longrightarrow> sr_Amount req \<le> returnRefundLeft ?t ?b ret s"
    and r: "Payment_Record E ?p0 (s\<lparr>draws := Suc (draws s)\<rparr>) = Inr ((), s1)"
    and up: "UpdatePaidAmount E ?t ?b (h_PaidAmount h - sr_Amount req) s1 = Inr ((), s')"
    using assms(1) unfolding refund_book_tx_def Let_def bindE_mapErr_Inr g
    by (auto simp: thenE_Inr bindE_Inr uuid_New_def not_less split: if_splits option.splits)
  have nz: "p_ID ?p0 \<noteq> uuid_Nil" using runtime_env.new_uuid_not_nil [OF assms(2)] by (simp add: refund_payment_def)
  show ?thesis
    by (rule that [OF c l, of "stored_payment E (p_ID ?p0) ?p0"])
       (use payment_booked(1) [OF r up nz] in \<open>auto simp: refund_payment_def payment_of_def stored_payment_def head_update_def\<close>)
qed

lemma refund_only_checks_Inr:
  assumes "refund_only_checks req s = Inr (pt, ret)"
  obtains h r where "0 < sf_Amount req" "resolveRefundMethod (sf_Method req) = Inr pt" "find_head (sf_TenantID req) (sf_SaleBillID req) s = Some h"
    "returnable h" "find_head (sf_TenantID req) (sf_ReturnBillID req) s = Some r" "ret = scanBillHead r" "h_SubType r = BillSubTypeSaleReturn"
    "h_Status r = StatusApproved" "LinkedBillID (sf_TenantID req) (sf_ReturnBillID req) s = Some (sf_SaleBillID req)"
proof -
  obtain h r where "0 < sf_Amount req" "resolveRefundMethod (sf_Method req) = Inr pt" "find_head (sf_TenantID req) (sf_SaleBillID req) s = Some h"
    "returnable (scanBillHead h)" "find_head (sf_TenantID req) (sf_ReturnBillID req) s = Some r" "ret = scanBillHead r" "h_SubType r = BillSubTypeSaleReturn"
    "h_Status r = StatusApproved" "LinkedBillID (sf_TenantID req) (h_ID r) s = Some (sf_SaleBillID req)"
    using assms by (auto simp: refund_only_checks_def GetBill_def split: if_splits sum.splits option.splits)
  moreover have "returnable (scanBillHead h) = returnable h" by (simp add: returnable_def is_sale_def)
  ultimately show ?thesis using find_head_key [of "sf_TenantID req" "sf_ReturnBillID req" s r] by (intro that [of h r]) simp_all
qed

text \<open>
  C19: money goes back only when it is due.  A refund booked on its own for an earlier return of a sale adds
  one negative payment of that amount to the sale and lowers its paid amount by it; it never takes
  the paid amount below what the sale is still worth after its returns, and all refunds under one
  return together never exceed the value of that return (within that value the same request is booked again).
  The return must be an approved return linked to this very sale, credit is refused as a method, no other bill changes
  and no table but those of bills and payments, and a refused refund changes nothing.
\<close>

theorem refund_books:
  assumes "runtime_env E" "on_grid 4 (sf_Amount req)"
    and "find_head (sf_TenantID req) (sf_SaleBillID req) s = Some h" "on_grid 4 (h_PaidAmount h)"
  shows "case RecordRefund E req s of
      (Inl e, s') \<Rightarrow> s' = s
    | (Inr _, s') \<Rightarrow> \<exists>r h' p. find_head (sf_TenantID req) (sf_ReturnBillID req) s = Some r \<and> h_SubType r = BillSubTypeSaleReturn
        \<and> h_Status r = StatusApproved \<and> LinkedBillID (sf_TenantID req) (sf_ReturnBillID req) s = Some (sf_SaleBillID req)
        \<and> payment_head s' = payment_head s @ [p] \<and> payment_of (sf_TenantID req) (sf_SaleBillID req) p
        \<and> p_Amount p = - sf_Amount req \<and> 0 < sf_Amount req \<and> p_PayType p \<noteq> PayTypeCredit
        \<and> find_head (sf_TenantID req) (sf_SaleBillID req) s' = Some h' \<and> h_PaidAmount h' = h_PaidAmount h - sf_Amount req
        \<and> max (h_TotalAmount h - ReturnedAmount E (sf_TenantID req) (sf_SaleBillID req) s) 0 \<le> h_PaidAmount h'
        \<and> refunded (sf_TenantID req) (sf_SaleBillID req) (h_BillNo r) s'
            = refunded (sf_TenantID req) (sf_SaleBillID req) (h_BillNo r) s + sf_Amount req
        \<and> refunded (sf_TenantID req) (sf_SaleBillID req) (h_BillNo r) s' \<le> h_TotalAmount r
        \<and> (\<forall>t b. (t, b) \<noteq> (sf_TenantID req, sf_SaleBillID req) \<longrightarrow> find_head t b s' = find_head t b s)
        \<and> s'\<lparr>bill_head := bill_head s, payment_head := payment_head s, draws := draws s\<rparr> = s"
proof -
  let ?t = "sf_TenantID req" and ?b = "sf_SaleBillID req" and ?a = "sf_Amount req"
  obtain res s' where r: "RecordRefund E req s = (res, s')" by force
  show ?thesis
  proof (cases res)
    case (Inl e)
    then have "s' = s" using r runTx_atomic by (fastforce simp: RecordRefund_def split: sum.splits)
    then show ?thesis using r Inl by simp
  next
    case (Inr u)
    then obtain pt ret where c: "refund_only_checks req s = Inr (pt, ret)" using r by (auto simp: RecordRefund_def split: sum.splits)
    define q where "q = \<lparr> sr_Return = \<lparr> rs_TenantID = ?t, rs_CreatorID = sf_CreatorID req, rs_SaleBillID = ?b,
                             rs_Items = [], rs_WarehouseID = None, rs_Remark = [] \<rparr>,
              sr_Amount = ?a, sr_Method = [], sr_onlyReturn = Some ret \<rparr>"
    have q: "sr_Amount q = ?a" "rs_TenantID (sr_Return q) = ?t" "rs_SaleBillID (sr_Return q) = ?b" "sr_onlyReturn q = Some ret"
      by (simp_all add: q_def)
    have tx: "refund_book_tx E q (h_BillNo ret) pt s = Inr (u, s')" using r Inr c by (simp add: RecordRefund_def q_def)
    obtain rh where pos: "0 < ?a" and m: "resolveRefundMethod (sf_Method req) = Inr pt"
      and rh: "find_head ?t (sf_ReturnBillID req) s = Some rh" "ret = scanBillHead rh" "h_SubType rh = BillSubTypeSaleReturn"
        "h_Status rh = StatusApproved" "LinkedBillID ?t (sf_ReturnBillID req) s = Some ?b"
      using c by (rule refund_only_checks_Inr)
    obtain p where cap: "?a \<le> refundCap (h_TotalAmount h) (h_PaidAmount h) (ReturnedAmount E ?t ?b s)"
      and left: "\<And>x. Some ret = Some x \<Longrightarrow> ?a \<le> returnRefundLeft ?t ?b x s"
      and p: "payment_of ?t ?b p" "p_Amount p = numeric E 4 (- ?a)" "p_PayType p = pt" "p_Remark p = refund_label (h_BillNo ret)"
      and s': "s' = (head_update ?t ?b (set_paid E (h_PaidAmount h - ?a)) s)\<lparr>draws := Suc (draws s), payment_head := payment_head s @ [p]\<rparr>"
      using refund_book_tx_Inr [OF tx assms(1), unfolded q, OF assms(3)] by blast
    have am: "p_Amount p = - ?a" unfolding p(2) by (rule numeric_fix [OF assms(1)]) (use assms(2) in blast)
    have paid: "numeric E 4 (h_PaidAmount h - ?a) = h_PaidAmount h - ?a" by (rule numeric_fix [OF assms(1)]) (use assms(2,4) in blast)
    have rf: "refunded ?t ?b (h_BillNo rh) s' = refunded ?t ?b (h_BillNo rh) s + ?a"
      using p am pos rh(2) by (simp add: refunded_def s' head_update_def)
    have "?a \<le> h_TotalAmount rh - refunded ?t ?b (h_BillNo rh) s" using left [OF refl] pos rh(2) by (simp add: returnRefundLeft_eq)
    then have le: "refunded ?t ?b (h_BillNo rh) s' \<le> h_TotalAmount rh" using rf by simp
    have net: "max (h_TotalAmount h - ReturnedAmount E ?t ?b s) 0 \<le> h_PaidAmount h - ?a" using cap pos by (simp add: refundCap_pos)
    have "find_head t b s' = find_head t b (head_update ?t ?b (set_paid E (h_PaidAmount h - ?a)) s)" for t b
      unfolding s' by (simp add: find_head_def)
    then have fh: "find_head t b s' = (if (t, b) = (?t, ?b) then Some (set_paid E (h_PaidAmount h - ?a) h) else find_head t b s)" for t b
      using assms(3) by (simp add: find_head_head_update)
    have ph: "payment_head s' = payment_head s @ [p]" by (simp add: s')
    have frame: "s'\<lparr>bill_head := bill_head s, payment_head := payment_head s, draws := draws s\<rparr> = s" by (simp add: s' head_update_def)
    show ?thesis unfolding r Inr prod.case sum.case
      by (rule exI [of _ rh], rule exI [of _ "set_paid E (h_PaidAmount h - ?a) h"], rule exI [of _ p])
         (use rh p(1,3) am pos resolveRefundMethod_Inr [OF m] net paid rf le ph frame in \<open>simp add: fh\<close>)
  qed
qed

section \<open>Examples\<close>

definition demo_refunds :: db where
  "demo_refunds = demo_returns\<lparr>bill_head := [demo_so\<lparr>h_Status := StatusApproved, h_PaidAmount := 36\<rparr>, demo_rt\<lparr>h_Status := StatusApproved\<rparr>]\<rparr>"

definition demo_refund :: SaleRefundOnlyRequest where
  "demo_refund = \<lparr> sf_TenantID = 11, sf_CreatorID = 14, sf_SaleBillID = 1002, sf_Amount = 10, sf_Method = [], sf_ReturnBillID = 1004 \<rparr>"

lemma demo_refund_accepted: "\<not> isl (fst (RecordRefund std_env demo_refund demo_refunds))"
  by code_simp

text \<open>The very same request again: it is booked a second time, since the return is worth 27.\<close>

lemma same_refund_booked_twice: "\<not> isl (fst (RecordRefund std_env demo_refund (snd (RecordRefund std_env demo_refund demo_refunds))))"
  by code_simp

theorem refund_books_witness:
  "\<exists>s' h'. RecordRefund std_env demo_refund demo_refunds = (Inr (), s') \<and> find_head 11 1002 s' = Some h' \<and> h_PaidAmount h' = 26"
proof -
  obtain s' where r: "RecordRefund std_env demo_refund demo_refunds = (Inr (), s')" using not_isl_result [OF demo_refund_accepted] by auto
  let ?h = "demo_so\<lparr>h_Status := StatusApproved, h_PaidAmount := 36\<rparr>"
  have f: "find_head 11 1002 demo_refunds = Some ?h"
    by (simp add: demo_refunds_def demo_so_def blank_head_def find_head_def head_at_def)
  have k: "sf_TenantID demo_refund = 11" "sf_SaleBillID demo_refund = 1002" "sf_Amount demo_refund = 10" by (simp_all add: demo_refund_def)
  show ?thesis using refund_books [of std_env demo_refund demo_refunds ?h, unfolded k, OF std_runtime _ f] r by auto
qed

end
