(* ===== verification/Purchase_Return.thy ===== *)
theory Purchase_Return
  imports Sale_Return
begin

text \<open>
  Goods handed back to a supplier (\<open>internal/app/bill/purchase_return.go\<close>): a linked bill, one
  outbound movement per line at the price the goods came in at, and the offset of what is still
  owed, all in one transaction.
\<close>

record PurchaseReturnRequest =
  pq_TenantID :: uuid
  pq_CreatorID :: uuid
  pq_PurchaseBillID :: uuid
  pq_Items :: "ReturnSaleLine list"
  pq_Remark :: string

record PurchaseReturnOutput =
  po_BillID :: uuid
  po_BillNo :: string
  po_ReturnAmount :: rat
  po_PayableReduced :: rat
  po_SupplierOwes :: rat

definition purchase_return_checks :: "PurchaseReturnRequest \<Rightarrow> err + unit" where
  "purchase_return_checks req =
     (if pq_TenantID req = uuid_Nil \<or> pq_CreatorID req = uuid_Nil
      then Inl (Wrap ''tenant_id and creator_id are required'' ErrValidation)
      else if pq_Items req = [] then Inl (Wrap ''at least one item is required'' ErrValidation)
      else if list_ex (\<lambda>it. \<not> 0 < rl_Qty it) (pq_Items req) then Inl (Wrap ''item qty must be positive'' ErrValidation)
      else Inr ())"

definition purchase_returnable :: "BillHead \<Rightarrow> bool" where
  "purchase_returnable po \<longleftrightarrow> h_BillType po = BillTypePurchase \<and> h_SubType po = BillSubTypePurchase \<and> h_Status po = StatusApproved"

definition return_rate :: "BillHead \<Rightarrow> rat" where
  "return_rate po = (if 0 < h_ExchangeRateVal po then h_ExchangeRateVal po else 1)"

definition purchase_return_line ::
  "env \<Rightarrow> uuid \<Rightarrow> rat \<Rightarrow> (uuid, rat) map \<Rightarrow> nat \<Rightarrow> BillItem \<times> rat \<Rightarrow> (BillItem \<times> uuid) op" where
  "purchase_return_line E t rate returned k = (\<lambda>(l, qty).
     (let left = max (it_Qty l - get0 returned (it_ID l)) 0
      in if left < qty then failE (ReturnExceededError (it_LineNo l) left)
         else bindE (uuid_New E) (\<lambda>i. returnE
                (\<lparr> it_ID = i, it_TenantID = t, it_HeadID = uuid_Nil, it_ProductID = it_ProductID l, it_UnitID = it_UnitID l,
                   it_UnitName = it_UnitName l, it_LineNo = int (Suc k), it_Qty = qty, it_UnitPrice = it_UnitPrice l,
                   it_LineAmount = dround E 2 (qty * it_UnitPrice l * rate), it_Remark = [], it_purchase_price = 0,
                   it_link_item_id = None, it_deleted = False \<rparr>, it_ID l))))"

definition purchase_return_remark :: "PurchaseReturnRequest \<Rightarrow> BillHead \<Rightarrow> string" where
  "purchase_return_remark req po =
     utf8 [0x91C7, 0x8D2D, 0x9000, 0x8D27, 0x20] @ h_BillNo po @ (if pq_Remark req \<noteq> [] then utf8 [0xFF1A] @ pq_Remark req else [])"

definition purchase_return_head :: "env \<Rightarrow> PurchaseReturnRequest \<Rightarrow> BillHead \<Rightarrow> uuid \<Rightarrow> uuid \<Rightarrow> string \<Rightarrow> rat \<Rightarrow> BillHead" where
  "purchase_return_head E req po billID w billNo amount =
     blank_head\<lparr>h_ID := billID, h_TenantID := pq_TenantID req, h_BillNo := billNo, h_BillType := BillTypeSale,
       h_SubType := BillSubTypePurchaseReturn, h_Status := StatusDraft, h_WarehouseID := Some w, h_PartnerID := h_PartnerID po,
       h_CreatorID := pq_CreatorID req, h_BillDate := now E, h_Subtotal := amount, h_TotalAmount := amount,
       h_Remark := purchase_return_remark req po, h_CreatedAt := now E, h_UpdatedAt := now E\<rparr>"

definition send_back_request :: "PurchaseReturnRequest \<Rightarrow> uuid \<Rightarrow> uuid \<Rightarrow> BillItem \<Rightarrow> string \<Rightarrow> rat \<Rightarrow> RecordMovementRequest" where
  "send_back_request req billID w item conv cost =
     \<lparr> r_TenantID = pq_TenantID req, r_ProductID = it_ProductID item, r_WarehouseID = w, r_Direction = DirectionOut,
       r_Qty = it_Qty item, r_UnitID = (case it_UnitID item of None \<Rightarrow> uuid_Nil | Some u \<Rightarrow> u), r_ConvFactor = conv,
       r_UnitCost = cost, r_ExplicitCost = True, r_AllowNegative = False, r_CostStrategy = [],
       r_ReferenceType = RefReturn, r_ReferenceID = Some billID, r_OccurredAt = 0, r_CreatedBy = None, r_Note = [] \<rparr>"

definition send_back_factor :: "env \<Rightarrow> bool \<Rightarrow> BillItem \<Rightarrow> db \<Rightarrow> err + (string \<times> rat)" where
  "send_back_factor E units item s = (if units then line_factor E item s else Inr (''1'', 1))"

definition send_back ::
  "env \<Rightarrow> bool \<Rightarrow> (RecordMovementRequest \<Rightarrow> Snapshot op) \<Rightarrow> PurchaseReturnRequest \<Rightarrow> uuid \<Rightarrow> uuid \<Rightarrow> rat \<Rightarrow> BillItem \<Rightarrow> Snapshot op" where
  "send_back E units exec req billID w rate item =
     bindE (mapErr (Wrap ''purchase return: line'') (queryE (send_back_factor E units item))) (\<lambda>(conv, factor).
     bindE (liftE (decimal_Div E (it_UnitPrice item * rate) factor)) (\<lambda>cost.
     mapErr (Wrap ''purchase return: stock out for line'') (exec (send_back_request req billID w item conv cost))))"

definition offset_label :: "string \<Rightarrow> string" where
  "offset_label returnNo = utf8 [0x91C7, 0x8D2D, 0x9000, 0x8D27, 0x51B2, 0x62B5, 0x20] @ returnNo"

definition offset_payment :: "env \<Rightarrow> BillHead \<Rightarrow> string \<Rightarrow> uuid \<Rightarrow> rat \<Rightarrow> uuid \<Rightarrow> Payment" where
  "offset_payment E po returnNo creator amount i =
     \<lparr> p_ID = i, p_TenantID = h_TenantID po, p_BillID = h_ID po, p_PayType = PayTypeCredit, p_Amount = amount, p_TotalAmount = 0,
       p_PartnerID = h_PartnerID po, p_OperatorID = None, p_CreatorID = creator, p_BillNo = [], p_PayDate = now E,
       p_Remark = offset_label returnNo, p_CreatedAt = 0, p_deleted = False \<rparr>"

definition offsetPayable :: "env \<Rightarrow> bool \<Rightarrow> BillHead \<Rightarrow> string \<Rightarrow> uuid \<Rightarrow> rat \<Rightarrow> rat op" where
  "offsetPayable E payments po returnNo creator amount =
     (let off = min amount (max (h_TotalAmount po - h_PaidAmount po) 0) in
      if \<not> payments \<or> \<not> 0 < off then returnE 0
      else
        bindE (uuid_New E) (\<lambda>i.
        thenE (mapErr (Wrap ''purchase return: record offset'') (Payment_Record E (offset_payment E po returnNo creator off i)))
        (thenE (mapErr (Wrap ''purchase return: update paid_amount'')
                  (UpdatePaidAmount E (h_TenantID po) (h_ID po) (h_PaidAmount po + off)))
         (returnE off))))"

definition purchase_return_lines :: "env \<Rightarrow> PurchaseReturnRequest \<Rightarrow> BillHead \<Rightarrow> (BillItem \<times> uuid) list op" where
  "purchase_return_lines E req po =
     bindE (readE (\<lambda>s. (by_id (GetBillItems (pq_TenantID req) (pq_PurchaseBillID req) s),
                        PurchaseReturnedQtyByLine (pq_TenantID req) (pq_PurchaseBillID req) s))) (\<lambda>(lines, returned).
     bindE (liftE (collect_lines False lines (pq_Items req) Map.empty [])) (\<lambda>(want, order).
     forE (\<lambda>(k, x). purchase_return_line E (pq_TenantID req) (return_rate po) returned k x)
       (enumerate 0 (map (\<lambda>i. (the (lines i), get0 want i)) order))))"

definition purchase_return_book ::
  "env \<Rightarrow> PurchaseReturnRequest \<Rightarrow> BillHead \<Rightarrow> uuid \<Rightarrow> (BillItem \<times> uuid) list \<Rightarrow> (uuid \<times> string) op" where
  "purchase_return_book E req po w linked =
     bindE (mapErr (Wrap ''purchase return: generate bill_no'') (NextBillNo E (pq_TenantID req) ''PR'')) (\<lambda>billNo.
     bindE (uuid_New E) (\<lambda>billID.
     thenE (mapErr (Wrap ''purchase return: persist bill'')
              (CreateBill E (purchase_return_head E req po billID w billNo (line_total (map fst linked)))
                 (map (\<lambda>x. set_head billID (fst x)) linked)))
     (thenE (mapErr (Wrap ''purchase return: link purchase'') (SetLinkBill (pq_TenantID req) billID (pq_PurchaseBillID req)))
     (thenE (mapErr (Wrap ''purchase return: link purchase lines'')
               (SetLinkItems (pq_TenantID req) (pq_PurchaseBillID req) (map (\<lambda>(it, l). (it_ID it, l)) linked)))
      (returnE (billID, billNo))))))"

definition purchase_return_tx ::
  "env \<Rightarrow> bool \<Rightarrow> bool \<Rightarrow> (RecordMovementRequest \<Rightarrow> Snapshot op) \<Rightarrow> PurchaseReturnRequest \<Rightarrow> PurchaseReturnOutput op" where
  "purchase_return_tx E units payments exec req s =
     (let t = pq_TenantID req; b = pq_PurchaseBillID req in
      bindE (mapErr (Wrap ''purchase return: load purchase'') (GetBillForUpdate t b)) (\<lambda>po.
      if \<not> purchase_returnable po then failE ErrPurchaseNotReturnable
      else
        bindE (purchase_return_lines E req po) (\<lambda>linked.
        bindE (mapErr (Wrap ''purchase return'') (resolveApprovalWarehouse E po t b)) (\<lambda>w.
        bindE (purchase_return_book E req po w linked) (\<lambda>(billID, billNo).
        bindE (forE (send_back E units exec req billID w (return_rate po)) (map fst linked)) (\<lambda>_.
        thenE (mapErr (Wrap ''purchase return: update status'')
                 (UpdateBillStatus E t billID StatusApproved (Some (now E, pq_CreatorID req)) None))
        (bindE (offsetPayable E payments po billNo (pq_CreatorID req) (line_total (map fst linked))) (\<lambda>reduced.
         returnE \<lparr> po_BillID = billID, po_BillNo = billNo, po_ReturnAmount = line_total (map fst linked),
                   po_PayableReduced = reduced, po_SupplierOwes = line_total (map fst linked) - reduced \<rparr>))))))) s)"

definition PurchaseReturn_Execute ::
  "env \<Rightarrow> bool \<Rightarrow> bool \<Rightarrow> (RecordMovementRequest \<Rightarrow> Snapshot op) \<Rightarrow> PurchaseReturnRequest \<Rightarrow> db \<Rightarrow> (err + PurchaseReturnOutput) \<times> db" where
  "PurchaseReturn_Execute E units payments exec req =
     runTx (thenE (liftE (purchase_return_checks req)) (purchase_return_tx E units payments exec req))"

definition PurchaseReturn_Summary :: "uuid \<Rightarrow> BillHead \<Rightarrow> db \<Rightarrow> (uuid, rat) map" where
  "PurchaseReturn_Summary t po s =
     (if \<not> purchase_returnable po then Map.empty else PurchaseReturnedQtyByLine t (h_ID po) s)"

section \<open>The lines asked for\<close>

text \<open>The lines collected so far: one entry per line of the bill, with a positive quantity of the column.\<close>

definition collected :: "(uuid, BillItem) map \<Rightarrow> (uuid, rat) map \<Rightarrow> uuid list \<Rightarrow> bool" where
  "collected lines want order \<longleftrightarrow> distinct order \<and> set order = dom want
     \<and> (\<forall>i \<in> set order. lines i \<noteq> None \<and> 0 < get0 want i \<and> on_grid 4 (get0 want i))"

definition line_wanted :: "ReturnSaleLine \<Rightarrow> bool" where
  "line_wanted it \<longleftrightarrow> 0 < rl_Qty it \<and> on_grid 4 (rl_Qty it)"

lemma collect_lines_Inr:
  assumes "collect_lines check lines its want order = Inr (want', order')" "collected lines want order" "list_all line_wanted its"
  shows "collected lines want' order'"
  using assms
proof (induction check lines its want order rule: collect_lines.induct)
  case (1 check lines want order)
  then show ?case by simp
next
  case (2 check lines it its want order)
  let ?want = "want(rl_BillItemID it \<mapsto> get0 want (rl_BillItemID it) + rl_Qty it)"
  let ?order = "if want (rl_BillItemID it) = None then order @ [rl_BillItemID it] else order"
  have c: "lines (rl_BillItemID it) \<noteq> None" "\<not> (check \<and> \<not> 0 < rl_Qty it)" and r: "collect_lines check lines its ?want ?order = Inr (want', order')"
    using 2(2) by (auto split: if_splits)
  have nn: "0 \<le> get0 want i \<and> on_grid 4 (get0 want i)" for i
  proof (cases "want i")
    case (Some a)
    then have "i \<in> set order" using 2(3) by (auto simp: collected_def)
    then have "0 < get0 want i \<and> on_grid 4 (get0 want i)" using 2(3) by (simp add: collected_def)
    then show ?thesis by simp
  qed (simp add: get0_def)
  have "collected lines ?want ?order"
    using 2(3,4) c(1) nn [of "rl_BillItemID it"] by (auto simp: collected_def line_wanted_def get0_def dom_def intro: add_nonneg_pos)
  then show ?case by (rule 2(1) [OF c r]) (use 2(4) in simp)
qed

lemma by_id_Some: "by_id ls i = Some l \<Longrightarrow> l \<in> set ls \<and> it_ID l = i"
  by (auto simp: by_id_def dest!: map_of_SomeD)

text \<open>How a line of the return stands to the line it gives back.\<close>

definition line_back :: "env \<Rightarrow> uuid \<Rightarrow> rat \<Rightarrow> (uuid, rat) map \<Rightarrow> BillItem \<times> rat \<Rightarrow> BillItem \<times> uuid \<Rightarrow> bool" where
  "line_back E t rate returned = (\<lambda>(l, q) (it, i). i = it_ID l \<and> q \<le> max (it_Qty l - get0 returned i) 0 \<and> it_Qty it = q
     \<and> it_ProductID it = it_ProductID l \<and> it_UnitID it = it_UnitID l \<and> it_TenantID it = t \<and> \<not> it_deleted it
     \<and> it_UnitPrice it = it_UnitPrice l \<and> it_LineAmount it = dround E 2 (q * it_UnitPrice l * rate))"

lemma purchase_return_line_Inr:
  "purchase_return_line E t rate returned k x s = Inr (y, s') \<Longrightarrow>
     line_back E t rate returned x y \<and> it_ID (fst y) = new_uuid E (draws s) \<and> s' = s\<lparr>draws := Suc (draws s)\<rparr>"
  by (cases x) (auto simp: purchase_return_line_def line_back_def Let_def bindE_Inr split: if_splits)

lemma purchase_lines_Inr:
  assumes "forE (\<lambda>(k, x). purchase_return_line E t rate returned k x) (enumerate n xs) s = Inr (ys, s')"
  shows "list_all2 (line_back E t rate returned) xs ys \<and> map (it_ID \<circ> fst) ys = map (new_uuid E) [draws s ..< draws s + length xs]
     \<and> s' = s\<lparr>draws := draws s + length xs\<rparr>"
  using assms
proof (induction xs arbitrary: n s ys)
  case (Cons x xs)
  obtain y s1 zs where l: "purchase_return_line E t rate returned n x s = Inr (y, s1)" and ys: "ys = y # zs"
    and r: "forE (\<lambda>(k, x). purchase_return_line E t rate returned k x) (enumerate (Suc n) xs) s1 = Inr (zs, s')"
    using Cons.prems unfolding enumerate_simps(2) forE_Cons_Inr prod.case by blast
  note one = purchase_return_line_Inr [OF l]
  show ?case using Cons.IH [OF r] one by (simp add: ys upt_conv_Cons del: upt_Suc)
qed simp

definition purchase_lines_ok :: "db \<Rightarrow> BillItem list \<Rightarrow> bool" where
  "purchase_lines_ok s ls \<longleftrightarrow> list_all (\<lambda>l. 0 \<le> it_UnitPrice l \<and> on_grid 0 (factor_of l s)) ls"

lemma purchase_return_lines_Inr:
  assumes "purchase_return_lines E req po s = Inr (linked, s')" "list_all line_wanted (pq_Items req)"
  obtains xs where "distinct (map (it_ID \<circ> fst) xs)" "list_all (\<lambda>(l, q). l \<in> set (GetBillItems (pq_TenantID req) (pq_PurchaseBillID req) s) \<and> 0 < q \<and> on_grid 4 q) xs"
    "list_all2 (line_back E (pq_TenantID req) (return_rate po) (PurchaseReturnedQtyByLine (pq_TenantID req) (pq_PurchaseBillID req) s)) xs linked"
    "map (it_ID \<circ> fst) linked = map (new_uuid E) [draws s ..< draws s + length linked]" "s' = s\<lparr>draws := draws s + length linked\<rparr>"
proof -
  let ?lines = "by_id (GetBillItems (pq_TenantID req) (pq_PurchaseBillID req) s)"
  obtain want order where c: "collect_lines False ?lines (pq_Items req) Map.empty [] = Inr (want, order)"
    and f: "forE (\<lambda>(k, x). purchase_return_line E (pq_TenantID req) (return_rate po) (PurchaseReturnedQtyByLine (pq_TenantID req) (pq_PurchaseBillID req) s) k x)
       (enumerate 0 (map (\<lambda>i. (the (?lines i), get0 want i)) order)) s = Inr (linked, s')"
    using assms(1) by (auto simp: purchase_return_lines_def bindE_liftE_Inr)
  have co: "collected ?lines want order" by (rule collect_lines_Inr [OF c _ assms(2)]) (simp add: collected_def)
  let ?xs = "map (\<lambda>i. (the (?lines i), get0 want i)) order"
  have k: "the (?lines i) \<in> set (GetBillItems (pq_TenantID req) (pq_PurchaseBillID req) s)" "it_ID (the (?lines i)) = i" if "i \<in> set order" for i
    using co that by_id_Some by (force simp: collected_def)+
  have "map (it_ID \<circ> fst) ?xs = order" using k(2) by (simp add: map_idI)
  then have d: "distinct (map (it_ID \<circ> fst) ?xs)" using co by (simp add: collected_def)
  note P = purchase_lines_Inr [OF f]
  have "length linked = length ?xs" using P by (auto dest: list_all2_lengthD)
  then show ?thesis
    by (intro that [of ?xs]) (use P d k(1) co in \<open>auto simp: collected_def list_all_iff\<close>)
qed


section \<open>Booking the return bill\<close>

lemma update_where_append: "update_where P f (xs @ ys) = update_where P f xs @ update_where P f ys"
  by (simp add: update_where_def)

lemma update_where_none: "(\<And>x. x \<in> set xs \<Longrightarrow> \<not> P x) \<Longrightarrow> update_where P f xs = xs"
  by (simp add: update_where_def map_idI)

definition set_links :: "uuid \<Rightarrow> (uuid, uuid) map \<Rightarrow> BillItem \<Rightarrow> BillItem" where
  "set_links t links i = (if it_TenantID i = t then case links (it_ID i) of None \<Rightarrow> i | Some l \<Rightarrow> i\<lparr>it_link_item_id := Some l\<rparr> else i)"

lemma SetLinkItems_Inr:
  assumes "SetLinkItems t b links s = Inr (u, s')" "distinct (map fst links)"
  shows "s' = s\<lparr>bill_item := map (set_links t (map_of links)) (bill_item s)\<rparr>"
proof -
  obtain us where "forE (set_link_item t b) links s = Inr (us, s')" using assms(1) by (auto simp: SetLinkItems_def bindE_Inr)
  then show ?thesis using assms(2)
  proof (induction links arbitrary: s us)
    case Nil
    then show ?case by (simp add: set_links_def map_idI)
  next
    case (Cons x links)
    obtain i l where x: "x = (i, l)" by force
    obtain s1 vs where s1: "s1 = s\<lparr>bill_item := update_where (\<lambda>r. it_ID r = i \<and> it_TenantID r = t) (\<lambda>r. r\<lparr>it_link_item_id := Some l\<rparr>) (bill_item s)\<rparr>"
      and r: "forE (set_link_item t b) links s1 = Inr (vs, s')"
      using Cons.prems(1) unfolding x forE_Cons_Inr by (auto simp: set_link_item_def split: if_splits)
    have i: "map_of links i = None" using Cons.prems(2) by (auto simp: x map_of_eq_None_iff)
    show ?case using Cons.IH [OF r] Cons.prems(2) i
      by (auto simp: s1 x update_where_def set_links_def split: option.split)
  qed
qed

lemma set_links_simps [simp]:
  "it_ID (set_links t m i) = it_ID i" "it_Qty (set_links t m i) = it_Qty i" "it_HeadID (set_links t m i) = it_HeadID i"
  "it_TenantID (set_links t m i) = it_TenantID i" "it_ProductID (set_links t m i) = it_ProductID i"
  by (simp_all add: set_links_def split: option.split)

lemma SetLinkBill_Inr:
  "SetLinkBill t b linked s = Inr (u, s') \<Longrightarrow>
     s' = s\<lparr>bill_head := update_where (\<lambda>h. h_ID h = b \<and> h_TenantID h = t) (\<lambda>h. h\<lparr>h_link_bill_id := Some linked\<rparr>) (bill_head s)\<rparr>"
  by (auto simp: SetLinkBill_def split: if_splits)

text \<open>The lines of the new bill as they stand in the table.\<close>

definition booked_line :: "env \<Rightarrow> uuid \<Rightarrow> BillItem \<times> uuid \<Rightarrow> BillItem" where
  "booked_line E billID = (\<lambda>(it, l). (stored_item E (set_head billID it))\<lparr>it_link_item_id := Some l\<rparr>)"

lemma booked_line_simps [simp]:
  "it_ID (booked_line E b x) = it_ID (fst x)" "it_HeadID (booked_line E b x) = b" "it_TenantID (booked_line E b x) = it_TenantID (fst x)"
  "it_Qty (booked_line E b x) = numeric E 4 (it_Qty (fst x))" "it_link_item_id (booked_line E b x) = Some (snd x)"
  "it_ProductID (booked_line E b x) = it_ProductID (fst x)"
  by (cases x; simp add: booked_line_def stored_item_def set_head_def)+

lemma purchase_return_book_Inr:
  assumes "runtime_env E" "bills_ok E s0" "map (it_ID \<circ> fst) linked = map (new_uuid E) [draws s0 ..< draws s0 + length linked]"
    and "purchase_return_book E req po w linked s = Inr ((billID, billNo), s')" "s = s1\<lparr>draws := draws s0 + length linked\<rparr>"
    and "map h_ID (bill_head s1) = map h_ID (bill_head s0)" "bill_item s1 = bill_item s0" "bill_sequence s1 = bill_sequence s0"
    and "list_all (\<lambda>x. it_TenantID (fst x) = pq_TenantID req) linked"
  obtains hd where "billID \<notin> h_ID ` set (bill_head s0)" "h_ID hd = billID" "h_TenantID hd = pq_TenantID req" "h_Status hd = StatusDraft" "\<not> h_deleted hd"
    "h_SubType hd = BillSubTypePurchaseReturn" "h_link_bill_id hd = Some (pq_PurchaseBillID req)" "h_BillNo hd = billNo"
    "h_TotalAmount hd = numeric E 4 (line_total (map fst linked))" "h_PaidAmount hd = 0"
    "bill_head s' = bill_head s1 @ [hd]" "bill_item s' = bill_item s0 @ map (booked_line E billID) linked" "beyond_bills s' = beyond_bills s1"
    "\<forall>i \<in> set (bill_item s0). it_HeadID i \<noteq> billID"
proof -
  let ?n = "draws s0 + length linked"
  obtain sa sc sd se u v x where no: "NextBillNo E (pq_TenantID req) ''PR'' s = Inr (billNo, sa)"
    and billID: "billID = new_uuid E (draws sa)"
    and c: "CreateBill E (purchase_return_head E req po billID w billNo (line_total (map fst linked)))
              (map (\<lambda>x. set_head billID (fst x)) linked) (sa\<lparr>draws := Suc (draws sa)\<rparr>) = Inr (u, sc)"
    and lb: "SetLinkBill (pq_TenantID req) billID (pq_PurchaseBillID req) sc = Inr (v, sd)"
    and li: "SetLinkItems (pq_TenantID req) (pq_PurchaseBillID req) (map (\<lambda>(it, l). (it_ID it, l)) linked) sd = Inr (x, s')"
    using assms(4) by (auto simp: purchase_return_book_def bindE_Inr thenE_Inr)
  obtain rows where sa: "sa = s\<lparr>draws := Suc (draws s), bill_sequence := rows\<rparr>" using NextBillNo_Inr(3) [OF no] by blast
  have dr: "draws s = ?n" "draws sa = Suc ?n" by (simp_all add: sa assms(5))
  have ids: "h_ID ` set (bill_head s1) = h_ID ` set (bill_head s0)" using assms(6) by (metis list.set_map)
  have fresh: "billID \<notin> h_ID ` set (bill_head s0)" "billID \<notin> it_HeadID ` set (bill_item s0)"
    unfolding billID using bills_ok_fresh [OF assms(1,2), of "draws sa"] dr by auto
  let ?h = "created_head E (purchase_return_head E req po billID w billNo (line_total (map fst linked)))"
  let ?hd = "?h\<lparr>h_link_bill_id := Some (pq_PurchaseBillID req)\<rparr>"
  have sc: "bill_head sc = bill_head s1 @ [?h]" "bill_item sc = bill_item s0 @ map (\<lambda>x. stored_item E (set_head billID (fst x))) linked"
    "beyond_bills sc = beyond_bills s1"
    using c by (auto simp: CreateBill_Inr sa assms(5,7) o_def)
  have key: "h_ID ?h = billID" "h_TenantID ?h = pq_TenantID req" by (simp_all add: purchase_return_head_def)
  let ?P = "\<lambda>h. h_ID h = billID \<and> h_TenantID h = pq_TenantID req"
  have "\<not> ?P x" if "x \<in> set (bill_head s1)" for x using fresh(1) imageI [OF that, of h_ID] unfolding ids by auto
  then have "update_where ?P f (bill_head s1) = bill_head s1" for f by (rule update_where_none)
  then have sd: "bill_head sd = bill_head s1 @ [?hd]"
    unfolding SetLinkBill_Inr [OF lb] sc(1) update_where_append by (simp add: purchase_return_head_def update_where_def sc(1))
  have sd': "bill_item sd = bill_item sc" "beyond_bills sd = beyond_bills sc" using SetLinkBill_Inr [OF lb] by simp_all
  let ?links = "map (\<lambda>(it, l). (it_ID it, l)) linked"
  have lf: "map fst ?links = map (new_uuid E) [draws s0 ..< ?n]" unfolding assms(3) [symmetric] by (auto simp: o_def)
  have dist: "distinct (map fst ?links)" unfolding lf
    using runtime_env.new_uuid_inj [OF assms(1)] by (auto simp: distinct_map inj_on_def)
  note s' = SetLinkItems_Inr [OF li dist]
  have old: "set_links (pq_TenantID req) (map_of ?links) i = i" if "i \<in> set (bill_item s0)" for i
  proof -
    have "it_ID i \<notin> set (map fst ?links)"
    proof
      assume "it_ID i \<in> set (map fst ?links)"
      then obtain k where "draws s0 \<le> k" "it_ID i = new_uuid E k" unfolding lf by auto
      then show False using bills_ok_fresh(2) [OF assms(1,2)] that by (metis imageI)
    qed
    then have "map_of ?links (it_ID i) = None" unfolding map_of_eq_None_iff set_map .
    then show ?thesis by (simp add: set_links_def)
  qed
  have new: "set_links (pq_TenantID req) (map_of ?links) (stored_item E (set_head billID (fst x))) = booked_line E billID x" if "x \<in> set linked" for x
  proof -
    obtain it l where x: "x = (it, l)" by force
    have "(it_ID it, l) \<in> set ?links" using that x by force
    then have "map_of ?links (it_ID it) = Some l" using dist by simp
    then show ?thesis using assms(9) that x by (auto simp: set_links_def booked_line_def set_head_def stored_item_def list_all_iff)
  qed
  have "bill_item s' = bill_item s0 @ map (booked_line E billID) linked"
    unfolding s' using old new by (auto simp: sd' sc(2) map_idI)
  then show ?thesis
    by (intro that [of ?hd]) (use fresh sd sd' sc(3) s' in \<open>auto simp: purchase_return_head_def blank_head_def\<close>)
qed


section \<open>Goods going out\<close>

lemma send_back_request_simps [simp]:
  "r_TenantID (send_back_request req b w item conv cost) = pq_TenantID req" "r_ProductID (send_back_request req b w item conv cost) = it_ProductID item"
  "r_WarehouseID (send_back_request req b w item conv cost) = w" "r_Direction (send_back_request req b w item conv cost) = DirectionOut"
  "r_Qty (send_back_request req b w item conv cost) = it_Qty item" "r_ConvFactor (send_back_request req b w item conv cost) = conv"
  "\<not> r_AllowNegative (send_back_request req b w item conv cost)"
  by (simp_all add: send_back_request_def)

lemma send_back_Inr:
  assumes "send_back E True exec req billID w rate item s = Inr (snap, s')"
  obtains conv f cost where "line_factor E item s = Inr (conv, f)" "exec (send_back_request req billID w item conv cost) s = Inr (snap, s')"
  using assms unfolding send_back_def bindE_mapErr_Inr queryE_Inr
  by (auto simp: bindE_liftE_Inr send_back_factor_def split: prod.splits)

context stock_executor
begin

lemma sent_line:
  assumes "runtime_env E" "units_ok s" "send_back E True exec req billID w rate item s = Inr (snap, s')"
    and "on_grid 4 (base_qty s item)" "on_grid 4 (on_hand (pq_TenantID req) (it_ProductID item) w s)"
  shows "on_hand (pq_TenantID req) p w s' = on_hand (pq_TenantID req) p w s - (if it_ProductID item = p then base_qty s item else 0)"
    "(t', w') \<noteq> (pq_TenantID req, w) \<Longrightarrow> on_hand t' p w' s' = on_hand t' p w' s" "beyond_stock s' = beyond_stock s"
    "0 \<le> on_hand (pq_TenantID req) (it_ProductID item) w s'"
proof -
  let ?t = "pq_TenantID req"
  obtain conv f cost where l: "line_factor E item s = Inr (conv, f)"
    and x: "exec (send_back_request req billID w item conv cost) s = Inr (snap, s')" using assms(3) by (rule send_back_Inr)
  let ?r = "send_back_request req billID w item conv cost"
  obtain q where c: "check_request E [] ?r = Inr q" using exec_qty [OF x] by blast
  have q: "q = base_qty s item" using check_request_qty [OF c] convert_line [OF assms(1,2) l] by simp
  show "beyond_stock s' = beyond_stock s" by (rule exec_frame [OF x])
  have other: "(t', p, w') \<noteq> (?t, it_ProductID item, w) \<Longrightarrow> on_hand t' p w' s' = on_hand t' p w' s" for t' p w'
    using exec_other [OF x, of t' p w'] by (auto simp: on_hand_def)
  then show "(t', w') \<noteq> (?t, w) \<Longrightarrow> on_hand t' p w' s' = on_hand t' p w' s" by auto
  note bk = exec_book [OF x c, unfolded q]
  have g: "on_grid 4 (on_hand ?t (it_ProductID item) w s - base_qty s item)" using assms(4,5) by auto
  have oh: "on_hand ?t (it_ProductID item) w s' = on_hand ?t (it_ProductID item) w s - base_qty s item"
    using bk numeric_fix [OF assms(1) g] by (simp add: request_delta.simps)
  then show "0 \<le> on_hand ?t (it_ProductID item) w s'" using bk by (auto simp: request_short_def)
  show "on_hand ?t p w s' = on_hand ?t p w s - (if it_ProductID item = p then base_qty s item else 0)"
    using oh other [of ?t p w] by auto
qed

lemma sent_lines:
  assumes "runtime_env E" "units_ok s" "forE (send_back E True exec req billID w rate) items s = Inr (snaps, s')"
    and "\<And>it. it \<in> set items \<Longrightarrow> on_grid 4 (base_qty s it)" "\<And>p. on_grid 4 (on_hand (pq_TenantID req) p w s)"
  shows "(\<forall>p. on_hand (pq_TenantID req) p w s' = on_hand (pq_TenantID req) p w s - moved s p items)
    \<and> (\<forall>t' p w'. (t', w') \<noteq> (pq_TenantID req, w) \<longrightarrow> on_hand t' p w' s' = on_hand t' p w' s) \<and> beyond_stock s' = beyond_stock s
    \<and> (\<forall>p \<in> it_ProductID ` set items. 0 \<le> on_hand (pq_TenantID req) p w s')"
  using assms(2-)
proof (induction items arbitrary: s snaps)
  case Nil
  then show ?case by (simp add: moved_def)
next
  case (Cons it items)
  let ?t = "pq_TenantID req"
  obtain y s1 ys where l: "send_back E True exec req billID w rate it s = Inr (y, s1)"
    and r: "forE (send_back E True exec req billID w rate) items s1 = Inr (ys, s')"
    using Cons.prems(2) unfolding forE_Cons_Inr by blast
  have g: "on_grid 4 (base_qty s it)" using Cons.prems(3) by simp
  note one = sent_line [OF assms(1) Cons.prems(1) l g Cons.prems(4)]
  note fr = beyond_stockD(5,7) [OF one(3)]
  have IH: "(\<forall>p. on_hand ?t p w s' = on_hand ?t p w s1 - moved s1 p items)
    \<and> (\<forall>t' p w'. (t', w') \<noteq> (?t, w) \<longrightarrow> on_hand t' p w' s' = on_hand t' p w' s1) \<and> beyond_stock s' = beyond_stock s1
    \<and> (\<forall>p \<in> it_ProductID ` set items. 0 \<le> on_hand ?t p w s')"
  proof (rule Cons.IH [OF _ r])
    show "units_ok s1" using Cons.prems(1) units_ok_frame [OF fr(2)] by simp
    show "on_grid 4 (base_qty s1 x)" if "x \<in> set items" for x
      using Cons.prems(3) that base_qty_frame [OF fr(2,1)] by simp
    show "on_grid 4 (on_hand ?t p w s1)" for p using one(1) [of p] Cons.prems(4) g by auto
  qed
  have nn: "0 \<le> on_hand ?t (it_ProductID it) w s'"
  proof (cases "it_ProductID it \<in> it_ProductID ` set items")
    case False
    then have "filter (\<lambda>x. it_ProductID x = it_ProductID it) items = []" by (intro filter_False ballI notI) (metis imageI)
    then have "moved s1 (it_ProductID it) items = 0" by (simp add: moved_def)
    then show ?thesis using IH one(4) by simp
  qed (use IH in blast)
  have "\<forall>p. on_hand ?t p w s' = on_hand ?t p w s - moved s p (it # items)"
    using IH one(1) moved_frame [OF fr(2,1)] by (simp add: moved_Cons algebra_simps)
  then show ?case using IH one(2,3) nn by auto
qed

end

section \<open>What has gone back per line\<close>

lemma map_of_keys: "map_of (map (\<lambda>k. (k, g k)) ks) l = (if l \<in> set ks then Some (g l) else None)"
  by (induction ks) auto

text \<open>The total per line, as a sum over the lines of the approved returns.\<close>

lemma get0_qty_by_link:
  "get0 (qty_by_link sub t b s) l = sum_list (map it_Qty (filter (\<lambda>i. it_link_item_id i = Some l) (joined_items (linked_back sub t b) s)))"
proof -
  let ?js = "filter (\<lambda>i. it_link_item_id i \<noteq> None) (joined_items (linked_back sub t b) s)"
  have e: "filter (\<lambda>i. the (it_link_item_id i) = l) ?js = filter (\<lambda>i. it_link_item_id i = Some l) (joined_items (linked_back sub t b) s)"
    by (auto simp: filter_eq_iff intro: filter_cong)
  show ?thesis
  proof (cases "l \<in> (\<lambda>i. the (it_link_item_id i)) ` set ?js")
    case True
    then show ?thesis unfolding qty_by_link_def qty_by_def get0_def map_of_keys e by simp
  next
    case False
    then have "filter (\<lambda>i. the (it_link_item_id i) = l) ?js = []" by (force simp: filter_empty_conv)
    then show ?thesis using False unfolding qty_by_link_def qty_by_def get0_def map_of_keys e by simp
  qed
qed

text \<open>A new approved return of the bill adds its lines to those totals.\<close>

lemma joined_items_new:
  assumes "map return_view (bill_head s') = map return_view (bill_head s) @ [return_view hr]" "linked_back sub t b hr"
    and "bill_item s' = bill_item s @ new" "list_all (\<lambda>i. it_HeadID i = h_ID hr \<and> it_TenantID i = t) new"
    and "h_ID hr \<notin> h_ID ` set (bill_head s)" "\<forall>i \<in> set (bill_item s). it_HeadID i \<noteq> h_ID hr"
  shows "joined_items (linked_back sub t b) s' = joined_items (linked_back sub t b) s @ new"
proof -
  let ?Q = "\<lambda>(_, t', d, _, su, st, l, _). t' = t \<and> su = sub \<and> st = StatusApproved \<and> \<not> d \<and> l = Some b"
  let ?g = "\<lambda>its (v :: uuid \<times> uuid \<times> bool \<times> BillType \<times> BillSubType \<times> BillStatus \<times> uuid option \<times> string).
    filter (\<lambda>i. it_HeadID i = fst v \<and> it_TenantID i = fst (snd v)) its"
  have j: "joined_items (linked_back sub t b) x = concat (map (?g (bill_item x)) (filter ?Q (map return_view (bill_head x))))" for x :: db
    by (simp add: joined_items_def linked_back_def [abs_def] return_view_def [abs_def] filter_map o_def)
  have hr: "?Q (return_view hr)" "fst (return_view hr) = h_ID hr" "fst (snd (return_view hr)) = t"
    using assms(2) by (auto simp: linked_back_def return_view_def)
  have old: "map (?g (bill_item s')) (filter ?Q (map return_view (bill_head s))) = map (?g (bill_item s)) (filter ?Q (map return_view (bill_head s)))"
  proof (rule map_cong [OF refl])
    fix v assume "v \<in> set (filter ?Q (map return_view (bill_head s)))"
    then obtain x where x: "x \<in> set (bill_head s)" "v = return_view x" by auto
    then have "fst v \<noteq> h_ID hr" using assms(5) by (simp add: return_view_def) (metis imageI)
    then show "?g (bill_item s') v = ?g (bill_item s) v" using assms(4) by (auto simp: assms(3) list_all_iff filter_empty_conv)
  qed
  have "?g (bill_item s') (return_view hr) = new"
    using assms(4,6) unfolding hr(2,3) assms(3) by (auto simp: list_all_iff filter_empty_conv filter_id_conv)
  moreover have "filter ?Q [return_view hr] = [return_view hr]" using hr(1) by simp
  ultimately show ?thesis unfolding j assms(1) filter_append map_append old concat_append by simp
qed


section \<open>The whole return\<close>

lemma purchase_return_tx_Inr:
  assumes "purchase_return_tx E True payments exec req s = Inr (out, s')"
    and "find_head (pq_TenantID req) (pq_PurchaseBillID req) s = Some po"
  obtains linked s1 w s2 billID billNo s3 snaps s4 reduced where "purchase_returnable po"
    "purchase_return_lines E req (scanBillHead po) s = Inr (linked, s1)"
    "resolveApprovalWarehouse E (scanBillHead po) (pq_TenantID req) (pq_PurchaseBillID req) s1 = Inr (w, s2)"
    "purchase_return_book E req (scanBillHead po) w linked s2 = Inr ((billID, billNo), s3)"
    "forE (send_back E True exec req billID w (return_rate (scanBillHead po))) (map fst linked) s3 = Inr (snaps, s4)"
    "offsetPayable E payments (scanBillHead po) billNo (pq_CreatorID req) (line_total (map fst linked))
       (head_update (pq_TenantID req) billID (set_approved E (pq_CreatorID req)) s4) = Inr (reduced, s')"
    "out = \<lparr> po_BillID = billID, po_BillNo = billNo, po_ReturnAmount = line_total (map fst linked), po_PayableReduced = reduced,
       po_SupplierOwes = line_total (map fst linked) - reduced \<rparr>"
proof -
  have g: "GetBillForUpdate (pq_TenantID req) (pq_PurchaseBillID req) s = Inr (scanBillHead po, s)" using assms(2) by (simp add: GetBillForUpdate_Inr)
  have p: "purchase_returnable (scanBillHead po) = purchase_returnable po" by (simp add: purchase_returnable_def)
  show ?thesis
    using assms(1) unfolding purchase_return_tx_def Let_def bindE_mapErr_Inr g
    by (auto simp: p bindE_mapErr_Inr bindE_Inr thenE_Inr UpdateBillStatus_approved split: if_splits prod.splits intro: that)
qed

lemma offsetPayable_Inr:
  assumes "offsetPayable E payments po billNo who amount s = Inr (reduced, s')" "runtime_env E" "find_head (h_TenantID po) (h_ID po) s = Some h" "0 \<le> amount"
  obtains ps where "reduced = (if payments then min amount (max (h_TotalAmount po - h_PaidAmount po) 0) else 0)"
    "payment_head s' = payment_head s @ ps" "sum_list (map p_Amount ps) = (if 0 < reduced then numeric E 4 reduced else 0)"
    "bill_head s' = (if 0 < reduced then bill_head (head_update (h_TenantID po) (h_ID po) (set_paid E (h_PaidAmount po + reduced)) s) else bill_head s)"
    "bill_item s' = bill_item s" "stock_snapshot s' = stock_snapshot s"
    "0 < reduced \<longrightarrow> numeric E 4 (h_PaidAmount po + reduced) \<le> h_TotalAmount h"
proof (cases "payments \<and> 0 < min amount (max (h_TotalAmount po - h_PaidAmount po) 0)")
  case False
  then have "reduced = 0" "s' = s" using assms(1) by (auto simp: offsetPayable_def Let_def)
  then show ?thesis using False assms(4) by (intro that [of "[]"]) (auto simp: min_def max_def split: if_splits)
next
  case True
  let ?off = "min amount (max (h_TotalAmount po - h_PaidAmount po) 0)"
  let ?p0 = "offset_payment E po billNo who ?off (new_uuid E (draws s))"
  obtain s1 where r: "Payment_Record E ?p0 (s\<lparr>draws := Suc (draws s)\<rparr>) = Inr ((), s1)"
    and u: "UpdatePaidAmount E (h_TenantID po) (h_ID po) (h_PaidAmount po + ?off) s1 = Inr ((), s')" and red: "reduced = ?off"
    using assms(1) True unfolding offsetPayable_def Let_def by (auto simp: bindE_Inr thenE_Inr uuid_New_def split: if_splits)
  have nz: "p_ID ?p0 \<noteq> uuid_Nil" using runtime_env.new_uuid_not_nil [OF assms(2)] by (simp add: offset_payment_def)
  have h: "find_head (h_TenantID po) (h_ID po) (s\<lparr>draws := Suc (draws s)\<rparr>) = Some h" using assms(3) by simp
  note pb = payment_booked(1) [OF r u nz] payment_booked(2) [OF r u nz h]
  show ?thesis
    by (rule that [of "[stored_payment E (p_ID ?p0) ?p0]"])
       (use True red pb in \<open>auto simp: offset_payment_def head_update_def\<close>)
qed


lemma line_total_grid:
  assumes "runtime_env E" "list_all2 (line_back E t rate returned) xs linked"
  shows "on_grid 2 (line_total (map fst linked))" "x \<in> set linked \<Longrightarrow> on_grid 2 (it_LineAmount (fst x))"
proof -
  have g: "on_grid 2 (it_LineAmount (fst x))" if "x \<in> set linked" for x
    using list_all2_left [OF assms(2) that] dround_grid [OF assms(1)] by (cases x) (auto simp: line_back_def)
  then show "x \<in> set linked \<Longrightarrow> on_grid 2 (it_LineAmount (fst x))" .
  show "on_grid 2 (line_total (map fst linked))" using g unfolding line_total_def by (intro on_grid_sum_list) auto
qed

lemma line_total_nonneg:
  assumes "runtime_env E" "list_all2 (line_back E t rate returned) xs linked" "0 \<le> rate" "\<And>l q. (l, q) \<in> set xs \<Longrightarrow> 0 < q \<and> 0 \<le> it_UnitPrice l"
  shows "0 \<le> line_total (map fst linked)"
proof -
  have "0 \<le> it_LineAmount (fst x)" if x: "x \<in> set linked" for x
  proof -
    obtain l q where lq: "(l, q) \<in> set xs" "line_back E t rate returned (l, q) x" using list_all2_left [OF assms(2) x] by force
    then have "it_LineAmount (fst x) = dround E 2 (q * it_UnitPrice l * rate)" by (cases x) (simp add: line_back_def)
    then show ?thesis using dround_nonneg [OF assms(1)] assms(3) assms(4) [OF lq(1)] by simp
  qed
  then show ?thesis unfolding line_total_def by (intro sum_list_nonneg) auto
qed

lemma base_qty_back:
  assumes "line_back E t rate returned (l, q) x" "on_grid 4 q" "on_grid 0 (factor_of l s)"
  shows "on_grid 4 (base_qty s (fst x))"
proof -
  obtain it i where x: "x = (it, i)" by force
  have k: "it_ProductID it = it_ProductID l" "it_UnitID it = it_UnitID l" "it_Qty it = q" using assms(1) by (auto simp: line_back_def x)
  have "factor_of it s = factor_of l s" unfolding factor_of_def k ..
  then show ?thesis using on_grid_mult [OF assms(2,3)] by (simp add: base_qty_def x k)
qed

definition return_rows :: "uuid \<Rightarrow> uuid \<Rightarrow> db \<Rightarrow> BillItem list" where
  "return_rows t b s = filter (item_of t b) (bill_item s)"

lemma moved_booked:
  assumes "\<And>x. x \<in> set linked \<Longrightarrow> numeric E 4 (it_Qty (fst x)) = it_Qty (fst x)"
  shows "moved s p (map (booked_line E billID) linked) = moved s p (map fst linked)"
proof -
  have "it_ProductID (booked_line E billID x) = it_ProductID (fst x)" "base_qty s (booked_line E billID x) = base_qty s (fst x)" if "x \<in> set linked" for x
    using assms [OF that] by (cases x; simp add: booked_line_def stored_item_def set_head_def base_qty_def factor_of_def cong: option.case_cong)+
  then show ?thesis unfolding moved_def by (induction linked) auto
qed

lemma booked_total:
  assumes "\<And>x. x \<in> set linked \<Longrightarrow> numeric E 4 (it_LineAmount (fst x)) = it_LineAmount (fst x)"
  shows "line_total (map (booked_line E billID) linked) = line_total (map fst linked)"
proof -
  have "it_LineAmount (booked_line E billID x) = it_LineAmount (fst x)" if "x \<in> set linked" for x
    using assms [OF that] by (cases x) (simp add: booked_line_def stored_item_def set_head_def)
  then show ?thesis unfolding line_total_def by (induction linked) auto
qed

text \<open>At most one line of the return points at a line of the purchase, and it fits what is left there.\<close>

lemma linked_sum_le:
  assumes "list_all2 (line_back E t rate returned) xs linked" "distinct (map (it_ID \<circ> fst) xs)"
    and "l \<in> set ls" "fst ` set xs \<subseteq> set ls" "distinct (map it_ID ls)"
  shows "get0 returned (it_ID l) + sum_list (map (it_Qty \<circ> fst) (filter (\<lambda>x. snd x = it_ID l) linked)) \<le> max (it_Qty l) (get0 returned (it_ID l))"
  using assms(1,2,4)
proof (induction xs linked rule: list_all2_induct)
  case (Cons x xs y ys)
  obtain k q where x: "x = (k, q)" by force
  obtain it i where y: "y = (it, i)" by force
  have lb: "i = it_ID k" "q \<le> max (it_Qty k - get0 returned i) 0" "it_Qty it = q" using Cons(1) by (auto simp: line_back_def x y)
  have sub: "fst ` set xs \<subseteq> set ls" "k \<in> set ls" using Cons.prems(2) by (auto simp: x)
  have dist: "distinct (map (it_ID \<circ> fst) xs)" "it_ID k \<notin> (it_ID \<circ> fst) ` set xs" using Cons.prems(1) by (simp_all add: x o_def)
  show ?case
  proof (cases "i = it_ID l")
    case False
    then show ?thesis using Cons.IH [OF dist(1) sub(1)] by (simp add: y)
  next
    case True
    have "k = l" using True lb(1) assms(3,5) sub(2) by (auto simp: distinct_map inj_on_def)
    have "snd z \<noteq> it_ID l" if z: "z \<in> set ys" for z
    proof
      assume "snd z = it_ID l"
      moreover obtain v where v: "v \<in> set xs" "line_back E t rate returned v z" using list_all2_left [OF Cons(2) z] by blast
      ultimately have "(it_ID \<circ> fst) v = it_ID k" using True lb(1) by (auto simp: line_back_def split: prod.splits)
      then show False using dist(2) v(1) by (metis imageI)
    qed
    then have e: "filter (\<lambda>x. snd x = it_ID l) (y # ys) = [y]" using True by (simp add: y filter_empty_conv)
    show ?thesis unfolding e using lb(2,3) True \<open>k = l\<close> by (simp add: y max_def split: if_splits)
  qed
qed simp


lemma find_head_snoc:
  assumes "bill_head s' = bill_head s @ [h]"
  shows "find_head t b s' = (case find_head t b s of None \<Rightarrow> if head_at t b h then Some h else None | Some x \<Rightarrow> Some x)"
proof -
  have "List.find P (xs @ [y]) = (case List.find P xs of None \<Rightarrow> if P y then Some y else None | Some x \<Rightarrow> Some x)" for P and xs :: "BillHead list" and y
    by (induction xs) auto
  then show ?thesis by (simp add: find_head_def assms)
qed

text \<open>What the approved return stands for: a new bill pointing at the purchase, its lines, and the totals per line.\<close>

definition returned_bill :: "uuid \<Rightarrow> uuid \<Rightarrow> db \<Rightarrow> db \<Rightarrow> PurchaseReturnOutput \<Rightarrow> BillHead \<Rightarrow> bool" where
  "returned_bill t b s s' out hr \<longleftrightarrow> find_head t (po_BillID out) s = None \<and> find_head t (po_BillID out) s' = Some hr
     \<and> linked_back BillSubTypePurchaseReturn t b hr \<and> h_BillNo hr = po_BillNo out
     \<and> h_TotalAmount hr = po_ReturnAmount out \<and> line_total (return_rows t (po_BillID out) s') = po_ReturnAmount out
     \<and> (\<forall>l \<in> set (GetBillItems t b s). get0 (PurchaseReturnedQtyByLine t b s') (it_ID l) \<le>
          max (it_Qty l) (get0 (PurchaseReturnedQtyByLine t b s) (it_ID l)))"

lemma line_totals_capped:
  assumes "map return_view (bill_head s') = map return_view (bill_head s) @ [return_view hr]" "linked_back BillSubTypePurchaseReturn t b hr"
    and "bill_item s' = bill_item s @ map (booked_line E (h_ID hr)) linked" "h_ID hr \<notin> h_ID ` set (bill_head s)"
    and "\<forall>i \<in> set (bill_item s). it_HeadID i \<noteq> h_ID hr"
    and "list_all2 (line_back E t rate (PurchaseReturnedQtyByLine t b s)) xs linked" "distinct (map (it_ID \<circ> fst) xs)"
    and "\<And>x. x \<in> set linked \<Longrightarrow> numeric E 4 (it_Qty (fst x)) = it_Qty (fst x)"
    and "fst ` set xs \<subseteq> set (GetBillItems t b s)" "distinct (map it_ID (bill_item s))" "l \<in> set (GetBillItems t b s)"
  shows "get0 (PurchaseReturnedQtyByLine t b s') (it_ID l) \<le> max (it_Qty l) (get0 (PurchaseReturnedQtyByLine t b s) (it_ID l))"
proof -
  let ?sub = "BillSubTypePurchaseReturn" and ?new = "map (booked_line E (h_ID hr)) linked"
  have own: "it_TenantID (fst x) = t" if "x \<in> set linked" for x
    using list_all2_left [OF assms(6) that] by (cases x) (auto simp: line_back_def)
  have j: "joined_items (linked_back ?sub t b) s' = joined_items (linked_back ?sub t b) s @ ?new"
    by (rule joined_items_new [OF assms(1-3) _ assms(4,5)]) (use own in \<open>auto simp: list_all_iff\<close>)
  have q: "sum_list (map it_Qty (filter (\<lambda>i. it_link_item_id i = Some (it_ID l)) ?new)) =
      sum_list (map (it_Qty \<circ> fst) (filter (\<lambda>x. snd x = it_ID l) linked))"
    using assms(8) by (auto simp: filter_map o_def intro!: arg_cong [of _ _ sum_list])
  have d: "distinct (map it_ID (GetBillItems t b s))"
    using assms(10) by (auto simp: GetBillItems_def distinct_map intro: inj_on_subset)
  show ?thesis
    using linked_sum_le [OF assms(6,7,11,9) d] unfolding PurchaseReturnedQtyByLine_def get0_qty_by_link j filter_append map_append sum_list_append q
    by simp
qed


text \<open>The tables after the bill, the movements, the approval and the offset, in that order.\<close>

lemma return_tables:
  assumes "bill_head s4 = bill_head s2 @ [nh]" "\<not> h_deleted nh" "h_ID nh \<notin> h_ID ` set (bill_head s)" "map h_ID (bill_head s2) = map h_ID (bill_head s)"
    and "map return_view (bill_head s2) = map return_view (bill_head s)" "h_TenantID nh = t" "b \<noteq> h_ID nh"
    and "bill_head s' = (if c then bill_head (head_update t b (set_paid E paid) (head_update t (h_ID nh) (set_approved E who) s4))
                         else bill_head (head_update t (h_ID nh) (set_approved E who) s4))"
  shows "map return_view (bill_head s') = map return_view (bill_head s) @ [return_view (set_approved E who nh)]"
    "find_head t (h_ID nh) s' = Some (set_approved E who nh)" "find_head t (h_ID nh) s = None"
    "\<forall>t' b'. (t', b') \<noteq> (t, b) \<and> (t', b') \<noteq> (t, h_ID nh) \<longrightarrow> find_head t' b' s' = find_head t' b' s2"
    "find_head t b s' = (if c then map_option (set_paid E paid) (find_head t b s2) else find_head t b s2)"
proof -
  let ?hr = "set_approved E who nh" and ?s5 = "head_update t (h_ID nh) (set_approved E who) s4"
  have ids: "h_ID ` set (bill_head s2) = h_ID ` set (bill_head s)" using assms(4) by (metis list.set_map)
  have old: "\<not> head_at t (h_ID nh) x" if "x \<in> set (bill_head s2)" for x using assms(3) imageI [OF that, of h_ID] by (auto simp: ids head_at_def)
  have "update_where (head_at t (h_ID nh)) f (bill_head s2) = bill_head s2" for f by (rule update_where_none) (rule old)
  then have h5: "bill_head ?s5 = bill_head s2 @ [?hr]"
    using assms(2,6) by (simp add: head_update_def assms(1) update_where_append) (simp add: update_where_def head_at_def)
  have v: "map return_view (bill_head (head_update t b (set_paid E paid) x)) = map return_view (bill_head x)" for x
    by (auto simp: head_update_def set_paid_def return_view_def intro!: map_update_where_key)
  show "map return_view (bill_head s') = map return_view (bill_head s) @ [return_view ?hr]"
    using assms(5,8) by (simp add: v h5)
  have n2: "find_head t (h_ID nh) s2 = None" using old by (auto simp: find_head_def find_None_iff)
  show "find_head t (h_ID nh) s = None" using assms(3) by (auto simp: find_head_def find_None_iff head_at_def) (metis imageI)
  have f': "find_head t' b' s' = (if c then find_head t' b' (head_update t b (set_paid E paid) ?s5) else find_head t' b' ?s5)" for t' b'
    using assms(8) by (simp add: find_head_def)
  have hr: "head_at t' b' ?hr \<longleftrightarrow> (t', b') = (t, h_ID nh)" for t' b' using assms(2,6) by (auto simp: head_at_def set_approved_def)
  note f5 = find_head_snoc [OF h5, unfolded hr]
  show "find_head t (h_ID nh) s' = Some ?hr"
    using assms(7) by (simp add: f' find_head_head_update f5 n2)
  show "\<forall>t' b'. (t', b') \<noteq> (t, b) \<and> (t', b') \<noteq> (t, h_ID nh) \<longrightarrow> find_head t' b' s' = find_head t' b' s2"
    by (auto simp: f' find_head_head_update f5 split: option.splits)
  show "find_head t b s' = (if c then map_option (set_paid E paid) (find_head t b s2) else find_head t b s2)"
    using assms(7) by (auto simp: f' find_head_head_update f5 split: option.splits)
qed


text \<open>What the return does to the purchase and the supplier's account.\<close>

definition payable_offset :: "bool \<Rightarrow> uuid \<Rightarrow> uuid \<Rightarrow> db \<Rightarrow> db \<Rightarrow> BillHead \<Rightarrow> PurchaseReturnOutput \<Rightarrow> bool" where
  "payable_offset payments t b s s' po out \<longleftrightarrow>
     po_PayableReduced out = (if payments then min (po_ReturnAmount out) (max (h_TotalAmount po - h_PaidAmount po) 0) else 0)
     \<and> po_SupplierOwes out = po_ReturnAmount out - po_PayableReduced out
     \<and> (\<exists>po' ps. find_head t b s' = Some po' \<and> h_TotalAmount po' = h_TotalAmount po
          \<and> h_PaidAmount po' = h_PaidAmount po + po_PayableReduced out \<and> h_Status po' = StatusApproved
          \<and> (h_PaidAmount po \<le> h_TotalAmount po \<longrightarrow> h_PaidAmount po' \<le> h_TotalAmount po)
          \<and> payment_head s' = payment_head s @ ps \<and> sum_list (map p_Amount ps) = po_PayableReduced out)"

context stock_executor
begin

lemma return_staged:
  assumes "runtime_env E" "units_ok s" "book_on_grid s" "bills_ok E s"
    and po: "find_head (pq_TenantID req) (pq_PurchaseBillID req) s = Some po"
    and g: "list_all line_wanted (pq_Items req)" "purchase_lines_ok s (GetBillItems (pq_TenantID req) (pq_PurchaseBillID req) s)"
    and li: "purchase_return_lines E req (scanBillHead po) s = Inr (linked, s1)"
    and wh: "resolveApprovalWarehouse E (scanBillHead po) (pq_TenantID req) (pq_PurchaseBillID req) s1 = Inr (w, s2)"
    and bo: "purchase_return_book E req (scanBillHead po) w linked s2 = Inr ((billID, billNo), s3)"
    and se: "forE (send_back E True exec req billID w (return_rate (scanBillHead po))) (map fst linked) s3 = Inr (snaps, s4)"
  obtains xs h1 nh where "distinct (map (it_ID \<circ> fst) xs)" "list_all (\<lambda>(l, q). l \<in> set (GetBillItems (pq_TenantID req) (pq_PurchaseBillID req) s) \<and> 0 < q \<and> on_grid 4 q) xs"
    "list_all2 (line_back E (pq_TenantID req) (return_rate (scanBillHead po)) (PurchaseReturnedQtyByLine (pq_TenantID req) (pq_PurchaseBillID req) s)) xs linked"
    "\<forall>x \<in> set linked. it_TenantID (fst x) = pq_TenantID req \<and> on_grid 4 (it_Qty (fst x))" "approval_warehouse po s = Some w"
    "find_head (pq_TenantID req) (pq_PurchaseBillID req) s2 = Some h1" "h_Status h1 = h_Status po" "h_PaidAmount h1 = h_PaidAmount po" "h_TotalAmount h1 = h_TotalAmount po"
    "\<forall>t' b'. (t', b') \<noteq> (pq_TenantID req, pq_PurchaseBillID req) \<longrightarrow> find_head t' b' s2 = find_head t' b' s"
    "map return_view (bill_head s2) = map return_view (bill_head s)" "map h_ID (bill_head s2) = map h_ID (bill_head s)"
    "billID \<notin> h_ID ` set (bill_head s)" "h_ID nh = billID" "h_TenantID nh = pq_TenantID req" "\<not> h_deleted nh"
    "h_SubType nh = BillSubTypePurchaseReturn" "h_link_bill_id nh = Some (pq_PurchaseBillID req)" "h_BillNo nh = billNo"
    "h_TotalAmount nh = numeric E 4 (line_total (map fst linked))" "\<forall>i \<in> set (bill_item s). it_HeadID i \<noteq> billID"
    "bill_head s4 = bill_head s2 @ [nh]" "bill_item s4 = bill_item s @ map (booked_line E billID) linked" "payment_head s4 = payment_head s"
    "\<forall>p. on_hand (pq_TenantID req) p w s4 = on_hand (pq_TenantID req) p w s - moved s p (map fst linked)"
    "\<forall>t' p w'. (t', w') \<noteq> (pq_TenantID req, w) \<longrightarrow> on_hand t' p w' s4 = on_hand t' p w' s"
    "\<forall>p \<in> it_ProductID ` set (map fst linked). 0 \<le> on_hand (pq_TenantID req) p w s4"
proof -
  let ?t = "pq_TenantID req" and ?b = "pq_PurchaseBillID req" and ?P = "scanBillHead po"
  let ?rate = "return_rate ?P" and ?ret = "PurchaseReturnedQtyByLine (pq_TenantID req) (pq_PurchaseBillID req) s"
  obtain xs where d: "distinct (map (it_ID \<circ> fst) xs)"
    and xs: "list_all (\<lambda>(l, q). l \<in> set (GetBillItems ?t ?b s) \<and> 0 < q \<and> on_grid 4 q) xs"
    and lb: "list_all2 (line_back E ?t ?rate ?ret) xs linked"
    and ids: "map (it_ID \<circ> fst) linked = map (new_uuid E) [draws s ..< draws s + length linked]"
    and s1: "s1 = s\<lparr>draws := draws s + length linked\<rparr>"
    using li g(1) by (rule purchase_return_lines_Inr)
  have src: "\<exists>l q. (l, q) \<in> set xs \<and> line_back E ?t ?rate ?ret (l, q) x" if "x \<in> set linked" for x
    using list_all2_left [OF lb that] by force
  have lk: "it_TenantID (fst x) = ?t \<and> on_grid 4 (it_Qty (fst x)) \<and> on_grid 4 (base_qty s (fst x))" if x: "x \<in> set linked" for x
  proof -
    obtain l q where lq: "(l, q) \<in> set xs" "line_back E ?t ?rate ?ret (l, q) x" using src [OF x] by blast
    then have "on_grid 4 q" "on_grid 0 (factor_of l s)" using xs g(2) by (auto simp: list_all_iff purchase_lines_ok_def)
    then show ?thesis using base_qty_back [OF lq(2)] lq(2) by (cases x) (auto simp: line_back_def)
  qed
  have p1: "find_head ?t ?b s1 = Some po" using po by (simp add: s1 find_head_def)
  obtain h1 where w: "approval_warehouse po s1 = Some w" and h1: "find_head ?t ?b s2 = Some h1" "h_Status h1 = h_Status po"
      "h_PaidAmount h1 = h_PaidAmount po" "h_TotalAmount h1 = h_TotalAmount po"
    and o1: "\<forall>t' b'. (t', b') \<noteq> (?t, ?b) \<longrightarrow> find_head t' b' s2 = find_head t' b' s1"
    and s2: "s2 = s1 \<or> s2 = head_update ?t ?b (set_warehouse E w) s1"
    using wh p1 by (rule resolved_warehouse)
  have v2: "map return_view (bill_head s2) = map return_view (bill_head s)" "map h_ID (bill_head s2) = map h_ID (bill_head s)"
    and fr2: "bill_item s2 = bill_item s" "bill_sequence s2 = bill_sequence s" "draws s2 = draws s + length linked" "stock_snapshot s2 = stock_snapshot s"
      "payment_head s2 = payment_head s" "product_unit s2 = product_unit s" "product s2 = product s"
    using s2 warehouse_same_returns [of ?t ?b E w s1] head_update_ids [of "set_warehouse E w" ?t ?b s1]
    by (auto simp: s1 head_update_def set_warehouse_def intro!: map_update_where_key)
  have own: "list_all (\<lambda>x. it_TenantID (fst x) = ?t) linked" using lk by (simp add: list_all_iff)
  have s2': "s2 = s2\<lparr>draws := draws s + length linked\<rparr>" using fr2(3) by simp
  obtain nh where nh: "billID \<notin> h_ID ` set (bill_head s)" "h_ID nh = billID" "h_TenantID nh = ?t" "h_Status nh = StatusDraft" "\<not> h_deleted nh"
    "h_SubType nh = BillSubTypePurchaseReturn" "h_link_bill_id nh = Some ?b" "h_BillNo nh = billNo"
    "h_TotalAmount nh = numeric E 4 (line_total (map fst linked))" "h_PaidAmount nh = 0"
    and h3: "bill_head s3 = bill_head s2 @ [nh]" and i3: "bill_item s3 = bill_item s @ map (booked_line E billID) linked"
    and b3: "beyond_bills s3 = beyond_bills s2" and no: "\<forall>i \<in> set (bill_item s). it_HeadID i \<noteq> billID"
    using assms(1,4) ids bo s2' v2(2) fr2(1,2) own by (rule purchase_return_book_Inr)
  note fr3 = beyond_billsD [OF b3]
  have same3: "on_hand t p w' s3 = on_hand t p w' s" "base_qty s3 it = base_qty s it" "units_ok s3" "moved s3 p its = moved s p its" for t p w' it its
    using fr3 fr2 assms(2) by (auto simp: on_hand_def GetSnapshot_def units_ok_def intro!: base_qty_frame moved_frame)
  have S: "(\<forall>p. on_hand ?t p w s4 = on_hand ?t p w s - moved s p (map fst linked))
    \<and> (\<forall>t' p w'. (t', w') \<noteq> (?t, w) \<longrightarrow> on_hand t' p w' s4 = on_hand t' p w' s) \<and> beyond_stock s4 = beyond_stock s3
    \<and> (\<forall>p \<in> it_ProductID ` set (map fst linked). 0 \<le> on_hand ?t p w s4)"
    by (rule sent_lines [OF assms(1) same3(3) se, unfolded same3]) (use lk on_hand_grid [OF assms(3)] in auto)
  note fr4 = beyond_stockD [OF conjunct1 [OF conjunct2 [OF conjunct2 [OF S]]]]
  have w': "approval_warehouse po s = Some w" using w by (simp add: approval_warehouse_def s1 DefaultWarehouseID_def cong: option.case_cong)
  have o': "\<forall>t' b'. (t', b') \<noteq> (?t, ?b) \<longrightarrow> find_head t' b' s2 = find_head t' b' s" using o1 by (simp add: s1 find_head_def)
  have h4: "bill_head s4 = bill_head s2 @ [nh]" "bill_item s4 = bill_item s @ map (booked_line E billID) linked" "payment_head s4 = payment_head s"
    using fr4(1,2,4) h3 i3 fr3(2) fr2(5) by simp_all
  have lk': "\<forall>x \<in> set linked. it_TenantID (fst x) = ?t \<and> on_grid 4 (it_Qty (fst x))" using lk by blast
  show ?thesis
    by (rule that [OF d xs lb lk' w' h1 o' v2 nh(1-3,5-9) no h4]) (use S in blast)+
qed

lemma sent_return:
  assumes "runtime_env E" "units_ok s" "book_on_grid s" "bills_ok E s" "purchase_return_tx E True payments exec req s = Inr (out, s')"
    and po: "find_head (pq_TenantID req) (pq_PurchaseBillID req) s = Some po" "on_grid 4 (h_TotalAmount po)" "on_grid 4 (h_PaidAmount po)"
    and g: "list_all line_wanted (pq_Items req)" "purchase_lines_ok s (GetBillItems (pq_TenantID req) (pq_PurchaseBillID req) s)"
  obtains w hr where "approval_warehouse po s = Some w" "purchase_returnable po"
    "returned_bill (pq_TenantID req) (pq_PurchaseBillID req) s s' out hr"
    "payable_offset payments (pq_TenantID req) (pq_PurchaseBillID req) s s' po out"
    "\<forall>p. on_hand (pq_TenantID req) p w s' = on_hand (pq_TenantID req) p w s - moved s p (return_rows (pq_TenantID req) (po_BillID out) s')"
    "\<forall>i \<in> set (return_rows (pq_TenantID req) (po_BillID out) s'). 0 \<le> on_hand (pq_TenantID req) (it_ProductID i) w s'"
    "\<forall>t p w'. (t, w') \<noteq> (pq_TenantID req, w) \<longrightarrow> on_hand t p w' s' = on_hand t p w' s"
    "\<forall>t b. (t, b) \<noteq> (pq_TenantID req, pq_PurchaseBillID req) \<and> (t, b) \<noteq> (pq_TenantID req, po_BillID out) \<longrightarrow> find_head t b s' = find_head t b s"
proof -
  let ?t = "pq_TenantID req" and ?b = "pq_PurchaseBillID req" and ?P = "scanBillHead po"
  let ?rate = "return_rate ?P" and ?ret = "PurchaseReturnedQtyByLine (pq_TenantID req) (pq_PurchaseBillID req) s"
  obtain linked s1 w s2 billID billNo s3 snaps s4 reduced where rt: "purchase_returnable po"
    and li: "purchase_return_lines E req ?P s = Inr (linked, s1)"
    and wh: "resolveApprovalWarehouse E ?P ?t ?b s1 = Inr (w, s2)"
    and bo: "purchase_return_book E req ?P w linked s2 = Inr ((billID, billNo), s3)"
    and se: "forE (send_back E True exec req billID w ?rate) (map fst linked) s3 = Inr (snaps, s4)"
    and ofs: "offsetPayable E payments ?P billNo (pq_CreatorID req) (line_total (map fst linked))
       (head_update ?t billID (set_approved E (pq_CreatorID req)) s4) = Inr (reduced, s')"
    and out: "out = \<lparr> po_BillID = billID, po_BillNo = billNo, po_ReturnAmount = line_total (map fst linked), po_PayableReduced = reduced,
       po_SupplierOwes = line_total (map fst linked) - reduced \<rparr>"
    using assms(5) po(1) by (rule purchase_return_tx_Inr)
  obtain xs h1 nh where d: "distinct (map (it_ID \<circ> fst) xs)"
    and xs: "list_all (\<lambda>(l, q). l \<in> set (GetBillItems ?t ?b s) \<and> 0 < q \<and> on_grid 4 q) xs"
    and lb: "list_all2 (line_back E ?t ?rate ?ret) xs linked"
    and lk: "\<forall>x \<in> set linked. it_TenantID (fst x) = ?t \<and> on_grid 4 (it_Qty (fst x))" and w: "approval_warehouse po s = Some w"
    and h1: "find_head ?t ?b s2 = Some h1" "h_Status h1 = h_Status po" "h_PaidAmount h1 = h_PaidAmount po" "h_TotalAmount h1 = h_TotalAmount po"
    and o': "\<forall>t' b'. (t', b') \<noteq> (?t, ?b) \<longrightarrow> find_head t' b' s2 = find_head t' b' s"
    and v2: "map return_view (bill_head s2) = map return_view (bill_head s)" "map h_ID (bill_head s2) = map h_ID (bill_head s)"
    and nh: "billID \<notin> h_ID ` set (bill_head s)" "h_ID nh = billID" "h_TenantID nh = ?t" "\<not> h_deleted nh"
      "h_SubType nh = BillSubTypePurchaseReturn" "h_link_bill_id nh = Some ?b" "h_BillNo nh = billNo"
      "h_TotalAmount nh = numeric E 4 (line_total (map fst linked))" and no: "\<forall>i \<in> set (bill_item s). it_HeadID i \<noteq> billID"
    and h4: "bill_head s4 = bill_head s2 @ [nh]" and i4: "bill_item s4 = bill_item s @ map (booked_line E billID) linked" and p4: "payment_head s4 = payment_head s"
    and S: "\<forall>p. on_hand ?t p w s4 = on_hand ?t p w s - moved s p (map fst linked)"
      "\<forall>t' p w'. (t', w') \<noteq> (?t, w) \<longrightarrow> on_hand t' p w' s4 = on_hand t' p w' s"
      "\<forall>p \<in> it_ProductID ` set (map fst linked). 0 \<le> on_hand ?t p w s4"
    by (rule return_staged [OF assms(1-4) po(1) g li wh bo se])
  have own: "list_all (\<lambda>x. it_TenantID (fst x) = ?t) linked" using lk by (simp add: list_all_iff)
  have key: "h_TenantID po = ?t" "h_ID po = ?b" "?b \<noteq> billID" using find_head_key [OF po(1)] nh(1) by auto (metis imageI)
  let ?s5 = "head_update ?t billID (set_approved E (pq_CreatorID req)) s4"
  have f5: "find_head (h_TenantID ?P) (h_ID ?P) ?s5 = Some h1"
    using key find_head_snoc [OF h4] h1(1) by (simp add: find_head_head_update)
  note am = line_total_grid [OF assms(1) lb]
  have amn: "0 \<le> line_total (map fst linked)"
    by (rule line_total_nonneg [OF assms(1) lb]) (use xs g(2) in \<open>auto simp: list_all_iff purchase_lines_ok_def return_rate_def\<close>)
  obtain ps where red: "reduced = (if payments then min (line_total (map fst linked)) (max (h_TotalAmount ?P - h_PaidAmount ?P) 0) else 0)"
    and pay: "payment_head s' = payment_head ?s5 @ ps" "sum_list (map p_Amount ps) = (if 0 < reduced then numeric E 4 reduced else 0)"
    and hs: "bill_head s' = (if 0 < reduced then bill_head (head_update (h_TenantID ?P) (h_ID ?P) (set_paid E (h_PaidAmount ?P + reduced)) ?s5) else bill_head ?s5)"
    and it: "bill_item s' = bill_item ?s5" and ss: "stock_snapshot s' = stock_snapshot ?s5"
    and cap: "0 < reduced \<longrightarrow> numeric E 4 (h_PaidAmount ?P + reduced) \<le> h_TotalAmount h1"
    using ofs assms(1) f5 amn by (rule offsetPayable_Inr)
  let ?hr = "set_approved E (pq_CreatorID req) nh"
  have T: "map return_view (bill_head s') = map return_view (bill_head s) @ [return_view ?hr]"
    "find_head ?t billID s' = Some ?hr" "find_head ?t billID s = None"
    "\<forall>t' b'. (t', b') \<noteq> (?t, ?b) \<and> (t', b') \<noteq> (?t, billID) \<longrightarrow> find_head t' b' s' = find_head t' b' s2"
    "find_head ?t ?b s' = (if 0 < reduced then map_option (set_paid E (h_PaidAmount po + reduced)) (find_head ?t ?b s2) else find_head ?t ?b s2)"
    using return_tables [OF h4 nh(4) _ v2(2,1) nh(3), of ?b s' "0 < reduced" E "h_PaidAmount po + reduced" "pq_CreatorID req"] hs nh(1,2) key by auto
  have i': "bill_item s' = bill_item s @ map (booked_line E billID) linked" using it i4 by simp
  have rows: "return_rows ?t billID s' = map (booked_line E billID) linked"
    using no own by (auto simp: return_rows_def i' item_of_def list_all_iff filter_empty_conv filter_id_conv)
  have oh: "on_hand t p w' s' = on_hand t p w' s4" for t p w' using ss by (simp add: on_hand_def GetSnapshot_def)
  have nq: "numeric E 4 (it_Qty (fst x)) = it_Qty (fst x)" "numeric E 4 (it_LineAmount (fst x)) = it_LineAmount (fst x)" if "x \<in> set linked" for x
    using bspec [OF lk that] on_grid_mono [OF am(2) [OF that], of 4] numeric_fix [OF assms(1)] by auto
  have tot: "numeric E 4 (line_total (map fst linked)) = line_total (map fst linked)"
    by (rule numeric_fix [OF assms(1) on_grid_mono [OF am(1)]]) simp
  have rg: "on_grid 4 reduced" unfolding red using po(2,3) on_grid_mono [OF am(1), of 4] by auto
  have paid: "numeric E 4 (h_PaidAmount po + reduced) = h_PaidAmount po + reduced" "numeric E 4 reduced = reduced"
    using numeric_fix [OF assms(1)] po(3) rg by auto
  have rn: "0 \<le> reduced" using amn by (simp add: red)
  have sub: "fst ` set xs \<subseteq> set (GetBillItems ?t ?b s)" using xs by (auto simp: list_all_iff)
  have hr: "linked_back BillSubTypePurchaseReturn ?t ?b ?hr" "h_ID ?hr = billID" "h_BillNo ?hr = billNo" "h_TotalAmount ?hr = line_total (map fst linked)"
    using nh tot by (auto simp: linked_back_def set_approved_def)
  note capped = line_totals_capped [OF T(1) hr(1) _ _ _ lb d nq(1) sub bills_okD(3) [OF assms(4)], unfolded hr(2), OF i' nh(1) no]
  have B: "returned_bill ?t ?b s s' out ?hr"
    unfolding returned_bill_def out PurchaseReturnOutput.simps rows using T(2,3) hr capped booked_total [OF nq(2)] by simp
  let ?po = "if 0 < reduced then set_paid E (h_PaidAmount po + reduced) h1 else h1"
  have po': "find_head ?t ?b s' = Some ?po" "h_TotalAmount ?po = h_TotalAmount po" "h_PaidAmount ?po = h_PaidAmount po + reduced" "h_Status ?po = StatusApproved"
    using T(5) h1 rt paid(1) rn by (auto simp: set_paid_def purchase_returnable_def)
  have le: "h_PaidAmount po \<le> h_TotalAmount po \<longrightarrow> h_PaidAmount po + reduced \<le> h_TotalAmount po" by (simp add: red min_def max_def)
  have pp: "payment_head s' = payment_head s @ ps" "sum_list (map p_Amount ps) = reduced"
    using pay paid(2) rn p4 by auto
  have D: "payable_offset payments ?t ?b s s' po out"
    unfolding payable_offset_def out PurchaseReturnOutput.simps
    using red po' le pp by (intro conjI exI [of _ ?po] exI [of _ ps]) (simp_all only: scanBillHead_simps refl simp_thms)
  show ?thesis
    by (rule that [OF w rt B D]) (use S oh moved_booked [OF nq(1)] rows T(4) o' in \<open>auto simp: out\<close>)
qed

end


text \<open>
  C20: what goes back to a supplier balances.  A purchase return that commits has booked one approved
  bill linked to the purchase, whose total is that of its lines; per purchase line what has gone back
  in all stays within what was bought; the warehouse gives up exactly what the lines hold and no
  product of it ends below zero; what was still owed on the purchase is reduced by the lesser of
  the return and the debt, the payment rows sum to that and the purchase is not overpaid; no other
  bill or book row changes.  A return that fails changes nothing.
\<close>

theorem purchase_return_books:
  assumes "runtime_env E" "units_ok s" "book_on_grid s" "bills_ok E s"
    and "find_head (pq_TenantID req) (pq_PurchaseBillID req) s = Some po" "on_grid 4 (h_TotalAmount po)" "on_grid 4 (h_PaidAmount po)"
    and "list_all (\<lambda>it. on_grid 4 (rl_Qty it)) (pq_Items req)" "purchase_lines_ok s (GetBillItems (pq_TenantID req) (pq_PurchaseBillID req) s)"
  shows "case PurchaseReturn_Execute E True payments (RecordMovement_ExecuteInTx E (executor_of E profile outbox)) req s of
      (Inl e, s') \<Rightarrow> s' = s
    | (Inr out, s') \<Rightarrow> \<exists>w hr. approval_warehouse po s = Some w \<and> purchase_returnable po
        \<and> returned_bill (pq_TenantID req) (pq_PurchaseBillID req) s s' out hr
        \<and> payable_offset payments (pq_TenantID req) (pq_PurchaseBillID req) s s' po out
        \<and> (\<forall>p. on_hand (pq_TenantID req) p w s' = on_hand (pq_TenantID req) p w s - moved s p (return_rows (pq_TenantID req) (po_BillID out) s'))
        \<and> (\<forall>i \<in> set (return_rows (pq_TenantID req) (po_BillID out) s'). 0 \<le> on_hand (pq_TenantID req) (it_ProductID i) w s')
        \<and> (\<forall>t p w'. (t, w') \<noteq> (pq_TenantID req, w) \<longrightarrow> on_hand t p w' s' = on_hand t p w' s)
        \<and> (\<forall>t b. (t, b) \<noteq> (pq_TenantID req, pq_PurchaseBillID req) \<and> (t, b) \<noteq> (pq_TenantID req, po_BillID out) \<longrightarrow>
             find_head t b s' = find_head t b s)"
proof -
  let ?exec = "RecordMovement_ExecuteInTx E (executor_of E profile outbox)"
  let ?m = "thenE (liftE (purchase_return_checks req)) (purchase_return_tx E True payments ?exec req)"
  show ?thesis
  proof (cases "?m s")
    case (Inl e)
    then show ?thesis by (simp add: PurchaseReturn_Execute_def runTx_def)
  next
    case (Inr x)
    then obtain out s' where m: "?m s = Inr (out, s')" by (cases x) auto
    then have tx: "purchase_return_tx E True payments ?exec req s = Inr (out, s')" and c: "purchase_return_checks req = Inr ()"
      by (auto simp: thenE_def bindE_liftE_Inr)
    have "list_all line_wanted (pq_Items req)"
      using c assms(8) by (auto simp: purchase_return_checks_def line_wanted_def list_all_iff list_ex_iff split: if_splits)
    note k = new_exec.sent_return [OF assms(1-4) tx assms(5-7) this assms(9)]
    have x: "PurchaseReturn_Execute E True payments ?exec req s = (Inr out, s')" using m by (simp add: PurchaseReturn_Execute_def runTx_def)
    show ?thesis unfolding x prod.case sum.case by (rule k, intro exI conjI)
  qed
qed

section \<open>Examples\<close>

definition demo_received :: db where
  "demo_received = demo_shop\<lparr>bill_head := [demo_po\<lparr>h_Status := StatusApproved, h_PaidAmount := 355, h_BillNo := bill_number ''PO-20260423'' 1\<rparr>],
     bill_item := [demo_line], stock_snapshot := [demo_snapshot],
     bill_sequence := [\<lparr> seq_id = 1002, seq_tenant_id = 11, seq_prefix = ''PO-20260423'', seq_current_val = 1 \<rparr>], draws := 3\<rparr>"

definition demo_send_back :: PurchaseReturnRequest where
  "demo_send_back = \<lparr> pq_TenantID = 11, pq_CreatorID = 15, pq_PurchaseBillID = 1001,
     pq_Items = [\<lparr> rl_BillItemID = 1000, rl_Qty = 1 \<rparr>], pq_Remark = [] \<rparr>"

abbreviation demo_received_po :: BillHead where
  "demo_received_po \<equiv> demo_po\<lparr>h_Status := StatusApproved, h_PaidAmount := 355, h_BillNo := bill_number ''PO-20260423'' 1\<rparr>"

lemma demo_received_facts:
  "units_ok demo_received" "book_on_grid demo_received" "find_head 11 1001 demo_received = Some demo_received_po"
  "GetBillItems 11 1001 demo_received = [demo_line]" "purchase_lines_ok demo_received [demo_line]" "approval_warehouse demo_received_po demo_received = Some 13"
  by (simp_all add: units_ok_def book_on_grid_def find_head_def head_at_def GetBillItems_def item_of_def purchase_lines_ok_def factor_of_def
      GetConversionFactor_def approval_warehouse_def demo_received_def demo_bill_defs)

lemma demo_received_ok: "bills_ok std_env demo_received"
proof -
  have rows: "bill_head demo_received = [demo_received_po]" "bill_item demo_received = [demo_line]" "draws demo_received = 3"
    "seq_val 11 ''PO-20260423'' demo_received = 1"
    by (simp_all add: demo_received_def seq_val_def seq_at_def)
  have h: "h_ID demo_received_po = 1001" "h_TenantID demo_received_po = 11" "h_BillNo demo_received_po = bill_number ''PO-20260423'' 1"
    "h_PaidAmount demo_received_po = 355" "h_TotalAmount demo_received_po = 455" "it_ID demo_line = 1000" "it_HeadID demo_line = 1001"
    by (simp_all add: demo_po_def demo_line_def)
  have d: "drawn std_env demo_received 1000" "drawn std_env demo_received 1001"
    unfolding drawn_def rows by (rule exI [of _ 0], simp add: std_env_def) (rule exI [of _ 1], simp add: std_env_def)
  have "numbered demo_received" unfolding numbered_def rows using h(2,3) rows(4)
    by (simp only: list.set ball_simps) (intro conjI TrueI exI [of _ "''PO-20260423''"] exI [of _ "1 :: nat"]; simp)
  then show ?thesis unfolding bills_ok_def rows using d by (simp only: list.simps list.set distinct.simps ball_simps h simp_thms) (simp add: demo_po_def)
qed

lemma demo_send_back_accepted:
  "case PurchaseReturn_Execute std_env True True demo_exec demo_send_back demo_received of (Inl _, _) \<Rightarrow> False
     | (Inr out, _) \<Rightarrow> po_ReturnAmount out = 140"
  by code_simp

theorem purchase_return_books_witness:
  "\<exists>out s' po'. PurchaseReturn_Execute std_env True True demo_exec demo_send_back demo_received = (Inr out, s')
     \<and> po_PayableReduced out = 100 \<and> po_SupplierOwes out = 40 \<and> find_head 11 1001 s' = Some po' \<and> h_PaidAmount po' = 455"
proof -
  obtain out s' where r: "PurchaseReturn_Execute std_env True True demo_exec demo_send_back demo_received = (Inr out, s')"
    and a: "po_ReturnAmount out = 140"
    using demo_send_back_accepted by (auto split: prod.splits sum.splits)
  have k: "pq_TenantID demo_send_back = 11" "pq_PurchaseBillID demo_send_back = 1001"
    "list_all (\<lambda>it. on_grid 4 (rl_Qty it)) (pq_Items demo_send_back)" by (simp_all add: demo_send_back_def)
  note f = demo_received_facts
  have g: "on_grid 4 (h_TotalAmount demo_received_po)" "on_grid 4 (h_PaidAmount demo_received_po)" by (simp_all add: demo_po_def)
  have "payable_offset True 11 1001 demo_received s' demo_received_po out"
    using purchase_return_books [of std_env demo_received demo_send_back demo_received_po True None True, unfolded k(1,2) f(4),
      OF std_runtime f(1,2) demo_received_ok f(3) g k(3) f(5)] unfolding r by auto
  then show ?thesis using r a by (auto simp: payable_offset_def demo_po_def)
qed

end
