(* ===== verification/Sale_Returns.thy ===== *)
theory Sale_Returns
  imports Returns
begin

text \<open>
  The sale an approved return counts against, as the receivables, the partner ledger and the invoice registry
  resolve it in SQL (\<open>saleReturnsCTE\<close>, \<open>internal/adapter/repo/bill/receivables.go\<close>): its link, else the
  sale named at the end of a cancellation remark, else the bill of the order named by a refund remark.
\<close>

text \<open>The strict 8-4-4-4-12 shape of an id at the end of a cancellation remark.\<close>

definition hex_digit :: "char \<Rightarrow> bool" where
  "hex_digit c = (c \<in> set ''0123456789abcdefABCDEF'')"

definition uuid_shape :: "string \<Rightarrow> bool" where
  "uuid_shape u \<longleftrightarrow> length u = 36
     \<and> list_all (\<lambda>(i, c). if i \<in> set [8, 13, 18, 23] then c = CHR ''-'' else hex_digit c) (enumerate 0 u)"

definition cancel_origin :: "env \<Rightarrow> string \<Rightarrow> uuid option" where
  "cancel_origin E remark =
     (let k = length remark - 36; body = take k remark; u = drop k remark
      in if prefix ''cancel:'' body \<and> suffix '':original_bill_id='' (drop 7 body) \<and> uuid_shape u then uuid_Parse E u else None)"

definition refund_origin :: "string \<Rightarrow> (string \<times> string) option" where
  "refund_origin remark =
     (if \<not> sql_like ''refund:%:refund_id=%'' remark then None
      else case CutPrefix remark ''refund:'' of
        None \<Rightarrow> None
      | Some rest \<Rightarrow>
          (case Cut rest '':'' of
             None \<Rightarrow> None
           | Some (platform, tail) \<Rightarrow> map_option (\<lambda>e. (platform, take e tail)) (LastIndex tail refundIDKey)))"

text \<open>\<open>saleReturnsCTE\<close>: the one sale an approved return counts against; a link wins.\<close>

definition return_sale_id :: "env \<Rightarrow> db \<Rightarrow> BillHead \<Rightarrow> uuid option" where
  "return_sale_id E s h =
     (case h_link_bill_id h of
        Some l \<Rightarrow> Some l
      | None \<Rightarrow>
          (case cancel_origin E (h_Remark h) of
             Some i \<Rightarrow> Some i
           | None \<Rightarrow> (case refund_origin (h_Remark h) of
                       None \<Rightarrow> None | Some (platform, no) \<Rightarrow> ImportedOrderBillID (h_TenantID h) platform no s)))"

text \<open>\<open>rt\<close> and \<open>rsum\<close>: the approved returns of a sale that \<open>extra\<close> admits, and what they take off it.\<close>

definition returns_of :: "env \<Rightarrow> uuid \<Rightarrow> (BillHead \<Rightarrow> bool) \<Rightarrow> db \<Rightarrow> uuid \<Rightarrow> BillHead list" where
  "returns_of E t extra s b =
     filter (\<lambda>h. h_TenantID h = t \<and> h_SubType h = BillSubTypeSaleReturn \<and> h_Status h = StatusApproved
       \<and> \<not> h_deleted h \<and> extra h \<and> return_sale_id E s h = Some b) (bill_head s)"

definition sale_returns :: "env \<Rightarrow> uuid \<Rightarrow> (BillHead \<Rightarrow> bool) \<Rightarrow> db \<Rightarrow> uuid \<Rightarrow> rat" where
  "sale_returns E t extra s b = sum_list (map h_TotalAmount (returns_of E t extra s b))"

end
