(* ===== verification/Payments.thy ===== *)
theory Payments
  imports Sale_Returns
begin

text \<open>
  Money received and paid (\<open>internal/app/payment/record.go\<close>, \<open>receipt.go\<close>, \<open>list.go\<close>,
  \<open>statement.go\<close>) and the partner ledger behind it
  (\<open>internal/adapter/repo/bill/ledger.go\<close>, \<open>receivables.go\<close>): one payment against one bill, a lump
  sum spread over a partner's oldest open bills, and the dated account of a partner.
\<close>

section \<open>Recording a payment\<close>

definition payment_resolvePayType :: "string \<Rightarrow> err + PayType" where
  "payment_resolvePayType method =
     (if method = [] then Inr PayTypeCash
      else case PayType_Validate method of
        Inl _ \<Rightarrow> Inl (Wrap method ErrInvalidPayType)
      | Inr _ \<Rightarrow> if method = PayTypeCredit then Inl ErrCreditNotPayment else Inr method)"

record RecordPaymentRequest =
  rp_TenantID :: uuid
  rp_BillID :: uuid
  rp_CreatorID :: uuid
  rp_Amount :: rat
  rp_PayType :: string
  rp_Remark :: string

definition record_payment_checks :: "env \<Rightarrow> RecordPaymentRequest \<Rightarrow> err + PayType" where
  "record_payment_checks E req =
     (if rp_TenantID req = uuid_Nil then Inl (ErrMsg ''record payment: tenant_id is required'')
      else if rp_BillID req = uuid_Nil then Inl (ErrMsg ''record payment: bill_id is required'')
      else if rp_CreatorID req = uuid_Nil then Inl (ErrMsg ''record payment: creator_id is required'')
      else if rp_Amount req = 0 \<or> rp_Amount req < 0 then Inl (ErrMsg ''record payment: amount must be positive'')
      else if rp_Amount req \<noteq> dround E 2 (rp_Amount req) then Inl ErrReceiptAmount
      else payment_resolvePayType (rp_PayType req))"

text \<open>The ceiling of what a bill can be paid: its total, for a sale less the approved returns.\<close>

definition payable_net :: "env \<Rightarrow> uuid \<Rightarrow> uuid \<Rightarrow> BillHead \<Rightarrow> db \<Rightarrow> rat" where
  "payable_net E t b head s =
     (if h_BillType head = BillTypeSale then max (h_TotalAmount head - ReturnedAmount E t b s) 0 else h_TotalAmount head)"

text \<open>The amount booked and the paid amount after it: paying the remainder rounded to the cent settles it.\<close>

definition settle_amount :: "env \<Rightarrow> rat \<Rightarrow> rat \<Rightarrow> rat \<Rightarrow> rat \<times> rat" where
  "settle_amount E net currentPaid amount =
     (let left = net - currentPaid
      in if 0 < left \<and> amount = dround E 2 left then (left, net) else (amount, currentPaid + amount))"

definition new_payment :: "env \<Rightarrow> RecordPaymentRequest \<Rightarrow> BillHead \<Rightarrow> PayType \<Rightarrow> rat \<Rightarrow> uuid \<Rightarrow> Payment" where
  "new_payment E req head pt amount i =
     \<lparr> p_ID = i, p_TenantID = rp_TenantID req, p_BillID = rp_BillID req, p_PayType = pt, p_Amount = amount, p_TotalAmount = amount,
       p_PartnerID = h_PartnerID head, p_OperatorID = None, p_CreatorID = rp_CreatorID req, p_BillNo = [], p_PayDate = now E,
       p_Remark = rp_Remark req, p_CreatedAt = now E, p_deleted = False \<rparr>"

definition record_payment_tx :: "env \<Rightarrow> RecordPaymentRequest \<Rightarrow> PayType \<Rightarrow> Payment op" where
  "record_payment_tx E req pt =
     (let t = rp_TenantID req; b = rp_BillID req in
      bindE (mapErr (Wrap ''record payment: load bill'') (GetBillForUpdate t b)) (\<lambda>head.
      if h_SubType head = BillSubTypePurchaseReturn then failE ErrBillNotPayable
      else if h_Status head \<noteq> StatusApproved then failE (Wrap ''current status'' ErrBillNotApproved)
      else
        bindE (readE (SumByBill t b)) (\<lambda>currentPaid.
        bindE (readE (payable_net E t b head)) (\<lambda>net.
        let (amount, newPaid) = settle_amount E net currentPaid (rp_Amount req) in
        if net < newPaid
        then failE (ExceedsOutstandingError (rp_Amount req) (max (net - currentPaid) 0) (h_BillType head = BillTypePurchase))
        else
          bindE (uuid_New E) (\<lambda>i.
          thenE (mapErr (Wrap ''record payment: persist'') (Payment_Record E (new_payment E req head pt amount i)))
          (thenE (mapErr (Wrap ''record payment: update paid_amount'') (UpdatePaidAmount E t b newPaid))
           (returnE (new_payment E req head pt amount i))))))))"

definition RecordPayment_Execute :: "env \<Rightarrow> RecordPaymentRequest \<Rightarrow> db \<Rightarrow> (err + Payment) \<times> db" where
  "RecordPayment_Execute E req =
     runTx (bindE (liftE (record_payment_checks E req)) (record_payment_tx E req))"

definition ListPayments_Execute :: "uuid \<Rightarrow> uuid \<Rightarrow> db \<Rightarrow> err + Payment list" where
  "ListPayments_Execute t b s =
     (if t = uuid_Nil then Inl (ErrMsg ''list payments: tenant_id is required'')
      else if b = uuid_Nil then Inl (ErrMsg ''list payments: bill_id is required'')
      else Inr (ListByBill t b s))"

section \<open>The partner ledger\<close>

abbreviation "DirectionReceivable \<equiv> ''ar''"
abbreviation "DirectionPayable \<equiv> ''ap''"

definition ledgerTypes :: "string \<Rightarrow> BillType \<times> BillSubType" where
  "ledgerTypes direction =
     (if direction = DirectionPayable then (BillTypePurchase, BillSubTypePurchase) else (BillTypeSale, BillSubTypeSale))"

definition ledger_net :: "env \<Rightarrow> uuid \<Rightarrow> string \<Rightarrow> (BillHead \<Rightarrow> bool) \<Rightarrow> db \<Rightarrow> BillHead \<Rightarrow> rat" where
  "ledger_net E t direction extra s h =
     (if direction = DirectionReceivable then max (h_TotalAmount h - sale_returns E t extra s (h_ID h)) 0 else h_TotalAmount h)"

definition ledger_bill :: "uuid \<Rightarrow> string \<Rightarrow> uuid \<Rightarrow> BillHead \<Rightarrow> bool" where
  "ledger_bill t direction p h \<longleftrightarrow> h_TenantID h = t \<and> h_PartnerID h = Some p \<and> \<not> h_deleted h \<and> h_Status h = StatusApproved
     \<and> (h_BillType h, h_SubType h) = ledgerTypes direction"

record OpenBill =
  ob_BillID :: uuid
  ob_BillNo :: string
  ob_BillDate :: gotime
  ob_Total :: rat
  ob_Outstanding :: rat

definition open_bill :: "env \<Rightarrow> uuid \<Rightarrow> string \<Rightarrow> db \<Rightarrow> BillHead \<Rightarrow> OpenBill" where
  "open_bill E t direction s h =
     \<lparr> ob_BillID = h_ID h, ob_BillNo = h_BillNo h, ob_BillDate = h_BillDate h, ob_Total = h_TotalAmount h,
       ob_Outstanding = numeric E 2 (ledger_net E t direction (\<lambda>_. True) s h - h_PaidAmount h) \<rparr>"

definition OpenBills :: "env \<Rightarrow> uuid \<Rightarrow> string \<Rightarrow> uuid \<Rightarrow> db \<Rightarrow> OpenBill list" where
  "OpenBills E t direction p s =
     filter (\<lambda>x. 0 < ob_Outstanding x) (map (open_bill E t direction s)
       (sort_key h_BillDate (sort_key h_CreatedAt (sort_key h_ID (filter (ledger_bill t direction p) (bill_head s))))))"

section \<open>A receipt\<close>

record ReceiptRequest =
  rc_TenantID :: uuid
  rc_CreatorID :: uuid
  rc_Direction :: string
  rc_PartnerID :: uuid
  rc_Amount :: rat
  rc_PayType :: string
  rc_Remark :: string

record Allocation =
  al_BillID :: uuid
  al_BillNo :: string
  al_BillDate :: gotime
  al_Outstanding :: rat
  al_Applied :: rat
  al_Remaining :: rat

record ReceiptResult =
  rr_Owed :: rat
  rr_Amount :: rat
  rr_Booked :: rat
  rr_Diff :: rat
  rr_Allocations :: "Allocation list"

definition validDirection :: "string \<Rightarrow> bool" where
  "validDirection d \<longleftrightarrow> d = DirectionReceivable \<or> d = DirectionPayable"

definition checkReceipt :: "env \<Rightarrow> string \<Rightarrow> rat \<Rightarrow> err + unit" where
  "checkReceipt E direction amount =
     (if \<not> validDirection direction then Inl ErrInvalidReceiptDirection
      else if \<not> 0 < amount \<or> amount \<noteq> dround E 2 amount then Inl ErrReceiptAmount else Inr ())"

fun allocate :: "OpenBill list \<Rightarrow> rat \<Rightarrow> Allocation list \<times> rat" where
  "allocate [] rest = ([], rest)"
| "allocate (b # bs) rest =
     (if \<not> 0 < rest then ([], rest)
      else if \<not> 0 < ob_Outstanding b then allocate bs rest
      else let applied = min rest (ob_Outstanding b); (out, r) = allocate bs (rest - applied)
           in (\<lparr> al_BillID = ob_BillID b, al_BillNo = ob_BillNo b, al_BillDate = ob_BillDate b, al_Outstanding = ob_Outstanding b,
                 al_Applied = applied, al_Remaining = ob_Outstanding b - applied \<rparr> # out, r))"

definition totalOwed :: "OpenBill list \<Rightarrow> rat" where
  "totalOwed bills = sum_list (map ob_Outstanding (filter (\<lambda>b. 0 < ob_Outstanding b) bills))"

definition Receipt_Preview :: "env \<Rightarrow> uuid \<Rightarrow> string \<Rightarrow> uuid \<Rightarrow> rat \<Rightarrow> db \<Rightarrow> err + ReceiptResult" where
  "Receipt_Preview E t direction p amount s =
     (case checkReceipt E direction amount of
        Inl e \<Rightarrow> Inl e
      | Inr _ \<Rightarrow>
          (let bills = OpenBills E t direction p s; (allocs, rest) = allocate bills amount
           in if 0 < rest then Inl (ExceedsPartnerDebtError amount (totalOwed bills) (direction = DirectionPayable))
              else Inr \<lparr> rr_Owed = totalOwed bills, rr_Amount = amount, rr_Booked = amount, rr_Diff = 0, rr_Allocations = allocs \<rparr>))"

text \<open>What the transaction re-reads of the candidates: the live bills and, by id, paid, raw remainder and total.\<close>

record LiveBills =
  lb_live :: "OpenBill list"
  lb_paids :: "(uuid, rat) map"
  lb_raws :: "(uuid, rat) map"
  lb_totals :: "(uuid, rat) map"

definition no_live :: LiveBills where
  "no_live = \<lparr> lb_live = [], lb_paids = Map.empty, lb_raws = Map.empty, lb_totals = Map.empty \<rparr>"

definition receipt_takes :: "ReceiptRequest \<Rightarrow> BillHead \<Rightarrow> bool" where
  "receipt_takes req head \<longleftrightarrow> h_Status head = StatusApproved
     \<and> h_BillType head = (if rc_Direction req = DirectionPayable then BillTypePurchase else BillTypeSale)
     \<and> h_SubType head \<noteq> BillSubTypePurchaseReturn \<and> h_PartnerID head = Some (rc_PartnerID req)"

definition receipt_read :: "env \<Rightarrow> ReceiptRequest \<Rightarrow> OpenBill \<Rightarrow> LiveBills \<Rightarrow> LiveBills op" where
  "receipt_read E req c acc =
     bindE (mapErr (Wrap ''receipt: load bill'') (GetBillForUpdate (rc_TenantID req) (ob_BillID c))) (\<lambda>head.
     if \<not> receipt_takes req head then returnE acc
     else
       bindE (readE (SumByBill (rc_TenantID req) (ob_BillID c))) (\<lambda>paid.
       bindE (readE (payable_net E (rc_TenantID req) (ob_BillID c) head)) (\<lambda>net.
       let raw = max (net - paid) 0 in
       returnE \<lparr> lb_live = lb_live acc @ [c\<lparr>ob_Outstanding := dround E 2 raw\<rparr>], lb_paids = (lb_paids acc)(ob_BillID c \<mapsto> paid),
                 lb_raws = (lb_raws acc)(ob_BillID c \<mapsto> raw), lb_totals = (lb_totals acc)(ob_BillID c \<mapsto> h_TotalAmount head) \<rparr>)))"

definition receipt_payment :: "env \<Rightarrow> ReceiptRequest \<Rightarrow> PayType \<Rightarrow> Allocation \<Rightarrow> uuid \<Rightarrow> Payment" where
  "receipt_payment E req pt a i =
     \<lparr> p_ID = i, p_TenantID = rc_TenantID req, p_BillID = al_BillID a, p_PayType = pt, p_Amount = al_Applied a,
       p_TotalAmount = al_Applied a, p_PartnerID = Some (rc_PartnerID req), p_OperatorID = None, p_CreatorID = rc_CreatorID req,
       p_BillNo = [], p_PayDate = now E, p_Remark = rc_Remark req, p_CreatedAt = now E, p_deleted = False \<rparr>"

definition receipt_paid_now :: "LiveBills \<Rightarrow> Allocation \<Rightarrow> rat" where
  "receipt_paid_now lb a =
     min (get0 (lb_paids lb) (al_BillID a) + (if al_Remaining a = 0 then get0 (lb_raws lb) (al_BillID a) else al_Applied a))
         (get0 (lb_totals lb) (al_BillID a))"

definition receipt_pay :: "env \<Rightarrow> ReceiptRequest \<Rightarrow> PayType \<Rightarrow> LiveBills \<Rightarrow> Allocation \<Rightarrow> unit op" where
  "receipt_pay E req pt lb a =
     bindE (uuid_New E) (\<lambda>i.
     thenE (mapErr (Wrap ''receipt: persist'') (Payment_Record E (receipt_payment E req pt a i)))
     (mapErr (Wrap ''receipt: update paid_amount'') (UpdatePaidAmount E (rc_TenantID req) (al_BillID a) (receipt_paid_now lb a))))"

definition receipt_result :: "ReceiptRequest \<Rightarrow> LiveBills \<Rightarrow> Allocation list \<Rightarrow> ReceiptResult" where
  "receipt_result req lb allocs =
     \<lparr> rr_Owed = sum_list (map ob_Outstanding (lb_live lb)), rr_Amount = rc_Amount req,
       rr_Booked = sum_list (map al_Applied allocs),
       rr_Diff = sum_list (map (\<lambda>a. al_Applied a - get0 (lb_raws lb) (al_BillID a)) (filter (\<lambda>a. al_Remaining a = 0) allocs)),
       rr_Allocations = allocs \<rparr>"

definition receipt_tx :: "env \<Rightarrow> ReceiptRequest \<Rightarrow> PayType \<Rightarrow> OpenBill list \<Rightarrow> ReceiptResult op" where
  "receipt_tx E req pt candidates =
     bindE (foldE (receipt_read E req) candidates no_live) (\<lambda>lb.
     let (allocs, rest) = allocate (lb_live lb) (rc_Amount req) in
     if 0 < rest
     then failE (ExceedsPartnerDebtError (rc_Amount req) (sum_list (map ob_Outstanding (lb_live lb))) (rc_Direction req = DirectionPayable))
     else bindE (forE (receipt_pay E req pt lb) allocs) (\<lambda>_. returnE (receipt_result req lb allocs)))"

definition receipt_checks :: "env \<Rightarrow> ReceiptRequest \<Rightarrow> err + PayType" where
  "receipt_checks E req =
     (if rc_TenantID req = uuid_Nil \<or> rc_PartnerID req = uuid_Nil \<or> rc_CreatorID req = uuid_Nil
      then Inl (ErrMsg ''receipt: tenant, partner and creator are required'')
      else case checkReceipt E (rc_Direction req) (rc_Amount req) of
        Inl e \<Rightarrow> Inl e | Inr _ \<Rightarrow> payment_resolvePayType (rc_PayType req))"

definition Receipt_Execute :: "env \<Rightarrow> ReceiptRequest \<Rightarrow> db \<Rightarrow> db \<Rightarrow> (err + ReceiptResult) \<times> db" where
  "Receipt_Execute E req pre s =
     (case receipt_checks E req of
        Inl e \<Rightarrow> (Inl e, s)
      | Inr pt \<Rightarrow> runTx (receipt_tx E req pt (OpenBills E (rc_TenantID req) (rc_Direction req) (rc_PartnerID req) pre)) s)"

section \<open>Oldest bills first\<close>

lemma allocate_nil: "\<not> 0 < r \<Longrightarrow> allocate bs r = ([], r)"
  by (cases bs) auto

text \<open>Induction over the loop: a bill that takes money, a bill that owes nothing, the end.\<close>

lemma allocate_Cons:
  assumes "0 < r" "0 < ob_Outstanding b"
  defines "applied \<equiv> min r (ob_Outstanding b)"
  shows "allocate (b # bs) r = (\<lparr> al_BillID = ob_BillID b, al_BillNo = ob_BillNo b, al_BillDate = ob_BillDate b,
           al_Outstanding = ob_Outstanding b, al_Applied = applied, al_Remaining = ob_Outstanding b - applied \<rparr>
           # fst (allocate bs (r - applied)), snd (allocate bs (r - applied)))"
  using assms by (simp add: Let_def split: prod.split)

lemma allocate_sum: "sum_list (map al_Applied (fst (allocate bs r))) + snd (allocate bs r) = r"
proof (induction bs r rule: allocate.induct)
  case (2 b bs r)
  show ?case
  proof (cases "0 < r \<and> 0 < ob_Outstanding b")
    case True
    then show ?thesis using 2(2) by (simp add: allocate_Cons del: allocate.simps)
  qed (use 2(1) in auto)
qed simp

lemma totalOwed_Cons: "totalOwed (b # bs) = (if 0 < ob_Outstanding b then ob_Outstanding b else 0) + totalOwed bs"
  by (simp add: totalOwed_def)

lemma totalOwed_nonneg: "0 \<le> totalOwed bs"
  by (induction bs) (auto simp: totalOwed_Cons totalOwed_def)

lemma allocate_rest: "0 \<le> r \<Longrightarrow> snd (allocate bs r) = max 0 (r - totalOwed bs)"
proof (induction bs r rule: allocate.induct)
  case (1 r)
  then show ?case by (simp add: totalOwed_def)
next
  case (2 b bs r)
  note nn = totalOwed_nonneg [of bs]
  consider "\<not> 0 < r" | "0 < r" "\<not> 0 < ob_Outstanding b" | "0 < r" "0 < ob_Outstanding b" by blast
  then show ?case
  proof cases
    case 1
    then show ?thesis using 2(3) totalOwed_nonneg [of "b # bs"] by (simp add: allocate_nil del: allocate.simps)
  next
    case c: 2
    then show ?thesis using 2(1) [OF _ c(2)] 2(3) by (simp add: totalOwed_Cons)
  next
    case c: 3
    have "snd (allocate bs (r - min r (ob_Outstanding b))) = max 0 (r - min r (ob_Outstanding b) - totalOwed bs)"
      by (rule 2(2)) (use c in auto)
    then show ?thesis using c nn by (auto simp: allocate_Cons totalOwed_Cons min_def max_def simp del: allocate.simps)
  qed
qed

lemma allocate_each:
  "list_all (\<lambda>a. 0 < al_Applied a \<and> 0 \<le> al_Remaining a \<and> al_Applied a + al_Remaining a = al_Outstanding a) (fst (allocate bs r))"
proof (induction bs r rule: allocate.induct)
  case (2 b bs r)
  show ?case
  proof (cases "0 < r \<and> 0 < ob_Outstanding b")
    case True
    then show ?thesis using 2(2) by (simp add: allocate_Cons del: allocate.simps)
  qed (use 2(1) in auto)
qed simp

lemma allocate_ids:
  "map (\<lambda>a. (al_BillID a, al_Outstanding a)) (fst (allocate bs r))
     = take (length (fst (allocate bs r))) (map (\<lambda>b. (ob_BillID b, ob_Outstanding b)) (filter (\<lambda>b. 0 < ob_Outstanding b) bs))"
proof (induction bs r rule: allocate.induct)
  case (2 b bs r)
  show ?case
  proof (cases "0 < r \<and> 0 < ob_Outstanding b")
    case True
    then show ?thesis using 2(2) by (simp add: allocate_Cons del: allocate.simps)
  qed (use 2(1) in auto)
qed simp

lemma allocate_settles: "list_all (\<lambda>a. al_Remaining a = 0) (butlast (fst (allocate bs r)))"
proof (induction bs r rule: allocate.induct)
  case (2 b bs r)
  show ?case
  proof (cases "0 < r \<and> 0 < ob_Outstanding b")
    case True
    let ?r = "r - min r (ob_Outstanding b)"
    have "fst (allocate bs ?r) = [] \<or> min r (ob_Outstanding b) = ob_Outstanding b"
      using allocate_nil [of ?r bs] by (auto simp: min_def)
    then show ?thesis using 2(2) True by (auto simp: allocate_Cons simp del: allocate.simps)
  qed (use 2(1) in auto)
qed simp

section \<open>One payment\<close>

lemma payable_net_scan [simp]: "payable_net E t b (scanBillHead h) s = payable_net E t b h s"
  by (simp add: payable_net_def)

lemma SumByBill_append:
  "payment_head s' = payment_head s @ ps \<Longrightarrow> SumByBill t b s' = SumByBill t b s + sum_list (map p_Amount (filter (payment_of t b) ps))"
  by (simp add: SumByBill_def)

lemma record_payment_tx_Inr:
  assumes "record_payment_tx E req pt s = Inr (p, s')" "runtime_env E"
  obtains h amount newPaid where "find_head (rp_TenantID req) (rp_BillID req) s = Some h" "h_SubType h \<noteq> BillSubTypePurchaseReturn"
    "h_Status h = StatusApproved"
    "settle_amount E (payable_net E (rp_TenantID req) (rp_BillID req) h s) (SumByBill (rp_TenantID req) (rp_BillID req) s) (rp_Amount req) = (amount, newPaid)"
    "newPaid \<le> payable_net E (rp_TenantID req) (rp_BillID req) h s" "p = new_payment E req (scanBillHead h) pt amount (new_uuid E (draws s))"
    "s' = (head_update (rp_TenantID req) (rp_BillID req) (set_paid E newPaid) s)\<lparr>draws := Suc (draws s),
       payment_head := payment_head s @ [stored_payment E (new_uuid E (draws s)) p]\<rparr>"
proof -
  let ?t = "rp_TenantID req" and ?b = "rp_BillID req"
  obtain h where h: "find_head ?t ?b s = Some h" "h_SubType h \<noteq> BillSubTypePurchaseReturn" "h_Status h = StatusApproved"
    and k: "(let (amount, newPaid) = settle_amount E (payable_net E ?t ?b h s) (SumByBill ?t ?b s) (rp_Amount req) in
        if payable_net E ?t ?b h s < newPaid
        then failE (ExceedsOutstandingError (rp_Amount req) (max (payable_net E ?t ?b h s - SumByBill ?t ?b s) 0) (h_BillType h = BillTypePurchase))
        else
          bindE (uuid_New E) (\<lambda>i.
          thenE (mapErr (Wrap ''record payment: persist'') (Payment_Record E (new_payment E req (scanBillHead h) pt amount i)))
          (thenE (mapErr (Wrap ''record payment: update paid_amount'') (UpdatePaidAmount E ?t ?b newPaid))
           (returnE (new_payment E req (scanBillHead h) pt amount i))))) s = Inr (p, s')"
    using assms(1) unfolding record_payment_tx_def Let_def
    by (auto simp: bindE_Inr GetBillForUpdate_Inr cong: if_cong prod.case_cong split: if_splits)
  obtain amount newPaid where sa: "settle_amount E (payable_net E ?t ?b h s) (SumByBill ?t ?b s) (rp_Amount req) = (amount, newPaid)" by force
  let ?p = "new_payment E req (scanBillHead h) pt amount (new_uuid E (draws s))"
  obtain s1 where le: "newPaid \<le> payable_net E ?t ?b h s" and pr: "Payment_Record E ?p (s\<lparr>draws := Suc (draws s)\<rparr>) = Inr ((), s1)"
    and up: "UpdatePaidAmount E ?t ?b newPaid s1 = Inr ((), s')" and p: "p = ?p"
    using k unfolding sa Let_def prod.case by (auto simp: bindE_Inr thenE_Inr not_less split: if_splits)
  have id: "p_ID ?p = new_uuid E (draws s)" "p_ID ?p \<noteq> uuid_Nil"
    using runtime_env.new_uuid_not_nil [OF assms(2)] by (simp_all add: new_payment_def)
  show ?thesis
    by (rule that [OF h sa le p]) (use payment_booked(1) [OF pr up id(2)] in \<open>simp add: p id(1) head_update_def\<close>)
qed

text \<open>
  C17: a payment is booked once and never beyond what is owed.  On success the bill was approved and
  no purchase return, the payments of the bill have grown by the amount booked, which is the amount
  asked for up to half a cent, the bill's paid amount is the sum of its payments and at most its
  total net of approved returns, and no other bill changes; a refused payment changes nothing.
\<close>

theorem record_payment_books:
  assumes "runtime_env E" "find_head (rp_TenantID req) (rp_BillID req) s = Some h"
    and "on_grid 4 (SumByBill (rp_TenantID req) (rp_BillID req) s)" "on_grid 4 (payable_net E (rp_TenantID req) (rp_BillID req) h s)"
  shows "case RecordPayment_Execute E req s of
      (Inl e, s') \<Rightarrow> s' = s
    | (Inr p, s') \<Rightarrow> h_Status h = StatusApproved \<and> h_SubType h \<noteq> BillSubTypePurchaseReturn \<and> p_PayType p \<noteq> PayTypeCredit
        \<and> SumByBill (rp_TenantID req) (rp_BillID req) s' = SumByBill (rp_TenantID req) (rp_BillID req) s + p_Amount p
        \<and> \<bar>p_Amount p - rp_Amount req\<bar> \<le> 1 / 200
        \<and> (\<exists>h'. find_head (rp_TenantID req) (rp_BillID req) s' = Some h' \<and> h_Status h' = StatusApproved
             \<and> h_PaidAmount h' = SumByBill (rp_TenantID req) (rp_BillID req) s'
             \<and> h_PaidAmount h' \<le> payable_net E (rp_TenantID req) (rp_BillID req) h s)
        \<and> (\<forall>t b. (t, b) \<noteq> (rp_TenantID req, rp_BillID req) \<longrightarrow> find_head t b s' = find_head t b s)"
proof -
  let ?t = "rp_TenantID req" and ?b = "rp_BillID req"
  let ?net = "payable_net E ?t ?b h s" and ?sum = "SumByBill ?t ?b s"
  obtain r s' where r: "RecordPayment_Execute E req s = (r, s')" by force
  show ?thesis
  proof (cases r)
    case (Inl e)
    have "s' = s" by (rule runTx_atomic) (rule r [unfolded RecordPayment_Execute_def Inl])
    then show ?thesis using r Inl by simp
  next
    case (Inr p)
    then obtain pt where c: "record_payment_checks E req = Inr pt" and tx: "record_payment_tx E req pt s = Inr (p, s')"
      using r unfolding RecordPayment_Execute_def by (auto simp: runTx_Inr bindE_liftE_Inr)
    obtain amount newPaid where h: "h_SubType h \<noteq> BillSubTypePurchaseReturn" "h_Status h = StatusApproved"
      and sa: "settle_amount E ?net ?sum (rp_Amount req) = (amount, newPaid)" and le: "newPaid \<le> ?net"
      and p: "p = new_payment E req (scanBillHead h) pt amount (new_uuid E (draws s))"
      and s': "s' = (head_update ?t ?b (set_paid E newPaid) s)\<lparr>draws := Suc (draws s),
         payment_head := payment_head s @ [stored_payment E (new_uuid E (draws s)) p]\<rparr>"
      by (rule record_payment_tx_Inr [OF tx assms(1)]) (use assms(2) in auto)
    have pc: "pt \<noteq> PayTypeCredit" "rp_Amount req = dround E 2 (rp_Amount req)"
      using c by (auto simp: record_payment_checks_def payment_resolvePayType_def split: if_splits sum.splits)
    have g2: "on_grid 4 (rp_Amount req)"
      using on_grid_mono [OF dround_grid [OF assms(1), of 2 "rp_Amount req"], of 4] pc(2) by simp
    have eq: "newPaid = ?sum + amount" using sa by (auto simp: settle_amount_def Let_def split: if_splits)
    have g: "on_grid 4 amount" using sa g2 assms(3,4) by (auto simp: settle_amount_def Let_def split: if_splits)
    have near: "\<bar>amount - rp_Amount req\<bar> \<le> 1 / 200"
      using sa dround_near [OF assms(1), of 2 "?net - ?sum"] by (auto simp: settle_amount_def Let_def abs_minus_commute split: if_splits)
    have gn: "numeric E 4 amount = amount" "numeric E 4 newPaid = newPaid"
      using numeric_fix [OF assms(1)] g assms(3) eq by auto
    have pk: "p_Amount p = amount" "p_PayType p = pt" "payment_of ?t ?b (stored_payment E i p)" for i
      by (simp_all add: p new_payment_def payment_of_def)
    have sum': "SumByBill ?t ?b s' = ?sum + amount"
      using SumByBill_append [of s' s "[stored_payment E (new_uuid E (draws s)) p]" ?t ?b] pk gn by (simp add: s')
    have heads: "find_head t b s' = (if (t, b) = (?t, ?b) then Some (set_paid E newPaid h) else find_head t b s)" for t b
      using find_head_head_update [of "set_paid E newPaid" t b ?t ?b s] assms(2) by (simp add: s' find_head_def)
    show ?thesis unfolding r Inr using h pc near pk sum' heads le eq gn by auto
  qed
qed

section \<open>A lump sum\<close>

lemma allocate_grid:
  assumes "list_all (\<lambda>b. on_grid 2 (ob_Outstanding b)) bs" "on_grid 2 r"
  shows "list_all (\<lambda>a. on_grid 2 (al_Applied a)) (fst (allocate bs r))"
  using assms
proof (induction bs r rule: allocate.induct)
  case (2 b bs r)
  show ?case
  proof (cases "0 < r \<and> 0 < ob_Outstanding b")
    case True
    then have "list_all (\<lambda>a. on_grid 2 (al_Applied a)) (fst (allocate bs (r - min r (ob_Outstanding b))))"
      using 2(3,4) by (intro 2(2)) auto
    then show ?thesis using True 2(3,4) by (auto simp: allocate_Cons simp del: allocate.simps)
  qed (use 2 in auto)
qed simp

text \<open>What the transaction knows of a live bill is what the database says of it.\<close>

definition live_read :: "env \<Rightarrow> ReceiptRequest \<Rightarrow> db \<Rightarrow> LiveBills \<Rightarrow> OpenBill \<Rightarrow> bool" where
  "live_read E req s lb x \<longleftrightarrow> (\<exists>h. find_head (rc_TenantID req) (ob_BillID x) s = Some h \<and> receipt_takes req h
     \<and> lb_paids lb (ob_BillID x) = Some (SumByBill (rc_TenantID req) (ob_BillID x) s)
     \<and> lb_raws lb (ob_BillID x) = Some (max (payable_net E (rc_TenantID req) (ob_BillID x) h s - SumByBill (rc_TenantID req) (ob_BillID x) s) 0)
     \<and> lb_totals lb (ob_BillID x) = Some (h_TotalAmount h)
     \<and> ob_Outstanding x = dround E 2 (max (payable_net E (rc_TenantID req) (ob_BillID x) h s - SumByBill (rc_TenantID req) (ob_BillID x) s) 0))"

lemma receipt_takes_scan [simp]: "receipt_takes req (scanBillHead h) = receipt_takes req h"
  by (simp add: receipt_takes_def)

lemma receipt_read_Inr:
  assumes "receipt_read E req c acc s = Inr (lb, s')"
  obtains h where "s' = s" "find_head (rc_TenantID req) (ob_BillID c) s = Some h" "\<not> receipt_takes req h" "lb = acc"
  | h raw where "s' = s" "find_head (rc_TenantID req) (ob_BillID c) s = Some h" "receipt_takes req h"
      "raw = max (payable_net E (rc_TenantID req) (ob_BillID c) h s - SumByBill (rc_TenantID req) (ob_BillID c) s) 0"
      "lb = \<lparr> lb_live = lb_live acc @ [c\<lparr>ob_Outstanding := dround E 2 raw\<rparr>],
              lb_paids = (lb_paids acc)(ob_BillID c \<mapsto> SumByBill (rc_TenantID req) (ob_BillID c) s),
              lb_raws = (lb_raws acc)(ob_BillID c \<mapsto> raw), lb_totals = (lb_totals acc)(ob_BillID c \<mapsto> h_TotalAmount h) \<rparr>"
proof -
  obtain h where h: "find_head (rc_TenantID req) (ob_BillID c) s = Some h"
    using assms unfolding receipt_read_def bindE_mapErr_Inr GetBillForUpdate_Inr by blast
  show ?thesis
  proof (cases "receipt_takes req h")
    case True
    show ?thesis
      by (rule that(2) [OF _ h True refl])
         (use assms h True in \<open>simp_all add: receipt_read_def bindE_mapErr_Inr GetBillForUpdate_Inr bindE_Inr Let_def\<close>)
  next
    case False
    show ?thesis
      by (rule that(1) [OF _ h False])
         (use assms h False in \<open>simp_all add: receipt_read_def bindE_mapErr_Inr GetBillForUpdate_Inr\<close>)
  qed
qed

lemma receipt_read_live:
  assumes "receipt_read E req c acc s = Inr (lb, s')" "list_all (live_read E req s acc) (lb_live acc)"
  shows "s' = s \<and> list_all (live_read E req s lb) (lb_live lb)
    \<and> (lb_live lb = lb_live acc \<or> (\<exists>q. lb_live lb = lb_live acc @ [c\<lparr>ob_Outstanding := q\<rparr>]))"
  using assms(1)
proof (cases rule: receipt_read_Inr)
  case (1 h)
  then show ?thesis using assms(2) by simp
next
  case (2 h raw)
  have "live_read E req s lb x" if "x \<in> set (lb_live acc)" for x
    using assms(2) that 2 by (auto simp: list_all_iff live_read_def)
  moreover have "live_read E req s lb (c\<lparr>ob_Outstanding := dround E 2 raw\<rparr>)"
    unfolding live_read_def using 2 by auto
  ultimately show ?thesis using 2 by (auto simp: list_all_iff)
qed

lemma receipt_reads:
  assumes "foldE (receipt_read E req) cs acc s = Inr (lb, s')" "list_all (live_read E req s acc) (lb_live acc)"
  shows "s' = s \<and> list_all (live_read E req s lb) (lb_live lb)
    \<and> (\<exists>js. map ob_BillID (lb_live lb) = map ob_BillID (lb_live acc) @ js \<and> subseq js (map ob_BillID cs))"
  using assms
proof (induction cs arbitrary: acc)
  case (Cons c cs)
  obtain acc' s1 where one: "receipt_read E req c acc s = Inr (acc', s1)" and r: "foldE (receipt_read E req) cs acc' s1 = Inr (lb, s')"
    using Cons.prems(1) unfolding foldE_Cons_Inr by blast
  note L = receipt_read_live [OF one Cons.prems(2)]
  obtain js where js: "map ob_BillID (lb_live lb) = map ob_BillID (lb_live acc') @ js" "subseq js (map ob_BillID cs)"
    using Cons.IH [of acc'] r L by auto
  have "\<exists>ks. map ob_BillID (lb_live lb) = map ob_BillID (lb_live acc) @ ks \<and> subseq ks (map ob_BillID (c # cs))"
  proof (cases "lb_live acc' = lb_live acc")
    case True
    then show ?thesis using js by auto
  next
    case False
    then obtain q where "lb_live acc' = lb_live acc @ [c\<lparr>ob_Outstanding := q\<rparr>]" using L by blast
    then show ?thesis using js by (intro exI [of _ "ob_BillID c # js"]) simp
  qed
  then show ?case using Cons.IH [of acc'] r L by auto
qed simp

lemma receipt_pay_Inr:
  assumes "receipt_pay E req pt lb a s = Inr (u, s')" "runtime_env E"
  obtains p where "p_TenantID p = rc_TenantID req" "p_BillID p = al_BillID a" "\<not> p_deleted p" "p_Amount p = numeric E 4 (al_Applied a)"
    "p_PayType p = pt" "p_PartnerID p = Some (rc_PartnerID req)"
    "s' = (head_update (rc_TenantID req) (al_BillID a) (set_paid E (receipt_paid_now lb a)) s)\<lparr>draws := Suc (draws s),
       payment_head := payment_head s @ [p]\<rparr>"
    "\<forall>h. find_head (rc_TenantID req) (al_BillID a) s = Some h \<longrightarrow> numeric E 4 (receipt_paid_now lb a) \<le> h_TotalAmount h"
proof -
  let ?p = "receipt_payment E req pt a (new_uuid E (draws s))"
  obtain s1 where pr: "Payment_Record E ?p (s\<lparr>draws := Suc (draws s)\<rparr>) = Inr ((), s1)"
    and up: "UpdatePaidAmount E (rc_TenantID req) (al_BillID a) (receipt_paid_now lb a) s1 = Inr ((), s')"
    using assms(1) unfolding receipt_pay_def by (auto simp: bindE_Inr thenE_Inr)
  have id: "p_ID ?p \<noteq> uuid_Nil" using runtime_env.new_uuid_not_nil [OF assms(2)] by (simp add: receipt_payment_def)
  note B = payment_booked [OF pr up id]
  show ?thesis
    by (rule that [of "stored_payment E (p_ID ?p) ?p"])
       (use B in \<open>simp_all add: receipt_payment_def head_update_def find_head_def\<close>)
qed

text \<open>The payment rows of a list of allocations.\<close>

definition pays :: "env \<Rightarrow> ReceiptRequest \<Rightarrow> PayType \<Rightarrow> Allocation \<Rightarrow> Payment \<Rightarrow> bool" where
  "pays E req pt a p \<longleftrightarrow> payment_of (rc_TenantID req) (al_BillID a) p \<and> p_Amount p = numeric E 4 (al_Applied a) \<and> p_PayType p = pt
     \<and> p_PartnerID p = Some (rc_PartnerID req)"

lemma receipt_pays:
  assumes "forE (receipt_pay E req pt lb) allocs s = Inr (us, s')" "runtime_env E" "distinct (map al_BillID allocs)"
  shows "(\<exists>ps. payment_head s' = payment_head s @ ps \<and> list_all2 (pays E req pt) allocs ps)
    \<and> (\<forall>a \<in> set allocs. \<forall>h. find_head (rc_TenantID req) (al_BillID a) s = Some h \<longrightarrow>
          find_head (rc_TenantID req) (al_BillID a) s' = Some (set_paid E (receipt_paid_now lb a) h)
          \<and> numeric E 4 (receipt_paid_now lb a) \<le> h_TotalAmount h)
    \<and> (\<forall>t b. t \<noteq> rc_TenantID req \<or> b \<notin> al_BillID ` set allocs \<longrightarrow> find_head t b s' = find_head t b s)"
  using assms(1,3)
proof (induction allocs arbitrary: s us)
  case Nil
  then show ?case by simp
next
  case (Cons a allocs)
  let ?t = "rc_TenantID req"
  obtain u s1 vs where one: "receipt_pay E req pt lb a s = Inr (u, s1)" and r: "forE (receipt_pay E req pt lb) allocs s1 = Inr (vs, s')"
    using Cons.prems(1) unfolding forE_Cons_Inr by blast
  obtain p where p: "p_TenantID p = ?t" "p_BillID p = al_BillID a" "\<not> p_deleted p" "p_Amount p = numeric E 4 (al_Applied a)"
      "p_PayType p = pt" "p_PartnerID p = Some (rc_PartnerID req)"
    and s1: "s1 = (head_update ?t (al_BillID a) (set_paid E (receipt_paid_now lb a)) s)\<lparr>draws := Suc (draws s), payment_head := payment_head s @ [p]\<rparr>"
    and le: "\<forall>h. find_head ?t (al_BillID a) s = Some h \<longrightarrow> numeric E 4 (receipt_paid_now lb a) \<le> h_TotalAmount h"
    using one assms(2) by (rule receipt_pay_Inr)
  have f1: "find_head t b s1 = (if (t, b) = (?t, al_BillID a) then map_option (set_paid E (receipt_paid_now lb a)) (find_head ?t (al_BillID a) s)
      else find_head t b s)" for t b
    using find_head_head_update [of "set_paid E (receipt_paid_now lb a)" t b ?t "al_BillID a" s] by (simp add: s1 find_head_def)
  have d: "distinct (map al_BillID allocs)" "al_BillID a \<notin> al_BillID ` set allocs" using Cons.prems(2) by auto
  note I = Cons.IH [OF r d(1)]
  obtain ps where ps: "payment_head s' = payment_head s1 @ ps" "list_all2 (pays E req pt) allocs ps" using I by blast
  have "\<exists>qs. payment_head s' = payment_head s @ qs \<and> list_all2 (pays E req pt) (a # allocs) qs"
    using ps p by (intro exI [of _ "p # ps"]) (simp add: s1 pays_def payment_of_def)
  moreover have "find_head ?t (al_BillID a) s' = find_head ?t (al_BillID a) s1" using I d(2) by blast
  moreover have "find_head ?t (al_BillID y) s1 = find_head ?t (al_BillID y) s" if "y \<in> set allocs" for y
  proof -
    have "al_BillID y \<noteq> al_BillID a" using that d(2) by (metis imageI)
    then show ?thesis using f1 by simp
  qed
  ultimately show ?case using I le f1 by auto
qed

lemma pays_sum: "list_all2 (pays E req pt) allocs ps \<Longrightarrow> sum_list (map p_Amount ps) = sum_list (map (\<lambda>a. numeric E 4 (al_Applied a)) allocs)"
  by (induction rule: list_all2_induct) (auto simp: pays_def)

lemma subseq_distinct: "subseq xs ys \<Longrightarrow> distinct ys \<Longrightarrow> distinct xs"
  by (induction rule: list_emb.induct) (auto dest: list_emb_set)

lemma OpenBills_distinct: "distinct (map h_ID (bill_head s)) \<Longrightarrow> distinct (map ob_BillID (OpenBills E t direction p s))"
proof -
  let ?hs = "sort_key h_BillDate (sort_key h_CreatedAt (sort_key h_ID (filter (ledger_bill t direction p) (bill_head s))))"
  assume d: "distinct (map h_ID (bill_head s))"
  have "mset (map h_ID ?hs) = mset (map h_ID (filter (ledger_bill t direction p) (bill_head s)))" by simp
  then have "distinct (map h_ID ?hs)" using d by (metis distinct_map_filter mset_eq_imp_distinct_iff)
  moreover have "map ob_BillID (map (open_bill E t direction s) ?hs) = map h_ID ?hs" by (simp add: open_bill_def)
  ultimately have "distinct (map ob_BillID (map (open_bill E t direction s) ?hs))" by (simp only:)
  then show ?thesis unfolding OpenBills_def by (rule distinct_map_filter)
qed

lemma receipt_tx_Inr:
  assumes "receipt_tx E req pt cs s = Inr (res, s')"
  obtains lb us where "foldE (receipt_read E req) cs no_live s = Inr (lb, s)" "snd (allocate (lb_live lb) (rc_Amount req)) \<le> 0"
    "forE (receipt_pay E req pt lb) (fst (allocate (lb_live lb) (rc_Amount req))) s = Inr (us, s')"
    "res = receipt_result req lb (fst (allocate (lb_live lb) (rc_Amount req)))"
proof -
  obtain lb s1 where f: "foldE (receipt_read E req) cs no_live s = Inr (lb, s1)"
    and k: "(let (allocs, rest) = allocate (lb_live lb) (rc_Amount req) in
       if 0 < rest
       then failE (ExceedsPartnerDebtError (rc_Amount req) (sum_list (map ob_Outstanding (lb_live lb))) (rc_Direction req = DirectionPayable))
       else bindE (forE (receipt_pay E req pt lb) allocs) (\<lambda>_. returnE (receipt_result req lb allocs))) s1 = Inr (res, s')"
    using assms unfolding receipt_tx_def by (auto simp: bindE_Inr)
  have "s1 = s" using receipt_reads [OF f] by (simp add: no_live_def)
  then show ?thesis using f k
    by (cases "allocate (lb_live lb) (rc_Amount req)") (auto simp: bindE_Inr split: if_splits intro: that)
qed

text \<open>What one allocation says of its bill, and what it did to it.\<close>

definition settles :: "env \<Rightarrow> ReceiptRequest \<Rightarrow> db \<Rightarrow> db \<Rightarrow> Allocation \<Rightarrow> bool" where
  "settles E req s s' a \<longleftrightarrow> (\<exists>h h'. find_head (rc_TenantID req) (al_BillID a) s = Some h \<and> receipt_takes req h
     \<and> al_Outstanding a = dround E 2 (max (payable_net E (rc_TenantID req) (al_BillID a) h s - SumByBill (rc_TenantID req) (al_BillID a) s) 0)
     \<and> 0 < al_Applied a \<and> 0 \<le> al_Remaining a \<and> al_Applied a + al_Remaining a = al_Outstanding a
     \<and> find_head (rc_TenantID req) (al_BillID a) s' = Some h' \<and> h_TotalAmount h' = h_TotalAmount h \<and> h_PaidAmount h' \<le> h_TotalAmount h
     \<and> (al_Remaining a = 0 \<longrightarrow> h_PaidAmount h' = numeric E 4 (min (payable_net E (rc_TenantID req) (al_BillID a) h s) (h_TotalAmount h)))
     \<and> (al_Remaining a \<noteq> 0 \<longrightarrow> h_PaidAmount h' = numeric E 4 (min (SumByBill (rc_TenantID req) (al_BillID a) s + al_Applied a) (h_TotalAmount h))))"

lemma settled_allocation:
  assumes "runtime_env E" "live_read E req s lb x" "al_BillID a = ob_BillID x" "al_Outstanding a = ob_Outstanding x"
    and "0 < al_Applied a" "0 \<le> al_Remaining a" "al_Applied a + al_Remaining a = al_Outstanding a"
    and "\<forall>h. find_head (rc_TenantID req) (al_BillID a) s = Some h \<longrightarrow>
          find_head (rc_TenantID req) (al_BillID a) s' = Some (set_paid E (receipt_paid_now lb a) h)
          \<and> numeric E 4 (receipt_paid_now lb a) \<le> h_TotalAmount h"
  shows "settles E req s s' a"
proof -
  let ?t = "rc_TenantID req" and ?b = "al_BillID a"
  let ?raw = "\<lambda>h. max (payable_net E ?t ?b h s - SumByBill ?t ?b s) 0"
  obtain h where h: "find_head ?t ?b s = Some h" "receipt_takes req h" "lb_paids lb ?b = Some (SumByBill ?t ?b s)"
    "lb_raws lb ?b = Some (?raw h)" "lb_totals lb ?b = Some (h_TotalAmount h)" "al_Outstanding a = dround E 2 (?raw h)"
    using assms(2) unfolding live_read_def assms(3) [symmetric] assms(4) [symmetric] by blast
  have "0 < dround E 2 (?raw h)" using assms(5-7) h(6) by linarith
  then have raw: "?raw h = payable_net E ?t ?b h s - SumByBill ?t ?b s" using dround_zero [OF assms(1), of 2] by (auto simp: max_def)
  have now: "receipt_paid_now lb a = min (if al_Remaining a = 0 then payable_net E ?t ?b h s else SumByBill ?t ?b s + al_Applied a) (h_TotalAmount h)"
    unfolding receipt_paid_now_def get0_def h(3-5) by (simp add: raw)
  show ?thesis unfolding settles_def
    by (rule exI [of _ h], rule exI [of _ "set_paid E (receipt_paid_now lb a) h"])
       (use h(1,2,6) assms(5-8) now in auto)
qed

lemma allocate_from:
  assumes "a \<in> set (fst (allocate bs r))"
  shows "\<exists>x \<in> set bs. al_BillID a = ob_BillID x \<and> al_Outstanding a = ob_Outstanding x"
proof -
  have "(al_BillID a, al_Outstanding a) \<in> set (map (\<lambda>a. (al_BillID a, al_Outstanding a)) (fst (allocate bs r)))"
    using assms unfolding set_map by (rule imageI)
  then have "(al_BillID a, al_Outstanding a) \<in> set (map (\<lambda>b. (ob_BillID b, ob_Outstanding b)) (filter (\<lambda>b. 0 < ob_Outstanding b) bs))"
    unfolding allocate_ids by (rule in_set_takeD)
  then show ?thesis by auto
qed

lemma allocate_distinct:
  assumes "distinct (map ob_BillID bs)"
  shows "distinct (map al_BillID (fst (allocate bs r)))"
proof -
  have "map al_BillID (fst (allocate bs r)) = map fst (map (\<lambda>a. (al_BillID a, al_Outstanding a)) (fst (allocate bs r)))" by simp
  also have "\<dots> = take (length (fst (allocate bs r))) (map ob_BillID (filter (\<lambda>b. 0 < ob_Outstanding b) bs))"
    unfolding allocate_ids by (simp add: take_map)
  finally show ?thesis using distinct_map_filter [OF assms] by (simp add: distinct_take)
qed

text \<open>Sorting by one key after another orders by the last, then by the one before.\<close>

lemma sorted_wrt_insort_key:
  assumes "sorted_wrt (\<lambda>x y. f x < f y \<or> f x = f y \<and> R x y) zs" "\<forall>z \<in> set zs. R y z"
  shows "sorted_wrt (\<lambda>x y. f x < f y \<or> f x = f y \<and> R x y) (insort_key (f :: 'a \<Rightarrow> 'k :: linorder) y zs)"
  using assms by (induction zs) (auto simp: set_insort_key)

lemma sorted_wrt_sort_key:
  fixes f :: "'a \<Rightarrow> 'k :: linorder"
  assumes "sorted_wrt R ys"
  shows "sorted_wrt (\<lambda>x y. f x < f y \<or> f x = f y \<and> R x y) (sort_key f ys)"
  using assms by (induction ys) (auto simp: sorted_wrt_insort_key)

lemma taken_first:
  assumes "sorted_wrt (\<lambda>x y. \<not> R y x) xs" "\<not> R y y" "y \<in> set (take n xs)" "x \<in> set xs" "R x y"
  shows "x \<in> set (butlast (take n xs))"
proof -
  obtain j where j: "j < length (take n xs)" "take n xs ! j = y" using assms(3) by (metis in_set_conv_nth)
  obtain i where i: "i < length xs" "xs ! i = x" using assms(4) by (metis in_set_conv_nth)
  have y: "xs ! j = y" "j < length xs" using j by simp_all
  have "i < j"
  proof (rule ccontr)
    assume "\<not> i < j"
    then consider "i = j" | "j < i" by linarith
    then show False
    proof cases
      case 1
      then show ?thesis using i y assms(2,5) by simp
    next
      case 2
      then show ?thesis using sorted_wrt_nth_less [OF assms(1) 2 i(1)] i(2) y(1) assms(5) by simp
    qed
  qed
  then have "i < length (butlast (take n xs))" "butlast (take n xs) ! i = x"
    using i j by (auto simp: nth_butlast)
  then show ?thesis by (metis nth_mem)
qed

text \<open>The order in which bills are settled: by date, then by when they were entered, then by id.\<close>

definition older_bill :: "BillHead \<Rightarrow> BillHead \<Rightarrow> bool" where
  "older_bill g h \<longleftrightarrow> h_BillDate g < h_BillDate h \<or> h_BillDate g = h_BillDate h \<and>
     (h_CreatedAt g < h_CreatedAt h \<or> h_CreatedAt g = h_CreatedAt h \<and> h_ID g < h_ID h)"

lemma sort_bills: "sorted_wrt (\<lambda>g h. \<not> older_bill h g) (sort_key h_BillDate (sort_key h_CreatedAt (sort_key h_ID hs)))"
proof -
  have "sorted_wrt (\<lambda>g h. h_ID g \<le> h_ID h) (sort_key h_ID hs)"
    using sorted_sort_key [of h_ID hs] by (simp add: sorted_map)
  from sorted_wrt_sort_key [OF sorted_wrt_sort_key [OF this, of h_CreatedAt], of h_BillDate]
  show ?thesis by (rule sorted_wrt_mono_rel [rotated]) (auto simp: older_bill_def)
qed

text \<open>What the receipt finds still owed on a bill when it reads it under its lock.\<close>

definition owed_now :: "env \<Rightarrow> ReceiptRequest \<Rightarrow> db \<Rightarrow> uuid \<Rightarrow> rat" where
  "owed_now E req s b =
     (case find_head (rc_TenantID req) b s of
        Some h \<Rightarrow> if receipt_takes req h then dround E 2 (max (payable_net E (rc_TenantID req) b h s - SumByBill (rc_TenantID req) b s) 0) else 0
      | None \<Rightarrow> 0)"

lemma receipt_read_owed:
  assumes "receipt_read E req c acc s = Inr (lb, s')"
  shows "s' = s \<and> map ob_BillID (filter (\<lambda>b. 0 < ob_Outstanding b) (lb_live lb))
    = map ob_BillID (filter (\<lambda>b. 0 < ob_Outstanding b) (lb_live acc)) @ filter (\<lambda>b. 0 < owed_now E req s b) [ob_BillID c]"
  using assms by (cases rule: receipt_read_Inr) (auto simp: owed_now_def)

lemma receipt_reads_owed:
  assumes "foldE (receipt_read E req) cs acc s = Inr (lb, s')"
  shows "map ob_BillID (filter (\<lambda>b. 0 < ob_Outstanding b) (lb_live lb))
    = map ob_BillID (filter (\<lambda>b. 0 < ob_Outstanding b) (lb_live acc)) @ filter (\<lambda>b. 0 < owed_now E req s b) (map ob_BillID cs)"
  using assms
proof (induction cs arbitrary: acc)
  case (Cons c cs)
  then obtain acc' s1 where one: "receipt_read E req c acc s = Inr (acc', s1)" and r: "foldE (receipt_read E req) cs acc' s1 = Inr (lb, s')"
    unfolding foldE_Cons_Inr by blast
  show ?case using receipt_read_owed [OF one] Cons.IH [of acc'] r by auto
qed simp

text \<open>A bill open for the partner, as listed before the transaction.\<close>

definition listed_open :: "env \<Rightarrow> ReceiptRequest \<Rightarrow> db \<Rightarrow> BillHead \<Rightarrow> bool" where
  "listed_open E req pre h \<longleftrightarrow> h \<in> set (bill_head pre) \<and> ledger_bill (rc_TenantID req) (rc_Direction req) (rc_PartnerID req) h
     \<and> 0 < numeric E 2 (ledger_net E (rc_TenantID req) (rc_Direction req) (\<lambda>_. True) pre h - h_PaidAmount h)"

lemma oldest_settled:
  fixes r :: rat
  assumes "runtime_env E" "distinct (map h_ID (bill_head pre))"
    and "foldE (receipt_read E req) (OpenBills E (rc_TenantID req) (rc_Direction req) (rc_PartnerID req) pre) no_live s = Inr (lb, s')"
    and "listed_open E req pre g" "listed_open E req pre h" "older_bill g h" "0 < owed_now E req s (h_ID g)"
  defines "allocs \<equiv> fst (allocate (lb_live lb) r)"
  assumes "h_ID h \<in> al_BillID ` set allocs"
  shows "\<exists>a \<in> set allocs. al_BillID a = h_ID g \<and> al_Remaining a = 0"
proof -
  let ?open = "\<lambda>h. 0 < numeric E 2 (ledger_net E (rc_TenantID req) (rc_Direction req) (\<lambda>_. True) pre h - h_PaidAmount h)"
  let ?hs = "sort_key h_BillDate (sort_key h_CreatedAt (sort_key h_ID (filter (ledger_bill (rc_TenantID req) (rc_Direction req) (rc_PartnerID req)) (bill_head pre))))"
  define xs where "xs = filter (\<lambda>h. 0 < owed_now E req s (h_ID h)) (filter ?open ?hs)"
  define n where "n = length allocs"
  have ids: "map al_BillID allocs = map h_ID (take n xs)"
  proof -
    have "map al_BillID allocs = map fst (map (\<lambda>a. (al_BillID a, al_Outstanding a)) allocs)" by simp
    also have "\<dots> = take n (map ob_BillID (filter (\<lambda>b. 0 < ob_Outstanding b) (lb_live lb)))"
      unfolding allocs_def n_def allocate_ids by (simp add: take_map o_def)
    also have "\<dots> = take n (map h_ID xs)"
      using receipt_reads_owed [OF assms(3)] by (simp add: xs_def no_live_def OpenBills_def filter_map o_def open_bill_def)
    finally show ?thesis by (simp only: take_map)
  qed
  have in_xs: "x \<in> set xs \<longleftrightarrow> listed_open E req pre x \<and> 0 < owed_now E req s (h_ID x)" for x
    by (auto simp: xs_def listed_open_def)
  obtain y where y: "y \<in> set (take n xs)" "h_ID y = h_ID h"
  proof -
    have "h_ID h \<in> h_ID ` set (take n xs)" using assms(9) unfolding set_map [symmetric] ids .
    then show ?thesis using that by (auto simp del: in_xs)
  qed
  have "listed_open E req pre y" using in_set_takeD [OF y(1)] by (simp add: in_xs)
  then have "y = h" using assms(2,5) y(2) by (auto simp: listed_open_def distinct_map inj_on_def)
  have "sorted_wrt (\<lambda>g h. \<not> older_bill h g) xs" unfolding xs_def by (intro sorted_wrt_filter sort_bills)
  moreover have "\<not> older_bill h h" by (simp add: older_bill_def)
  ultimately have "g \<in> set (butlast (take n xs))"
    by (rule taken_first) (use y(1) \<open>y = h\<close> assms(4,6,7) in_xs in simp_all)
  then have "h_ID g \<in> h_ID ` set (butlast (take n xs))" by (rule imageI)
  then have "h_ID g \<in> al_BillID ` set (butlast allocs)" unfolding set_map [symmetric] map_butlast ids .
  then obtain a where a: "a \<in> set (butlast allocs)" "al_BillID a = h_ID g" by auto
  then have "al_Remaining a = 0" using allocate_settles [of "lb_live lb" r] by (simp add: allocs_def list_all_iff)
  then show ?thesis using a(2) in_set_butlastD [OF a(1)] by (intro bexI [of _ a]) simp_all
qed

lemma allocated_listed:
  assumes "foldE (receipt_read E req) (OpenBills E (rc_TenantID req) (rc_Direction req) (rc_PartnerID req) pre) no_live s = Inr (lb, s')"
    and "a \<in> set (fst (allocate (lb_live lb) r))"
  shows "\<exists>h. listed_open E req pre h \<and> h_ID h = al_BillID a"
proof -
  obtain x where "x \<in> set (lb_live lb)" "al_BillID a = ob_BillID x" using allocate_from [OF assms(2)] by blast
  moreover have "subseq (map ob_BillID (lb_live lb)) (map ob_BillID (OpenBills E (rc_TenantID req) (rc_Direction req) (rc_PartnerID req) pre))"
    using receipt_reads [OF assms(1)] by (auto simp: no_live_def)
  ultimately have "al_BillID a \<in> set (map ob_BillID (OpenBills E (rc_TenantID req) (rc_Direction req) (rc_PartnerID req) pre))"
    using list_emb_set [of "(=)"] by (metis imageI list.set_map)
  then show ?thesis by (auto simp: OpenBills_def listed_open_def open_bill_def)
qed

text \<open>
  C16: a lump sum settles a partner's bills oldest first and to the last cent.  On success every bill the
  receipt names was listed as open, and before any money goes to it every older listed bill (by date,
  then by entry, then by id) on which something is owed is settled in full by the same receipt; the new
  payment rows add up to exactly the money handed over, one row per bill the receipt names; every
  bill but the last it names is settled in full; each is an approved bill of the partner in the
  right direction, gets no more than it owes after returns and payments, is paid up to its net
  total when settled and never beyond its total; no other bill changes.  A refused receipt changes
  nothing.  The list of open bills may be older than the transaction.
\<close>

theorem receipt_books:
  assumes "runtime_env E" "distinct (map h_ID (bill_head pre))"
  shows "case Receipt_Execute E req pre s of
      (Inl e, s') \<Rightarrow> s' = s
    | (Inr res, s') \<Rightarrow> rr_Booked res = rc_Amount req
        \<and> (\<exists>ps. payment_head s' = payment_head s @ ps \<and> sum_list (map p_Amount ps) = rc_Amount req
              \<and> map p_BillID ps = map al_BillID (rr_Allocations res))
        \<and> (\<forall>a \<in> set (rr_Allocations res). \<exists>h. listed_open E req pre h \<and> h_ID h = al_BillID a)
        \<and> (\<forall>g h. listed_open E req pre g \<and> listed_open E req pre h \<and> older_bill g h \<and> 0 < owed_now E req s (h_ID g)
              \<and> h_ID h \<in> al_BillID ` set (rr_Allocations res) \<longrightarrow>
              (\<exists>a \<in> set (rr_Allocations res). al_BillID a = h_ID g \<and> al_Remaining a = 0))
        \<and> list_all (settles E req s s') (rr_Allocations res) \<and> list_all (\<lambda>a. al_Remaining a = 0) (butlast (rr_Allocations res))
        \<and> (\<forall>t b. t \<noteq> rc_TenantID req \<or> b \<notin> al_BillID ` set (rr_Allocations res) \<longrightarrow> find_head t b s' = find_head t b s)"
proof -
  obtain r s' where r: "Receipt_Execute E req pre s = (r, s')" by force
  let ?cs = "OpenBills E (rc_TenantID req) (rc_Direction req) (rc_PartnerID req) pre"
  show ?thesis
  proof (cases r)
    case (Inl e)
    then have "s' = s" using r runTx_atomic [of "receipt_tx E req _ ?cs" s] by (auto simp: Receipt_Execute_def split: sum.splits)
    then show ?thesis using r Inl by simp
  next
    case (Inr res)
    then obtain pt where c: "receipt_checks E req = Inr pt" and tx: "receipt_tx E req pt ?cs s = Inr (res, s')"
      using r by (auto simp: Receipt_Execute_def runTx_Inr split: sum.splits)
    obtain lb us where f: "foldE (receipt_read E req) ?cs no_live s = Inr (lb, s)"
      and rest: "snd (allocate (lb_live lb) (rc_Amount req)) \<le> 0"
      and pay: "forE (receipt_pay E req pt lb) (fst (allocate (lb_live lb) (rc_Amount req))) s = Inr (us, s')"
      and res: "res = receipt_result req lb (fst (allocate (lb_live lb) (rc_Amount req)))"
      using tx by (rule receipt_tx_Inr)
    let ?al = "fst (allocate (lb_live lb) (rc_Amount req))"
    have amt: "0 < rc_Amount req" "on_grid 2 (rc_Amount req)"
    proof -
      have "0 < rc_Amount req \<and> rc_Amount req = dround E 2 (rc_Amount req)"
        using c by (auto simp: receipt_checks_def checkReceipt_def split: if_splits sum.splits)
      then show "0 < rc_Amount req" "on_grid 2 (rc_Amount req)" using dround_grid [OF assms(1), of 2 "rc_Amount req"] by simp_all
    qed
    obtain ids: "subseq (map ob_BillID (lb_live lb)) (map ob_BillID ?cs)" and live: "list_all (live_read E req s lb) (lb_live lb)"
      using receipt_reads [OF f] by (auto simp: no_live_def)
    have di: "distinct (map ob_BillID (lb_live lb))" by (rule subseq_distinct [OF ids OpenBills_distinct [OF assms(2)]])
    note from_live = allocate_from [of _ "lb_live lb" "rc_Amount req"] and dal = allocate_distinct [OF di, of "rc_Amount req"]
    note P = receipt_pays [OF pay assms(1) dal]
    have "on_grid 2 (ob_Outstanding x)" if "x \<in> set (lb_live lb)" for x
      using live that dround_grid [OF assms(1)] by (auto simp: list_all_iff live_read_def)
    then have g: "list_all (\<lambda>a. on_grid 2 (al_Applied a)) ?al" by (intro allocate_grid amt(2)) (simp add: list_all_iff)
    have num: "map (\<lambda>a. numeric E 4 (al_Applied a)) ?al = map al_Applied ?al"
      using g on_grid_mono [of 2 _ 4] numeric_fix [OF assms(1), of 4] by (auto simp: list_all_iff)
    have sum: "sum_list (map al_Applied ?al) = rc_Amount req"
      using allocate_sum [of "lb_live lb" "rc_Amount req"] allocate_rest [of "rc_Amount req" "lb_live lb"] rest amt(1) by (auto simp: max_def split: if_splits)
    obtain ps where ps: "payment_head s' = payment_head s @ ps" "list_all2 (pays E req pt) ?al ps" using P by blast
    have pid: "map p_BillID ps = map al_BillID ?al"
      using ps(2) by (induction rule: list_all2_induct) (auto simp: pays_def payment_of_def)
    have set: "settles E req s s' a" if a: "a \<in> set ?al" for a
    proof -
      obtain x where x: "x \<in> set (lb_live lb)" "al_BillID a = ob_BillID x" "al_Outstanding a = ob_Outstanding x" using from_live [OF a] by blast
      have "live_read E req s lb x" using live x(1) by (simp add: list_all_iff)
      then show ?thesis
        by (rule settled_allocation [OF assms(1) _ x(2,3)]) (use allocate_each [of "lb_live lb" "rc_Amount req"] P a in \<open>auto simp: list_all_iff\<close>)
    qed
    have k: "rr_Allocations res = ?al" "rr_Booked res = sum_list (map al_Applied ?al)" by (simp_all add: res receipt_result_def)
    have old: "\<exists>a \<in> set ?al. al_BillID a = h_ID g \<and> al_Remaining a = 0"
      if "listed_open E req pre g \<and> listed_open E req pre h \<and> older_bill g h \<and> 0 < owed_now E req s (h_ID g) \<and> h_ID h \<in> al_BillID ` set ?al" for g h
      using that oldest_settled [OF assms f, where g = g and h = h] by blast
    have listed: "\<exists>h. listed_open E req pre h \<and> h_ID h = al_BillID a" if "a \<in> set ?al" for a
      by (rule allocated_listed [OF f that])
    have rest: "list_all (settles E req s s') ?al \<and> list_all (\<lambda>a. al_Remaining a = 0) (butlast ?al)
      \<and> (\<forall>t b. t \<noteq> rc_TenantID req \<or> b \<notin> al_BillID ` set ?al \<longrightarrow> find_head t b s' = find_head t b s)"
      using set allocate_settles [of "lb_live lb" "rc_Amount req"] P by (simp add: list_all_iff)
    have rows: "\<exists>ps. payment_head s' = payment_head s @ ps \<and> sum_list (map p_Amount ps) = rc_Amount req \<and> map p_BillID ps = map al_BillID ?al"
      using sum ps(1) pays_sum [OF ps(2)] num pid by auto
    show ?thesis unfolding r Inr old.prod.case sum.case k
      by (intro conjI ballI allI impI) (use sum rows rest listed old in blast)+
  qed
qed

section \<open>Examples\<close>

definition demo_sale :: "uuid \<Rightarrow> gotime \<Rightarrow> rat \<Rightarrow> BillHead" where
  "demo_sale i d amount = blank_head\<lparr>h_ID := i, h_TenantID := 11, h_BillNo := ''SL-'' @ nat_string i, h_BillType := BillTypeSale,
     h_SubType := BillSubTypeSale, h_Status := StatusApproved, h_PartnerID := Some 31, h_BillDate := d, h_TotalAmount := amount\<rparr>"

definition demo_ledger :: db where
  "demo_ledger = demo_shop\<lparr>bill_head := [demo_sale 502 9 20, demo_sale 501 5 10]\<rparr>"

definition demo_record :: RecordPaymentRequest where
  "demo_record = \<lparr> rp_TenantID = 11, rp_BillID = 502, rp_CreatorID = 14, rp_Amount = 5, rp_PayType = [], rp_Remark = [] \<rparr>"

definition demo_receipt :: ReceiptRequest where
  "demo_receipt = \<lparr> rc_TenantID = 11, rc_CreatorID = 14, rc_Direction = DirectionReceivable, rc_PartnerID = 31, rc_Amount = 15,
     rc_PayType = ''wechat'', rc_Remark = [] \<rparr>"

lemma demo_record_accepted: "\<not> isl (fst (RecordPayment_Execute std_env demo_record demo_ledger))"
  by code_simp

lemma demo_receipt_accepted: "\<not> isl (fst (Receipt_Execute std_env demo_receipt demo_ledger demo_ledger))"
  by code_simp

lemma demo_ledger_facts:
  "find_head 11 502 demo_ledger = Some (demo_sale 502 9 20)" "SumByBill 11 502 demo_ledger = 0"
  "payable_net std_env 11 502 (demo_sale 502 9 20) demo_ledger = 20" "distinct (map h_ID (bill_head demo_ledger))"
  by (simp_all add: demo_ledger_def demo_sale_def demo_shop_def empty_db_def blank_head_def find_head_def head_at_def SumByBill_def
      payable_net_def ReturnedAmount_def gives_back_def)

theorem record_payment_books_witness:
  "\<exists>p s' h'. RecordPayment_Execute std_env demo_record demo_ledger = (Inr p, s') \<and> find_head 11 502 s' = Some h'
     \<and> h_PaidAmount h' = SumByBill 11 502 s' \<and> SumByBill 11 502 s' = p_Amount p"
proof -
  obtain p s' where r: "RecordPayment_Execute std_env demo_record demo_ledger = (Inr p, s')"
    using not_isl_result [OF demo_record_accepted] by blast
  have k: "rp_TenantID demo_record = 11" "rp_BillID demo_record = 502" by (simp_all add: demo_record_def)
  note f = demo_ledger_facts
  have "on_grid 4 (SumByBill 11 502 demo_ledger)" "on_grid 4 (payable_net std_env 11 502 (demo_sale 502 9 20) demo_ledger)"
    unfolding f(2,3) by simp_all
  with record_payment_books [of std_env demo_record demo_ledger, unfolded k, OF std_runtime f(1)] r f(2) show ?thesis by auto
qed

theorem receipt_books_witness:
  "\<exists>res s' ps. Receipt_Execute std_env demo_receipt demo_ledger demo_ledger = (Inr res, s')
     \<and> payment_head s' = payment_head demo_ledger @ ps \<and> sum_list (map p_Amount ps) = 15"
proof -
  obtain res s' where r: "Receipt_Execute std_env demo_receipt demo_ledger demo_ledger = (Inr res, s')"
    using not_isl_result [OF demo_receipt_accepted] by blast
  have k: "rc_Amount demo_receipt = 15" by (simp add: demo_receipt_def)
  show ?thesis using receipt_books [OF std_runtime demo_ledger_facts(4), of demo_ledger demo_receipt] r k by auto
qed
end
