(* ===== verification/Bill_Lifecycle.thy ===== *)
theory Bill_Lifecycle
  imports Import_Safety Quick_Checkout Purchase_Return Payments
begin

text \<open>
  The life of a bill as an abstract machine, and the use cases as its implementation.  The abstract
  state shows of every bill its status and how often it was restored.  Whatever a use case does,
  it takes the bills through steps of the machine; so what holds of the machine holds of every
  run of the program.
\<close>

section \<open>The machine\<close>

type_synonym cards = "(uuid \<times> uuid, BillStatus \<times> int) map"

inductive life :: "cards \<Rightarrow> cards \<Rightarrow> bool" where
  opened: "c k = None \<Longrightarrow> life c (c(k \<mapsto> (StatusDraft, 0)))"
| approved: "c k = Some (StatusDraft, r) \<Longrightarrow> life c (c(k \<mapsto> (StatusApproved, r)))"
| cancelled: "c k = Some (StatusDraft, r) \<Longrightarrow> life c (c(k \<mapsto> (StatusCancelled, r)))"
| restored: "c k = Some (StatusCancelled, r) \<Longrightarrow> r < 1 \<Longrightarrow> life c (c(k \<mapsto> (StatusDraft, r + 1)))"

inductive_cases lifeE: "life c c'"

definition lives :: "cards \<Rightarrow> cards \<Rightarrow> bool" where
  "lives = life\<^sup>*\<^sup>*"

lemma lives_refl [simp]: "lives c c"
  by (simp add: lives_def)

lemma lives_trans: "lives c c' \<Longrightarrow> lives c' c'' \<Longrightarrow> lives c c''"
  unfolding lives_def by (rule rtranclp_trans)

lemma lives_step: "life c c' \<Longrightarrow> lives c c'"
  by (simp add: lives_def)

text \<open>The states a bill of the machine can be in.\<close>

definition card_ok :: "BillStatus \<times> int \<Rightarrow> bool" where
  "card_ok x \<longleftrightarrow> fst x \<in> {StatusDraft, StatusApproved, StatusCancelled} \<and> snd x \<in> {0, 1}"

text \<open>A bill that is through never changes again.\<close>

definition card_settled :: "(BillStatus \<times> int) option \<Rightarrow> bool" where
  "card_settled x \<longleftrightarrow> (\<exists>r. x = Some (StatusApproved, r)) \<or> (\<exists>r \<ge> 1. x = Some (StatusCancelled, r))"

lemma life_settled: "life c c' \<Longrightarrow> card_settled (c k) \<Longrightarrow> c' k = c k"
  by (auto elim!: lifeE simp: card_settled_def)

lemma lives_settled: "lives c c' \<Longrightarrow> card_settled (c k) \<Longrightarrow> c' k = c k"
  unfolding lives_def
proof (induction rule: rtranclp_induct)
  case (step y z)
  then show ?case using life_settled [of y z k] by simp
qed simp

definition cards_ok :: "cards \<Rightarrow> bool" where
  "cards_ok c \<longleftrightarrow> (\<forall>k x. c k = Some x \<longrightarrow> card_ok x)"

lemma cards_ok_upd: "cards_ok c \<Longrightarrow> card_ok x \<Longrightarrow> cards_ok (c(k \<mapsto> x))"
  by (auto simp: cards_ok_def)

lemma cards_okD: "cards_ok c \<Longrightarrow> c k = Some x \<Longrightarrow> card_ok x"
  unfolding cards_ok_def by blast

lemma life_ok:
  assumes "life c c'" "cards_ok c"
  shows "cards_ok c'"
  using assms(1)
proof cases
  case (restored k r)
  then have "r = 0" using cards_okD [OF assms(2) restored(2)] by (simp add: card_ok_def)
  then show ?thesis using restored assms(2) by (simp add: cards_ok_upd card_ok_def)
next
  case (approved k r)
  then have "card_ok (StatusDraft, r)" using cards_okD [OF assms(2)] by simp
  then show ?thesis using approved assms(2) by (simp add: cards_ok_upd card_ok_def)
next
  case (cancelled k r)
  then have "card_ok (StatusDraft, r)" using cards_okD [OF assms(2)] by simp
  then show ?thesis using cancelled assms(2) by (simp add: cards_ok_upd card_ok_def)
qed (simp add: cards_ok_upd card_ok_def assms(2))

lemma lives_ok: "lives c c' \<Longrightarrow> cards_ok c \<Longrightarrow> cards_ok c'"
  unfolding lives_def by (induction rule: rtranclp_induct) (simp_all add: life_ok)

section \<open>The bills as cards\<close>

definition cards :: "db \<Rightarrow> cards" where
  "cards s = (\<lambda>(t, b). map_option (\<lambda>h. (h_Status h, h_Revision h)) (find_head t b s))"

text \<open>What the machine shows of a head.\<close>

definition lifeline :: "BillHead \<Rightarrow> (uuid \<times> uuid \<times> bool) \<times> BillStatus \<times> int" where
  "lifeline h = ((h_ID h, h_TenantID h, h_deleted h), h_Status h, h_Revision h)"

interpretation lifeline: head_view lifeline
  by unfold_locales (simp_all add: lifeline_def set_warehouse_def set_paid_def)

lemma cards_lifeline: "views lifeline s' = views lifeline s \<Longrightarrow> cards s' = cards s"
proof -
  assume "views lifeline s' = views lifeline s"
  then have e: "map_option lifeline (find_head t b s') = map_option lifeline (find_head t b s)" for t b
    by (rule views_GetBill [where u = fst]) (simp add: lifeline_def)
  have "map_option (\<lambda>h. (h_Status h, h_Revision h)) (find_head t b s') = map_option (\<lambda>h. (h_Status h, h_Revision h)) (find_head t b s)" for t b
    using arg_cong [OF e, of "map_option snd"] by (simp add: option.map_comp o_def lifeline_def)
  then show "cards s' = cards s" by (simp add: cards_def)
qed

lemma untouched_cards: "untouched (views lifeline) m \<Longrightarrow> untouched cards m"
  by (intro untouchedI' cards_lifeline) (rule untouchedD)

text \<open>A row that is added opens a card, unless the key is taken.\<close>

lemma cards_append:
  assumes "h_deleted h = False"
  shows "cards (s\<lparr>bill_head := bill_head s @ [h]\<rparr>) =
    (if cards s (h_TenantID h, h_ID h) = None then (cards s)((h_TenantID h, h_ID h) \<mapsto> (h_Status h, h_Revision h)) else cards s)"
  using assms by (auto simp: fun_eq_iff cards_def find_head_def find_append head_at_def split: option.split)

lemma cards_items [simp]: "cards (s\<lparr>bill_item := x\<rparr>) = cards s" "cards (s\<lparr>draws := n\<rparr>) = cards s"
  by (simp_all add: cards_def find_head_def)

text \<open>A status that is written moves the card of the key.\<close>

lemma cards_status:
  assumes "UpdateBillStatus E t b st ap rv s = Inr (u, s')"
  shows "cards s' = (cards s)((t, b) := map_option (\<lambda>(_, r). (st, case rv of None \<Rightarrow> r | Some r' \<Rightarrow> r')) (cards s (t, b)))"
proof -
  let ?f = "\<lambda>h. h\<lparr>h_Status := st, h_UpdatedAt := now E, h_ApprovedAt := (case ap of None \<Rightarrow> h_ApprovedAt h | Some (a, _) \<Rightarrow> Some a),
    h_ApprovedBy := (case ap of None \<Rightarrow> h_ApprovedBy h | Some (_, u) \<Rightarrow> Some u), h_Revision := (case rv of None \<Rightarrow> h_Revision h | Some r \<Rightarrow> r)\<rparr>"
  have s': "s' = s\<lparr>bill_head := update_where (head_at t b) ?f (bill_head s)\<rparr>" using assms by (simp add: UpdateBillStatus_def)
  have f: "find_head t' b' s' = map_option (\<lambda>h. if head_at t b h then ?f h else h) (find_head t' b' s)" for t' b'
    unfolding s' find_head_def by (simp, rule find_update_where_same) (simp add: head_at_def)
  have "cards s' (t', b') = ((cards s)((t, b) := map_option (\<lambda>(_, r). (st, case rv of None \<Rightarrow> r | Some r' \<Rightarrow> r')) (cards s (t, b)))) (t', b')" for t' b'
  proof (cases "find_head t' b' s")
    case None
    then show ?thesis by (auto simp: cards_def f)
  next
    case (Some h)
    then have "head_at t b h \<longleftrightarrow> (t', b') = (t, b)" using find_head_key [OF Some] by (auto simp: head_at_def)
    then show ?thesis using Some by (auto simp: cards_def f)
  qed
  then show ?thesis by (simp add: fun_eq_iff)
qed

section \<open>Operations as steps\<close>

text \<open>
  \<open>moves k x m\<close>: when the card of \<open>k\<close> is \<open>x\<close>, the operation takes the cards through steps of the
  machine; \<open>advances m\<close>: it does so from any cards.
\<close>

definition moves :: "uuid \<times> uuid \<Rightarrow> BillStatus \<times> int \<Rightarrow> 'a op \<Rightarrow> bool" where
  "moves k x m \<longleftrightarrow> (\<forall>s a s'. cards s k = Some x \<longrightarrow> m s = Inr (a, s') \<longrightarrow> lives (cards s) (cards s'))"

definition advances :: "'a op \<Rightarrow> bool" where
  "advances m \<longleftrightarrow> (\<forall>s a s'. m s = Inr (a, s') \<longrightarrow> lives (cards s) (cards s'))"

lemma advances_untouched: "untouched cards m \<Longrightarrow> advances m"
  by (auto simp: advances_def dest: untouchedD)

lemma moves_advances: "advances m \<Longrightarrow> moves k x m"
  by (auto simp: advances_def moves_def)

lemmas moves_untouched = moves_advances [OF advances_untouched]

lemma advances_bindE: "advances m \<Longrightarrow> (\<And>a. advances (f a)) \<Longrightarrow> advances (bindE m f)"
  unfolding advances_def bindE_Inr by (blast intro: lives_trans)

lemma advances_thenE: "advances m \<Longrightarrow> advances n \<Longrightarrow> advances (thenE m n)"
  unfolding advances_def thenE_Inr by (blast intro: lives_trans)

lemma moves_bindE: "moves k x m \<Longrightarrow> (\<And>a. advances (f a)) \<Longrightarrow> moves k x (bindE m f)"
  unfolding moves_def advances_def bindE_Inr by (blast intro: lives_trans)

lemma moves_thenE: "moves k x m \<Longrightarrow> advances n \<Longrightarrow> moves k x (thenE m n)"
  unfolding moves_def advances_def thenE_Inr by (blast intro: lives_trans)

text \<open>What does not touch the cards may come first.\<close>

lemma moves_after: "untouched cards m \<Longrightarrow> (\<And>a. moves k x (f a)) \<Longrightarrow> moves k x (bindE m f)"
  unfolding moves_def bindE_Inr by (metis untouchedD)

lemma moves_after_then: "untouched cards m \<Longrightarrow> moves k x n \<Longrightarrow> moves k x (thenE m n)"
  unfolding moves_def thenE_Inr by (metis untouchedD)

lemma moves_mapErr: "moves k x m \<Longrightarrow> moves k x (mapErr w m)"
  by (auto simp: moves_def mapErr_Inr)

lemma advances_mapErr: "advances m \<Longrightarrow> advances (mapErr w m)"
  by (auto simp: advances_def mapErr_Inr)

lemma moves_if: "(b \<Longrightarrow> moves k x m) \<Longrightarrow> (\<not> b \<Longrightarrow> moves k x n) \<Longrightarrow> moves k x (if b then m else n)"
  by simp

lemma advances_if: "(b \<Longrightarrow> advances m) \<Longrightarrow> (\<not> b \<Longrightarrow> advances n) \<Longrightarrow> advances (if b then m else n)"
  by simp

text \<open>The lock reads the card the rest starts from.\<close>

lemma advances_locked:
  assumes "\<And>head. moves (t, b) (h_Status head, h_Revision head) (f head)"
  shows "advances (bindE (mapErr w (GetBillForUpdate t b)) f)"
proof -
  have "lives (cards s) (cards s')" if g: "GetBillForUpdate t b s = Inr (head, s1)" and r: "f head s1 = Inr (a, s')" for s s1 s' head a
  proof -
    obtain x where x: "s1 = s" "find_head t b s = Some x" "head = scanBillHead x" using g by (auto simp: GetBillForUpdate_Inr)
    then have "cards s (t, b) = Some (h_Status head, h_Revision head)" by (simp add: cards_def scanBillHead_def)
    then show ?thesis using assms [of head] r x(1) unfolding moves_def by blast
  qed
  then show ?thesis by (auto simp: advances_def bindE_Inr mapErr_Inr)
qed

lemma moves_status:
  assumes "\<And>c. c (t, b) = Some (st, r) \<Longrightarrow> life c (c((t, b) \<mapsto> (st', case rv of None \<Rightarrow> r | Some r' \<Rightarrow> r')))"
  shows "moves (t, b) (st, r) (UpdateBillStatus E t b st' ap rv)"
  unfolding moves_def
proof (intro allI impI)
  fix s u s' assume c: "cards s (t, b) = Some (st, r)" and u: "UpdateBillStatus E t b st' ap rv s = Inr (u, s')"
  show "lives (cards s) (cards s')" using assms [of "cards s", OF c] cards_status [OF u] c by (simp add: lives_step)
qed

lemma moves_approve: "st = StatusDraft \<Longrightarrow> moves (t, b) (st, r) (UpdateBillStatus E t b StatusApproved ap None)"
  by (rule moves_status) (simp add: life.approved)

lemma moves_cancel: "st = StatusDraft \<Longrightarrow> moves (t, b) (st, r) (UpdateBillStatus E t b StatusCancelled ap None)"
  by (rule moves_status) (simp add: life.cancelled)

lemma moves_restore: "st = StatusCancelled \<Longrightarrow> \<not> 1 \<le> r \<Longrightarrow> moves (t, b) (st, r) (UpdateBillStatus E t b StatusDraft ap (Some (r + 1)))"
  by (rule moves_status) (simp add: life.restored)

lemma CreateBill_cards:
  assumes "CreateBill E h items s = Inr (u, s')"
  shows "cards s' = (if cards s (h_TenantID h, h_ID h) = None then (cards s)((h_TenantID h, h_ID h) \<mapsto> (h_Status h, 0)) else cards s)"
proof -
  have s': "s' = s\<lparr>bill_head := bill_head s @ [created_head E h], bill_item := bill_item s @ map (stored_item E) items\<rparr>"
    using assms by (simp add: CreateBill_Inr)
  show ?thesis unfolding s' using cards_append [of "created_head E h" s] by simp
qed

lemma advances_CreateBill: "h_Status h = StatusDraft \<Longrightarrow> advances (CreateBill E h items)"
  by (auto simp: advances_def CreateBill_cards intro: lives_step life.opened)

lemma advances_runTx: "advances m \<Longrightarrow> lives (cards s) (cards (snd (runTx m s)))"
  by (cases "m s") (auto simp: runTx_def advances_def)

section \<open>What leaves the cards alone\<close>

lemma untouched_cards_views [tripleI]:
  "untouched cards (uuid_New E)" "untouched cards (Payment_Record E p)" "untouched cards (NextBillNo E t x)"
  "untouched cards (UpdateItemPurchasePrice E t i pr)" "untouched cards (GetBillForUpdate t b)" "untouched cards (UpdatePaidAmount E t b a)"
  "untouched cards (resolveApprovalWarehouse E head t b)" "untouched cards (recordInitialPayment E head t b c a pm w r)"
  by (intro untouched_cards untouched_views lifeline.UpdatePaidAmount_view lifeline.resolveApprovalWarehouse_view lifeline.recordInitialPayment_view)+

lemma untouched_cards_items [tripleI]: "untouched cards (forE (build_item E t b) items)"
  by (rule untouchedI') (auto dest!: build_items_Inr)

lemma untouched_cards_links [tripleI]: "untouched cards (SetLinkBill t b l)" "untouched cards (SetLinkItems t b ls)"
proof -
  show "untouched cards (SetLinkBill t b l)"
    by (rule untouched_cards, rule untouchedI') (auto simp: SetLinkBill_def views_update_where lifeline_def split: if_splits)
  have "untouched cards (set_link_item t b x)" for x
    by (rule untouchedI', cases x) (auto simp: set_link_item_def split: if_splits)
  then show "untouched cards (SetLinkItems t b ls)" unfolding SetLinkItems_def by (intro tripleI)
qed

lemma untouched_cards_edit [tripleI]: "untouched cards (UpdateBill E h items)"
  by (rule untouched_cards, rule untouchedI')
     (auto simp: UpdateBill_def paid_checked_def thenE_Inr insertItems_def views_update_where lifeline_def updated_head_def split: if_splits)

section \<open>Drafts\<close>

lemma advances_persist_bill: "h_Status h = StatusDraft \<Longrightarrow> advances (persist_bill E who px h items)"
  unfolding persist_bill_def
  by (intro advances_bindE advances_thenE advances_mapErr advances_CreateBill) (simp_all add: advances_untouched tripleI)

lemma draft_heads [simp]:
  "h_Status (purchase_head E req i its am) = StatusDraft" "h_Status (sale_head E sreq i its amt) = StatusDraft"
  "h_Status (return_head E rreq i its) = StatusDraft" "h_Status (checkout_head E qreq src at' i no sub amt) = StatusDraft"
  "h_Status (purchase_return_head E preq po i w no amt) = StatusDraft"
  by (simp_all add: purchase_head_def sale_head_def return_head_def checkout_head_def purchase_return_head_def split: prod.split)

lemma CreatePurchase_lives: "lives (cards s) (cards (snd (CreatePurchaseDraft_Execute E req s)))"
  unfolding CreatePurchaseDraft_Execute_def
  by (rule advances_runTx) (intro advances_thenE advances_bindE advances_persist_bill draft_heads advances_untouched tripleI)

lemma CreateSale_lives: "lives (cards s) (cards (snd (CreateSale_Execute E req s)))"
  unfolding CreateSale_Execute_def Let_def
  by (rule advances_runTx) (intro advances_thenE advances_bindE advances_persist_bill draft_heads advances_untouched tripleI)

lemma CreateReturn_lives: "lives (cards s) (cards (snd (CreateReturn_Execute E req s)))"
proof -
  have links: "untouched cards (case cr_LinkBillID req of None \<Rightarrow> returnE out
       | Some sale \<Rightarrow> thenE (mapErr w (SetLinkBill t b sale)) (thenE (whenE c (mapErr w' (SetLinkItems t sale ls))) (returnE out)))" for out w t b c w' ls
    by (intro tripleI)
  show ?thesis unfolding CreateReturn_Execute_def
    by (rule advances_runTx) (intro advances_thenE advances_bindE advances_persist_bill draft_heads advances_untouched tripleI links)
qed

lemma UpdateSale_lives: "lives (cards s) (cards (snd (UpdateSaleDraft_Execute E req s)))"
  unfolding UpdateSaleDraft_Execute_def sale_edit_def Let_def
  by (rule advances_runTx, rule advances_untouched) (intro tripleI)

lemma CancelPurchase_lives: "lives (cards s) (cards (snd (CancelPurchase_Execute E t b s)))"
  unfolding CancelPurchase_Execute_def
  by (rule advances_runTx)
     (intro advances_if advances_locked moves_if moves_mapErr moves_cancel moves_untouched advances_untouched tripleI; simp)

lemma RestorePurchase_lives: "lives (cards s) (cards (snd (RestorePurchase_Execute E t b s)))"
  unfolding RestorePurchase_Execute_def
  by (rule advances_runTx)
     (intro advances_if advances_locked moves_if moves_mapErr moves_restore moves_untouched advances_untouched tripleI; simp)

lemma UpdatePurchase_lives: "lives (cards s) (cards (snd (UpdatePurchaseDraft_Execute E units req s)))"
  unfolding UpdatePurchaseDraft_Execute_def purchase_edit_def update_item_def new_item_def Let_def
  by (rule advances_runTx, rule advances_untouched) (intro tripleI)

section \<open>Approvals and everything built on them\<close>

context stock_executor
begin

lemma exec_cards: "untouched cards (exec r)"
  by (rule untouched_cards, rule exec_view)

lemma ship_line_cards: "untouched cards (ship_line E exec req w item)"
  by (rule untouched_cards, rule ship_line_view)

lemma return_line_cards: "untouched cards (return_line E units exec req w origin strict item acc)"
  by (rule untouched_cards, rule return_line_view)

lemma receive_line_cards: "untouched cards (receive_line E exec t b w rate item)"
  unfolding receive_line_def by (intro tripleI exec_cards)

lemma send_back_cards: "untouched cards (send_back E units exec req b w rate item)"
  unfolding send_back_def by (intro tripleI exec_cards)

lemma close_sale_moves: "moves (as_TenantID req, as_BillID req) (StatusDraft, r) (close_sale E req head)"
  unfolding close_sale_def by (intro moves_thenE moves_mapErr moves_approve advances_untouched tripleI refl)

lemma close_return_moves: "moves (ar_TenantID req, ar_BillID req) (StatusDraft, r) (close_return E req gone)"
  unfolding close_return_def
  by (intro moves_if moves_thenE moves_mapErr moves_approve moves_cancel advances_untouched tripleI refl)

lemma ApproveSale_advances: "advances (ApproveSale_executeInTx E exec req)"
proof -
  have draft: "moves (as_TenantID req, as_BillID req) (StatusDraft, r)
    (bindE (readE (GetBillItems (as_TenantID req) (as_BillID req))) (\<lambda>items.
     bindE (mapErr (Wrap ''approve sale'') (resolveApprovalWarehouse E head (as_TenantID req) (as_BillID req))) (\<lambda>w.
     bindE (forE (ship_line E exec req w) items) (\<lambda>ls.
     if shortages ls \<noteq> [] then failE (BatchInsufficientStockError (shortages ls))
     else thenE (close_sale E req head) (returnE (negatives ls))))))" for head r
    by (rule moves_after, intro tripleI, rule moves_after, intro tripleI, rule moves_after, intro tripleI ship_line_cards)
       (intro moves_if moves_thenE close_sale_moves moves_untouched advances_untouched tripleI)
  show ?thesis unfolding ApproveSale_executeInTx_def [abs_def] Let_def
    by (rule advances_locked, intro moves_if; (simp add: draft)?) (intro moves_untouched tripleI)+
qed

lemma ApproveReturn_advances: "advances (approve_return_tx E units exec req)"
proof -
  let ?t = "ar_TenantID req" and ?b = "ar_BillID req"
  have draft: "moves (?t, ?b) (StatusDraft, r)
     (bindE (readE (GetBillItems ?t ?b)) (\<lambda>items.
      bindE (mapErr (Wrap ''approve return'') (resolveApprovalWarehouse E head ?t ?b)) (\<lambda>w.
      bindE (readE (resolveOriginBill E head)) (\<lambda>origin.
      bindE (sale_left E units ?t origin) (\<lambda>rem.
      bindE (strict_check req origin) (\<lambda>strict.
      bindE (foldE (return_line E units exec req w origin strict) items (rem, 0)) (\<lambda>(_, cnt).
      close_return E req (rem \<noteq> None \<and> cnt = 0))))))))" for head r
    unfolding sale_left_def strict_check_def
    by (rule moves_after, intro tripleI, rule moves_after, intro tripleI, rule moves_after, intro tripleI, rule moves_after, intro tripleI,
        rule moves_after, intro tripleI, rule moves_after, intro tripleI return_line_cards)
       (simp add: close_return_moves split: prod.split)
  show ?thesis unfolding approve_return_tx_def [abs_def] Let_def
    by (rule advances_locked, intro moves_if; (simp add: draft del: not_None_eq)?) (intro moves_untouched tripleI)+
qed

lemma ApprovePurchase_advances: "advances (approve_purchase_tx E exec req)"
proof -
  let ?t = "ap_TenantID req" and ?b = "ap_BillID req"
  have draft: "moves (?t, ?b) (StatusDraft, r)
     (bindE (readE (GetBillItems ?t ?b)) (\<lambda>items.
        if \<not> ap_AllowZeroPrice req \<and> zero_price_lines items \<noteq> []
        then failE (Wrap ''approve purchase'' (ZeroPriceLinesError (zero_price_lines items)))
        else
          bindE (mapErr (Wrap ''approve purchase'') (resolveApprovalWarehouse E head ?t ?b)) (\<lambda>w.
          bindE (forE (receive_line E exec ?t ?b w (base_rate head)) items) (\<lambda>_.
          thenE (mapErr (Wrap ''approve purchase: update status'')
                   (UpdateBillStatus E ?t ?b StatusApproved (Some (now E, ap_ApprovedBy req)) None))
          (whenE (0 < ap_PaidAmount req)
             (mapErr (Wrap ''approve purchase'')
                (recordInitialPayment E head ?t ?b (ap_ApprovedBy req) (ap_PaidAmount req) (ap_PayType req) (now E) [])))))))" for head r
    by (rule moves_after, intro tripleI, rule moves_if, intro moves_untouched tripleI, rule moves_after, intro tripleI,
        rule moves_after, intro tripleI receive_line_cards)
       (intro moves_thenE moves_mapErr moves_approve advances_untouched tripleI refl)
  show ?thesis unfolding approve_purchase_tx_def Let_def
    by (rule advances_locked, intro moves_if; (simp add: draft)?) (intro moves_untouched tripleI)+
qed

end

lemma untouched_refund_book [tripleI]: "untouched cards (refund_book_tx E req retNo pt)"
  unfolding refund_book_tx_def Let_def by (intro tripleI)

lemma untouched_receipt [tripleI]: "untouched cards (receipt_tx E req pt candidates)"
  unfolding receipt_tx_def receipt_read_def receipt_pay_def Let_def by (intro tripleI)

lemma untouched_payment [tripleI]: "untouched cards (record_payment_tx E req pt)"
  unfolding record_payment_tx_def Let_def by (intro tripleI)

lemma untouched_lines_back [tripleI]: "untouched cards (purchase_return_lines E req po)"
  unfolding purchase_return_lines_def purchase_return_line_def Let_def by (intro tripleI)

lemma untouched_offset [tripleI]: "untouched cards (offsetPayable E payments po no c a)"
  unfolding offsetPayable_def Let_def by (intro tripleI)

lemma untouched_negative [tripleI]: "untouched cards (RecordNegativeStock E t b u p q)"
  by (rule untouched_cards, rule untouchedI') (simp add: RecordNegativeStock_def)

lemma Receipt_lives: "lives (cards s) (cards (snd (Receipt_Execute E req pre s)))"
  unfolding Receipt_Execute_def by (cases "receipt_checks E req") (auto intro!: advances_runTx advances_untouched tripleI)

lemma RecordPayment_lives: "lives (cards s) (cards (snd (RecordPayment_Execute E req s)))"
  unfolding RecordPayment_Execute_def by (intro advances_runTx advances_untouched tripleI)

lemma RecordRefund_lives: "lives (cards s) (cards (snd (RecordRefund E req s)))"
  unfolding RecordRefund_def by (auto split: sum.split prod.split intro!: advances_runTx advances_untouched tripleI)

lemma discardDraft_lives: "lives (cards s) (cards (discardDraft E t b s))"
proof -
  have "lives (cards s) (cards (snd (runTx (UpdateBillStatus E t b StatusCancelled None None) s)))"
    if "find_head t b s = Some h" "h_Status h = StatusDraft" for h
    using that moves_cancel [of StatusDraft t b "h_Revision h" E None]
    by (auto simp: runTx_def moves_def cards_def split: sum.split)
  then show ?thesis by (auto simp: discardDraft_def GetBill_def scanBillHead_def split: option.split)
qed

context stock_executor
begin

lemma ApproveSale_lives: "lives (cards s) (cards (snd (ApproveSale_Execute E exec req pre s)))"
  unfolding ApproveSale_Execute_def
  by (rule advances_runTx) (intro advances_if advances_bindE ApproveSale_advances advances_untouched tripleI)

lemma ApprovePurchase_lives: "lives (cards s) (cards (snd (ApprovePurchase_ExecuteWithPayment E exec payments req pre s)))"
  unfolding ApprovePurchase_ExecuteWithPayment_def
  by (rule advances_runTx) (intro advances_if advances_thenE ApprovePurchase_advances advances_untouched tripleI)

lemma ApproveReturn_lives: "lives (cards s) (cards (snd (ApproveReturn_Execute E units exec req pre s)))"
  using advances_runTx [OF ApproveReturn_advances, of s units req]
  by (cases "runTx (approve_return_tx E units exec req) s") (auto simp: ApproveReturn_Execute_def split: sum.split)

lemma ReturnSale_lives: "lives (cards s) (cards (snd (ReturnSale_Execute E units exec req s)))"
proof (cases "sale_return_items E units req s")
  case (Inr x)
  obtain sale items where x: "x = (sale, items)" by force
  obtain r s1 where c: "CreateReturn_Execute E (sale_return_draft req sale items) s = (r, s1)" by force
  have l1: "lives (cards s) (cards s1)" using CreateReturn_lives [of s E "sale_return_draft req sale items"] c by simp
  show ?thesis
  proof (cases r)
    case (Inr y)
    let ?ar = "\<lparr> ar_TenantID = rs_TenantID req, ar_BillID = fst y, ar_CreatorID = rs_CreatorID req, ar_Strict = True \<rparr>"
    obtain r2 s2 where a: "ApproveReturn_Execute E units exec ?ar s1 s1 = (r2, s2)" by force
    have l2: "lives (cards s) (cards s2)" using lives_trans [OF l1] ApproveReturn_lives [of s1 units ?ar s1] a by simp
    show ?thesis using lives_trans [OF l2 discardDraft_lives] l2 c a Inr x \<open>sale_return_items E units req s = Inr x\<close>
      by (cases y; cases r2) (auto simp: ReturnSale_Execute_def)
  qed (use l1 c Inr x in \<open>simp add: ReturnSale_Execute_def\<close>)
qed (simp add: ReturnSale_Execute_def)

lemma SaleRefund_lives: "lives (cards s) (cards (snd (SaleRefund_Execute E units exec req s)))"
proof -
  obtain r s1 where c: "ReturnSale_Execute E units exec (sr_Return req) s = (r, s1)" by force
  have l1: "lives (cards s) (cards s1)" using ReturnSale_lives [of s units "sr_Return req"] c by simp
  have "lives (cards s) (cards s2)" if "refund_book_tx E req no pt s1 = Inr (u, s2)" for no pt u s2
    using l1 untouchedD [OF untouched_refund_book that] by simp
  then show ?thesis using l1 by (auto simp: SaleRefund_Execute_def c dest: runTx_atomic split: sum.split prod.split)
qed

lemma QuickCheckout_lives: "lives (cards s) (cards (snd (QuickCheckout_Execute E exec req pre s)))"
proof -
  have "advances (checkout_tx E exec req src at')" for src at'
    unfolding checkout_tx_def assembleSaleItems_def Let_def case_prod_beta
    by (intro advances_bindE advances_if advances_thenE advances_mapErr ApproveSale_advances advances_CreateBill draft_heads advances_untouched tripleI)
  then have "lives (cards s) (cards s')" if "checkout_tx E exec req src at' s = Inr (r, s')" for src at' r s'
    using that unfolding advances_def by blast
  then show ?thesis by (auto simp: QuickCheckout_Execute_def dest: runTx_atomic split: sum.split prod.split option.split)
qed

lemma PurchaseReturn_lives:
  assumes "PurchaseReturn_Execute E True payments exec req s = (Inr out, s')" "cards s (pq_TenantID req, po_BillID out) = None"
  shows "lives (cards s) (cards s')"
proof -
  let ?t = "pq_TenantID req"
  have tx: "purchase_return_tx E True payments exec req s = Inr (out, s')"
    using assms(1) by (auto simp: PurchaseReturn_Execute_def thenE_liftE_Inr)
  then obtain po where po: "find_head ?t (pq_PurchaseBillID req) s = Some po"
    by (cases "find_head ?t (pq_PurchaseBillID req) s") (auto simp: purchase_return_tx_def Let_def bindE_mapErr_Inr GetBillForUpdate_Inr)
  obtain linked s1 w s2 i no s3 snaps s4 reduced where
    l: "purchase_return_lines E req (scanBillHead po) s = Inr (linked, s1)"
    and w: "resolveApprovalWarehouse E (scanBillHead po) ?t (pq_PurchaseBillID req) s1 = Inr (w, s2)"
    and b: "purchase_return_book E req (scanBillHead po) w linked s2 = Inr ((i, no), s3)"
    and f: "forE (send_back E True exec req i w (return_rate (scanBillHead po))) (map fst linked) s3 = Inr (snaps, s4)"
    and p: "offsetPayable E payments (scanBillHead po) no (pq_CreatorID req) (line_total (map fst linked))
       (head_update ?t i (set_approved E (pq_CreatorID req)) s4) = Inr (reduced, s')"
    and out: "po_BillID out = i"
    by (rule purchase_return_tx_Inr [OF tx po]) simp
  have c2: "cards s2 = cards s" using untouchedD [OF untouched_lines_back l] untouchedD [OF untouched_cards_views(7) w] by simp
  have "untouched cards (forE (send_back E True exec req i w (return_rate (scanBillHead po))) (map fst linked))"
    by (intro tripleI send_back_cards)
  then have c4: "cards s4 = cards s3" using f by (rule untouchedD)
  let ?h = "purchase_return_head E req (scanBillHead po) i w no (line_total (map fst linked))"
  obtain s5 s6 s7 where n: "NextBillNo E ?t ''PR'' s2 = Inr (no, s5)"
    and c: "CreateBill E ?h (map (\<lambda>x. set_head i (fst x)) linked) (s5\<lparr>draws := Suc (draws s5)\<rparr>) = Inr ((), s6)"
    and k: "SetLinkBill ?t i (pq_PurchaseBillID req) s6 = Inr ((), s7)"
    and ks: "SetLinkItems ?t (pq_PurchaseBillID req) (map (\<lambda>(it, l). (it_ID it, l)) linked) s7 = Inr ((), s3)"
    using b by (auto simp: purchase_return_book_def bindE_mapErr_Inr bindE_Inr thenE_Inr mapErr_Inr)
  have "cards s3 = cards s6" using untouchedD [OF untouched_cards_links(1) k] untouchedD [OF untouched_cards_links(2) ks] by simp
  moreover have "cards s5 = cards s" using untouchedD [OF untouched_cards_views(3) n] c2 by simp
  moreover have "h_TenantID ?h = ?t" "h_ID ?h = i" by (simp_all add: purchase_return_head_def)
  ultimately have c3: "cards s3 = (cards s)((?t, i) \<mapsto> (StatusDraft, 0))" using CreateBill_cards [OF c] assms(2) out by simp
  have "cards (head_update ?t i (set_approved E (pq_CreatorID req)) s4) = (cards s4)((?t, i) \<mapsto> (StatusApproved, 0))"
    using cards_status [of E ?t i StatusApproved "Some (now E, pq_CreatorID req)" None s4] by (simp add: UpdateBillStatus_approved c4 c3)
  then have "cards s' = (cards s3)((?t, i) \<mapsto> (StatusApproved, 0))" using untouchedD [OF untouched_offset p] c4 by simp
  moreover have "life (cards s) (cards s3)" using life.opened [of "cards s" "(?t, i)"] assms(2) out c3 by simp
  moreover have "life (cards s3) ((cards s3)((?t, i) \<mapsto> (StatusApproved, 0)))" by (rule life.approved) (simp add: c3)
  ultimately show ?thesis by (metis lives_step lives_trans)
qed

end

section \<open>Imports\<close>

lemma stays_lives:
  assumes "\<And>s. lives (cards s) (cards (snd (m s)))"
  shows "stays (\<lambda>s. lives c (cards s)) m"
  unfolding stays_def using assms lives_trans by blast

lemma stays_lives_marks [staysI]:
  "stays (\<lambda>s. lives c (cards s)) (runTx (MarkCancelSeen up t pf no b r))" "stays (\<lambda>s. lives c (cards s)) (runTx (MarkOrderSeen up t pf no b))"
  "stays (\<lambda>s. lives c (cards s)) (runTx (MarkRefundSeen up t pf no rid b))" "stays (\<lambda>s. lives c (cards s)) (runTx (UpsertMapping E m))"
  by (rule stays_lives, rule advances_runTx, rule advances_untouched, rule untouched_cards, rule untouchedI',
      auto simp: MarkCancelSeen_def MarkOrderSeen_def MarkRefundSeen_def UpsertMapping_def bindE_Inr uuid_New_def split: if_splits)+

lemma stays_lives_lookup [staysI]: "stays (\<lambda>s. lives c (cards s)) (IsOrderSeen up t pf no)"
  unfolding IsOrderSeen_def by (intro staysI)

lemma stays_lives_creators [staysI]:
  "stays (\<lambda>s. lives c (cards s)) (importSaleCreator E t cr w d remark items)"
  "stays (\<lambda>s. lives c (cards s)) (importReturnCreator E t cr w d remark items)"
proof -
  show "stays (\<lambda>s. lives c (cards s)) (importSaleCreator E t cr w d remark items)"
    unfolding importSaleCreator_def by (rule stays_lives, rule CreateSale_lives)
  have r: "stays (\<lambda>s. lives c (cards s)) (CreateReturn_Execute E req)" for req by (rule stays_lives, rule CreateReturn_lives)
  show "stays (\<lambda>s. lives c (cards s)) (importReturnCreator E t cr w d remark items)"
    unfolding importReturnCreator_def by (intro staysI r)
qed

lemma stays_lives_approvers [staysI]:
  assumes "stock_executor E exec"
  shows "stays (\<lambda>s. lives c (cards s)) (importSaleApprover E exec t b cr)" "stays (\<lambda>s. lives c (cards s)) (importReturnApprover E exec t b cr)"
proof -
  have "lives (cards s) (cards (snd (importSaleApprover E exec t b cr s)))" for s
    using stock_executor.ApproveSale_lives [OF assms, of s "import_approval t b cr" s]
    by (cases "ApproveSale_Execute E exec (import_approval t b cr) s s") (auto simp: importSaleApprover_def split: sum.split)
  then show "stays (\<lambda>s. lives c (cards s)) (importSaleApprover E exec t b cr)" by (rule stays_lives)
  show "stays (\<lambda>s. lives c (cards s)) (importReturnApprover E exec t b cr)"
    unfolding importReturnApprover_def by (rule stays_mapErrP, rule stays_lives, rule stock_executor.ApproveReturn_lives [OF assms])
qed

lemma imports_live:
  assumes "stock_executor E exec"
  shows "stays (\<lambda>s. lives c (cards s)) (IngestSingleOrder E uc mk exec req)" "stays (\<lambda>s. lives c (cards s)) (import_rows E uc mk exec ireq rows)"
    "stays (\<lambda>s. lives c (cards s)) (IngestCancelOrder E uc mk exec creq)" "stays (\<lambda>s. lives c (cards s)) (IngestRefund E uc mk exec rreq)"
proof -
  have b: "stays (\<lambda>s. lives c (cards s)) (book_order E mk exec t cr w pf no d items)" for t cr w pf no d items
    unfolding book_order_def by (intro staysI assms)
  show "stays (\<lambda>s. lives c (cards s)) (IngestSingleOrder E uc mk exec req)"
    unfolding IngestSingleOrder_def ingestOneOrder_def Let_def by (intro staysI b)
  have "stays (\<lambda>s. lives c (cards s)) (import_group E uc mk exec ireq g res)" for g res
    unfolding import_group_def import_resolved_def persist_hint_def Let_def by (cases g, simp only: prod.case) (intro staysI b)
  then show "stays (\<lambda>s. lives c (cards s)) (import_rows E uc mk exec ireq rows)" unfolding import_rows_def by (intro stays_foldP)
  show "stays (\<lambda>s. lives c (cards s)) (IngestCancelOrder E uc mk exec creq)"
    unfolding IngestCancelOrder_def Let_def cancelled_before_def cancel_imported_def cancelNothingToReverse_def by (intro staysI assms)
  show "stays (\<lambda>s. lives c (cards s)) (IngestRefund E uc mk exec rreq)"
    unfolding IngestRefund_def Let_def book_refund_def refundNothingToReverse_def by (intro staysI assms)
qed

section \<open>Runs of the program\<close>

text \<open>
  One use case, whether it succeeds or fails, on any clock and with either cost method.  \<open>pre\<close> is the
  older state a check without a lock may have looked at.  The identifier of a purchase return is
  one that no bill has.
\<close>

abbreviation recorder :: "env \<Rightarrow> string option \<Rightarrow> bool \<Rightarrow> RecordMovementRequest \<Rightarrow> Snapshot op" where
  "recorder E profile outbox \<equiv> RecordMovement_ExecuteInTx E (executor_of E profile outbox)"

inductive bill_activity :: "db \<Rightarrow> db \<Rightarrow> bool" where
  new_purchase: "bill_activity s (snd (CreatePurchaseDraft_Execute E preq s))"
| new_sale: "bill_activity s (snd (CreateSale_Execute E sreq s))"
| new_return: "bill_activity s (snd (CreateReturn_Execute E rreq s))"
| edit_purchase: "bill_activity s (snd (UpdatePurchaseDraft_Execute E units upreq s))"
| edit_sale: "bill_activity s (snd (UpdateSaleDraft_Execute E usreq s))"
| cancel_purchase: "bill_activity s (snd (CancelPurchase_Execute E t b s))"
| restore_purchase: "bill_activity s (snd (RestorePurchase_Execute E t b s))"
| approve_purchase: "bill_activity s (snd (ApprovePurchase_ExecuteWithPayment E (recorder E profile outbox) payments apreq pre s))"
| approve_sale: "bill_activity s (snd (ApproveSale_Execute E (recorder E profile outbox) asreq pre s))"
| approve_return: "bill_activity s (snd (ApproveReturn_Execute E units (recorder E profile outbox) arreq pre s))"
| checkout: "bill_activity s (snd (QuickCheckout_Execute E (recorder E profile outbox) qreq pre s))"
| counter_return: "bill_activity s (snd (SaleRefund_Execute E units (recorder E profile outbox) rfreq s))"
| later_refund: "bill_activity s (snd (RecordRefund E roreq s))"
| supplier_return: "PurchaseReturn_Execute E True payments (recorder E profile outbox) prreq s = (Inr out, s')
    \<Longrightarrow> find_head (pq_TenantID prreq) (po_BillID out) s = None \<Longrightarrow> bill_activity s s'"
| payment: "bill_activity s (snd (RecordPayment_Execute E payreq s))"
| lump_sum: "bill_activity s (snd (Receipt_Execute E rcreq pre s))"
| webhook_order: "bill_activity s (snd (IngestSingleOrder E uc mk (recorder E profile outbox) oreq s))"
| file_import: "bill_activity s (snd (import_rows E uc mk (recorder E profile outbox) ireq rows s))"
| webhook_cancel: "bill_activity s (snd (IngestCancelOrder E uc mk (recorder E profile outbox) creq s))"
| webhook_refund: "bill_activity s (snd (IngestRefund E uc mk (recorder E profile outbox) wreq s))"
| elsewhere: "bill_head s' = bill_head s \<Longrightarrow> bill_activity s s'"

lemmas lives_cases = CreatePurchase_lives CreateSale_lives CreateReturn_lives UpdatePurchase_lives UpdateSale_lives
  CancelPurchase_lives RestorePurchase_lives RecordRefund_lives RecordPayment_lives Receipt_lives
  stock_executor.ApprovePurchase_lives [OF executor_ok] stock_executor.ApproveSale_lives [OF executor_ok]
  stock_executor.ApproveReturn_lives [OF executor_ok] stock_executor.QuickCheckout_lives [OF executor_ok]
  stock_executor.SaleRefund_lives [OF executor_ok]

lemma activity_lives: "bill_activity s s' \<Longrightarrow> lives (cards s) (cards s')"
proof (induction rule: bill_activity.induct)
  case (supplier_return E payments profile outbox prreq s out s')
  then show ?case by (intro stock_executor.PurchaseReturn_lives [OF executor_ok]) (auto simp: cards_def)
next
  case (elsewhere s' s)
  show ?case unfolding cards_lifeline [OF views_eq [OF elsewhere]] by (rule lives_refl)
qed (intro lives_cases staysD [where I = "\<lambda>s. lives c (cards s)" for c, OF imports_live(1)] staysD [where I = "\<lambda>s. lives c (cards s)" for c, OF imports_live(2)]
      staysD [where I = "\<lambda>s. lives c (cards s)" for c, OF imports_live(3)] staysD [where I = "\<lambda>s. lives c (cards s)" for c, OF imports_live(4)]
      executor_ok lives_refl)+

lemma run_lives: "bill_activity\<^sup>*\<^sup>* s s' \<Longrightarrow> lives (cards s) (cards s')"
proof (induction rule: rtranclp_induct)
  case (step y z)
  show ?case by (rule lives_trans [OF step.IH activity_lives [OF step.hyps(2)]])
qed (rule lives_refl)

text \<open>
  C23: the bill use cases implement the bill machine.  Whichever use case runs, with whatever
  request and outcome, every bill goes from the status it has to the one it gets through steps
  that open a draft, approve or cancel a draft, or restore a cancelled draft that was not restored
  before.
\<close>

theorem lifecycle_refines: "bill_activity\<^sup>*\<^sup>* s s' \<Longrightarrow> life\<^sup>*\<^sup>* (cards s) (cards s')"
  using run_lives by (simp add: lives_def)

text \<open>
  C24: in every state the program reaches from an empty database, each bill is a draft, approved
  or cancelled and was restored at most once; and a bill that is approved, or cancelled for the
  second time, keeps that status whatever runs afterwards.
\<close>

theorem bill_settles:
  assumes "bill_activity\<^sup>*\<^sup>* empty_db s" "bill_activity\<^sup>*\<^sup>* s s'" "find_head t b s = Some h"
  shows "h_Status h \<in> {StatusDraft, StatusApproved, StatusCancelled} \<and> h_Revision h \<in> {0, 1}
    \<and> (h_Status h = StatusApproved \<or> (h_Status h = StatusCancelled \<and> h_Revision h = 1)
       \<longrightarrow> (\<exists>h'. find_head t b s' = Some h' \<and> h_Status h' = h_Status h \<and> h_Revision h' = h_Revision h))"
proof -
  have "cards_ok (cards empty_db)" by (simp add: cards_ok_def cards_def find_head_def empty_db_def)
  then have "cards_ok (cards s)" by (rule lives_ok [OF run_lives [OF assms(1)]])
  moreover have c: "cards s (t, b) = Some (h_Status h, h_Revision h)" by (simp add: cards_def assms(3))
  ultimately have "card_ok (h_Status h, h_Revision h)" by (rule cards_okD)
  moreover have c': "cards s' (t, b) = cards s (t, b)" if "h_Status h = StatusApproved \<or> (h_Status h = StatusCancelled \<and> h_Revision h = 1)"
    by (rule lives_settled [OF run_lives [OF assms(2)]]) (use that c in \<open>auto simp: card_settled_def\<close>)
  moreover have "\<exists>h'. find_head t b s' = Some h' \<and> h_Status h' = h_Status h \<and> h_Revision h' = h_Revision h"
    if "h_Status h = StatusApproved \<or> (h_Status h = StatusCancelled \<and> h_Revision h = 1)"
    using c' [OF that] c by (cases "find_head t b s'") (auto simp: cards_def)
  ultimately show ?thesis unfolding card_ok_def fst_conv snd_conv by blast
qed

section \<open>Examples\<close>

text \<open>An order that is imported and then cancelled: its sale stays approved.\<close>

lemma demo_run: "bill_activity\<^sup>*\<^sup>* empty_db (snd (IngestSingleOrder std_env demo_uc demo_marks demo_exec demo_order demo_imports))"
proof -
  have "bill_activity empty_db demo_imports" by (rule elsewhere) (simp add: demo_imports_def demo_shop_def empty_db_def)
  moreover have "bill_activity demo_imports (snd (IngestSingleOrder std_env demo_uc demo_marks demo_exec demo_order demo_imports))" by (rule webhook_order)
  ultimately show ?thesis by (rule converse_rtranclp_into_rtranclp [OF _ r_into_rtranclp])
qed

lemma demo_cancel_run:
  "bill_activity\<^sup>*\<^sup>* (snd (IngestSingleOrder std_env demo_uc demo_marks demo_exec demo_order demo_imports)) demo_cancelled"
  unfolding demo_cancelled_def by (rule r_into_rtranclp, rule webhook_cancel)

lemma demo_sale_head:
  "map lifeline (bill_head (snd (IngestSingleOrder std_env demo_uc demo_marks demo_exec demo_order demo_imports)))
     = [((new_uuid std_env 1, 11, False), StatusApproved, 0)]"
  by code_simp

lemma demo_sale_found:
  obtains h where "find_head 11 (new_uuid std_env 1) (snd (IngestSingleOrder std_env demo_uc demo_marks demo_exec demo_order demo_imports)) = Some h"
    "h_Status h = StatusApproved"
proof -
  obtain h where h: "bill_head (snd (IngestSingleOrder std_env demo_uc demo_marks demo_exec demo_order demo_imports)) = [h]"
    "lifeline h = ((new_uuid std_env 1, 11, False), StatusApproved, 0)"
    using demo_sale_head by (auto simp only: map_eq_Cons_conv map_is_Nil_conv)
  then show ?thesis by (intro that [of h]) (auto simp: find_head_def head_at_def lifeline_def)
qed

theorem lifecycle_refines_witness:
  "\<exists>s. bill_activity\<^sup>*\<^sup>* empty_db s \<and> cards s (11, new_uuid std_env 1) = Some (StatusApproved, 0) \<and> life\<^sup>*\<^sup>* (cards empty_db) (cards s)"
proof -
  let ?s = "snd (IngestSingleOrder std_env demo_uc demo_marks demo_exec demo_order demo_imports)"
  obtain h where h: "bill_head ?s = [h]" "lifeline h = ((new_uuid std_env 1, 11, False), StatusApproved, 0)"
    using demo_sale_head by (auto simp only: map_eq_Cons_conv map_is_Nil_conv)
  then have "cards ?s (11, new_uuid std_env 1) = Some (StatusApproved, 0)" by (auto simp: cards_def find_head_def head_at_def lifeline_def)
  then show ?thesis using demo_run lifecycle_refines [OF demo_run] by blast
qed

theorem bill_settles_witness:
  "\<exists>h h'. find_head 11 (new_uuid std_env 1) (snd (IngestSingleOrder std_env demo_uc demo_marks demo_exec demo_order demo_imports)) = Some h
     \<and> find_head 11 (new_uuid std_env 1) demo_cancelled = Some h' \<and> h_Status h' = StatusApproved \<and> h_Revision h \<in> {0, 1}"
proof -
  obtain h where h: "find_head 11 (new_uuid std_env 1) (snd (IngestSingleOrder std_env demo_uc demo_marks demo_exec demo_order demo_imports)) = Some h"
    "h_Status h = StatusApproved" by (rule demo_sale_found)
  show ?thesis using bill_settles [OF demo_run demo_cancel_run h(1)] h by fastforce
qed

end
