(* ===== verification/Access.thy ===== *)
theory Access
  imports Go_Text
begin

text \<open>
  Who may do what in a shop (\<open>domain/team/role.go\<close>, \<open>domain/permission\<close>) and how a request is held to it
  (\<open>adapter/middleware/permission.go\<close>): the roles and their mapping to the membership of the
  platform, the permission matrix, the table of gated routes, the trimming of cost fields from
  JSON, and the two gates every request of the API passes.
\<close>

section \<open>Roles\<close>

text \<open>A role is a Go string; \<open>RoleOther\<close> holds one that is none of the five constants.\<close>

datatype Role = RoleOwner | RoleManager | RoleClerk | RoleCashier | RoleFinance | RoleOther string

fun Role_string :: "Role \<Rightarrow> string" where
  "Role_string RoleOwner = ''owner''"
| "Role_string RoleManager = ''manager''"
| "Role_string RoleClerk = ''clerk''"
| "Role_string RoleCashier = ''cashier''"
| "Role_string RoleFinance = ''finance''"
| "Role_string (RoleOther r) = r"

fun Role_Label :: "Role \<Rightarrow> string" where
  "Role_Label RoleOwner = utf8 [0x8001, 0x677F]"
| "Role_Label RoleManager = utf8 [0x5E97, 0x957F]"
| "Role_Label RoleCashier = utf8 [0x6536, 0x94F6]"
| "Role_Label RoleFinance = utf8 [0x8D22, 0x52A1]"
| "Role_Label _ = utf8 [0x5E97, 0x5458]"

definition ManagesTeam :: "Role \<Rightarrow> bool" where
  "ManagesTeam r \<longleftrightarrow> r = RoleOwner \<or> r = RoleManager"

fun Role_Valid :: "Role \<Rightarrow> bool" where
  "Role_Valid (RoleOther _) \<longleftrightarrow> False"
| "Role_Valid _ \<longleftrightarrow> True"

definition NormalizeLegacy :: "string \<Rightarrow> bool \<Rightarrow> Role" where
  "NormalizeLegacy role isOwner =
     (if isOwner then RoleOwner
      else if role = ''owner'' then RoleOwner
      else if role = ''admin'' \<or> role = ''manager'' then RoleManager
      else if role = ''cashier'' then RoleCashier
      else if role = ''finance'' then RoleFinance
      else RoleClerk)"

text \<open>The membership of the platform: a role and a role per product.\<close>

definition ProductKey :: string where
  "ProductKey = ''tally''"

definition FromPlatform :: "string \<Rightarrow> (string, string) map \<Rightarrow> Role" where
  "FromPlatform platformRole productRoles =
     (if platformRole = ''owner'' then RoleOwner
      else if platformRole = ''admin'' then RoleManager
      else if platformRole = ''member'' then
        (if productRoles ProductKey = Some ''cashier'' then RoleCashier
         else if productRoles ProductKey = Some ''finance'' then RoleFinance
         else RoleClerk)
      else RoleClerk)"

definition ToPlatform :: "Role \<Rightarrow> (string \<times> (string, string) map) option" where
  "ToPlatform r =
     (if r = RoleManager then Some (''admin'', Map.empty)
      else if r = RoleClerk \<or> r = RoleCashier \<or> r = RoleFinance then Some (''member'', [ProductKey \<mapsto> Role_string r])
      else None)"

definition CanManage :: "Role \<Rightarrow> Role \<Rightarrow> bool" where
  "CanManage actor target =
     (if actor = RoleOwner then target \<noteq> RoleOwner
      else if actor = RoleManager then target = RoleClerk \<or> target = RoleCashier \<or> target = RoleFinance
      else False)"

definition CanAssign :: "Role \<Rightarrow> Role \<Rightarrow> bool" where
  "CanAssign actor role =
     (if actor = RoleOwner then role \<noteq> RoleOwner \<and> Role_Valid role
      else if actor = RoleManager then role = RoleClerk \<or> role = RoleCashier \<or> role = RoleFinance
      else False)"

section \<open>Permissions\<close>

datatype Perm =
    CostView | BillRead | BillDraft | BillCheckout | BillApprove | BillCancel | BillReturn | BillReturnOwn
  | PurchaseView | PaymentRecord | PaymentRead | InvoiceManage | ReportView | ExportStock | ProductWrite
  | StockAdjust | CatalogWrite | CustomerWrite | ReplenishView | AIUse | AIExecute | SettingsManage
  | BillingManage | TeamManage | TokenManage | AuditView | PrintReceipt | PrintSettings

fun matrix :: "Role \<Rightarrow> Perm list" where
  "matrix RoleOwner =
     [CostView, BillRead, BillDraft, BillCheckout, BillApprove, BillCancel, BillReturn, PaymentRecord,
      PaymentRead, InvoiceManage, ReportView, ExportStock, ProductWrite, StockAdjust, CatalogWrite,
      CustomerWrite, ReplenishView, AIUse, AIExecute, SettingsManage, BillingManage, TeamManage,
      TokenManage, BillReturnOwn, PurchaseView, AuditView, PrintReceipt, PrintSettings]"
| "matrix RoleManager =
     [CostView, BillRead, BillDraft, BillCheckout, BillApprove, BillCancel, BillReturn, PaymentRecord,
      PaymentRead, InvoiceManage, ReportView, ExportStock, ProductWrite, StockAdjust, CatalogWrite,
      CustomerWrite, ReplenishView, AIUse, AIExecute, SettingsManage, TeamManage, BillReturnOwn,
      PurchaseView, AuditView, PrintReceipt, PrintSettings]"
| "matrix RoleClerk =
     [BillRead, BillDraft, ExportStock, ProductWrite, StockAdjust, CatalogWrite, CustomerWrite, ReplenishView,
      AIUse, PurchaseView, PrintReceipt]"
| "matrix RoleCashier =
     [BillRead, BillCheckout, CustomerWrite, BillReturnOwn, PrintReceipt]"
| "matrix RoleFinance =
     [CostView, BillRead, PaymentRecord, PaymentRead, InvoiceManage, ReportView, ExportStock, ReplenishView,
      AIUse, PurchaseView, AuditView]"
| "matrix (RoleOther _) = []"

definition Allowed :: "Role \<Rightarrow> Perm \<Rightarrow> bool" where
  "Allowed role perm \<longleftrightarrow> perm \<in> set (matrix role)"

definition Perms :: "Role \<Rightarrow> Perm list" where
  "Perms role = matrix role"

fun Perm_Label :: "Perm \<Rightarrow> string" where
  "Perm_Label CostView = utf8 [0x67E5, 0x770B, 0x6210, 0x672C, 0x548C, 0x6BDB, 0x5229]"
| "Perm_Label BillDraft = utf8 [0x5F00, 0x5355]"
| "Perm_Label BillCheckout = utf8 [0x6536, 0x94F6, 0x7ED3, 0x8D26]"
| "Perm_Label BillApprove = utf8 [0x5BA1, 0x6838, 0x5355, 0x636E]"
| "Perm_Label BillCancel = utf8 [0x4F5C, 0x5E9F, 0x5355, 0x636E]"
| "Perm_Label BillReturn = utf8 [0x529E, 0x7406, 0x9000, 0x8D27]"
| "Perm_Label BillReturnOwn = utf8 [0x529E, 0x7406, 0x9000, 0x8D27]"
| "Perm_Label PurchaseView = utf8 [0x67E5, 0x770B, 0x91C7, 0x8D2D, 0x5355]"
| "Perm_Label TokenManage = utf8 [0x7BA1, 0x7406, 0x20, 0x41, 0x50, 0x49, 0x20, 0x5BC6, 0x94A5]"
| "Perm_Label PaymentRecord = utf8 [0x8BB0, 0x6536, 0x4ED8, 0x6B3E]"
| "Perm_Label PaymentRead = utf8 [0x67E5, 0x770B, 0x6536, 0x4ED8, 0x6B3E, 0x548C, 0x53D1, 0x7968]"
| "Perm_Label InvoiceManage = utf8 [0x7BA1, 0x7406, 0x53D1, 0x7968]"
| "Perm_Label ReportView = utf8 [0x67E5, 0x770B, 0x62A5, 0x8868]"
| "Perm_Label ExportStock = utf8 [0x5BFC, 0x51FA, 0x5E93, 0x5B58]"
| "Perm_Label ProductWrite = utf8 [0x4FEE, 0x6539, 0x5546, 0x54C1]"
| "Perm_Label StockAdjust = utf8 [0x76D8, 0x70B9, 0x8C03, 0x6574, 0x5E93, 0x5B58]"
| "Perm_Label CatalogWrite = utf8 [0x4FEE, 0x6539, 0x4ED3, 0x5E93, 0x3001, 0x4F9B, 0x5E94, 0x5546, 0x3001, 0x82D7, 0x6728, 0x5B57, 0x5178, 0x3001, 0x9879, 0x76EE, 0x7B49, 0x57FA, 0x7840, 0x8D44, 0x6599]"
| "Perm_Label CustomerWrite = utf8 [0x65B0, 0x5EFA, 0x5BA2, 0x6237]"
| "Perm_Label ReplenishView = utf8 [0x67E5, 0x770B, 0x8865, 0x8D27, 0x5EFA, 0x8BAE]"
| "Perm_Label AIUse = utf8 [0x4F7F, 0x7528, 0x667A, 0x80FD, 0x52A9, 0x624B]"
| "Perm_Label AIExecute = utf8 [0x786E, 0x8BA4, 0x667A, 0x80FD, 0x52A9, 0x624B, 0x7684, 0x6279, 0x91CF, 0x64CD, 0x4F5C]"
| "Perm_Label SettingsManage = utf8 [0x4FEE, 0x6539, 0x5E97, 0x94FA, 0x8BBE, 0x7F6E]"
| "Perm_Label BillingManage = utf8 [0x7BA1, 0x7406, 0x5957, 0x9910, 0x548C, 0x4ED8, 0x8D39]"
| "Perm_Label TeamManage = utf8 [0x7BA1, 0x7406, 0x56E2, 0x961F, 0x6210, 0x5458]"
| "Perm_Label PrintReceipt = utf8 [0x6253, 0x5370, 0x5C0F, 0x7968]"
| "Perm_Label PrintSettings = utf8 [0x8BBE, 0x7F6E, 0x4E91, 0x6253, 0x5370, 0x673A]"
| "Perm_Label AuditView = utf8 [0x67E5, 0x770B, 0x64CD, 0x4F5C, 0x8BB0, 0x5F55]"
| "Perm_Label _ = utf8 [0x6267, 0x884C, 0x8FD9, 0x4E2A, 0x64CD, 0x4F5C]"

section \<open>Gated routes\<close>

definition RoutePerm :: "(string \<times> Perm) list" where
  "RoutePerm =
     [(''GET /api/v1/purchase-bills'', PurchaseView),
      (''GET /api/v1/purchase-bills/:id'', PurchaseView),
      (''POST /api/v1/purchase-bills'', BillDraft),
      (''PUT /api/v1/purchase-bills/:id'', BillDraft),
      (''POST /api/v1/purchase-bills/:id/approve'', BillApprove),
      (''POST /api/v1/purchase-bills/:id/cancel'', BillCancel),
      (''POST /api/v1/purchase-bills/:id/restore'', BillCancel),
      (''POST /api/v1/purchase-bills/:id/return'', BillReturn),
      (''GET /api/v1/receivables'', PaymentRead),
      (''POST /api/v1/sale-bills/quick-checkout'', BillCheckout),
      (''POST /api/v1/sale-bills'', BillDraft),
      (''PUT /api/v1/sale-bills/:id'', BillDraft),
      (''POST /api/v1/sale-bills/:id/approve'', BillApprove),
      (''POST /api/v1/sale-bills/:id/cancel'', BillCancel),
      (''POST /api/v1/sale-bills/:id/restore'', BillCancel),
      (''POST /api/v1/sale-bills/:id/return'', BillReturnOwn),
      (''POST /api/v1/payments'', PaymentRecord),
      (''GET /api/v1/payments'', PaymentRead),
      (''GET /api/v1/receipts/preview'', PaymentRecord),
      (''POST /api/v1/receipts'', PaymentRecord),
      (''GET /api/v1/partners/:id/statement'', PaymentRead),
      (''GET /api/v1/invoices'', PaymentRead),
      (''GET /api/v1/invoices/:id'', PaymentRead),
      (''POST /api/v1/invoices'', InvoiceManage),
      (''POST /api/v1/invoices/:id/void'', InvoiceManage),
      (''POST /api/v1/invoices/:id/red'', InvoiceManage),
      (''POST /api/v1/products'', ProductWrite),
      (''PUT /api/v1/products/:id'', ProductWrite),
      (''DELETE /api/v1/products/:id'', ProductWrite),
      (''POST /api/v1/products/:id/restore'', ProductWrite),
      (''POST /api/v1/products/import'', ProductWrite),
      (''POST /api/v1/units'', ProductWrite),
      (''DELETE /api/v1/units/:id'', ProductWrite),
      (''POST /api/v1/stock/adjustments'', StockAdjust),
      (''PUT /api/v1/stock/safety-qty'', CatalogWrite),
      (''POST /api/v1/warehouses'', CatalogWrite),
      (''PUT /api/v1/warehouses/:id'', CatalogWrite),
      (''DELETE /api/v1/warehouses/:id'', CatalogWrite),
      (''POST /api/v1/warehouses/:id/restore'', CatalogWrite),
      (''POST /api/v1/suppliers'', CatalogWrite),
      (''PUT /api/v1/suppliers/:id'', CatalogWrite),
      (''DELETE /api/v1/suppliers/:id'', CatalogWrite),
      (''POST /api/v1/suppliers/:id/restore'', CatalogWrite),
      (''POST /api/v1/suppliers/import'', CatalogWrite),
      (''POST /api/v1/customers/import'', CatalogWrite),
      (''POST /api/v1/nursery-dict'', CatalogWrite),
      (''PUT /api/v1/nursery-dict/:id'', CatalogWrite),
      (''DELETE /api/v1/nursery-dict/:id'', CatalogWrite),
      (''POST /api/v1/nursery-dict/:id/restore'', CatalogWrite),
      (''POST /api/v1/projects'', CatalogWrite),
      (''PUT /api/v1/projects/:id'', CatalogWrite),
      (''DELETE /api/v1/projects/:id'', CatalogWrite),
      (''POST /api/v1/projects/:id/restore'', CatalogWrite),
      (''POST /api/v1/exchange-rates'', CatalogWrite),
      (''POST /api/v1/customers'', CustomerWrite),
      (''PUT /api/v1/customers/:id'', CustomerWrite),
      (''DELETE /api/v1/customers/:id'', CustomerWrite),
      (''POST /api/v1/customers/:id/restore'', CustomerWrite),
      (''GET /api/v1/reports/gross-margin'', CostView),
      (''GET /api/v1/reports/abc'', ReportView),
      (''GET /api/v1/reports/dead-stock'', ReportView),
      (''GET /api/v1/reports/sales-top'', ReportView),
      (''GET /api/v1/reports/monthly'', ReportView),
      (''GET /api/v1/reports/monthly.csv'', ReportView),
      (''GET /api/v1/exports/bills.csv'', ReportView),
      (''GET /api/v1/exports/payments.csv'', PaymentRead),
      (''GET /api/v1/exports/stock.csv'', ExportStock),
      (''GET /api/v1/exports/all.zip'', ReportView),
      (''GET /api/v1/replenish/suggestions'', ReplenishView),
      (''GET /api/v1/replenish/scorecard'', ReplenishView),
      (''POST /api/v1/replenish/draft-batch'', BillDraft),
      (''POST /api/v1/ai/chat'', AIUse),
      (''GET /api/v1/ai/plans'', AIUse),
      (''POST /api/v1/ai/plans/:plan_id/confirm'', AIExecute),
      (''POST /api/v1/ai/plans/:plan_id/cancel'', AIExecute),
      (''POST /api/v1/ai/plans/:plan_id/revert'', AIExecute),
      (''PUT /api/v1/tenant/print-settings'', SettingsManage),
      (''POST /api/v1/print/receipts'', PrintReceipt),
      (''GET /api/v1/tenant/printer/status'', PrintReceipt),
      (''POST /api/v1/tenant/printer/test'', PrintSettings),
      (''PUT /api/v1/tenant/cashier-mode'', SettingsManage),
      (''POST /api/v1/onboarding/seed-demo'', SettingsManage),
      (''POST /api/v1/onboarding/clear-demo'', SettingsManage),
      (''POST /api/v1/imports/orders'', SettingsManage),
      (''GET /api/v1/imports/mappings'', SettingsManage),
      (''GET /api/v1/account/audit-log'', SettingsManage),
      (''POST /api/v1/auth/pats'', TokenManage),
      (''GET /api/v1/auth/pats'', TokenManage),
      (''DELETE /api/v1/auth/pats/:id'', TokenManage),
      (''POST /api/v1/shopify/shops'', SettingsManage),
      (''GET /api/v1/shopify/shops'', SettingsManage),
      (''DELETE /api/v1/shopify/shops/:id'', SettingsManage),
      (''GET /api/v1/audit'', AuditView),
      (''GET /api/v1/billing/overview'', BillingManage),
      (''GET /api/v1/billing/orders/:order_no'', BillingManage),
      (''POST /api/v1/billing/subscribe'', BillingManage),
      (''GET /api/v1/team/members'', TeamManage),
      (''PATCH /api/v1/team/members/:account_id'', TeamManage),
      (''DELETE /api/v1/team/members/:account_id'', TeamManage),
      (''POST /api/v1/team/invites'', TeamManage),
      (''GET /api/v1/team/invites'', TeamManage),
      (''DELETE /api/v1/team/invites/:id'', TeamManage)]"

definition ForRoute :: "string \<Rightarrow> string \<Rightarrow> Perm option" where
  "ForRoute verb fullPath = map_of RoutePerm (verb @ '' '' @ fullPath)"

section \<open>Trimming JSON\<close>

text \<open>Decoded JSON; numbers stay the text they were (\<open>json.Number\<close>).\<close>

datatype json = JNull | JBool bool | JNumber string | JString string | JArray "json list" | JObject "(string \<times> json) list"

definition CostKeys :: "string list" where
  "CostKeys =
     [''unit_cost'', ''total_cost'', ''cost_strategy'', ''purchase_price'', ''last_purchase_price'', ''cost_of_goods'',
      ''gross_profit'', ''avg_margin'', ''overall_margin'', ''margin'', ''est_amount_cny'', ''inventory_value'', ''amount_cny'',
      ''total_value_cny'', ''value_cny'']"

fun stripKeys :: "string list \<Rightarrow> json \<Rightarrow> json" where
  "stripKeys ks (JObject kvs) = JObject (map (\<lambda>(k, v). (k, stripKeys ks v)) (filter (\<lambda>(k, _). k \<notin> set ks) kvs))"
| "stripKeys ks (JArray vs) = JArray (map (stripKeys ks) vs)"
| "stripKeys ks v = v"

definition StripGeneric :: "json \<Rightarrow> json" where
  "StripGeneric v = stripKeys CostKeys v"

definition StripCostFields :: "json \<Rightarrow> json" where
  "StripCostFields v = stripKeys CostKeys v"

section \<open>The request\<close>

text \<open>What the gates read of a request and its context.\<close>

record request =
  c_TenantID :: nat
  c_Sub :: string
  c_ShopRole :: "Role option"
  c_Method :: string
  c_FullPath :: string

datatype role_error = NotShopMember | RoleUnavailable

text \<open>\<open>applyShopRole\<close>: \<open>None\<close> when the request was answered (503) and goes no further.\<close>

definition applyShopRole :: "(nat \<Rightarrow> string \<Rightarrow> role_error + Role) option \<Rightarrow> request \<Rightarrow> request option" where
  "applyShopRole resolve c =
     (case resolve of
        None \<Rightarrow> Some c
      | Some f \<Rightarrow>
          if c_TenantID c = 0 then Some c
          else if c_Sub c = [] then Some (c\<lparr>c_ShopRole := Some RoleManager\<rparr>)
          else case f (c_TenantID c) (c_Sub c) of
                 Inl NotShopMember \<Rightarrow> Some (c\<lparr>c_TenantID := 0\<rparr>)
               | Inl RoleUnavailable \<Rightarrow> None
               | Inr role \<Rightarrow> Some (c\<lparr>c_ShopRole := Some role\<rparr>))"

definition HasPerm :: "request \<Rightarrow> Perm \<Rightarrow> bool" where
  "HasPerm c perm = (case c_ShopRole c of None \<Rightarrow> True | Some role \<Rightarrow> Allowed role perm)"

definition CanViewCost :: "request \<Rightarrow> bool" where
  "CanViewCost c = HasPerm c CostView"

definition checkPerm :: "request \<Rightarrow> Perm \<Rightarrow> bool" where
  "checkPerm c perm \<longleftrightarrow>
     c_TenantID c = 0 \<or> (case c_ShopRole c of None \<Rightarrow> False | Some role \<Rightarrow> Allowed role perm)"

text \<open>The answer of a gate: the rest of the chain runs, or a refusal for a permission.\<close>

datatype gate = GateNext | GateForbidden "Perm option"

definition RequirePerm :: "Perm \<Rightarrow> request \<Rightarrow> gate" where
  "RequirePerm perm c = (if \<not> checkPerm c perm then GateForbidden (Some perm) else GateNext)"

definition EnforceRoutePerms :: "request \<Rightarrow> gate" where
  "EnforceRoutePerms c =
     (case ForRoute (c_Method c) (c_FullPath c) of
        None \<Rightarrow> if c_TenantID c \<noteq> 0 \<and> c_ShopRole c = None then GateForbidden None else GateNext
      | Some perm \<Rightarrow> if \<not> checkPerm c perm then GateForbidden (Some perm) else GateNext)"

definition JSONTrimmed :: "request \<Rightarrow> json \<Rightarrow> json" where
  "JSONTrimmed c v = (if CanViewCost c then v else StripCostFields v)"

definition TrimCostResponse :: "string list \<Rightarrow> request \<Rightarrow> json \<Rightarrow> json" where
  "TrimCostResponse fullPaths c v =
     (if c_FullPath c \<notin> set fullPaths \<or> CanViewCost c then v else StripGeneric v)"

section \<open>The to-do summary\<close>

definition json_get :: "string \<Rightarrow> json \<Rightarrow> json option" where
  "json_get k v = (case v of JObject kvs \<Rightarrow> map_of kvs k | _ \<Rightarrow> None)"

definition json_set :: "string \<Rightarrow> json \<Rightarrow> (string \<times> json) list \<Rightarrow> (string \<times> json) list" where
  "json_set k v kvs = filter (\<lambda>(k', _). k' \<noteq> k) kvs @ [(k, v)]"

definition json_delete :: "string list \<Rightarrow> (string \<times> json) list \<Rightarrow> (string \<times> json) list" where
  "json_delete ks kvs = filter (\<lambda>(k, _). k \<notin> set ks) kvs"

definition emptySection :: json where
  "emptySection = JObject [(''count'', JNumber ''0''), (''items'', JArray [])]"

definition todoSections :: "string list" where
  "todoSections = [''draft_purchases'', ''draft_sales'', ''low_stock'', ''overdue_customers'', ''uninvoiced_sales'']"

text \<open>\<open>strconv.ParseInt\<close> in base ten, 64 bits.\<close>

definition is_digit :: "char \<Rightarrow> bool" where
  "is_digit c \<longleftrightarrow> c \<in> set ''0123456789''"

definition digits_value :: "string \<Rightarrow> int" where
  "digits_value ds = foldl (\<lambda>n c. 10 * n + (int (of_char c) - 48)) 0 ds"

definition ParseInt64 :: "string \<Rightarrow> int option" where
  "ParseInt64 txt =
     (let (neg, ds) = (case txt of [] \<Rightarrow> (False, []) | c # cs \<Rightarrow> if c = CHR ''-'' then (True, cs) else if c = CHR ''+'' then (False, cs) else (False, txt));
          n = (if neg then - digits_value ds else digits_value ds)
      in if ds = [] \<or> \<not> list_all is_digit ds \<or> n < - (2 ^ 63) \<or> 2 ^ 63 \<le> n then None else Some n)"

text \<open>\<open>int64\<close> addition wraps around.\<close>

definition wrap64 :: "int \<Rightarrow> int" where
  "wrap64 n = (n + 2 ^ 63) mod 2 ^ 64 - 2 ^ 63"

definition section_count :: "json \<Rightarrow> string \<Rightarrow> int" where
  "section_count m k =
     (case json_get k m of
        Some (JObject sec) \<Rightarrow>
          (case map_of sec ''count'' of
             Some (JNumber n) \<Rightarrow> (case ParseInt64 n of Some v \<Rightarrow> v | None \<Rightarrow> 0)
           | _ \<Rightarrow> 0)
      | _ \<Rightarrow> 0)"

definition todoTotal :: "json \<Rightarrow> int" where
  "todoTotal m = fold (\<lambda>k total. wrap64 (total + section_count m k)) todoSections 0"

definition trim_kpis :: "(string \<times> json) list \<Rightarrow> (string \<times> json) list" where
  "trim_kpis kvs =
     (case map_of kvs ''kpis'' of
        Some (JObject k) \<Rightarrow> json_set ''kpis'' (JObject (json_delete [''receivable_unpaid'', ''today_collected'', ''month_uninvoiced''] k)) kvs
      | _ \<Rightarrow> kvs)"

definition trim_sections :: "bool \<Rightarrow> bool \<Rightarrow> (string \<times> json) list \<Rightarrow> (string \<times> json) list" where
  "trim_sections cost pay kvs =
     (let kvs1 = (if \<not> cost then json_set ''draft_purchases'' emptySection kvs else kvs)
      in if \<not> pay
         then trim_kpis (json_set ''uninvoiced_sales'' emptySection (json_set ''overdue_customers'' emptySection kvs1))
         else kvs1)"

definition TrimTodoSummary :: "(int \<Rightarrow> string) \<Rightarrow> string \<Rightarrow> request \<Rightarrow> json \<Rightarrow> json" where
  "TrimTodoSummary itoa fullPath c v =
     (if c_FullPath c \<noteq> fullPath \<or> (CanViewCost c \<and> HasPerm c PaymentRead) then v
      else case v of
        JObject kvs \<Rightarrow>
          (let m = trim_sections (CanViewCost c) (HasPerm c PaymentRead) kvs
           in JObject (if map_of m ''total'' \<noteq> None then json_set ''total'' (JNumber (itoa (todoTotal (JObject m)))) m else m))
      | _ \<Rightarrow> v)"

section \<open>Roles and the platform\<close>

text \<open>A role that is handed out comes back from the platform as itself; ownership is never handed out.\<close>

lemma platform_roundtrip: "ToPlatform r = Some (pr, prs) \<Longrightarrow> FromPlatform pr prs = r \<and> r \<noteq> RoleOwner \<and> Role_Valid r"
  by (auto simp: ToPlatform_def FromPlatform_def ProductKey_def split: if_splits)

lemma ToPlatform_iff: "ToPlatform r \<noteq> None \<longleftrightarrow> Role_Valid r \<and> r \<noteq> RoleOwner"
  by (cases r) (simp_all add: ToPlatform_def)

lemma CanAssign_assignable: "CanAssign a r \<Longrightarrow> ToPlatform r \<noteq> None"
  by (cases r) (auto simp: CanAssign_def ToPlatform_def split: if_splits)

lemma owner_untouchable [simp]: "\<not> CanManage a RoleOwner" "\<not> CanAssign a RoleOwner"
  by (simp_all add: CanManage_def CanAssign_def)

text \<open>Only an owner or a manager acts on others.\<close>

lemma managers_only: "CanManage a r \<Longrightarrow> ManagesTeam a" "CanAssign a r \<Longrightarrow> ManagesTeam a"
  by (auto simp: CanManage_def CanAssign_def ManagesTeam_def split: if_splits)

text \<open>What a role may hand out, or take charge of, has no permission that the role lacks.\<close>

lemma matrix_chain:
  "set (matrix RoleManager) \<subseteq> set (matrix RoleOwner)" "set (matrix RoleClerk) \<subseteq> set (matrix RoleManager)"
  "set (matrix RoleCashier) \<subseteq> set (matrix RoleManager)" "set (matrix RoleFinance) \<subseteq> set (matrix RoleManager)"
  by simp_all

lemma no_escalation: "CanAssign a r \<or> CanManage a r \<Longrightarrow> Allowed r p \<Longrightarrow> Allowed a p"
  using matrix_chain by (cases r) (auto simp: CanAssign_def CanManage_def Allowed_def split: if_splits)

section \<open>What is left of a trimmed answer\<close>

text \<open>Whether some key of the list occurs, at any depth.\<close>

fun mentions :: "string list \<Rightarrow> json \<Rightarrow> bool" where
  "mentions ks (JObject kvs) \<longleftrightarrow> list_ex (\<lambda>(k, v). k \<in> set ks \<or> mentions ks v) kvs"
| "mentions ks (JArray vs) \<longleftrightarrow> list_ex (mentions ks) vs"
| "mentions ks v \<longleftrightarrow> False"

text \<open>Reading a value by a path of keys and positions.\<close>

datatype json_step = Key string | Position nat

fun json_at :: "json_step list \<Rightarrow> json \<Rightarrow> json option" where
  "json_at [] v = Some v"
| "json_at (Key k # ps) (JObject kvs) = (case map_of kvs k of None \<Rightarrow> None | Some v \<Rightarrow> json_at ps v)"
| "json_at (Position i # ps) (JArray vs) = (if i < length vs then json_at ps (vs ! i) else None)"
| "json_at _ _ = None"

lemma stripKeys_clean: "\<not> mentions ks (stripKeys ks v)"
  by (induction ks v rule: stripKeys.induct) (force simp: list_ex_iff)+

lemma map_of_stripped:
  "k \<notin> set ks \<Longrightarrow> map_of (map (\<lambda>(k, v). (k, f v)) (filter (\<lambda>(k, _). k \<notin> set ks) kvs)) k = map_option f (map_of kvs k)"
  by (induction kvs) auto

lemma stripKeys_rest:
  "(\<And>k. Key k \<in> set ps \<Longrightarrow> k \<notin> set ks) \<Longrightarrow> json_at ps (stripKeys ks v) = map_option (stripKeys ks) (json_at ps v)"
proof (induction ps v rule: json_at.induct)
  case (2 k ps kvs)
  then show ?case by (auto simp: map_of_stripped split: option.split)
qed auto

text \<open>A value without such a key is left as it is.\<close>

lemma stripKeys_same: "\<not> mentions ks v \<Longrightarrow> stripKeys ks v = v"
proof (induction ks v rule: stripKeys.induct)
  case (1 ks kvs)
  then have "filter (\<lambda>(k, _). k \<notin> set ks) kvs = kvs" by (force simp: filter_id_conv list_ex_iff)
  moreover have "map (\<lambda>(k, v). (k, stripKeys ks v)) kvs = kvs"
    using 1 calculation by (intro map_idI) (force simp: list_ex_iff)
  ultimately show ?case by simp
next
  case (2 ks vs)
  then show ?case by (auto simp: list_ex_iff intro: map_idI)
qed auto

text \<open>
  C25: what a person who may not see costs receives.  The trimmed answer names no cost key at any
  depth, and it is otherwise the answer: along every path that avoids those keys it holds what the
  answer held there, unchanged where that names no cost key.  A person who may see costs receives
  the answer itself.
\<close>

theorem cost_never_leaks:
  "(CanViewCost c \<longrightarrow> JSONTrimmed c v = v)
   \<and> (\<not> CanViewCost c \<longrightarrow>
        \<not> mentions CostKeys (JSONTrimmed c v)
      \<and> (\<forall>ps x. (\<forall>k. Key k \<in> set ps \<longrightarrow> k \<notin> set CostKeys) \<longrightarrow> json_at ps v = Some x \<longrightarrow>
           json_at ps (JSONTrimmed c v) = Some (StripCostFields x) \<and> (\<not> mentions CostKeys x \<longrightarrow> StripCostFields x = x))
      \<and> (\<forall>paths. c_FullPath c \<in> set paths \<longrightarrow> TrimCostResponse paths c v = JSONTrimmed c v))"
  by (auto simp: JSONTrimmed_def StripCostFields_def StripGeneric_def TrimCostResponse_def stripKeys_clean stripKeys_rest stripKeys_same)

section \<open>What passes the gates\<close>

text \<open>
  No request reaches a handler on behalf of a shop without a role that allows the route.  If
  the two gates let a request pass that is still bound to a shop, the role lookup has found the
  caller's role (an access token acts as a manager), and where the route needs a permission the
  role holds it.
\<close>

theorem request_gated:
  assumes "c_ShopRole c = None" "applyShopRole resolve c = Some c'" "EnforceRoutePerms c' = GateNext" "c_TenantID c' \<noteq> 0"
  shows "\<exists>lookup role. resolve = Some lookup \<and> c_TenantID c' = c_TenantID c \<and> c_ShopRole c' = Some role
    \<and> (if c_Sub c = [] then role = RoleManager else lookup (c_TenantID c) (c_Sub c) = Inr role)
    \<and> (\<forall>perm. ForRoute (c_Method c) (c_FullPath c) = Some perm \<longrightarrow> Allowed role perm)"
proof -
  obtain role where r: "c_ShopRole c' = Some role"
    using assms(3,4) by (auto simp: EnforceRoutePerms_def checkPerm_def split: option.splits if_splits)
  have same: "c_Method c' = c_Method c" "c_FullPath c' = c_FullPath c"
    using assms(2) by (auto simp: applyShopRole_def split: option.splits if_splits sum.splits role_error.splits)
  have "Allowed role perm" if "ForRoute (c_Method c) (c_FullPath c) = Some perm" for perm
    using assms(3,4) r that by (auto simp: EnforceRoutePerms_def checkPerm_def same split: if_splits)
  then show ?thesis using assms(1,2,4) r
    by (auto simp: applyShopRole_def split: option.splits if_splits sum.splits role_error.splits)
qed

section \<open>Examples\<close>

definition clerk_request :: request where
  "clerk_request = \<lparr> c_TenantID = 11, c_Sub = ''user-7'', c_ShopRole = None, c_Method = ''POST'', c_FullPath = ''/api/v1/sale-bills'' \<rparr>"

theorem request_gated_witness:
  "\<exists>c'. applyShopRole (Some (\<lambda>_ _. Inr RoleClerk)) clerk_request = Some c' \<and> EnforceRoutePerms c' = GateNext
     \<and> ForRoute (c_Method clerk_request) (c_FullPath clerk_request) = Some BillDraft \<and> Allowed RoleClerk BillDraft"
proof -
  let ?c = "clerk_request\<lparr>c_ShopRole := Some RoleClerk\<rparr>"
  have route: "ForRoute ''POST'' ''/api/v1/sale-bills'' = Some BillDraft" by code_simp
  have a: "applyShopRole (Some (\<lambda>_ _. Inr RoleClerk)) clerk_request = Some ?c" by (simp add: applyShopRole_def clerk_request_def)
  have g: "EnforceRoutePerms ?c = GateNext" by (simp add: EnforceRoutePerms_def checkPerm_def clerk_request_def route Allowed_def)
  have "c_ShopRole clerk_request = None" "c_TenantID ?c \<noteq> 0" by (simp_all add: clerk_request_def)
  from request_gated [OF this(1) a g this(2)] show ?thesis using a g route by (auto simp: clerk_request_def)
qed

definition demo_answer :: json where
  "demo_answer = JObject [(''qty'', JNumber ''2''), (''unit_cost'', JString ''1.5''),
     (''items'', JArray [JObject [(''name'', JString ''tea''), (''margin'', JString ''0.3'')]])]"

theorem cost_never_leaks_witness:
  "JSONTrimmed (clerk_request\<lparr>c_ShopRole := Some RoleClerk\<rparr>) demo_answer
     = JObject [(''qty'', JNumber ''2''), (''items'', JArray [JObject [(''name'', JString ''tea'')]])]
   \<and> \<not> mentions CostKeys (JSONTrimmed (clerk_request\<lparr>c_ShopRole := Some RoleClerk\<rparr>) demo_answer)"
proof -
  have n: "\<not> CanViewCost (clerk_request\<lparr>c_ShopRole := Some RoleClerk\<rparr>)" by code_simp
  have "JSONTrimmed (clerk_request\<lparr>c_ShopRole := Some RoleClerk\<rparr>) demo_answer
     = JObject [(''qty'', JNumber ''2''), (''items'', JArray [JObject [(''name'', JString ''tea'')]])]" by code_simp
  then show ?thesis using cost_never_leaks [of "clerk_request\<lparr>c_ShopRole := Some RoleClerk\<rparr>" demo_answer] n by blast
qed

end
