(* ===== verification/Team.thy ===== *)
theory Team
  imports Programs Access "HOL-Library.AList"
begin

text \<open>
  The people of a shop (\<open>app/team\<close>, \<open>adapter/repo/team\<close>).  Membership lives in an organization of
  the platform; the shop keeps a projection of it (\<open>user_identity_mapping\<close>) and a cache of roles.
  The platform and the account directory are services outside the program: they are the records of
  functions \<open>OrgClient\<close> and \<open>sv_accounts\<close> over a state of their own, and may answer anything.
  \<open>db_up\<close> says whether the database can be reached while a use case runs.
\<close>

section \<open>Data\<close>

datatype team_err =
    ErrUnavailable | ErrForbidden | ErrNotMember | AlreadyInShopError bool bool | ErrAlreadyMemberHere | ErrInviteInvalid
  | ErrLastOwner | ErrInvalidRole | ErrOrgNotReady | ErrTenantNotFound | ErrMappingExists | ErrShopNotEmpty | ErrRoleNotForShop
  | ErrOrgNotDissolvable | ErrMemberLimit | ErrTeamStore string | TeamWrap string team_err

text \<open>\<open>errors.Is\<close> against a sentinel.\<close>

fun team_Is :: "team_err \<Rightarrow> team_err \<Rightarrow> bool" where
  "team_Is (TeamWrap _ e) target \<longleftrightarrow> team_Is e target"
| "team_Is e target \<longleftrightarrow> e = target"

record OrgMember =
  om_AccountID :: int
  om_Role :: string
  om_ProductRoles :: "(string, string) map"
  om_DisplayName :: string
  om_EmailMasked :: string
  om_PhoneMasked :: string
  om_JoinedAt :: gotime

record OrgInvite =
  oi_ID :: uuid
  oi_Role :: string
  oi_ProductRoles :: "(string, string) map"
  oi_InvitedBy :: int
  oi_ExpiresAt :: gotime
  oi_CreatedAt :: gotime

record InviteCreated =
  ic_InviteID :: uuid
  ic_Token :: string
  ic_ExpiresAt :: gotime
  ic_ShopName :: string

record AcceptResult =
  ac_OrgID :: int
  ac_Role :: string
  ac_ProductRoles :: "(string, string) map"

record 'p OrgClient =
  oc_EnsureOrg :: "string \<Rightarrow> int \<Rightarrow> string \<Rightarrow> string \<Rightarrow> ('p, team_err, int) program"
  oc_ListMembers :: "int \<Rightarrow> 'p \<Rightarrow> team_err + OrgMember list"
  oc_GetMember :: "int \<Rightarrow> int \<Rightarrow> 'p \<Rightarrow> team_err + OrgMember"
  oc_UpdateMember :: "int \<Rightarrow> int \<Rightarrow> int \<Rightarrow> string \<Rightarrow> (string, string) map \<Rightarrow> ('p, team_err, unit) program"
  oc_RemoveMember :: "int \<Rightarrow> int \<Rightarrow> int \<Rightarrow> ('p, team_err, unit) program"
  oc_CreateInvite :: "int \<Rightarrow> int \<Rightarrow> string \<Rightarrow> (string, string) map \<Rightarrow> int \<Rightarrow> ('p, team_err, InviteCreated) program"
  oc_ListInvites :: "int \<Rightarrow> 'p \<Rightarrow> team_err + OrgInvite list"
  oc_RevokeInvite :: "int \<Rightarrow> uuid \<Rightarrow> int \<Rightarrow> ('p, team_err, unit) program"
  oc_AcceptInvite :: "string \<Rightarrow> int \<Rightarrow> ('p, team_err, AcceptResult) program"
  oc_DissolveOrg :: "(int \<Rightarrow> int \<Rightarrow> ('p, team_err, unit) program) option"

text \<open>A shop, and a person of a shop.\<close>

record tenant_row =
  tn_id :: uuid
  tn_name :: string
  tn_platform_org_id :: "int option"
  tn_status :: int
  tn_profile_type :: string
  tn_print_name :: string

record Mapping =
  mp_id :: uuid
  mp_TenantID :: uuid
  mp_IDPSubject :: string
  mp_Email :: string
  mp_DisplayName :: string
  mp_Role :: string
  mp_IsOwner :: bool
  mp_AccountID :: "int option"

record token_row =
  tk_tenant_id :: uuid
  tk_revoked :: bool

record roleEntry =
  re_role :: Role
  re_orgID :: int
  re_accountID :: int
  re_expires :: gotime

record 'p world =
  tenants :: "tenant_row list"
  members :: "Mapping list"
  tokens :: "token_row list"
  role_cache :: "((uuid \<times> string) \<times> roleEntry) list"
  platform :: 'p
  db_up :: bool
  id_draws :: nat

type_synonym ('p, 'a) task = "('p world, team_err, 'a) program"

text \<open>The service: the optional platform, account directory and plan check, the clock, and the probe for real data.\<close>

record 'p Service =
  sv_org :: "'p OrgClient option"
  sv_accounts :: "(string \<Rightarrow> string \<Rightarrow> string \<Rightarrow> ('p, team_err, int) program) option"
  sv_guard :: "(uuid \<Rightarrow> 'p world \<Rightarrow> team_err + unit) option"
  sv_env :: env
  sv_hasRealData :: "uuid \<Rightarrow> bool"

definition storeP :: "('p world \<Rightarrow> 'a) \<Rightarrow> ('p, 'a) task" where
  "storeP f w = (if db_up w then (Inr (f w), w) else (Inl (ErrTeamStore ''team store''), w))"

definition writeP :: "('p world \<Rightarrow> 'p world) \<Rightarrow> ('p, unit) task" where
  "writeP f w = (if db_up w then (Inr (), f w) else (Inl (ErrTeamStore ''team store''), w))"

text \<open>A call of the platform changes only the state of the platform.\<close>

definition callP :: "('p, team_err, 'a) program \<Rightarrow> ('p, 'a) task" where
  "callP f w = (case f (platform w) of (r, p) \<Rightarrow> (r, w\<lparr>platform := p\<rparr>))"

definition askP :: "('p \<Rightarrow> team_err + 'a) \<Rightarrow> ('p, 'a) task" where
  "askP f w = (f (platform w), w)"

definition memoP :: "('p world \<Rightarrow> 'p world) \<Rightarrow> ('p, unit) task" where
  "memoP f w = (Inr (), f w)"

section \<open>The store\<close>

definition tenant_of :: "uuid \<Rightarrow> 'p world \<Rightarrow> tenant_row option" where
  "tenant_of t w = List.find (\<lambda>r. tn_id r = t) (tenants w)"

definition TenantOrg :: "uuid \<Rightarrow> ('p, string \<times> int) task" where
  "TenantOrg t =
     bindP (storeP (tenant_of t)) (\<lambda>r.
     case r of
       None \<Rightarrow> failP ErrTenantNotFound
     | Some x \<Rightarrow> returnP (tn_name x, case tn_platform_org_id x of None \<Rightarrow> 0 | Some i \<Rightarrow> i))"

text \<open>The first writer wins; an organization belongs to one shop (\<open>tenant_platform_org_id_uidx\<close>).\<close>

definition SetTenantOrg :: "uuid \<Rightarrow> int \<Rightarrow> ('p, unit) task" where
  "SetTenantOrg t orgID =
     bindP (storeP (\<lambda>w. list_ex (\<lambda>r. tn_id r = t \<and> tn_platform_org_id r = None) (tenants w)
                          \<and> list_ex (\<lambda>r. tn_platform_org_id r = Some orgID) (tenants w))) (\<lambda>taken.
     if taken then failP (ErrTeamStore ''team store: set tenant org'')
     else writeP (\<lambda>w. w\<lparr>tenants := update_where (\<lambda>r. tn_id r = t \<and> tn_platform_org_id r = None)
                          (\<lambda>r. r\<lparr>tn_platform_org_id := Some orgID\<rparr>) (tenants w)\<rparr>))"

definition TenantByOrg :: "int \<Rightarrow> ('p, uuid) task" where
  "TenantByOrg orgID = storeP (\<lambda>w.
     case List.find (\<lambda>r. tn_platform_org_id r = Some orgID \<and> tn_status r \<noteq> 0) (tenants w) of None \<Rightarrow> uuid_Nil | Some r \<Rightarrow> tn_id r)"

definition find_sub :: "string \<Rightarrow> 'p world \<Rightarrow> Mapping option" where
  "find_sub sub w = List.find (\<lambda>m. mp_IDPSubject m = sub) (members w)"

definition MappingBySub :: "string \<Rightarrow> ('p, Mapping option) task" where
  "MappingBySub sub = storeP (find_sub sub)"

definition MappingByAccount :: "uuid \<Rightarrow> int \<Rightarrow> ('p, Mapping option) task" where
  "MappingByAccount t acct = storeP (\<lambda>w. List.find (\<lambda>m. mp_TenantID m = t \<and> mp_AccountID m = Some acct) (members w))"

text \<open>The subject is unique.\<close>

definition InsertMapping :: "env \<Rightarrow> Mapping \<Rightarrow> ('p, unit) task" where
  "InsertMapping E m =
     bindP (storeP (\<lambda>w. list_ex (\<lambda>x. mp_IDPSubject x = mp_IDPSubject m) (members w))) (\<lambda>taken.
     if taken then failP ErrMappingExists
     else writeP (\<lambda>w. w\<lparr>members := members w @ [m\<lparr>mp_id := new_uuid E (id_draws w)\<rparr>], id_draws := Suc (id_draws w)\<rparr>))"

definition SyncMapping :: "uuid \<Rightarrow> string \<Rightarrow> string \<Rightarrow> int \<Rightarrow> ('p, unit) task" where
  "SyncMapping t sub role acct = writeP (\<lambda>w. w\<lparr>members :=
     update_where (\<lambda>m. mp_TenantID m = t \<and> mp_IDPSubject m = sub)
       (\<lambda>m. m\<lparr>mp_Role := (if mp_IsOwner m then ''owner'' else role),
              mp_AccountID := (if 0 < acct then Some acct else mp_AccountID m)\<rparr>) (members w)\<rparr>)"

definition DeleteMappingByAccount :: "uuid \<Rightarrow> int \<Rightarrow> ('p, unit) task" where
  "DeleteMappingByAccount t acct = writeP (\<lambda>w. w\<lparr>members :=
     filter (\<lambda>m. \<not> (mp_TenantID m = t \<and> mp_AccountID m = Some acct \<and> \<not> mp_IsOwner m)) (members w)\<rparr>)"

definition member_count :: "uuid \<Rightarrow> 'p world \<Rightarrow> nat" where
  "member_count t w = length (filter (\<lambda>m. mp_TenantID m = t) (members w))"

definition MemberCount :: "uuid \<Rightarrow> ('p, nat) task" where
  "MemberCount t = storeP (member_count t)"

definition ShopIsEmpty :: "'p Service \<Rightarrow> uuid \<Rightarrow> ('p, bool) task" where
  "ShopIsEmpty sv t = storeP (\<lambda>_. \<not> sv_hasRealData sv t)"

definition retire :: "env \<Rightarrow> uuid \<Rightarrow> string \<Rightarrow> 'p world \<Rightarrow> 'p world" where
  "retire E t sub w = w\<lparr>
     members := update_where (\<lambda>m. mp_TenantID m = t \<and> mp_IDPSubject m = sub)
                  (\<lambda>m. m\<lparr>mp_IDPSubject := ''abandoned:'' @ uuid_string E (mp_id m)\<rparr>) (members w),
     tenants := update_where (\<lambda>r. tn_id r = t) (\<lambda>r. r\<lparr>tn_status := 0\<rparr>) (tenants w),
     tokens := update_where (\<lambda>k. tk_tenant_id k = t \<and> \<not> tk_revoked k) (\<lambda>k. k\<lparr>tk_revoked := True\<rparr>) (tokens w)\<rparr>"

text \<open>The new subject must be free as well: the column is unique.\<close>

definition AbandonShop :: "'p Service \<Rightarrow> uuid \<Rightarrow> string \<Rightarrow> ('p, unit) task" where
  "AbandonShop sv t sub =
     bindP (storeP (\<lambda>w. (member_count t w, List.find (\<lambda>m. mp_TenantID m = t \<and> mp_IDPSubject m = sub) (members w),
                         map mp_IDPSubject (members w)))) (\<lambda>(n, row, subs).
     case row of
       None \<Rightarrow> failP ErrShopNotEmpty
     | Some m \<Rightarrow>
         if \<not> mp_IsOwner m \<or> n \<noteq> 1 \<or> sv_hasRealData sv t then failP ErrShopNotEmpty
         else if ''abandoned:'' @ uuid_string (sv_env sv) (mp_id m) \<in> set subs then failP (ErrTeamStore ''team store: retire mapping'')
         else writeP (retire (sv_env sv) t sub))"

definition PrintShopName :: "uuid \<Rightarrow> ('p, string) task" where
  "PrintShopName t = storeP (\<lambda>w. case tenant_of t w of None \<Rightarrow> [] | Some r \<Rightarrow> tn_print_name r)"

definition ProfileType :: "uuid \<Rightarrow> ('p, string) task" where
  "ProfileType t = storeP (\<lambda>w. case tenant_of t w of None \<Rightarrow> [] | Some r \<Rightarrow> tn_profile_type r)"

section \<open>The cache of roles\<close>

definition roleCacheTTL :: gotime where
  "roleCacheTTL = seconds 60"

definition roleCacheMax :: nat where
  "roleCacheMax = 20000"

definition cache_get :: "uuid \<times> string \<Rightarrow> 'p world \<Rightarrow> roleEntry option" where
  "cache_get k w = map_of (role_cache w) k"

definition cache_put :: "uuid \<times> string \<Rightarrow> roleEntry \<Rightarrow> gotime \<Rightarrow> 'p world \<Rightarrow> 'p world" where
  "cache_put k e t w =
     (let m = role_cache w;
          m1 = (if roleCacheMax \<le> length m then filter (\<lambda>(_, v). \<not> re_expires v < t) m else m);
          m2 = (if roleCacheMax \<le> length m1 then [] else m1)
      in w\<lparr>role_cache := AList.update k e m2\<rparr>)"

definition cache_delete :: "uuid \<times> string \<Rightarrow> 'p world \<Rightarrow> 'p world" where
  "cache_delete k w = w\<lparr>role_cache := AList.delete k (role_cache w)\<rparr>"

definition invalidate :: "int \<Rightarrow> int \<Rightarrow> 'p world \<Rightarrow> 'p world" where
  "invalidate orgID acct w = w\<lparr>role_cache :=
     filter (\<lambda>(_, v). \<not> (re_orgID v = orgID \<and> (acct = 0 \<or> re_accountID v = acct))) (role_cache w)\<rparr>"

section \<open>Whose role\<close>

definition ensure_account :: "'p Service \<Rightarrow> string \<Rightarrow> string \<Rightarrow> string \<Rightarrow> ('p, int) task" where
  "ensure_account sv sub email name =
     (case sv_accounts sv of
        None \<Rightarrow> failP ErrUnavailable
      | Some f \<Rightarrow> callP (f sub (if email = [] then sub @ ''@idp.local'' else email) name))"

definition lastKnown :: "roleEntry option \<Rightarrow> Role \<Rightarrow> Role" where
  "lastKnown cached projected = (case cached of Some e \<Rightarrow> re_role e | None \<Rightarrow> projected)"

definition account_of :: "Mapping \<Rightarrow> int" where
  "account_of m = (case mp_AccountID m of None \<Rightarrow> 0 | Some a \<Rightarrow> a)"

text \<open>The account of a mapping, looked up when the row has none.\<close>

definition known_account :: "'p Service \<Rightarrow> Mapping \<Rightarrow> ('p, int) task" where
  "known_account sv m =
     (if account_of m = 0 then ensure_account sv (mp_IDPSubject m) (mp_Email m) (mp_DisplayName m) else returnP (account_of m))"

definition remember :: "'p Service \<Rightarrow> uuid \<times> string \<Rightarrow> Role \<Rightarrow> int \<Rightarrow> int \<Rightarrow> ('p, unit) task" where
  "remember sv k role orgID acct =
     memoP (cache_put k \<lparr> re_role = role, re_orgID = orgID, re_accountID = acct, re_expires = now (sv_env sv) + roleCacheTTL \<rparr> (now (sv_env sv)))"

text \<open>What the platform says of a person the shop knows, once the organization is known.\<close>

definition platform_role ::
  "'p Service \<Rightarrow> 'p OrgClient \<Rightarrow> uuid \<Rightarrow> string \<Rightarrow> roleEntry option \<Rightarrow> Mapping \<Rightarrow> int \<Rightarrow> ('p, Role) task" where
  "platform_role sv org t sub cached m orgID =
     (let projected = NormalizeLegacy (mp_Role m) (mp_IsOwner m) in
      tryP (known_account sv m) (\<lambda>r.
      case r of
        Inl _ \<Rightarrow> returnP (lastKnown cached projected)
      | Inr acct \<Rightarrow>
          tryP (askP (oc_GetMember org orgID acct)) (\<lambda>answer.
          case answer of
            Inl e \<Rightarrow>
              if team_Is e ErrNotMember \<and> mp_IsOwner m then thenP (remember sv (t, sub) RoleOwner orgID acct) (returnP RoleOwner)
              else if team_Is e ErrNotMember then thenP (memoP (cache_delete (t, sub))) (failP ErrNotMember)
              else returnP (lastKnown cached projected)
          | Inr member \<Rightarrow>
              let role = FromPlatform (om_Role member) (om_ProductRoles member) in
              thenP (remember sv (t, sub) role orgID acct)
              (if Role_string role \<noteq> mp_Role m \<or> account_of m \<noteq> acct
               then tryP (SyncMapping t sub (Role_string role) acct) (\<lambda>_. returnP role)
               else returnP role))))"

definition ResolveRole :: "'p Service \<Rightarrow> uuid \<Rightarrow> string \<Rightarrow> ('p, Role) task" where
  "ResolveRole sv t sub =
     (if sub = [] \<or> t = uuid_Nil then failP ErrNotMember
      else
        bindP (readP (cache_get (t, sub))) (\<lambda>cached.
        if (case cached of None \<Rightarrow> False | Some e \<Rightarrow> now (sv_env sv) < re_expires e) then returnP (re_role (the cached))
        else
          tryP (MappingBySub sub) (\<lambda>r.
          case r of
            Inl e \<Rightarrow> (case cached of Some c \<Rightarrow> returnP (re_role c) | None \<Rightarrow> failP e)
          | Inr None \<Rightarrow> thenP (memoP (cache_delete (t, sub))) (failP ErrNotMember)
          | Inr (Some m) \<Rightarrow>
              if mp_TenantID m \<noteq> t then thenP (memoP (cache_delete (t, sub))) (failP ErrNotMember)
              else
                let projected = NormalizeLegacy (mp_Role m) (mp_IsOwner m) in
                tryP (TenantOrg t) (\<lambda>q.
                case q of
                  Inl _ \<Rightarrow> returnP (lastKnown cached projected)
                | Inr (_, orgID) \<Rightarrow>
                    (case sv_org sv of
                       None \<Rightarrow> thenP (remember sv (t, sub) projected 0 0) (returnP projected)
                     | Some org \<Rightarrow>
                         if orgID = 0 then thenP (remember sv (t, sub) projected 0 0) (returnP projected)
                         else platform_role sv org t sub cached m orgID)))))"

datatype MemberEventType = EventJoined | EventRemoved | EventRoleChanged | EventOther string

definition HandleMemberEvent :: "MemberEventType \<Rightarrow> int \<Rightarrow> int \<Rightarrow> ('p, unit) task" where
  "HandleMemberEvent ty orgID acct =
     thenP (memoP (invalidate orgID acct))
     (if ty \<noteq> EventRemoved \<or> orgID = 0 \<or> acct = 0 then returnP ()
      else tryP (TenantByOrg orgID) (\<lambda>r.
        case r of
          Inl _ \<Rightarrow> returnP ()
        | Inr t \<Rightarrow> if t = uuid_Nil then returnP () else tryP (DeleteMappingByAccount t acct) (\<lambda>_. returnP ())))"

section \<open>Acting on the team\<close>

record Caller =
  cl_TenantID :: uuid
  cl_Sub :: string
  cl_Email :: string
  cl_Name :: string

record actor =
  a_role :: Role
  a_accountID :: int
  a_orgID :: int

definition checkMemberLimit :: "'p Service \<Rightarrow> uuid \<Rightarrow> ('p, unit) task" where
  "checkMemberLimit sv t = (case sv_guard sv of None \<Rightarrow> returnP () | Some g \<Rightarrow> queryP (g t))"

definition ensureOrg :: "'p Service \<Rightarrow> uuid \<Rightarrow> int \<Rightarrow> ('p, int) task" where
  "ensureOrg sv t owner =
     bindP (TenantOrg t) (\<lambda>(name, orgID).
     if orgID \<noteq> 0 then returnP orgID
     else case sv_org sv of
       None \<Rightarrow> failP ErrUnavailable
     | Some org \<Rightarrow>
         if owner \<le> 0 then failP ErrOrgNotReady
         else
           bindP (callP (oc_EnsureOrg org name owner ProductKey (uuid_string (sv_env sv) t))) (\<lambda>created.
           thenP (SetTenantOrg t created) (returnP created)))"

definition EnsureTenantOrg :: "'p Service \<Rightarrow> uuid \<Rightarrow> int \<Rightarrow> ('p, unit) task" where
  "EnsureTenantOrg sv t owner = thenP (ensureOrg sv t owner) (returnP ())"

text \<open>The account of the caller, stored on the row when it was not known.\<close>

definition caller_account :: "'p Service \<Rightarrow> Caller \<Rightarrow> Role \<Rightarrow> ('p, int) task" where
  "caller_account sv c role =
     bindP (MappingBySub (cl_Sub c)) (\<lambda>m.
     let acct = (case m of None \<Rightarrow> 0 | Some x \<Rightarrow> account_of x);
         email = (case m of None \<Rightarrow> cl_Email c | Some x \<Rightarrow> mp_Email x);
         name = (case m of None \<Rightarrow> cl_Name c | Some x \<Rightarrow> mp_DisplayName x)
     in if acct \<noteq> 0 then returnP acct
        else bindP (ensure_account sv (cl_Sub c) email name) (\<lambda>a.
             tryP (SyncMapping (cl_TenantID c) (cl_Sub c) (Role_string role) a) (\<lambda>_. returnP a)))"

definition authorize :: "'p Service \<Rightarrow> 'p OrgClient \<Rightarrow> Caller \<Rightarrow> ('p, actor) task" where
  "authorize sv org c =
     bindP (mapErrP (\<lambda>e. if team_Is e ErrNotMember then ErrForbidden else e) (ResolveRole sv (cl_TenantID c) (cl_Sub c))) (\<lambda>role.
     if \<not> ManagesTeam role then failP ErrForbidden
     else
       bindP (caller_account sv c role) (\<lambda>acct.
       bindP (TenantOrg (cl_TenantID c)) (\<lambda>(_, orgID).
       if orgID \<noteq> 0 then returnP \<lparr> a_role = role, a_accountID = acct, a_orgID = orgID \<rparr>
       else if role \<noteq> RoleOwner then failP ErrOrgNotReady
       else bindP (ensureOrg sv (cl_TenantID c) acct) (\<lambda>created.
            returnP \<lparr> a_role = role, a_accountID = acct, a_orgID = created \<rparr>))))"

text \<open>Without a platform every team use case is unavailable.\<close>

definition with_org :: "'p Service \<Rightarrow> ('p OrgClient \<Rightarrow> ('p, 'a) task) \<Rightarrow> ('p, 'a) task" where
  "with_org sv f = (case sv_org sv of None \<Rightarrow> failP ErrUnavailable | Some org \<Rightarrow> f org)"

definition CashierAllowed :: "uuid \<Rightarrow> ('p, bool) task" where
  "CashierAllowed t = tryP (ProfileType t) (\<lambda>r. returnP (case r of Inl _ \<Rightarrow> True | Inr pt \<Rightarrow> pt = [] \<or> pt = ''retail''))"

record MemberView =
  mv_AccountID :: int
  mv_Role :: Role
  mv_RoleLabel :: string
  mv_DisplayName :: string
  mv_EmailMasked :: string
  mv_PhoneMasked :: string
  mv_JoinedAt :: gotime
  mv_IsSelf :: bool
  mv_RoleHint :: string

definition cashierHint :: string where
  "cashierHint = utf8 [0x5EFA, 0x8BAE, 0x6539, 0x4E3A, 0x5E97, 0x5458]"

definition member_view :: "bool \<Rightarrow> int \<Rightarrow> OrgMember \<Rightarrow> MemberView" where
  "member_view cashierOK self m =
     (let r = FromPlatform (om_Role m) (om_ProductRoles m) in
      \<lparr> mv_AccountID = om_AccountID m, mv_Role = r, mv_RoleLabel = Role_Label r, mv_DisplayName = om_DisplayName m,
        mv_EmailMasked = om_EmailMasked m, mv_PhoneMasked = om_PhoneMasked m, mv_JoinedAt = om_JoinedAt m,
        mv_IsSelf = (om_AccountID m = self), mv_RoleHint = (if r = RoleCashier \<and> \<not> cashierOK then cashierHint else []) \<rparr>)"

definition Team_ListMembers :: "'p Service \<Rightarrow> Caller \<Rightarrow> ('p, MemberView list) task" where
  "Team_ListMembers sv c = with_org sv (\<lambda>org.
     bindP (authorize sv org c) (\<lambda>a.
     bindP (askP (oc_ListMembers org (a_orgID a))) (\<lambda>ms.
     bindP (CashierAllowed (cl_TenantID c)) (\<lambda>ok.
     returnP (sort_key mv_JoinedAt (map (member_view ok (a_accountID a)) ms))))))"

definition UpdateMemberRole :: "'p Service \<Rightarrow> Caller \<Rightarrow> int \<Rightarrow> Role \<Rightarrow> ('p, unit) task" where
  "UpdateMemberRole sv c target newRole =
     (case ToPlatform newRole of
        None \<Rightarrow> failP ErrInvalidRole
      | Some (platformRole, platformPR) \<Rightarrow> with_org sv (\<lambda>org.
          bindP (authorize sv org c) (\<lambda>a.
          bindP (if newRole = RoleCashier then CashierAllowed (cl_TenantID c) else returnP True) (\<lambda>ok.
          if \<not> ok then failP ErrRoleNotForShop
          else
            bindP (askP (oc_GetMember org (a_orgID a) target)) (\<lambda>member.
            let targetRole = FromPlatform (om_Role member) (om_ProductRoles member) in
            if \<not> CanManage (a_role a) targetRole \<or> \<not> CanAssign (a_role a) newRole then failP ErrForbidden
            else
              let pr = [ProductKey \<mapsto> (case platformPR ProductKey of None \<Rightarrow> [] | Some v \<Rightarrow> v)] in
              thenP (callP (oc_UpdateMember org (a_orgID a) target (a_accountID a) platformRole pr))
              (thenP (memoP (invalidate (a_orgID a) target))
              (tryP (MappingByAccount (cl_TenantID c) target) (\<lambda>tm.
               case tm of
                 Inr (Some m) \<Rightarrow> tryP (SyncMapping (cl_TenantID c) (mp_IDPSubject m) (Role_string newRole) target) (\<lambda>_. returnP ())
               | _ \<Rightarrow> returnP ()))))))))"

definition Team_RemoveMember :: "'p Service \<Rightarrow> Caller \<Rightarrow> int \<Rightarrow> ('p, unit) task" where
  "Team_RemoveMember sv c target = with_org sv (\<lambda>org.
     bindP (authorize sv org c) (\<lambda>a.
     thenP
       (if target = a_accountID a
        then if a_role a = RoleOwner then failP ErrLastOwner else returnP ()
        else bindP (askP (oc_GetMember org (a_orgID a) target)) (\<lambda>member.
             if \<not> CanManage (a_role a) (FromPlatform (om_Role member) (om_ProductRoles member)) then failP ErrForbidden else returnP ()))
     (thenP (callP (oc_RemoveMember org (a_orgID a) target (a_accountID a)))
     (thenP (memoP (invalidate (a_orgID a) target))
      (tryP (DeleteMappingByAccount (cl_TenantID c) target) (\<lambda>_. returnP ()))))))"

section \<open>Invitations\<close>

definition ShopDisplayName :: "uuid \<Rightarrow> ('p, string) task" where
  "ShopDisplayName t =
     tryP (TenantOrg t) (\<lambda>q.
     let name = (case q of Inl _ \<Rightarrow> [] | Inr (n, _) \<Rightarrow> n) in
     tryP (PrintShopName t) (\<lambda>r.
     returnP (case r of Inr pn \<Rightarrow> if TrimSpace pn \<noteq> [] then TrimSpace pn else name | Inl _ \<Rightarrow> name)))"

definition invite_ttl :: "int \<Rightarrow> int" where
  "invite_ttl hours = (let h = (if hours \<le> 0 then 72 else hours) in if 168 < h then 168 else h)"

definition Team_CreateInvite :: "'p Service \<Rightarrow> Caller \<Rightarrow> Role \<Rightarrow> int \<Rightarrow> ('p, InviteCreated) task" where
  "Team_CreateInvite sv c role ttlHours =
     (case ToPlatform role of
        None \<Rightarrow> failP ErrInvalidRole
      | Some (platformRole, pr) \<Rightarrow> with_org sv (\<lambda>org.
          bindP (authorize sv org c) (\<lambda>a.
          if \<not> CanAssign (a_role a) role then failP ErrForbidden
          else
            bindP (if role = RoleCashier then CashierAllowed (cl_TenantID c) else returnP True) (\<lambda>ok.
            if \<not> ok then failP ErrRoleNotForShop
            else
              thenP (checkMemberLimit sv (cl_TenantID c))
              (bindP (callP (oc_CreateInvite org (a_orgID a) (a_accountID a) platformRole pr (invite_ttl ttlHours))) (\<lambda>res.
               bindP (ShopDisplayName (cl_TenantID c)) (\<lambda>name.
               returnP (res\<lparr>ic_ShopName := name\<rparr>))))))))"

record InviteView =
  iv_ID :: uuid
  iv_Role :: Role
  iv_RoleLabel :: string
  iv_ExpiresAt :: gotime
  iv_CreatedAt :: gotime

definition invite_view :: "OrgInvite \<Rightarrow> InviteView" where
  "invite_view iv =
     (let r = FromPlatform (oi_Role iv) (oi_ProductRoles iv) in
      \<lparr> iv_ID = oi_ID iv, iv_Role = r, iv_RoleLabel = Role_Label r, iv_ExpiresAt = oi_ExpiresAt iv, iv_CreatedAt = oi_CreatedAt iv \<rparr>)"

definition Team_ListInvites :: "'p Service \<Rightarrow> Caller \<Rightarrow> ('p, InviteView list) task" where
  "Team_ListInvites sv c = with_org sv (\<lambda>org.
     bindP (authorize sv org c) (\<lambda>a.
     bindP (askP (oc_ListInvites org (a_orgID a))) (\<lambda>ivs. returnP (map invite_view ivs))))"

definition Team_RevokeInvite :: "'p Service \<Rightarrow> Caller \<Rightarrow> uuid \<Rightarrow> ('p, unit) task" where
  "Team_RevokeInvite sv c inviteID = with_org sv (\<lambda>org.
     bindP (authorize sv org c) (\<lambda>a. callP (oc_RevokeInvite org (a_orgID a) inviteID (a_accountID a))))"

section \<open>Joining a shop\<close>

record JoinInput =
  ji_Sub :: string
  ji_Email :: string
  ji_Name :: string
  ji_Token :: string
  ji_InviteID :: uuid
  ji_AbandonEmptyShop :: bool

record JoinResult =
  jr_TenantID :: uuid
  jr_ShopName :: string
  jr_Role :: Role

definition only_member :: "OrgMember list \<Rightarrow> Mapping \<Rightarrow> bool" where
  "only_member ms m \<longleftrightarrow> \<not> (1 < length ms \<or> (length ms = 1 \<and> 0 < account_of m \<and> om_AccountID (ms ! 0) \<noteq> account_of m))"

definition abandonable :: "'p Service \<Rightarrow> 'p OrgClient \<Rightarrow> Mapping \<Rightarrow> ('p, bool) task" where
  "abandonable sv org m =
     (if \<not> mp_IsOwner m then returnP False
      else
        bindP (MemberCount (mp_TenantID m)) (\<lambda>n.
        if n \<noteq> 1 then returnP False
        else
          bindP (ShopIsEmpty sv (mp_TenantID m)) (\<lambda>gone.
          if \<not> gone then returnP False
          else
            bindP (TenantOrg (mp_TenantID m)) (\<lambda>(_, orgID).
            if orgID = 0 then returnP True
            else bindP (askP (oc_ListMembers org orgID)) (\<lambda>ms. returnP (only_member ms m))))))"

definition isOwnShopInvite :: "'p OrgClient \<Rightarrow> Mapping \<Rightarrow> uuid \<Rightarrow> ('p, bool) task" where
  "isOwnShopInvite org m inviteID =
     (if inviteID = uuid_Nil then returnP False
      else
        bindP (TenantOrg (mp_TenantID m)) (\<lambda>(_, orgID).
        if orgID = 0 then returnP False
        else bindP (askP (oc_ListInvites org orgID)) (\<lambda>ivs. returnP (list_ex (\<lambda>iv. oi_ID iv = inviteID) ivs))))"

text \<open>The checks on a person who has a shop already.\<close>

definition join_existing :: "'p Service \<Rightarrow> 'p OrgClient \<Rightarrow> JoinInput \<Rightarrow> Mapping \<Rightarrow> ('p, unit) task" where
  "join_existing sv org jin m =
     bindP (mapErrP (\<lambda>_. ErrUnavailable) (isOwnShopInvite org m (ji_InviteID jin))) (\<lambda>own.
     if own then failP ErrAlreadyMemberHere
     else
       bindP (mapErrP (\<lambda>_. ErrUnavailable) (abandonable sv org m)) (\<lambda>can.
       if \<not> ji_AbandonEmptyShop jin then failP (AlreadyInShopError can (mp_IsOwner m))
       else if \<not> mp_IsOwner m then failP (AlreadyInShopError False False)
       else if \<not> can then failP ErrShopNotEmpty
       else returnP ()))"

definition leaveOrg :: "'p OrgClient \<Rightarrow> int \<Rightarrow> int \<Rightarrow> ('p, unit) task" where
  "leaveOrg org orgID acct =
     tryP (callP (oc_RemoveMember org orgID acct acct)) (\<lambda>_. memoP (invalidate orgID acct))"

definition revoke_all :: "'p OrgClient \<Rightarrow> int \<Rightarrow> int \<Rightarrow> OrgInvite list \<Rightarrow> ('p, unit) task" where
  "revoke_all org orgID acct ivs =
     foldP (\<lambda>iv _. tryP (callP (oc_RevokeInvite org orgID (oi_ID iv) acct)) (\<lambda>_. returnP ())) ivs ()"

definition retireOrg :: "'p OrgClient \<Rightarrow> uuid \<Rightarrow> int \<Rightarrow> ('p, unit) task" where
  "retireOrg org t acct =
     tryP (TenantOrg t) (\<lambda>q.
     case q of
       Inl _ \<Rightarrow> returnP ()
     | Inr (_, orgID) \<Rightarrow>
         if orgID = 0 then returnP ()
         else
           tryP (askP (oc_ListInvites org orgID)) (\<lambda>r.
           thenP (revoke_all org orgID acct (case r of Inl _ \<Rightarrow> [] | Inr ivs \<Rightarrow> ivs))
           (case oc_DissolveOrg org of
              None \<Rightarrow> returnP ()
            | Some dissolve \<Rightarrow> tryP (callP (dissolve orgID acct)) (\<lambda>_. returnP ()))))"

definition abandonRaced :: "uuid \<Rightarrow> string \<Rightarrow> team_err \<Rightarrow> ('p, bool) task" where
  "abandonRaced oldTenant sub e =
     (if \<not> team_Is e ErrShopNotEmpty then returnP False
      else tryP (MappingBySub sub) (\<lambda>r.
        returnP (case r of Inl _ \<Rightarrow> False | Inr None \<Rightarrow> True | Inr (Some m) \<Rightarrow> mp_TenantID m \<noteq> oldTenant)))"

text \<open>Giving up the old shop.\<close>

definition give_up :: "'p Service \<Rightarrow> 'p OrgClient \<Rightarrow> JoinInput \<Rightarrow> Mapping \<Rightarrow> int \<Rightarrow> int \<Rightarrow> ('p, unit) task" where
  "give_up sv org jin m orgID acct =
     tryP (AbandonShop sv (mp_TenantID m) (ji_Sub jin)) (\<lambda>r.
     case r of
       Inl e \<Rightarrow>
         bindP (abandonRaced (mp_TenantID m) (ji_Sub jin) e) (\<lambda>raced.
         if raced then returnP () else thenP (leaveOrg org orgID acct) (failP e))
     | Inr _ \<Rightarrow>
         thenP (memoP (cache_delete (mp_TenantID m, ji_Sub jin))) (retireOrg org (mp_TenantID m) acct))"

definition joined_mapping :: "JoinInput \<Rightarrow> uuid \<Rightarrow> Role \<Rightarrow> int \<Rightarrow> Mapping" where
  "joined_mapping jin t role acct =
     \<lparr> mp_id = uuid_Nil, mp_TenantID = t, mp_IDPSubject = ji_Sub jin,
       mp_Email = (if ji_Email jin = [] then ji_Sub jin @ ''@idp.local'' else ji_Email jin), mp_DisplayName = ji_Name jin,
       mp_Role = Role_string role, mp_IsOwner = (role = RoleOwner), mp_AccountID = (if 0 < acct then Some acct else None) \<rparr>"

definition enrol :: "'p Service \<Rightarrow> 'p OrgClient \<Rightarrow> JoinInput \<Rightarrow> uuid \<Rightarrow> AcceptResult \<Rightarrow> int \<Rightarrow> ('p, JoinResult) task" where
  "enrol sv org jin t res acct =
     (let role = FromPlatform (ac_Role res) (ac_ProductRoles res);
          accepted = thenP (memoP (invalidate (ac_OrgID res) acct))
            (bindP (ShopDisplayName t) (\<lambda>name. returnP \<lparr> jr_TenantID = t, jr_ShopName = name, jr_Role = role \<rparr>))
      in tryP (InsertMapping (sv_env sv) (joined_mapping jin t role acct)) (\<lambda>r.
         case r of
           Inr _ \<Rightarrow> accepted
         | Inl e \<Rightarrow>
             if team_Is e ErrMappingExists
             then bindP (MappingBySub (ji_Sub jin)) (\<lambda>cur.
                  if (case cur of None \<Rightarrow> False | Some m \<Rightarrow> mp_TenantID m \<noteq> t)
                  then thenP (leaveOrg org (ac_OrgID res) acct) (failP (AlreadyInShopError False False))
                  else accepted)
             else thenP (leaveOrg org (ac_OrgID res) acct) (failP (TeamWrap ''team join: persist mapping'' e))))"

text \<open>From the accepted invitation on; \<open>existing\<close> is the row the checks saw.\<close>

definition join_shop :: "'p Service \<Rightarrow> 'p OrgClient \<Rightarrow> JoinInput \<Rightarrow> Mapping option \<Rightarrow> ('p, JoinResult) task" where
  "join_shop sv org jin existing =
     bindP (ensure_account sv (ji_Sub jin) (ji_Email jin) (ji_Name jin)) (\<lambda>acct.
     bindP (callP (oc_AcceptInvite org (ji_Token jin) acct)) (\<lambda>res.
     bindP (TenantByOrg (ac_OrgID res)) (\<lambda>t.
     if t = uuid_Nil then thenP (leaveOrg org (ac_OrgID res) acct) (failP ErrInviteInvalid)
     else if (case existing of None \<Rightarrow> False | Some m \<Rightarrow> mp_TenantID m = t) then failP ErrAlreadyMemberHere
     else
       tryP (checkMemberLimit sv t) (\<lambda>limit.
       case limit of
         Inl e \<Rightarrow> thenP (leaveOrg org (ac_OrgID res) acct) (failP e)
       | Inr _ \<Rightarrow>
           thenP (case existing of None \<Rightarrow> returnP () | Some m \<Rightarrow> give_up sv org jin m (ac_OrgID res) acct)
           (enrol sv org jin t res acct)))))"

definition Join :: "'p Service \<Rightarrow> JoinInput \<Rightarrow> ('p, JoinResult) task" where
  "Join sv jin = with_org sv (\<lambda>org.
     if ji_Sub jin = [] \<or> ji_Token jin = [] then failP ErrInviteInvalid
     else
       bindP (MappingBySub (ji_Sub jin)) (\<lambda>existing.
       thenP (case existing of None \<Rightarrow> returnP () | Some m \<Rightarrow> join_existing sv org jin m)
       (join_shop sv org jin existing)))"

end
