(* ===== verification/Dev_Org.thy ===== *)
theory Dev_Org
  imports Team "HOL-Library.Word"
begin

unbundle bit_operations_syntax

text \<open>
  The organization service as the team use cases rely on it, and the stand-in that development
  installations run (\<open>adapter/platform/org_dev.go\<close>), which keeps organizations, members and invitations
  in tables of its own.
\<close>

section \<open>What is relied on\<close>

text \<open>A change of a member that is confirmed can be read back, and a removed member is gone.\<close>

locale org_platform =
  fixes org :: "'p OrgClient"
  assumes update_visible: "oc_UpdateMember org i acct who role prs p = (Inr (), p') \<Longrightarrow> acct \<noteq> 0 \<Longrightarrow>
      \<exists>m. oc_GetMember org i acct p' = Inr m \<and> om_Role m = role
        \<and> (\<forall>k v. prs k = Some v \<longrightarrow> v \<noteq> [] \<longrightarrow> om_ProductRoles m k = Some v)"
    and removed_gone: "oc_RemoveMember org i acct who p = (Inr (), p') \<Longrightarrow> acct \<noteq> 0 \<Longrightarrow> oc_GetMember org i acct p' = Inl ErrNotMember"

section \<open>Tables of the stand-in\<close>

record dev_account_row =
  da_account_id :: int
  da_idp_subject :: string
  da_email :: string
  da_display_name :: string

record dev_org_row =
  do_id :: int
  do_product :: string
  do_external_ref :: string
  do_name :: string

record dev_member_row =
  dm_org_id :: int
  dm_account_id :: int
  dm_role :: string
  dm_product_roles :: "(string, string) map"
  dm_joined_at :: gotime

record dev_invite_row =
  di_id :: uuid
  di_org_id :: int
  di_token_hash :: string
  di_role :: string
  di_product_roles :: "(string, string) map"
  di_invited_by :: int
  di_expires_at :: gotime
  di_accepted :: bool
  di_revoked :: bool
  di_created_at :: gotime

record dev_db =
  dev_account :: "dev_account_row list"
  dev_org :: "dev_org_row list"
  dev_org_member :: "dev_member_row list"
  dev_org_invite :: "dev_invite_row list"
  dev_draws :: nat

text \<open>The clock, \<open>uuid.New\<close>, \<open>crypto/rand\<close> (hex) and \<open>hashToken\<close> (hex of SHA-256).\<close>

record dev_env =
  dv_env :: env
  dv_token :: "nat \<Rightarrow> string"
  dv_hash :: "string \<Rightarrow> string"

section \<open>Accounts\<close>

text \<open>FNV-1a on 32 bits.\<close>

definition fnv32a :: "string \<Rightarrow> 32 word" where
  "fnv32a txt = foldl (\<lambda>h c. (h XOR of_nat (of_char c)) * 16777619) 2166136261 txt"

definition dev_account_id :: "string \<Rightarrow> int" where
  "dev_account_id sub = uint (fnv32a sub) + 1000000"

definition Dev_EnsureAccount :: "string \<Rightarrow> string \<Rightarrow> string \<Rightarrow> (dev_db, team_err, int) program" where
  "Dev_EnsureAccount sub email name s =
     (let i = dev_account_id sub in
      if list_ex (\<lambda>r. da_account_id r = i \<and> da_idp_subject r \<noteq> sub) (dev_account s) \<and> \<not> list_ex (\<lambda>r. da_idp_subject r = sub) (dev_account s)
      then (Inl (ErrTeamStore ''dev org: ensure account''), s)
      else (Inr i, s\<lparr>dev_account := upsert (\<lambda>r. da_idp_subject r = sub)
             (\<lambda>r. r\<lparr>da_email := email, da_display_name := (if name \<noteq> [] then name else da_display_name r)\<rparr>)
             \<lparr> da_account_id = i, da_idp_subject = sub, da_email = email, da_display_name = name \<rparr> (dev_account s)\<rparr>))"

section \<open>Organizations and members\<close>

definition next_org_id :: "dev_db \<Rightarrow> int" where
  "next_org_id s = int (length (dev_org s)) + 1"

definition Dev_EnsureOrg :: "dev_env \<Rightarrow> string \<Rightarrow> int \<Rightarrow> string \<Rightarrow> string \<Rightarrow> (dev_db, team_err, int) program" where
  "Dev_EnsureOrg V name owner pkey ref s =
     (case List.find (\<lambda>r. do_product r = pkey \<and> do_external_ref r = ref) (dev_org s) of
        Some r \<Rightarrow> (Inr (do_id r), s)
      | None \<Rightarrow>
          let i = next_org_id s in
          (Inr i, s\<lparr>dev_org := dev_org s @ [\<lparr> do_id = i, do_product = pkey, do_external_ref = ref, do_name = name \<rparr>],
                   dev_org_member := dev_org_member s @ [\<lparr> dm_org_id = i, dm_account_id = owner, dm_role = ''owner'',
                     dm_product_roles = Map.empty, dm_joined_at = now (dv_env V) \<rparr>]\<rparr>))"

definition dev_member :: "int \<Rightarrow> int \<Rightarrow> dev_db \<Rightarrow> dev_member_row option" where
  "dev_member i acct s = List.find (\<lambda>m. dm_org_id m = i \<and> dm_account_id m = acct) (dev_org_member s)"

definition dev_role :: "int \<Rightarrow> int \<Rightarrow> dev_db \<Rightarrow> string option" where
  "dev_role i acct s = map_option dm_role (dev_member i acct s)"

text \<open>The first character of a local part, of as many bytes as its first byte says.\<close>

definition first_rune :: "string \<Rightarrow> string" where
  "first_rune txt =
     (case txt of [] \<Rightarrow> []
      | c # _ \<Rightarrow> let b = (of_char c :: nat) in take (if b < 192 then 1 else if b < 224 then 2 else if b < 240 then 3 else 4) txt)"

definition maskEmail :: "string \<Rightarrow> string" where
  "maskEmail e =
     (let local = takeWhile (\<lambda>c. c \<noteq> CHR ''@'') e in
      if local = [] \<or> length local = length e then [] else first_rune local @ ''***'' @ drop (length local) e)"

definition dev_view :: "dev_db \<Rightarrow> dev_member_row \<Rightarrow> OrgMember" where
  "dev_view s m =
     (let a = List.find (\<lambda>r. da_account_id r = dm_account_id m) (dev_account s) in
      \<lparr> om_AccountID = dm_account_id m, om_Role = dm_role m, om_ProductRoles = dm_product_roles m,
        om_DisplayName = (case a of None \<Rightarrow> [] | Some r \<Rightarrow> da_display_name r),
        om_EmailMasked = maskEmail (case a of None \<Rightarrow> [] | Some r \<Rightarrow> da_email r), om_PhoneMasked = [], om_JoinedAt = dm_joined_at m \<rparr>)"

text \<open>\<open>only = 0\<close> lists every member.\<close>

definition memberRows :: "int \<Rightarrow> int \<Rightarrow> dev_db \<Rightarrow> OrgMember list" where
  "memberRows i only s = map (dev_view s)
     (sort_key dm_joined_at (sort_key dm_account_id
       (filter (\<lambda>m. dm_org_id m = i \<and> (only = 0 \<or> dm_account_id m = only)) (dev_org_member s))))"

definition Dev_ListMembers :: "int \<Rightarrow> dev_db \<Rightarrow> team_err + OrgMember list" where
  "Dev_ListMembers i s = Inr (memberRows i 0 s)"

definition Dev_GetMember :: "int \<Rightarrow> int \<Rightarrow> dev_db \<Rightarrow> team_err + OrgMember" where
  "Dev_GetMember i acct s = (case memberRows i acct s of [] \<Rightarrow> Inl ErrNotMember | m # _ \<Rightarrow> Inr m)"

definition isManager :: "string \<Rightarrow> bool" where
  "isManager role \<longleftrightarrow> role = ''owner'' \<or> role = ''admin''"

definition Dev_UpdateMember :: "int \<Rightarrow> int \<Rightarrow> int \<Rightarrow> string \<Rightarrow> (string, string) map \<Rightarrow> (dev_db, team_err, unit) program" where
  "Dev_UpdateMember i acct who role prs s =
     (case dev_role i who s of
        None \<Rightarrow> (Inl ErrForbidden, s)
      | Some actorRole \<Rightarrow>
          (case dev_role i acct s of
             None \<Rightarrow> (Inl ErrNotMember, s)
           | Some targetRole \<Rightarrow>
               if \<not> isManager actorRole \<or> targetRole = ''owner'' \<or> role = ''owner'' then (Inl ErrForbidden, s)
               else if (role = ''admin'' \<or> targetRole = ''admin'') \<and> actorRole \<noteq> ''owner'' then (Inl ErrForbidden, s)
               else if role \<noteq> ''admin'' \<and> role \<noteq> ''member'' then (Inl ErrInvalidRole, s)
               else (Inr (), s\<lparr>dev_org_member := update_where (\<lambda>m. dm_org_id m = i \<and> dm_account_id m = acct)
                      (\<lambda>m. m\<lparr>dm_role := role, dm_product_roles := prs\<rparr>) (dev_org_member s)\<rparr>)))"

definition Dev_RemoveMember :: "int \<Rightarrow> int \<Rightarrow> int \<Rightarrow> (dev_db, team_err, unit) program" where
  "Dev_RemoveMember i acct who s =
     (case dev_role i who s of
        None \<Rightarrow> (Inl ErrForbidden, s)
      | Some actorRole \<Rightarrow>
          (case dev_role i acct s of
             None \<Rightarrow> (Inl ErrNotMember, s)
           | Some targetRole \<Rightarrow>
               if targetRole = ''owner'' then (Inl ErrLastOwner, s)
               else if acct \<noteq> who \<and> (\<not> isManager actorRole \<or> (targetRole = ''admin'' \<and> actorRole \<noteq> ''owner'')) then (Inl ErrForbidden, s)
               else (Inr (), s\<lparr>dev_org_member := filter (\<lambda>m. \<not> (dm_org_id m = i \<and> dm_account_id m = acct)) (dev_org_member s)\<rparr>)))"

section \<open>Invitations\<close>

definition Dev_CreateInvite ::
  "dev_env \<Rightarrow> int \<Rightarrow> int \<Rightarrow> string \<Rightarrow> (string, string) map \<Rightarrow> int \<Rightarrow> (dev_db, team_err, InviteCreated) program" where
  "Dev_CreateInvite V i who role prs hours s =
     (case dev_role i who s of
        None \<Rightarrow> (Inl ErrForbidden, s)
      | Some actorRole \<Rightarrow>
          if \<not> isManager actorRole \<or> (role = ''admin'' \<and> actorRole \<noteq> ''owner'') then (Inl ErrForbidden, s)
          else if role \<noteq> ''admin'' \<and> role \<noteq> ''member'' then (Inl ErrInvalidRole, s)
          else
            let ttl = (if hours < 1 \<or> 168 < hours then 72 else hours);
                token = dv_token V (dev_draws s);
                iid = new_uuid (dv_env V) (dev_draws s);
                expires = now (dv_env V) + seconds (ttl * 3600)
            in (Inr \<lparr> ic_InviteID = iid, ic_Token = token, ic_ExpiresAt = expires, ic_ShopName = [] \<rparr>,
                s\<lparr>dev_org_invite := dev_org_invite s @ [\<lparr> di_id = iid, di_org_id = i, di_token_hash = dv_hash V token, di_role = role,
                    di_product_roles = prs, di_invited_by = who, di_expires_at = expires, di_accepted = False, di_revoked = False,
                    di_created_at = now (dv_env V) \<rparr>], dev_draws := Suc (dev_draws s)\<rparr>))"

definition dev_pending :: "dev_env \<Rightarrow> int \<Rightarrow> dev_invite_row \<Rightarrow> bool" where
  "dev_pending V i r \<longleftrightarrow> di_org_id r = i \<and> \<not> di_accepted r \<and> \<not> di_revoked r \<and> now (dv_env V) < di_expires_at r"

definition Dev_ListInvites :: "dev_env \<Rightarrow> int \<Rightarrow> dev_db \<Rightarrow> team_err + OrgInvite list" where
  "Dev_ListInvites V i s = Inr (map (\<lambda>r. \<lparr> oi_ID = di_id r, oi_Role = di_role r, oi_ProductRoles = di_product_roles r,
       oi_InvitedBy = di_invited_by r, oi_ExpiresAt = di_expires_at r, oi_CreatedAt = di_created_at r \<rparr>)
     (sort_key (\<lambda>r. - di_created_at r) (filter (dev_pending V i) (dev_org_invite s))))"

definition Dev_RevokeInvite :: "int \<Rightarrow> uuid \<Rightarrow> int \<Rightarrow> (dev_db, team_err, unit) program" where
  "Dev_RevokeInvite i iid who s =
     (case dev_role i who s of
        None \<Rightarrow> (Inl ErrForbidden, s)
      | Some actorRole \<Rightarrow>
          let hit = (\<lambda>r. di_id r = iid \<and> di_org_id r = i \<and> \<not> di_accepted r \<and> \<not> di_revoked r) in
          if \<not> isManager actorRole then (Inl ErrForbidden, s)
          else if \<not> list_ex hit (dev_org_invite s) then (Inl ErrInviteInvalid, s)
          else (Inr (), s\<lparr>dev_org_invite := update_where hit (\<lambda>r. r\<lparr>di_revoked := True\<rparr>) (dev_org_invite s)\<rparr>))"

definition Dev_AcceptInvite :: "dev_env \<Rightarrow> string \<Rightarrow> int \<Rightarrow> (dev_db, team_err, AcceptResult) program" where
  "Dev_AcceptInvite V token acct s =
     (case List.find (\<lambda>r. di_token_hash r = dv_hash V token) (dev_org_invite s) of
        None \<Rightarrow> (Inl ErrInviteInvalid, s)
      | Some iv \<Rightarrow>
          (case dev_member (di_org_id iv) acct s of
             Some m \<Rightarrow> (Inr \<lparr> ac_OrgID = di_org_id iv, ac_Role = dm_role m, ac_ProductRoles = dm_product_roles m \<rparr>, s)
           | None \<Rightarrow>
               if di_accepted iv \<or> di_revoked iv \<or> \<not> now (dv_env V) < di_expires_at iv then (Inl ErrInviteInvalid, s)
               else (Inr \<lparr> ac_OrgID = di_org_id iv, ac_Role = di_role iv, ac_ProductRoles = di_product_roles iv \<rparr>,
                     s\<lparr>dev_org_member := dev_org_member s @ [\<lparr> dm_org_id = di_org_id iv, dm_account_id = acct, dm_role = di_role iv,
                          dm_product_roles = di_product_roles iv, dm_joined_at = now (dv_env V) \<rparr>],
                       dev_org_invite := update_where (\<lambda>r. di_id r = di_id iv) (\<lambda>r. r\<lparr>di_accepted := True\<rparr>) (dev_org_invite s)\<rparr>)))"

definition Dev_DissolveOrg :: "int \<Rightarrow> int \<Rightarrow> (dev_db, team_err, unit) program" where
  "Dev_DissolveOrg i who s =
     (let n = length (filter (\<lambda>m. dm_org_id m = i) (dev_org_member s)) in
      (Inr (), s\<lparr>dev_org_invite := update_where (\<lambda>r. di_org_id r = i \<and> \<not> di_revoked r \<and> \<not> di_accepted r) (\<lambda>r. r\<lparr>di_revoked := True\<rparr>) (dev_org_invite s),
         dev_org_member := filter (\<lambda>m. \<not> (dm_org_id m = i \<and> dm_account_id m = who \<and> n = 1)) (dev_org_member s)\<rparr>))"

definition DevOrgClient :: "dev_env \<Rightarrow> dev_db OrgClient" where
  "DevOrgClient V =
     \<lparr> oc_EnsureOrg = Dev_EnsureOrg V, oc_ListMembers = Dev_ListMembers, oc_GetMember = Dev_GetMember,
       oc_UpdateMember = Dev_UpdateMember, oc_RemoveMember = Dev_RemoveMember, oc_CreateInvite = Dev_CreateInvite V,
       oc_ListInvites = Dev_ListInvites V, oc_RevokeInvite = Dev_RevokeInvite, oc_AcceptInvite = Dev_AcceptInvite V,
       oc_DissolveOrg = Some Dev_DissolveOrg \<rparr>"

section \<open>The stand-in keeps the laws\<close>

lemma memberRows_set: "acct \<noteq> 0 \<Longrightarrow> set (memberRows i acct s) = dev_view s ` {m \<in> set (dev_org_member s). dm_org_id m = i \<and> dm_account_id m = acct}"
  by (simp add: memberRows_def)

lemma Dev_GetMember_Inr: "acct \<noteq> 0 \<Longrightarrow> dev_member i acct s \<noteq> None \<Longrightarrow>
    \<exists>m \<in> set (dev_org_member s). dm_org_id m = i \<and> dm_account_id m = acct \<and> Dev_GetMember i acct s = Inr (dev_view s m)"
proof -
  assume a: "acct \<noteq> 0" "dev_member i acct s \<noteq> None"
  then have "memberRows i acct s \<noteq> []" using memberRows_set [OF a(1), of i s] by (auto simp: dev_member_def find_None_iff)
  then obtain x xs where x: "memberRows i acct s = x # xs" by (cases "memberRows i acct s") auto
  then have "x \<in> set (memberRows i acct s)" by simp
  then obtain m where "m \<in> set (dev_org_member s)" "dm_org_id m = i" "dm_account_id m = acct" "x = dev_view s m"
    unfolding memberRows_set [OF a(1)] by blast
  then show ?thesis using x by (auto simp: Dev_GetMember_def)
qed

interpretation dev_platform: org_platform "DevOrgClient V"
proof unfold_locales
  fix i acct who role prs p p'
  assume u: "oc_UpdateMember (DevOrgClient V) i acct who role prs p = (Inr (), p')" and a: "acct \<noteq> 0"
  let ?q = "\<lambda>m. dm_org_id m = i \<and> dm_account_id m = acct" and ?f = "\<lambda>m. m\<lparr>dm_role := role, dm_product_roles := prs\<rparr>"
  have p': "p' = p\<lparr>dev_org_member := update_where ?q ?f (dev_org_member p)\<rparr>" and m: "dev_role i acct p \<noteq> None"
    using u by (auto simp: DevOrgClient_def Dev_UpdateMember_def split: option.splits if_splits)
  have "dev_member i acct p' \<noteq> None" using m by (auto simp: p' dev_role_def dev_member_def find_update_where_same)
  then obtain x where x: "x \<in> set (dev_org_member p')" "?q x" "Dev_GetMember i acct p' = Inr (dev_view p' x)"
    using Dev_GetMember_Inr [OF a, of i p'] by blast
  have rows: "set (dev_org_member p') = (\<lambda>m. if ?q m then ?f m else m) ` set (dev_org_member p)" by (simp add: p' update_where_def)
  obtain y where "x = (if ?q y then ?f y else y)" using x(1) unfolding rows by blast
  then have "dm_role x = role" "dm_product_roles x = prs" using x(2) by (simp_all split: if_splits)
  then show "\<exists>m. oc_GetMember (DevOrgClient V) i acct p' = Inr m \<and> om_Role m = role \<and> (\<forall>k v. prs k = Some v \<longrightarrow> v \<noteq> [] \<longrightarrow> om_ProductRoles m k = Some v)"
    using x(3) by (simp add: DevOrgClient_def dev_view_def Let_def)
next
  fix i acct who p p'
  assume r: "oc_RemoveMember (DevOrgClient V) i acct who p = (Inr (), p')" and a: "acct \<noteq> 0"
  then have "dev_org_member p' = filter (\<lambda>m. \<not> (dm_org_id m = i \<and> dm_account_id m = acct)) (dev_org_member p)"
    by (auto simp: DevOrgClient_def Dev_RemoveMember_def split: option.splits if_splits)
  then have "set (memberRows i acct p') = {}" unfolding memberRows_set [OF a] by auto
  then have "memberRows i acct p' = []" by simp
  then show "oc_GetMember (DevOrgClient V) i acct p' = Inl ErrNotMember" by (simp add: DevOrgClient_def Dev_GetMember_def)
qed

end
