(* ===== verification/Go_Csv.thy ===== *)
theory Go_Csv
  imports Go_Text
begin

text \<open>
  The reader of Go's \<open>encoding/csv\<close> as the importer configures it (comma, no comments, no lazy
  quotes, \<open>TrimLeadingSpace\<close>), its writer, and \<open>time.Parse\<close> for the layouts the importer tries.  Input
  is a string of bytes.  The loop that reads a file record by record has no bound of its own; it
  is a \<open>partial_function\<close>, and that it ends is proved.
\<close>

abbreviation newline :: char where "newline \<equiv> CHR 0x0A"
abbreviation creturn :: char where "creturn \<equiv> CHR 0x0D"
abbreviation quote :: char where "quote \<equiv> CHR 0x22"
abbreviation comma :: char where "comma \<equiv> CHR '',''"

section \<open>Lines\<close>

text \<open>\<open>readLine\<close>: a line ends in one newline, whatever ended it; the last line may have none.\<close>

definition chop_return :: "string \<Rightarrow> string" where
  "chop_return l = (if l \<noteq> [] \<and> last l = creturn then butlast l else l)"

definition next_line :: "string \<Rightarrow> (string \<times> string) option" where
  "next_line s =
     (if s = [] then None
      else let l = takeWhile (\<lambda>c. c \<noteq> newline) s in
        case dropWhile (\<lambda>c. c \<noteq> newline) s of
          [] \<Rightarrow> Some (chop_return l, [])
        | _ # rest \<Rightarrow> Some (chop_return l @ [newline], rest))"

lemma take_drop_length: "length (takeWhile p s) + length (dropWhile p s) = length s"
  using takeWhile_dropWhile_id [of p s] by (metis length_append)

lemma chop_return_length: "length (chop_return l) \<le> length l"
  by (simp add: chop_return_def)

lemma next_line_shorter:
  assumes "next_line s = Some (l, rest)"
  shows "length l + length rest \<le> length s" "length rest < length s"
proof -
  let ?l = "takeWhile (\<lambda>c. c \<noteq> newline) s"
  have "length l + length rest \<le> length s \<and> length rest < length s"
  proof (cases "dropWhile (\<lambda>c. c \<noteq> newline) s")
    case Nil
    then have "l = chop_return ?l" "rest = []" "s \<noteq> []" using assms by (simp_all only: next_line_def Let_def list.case) (simp_all split: if_splits)
    then show ?thesis using Nil take_drop_length [of "\<lambda>c. c \<noteq> newline" s] chop_return_length [of ?l] by simp
  next
    case (Cons a t)
    then have "l = chop_return ?l @ [newline]" "rest = t" using assms by (simp_all only: next_line_def Let_def list.case) (simp_all split: if_splits)
    then show ?thesis using Cons take_drop_length [of "\<lambda>c. c \<noteq> newline" s] chop_return_length [of ?l] by simp
  qed
  then show "length l + length rest \<le> length s" "length rest < length s" by simp_all
qed

text \<open>The first line of a record: empty lines are skipped.\<close>

function record_line :: "string \<Rightarrow> (string \<times> string) option" where
  "record_line s =
     (case next_line s of
        None \<Rightarrow> None
      | Some (l, rest) \<Rightarrow> if l = [] \<or> l = [newline] then record_line rest else Some (l, rest))"
  by pat_completeness auto

termination
  by (relation "measure length") (use next_line_shorter(2) in auto)

declare record_line.simps [simp del]

lemma record_line_shorter: "record_line s = Some (l, rest) \<Longrightarrow> length l + length rest \<le> length s \<and> l \<noteq> []"
proof (induction s rule: record_line.induct)
  case (1 s)
  show ?case
  proof (cases "next_line s")
    case None
    then show ?thesis using 1(2) by (simp add: record_line.simps)
  next
    case (Some p)
    then obtain l' r' where p: "next_line s = Some (l', r')" by (cases p) auto
    show ?thesis
    proof (cases "l' = [] \<or> l' = [newline]")
      case True
      then have "record_line r' = Some (l, rest)" using 1(2) p by (simp add: record_line.simps)
      then have "length l + length rest \<le> length r' \<and> l \<noteq> []" using 1(1) [OF p refl True] by simp
      then show ?thesis using next_line_shorter(2) [OF p] by simp
    next
      case False
      then show ?thesis using 1(2) p next_line_shorter(1) [OF p] by (simp add: record_line.simps)
    qed
  qed
qed

section \<open>Fields\<close>

datatype csv_err = ErrBareQuote | ErrQuote | ErrFieldCount

text \<open>
  \<open>readRecord\<close> after its first line.  Outside quotes a field ends at the comma or with the line;
  a quoted field may go on over lines, and the file may not end in it.
\<close>

definition chop_newline :: "string \<Rightarrow> string" where
  "chop_newline l = (if l \<noteq> [] \<and> last l = newline then butlast l else l)"

lemma trim_front_length: "length (trim_front ws s) \<le> length s"
proof (induction ws s rule: trim_front.induct)
  case (1 ws s)
  then show ?case by (subst trim_front.simps) (auto dest: leading_shorter intro: le_trans)
qed

lemma dropWhile_Cons_shorter: "dropWhile p s = c # t \<Longrightarrow> length t < length s"
  using take_drop_length [of p s] by simp

lemma trimmed_shorter:
  assumes "dropWhile p (trim_front ws s) = c # t"
  shows "length t < length s"
  using dropWhile_Cons_shorter [OF assms] trim_front_length [of ws s] by simp

definition csv_size :: "string \<times> string \<times> string list + string \<times> string \<times> string \<times> string list \<Rightarrow> nat" where
  "csv_size q = (case q of Inl (line, rest, _) \<Rightarrow> length line + length rest | Inr (line, rest, _, _) \<Rightarrow> length line + length rest)"

lemma trimmed_tail: "trim_front ws s \<noteq> [] \<Longrightarrow> length (drop 1 (trim_front ws s)) < length s"
  using trim_front_length [of ws s] by (cases "trim_front ws s") (simp_all)

function (sequential)
  csv_fields :: "string \<Rightarrow> string \<Rightarrow> string list \<Rightarrow> csv_err + (string list \<times> string)" and
  csv_quoted :: "string \<Rightarrow> string \<Rightarrow> string \<Rightarrow> string list \<Rightarrow> csv_err + (string list \<times> string)"
where
  "csv_fields line rest acc =
     (let body = trim_front space_texts line in
      if body \<noteq> [] \<and> hd body = quote then csv_quoted (drop 1 body) rest [] acc
      else
        (case dropWhile (\<lambda>c. c \<noteq> comma) body of
           [] \<Rightarrow> if quote \<in> set (chop_newline body) then Inl ErrBareQuote else Inr (acc @ [chop_newline body], rest)
         | _ # line' \<Rightarrow>
             let field = takeWhile (\<lambda>c. c \<noteq> comma) body in
             if quote \<in> set field then Inl ErrBareQuote else csv_fields line' rest (acc @ [field])))"
| "csv_quoted line rest buf acc =
     (case dropWhile (\<lambda>c. c \<noteq> quote) line of
        _ # line' \<Rightarrow>
          let buf' = buf @ takeWhile (\<lambda>c. c \<noteq> quote) line in
          (case line' of
             [] \<Rightarrow> Inr (acc @ [buf'], rest)
           | c # line'' \<Rightarrow>
               if c = quote then csv_quoted line'' rest (buf' @ [quote]) acc
               else if c = comma then csv_fields line'' rest (acc @ [buf'])
               else if line' = [newline] then Inr (acc @ [buf'], rest)
               else Inl ErrQuote)
      | [] \<Rightarrow>
          if line = [] then Inl ErrQuote
          else (case next_line rest of
                  None \<Rightarrow> Inl ErrQuote
                | Some (l, rest') \<Rightarrow> csv_quoted l rest' (buf @ line) acc))"
  by pat_completeness auto

termination
proof (relation "measure csv_size", goal_cases)
  case (2 line rest acc body)
  then have "length (drop 1 body) < length line" using trimmed_tail by blast
  then show ?case by (simp add: csv_size_def)
next
  case (3 line rest acc body c line' field)
  then have "length line' < length line" using trimmed_shorter by blast
  then show ?case by (simp add: csv_size_def)
next
  case (4 line rest buf acc)
  then show ?case using next_line_shorter(1) by (cases line) (fastforce simp: csv_size_def)+
next
  case (5 line rest buf acc c line' buf' d line'')
  then have "length line' < length line" "line' = d # line''" using dropWhile_Cons_shorter [of "\<lambda>c. c \<noteq> quote" line c line'] by simp_all
  then show ?case by (simp add: csv_size_def)
next
  case (6 line rest buf acc c line' buf' d line'')
  then have "length line' < length line" "line' = d # line''" using dropWhile_Cons_shorter [of "\<lambda>c. c \<noteq> quote" line c line'] by simp_all
  then show ?case by (simp add: csv_size_def)
qed simp

declare csv_fields.simps [simp del] csv_quoted.simps [simp del]

text \<open>The cases, one by one.\<close>

lemma csv_fields_quote:
  assumes "trim_front space_texts line = quote # t"
  shows "csv_fields line rest acc = csv_quoted t rest [] acc"
  by (subst csv_fields.simps) (simp add: assms)

lemma csv_fields_last:
  assumes "\<not> (t \<noteq> [] \<and> hd t = quote)" "trim_front space_texts line = t" "dropWhile (\<lambda>c. c \<noteq> comma) t = []"
  shows "csv_fields line rest acc = (if quote \<in> set (chop_newline t) then Inl ErrBareQuote else Inr (acc @ [chop_newline t], rest))"
  by (subst csv_fields.simps) (simp only: assms(2,3) Let_def list.case if_not_P [OF assms(1)])

lemma csv_fields_comma:
  assumes "\<not> (t \<noteq> [] \<and> hd t = quote)" "trim_front space_texts line = t" "dropWhile (\<lambda>c. c \<noteq> comma) t = c # line'"
  shows "csv_fields line rest acc = (let field = takeWhile (\<lambda>c. c \<noteq> comma) t in
      if quote \<in> set field then Inl ErrBareQuote else csv_fields line' rest (acc @ [field]))"
  by (subst csv_fields.simps) (simp only: assms(2,3) Let_def list.case if_not_P [OF assms(1)])

lemma csv_quoted_more:
  assumes "dropWhile (\<lambda>c. c \<noteq> quote) line = []"
  shows "csv_quoted line rest buf acc = (if line = [] then Inl ErrQuote else
      (case next_line rest of None \<Rightarrow> Inl ErrQuote | Some (l, rest') \<Rightarrow> csv_quoted l rest' (buf @ line) acc))"
  by (subst csv_quoted.simps) (simp only: assms list.case)

lemma csv_quoted_hit:
  assumes "dropWhile (\<lambda>c. c \<noteq> quote) line = q # line'"
  shows "csv_quoted line rest buf acc = (let buf' = buf @ takeWhile (\<lambda>c. c \<noteq> quote) line in
      (case line' of
         [] \<Rightarrow> Inr (acc @ [buf'], rest)
       | c # line'' \<Rightarrow>
           if c = quote then csv_quoted line'' rest (buf' @ [quote]) acc
           else if c = comma then csv_fields line'' rest (acc @ [buf'])
           else if line' = [newline] then Inr (acc @ [buf'], rest)
           else Inl ErrQuote))"
  by (subst csv_quoted.simps) (simp only: assms list.case)

lemma csv_consumes:
  "csv_fields line rest acc = Inr (fs, rest') \<Longrightarrow> length rest' \<le> length rest \<and> (\<exists>gs. fs = acc @ gs \<and> gs \<noteq> [])"
  "csv_quoted line rest buf acc = Inr (fs, rest') \<Longrightarrow> length rest' \<le> length rest \<and> (\<exists>gs. fs = acc @ gs \<and> gs \<noteq> [])"
proof (induction line rest acc and line rest buf acc rule: csv_fields_csv_quoted.induct)
  case (1 line rest acc)
  define t where "t = trim_front space_texts line"
  show ?case
  proof (cases "t \<noteq> [] \<and> hd t = quote")
    case True
    then have "csv_quoted (drop 1 t) rest [] acc = Inr (fs, rest')" using 1(3) csv_fields_quote [of line] by (cases t) (simp_all add: t_def)
    then show ?thesis by (rule 1(1) [OF t_def True])
  next
    case False
    show ?thesis
    proof (cases "dropWhile (\<lambda>c. c \<noteq> comma) t")
      case Nil
      then show ?thesis using 1(3) unfolding csv_fields_last [OF False t_def [symmetric] Nil] by (auto split: if_splits)
    next
      case (Cons c line')
      then have "quote \<notin> set (takeWhile (\<lambda>c. c \<noteq> comma) t)" "csv_fields line' rest (acc @ [takeWhile (\<lambda>c. c \<noteq> comma) t]) = Inr (fs, rest')"
        using 1(3) unfolding csv_fields_comma [OF False t_def [symmetric] Cons] by (simp_all add: Let_def split: if_splits)
      then show ?thesis using 1(2) [OF t_def False Cons refl] by auto
    qed
  qed
next
  case (2 line rest buf acc)
  show ?case
  proof (cases "dropWhile (\<lambda>c. c \<noteq> quote) line")
    case Nil
    then obtain l r where "line \<noteq> []" "next_line rest = Some (l, r)" "csv_quoted l r (buf @ line) acc = Inr (fs, rest')"
      using 2(4) unfolding csv_quoted_more [OF Nil] by (auto split: if_splits option.splits)
    then show ?thesis using 2(1) [OF Nil, of "(l, r)" l r] next_line_shorter(2) [of rest] by fastforce
  next
    case (Cons q line')
    then show ?thesis
      using 2(4) 2(2,3) [OF Cons refl] unfolding csv_quoted_hit [OF Cons] by (fastforce simp: Let_def split: list.splits if_splits)
  qed
qed

section \<open>Records\<close>

text \<open>
  \<open>Read\<close>: \<open>None\<close> at the end of the file.  The first record fixes the number of fields (0 before it);
  a record of another length is an error.
\<close>

definition csv_Read :: "nat \<Rightarrow> string \<Rightarrow> (csv_err + (string list \<times> string)) option" where
  "csv_Read n s =
     (case record_line s of
        None \<Rightarrow> None
      | Some (line, rest) \<Rightarrow> Some (case csv_fields line rest [] of
            Inl e \<Rightarrow> Inl e
          | Inr (fs, rest') \<Rightarrow> if n \<noteq> 0 \<and> length fs \<noteq> n then Inl ErrFieldCount else Inr (fs, rest')))"

lemma csv_Read_consumes:
  assumes "csv_Read n s = Some (Inr (fs, rest))"
  shows "length rest < length s" "fs \<noteq> []"
proof -
  obtain l r where l: "record_line s = Some (l, r)" "csv_fields l r [] = Inr (fs, rest)"
    using assms by (auto simp: csv_Read_def split: option.splits sum.splits if_splits)
  have "length l + length r \<le> length s" "l \<noteq> []" using record_line_shorter [OF l(1)] by simp_all
  then show "length rest < length s" "fs \<noteq> []" using csv_consumes(1) [OF l(2)] by (cases l; simp)+
qed

section \<open>time.Parse\<close>

text \<open>
  The elements of the layouts \<open>2006\<close>, \<open>01\<close>, \<open>02\<close>, \<open>15\<close>, \<open>04\<close>, \<open>05\<close>, \<open>Z07:00\<close> and \<open>-07:00\<close> (\<open>LayZone\<close> with and
  without \<open>Z\<close>), and the bytes between them.  Only the hour may have one digit, and a fraction may
  follow the seconds, as \<open>Parse\<close> accepts it.
\<close>

datatype layout_elem = LayYear | LayMonth | LayDay | LayHour | LayMinute | LaySecond | LayZone bool | LayByte char

record clock_fields =
  cf_year :: int
  cf_month :: int
  cf_day :: int
  cf_hour :: int
  cf_min :: int
  cf_sec :: int
  cf_nsec :: int
  cf_offset :: int

definition zero_clock :: clock_fields where
  "zero_clock = \<lparr> cf_year = 0, cf_month = 1, cf_day = 1, cf_hour = 0, cf_min = 0, cf_sec = 0, cf_nsec = 0, cf_offset = 0 \<rparr>"

definition decimal_digit :: "char \<Rightarrow> bool" where
  "decimal_digit c \<longleftrightarrow> char_digit c \<noteq> None"

text \<open>\<open>getnum\<close>: two digits, or one when \<open>fixed\<close> is not set.\<close>

fun getnum :: "bool \<Rightarrow> string \<Rightarrow> (int \<times> string) option" where
  "getnum fixed (a # b # s) =
     (if \<not> decimal_digit a then None
      else if decimal_digit b then map_option (\<lambda>n. (int n, s)) (parse_digits 0 [a, b])
      else if fixed then None
      else map_option (\<lambda>n. (int n, b # s)) (parse_digits 0 [a]))"
| "getnum fixed [a] = (if decimal_digit a \<and> \<not> fixed then map_option (\<lambda>n. (int n, [])) (parse_digits 0 [a]) else None)"
| "getnum fixed [] = None"

definition in_range :: "int \<Rightarrow> int \<Rightarrow> (int \<times> string) option \<Rightarrow> (int \<times> string) option" where
  "in_range lo up r = (case r of Some (n, s) \<Rightarrow> if lo \<le> n \<and> n \<le> up then Some (n, s) else None | None \<Rightarrow> None)"

definition four_digits :: "string \<Rightarrow> (int \<times> string) option" where
  "four_digits s =
     (if length (take 4 s) = 4 \<and> list_all decimal_digit (take 4 s)
      then map_option (\<lambda>n. (int n, drop 4 s)) (parse_digits 0 (take 4 s)) else None)"

text \<open>A fraction after the seconds, to nine digits; more digits are read and dropped.\<close>

definition fraction :: "string \<Rightarrow> int \<times> string" where
  "fraction s =
     (case s of
        p # d # rest \<Rightarrow>
          if (p = CHR ''.'' \<or> p = CHR '','') \<and> decimal_digit d then
            let ds = takeWhile decimal_digit (d # rest); kept = take 9 ds in
            (int (the (parse_digits 0 kept)) * 10 ^ (9 - length kept), dropWhile decimal_digit (d # rest))
          else (0, s)
      | _ \<Rightarrow> (0, s))"

definition zone_offset :: "string \<Rightarrow> (int \<times> string) option" where
  "zone_offset s =
     (case s of
        sg # h1 # h2 # co # m1 # m2 # rest \<Rightarrow>
          if co \<noteq> CHR '':'' \<or> (sg \<noteq> CHR ''+'' \<and> sg \<noteq> CHR ''-'') then None
          else (case (in_range 0 24 (getnum True [h1, h2]), in_range 0 60 (getnum True [m1, m2])) of
                  (Some (h, _), Some (mm, _)) \<Rightarrow> Some ((if sg = CHR ''-'' then -1 else 1) * (h * 60 + mm) * 60, rest)
                | _ \<Rightarrow> None)
      | _ \<Rightarrow> None)"

text \<open>\<open>skip\<close>: a blank of the layout stands for any number of blanks.\<close>

definition skip_byte :: "char \<Rightarrow> string \<Rightarrow> string option" where
  "skip_byte c s =
     (if c = CHR '' '' then
        (if s \<noteq> [] \<and> hd s \<noteq> CHR '' '' then None else Some (dropWhile (\<lambda>x. x = CHR '' '') s))
      else case s of [] \<Rightarrow> None | x # rest \<Rightarrow> if x = c then Some rest else None)"

fun parse_elem :: "layout_elem \<Rightarrow> string \<Rightarrow> clock_fields \<Rightarrow> (clock_fields \<times> string) option" where
  "parse_elem LayYear s f = map_option (\<lambda>(n, r). (f\<lparr>cf_year := n\<rparr>, r)) (four_digits s)"
| "parse_elem LayMonth s f = map_option (\<lambda>(n, r). (f\<lparr>cf_month := n\<rparr>, r)) (in_range 1 12 (getnum True s))"
| "parse_elem LayDay s f = map_option (\<lambda>(n, r). (f\<lparr>cf_day := n\<rparr>, r)) (getnum True s)"
| "parse_elem LayHour s f = map_option (\<lambda>(n, r). (f\<lparr>cf_hour := n\<rparr>, r)) (in_range 0 23 (getnum False s))"
| "parse_elem LayMinute s f = map_option (\<lambda>(n, r). (f\<lparr>cf_min := n\<rparr>, r)) (in_range 0 59 (getnum True s))"
| "parse_elem LaySecond s f = map_option (\<lambda>(n, r). case fraction r of (ns, r') \<Rightarrow> (f\<lparr>cf_sec := n, cf_nsec := ns\<rparr>, r')) (in_range 0 59 (getnum True s))"
| "parse_elem (LayZone z) s f =
     (if z \<and> s \<noteq> [] \<and> hd s = CHR ''Z'' then Some (f\<lparr>cf_offset := 0\<rparr>, tl s)
      else map_option (\<lambda>(n, r). (f\<lparr>cf_offset := n\<rparr>, r)) (zone_offset s))"
| "parse_elem (LayByte c) s f = map_option (\<lambda>r. (f, r)) (skip_byte c s)"

fun parse_elems :: "layout_elem list \<Rightarrow> string \<Rightarrow> clock_fields \<Rightarrow> clock_fields option" where
  "parse_elems [] s f = (if s = [] then Some f else None)"
| "parse_elems (e # es) s f = (case parse_elem e s f of None \<Rightarrow> None | Some (f', s') \<Rightarrow> parse_elems es s' f')"

text \<open>\<open>Date(\<dots>, UTC)\<close>: the day number of a date of the Gregorian calendar.\<close>

definition leap_year :: "int \<Rightarrow> bool" where
  "leap_year y \<longleftrightarrow> y mod 4 = 0 \<and> (y mod 100 \<noteq> 0 \<or> y mod 400 = 0)"

definition days_in :: "int \<Rightarrow> int \<Rightarrow> int" where
  "days_in m y = (if m = 2 then if leap_year y then 29 else 28 else if m = 4 \<or> m = 6 \<or> m = 9 \<or> m = 11 then 30 else 31)"

definition day_number :: "int \<Rightarrow> int \<Rightarrow> int \<Rightarrow> int" where
  "day_number y m d =
     (let y' = y - 1 in 365 * y' + y' div 4 - y' div 100 + y' div 400 + (\<Sum>k\<leftarrow>[1..m - 1]. days_in k y) + d - 1)"

definition clock_time :: "clock_fields \<Rightarrow> gotime" where
  "clock_time f =
     seconds (day_number (cf_year f) (cf_month f) (cf_day f) * 86400 + cf_hour f * 3600 + cf_min f * 60 + cf_sec f - cf_offset f) + cf_nsec f"

definition time_Parse :: "layout_elem list \<Rightarrow> string \<Rightarrow> gotime option" where
  "time_Parse layout s =
     (case parse_elems layout s zero_clock of
        None \<Rightarrow> None
      | Some f \<Rightarrow> if cf_day f < 1 \<or> days_in (cf_month f) (cf_year f) < cf_day f then None else Some (clock_time f))"

text \<open>The two descriptions of the calendar agree.\<close>

lemma day_number_examples:
  "day_number 1 1 1 = 0" "day_number 2026 4 22 = 739727" "day_number 2024 2 29 = 738944"
  by code_simp+

end
