(* ===== verification/Csv_Roundtrip.thy ===== *)
theory Csv_Roundtrip
  imports Go_Csv
begin

text \<open>
  What Go's \<open>csv.Writer\<close> writes is what the reader reads, field by field, as long as no field has a
  carriage return (the reader turns one before a newline into nothing).
\<close>

section \<open>The writer\<close>

definition needs_quotes :: "string \<Rightarrow> bool" where
  "needs_quotes f \<longleftrightarrow> f \<noteq> [] \<and>
     (f = [CHR 0x5C, CHR ''.''] \<or> newline \<in> set f \<or> creturn \<in> set f \<or> quote \<in> set f \<or> comma \<in> set f \<or> leading space_texts f \<noteq> None)"

primrec double_quotes :: "string \<Rightarrow> string" where
  "double_quotes [] = []"
| "double_quotes (c # s) = (if c = quote then quote # quote # double_quotes s else c # double_quotes s)"

definition csv_field :: "string \<Rightarrow> string" where
  "csv_field f = (if needs_quotes f then quote # double_quotes f @ [quote] else f)"

fun csv_record :: "string list \<Rightarrow> string" where
  "csv_record [] = [newline]"
| "csv_record [f] = csv_field f @ [newline]"
| "csv_record (f # fs) = csv_field f @ comma # csv_record fs"

definition csv_file :: "string list list \<Rightarrow> string" where
  "csv_file recs = concat (map csv_record recs)"

section \<open>The first line of a text\<close>

definition cut_line :: "string \<Rightarrow> string \<times> string" where
  "cut_line s = (takeWhile (\<lambda>c. c \<noteq> newline) s @ [newline], tl (dropWhile (\<lambda>c. c \<noteq> newline) s))"

lemma cut_line_simps [simp]:
  "cut_line (newline # s) = ([newline], s)"
  "c \<noteq> newline \<Longrightarrow> cut_line (c # s) = (c # fst (cut_line s), snd (cut_line s))"
  by (simp_all add: cut_line_def)

lemma cut_line_not_Nil [simp]: "fst (cut_line s) \<noteq> []"
  by (simp add: cut_line_def)

lemma chop_return_id: "creturn \<notin> set l \<Longrightarrow> chop_return l = l"
  by (metis chop_return_def last_in_set)

lemma next_line_cut:
  assumes "creturn \<notin> set a"
  shows "next_line (a @ newline # s) = Some (cut_line (a @ newline # s))"
proof -
  let ?s = "a @ newline # s"
  have "set (takeWhile (\<lambda>c. c \<noteq> newline) ?s) \<subseteq> set a" by (induction a) auto
  then have "chop_return (takeWhile (\<lambda>c. c \<noteq> newline) ?s) = takeWhile (\<lambda>c. c \<noteq> newline) ?s" using assms by (intro chop_return_id) blast
  moreover obtain c t where "dropWhile (\<lambda>c. c \<noteq> newline) ?s = c # t" by (cases "dropWhile (\<lambda>c. c \<noteq> newline) ?s") auto
  moreover have "?s \<noteq> []" by simp
  ultimately show ?thesis by (simp only: next_line_def cut_line_def Let_def list.case list.sel if_False)
qed

section \<open>Quoted fields\<close>

lemma csv_quoted_char:
  assumes "c \<noteq> quote" "line \<noteq> []"
  shows "csv_quoted (c # line) rest buf acc = csv_quoted line rest (buf @ [c]) acc"
proof (cases "dropWhile (\<lambda>c. c \<noteq> quote) line")
  case Nil
  then have "dropWhile (\<lambda>c. c \<noteq> quote) (c # line) = []" using assms by simp
  from csv_quoted_more [OF this] csv_quoted_more [OF Nil] assms show ?thesis by (simp split: option.split)
next
  case (Cons q t)
  then have "dropWhile (\<lambda>c. c \<noteq> quote) (c # line) = q # t" using assms by simp
  from csv_quoted_hit [OF this] csv_quoted_hit [OF Cons] assms show ?thesis by simp
qed

lemma csv_quoted_line: "csv_quoted [newline] rest buf acc =
    (case next_line rest of None \<Rightarrow> Inl ErrQuote | Some (l, rest') \<Rightarrow> csv_quoted l rest' (buf @ [newline]) acc)"
  by (subst csv_quoted_more) simp_all

lemma csv_quoted_quote:
  "csv_quoted (quote # quote # line) rest buf acc = csv_quoted line rest (buf @ [quote]) acc"
  "csv_quoted (quote # comma # line) rest buf acc = csv_fields line rest (acc @ [buf])"
  "csv_quoted [quote, newline] rest buf acc = Inr (acc @ [buf], rest)"
  using csv_quoted_hit [of "quote # quote # line" quote "quote # line"] csv_quoted_hit [of "quote # comma # line" quote "comma # line"]
    csv_quoted_hit [of "[quote, newline]" quote "[newline]"] by simp_all

lemma csv_quoted_content:
  assumes "creturn \<notin> set g" "creturn \<notin> set a"
  shows "(case cut_line (double_quotes g @ quote # a @ newline # s) of (l, r) \<Rightarrow> csv_quoted l r buf acc)
       = (case cut_line (quote # a @ newline # s) of (l, r) \<Rightarrow> csv_quoted l r (buf @ g) acc)"
  using assms
proof (induction g arbitrary: buf)
  case Nil
  then show ?case by simp
next
  case (Cons c g)
  have dq: "creturn \<notin> set (double_quotes g @ quote # a)" using Cons.prems by (induction g) auto
  let ?x = "double_quotes g @ quote # a @ newline # s"
  consider "c = quote" | "c = newline" | "c \<noteq> quote" "c \<noteq> newline" by blast
  then show ?case
  proof cases
    case 1
    then show ?thesis using Cons by (simp add: csv_quoted_quote(1) split_beta)
  next
    case 2
    have "next_line ?x = Some (cut_line ?x)" using next_line_cut [OF dq, of s] by simp
    then show ?thesis using 2 Cons by (simp add: csv_quoted_line split_beta)
  next
    case 3
    then show ?thesis using Cons by (simp add: csv_quoted_char split_beta)
  qed
qed

section \<open>Plain fields\<close>

lemma leading_extend:
  assumes "leading ws f = None" "f \<noteq> []" "\<And>w. w \<in> set ws \<Longrightarrow> c \<notin> set (tl w)"
  shows "leading ws (f @ c # y) = None"
proof (rule ccontr)
  assume "leading ws (f @ c # y) \<noteq> None"
  then obtain w where "leading ws (f @ c # y) = Some w" by blast
  then have w: "w \<in> set ws" "w \<noteq> []" "take (length w) (f @ c # y) = w"
    by (auto simp: leading_def find_Some_iff in_set_conv_nth)
  show False
  proof (cases "length w \<le> length f")
    case True
    then have "take (length w) f = w" using w(3) by simp
    then show False using assms(1) w(1,2) by (auto simp: leading_def find_None_iff)
  next
    case False
    then obtain k where k: "length w = length f + Suc k" by (metis add_Suc_right less_imp_Suc_add linorder_not_le)
    then have "w = f @ c # take k y" using w(3) by simp
    then have "c \<in> set (tl w)" using assms(2) by (cases f) auto
    then show False using assms(3) w(1) by blast
  qed
qed

lemma spaces_ascii: "w \<in> set space_texts \<Longrightarrow> comma \<notin> set w \<and> quote \<notin> set w \<and> newline \<notin> set (tl w)"
proof -
  have "list_all (\<lambda>w. comma \<notin> set w \<and> quote \<notin> set w \<and> newline \<notin> set (tl w)) space_texts" by code_simp
  then show "w \<in> set space_texts \<Longrightarrow> comma \<notin> set w \<and> quote \<notin> set w \<and> newline \<notin> set (tl w)" by (auto simp: list_all_iff)
qed

lemma leading_head: "(\<And>w. w \<in> set ws \<Longrightarrow> c \<notin> set w) \<Longrightarrow> leading ws (c # y) = None"
  by (auto simp: leading_def find_None_iff) (metis list.set_intros(1) list.exhaust take_Suc_Cons length_Cons)

lemma trim_front_keep: "leading ws s = None \<Longrightarrow> trim_front ws s = s"
  by (subst trim_front.simps) simp

lemma trim_newline: "trim_front space_texts [newline] = []"
  by code_simp

text \<open>A plain field is followed by a comma or ends the line.\<close>

lemma plain_field:
  assumes "\<not> needs_quotes f"
  shows "quote \<notin> set f" "comma \<notin> set f" "newline \<notin> set f" "f = [] \<or> leading space_texts f = None"
  using assms by (auto simp: needs_quotes_def)

lemma plain_trim:
  assumes "\<not> needs_quotes f" "c = comma \<or> (c = newline \<and> f \<noteq> [])"
  shows "trim_front space_texts (f @ c # y) = f @ c # y"
proof (rule trim_front_keep)
  show "leading space_texts (f @ c # y) = None"
  proof (cases "f = []")
    case True
    then show ?thesis using assms(2) leading_head [of space_texts c y] spaces_ascii by auto
  next
    case False
    have "c \<notin> set (tl w)" if "w \<in> set space_texts" for w
      using that assms(2) spaces_ascii [OF that] by (metis list.sel(2) list.set_sel(2))
    moreover have "leading space_texts f = None" using plain_field(4) [OF assms(1)] False by blast
    ultimately show ?thesis using leading_extend False by blast
  qed
qed

lemma cut_plain: "newline \<notin> set f \<Longrightarrow> cut_line (f @ s) = (f @ fst (cut_line s), snd (cut_line s))"
  by (induction f) auto

section \<open>Records\<close>

abbreviation on_cut :: "(string \<Rightarrow> string \<Rightarrow> 'a) \<Rightarrow> string \<Rightarrow> 'a" where
  "on_cut f s \<equiv> f (fst (cut_line s)) (snd (cut_line s))"

lemma double_quotes_creturn: "creturn \<in> set (double_quotes g) \<longleftrightarrow> creturn \<in> set g"
  by (induction g) auto

lemma csv_field_creturn: "creturn \<in> set (csv_field f) \<longleftrightarrow> creturn \<in> set f"
  by (simp add: csv_field_def double_quotes_creturn)

lemma quoted_trim: "trim_front space_texts (quote # s) = quote # s"
  by (rule trim_front_keep, rule leading_head) (use spaces_ascii in blast)

lemma quoted_read:
  assumes "creturn \<notin> set f" "creturn \<notin> set a"
  shows "on_cut (\<lambda>l r. csv_fields l r acc) (quote # double_quotes f @ quote # a @ newline # s)
       = on_cut (\<lambda>l r. csv_quoted l r f acc) (quote # a @ newline # s)"
  using csv_quoted_content [OF assms, where s = s and buf = "[]" and acc = acc] csv_fields_quote [OF quoted_trim] by (simp add: split_beta)

lemma field_then_comma:
  assumes "creturn \<notin> set f" "creturn \<notin> set a"
  shows "on_cut (\<lambda>l r. csv_fields l r acc) (csv_field f @ comma # a @ newline # s)
       = on_cut (\<lambda>l r. csv_fields l r (acc @ [f])) (a @ newline # s)"
proof (cases "needs_quotes f")
  case True
  then show ?thesis using quoted_read [OF assms(1), where a = "comma # a" and acc = acc and s = s] assms(2) by (simp add: csv_field_def csv_quoted_quote(2))
next
  case False
  let ?l = "fst (cut_line (a @ newline # s))"
  note p = plain_field [OF False]
  have "dropWhile (\<lambda>c. c \<noteq> comma) (f @ comma # ?l) = comma # ?l" "takeWhile (\<lambda>c. c \<noteq> comma) (f @ comma # ?l) = f"
    using p(2) by (induction f) auto
  moreover have "\<not> (f @ comma # ?l \<noteq> [] \<and> hd (f @ comma # ?l) = quote)" using p(1) by (cases f) auto
  ultimately have "csv_fields (f @ comma # ?l) r acc = csv_fields ?l r (acc @ [f])" for r
    using csv_fields_comma [of "f @ comma # ?l" "f @ comma # ?l"] plain_trim [OF False, of comma ?l] p(1) by simp
  then show ?thesis using False by (simp add: csv_field_def cut_plain [OF p(3)])
qed

lemma field_then_line:
  assumes "creturn \<notin> set f"
  shows "on_cut (\<lambda>l r. csv_fields l r acc) (csv_field f @ newline # s) = Inr (acc @ [f], s)"
proof (cases "needs_quotes f")
  case True
  then show ?thesis using quoted_read [OF assms, where a = "[]" and acc = acc and s = s] by (simp add: csv_field_def csv_quoted_quote(3))
next
  case False
  note p = plain_field [OF False]
  let ?t = "if f = [] then [] else f @ [newline]"
  have t: "trim_front space_texts (f @ [newline]) = ?t" using plain_trim [OF False, of newline "[]"] trim_newline by simp
  have "\<not> (?t \<noteq> [] \<and> hd ?t = quote)" using p(1) by (cases f) auto
  moreover have "dropWhile (\<lambda>c. c \<noteq> comma) ?t = []" using p(2) by auto
  moreover have "chop_newline ?t = f" by (simp add: chop_newline_def)
  ultimately have "csv_fields (f @ [newline]) r acc = Inr (acc @ [f], r)" for r
    using csv_fields_last [OF _ t] p(1) by simp
  then show ?thesis using False by (simp add: csv_field_def cut_plain [OF p(3)])
qed

definition plain_record :: "string list \<Rightarrow> bool" where
  "plain_record fs \<longleftrightarrow> fs \<noteq> [] \<and> fs \<noteq> [[]] \<and> (\<forall>f \<in> set fs. creturn \<notin> set f)"

lemma csv_record_ends: "\<exists>a. csv_record fs = a @ [newline] \<and> (creturn \<in> set a \<longleftrightarrow> (\<exists>f \<in> set fs. creturn \<in> set f))"
proof (induction fs rule: csv_record.induct)
  case (3 f g gs)
  then obtain a where "csv_record (g # gs) = a @ [newline]" "creturn \<in> set a \<longleftrightarrow> (\<exists>f \<in> set (g # gs). creturn \<in> set f)" by blast
  then show ?case by (intro exI [of _ "csv_field f @ comma # a"]) (auto simp: csv_field_creturn)
qed (auto simp: csv_field_creturn)

lemma read_fields:
  assumes "fs \<noteq> []" "\<forall>f \<in> set fs. creturn \<notin> set f"
  shows "on_cut (\<lambda>l r. csv_fields l r acc) (csv_record fs @ s) = Inr (acc @ fs, s)"
  using assms
proof (induction fs arbitrary: acc rule: csv_record.induct)
  case (2 f)
  then show ?case using field_then_line [where f = f and acc = acc and s = s] by simp
next
  case (3 f g gs)
  obtain a where "csv_record (g # gs) = a @ [newline]" "creturn \<notin> set a" using csv_record_ends [of "g # gs"] 3(3) by auto
  then show ?case using field_then_comma [where f = f and a = a and acc = acc and s = s] 3 by simp
qed simp

lemma csv_field_head: "csv_field f @ c # x \<noteq> newline # y \<or> (f = [] \<and> c = newline)"
  using plain_field(3) [of f] by (cases f) (auto simp: csv_field_def needs_quotes_def)

lemma record_head:
  assumes "plain_record fs"
  shows "\<exists>c t. csv_record fs @ s = c # t \<and> c \<noteq> newline"
proof -
  have "csv_record fs @ s \<noteq> newline # y" for y
    using assms csv_field_head [of "hd fs"] by (cases fs rule: csv_record.cases) (auto simp: plain_record_def)
  moreover have "csv_record fs @ s \<noteq> []" using csv_record_ends [of fs] by auto
  ultimately show ?thesis by (cases "csv_record fs @ s") auto
qed

theorem csv_Read_record:
  assumes "plain_record fs" "n = 0 \<or> n = length fs"
  shows "csv_Read n (csv_record fs @ s) = Some (Inr (fs, s))"
proof -
  let ?x = "csv_record fs @ s"
  obtain a where a: "csv_record fs = a @ [newline]" "creturn \<notin> set a" using csv_record_ends [of fs] assms(1) by (auto simp: plain_record_def)
  then have l: "next_line ?x = Some (cut_line ?x)" using next_line_cut [OF a(2), of s] by simp
  have "fst (cut_line ?x) \<noteq> [newline]" using record_head [OF assms(1), of s] by auto
  then have "record_line ?x = Some (cut_line ?x)" using l by (subst record_line.simps) (simp add: split_beta)
  then show ?thesis
    using read_fields [where fs = fs and acc = "[]" and s = s] assms by (simp add: csv_Read_def plain_record_def split_beta) auto
qed

lemma csv_Read_end: "csv_Read n [] = None"
  by (simp add: csv_Read_def record_line.simps next_line_def)

end
