(* ===== verification/Order_File.thy ===== *)
theory Order_File
  imports Csv_Roundtrip Import_Safety
begin

text \<open>
  The import of a file of orders (\<open>app/importing/usecase.go\<close>): the file is read record by record,
  the columns are found by their headers, each record becomes a row, and the rows go through
  \<open>import_rows\<close>.  The loop over the records is a \<open>partial_function\<close>: \<open>None\<close> would be a loop that does not end.
\<close>

section \<open>Columns\<close>

text \<open>
  \<open>strings.ToLower\<close> as far as a comparison with ASCII text can see it: ASCII letters, and the two
  other letters whose lower case is an ASCII letter (the Kelvin sign and the dotted capital I).
\<close>

definition ascii_lower :: "char \<Rightarrow> char" where
  "ascii_lower c = (let n = of_char c :: nat in if 65 \<le> n \<and> n \<le> 90 then char_of (n + 32) else c)"

fun ToLower :: "string \<Rightarrow> string" where
  "ToLower s =
     (if s = [] then []
      else if take 3 s = utf8_char 0x212A then CHR ''k'' # ToLower (drop 3 s)
      else if take 2 s = utf8_char 0x130 then CHR ''i'' # ToLower (drop 2 s)
      else ascii_lower (hd s) # ToLower (tl s))"

declare ToLower.simps [simp del]

fun index_of :: "string \<Rightarrow> string list \<Rightarrow> nat option" where
  "index_of a [] = None"
| "index_of a (h # hs) = (if h = a then Some 0 else map_option Suc (index_of a hs))"

fun first_alias :: "string list \<Rightarrow> string list \<Rightarrow> nat option" where
  "first_alias hs [] = None"
| "first_alias hs (a # as) = (case index_of a hs of Some i \<Rightarrow> Some i | None \<Rightarrow> first_alias hs as)"

type_synonym columns = "(string \<times> string list) list"

text \<open>Which column is reported missing depends on the order of a Go map; here it is the first one.\<close>

fun match_columns :: "string list \<Rightarrow> columns \<Rightarrow> err + (string, nat) map" where
  "match_columns normalised [] = Inr Map.empty"
| "match_columns normalised ((field, aliases) # cols) =
     (case first_alias normalised aliases of
        None \<Rightarrow> Inl (ErrMsg ''missing required column'')
      | Some i \<Rightarrow> (case match_columns normalised cols of Inl e \<Rightarrow> Inl e | Inr idx \<Rightarrow> Inr (idx(field \<mapsto> i))))"

definition columnIndex :: "string list \<Rightarrow> columns \<Rightarrow> err + (string, nat) map" where
  "columnIndex header cols = match_columns (map (\<lambda>h. ToLower (TrimSpace h)) header) cols"

definition amazon_columns :: columns where
  "amazon_columns =
     [(''order_id'', [''order-id'', ''order_id'', ''orderid'']),
      (''sku'', [''sku'', ''asin'', ''listing-sku'', ''merchant-sku'']),
      (''qty'', [''quantity-purchased'', ''quantity'', ''qty'']),
      (''unit_price'', [''item-price'', ''unit-price'', ''price'']),
      (''currency'', [''currency'']),
      (''order_date'', [''purchase-date'', ''order-date'', ''date''])]"

definition shopify_columns :: columns where
  "shopify_columns =
     [(''order_id'', [''name'', ''order_name'', ''order-name'', ''order_id'', ''order-id'']),
      (''sku'', [''lineitem sku'', ''lineitem_sku'', ''sku'', ''variant sku'']),
      (''qty'', [''lineitem quantity'', ''lineitem_quantity'', ''quantity'', ''qty'']),
      (''unit_price'', [''lineitem price'', ''lineitem_price'', ''price'']),
      (''currency'', [''currency'']),
      (''order_date'', [''created at'', ''created_at'', ''order_date''])]"

section \<open>Rows\<close>

definition field_of :: "(string, nat) map \<Rightarrow> string list \<Rightarrow> string \<Rightarrow> string" where
  "field_of idx rec field = (case idx field of None \<Rightarrow> [] | Some i \<Rightarrow> if length rec \<le> i then [] else TrimSpace (rec ! i))"

definition date_elems :: "char \<Rightarrow> layout_elem list" where
  "date_elems c = [LayYear, LayByte c, LayMonth, LayByte c, LayDay]"

definition clock_elems :: "layout_elem list" where
  "clock_elems = [LayHour, LayByte (CHR '':''), LayMinute, LayByte (CHR '':''), LaySecond]"

definition order_date_layouts :: "layout_elem list list" where
  "order_date_layouts =
     [date_elems (CHR ''-'') @ [LayByte (CHR ''T'')] @ clock_elems @ [LayZone True],
      date_elems (CHR ''-'') @ [LayByte (CHR ''T'')] @ clock_elems @ [LayZone False],
      date_elems (CHR ''-'') @ [LayByte (CHR '' '')] @ clock_elems,
      date_elems (CHR ''-''),
      [LayMonth, LayByte (CHR ''/''), LayDay, LayByte (CHR ''/''), LayYear],
      date_elems (CHR ''/'')]"

text \<open>The first layout that fits decides; 0 is the zero time.\<close>

fun parse_first :: "layout_elem list list \<Rightarrow> string \<Rightarrow> gotime" where
  "parse_first [] s = 0"
| "parse_first (l # ls) s = (case time_Parse l s of Some t \<Rightarrow> t | None \<Rightarrow> parse_first ls s)"

definition buildRow :: "env \<Rightarrow> (string, nat) map \<Rightarrow> string list \<Rightarrow> err + OrderRow" where
  "buildRow E idx rec =
     (let get = field_of idx rec in
      case dec_parse E (get ''qty'') of
        None \<Rightarrow> Inl (ErrMsg ''invalid qty'')
      | Some qty \<Rightarrow>
          if qty < 0 \<or> qty = 0 then Inl (ErrMsg ''invalid qty'')
          else case dec_parse E (get ''unit_price'') of
            None \<Rightarrow> Inl (ErrMsg ''invalid unit_price'')
          | Some price \<Rightarrow>
              if price < 0 then Inl (ErrMsg ''invalid unit_price'')
              else let t = parse_first order_date_layouts (get ''order_date'') in
                if t = 0 then Inl (ErrMsg ''cannot parse order_date'')
                else Inr \<lparr> or_OrderNo = get ''order_id'', or_SKU = get ''sku'', or_Qty = qty, or_UnitPrice = price,
                       or_Currency = ToUpper (get ''currency''), or_OrderDate = t \<rparr>)"

section \<open>Files\<close>

definition csv_error :: "string \<Rightarrow> csv_err \<Rightarrow> err" where
  "csv_error who e = Wrap who (ErrMsg (case e of ErrBareQuote \<Rightarrow> ''bare quote in non-quoted field'' | ErrQuote \<Rightarrow> ''extraneous or missing quote in quoted field''
     | ErrFieldCount \<Rightarrow> ''wrong number of fields''))"

text \<open>The loop: \<open>build\<close> gives the row of a record, or none when the record is passed over.\<close>

partial_function (option) read_rows ::
  "string \<Rightarrow> (string list \<Rightarrow> err + OrderRow option) \<Rightarrow> nat \<Rightarrow> string \<Rightarrow> OrderRow list \<Rightarrow> (err + OrderRow list) option" where
  "read_rows who build n data rows =
     (case csv_Read n data of
        None \<Rightarrow> Some (Inr rows)
      | Some (Inl e) \<Rightarrow> Some (Inl (csv_error who e))
      | Some (Inr (rec, rest)) \<Rightarrow>
          (case build rec of
             Inl e \<Rightarrow> Some (Inl (Wrap who e))
           | Inr None \<Rightarrow> read_rows who build n rest rows
           | Inr (Some row) \<Rightarrow> read_rows who build n rest (rows @ [row])))"

declare read_rows.simps [code]

definition parse_with ::
  "string \<Rightarrow> columns \<Rightarrow> ((string, nat) map \<Rightarrow> string list \<Rightarrow> err + OrderRow option) \<Rightarrow> string \<Rightarrow> (err + OrderRow list) option" where
  "parse_with who cols build data =
     (case csv_Read 0 data of
        None \<Rightarrow> Some (Inl (Wrap who (ErrMsg ''read header: EOF'')))
      | Some (Inl e) \<Rightarrow> Some (Inl (csv_error who e))
      | Some (Inr (header, rest)) \<Rightarrow>
          (case columnIndex header cols of
             Inl e \<Rightarrow> Some (Inl (Wrap who e))
           | Inr idx \<Rightarrow> read_rows who (build idx) (length header) rest []))"

definition amazon_row :: "env \<Rightarrow> (string, nat) map \<Rightarrow> string list \<Rightarrow> err + OrderRow option" where
  "amazon_row E idx rec = (case buildRow E idx rec of Inl e \<Rightarrow> Inl e | Inr r \<Rightarrow> Inr (Some r))"

definition parseAmazonCSV :: "env \<Rightarrow> string \<Rightarrow> (err + OrderRow list) option" where
  "parseAmazonCSV E = parse_with ''amazon csv'' amazon_columns (amazon_row E)"

text \<open>Shopify lists shipping and fees on lines without a SKU.\<close>

definition shopify_row :: "env \<Rightarrow> (string, nat) map \<Rightarrow> string list \<Rightarrow> err + OrderRow option" where
  "shopify_row E idx rec =
     (let i = (case idx ''sku'' of None \<Rightarrow> 0 | Some i \<Rightarrow> i) in
      if i < length rec \<and> TrimSpace (rec ! i) = [] then Inr None
      else case buildRow E idx rec of Inl e \<Rightarrow> Inl e | Inr r \<Rightarrow> Inr (Some r))"

definition parseShopifyCSV :: "env \<Rightarrow> string \<Rightarrow> (err + OrderRow list) option" where
  "parseShopifyCSV E = parse_with ''shopify csv'' shopify_columns (shopify_row E)"

definition parseCSV :: "env \<Rightarrow> Platform \<Rightarrow> string \<Rightarrow> (err + OrderRow list) option" where
  "parseCSV E p data =
     (case p of
        PlatformAmazon \<Rightarrow> parseAmazonCSV E data
      | PlatformShopify \<Rightarrow> parseShopifyCSV E data
      | PlatformOther n \<Rightarrow> Some (Inl (Wrap ''importing: no parser for platform'' (ErrMsg n))))"

text \<open>The whole use case; \<open>None\<close> would be a call that does not return.\<close>

definition ImportOrders_Execute ::
  "env \<Rightarrow> ImportOrdersUseCase \<Rightarrow> marks \<Rightarrow> (RecordMovementRequest \<Rightarrow> Snapshot op) \<Rightarrow> ImportRequest \<Rightarrow> db \<Rightarrow> ((err + ImportResult) \<times> db) option" where
  "ImportOrders_Execute E uc mk exec req s =
     (case import_checks req of
        Inl e \<Rightarrow> Some (Inl e, s)
      | Inr _ \<Rightarrow>
          (case importWarehouseChecker (ir_TenantID req) (ir_WarehouseID req) s of
             Inl e \<Rightarrow> Some (Inl (Wrap ''importing: warehouse not in tenant'' e), s)
           | Inr _ \<Rightarrow>
               (case parseCSV E (ir_Platform req) (ir_CSVData req) of
                  None \<Rightarrow> None
                | Some (Inl e) \<Rightarrow> Some (Inl (Wrap ''importing: parse csv'' e), s)
                | Some (Inr rows) \<Rightarrow> Some (import_rows E uc mk exec req rows s))))"

section \<open>Every file is read to its end\<close>

lemma read_rows_returns: "\<exists>r. read_rows who build n data rows = Some r \<and> (\<forall>out. r = Inr out \<longrightarrow> length out \<le> length rows + length data)"
proof (induction "length data" arbitrary: data rows rule: less_induct)
  case less
  have out: "length out \<le> length rows + length rest \<Longrightarrow> length rest < length data \<Longrightarrow> length out \<le> length rows + length data" for out rest
    by simp
  have out1: "length out \<le> length (rows @ [r]) + length rest \<Longrightarrow> length rest < length data \<Longrightarrow> length out \<le> length rows + length data" for out rest r
    by simp
  consider "csv_Read n data = None" | e where "csv_Read n data = Some (Inl e)" | rec rest where "csv_Read n data = Some (Inr (rec, rest))"
    by (cases "csv_Read n data") (auto, metis old.sum.exhaust surj_pair)
  then show ?case
  proof cases
    case 3
    note shorter = csv_Read_consumes(1) [OF 3]
    show ?thesis
      using less [OF shorter, of rows] less [OF shorter, of "rows @ [r]" for r] 3 shorter
      by (subst read_rows.simps) (fastforce split: sum.split option.split)
  qed (subst read_rows.simps, simp)+
qed

lemma parse_with_returns: "\<exists>r. parse_with who cols build data = Some r \<and> (\<forall>out. r = Inr out \<longrightarrow> length out < length data)"
proof -
  consider "csv_Read 0 data = None" | e where "csv_Read 0 data = Some (Inl e)" | header rest where "csv_Read 0 data = Some (Inr (header, rest))"
    by (cases "csv_Read 0 data") (auto, metis old.sum.exhaust surj_pair)
  then show ?thesis
  proof cases
    case 3
    then show ?thesis
      using csv_Read_consumes(1) [OF 3] read_rows_returns [of who _ "length header" rest "[]"]
      by (fastforce simp: parse_with_def split: sum.split)
  qed (simp_all add: parse_with_def)
qed

lemma parseCSV_returns: "\<exists>r. parseCSV E p data = Some r \<and> (\<forall>out. r = Inr out \<longrightarrow> length out < length data)"
proof (cases p)
  case (PlatformOther n)
  then show ?thesis by (simp add: parseCSV_def)
qed (simp_all add: parseCSV_def parseAmazonCSV_def parseShopifyCSV_def parse_with_returns)

text \<open>
  C29: the import of a file ends, whatever bytes the file holds and whatever state the shop is in:
  the parser returns, with fewer rows than the file has bytes when it succeeds, as every round of the loop
  takes at least a byte and the header another; and the call returns a result or an error.
\<close>

theorem file_import_returns:
  "(\<exists>res s'. ImportOrders_Execute E uc mk exec req s = Some (res, s'))
   \<and> (\<exists>r. parseCSV E p data = Some r \<and> (case r of Inl _ \<Rightarrow> True | Inr rows \<Rightarrow> length rows < length data))"
proof
  obtain r where r: "parseCSV E (ir_Platform req) (ir_CSVData req) = Some r" using parseCSV_returns by blast
  show "\<exists>res s'. ImportOrders_Execute E uc mk exec req s = Some (res, s')"
    by (simp add: ImportOrders_Execute_def r split: sum.split)
  obtain q where "parseCSV E p data = Some q" "\<forall>out. q = Inr out \<longrightarrow> length out < length data" using parseCSV_returns by blast
  then show "\<exists>r. parseCSV E p data = Some r \<and> (case r of Inl _ \<Rightarrow> True | Inr rows \<Rightarrow> length rows < length data)"
    by (auto split: sum.split)
qed

section \<open>What is written is read\<close>

text \<open>The rows of records, up to the first record that is refused.\<close>

fun rows_of :: "(string list \<Rightarrow> err + OrderRow option) \<Rightarrow> string list list \<Rightarrow> err + OrderRow list" where
  "rows_of build [] = Inr []"
| "rows_of build (rec # recs) =
     (case build rec of
        Inl e \<Rightarrow> Inl e
      | Inr row \<Rightarrow> (case rows_of build recs of
            Inl e \<Rightarrow> Inl e
          | Inr rows \<Rightarrow> Inr ((case row of None \<Rightarrow> [] | Some r \<Rightarrow> [r]) @ rows)))"

definition file_rows :: "string \<Rightarrow> columns \<Rightarrow> ((string, nat) map \<Rightarrow> string list \<Rightarrow> err + OrderRow option) \<Rightarrow> string list \<Rightarrow> string list list \<Rightarrow> err + OrderRow list" where
  "file_rows who cols build header recs =
     (case columnIndex header cols of
        Inl e \<Rightarrow> Inl (Wrap who e)
      | Inr idx \<Rightarrow> (case rows_of (build idx) recs of Inl e \<Rightarrow> Inl (Wrap who e) | Inr rows \<Rightarrow> Inr rows))"

lemma read_rows_file:
  assumes "list_all plain_record recs" "list_all (\<lambda>r. length r = n) recs"
  shows "read_rows who build n (csv_file recs) rows =
    Some (case rows_of build recs of Inl e \<Rightarrow> Inl (Wrap who e) | Inr xs \<Rightarrow> Inr (rows @ xs))"
  using assms
proof (induction recs arbitrary: rows)
  case Nil
  then show ?case by (subst read_rows.simps) (simp add: csv_file_def csv_Read_end)
next
  case (Cons rec recs)
  then have "csv_Read n (csv_file (rec # recs)) = Some (Inr (rec, csv_file recs))"
    using csv_Read_record [of rec n "csv_file recs"] by (simp add: csv_file_def)
  then show ?case using Cons by (subst read_rows.simps) (simp split: sum.split option.split)
qed

lemma parse_with_file:
  assumes "list_all plain_record (header # recs)" "list_all (\<lambda>r. length r = length header) recs"
  shows "parse_with who cols build (csv_file (header # recs)) = Some (file_rows who cols build header recs)"
proof -
  have "csv_Read 0 (csv_file (header # recs)) = Some (Inr (header, csv_file recs))"
    using csv_Read_record [of header 0 "csv_file recs"] assms(1) by (simp add: csv_file_def)
  then show ?thesis using read_rows_file [of recs "length header"] assms by (simp add: parse_with_def file_rows_def split: sum.split)
qed

text \<open>
  C30: what a CSV writer writes is what the importer reads: of a file of records with as many fields as
  the header, no carriage return in any field and no record that is a single empty field, the parsers see exactly the records, quoted or not,
  with commas, quotes and line breaks inside, in their order.
\<close>

theorem order_file_read:
  assumes "list_all plain_record (header # recs)" "list_all (\<lambda>r. length r = length header) recs"
  shows "parseCSV E PlatformAmazon (csv_file (header # recs)) = Some (file_rows ''amazon csv'' amazon_columns (amazon_row E) header recs)
    \<and> parseCSV E PlatformShopify (csv_file (header # recs)) = Some (file_rows ''shopify csv'' shopify_columns (shopify_row E) header recs)"
  using parse_with_file [OF assms] by (simp add: parseCSV_def parseAmazonCSV_def parseShopifyCSV_def)

definition demo_header :: "string list" where
  "demo_header = [''Name'', ''Lineitem sku'', ''Lineitem quantity'', ''Lineitem price'', '' Currency'', ''Created at'']"

definition demo_records :: "string list list" where
  "demo_records = [[''#1001'', ''A,1'', ''2'', ''15'', ''cny'', ''2026-04-22 9:30:00''], [''#1001'', [], ''1'', ''0'', [], []]]"

lemma demo_normalised: "map (\<lambda>h. ToLower (TrimSpace h)) demo_header = [''name'', ''lineitem sku'', ''lineitem quantity'', ''lineitem price'', ''currency'', ''created at'']"
  by code_simp

lemma demo_columns: "columnIndex demo_header shopify_columns = Inr [''order_id'' \<mapsto> 0, ''sku'' \<mapsto> 1, ''qty'' \<mapsto> 2, ''unit_price'' \<mapsto> 3, ''currency'' \<mapsto> 4, ''order_date'' \<mapsto> 5]"
  unfolding columnIndex_def demo_normalised shopify_columns_def by (simp add: fun_upd_twist eval_nat_numeral)

lemma demo_file_rows: "file_rows ''shopify csv'' shopify_columns (shopify_row std_env) demo_header demo_records =
    Inr [\<lparr> or_OrderNo = ''#1001'', or_SKU = ''A,1'', or_Qty = 2, or_UnitPrice = 15, or_Currency = ''CNY'', or_OrderDate = seconds (739727 * 86400 + 34200) \<rparr>]"
  unfolding file_rows_def demo_columns sum.case demo_records_def by code_simp

theorem order_file_read_witness:
  "parseCSV std_env PlatformShopify (csv_file (demo_header # demo_records)) =
     Some (Inr [\<lparr> or_OrderNo = ''#1001'', or_SKU = ''A,1'', or_Qty = 2, or_UnitPrice = 15, or_Currency = ''CNY'', or_OrderDate = seconds (739727 * 86400 + 34200) \<rparr>])"
proof -
  have "list_all plain_record (demo_header # demo_records)" "list_all (\<lambda>r. length r = length demo_header) demo_records"
    by (simp_all add: plain_record_def demo_header_def demo_records_def)
  from order_file_read [OF this, of std_env] show ?thesis by (simp only: demo_file_rows)
qed

end
