(* ===== verification/Invoice.thy ===== *)
theory Invoice
  imports Sale_Returns Bill_Domain Go_Text
begin

text \<open>
  The invoice registry (\<open>internal/domain/invoice\<close>, \<open>internal/app/invoice\<close>, \<open>internal/adapter/repo/invoice\<close>).
  An invoice is issued elsewhere; the registry keeps its number, its amounts and the approved bills it
  covers.  A red-letter invoice is a row of its own with negative amounts that strikes another one.
  The messages of the errors are given in English.
\<close>

section \<open>Data\<close>

datatype inv_kind = ErrInvalidInput | ErrRule | ErrConflict
datatype inv_err = ErrInvoiceNotFound | ErrDuplicateNo | InvoiceError inv_kind string | InvoiceMsg string | InvoiceWrap string inv_err

fun inv_Is :: "inv_err \<Rightarrow> inv_err \<Rightarrow> bool" where
  "inv_Is (InvoiceWrap _ e) target \<longleftrightarrow> inv_Is e target"
| "inv_Is (InvoiceError k _) target \<longleftrightarrow> (case target of InvoiceError k' _ \<Rightarrow> k = k' | _ \<Rightarrow> False)"
| "inv_Is e target \<longleftrightarrow> e = target"

datatype InvDirection = InvDirectionOut | InvDirectionIn | InvDirectionOther string
datatype InvStatus = StatusIssued | StatusVoid | StatusRed | InvStatusOther string

text \<open>The four types: general and special, fully digital and on paper.\<close>

definition invoice_types :: "string list" where
  "invoice_types = [utf8 [0x6570, 0x7535, 0x666E, 0x7968], utf8 [0x6570, 0x7535, 0x4E13, 0x7968],
     utf8 [0x7EB8, 0x8D28, 0x666E, 0x7968], utf8 [0x7EB8, 0x8D28, 0x4E13, 0x7968]]"

record Link =
  ln_BillID :: uuid
  ln_BillNo :: string
  ln_Amount :: rat

record Invoice =
  iv_ID :: uuid
  iv_TenantID :: uuid
  iv_Direction :: InvDirection
  iv_InvoiceNo :: string
  iv_InvoiceCode :: string
  iv_InvoiceType :: string
  iv_PartnerID :: uuid
  iv_IssueDate :: gotime
  iv_AmountExclTax :: rat
  iv_TaxAmount :: rat
  iv_TotalAmount :: rat
  iv_Status :: InvStatus
  iv_RedOfID :: "uuid option"
  iv_Remark :: string
  iv_CreatedBy :: "uuid option"
  iv_CreatedAt :: gotime
  iv_UpdatedAt :: gotime
  iv_deleted :: bool
  iv_PartnerName :: string
  iv_Links :: "Link list"

record CreateInput =
  in_TenantID :: uuid
  in_Direction :: InvDirection
  in_InvoiceNo :: string
  in_InvoiceCode :: string
  in_InvoiceType :: string
  in_PartnerID :: uuid
  in_IssueDate :: gotime
  in_AmountExclTax :: rat
  in_TaxAmount :: rat
  in_Remark :: string
  in_CreatedBy :: "uuid option"
  in_Links :: "Link list"

record RedInput =
  ri_TenantID :: uuid
  ri_ID :: uuid
  ri_InvoiceNo :: string
  ri_InvoiceCode :: string
  ri_IssueDate :: gotime
  ri_Remark :: string
  ri_CreatedBy :: "uuid option"

text \<open>The tables of the registry beside those of the shop.\<close>

record InvoiceBill =
  ib_invoice_id :: uuid
  ib_bill_id :: uuid
  ib_tenant_id :: uuid
  ib_amount :: rat

record registry =
  shop :: db
  invoice :: "Invoice list"
  invoice_bill :: "InvoiceBill list"

type_synonym 'a inv_op = "registry \<Rightarrow> inv_err + ('a \<times> registry)"

section \<open>Rules of the domain\<close>

text \<open>\<open>utf8.RuneCountInString\<close> of valid UTF-8.\<close>

definition rune_count :: "string \<Rightarrow> nat" where
  "rune_count s = length (filter (\<lambda>c. \<not> continuation c) s)"

text \<open>Fits \<open>NUMERIC(18,4)\<close>: at most four decimals and fourteen digits before the point.\<close>

definition fitsNumeric :: "env \<Rightarrow> rat \<Rightarrow> bool" where
  "fitsNumeric E d \<longleftrightarrow> d = dround E 4 d \<and> \<bar>d\<bar> < 10 ^ 14"

fun scan_links :: "env \<Rightarrow> uuid list \<Rightarrow> rat \<Rightarrow> Link list \<Rightarrow> string + rat" where
  "scan_links E seen acc [] = Inr acc"
| "scan_links E seen acc (l # ls) =
     (if ln_BillID l = uuid_Nil then Inl ''choose the bill''
      else if ln_BillID l \<in> set seen then Inl ''a bill may be linked once''
      else if \<not> 0 < ln_Amount l then Inl ''a linked amount must be positive''
      else if \<not> fitsNumeric E (ln_Amount l) then Inl ''a linked amount has at most 4 decimals''
      else scan_links E (ln_BillID l # seen) (acc + ln_Amount l) ls)"

definition validateLinks :: "env \<Rightarrow> Link list \<Rightarrow> rat \<Rightarrow> bool \<Rightarrow> string + unit" where
  "validateLinks E links invTotal red =
     (if red then if links \<noteq> [] then Inl ''a red-letter invoice has no bills'' else Inr ()
      else if 200 < length links then Inl ''too many bills''
      else case scan_links E [] 0 links of
             Inl e \<Rightarrow> Inl e
           | Inr linked \<Rightarrow> if invTotal < linked then Inl ''linked amounts exceed the invoice'' else Inr ())"

definition Invoice_Validate :: "env \<Rightarrow> Invoice \<Rightarrow> string + unit" where
  "Invoice_Validate E i =
     (let no = TrimSpace (iv_InvoiceNo i) in
      if iv_Direction i \<noteq> InvDirectionIn \<and> iv_Direction i \<noteq> InvDirectionOut then Inl ''direction must be in or out''
      else if no = [] then Inl ''invoice number required''
      else if 64 < rune_count no then Inl ''invoice number too long''
      else if 32 < rune_count (iv_InvoiceCode i) then Inl ''invoice code too long''
      else if iv_InvoiceType i \<notin> set invoice_types then Inl ''unknown invoice type''
      else if iv_PartnerID i = uuid_Nil then Inl ''choose the partner''
      else if iv_IssueDate i = 0 then Inl ''issue date required''
      else if 500 < rune_count (iv_Remark i) then Inl ''remark too long''
      else if list_ex (\<lambda>d. \<not> fitsNumeric E d) [iv_AmountExclTax i, iv_TaxAmount i, iv_TotalAmount i] then Inl ''amounts have at most 4 decimals''
      else if iv_RedOfID i = None \<and> \<not> 0 < iv_AmountExclTax i then Inl ''amount must be positive''
      else if iv_RedOfID i = None \<and> iv_TaxAmount i < 0 then Inl ''tax must not be negative''
      else if iv_AmountExclTax i + iv_TaxAmount i \<noteq> iv_TotalAmount i then Inl ''total must be amount plus tax''
      else validateLinks E (iv_Links i) (iv_TotalAmount i) (iv_RedOfID i \<noteq> None))"

definition CanVoid :: "Invoice \<Rightarrow> string + unit" where
  "CanVoid i =
     (if iv_RedOfID i \<noteq> None then Inl ''a red-letter invoice cannot be voided''
      else if iv_Status i = StatusVoid then Inl ''already void''
      else if iv_Status i = StatusRed then Inl ''already struck, cannot be voided''
      else Inr ())"

definition CanRed :: "Invoice \<Rightarrow> string + unit" where
  "CanRed i =
     (if iv_RedOfID i \<noteq> None then Inl ''a red-letter invoice cannot be struck''
      else if iv_Status i = StatusVoid then Inl ''a void invoice cannot be struck''
      else if iv_Status i = StatusRed then Inl ''already struck''
      else Inr ())"

definition as_inv :: "inv_kind \<Rightarrow> string + unit \<Rightarrow> inv_err + unit" where
  "as_inv k r = (case r of Inl m \<Rightarrow> Inl (InvoiceError k m) | Inr u \<Rightarrow> Inr u)"

definition registry_uuid :: "env \<Rightarrow> uuid inv_op" where
  "registry_uuid E s = Inr (new_uuid E (draws (shop s)), s\<lparr>shop := (shop s)\<lparr>draws := Suc (draws (shop s))\<rparr>\<rparr>)"

definition new_invoice_row :: "env \<Rightarrow> CreateInput \<Rightarrow> uuid \<Rightarrow> Invoice" where
  "new_invoice_row E inp i =
     \<lparr> iv_ID = i, iv_TenantID = in_TenantID inp, iv_Direction = in_Direction inp, iv_InvoiceNo = TrimSpace (in_InvoiceNo inp),
       iv_InvoiceCode = TrimSpace (in_InvoiceCode inp), iv_InvoiceType = in_InvoiceType inp, iv_PartnerID = in_PartnerID inp,
       iv_IssueDate = in_IssueDate inp, iv_AmountExclTax = in_AmountExclTax inp, iv_TaxAmount = in_TaxAmount inp,
       iv_TotalAmount = in_AmountExclTax inp + in_TaxAmount inp, iv_Status = StatusIssued, iv_RedOfID = None,
       iv_Remark = in_Remark inp, iv_CreatedBy = in_CreatedBy inp, iv_CreatedAt = now E, iv_UpdatedAt = now E, iv_deleted = False,
       iv_PartnerName = [], iv_Links = in_Links inp \<rparr>"

definition NewInvoice :: "env \<Rightarrow> CreateInput \<Rightarrow> Invoice inv_op" where
  "NewInvoice E inp =
     bindE (registry_uuid E) (\<lambda>i. let iv = new_invoice_row E inp i in
     thenE (liftE (as_inv ErrInvalidInput (Invoice_Validate E iv))) (returnE iv))"

definition red_row :: "env \<Rightarrow> Invoice \<Rightarrow> RedInput \<Rightarrow> uuid \<Rightarrow> Invoice" where
  "red_row E orig inp i =
     \<lparr> iv_ID = i, iv_TenantID = iv_TenantID orig, iv_Direction = iv_Direction orig, iv_InvoiceNo = TrimSpace (ri_InvoiceNo inp),
       iv_InvoiceCode = TrimSpace (ri_InvoiceCode inp), iv_InvoiceType = iv_InvoiceType orig, iv_PartnerID = iv_PartnerID orig,
       iv_IssueDate = ri_IssueDate inp, iv_AmountExclTax = - iv_AmountExclTax orig, iv_TaxAmount = - iv_TaxAmount orig,
       iv_TotalAmount = - iv_TotalAmount orig, iv_Status = StatusIssued, iv_RedOfID = Some (iv_ID orig),
       iv_Remark = ri_Remark inp, iv_CreatedBy = ri_CreatedBy inp, iv_CreatedAt = now E, iv_UpdatedAt = now E, iv_deleted = False,
       iv_PartnerName = [], iv_Links = [] \<rparr>"

definition NewRed :: "env \<Rightarrow> Invoice \<Rightarrow> RedInput \<Rightarrow> Invoice inv_op" where
  "NewRed E orig inp =
     bindE (registry_uuid E) (\<lambda>i. let red = red_row E orig inp i in
     thenE (liftE (as_inv ErrInvalidInput (Invoice_Validate E red))) (returnE red))"

section \<open>The repository\<close>

record BillRef =
  br_BillNo :: string
  br_SubType :: BillSubType
  br_Status :: BillStatus
  br_PartnerID :: "uuid option"
  br_TotalAmount :: rat
  br_Currency :: string
  br_Invoiced :: rat

definition PartnerName :: "uuid \<Rightarrow> uuid \<Rightarrow> registry \<Rightarrow> inv_err + string" where
  "PartnerName t p s =
     (case List.find (\<lambda>r. pa_id r = p \<and> pa_tenant_id r = t \<and> \<not> pa_deleted r) (partner (shop s)) of
        None \<Rightarrow> Inl ErrInvoiceNotFound | Some r \<Rightarrow> Inr (pa_name r))"

text \<open>What issued invoices cover of a bill.\<close>

definition issued_invoice :: "registry \<Rightarrow> uuid \<Rightarrow> bool" where
  "issued_invoice s i \<longleftrightarrow> list_ex (\<lambda>v. iv_ID v = i \<and> iv_Status v = StatusIssued \<and> \<not> iv_deleted v) (invoice s)"

definition invoiced_amount :: "uuid \<Rightarrow> uuid \<Rightarrow> registry \<Rightarrow> rat" where
  "invoiced_amount t b s =
     sum_list (map ib_amount (filter (\<lambda>l. ib_tenant_id l = t \<and> ib_bill_id l = b \<and> issued_invoice s (ib_invoice_id l)) (invoice_bill s)))"

text \<open>The total of a bill, less the returns that count against it.\<close>

definition invoiceable_total :: "env \<Rightarrow> uuid \<Rightarrow> BillHead \<Rightarrow> db \<Rightarrow> rat" where
  "invoiceable_total E t h s =
     (if returns_of E t (\<lambda>_. True) s (h_ID h) \<noteq> [] then max (h_TotalAmount h - sale_returns E t (\<lambda>_. True) s (h_ID h)) 0
      else h_TotalAmount h)"

definition bill_ref :: "env \<Rightarrow> uuid \<Rightarrow> registry \<Rightarrow> BillHead \<Rightarrow> BillRef" where
  "bill_ref E t s h =
     \<lparr> br_BillNo = h_BillNo h, br_SubType = h_SubType h, br_Status = h_Status h, br_PartnerID = h_PartnerID h,
       br_TotalAmount = invoiceable_total E t h (shop s), br_Currency = h_Currency h,
       br_Invoiced = invoiced_amount t (h_ID h) s \<rparr>"

definition LockBills :: "env \<Rightarrow> uuid \<Rightarrow> uuid list \<Rightarrow> registry \<Rightarrow> (uuid, BillRef) map" where
  "LockBills E t ids s b =
     (if b \<notin> set ids then None
      else map_option (bill_ref E t s) (List.find (\<lambda>h. h_ID h = b \<and> h_TenantID h = t \<and> \<not> h_deleted h) (bill_head (shop s))))"

text \<open>The columns: amounts of four decimals, the day of the issue date.\<close>

definition stored_invoice :: "env \<Rightarrow> Invoice \<Rightarrow> Invoice" where
  "stored_invoice E v = v\<lparr>iv_AmountExclTax := numeric E 4 (iv_AmountExclTax v), iv_TaxAmount := numeric E 4 (iv_TaxAmount v),
     iv_TotalAmount := numeric E 4 (iv_TotalAmount v), iv_IssueDate := iv_IssueDate v div seconds 86400 * seconds 86400,
     iv_PartnerName := [], iv_Links := []\<rparr>"

definition Insert_links :: "env \<Rightarrow> Invoice \<Rightarrow> InvoiceBill list" where
  "Insert_links E v = map (\<lambda>l. \<lparr> ib_invoice_id = iv_ID v, ib_bill_id = ln_BillID l, ib_tenant_id = iv_TenantID v,
     ib_amount = numeric E 4 (ln_Amount l) \<rparr>) (iv_Links v)"

definition same_number :: "Invoice \<Rightarrow> Invoice \<Rightarrow> bool" where
  "same_number v w \<longleftrightarrow> iv_TenantID v = iv_TenantID w \<and> iv_Direction v = iv_Direction w \<and> iv_InvoiceNo v = iv_InvoiceNo w
     \<and> \<not> iv_deleted v \<and> \<not> iv_deleted w"

definition Invoice_Insert :: "env \<Rightarrow> Invoice \<Rightarrow> unit inv_op" where
  "Invoice_Insert E v s =
     (if list_ex (same_number v) (invoice s) then Inl ErrDuplicateNo
      else Inr ((), s\<lparr>invoice := invoice s @ [stored_invoice E v], invoice_bill := invoice_bill s @ Insert_links E v\<rparr>))"

definition invoice_at :: "uuid \<Rightarrow> uuid \<Rightarrow> Invoice \<Rightarrow> bool" where
  "invoice_at t i v \<longleftrightarrow> iv_ID v = i \<and> iv_TenantID v = t \<and> \<not> iv_deleted v"

definition partner_label :: "Invoice \<Rightarrow> registry \<Rightarrow> string" where
  "partner_label v s = (case List.find (\<lambda>r. pa_id r = iv_PartnerID v \<and> pa_tenant_id r = iv_TenantID v) (partner (shop s)) of
     None \<Rightarrow> [] | Some r \<Rightarrow> pa_name r)"

definition GetInvoiceForUpdate :: "uuid \<Rightarrow> uuid \<Rightarrow> registry \<Rightarrow> inv_err + Invoice" where
  "GetInvoiceForUpdate t i s =
     (case List.find (invoice_at t i) (invoice s) of
        None \<Rightarrow> Inl ErrInvoiceNotFound | Some v \<Rightarrow> Inr (v\<lparr>iv_PartnerName := partner_label v s\<rparr>))"

definition SetStatus :: "env \<Rightarrow> uuid \<Rightarrow> uuid \<Rightarrow> InvStatus \<Rightarrow> InvStatus \<Rightarrow> bool inv_op" where
  "SetStatus E t i from to s =
     (let hit = (\<lambda>v. invoice_at t i v \<and> iv_Status v = from) in
      Inr (length (filter hit (invoice s)) = 1,
           s\<lparr>invoice := update_where hit (\<lambda>v. v\<lparr>iv_Status := to, iv_UpdatedAt := now E\<rparr>) (invoice s)\<rparr>))"

text \<open>The links in the order of the bill number (a collation of the database) and the id.\<close>

definition links_of :: "(string \<Rightarrow> string \<Rightarrow> bool) \<Rightarrow> Invoice \<Rightarrow> registry \<Rightarrow> Link list" where
  "links_of below v s =
     (let rows = map (\<lambda>l. \<lparr> ln_BillID = ib_bill_id l,
             ln_BillNo = (case List.find (\<lambda>h. h_ID h = ib_bill_id l \<and> h_TenantID h = ib_tenant_id l) (bill_head (shop s)) of None \<Rightarrow> [] | Some h \<Rightarrow> h_BillNo h),
             ln_Amount = ib_amount l \<rparr>)
           (filter (\<lambda>l. ib_invoice_id l = iv_ID v \<and> ib_tenant_id l = iv_TenantID v) (invoice_bill s));
          rank = (\<lambda>l. length (filter (\<lambda>l'. below (ln_BillNo l') (ln_BillNo l)) rows))
      in sort_key rank (sort_key ln_BillID rows))"

definition GetInvoiceByID :: "(string \<Rightarrow> string \<Rightarrow> bool) \<Rightarrow> uuid \<Rightarrow> uuid \<Rightarrow> registry \<Rightarrow> inv_err + Invoice" where
  "GetInvoiceByID below t i s =
     (case GetInvoiceForUpdate t i s of Inl e \<Rightarrow> Inl e | Inr v \<Rightarrow> Inr (v\<lparr>iv_Links := links_of below v s\<rparr>))"

section \<open>The use cases\<close>

definition billSubTypeFor :: "InvDirection \<Rightarrow> BillSubType" where
  "billSubTypeFor d = (if d = InvDirectionOut then BillSubTypeSale else BillSubTypePurchase)"

definition check_link :: "Invoice \<Rightarrow> Link \<Rightarrow> BillRef option \<Rightarrow> inv_err + Link" where
  "check_link iv l ref =
     (case ref of
        None \<Rightarrow> Inl (InvoiceError ErrRule ''no such bill'')
      | Some b \<Rightarrow>
          if br_Status b \<noteq> StatusApproved then Inl (InvoiceError ErrRule ''bill is not approved'')
          else if br_SubType b \<noteq> billSubTypeFor (iv_Direction iv) then Inl (InvoiceError ErrRule ''bill of the wrong kind'')
          else if br_PartnerID b \<noteq> Some (iv_PartnerID iv) then Inl (InvoiceError ErrRule ''bill of another partner'')
          else if br_Currency b \<noteq> [] \<and> br_Currency b \<noteq> ''CNY'' then Inl (InvoiceError ErrRule ''bill in foreign currency'')
          else if truncate2 (br_TotalAmount b) - br_Invoiced b < ln_Amount l then Inl (InvoiceError ErrRule ''more than is left to invoice'')
          else Inr (l\<lparr>ln_BillNo := br_BillNo b\<rparr>))"

fun check_links :: "Invoice \<Rightarrow> (uuid, BillRef) map \<Rightarrow> Link list \<Rightarrow> inv_err + Link list" where
  "check_links iv refs [] = Inr []"
| "check_links iv refs (l # ls) =
     (case check_link iv l (refs (ln_BillID l)) of
        Inl e \<Rightarrow> Inl e
      | Inr l' \<Rightarrow> (case check_links iv refs ls of Inl e \<Rightarrow> Inl e | Inr ls' \<Rightarrow> Inr (l' # ls')))"

definition checkLinks :: "env \<Rightarrow> Invoice \<Rightarrow> registry \<Rightarrow> inv_err + Invoice" where
  "checkLinks E iv s =
     (if iv_Links iv = [] then Inr iv
      else case check_links iv (LockBills E (iv_TenantID iv) (map ln_BillID (iv_Links iv)) s) (iv_Links iv) of
             Inl e \<Rightarrow> Inl e | Inr ls \<Rightarrow> Inr (iv\<lparr>iv_Links := ls\<rparr>))"

definition partner_checked :: "uuid \<Rightarrow> uuid \<Rightarrow> registry \<Rightarrow> inv_err + string" where
  "partner_checked t p s =
     (case PartnerName t p s of Inl e \<Rightarrow> if inv_Is e ErrInvoiceNotFound then Inl (InvoiceError ErrRule ''no such partner'') else Inl e | Inr n \<Rightarrow> Inr n)"

definition create_in_tx :: "env \<Rightarrow> Invoice \<Rightarrow> Invoice inv_op" where
  "create_in_tx E iv =
     bindE (queryE (partner_checked (iv_TenantID iv) (iv_PartnerID iv))) (\<lambda>name.
     bindE (queryE (checkLinks E (iv\<lparr>iv_PartnerName := name\<rparr>))) (\<lambda>linked.
     thenE (Invoice_Insert E linked) (returnE linked)))"

text \<open>The id is drawn before the transaction begins; nothing else is left of a refused request.\<close>

definition CreateInvoice_Execute :: "env \<Rightarrow> CreateInput \<Rightarrow> registry \<Rightarrow> (inv_err + Invoice) \<times> registry" where
  "CreateInvoice_Execute E inp s =
     (case NewInvoice E inp s of
        Inl e \<Rightarrow> (Inl e, s)
      | Inr (iv, s1) \<Rightarrow> runTx (mapErr (InvoiceWrap ''invoice create'') (create_in_tx E iv)) s1)"

definition conflict_unless :: "bool \<Rightarrow> unit inv_op" where
  "conflict_unless ok = (if ok then returnE () else failE (InvoiceError ErrConflict ''the invoice changed meanwhile''))"

definition void_tx :: "env \<Rightarrow> uuid \<Rightarrow> uuid \<Rightarrow> unit inv_op" where
  "void_tx E t i =
     bindE (queryE (GetInvoiceForUpdate t i)) (\<lambda>iv.
     thenE (liftE (as_inv ErrConflict (CanVoid iv)))
     (bindE (SetStatus E t i StatusIssued StatusVoid) conflict_unless))"

definition VoidInvoice_Execute :: "env \<Rightarrow> (string \<Rightarrow> string \<Rightarrow> bool) \<Rightarrow> uuid \<Rightarrow> uuid \<Rightarrow> registry \<Rightarrow> (inv_err + Invoice) \<times> registry" where
  "VoidInvoice_Execute E below t i s =
     (case runTx (void_tx E t i) s of
        (Inl e, s') \<Rightarrow> (Inl (if inv_Is e ErrInvoiceNotFound \<or> inv_Is e (InvoiceError ErrConflict []) then e else InvoiceWrap ''invoice void'' e), s')
      | (Inr _, s') \<Rightarrow> (GetInvoiceByID below t i s', s'))"

definition red_tx :: "env \<Rightarrow> RedInput \<Rightarrow> Invoice inv_op" where
  "red_tx E inp =
     bindE (queryE (GetInvoiceForUpdate (ri_TenantID inp) (ri_ID inp))) (\<lambda>orig.
     thenE (liftE (as_inv ErrConflict (CanRed orig)))
     (bindE (NewRed E orig inp) (\<lambda>red.
      thenE (Invoice_Insert E red)
      (thenE (bindE (SetStatus E (ri_TenantID inp) (ri_ID inp) StatusIssued StatusRed) conflict_unless)
       (returnE red)))))"

definition RedInvoice_Execute :: "env \<Rightarrow> (string \<Rightarrow> string \<Rightarrow> bool) \<Rightarrow> RedInput \<Rightarrow> registry \<Rightarrow> (inv_err + Invoice) \<times> registry" where
  "RedInvoice_Execute E below inp s =
     (case runTx (red_tx E inp) s of
        (Inl e, s') \<Rightarrow> (Inl (if inv_Is e ErrInvoiceNotFound \<or> inv_Is e (InvoiceError ErrConflict []) \<or> inv_Is e (InvoiceError ErrInvalidInput []) \<or> inv_Is e ErrDuplicateNo
                               then e else InvoiceWrap ''invoice red'' e), s')
      | (Inr red, s') \<Rightarrow> (GetInvoiceByID below (ri_TenantID inp) (iv_ID red) s', s'))"

section \<open>Lists and sums\<close>

record InvoiceFilter =
  vf_TenantID :: uuid
  vf_Direction :: "InvDirection option"
  vf_Status :: "InvStatus option"
  vf_PartnerID :: "uuid option"
  vf_BillID :: "uuid option"
  vf_DateFrom :: "gotime option"
  vf_DateTo :: "gotime option"
  vf_Keyword :: string
  vf_Limit :: int
  vf_Offset :: int

definition no_filter :: "uuid \<Rightarrow> InvoiceFilter" where
  "no_filter t = \<lparr> vf_TenantID = t, vf_Direction = None, vf_Status = None, vf_PartnerID = None, vf_BillID = None, vf_DateFrom = None,
     vf_DateTo = None, vf_Keyword = [], vf_Limit = 0, vf_Offset = 0 \<rparr>"

definition admits :: "'a option \<Rightarrow> ('a \<Rightarrow> bool) \<Rightarrow> bool" where
  "admits f p = (case f of None \<Rightarrow> True | Some x \<Rightarrow> p x)"

text \<open>
  The condition; \<open>ilike\<close> is the case-insensitive substring test of the database, and dates are
  compared by day (both bounds already in the zone of the shop).
\<close>

definition buildWhere :: "(string \<Rightarrow> string \<Rightarrow> bool) \<Rightarrow> InvoiceFilter \<Rightarrow> registry \<Rightarrow> Invoice \<Rightarrow> bool" where
  "buildWhere ilike f s v \<longleftrightarrow> iv_TenantID v = vf_TenantID f \<and> \<not> iv_deleted v
     \<and> admits (vf_Direction f) (\<lambda>d. iv_Direction v = d) \<and> admits (vf_Status f) (\<lambda>x. iv_Status v = x)
     \<and> admits (vf_PartnerID f) (\<lambda>p. iv_PartnerID v = p)
     \<and> admits (vf_BillID f) (\<lambda>b. list_ex (\<lambda>l. ib_invoice_id l = iv_ID v \<and> ib_tenant_id l = iv_TenantID v \<and> ib_bill_id l = b) (invoice_bill s))
     \<and> admits (vf_DateFrom f) (\<lambda>d. d div seconds 86400 \<le> iv_IssueDate v div seconds 86400)
     \<and> admits (vf_DateTo f) (\<lambda>d. iv_IssueDate v div seconds 86400 < d div seconds 86400)
     \<and> (vf_Keyword f = [] \<or> ilike (vf_Keyword f) (iv_InvoiceNo v))"

definition List_invoices ::
  "(string \<Rightarrow> string \<Rightarrow> bool) \<Rightarrow> (string \<Rightarrow> string \<Rightarrow> bool) \<Rightarrow> InvoiceFilter \<Rightarrow> registry \<Rightarrow> Invoice list \<times> nat" where
  "List_invoices ilike below f s =
     (let rows = filter (buildWhere ilike f s) (invoice s);
          ordered = sort_key (\<lambda>v. - iv_IssueDate v) (sort_key (\<lambda>v. - iv_CreatedAt v) (sort_key (\<lambda>v. - int (iv_ID v)) rows));
          shown = take (nat (vf_Limit f)) (drop (nat (vf_Offset f)) ordered)
      in (map (\<lambda>v. v\<lparr>iv_PartnerName := partner_label v s, iv_Links := links_of below v s\<rparr>) shown, length rows))"

record InvoiceSummary =
  vs_Count :: nat
  vs_AmountExclTax :: rat
  vs_TaxAmount :: rat
  vs_TotalAmount :: rat

definition Summarize :: "(string \<Rightarrow> string \<Rightarrow> bool) \<Rightarrow> InvoiceFilter \<Rightarrow> registry \<Rightarrow> InvoiceSummary" where
  "Summarize ilike f s =
     (let rows = filter (buildWhere ilike f s) (invoice s); counted = filter (\<lambda>v. iv_Status v \<noteq> StatusVoid) rows in
      \<lparr> vs_Count = length rows, vs_AmountExclTax = sum_list (map iv_AmountExclTax counted),
        vs_TaxAmount = sum_list (map iv_TaxAmount counted), vs_TotalAmount = sum_list (map iv_TotalAmount counted) \<rparr>)"

definition clamp_page :: "InvoiceFilter \<Rightarrow> InvoiceFilter" where
  "clamp_page f = f\<lparr>vf_Limit := (if vf_Limit f \<le> 0 then 20 else if 200 < vf_Limit f then 200 else vf_Limit f),
     vf_Offset := (if vf_Offset f < 0 then 0 else vf_Offset f)\<rparr>"

definition ListInvoices_Execute ::
  "(string \<Rightarrow> string \<Rightarrow> bool) \<Rightarrow> (string \<Rightarrow> string \<Rightarrow> bool) \<Rightarrow> InvoiceFilter \<Rightarrow> registry \<Rightarrow> inv_err + (Invoice list \<times> nat \<times> InvoiceSummary)" where
  "ListInvoices_Execute ilike below f s =
     (if vf_TenantID f = uuid_Nil then Inl (InvoiceMsg ''invoice list: tenant_id is required'')
      else let f' = clamp_page f; (items, n) = List_invoices ilike below f' s in Inr (items, n, Summarize ilike f' s))"

end
