(* ===== verification/Invoice_Safety.thy ===== *)
theory Invoice_Safety
  imports Invoice Record_Movement
begin

text \<open>
  What the registry guarantees: an invoice is accepted only within what its bills have left to invoice,
  numbers do not repeat, and a struck invoice nets to zero with its red-letter invoice.
\<close>

section \<open>What a validated invoice is\<close>

lemma fits_exact: "runtime_env E \<Longrightarrow> fitsNumeric E d \<Longrightarrow> numeric E 4 d = d"
  unfolding fitsNumeric_def
  by (metis numeric_fix decimal_rounding.grid dround_rounding)

lemma scan_links_ok:
  assumes "scan_links E seen acc ls = Inr total'"
  shows "distinct (map ln_BillID ls) \<and> set (map ln_BillID ls) \<inter> set seen = {}
    \<and> (\<forall>l \<in> set ls. 0 < ln_Amount l \<and> fitsNumeric E (ln_Amount l)) \<and> total' = acc + sum_list (map ln_Amount ls)"
  using assms
proof (induction ls arbitrary: seen acc)
  case (Cons l ls)
  then have h: "scan_links E (ln_BillID l # seen) (acc + ln_Amount l) ls = Inr total'"
    "ln_BillID l \<notin> set seen" "0 < ln_Amount l" "fitsNumeric E (ln_Amount l)" by (auto split: if_splits)
  from Cons.IH [OF h(1)] h(2-4) show ?case by auto
qed simp

lemma validated:
  assumes "Invoice_Validate E i = Inr ()"
  shows "iv_Direction i = InvDirectionIn \<or> iv_Direction i = InvDirectionOut" "TrimSpace (iv_InvoiceNo i) \<noteq> []"
    "fitsNumeric E (iv_AmountExclTax i)" "fitsNumeric E (iv_TaxAmount i)" "fitsNumeric E (iv_TotalAmount i)"
    "iv_RedOfID i = None \<Longrightarrow> 0 < iv_AmountExclTax i \<and> 0 \<le> iv_TaxAmount i"
    "iv_AmountExclTax i + iv_TaxAmount i = iv_TotalAmount i"
    "validateLinks E (iv_Links i) (iv_TotalAmount i) (iv_RedOfID i \<noteq> None) = Inr ()"
proof -
  have "(iv_Direction i = InvDirectionIn \<or> iv_Direction i = InvDirectionOut) \<and> TrimSpace (iv_InvoiceNo i) \<noteq> []
    \<and> fitsNumeric E (iv_AmountExclTax i) \<and> fitsNumeric E (iv_TaxAmount i) \<and> fitsNumeric E (iv_TotalAmount i)
    \<and> (iv_RedOfID i = None \<longrightarrow> 0 < iv_AmountExclTax i \<and> 0 \<le> iv_TaxAmount i) \<and> iv_AmountExclTax i + iv_TaxAmount i = iv_TotalAmount i
    \<and> validateLinks E (iv_Links i) (iv_TotalAmount i) (iv_RedOfID i \<noteq> None) = Inr ()"
    using assms unfolding Invoice_Validate_def Let_def by (auto split: if_splits)
  then show "iv_Direction i = InvDirectionIn \<or> iv_Direction i = InvDirectionOut" "TrimSpace (iv_InvoiceNo i) \<noteq> []"
    "fitsNumeric E (iv_AmountExclTax i)" "fitsNumeric E (iv_TaxAmount i)" "fitsNumeric E (iv_TotalAmount i)"
    "iv_RedOfID i = None \<Longrightarrow> 0 < iv_AmountExclTax i \<and> 0 \<le> iv_TaxAmount i"
    "iv_AmountExclTax i + iv_TaxAmount i = iv_TotalAmount i"
    "validateLinks E (iv_Links i) (iv_TotalAmount i) (iv_RedOfID i \<noteq> None) = Inr ()" by blast+
qed

lemma validated_links:
  assumes "validateLinks E ls t False = Inr ()"
  shows "distinct (map ln_BillID ls)" "\<forall>l \<in> set ls. 0 < ln_Amount l \<and> fitsNumeric E (ln_Amount l)" "sum_list (map ln_Amount ls) \<le> t"
proof -
  obtain q where q: "scan_links E [] 0 ls = Inr q" "\<not> t < q" using assms by (auto simp: validateLinks_def split: if_splits sum.splits)
  from scan_links_ok [OF q(1)] q(2) show "distinct (map ln_BillID ls)" "\<forall>l \<in> set ls. 0 < ln_Amount l \<and> fitsNumeric E (ln_Amount l)"
    "sum_list (map ln_Amount ls) \<le> t" by auto
qed

section \<open>What the operations do\<close>

lemma registry_uuid_Inr [simp, opE_simps]:
  "registry_uuid E s = Inr r \<longleftrightarrow> r = (new_uuid E (draws (shop s)), s\<lparr>shop := (shop s)\<lparr>draws := Suc (draws (shop s))\<rparr>\<rparr>)"
  by (auto simp: registry_uuid_def)

lemma as_inv_Inr [simp]: "as_inv k r = Inr u \<longleftrightarrow> r = Inr u"
  by (cases r) (auto simp: as_inv_def)

definition drawn_on :: "registry \<Rightarrow> registry" where
  "drawn_on s = s\<lparr>shop := (shop s)\<lparr>draws := Suc (draws (shop s))\<rparr>\<rparr>"

lemma drawn_on_simps [simp]:
  "invoice (drawn_on s) = invoice s" "invoice_bill (drawn_on s) = invoice_bill s" "draws (shop (drawn_on s)) = Suc (draws (shop s))"
  "bill_head (shop (drawn_on s)) = bill_head (shop s)" "partner (shop (drawn_on s)) = partner (shop s)" "import_order_seen (shop (drawn_on s)) = import_order_seen (shop s)"
  by (simp_all add: drawn_on_def)

lemma NewInvoice_Inr: "NewInvoice E inp s = Inr r \<longleftrightarrow>
    r = (new_invoice_row E inp (new_uuid E (draws (shop s))), drawn_on s) \<and> Invoice_Validate E (new_invoice_row E inp (new_uuid E (draws (shop s)))) = Inr ()"
  by (auto simp: NewInvoice_def Let_def opE_simps drawn_on_def)

lemma NewRed_Inr: "NewRed E orig inp s = Inr r \<longleftrightarrow>
    r = (red_row E orig inp (new_uuid E (draws (shop s))), drawn_on s) \<and> Invoice_Validate E (red_row E orig inp (new_uuid E (draws (shop s)))) = Inr ()"
  by (auto simp: NewRed_def Let_def opE_simps drawn_on_def)

lemma Insert_Inr: "Invoice_Insert E v s = Inr r \<longleftrightarrow> \<not> list_ex (same_number v) (invoice s)
    \<and> r = ((), s\<lparr>invoice := invoice s @ [stored_invoice E v], invoice_bill := invoice_bill s @ Insert_links E v\<rparr>)"
  by (auto simp: Invoice_Insert_def)

text \<open>The links keep their bills and amounts; only the numbers of the bills are filled in.\<close>

lemma check_links_ok:
  assumes "check_links iv refs ls = Inr ls'"
  shows "map ln_BillID ls' = map ln_BillID ls \<and> map ln_Amount ls' = map ln_Amount ls
    \<and> (\<forall>l \<in> set ls'. \<exists>b. refs (ln_BillID l) = Some b \<and> br_Status b = StatusApproved \<and> br_SubType b = billSubTypeFor (iv_Direction iv)
         \<and> br_PartnerID b = Some (iv_PartnerID iv) \<and> ln_Amount l \<le> truncate2 (br_TotalAmount b) - br_Invoiced b)"
  using assms
proof (induction ls arbitrary: ls')
  case (Cons l ls)
  from Cons.prems obtain l' ls1 where l: "check_link iv l (refs (ln_BillID l)) = Inr l'" "check_links iv refs ls = Inr ls1" "ls' = l' # ls1"
    by (auto split: sum.splits)
  from l(1) obtain b where "refs (ln_BillID l) = Some b" "br_Status b = StatusApproved" "br_SubType b = billSubTypeFor (iv_Direction iv)"
    "br_PartnerID b = Some (iv_PartnerID iv)" "\<not> truncate2 (br_TotalAmount b) - br_Invoiced b < ln_Amount l" "l' = l\<lparr>ln_BillNo := br_BillNo b\<rparr>"
    by (auto simp: check_link_def split: option.splits if_splits)
  then show ?case using Cons.IH [OF l(2)] l(3) by auto
qed simp

lemma create_done:
  assumes "CreateInvoice_Execute E inp s = (Inr v, s')"
  obtains n ls where "Invoice_Validate E (new_invoice_row E inp (new_uuid E (draws (shop s)))) = Inr ()"
    "v = (new_invoice_row E inp (new_uuid E (draws (shop s))))\<lparr>iv_PartnerName := n, iv_Links := ls\<rparr>"
    "map ln_BillID ls = map ln_BillID (in_Links inp)" "map ln_Amount ls = map ln_Amount (in_Links inp)"
    "\<forall>l \<in> set ls. \<exists>b. LockBills E (in_TenantID inp) (map ln_BillID (in_Links inp)) (drawn_on s) (ln_BillID l) = Some b
       \<and> br_Status b = StatusApproved \<and> br_SubType b = billSubTypeFor (in_Direction inp)
       \<and> br_PartnerID b = Some (in_PartnerID inp) \<and> ln_Amount l \<le> truncate2 (br_TotalAmount b) - br_Invoiced b"
    "\<not> list_ex (same_number v) (invoice s)"
    "s' = (drawn_on s)\<lparr>invoice := invoice s @ [stored_invoice E v], invoice_bill := invoice_bill s @ Insert_links E v\<rparr>"
proof -
  let ?iv = "new_invoice_row E inp (new_uuid E (draws (shop s)))"
  have n: "NewInvoice E inp s = Inr (?iv, drawn_on s)" "Invoice_Validate E ?iv = Inr ()"
    using assms by (auto simp: CreateInvoice_Execute_def NewInvoice_Inr split: sum.splits prod.splits)
  from assms have "create_in_tx E ?iv (drawn_on s) = Inr (v, s')"
    by (auto simp: CreateInvoice_Execute_def n(1) runTx_def split: sum.splits prod.splits)
  then obtain nm where c: "checkLinks E (?iv\<lparr>iv_PartnerName := nm\<rparr>) (drawn_on s) = Inr v" "Invoice_Insert E v (drawn_on s) = Inr ((), s')"
    by (auto simp: create_in_tx_def opE_simps)
  obtain ls where ls: "v = ?iv\<lparr>iv_PartnerName := nm, iv_Links := ls\<rparr>"
    "check_links (?iv\<lparr>iv_PartnerName := nm\<rparr>) (LockBills E (in_TenantID inp) (map ln_BillID (in_Links inp)) (drawn_on s)) (in_Links inp) = Inr ls"
    using c(1) by (auto simp: checkLinks_def new_invoice_row_def split: if_splits sum.splits)
  show thesis
    by (rule that [OF n(2) ls(1)]) (use check_links_ok [OF ls(2)] c(2) in \<open>auto simp: Insert_Inr new_invoice_row_def\<close>)
qed

lemma create_state:
  obtains "snd (CreateInvoice_Execute E inp s) = s" | "snd (CreateInvoice_Execute E inp s) = drawn_on s"
  | v where "CreateInvoice_Execute E inp s = (Inr v, snd (CreateInvoice_Execute E inp s))"
proof (cases "NewInvoice E inp s")
  case (Inl e)
  then show ?thesis using that(1) by (simp add: CreateInvoice_Execute_def)
next
  case (Inr r)
  then obtain iv where r: "r = (iv, drawn_on s)" by (auto simp: NewInvoice_Inr)
  show ?thesis
  proof (cases "mapErr (InvoiceWrap ''invoice create'') (create_in_tx E iv) (drawn_on s)")
    case (Inl e)
    then show ?thesis using that(2) Inr r by (simp add: CreateInvoice_Execute_def runTx_def)
  next
    case Inr2: (Inr q)
    have "CreateInvoice_Execute E inp s = (Inr (fst q), snd q)" unfolding CreateInvoice_Execute_def Inr r sum.case prod.case runTx_def Inr2 by (simp add: split_beta)
    then show ?thesis using that(3) [of "fst q"] by simp
  qed
qed

section \<open>Rows and ids\<close>

definition registry_ids :: "env \<Rightarrow> registry \<Rightarrow> bool" where
  "registry_ids E s \<longleftrightarrow> distinct (map iv_ID (invoice s)) \<and> (\<forall>v \<in> set (invoice s). drawn E (shop s) (iv_ID v))
     \<and> ib_invoice_id ` set (invoice_bill s) \<subseteq> iv_ID ` set (invoice s)"

lemma fresh_invoice:
  assumes "runtime_env E" "registry_ids E s"
  shows "new_uuid E (draws (shop s)) \<notin> iv_ID ` set (invoice s)" "new_uuid E (draws (shop s)) \<notin> ib_invoice_id ` set (invoice_bill s)"
  using assms drawn_fresh [OF assms(1) _ order_refl] unfolding registry_ids_def by fastforce+

lemma issued_append:
  "iv_ID w \<noteq> i \<Longrightarrow> invoice s' = invoice s @ [w] \<Longrightarrow> issued_invoice s' i = issued_invoice s i"
  by (simp add: issued_invoice_def)

lemma sum_list_key:
  fixes f :: "'a \<Rightarrow> rat"
  assumes "distinct (map k xs)" "x \<in> set xs"
  shows "sum_list (map f (filter (\<lambda>y. k y = k x) xs)) = f x"
  using assms
proof (induction xs)
  case (Cons a xs)
  show ?case
  proof (cases "a = x")
    case True
    then have "filter (\<lambda>y. k y = k x) xs = []" using Cons.prems(1) by (auto simp: filter_empty_conv image_iff)
    then show ?thesis using True by simp
  next
    case False
    then have "x \<in> set xs" "k a \<noteq> k x" using Cons.prems by (auto simp: image_iff)
    then show ?thesis using Cons by simp
  qed
qed simp

lemma invoiced_after:
  assumes "runtime_env E" "registry_ids E s" "iv_ID v = new_uuid E (draws (shop s))" "iv_Status v = StatusIssued" "\<not> iv_deleted v"
    "distinct (map ln_BillID (iv_Links v))" "\<forall>l \<in> set (iv_Links v). fitsNumeric E (ln_Amount l)"
    "invoice s' = invoice s @ [stored_invoice E v]" "invoice_bill s' = invoice_bill s @ Insert_links E v" "l \<in> set (iv_Links v)"
  shows "invoiced_amount (iv_TenantID v) (ln_BillID l) s' = invoiced_amount (iv_TenantID v) (ln_BillID l) s + ln_Amount l"
proof -
  note fr = fresh_invoice [OF assms(1,2)]
  have old: "issued_invoice s' (ib_invoice_id r) = issued_invoice s (ib_invoice_id r)" if "r \<in> set (invoice_bill s)" for r
    by (rule issued_append [OF _ assms(8)]) (use that fr(2) assms(3) in \<open>auto simp: stored_invoice_def\<close>)
  have new: "issued_invoice s' (iv_ID v)" using assms(4,5,8) by (simp add: issued_invoice_def stored_invoice_def)
  have "filter (\<lambda>r. ib_tenant_id r = iv_TenantID v \<and> ib_bill_id r = ln_BillID l \<and> issued_invoice s' (ib_invoice_id r)) (Insert_links E v)
      = map (\<lambda>x. \<lparr> ib_invoice_id = iv_ID v, ib_bill_id = ln_BillID x, ib_tenant_id = iv_TenantID v, ib_amount = numeric E 4 (ln_Amount x) \<rparr>)
          (filter (\<lambda>x. ln_BillID x = ln_BillID l) (iv_Links v))"
    using new by (simp add: Insert_links_def filter_map o_def)
  moreover have "sum_list (map (\<lambda>x. numeric E 4 (ln_Amount x)) (filter (\<lambda>x. ln_BillID x = ln_BillID l) (iv_Links v))) = ln_Amount l"
    using sum_list_key [OF assms(6,10), of "\<lambda>x. numeric E 4 (ln_Amount x)"] fits_exact [OF assms(1)] assms(7,10) by simp
  moreover have "filter (\<lambda>r. ib_tenant_id r = iv_TenantID v \<and> ib_bill_id r = ln_BillID l \<and> issued_invoice s' (ib_invoice_id r)) (invoice_bill s)
      = filter (\<lambda>r. ib_tenant_id r = iv_TenantID v \<and> ib_bill_id r = ln_BillID l \<and> issued_invoice s (ib_invoice_id r)) (invoice_bill s)"
    by (rule filter_cong) (auto simp: old)
  ultimately show ?thesis by (simp add: invoiced_amount_def assms(9) o_def)
qed

section \<open>Histories of the registry\<close>

text \<open>
  What can happen: any request of the registry at any time, and anything in the shop that leaves the two
  tables of the registry alone.
\<close>

inductive registry_step :: "env \<Rightarrow> registry \<Rightarrow> registry \<Rightarrow> bool" for E where
  created: "registry_step E s (snd (CreateInvoice_Execute (E\<lparr>now := t\<rparr>) inp s))"
| voided: "registry_step E s (snd (VoidInvoice_Execute (E\<lparr>now := t\<rparr>) below tenant i s))"
| struck: "registry_step E s (snd (RedInvoice_Execute (E\<lparr>now := t\<rparr>) below rinp s))"
| traded: "invoice s' = invoice s \<Longrightarrow> invoice_bill s' = invoice_bill s \<Longrightarrow> draws (shop s) \<le> draws (shop s') \<Longrightarrow> registry_step E s s'"

definition empty_registry :: registry where
  "empty_registry = \<lparr> shop = empty_db, invoice = [], invoice_bill = [] \<rparr>"

text \<open>The three ways a request writes.\<close>

definition adds_invoice :: "registry \<Rightarrow> Invoice \<Rightarrow> registry \<Rightarrow> bool" where
  "adds_invoice s v s' \<longleftrightarrow> \<not> list_ex (same_number v) (invoice s) \<and> iv_Status v = StatusIssued \<and> \<not> iv_deleted v
     \<and> iv_AmountExclTax v + iv_TaxAmount v = iv_TotalAmount v
     \<and> invoice s' = invoice s @ [v] \<and> ib_invoice_id ` set (invoice_bill s') \<subseteq> insert (iv_ID v) (ib_invoice_id ` set (invoice_bill s))"

definition status_set :: "Invoice \<Rightarrow> InvStatus \<Rightarrow> Invoice list \<Rightarrow> Invoice list \<Rightarrow> bool" where
  "status_set o' st vs vs' \<longleftrightarrow> o' \<in> set vs \<and> iv_Status o' = StatusIssued \<and> iv_RedOfID o' = None \<and> \<not> iv_deleted o'
     \<and> (\<exists>T. vs' = map (\<lambda>v. if v = o' then v\<lparr>iv_Status := st, iv_UpdatedAt := T\<rparr> else v) vs)"

lemma GetInvoiceForUpdate_Inr:
  "GetInvoiceForUpdate t i s = Inr v \<longleftrightarrow> (\<exists>w. List.find (invoice_at t i) (invoice s) = Some w \<and> v = w\<lparr>iv_PartnerName := partner_label w s\<rparr>)"
  by (auto simp: GetInvoiceForUpdate_def split: option.splits)

lemma SetStatus_hit:
  assumes "distinct (map iv_ID (invoice s))" "List.find (invoice_at t i) (invoice s) = Some w"
    "SetStatus E t i StatusIssued st s = Inr (True, s')" "iv_RedOfID w = None"
  shows "status_set w st (invoice s) (invoice s')" "invoice_bill s' = invoice_bill s" "shop s' = shop s"
proof -
  let ?hit = "\<lambda>v. invoice_at t i v \<and> iv_Status v = StatusIssued"
  have w: "w \<in> set (invoice s)" "invoice_at t i w" using assms(2) by (auto simp: find_Some_iff)
  have "length (filter ?hit (invoice s)) = 1" using assms(3) by (simp add: SetStatus_def Let_def)
  then have "filter ?hit (invoice s) \<noteq> []" by auto
  then obtain u where u: "u \<in> set (invoice s)" "?hit u" by (auto simp: filter_empty_conv)
  have same: "v = w" if "v \<in> set (invoice s)" "invoice_at t i v" for v
    using that w assms(1) by (auto simp: invoice_at_def distinct_map dest: inj_onD)
  have hit: "?hit v \<longleftrightarrow> v = w" if "v \<in> set (invoice s)" for v using same [OF that] same [OF u(1)] u(2) w(2) by blast
  have "invoice s' = map (\<lambda>v. if v = w then v\<lparr>iv_Status := st, iv_UpdatedAt := now E\<rparr> else v) (invoice s)"
    using assms(3) hit by (auto simp: SetStatus_def Let_def update_where_def)
  moreover have "iv_Status w = StatusIssued" "\<not> iv_deleted w" using hit [OF w(1)] w(2) by (simp_all add: invoice_at_def)
  ultimately show "status_set w st (invoice s) (invoice s')" using w(1) assms(4) unfolding status_set_def by blast
  show "invoice_bill s' = invoice_bill s" "shop s' = shop s" using assms(3) by (auto simp: SetStatus_def Let_def)
qed

lemma conflict_unless_Inr [simp]: "conflict_unless ok s = Inr r \<longleftrightarrow> ok \<and> r = ((), s)"
  by (auto simp: conflict_unless_def)

lemma void_done:
  assumes "distinct (map iv_ID (invoice s))" "void_tx E t i s = Inr ((), s')"
  obtains w where "status_set w StatusVoid (invoice s) (invoice s')" "invoice_bill s' = invoice_bill s" "shop s' = shop s"
proof -
  obtain w v where w: "List.find (invoice_at t i) (invoice s) = Some w" "v = w\<lparr>iv_PartnerName := partner_label w s\<rparr>" "CanVoid v = Inr ()"
    "SetStatus E t i StatusIssued StatusVoid s = Inr (True, s')"
    using assms(2) by (auto simp: void_tx_def opE_simps queryE_def GetInvoiceForUpdate_Inr)
  have "iv_RedOfID w = None" using w(2,3) by (auto simp: CanVoid_def split: if_splits)
  then show thesis using that SetStatus_hit [OF assms(1) w(1,4)] by blast
qed

lemma red_done:
  assumes run: "runtime_env E" and ids: "registry_ids E s" and eff: "red_tx E inp s = Inr (red, s')"
  obtains w r where "w \<in> set (invoice s)" "adds_invoice s r (s\<lparr>invoice := invoice s @ [r]\<rparr>)" "iv_ID r = new_uuid E (draws (shop s))"
    "status_set w StatusRed (invoice s @ [r]) (invoice s')" "invoice_bill s' = invoice_bill s" "draws (shop s') = Suc (draws (shop s))"
    "iv_RedOfID r = Some (iv_ID w)" "iv_TenantID r = iv_TenantID w" "iv_Direction r = iv_Direction w"
    "iv_AmountExclTax r = - iv_AmountExclTax w" "iv_TaxAmount r = - iv_TaxAmount w" "iv_TotalAmount r = - iv_TotalAmount w"
proof -
  define i where "i = new_uuid E (draws (shop s))"
  define s1 where "s1 = drawn_on s"
  let ?t = "ri_TenantID inp" and ?o = "ri_ID inp"
  obtain w v where w: "List.find (invoice_at ?t ?o) (invoice s) = Some w" "v = w\<lparr>iv_PartnerName := partner_label w s\<rparr>" "CanRed v = Inr ()"
    and red: "red = red_row E v inp i" "Invoice_Validate E red = Inr ()"
    and ins: "\<not> list_ex (same_number red) (invoice s)"
      "SetStatus E ?t ?o StatusIssued StatusRed (s1\<lparr>invoice := invoice s @ [stored_invoice E red], invoice_bill := invoice_bill s @ Insert_links E red\<rparr>) = Inr (True, s')"
    using eff by (auto simp: red_tx_def opE_simps queryE_def GetInvoiceForUpdate_Inr NewRed_Inr Insert_Inr i_def s1_def)
  let ?r = "stored_invoice E red" and ?s2 = "s1\<lparr>invoice := invoice s @ [stored_invoice E red], invoice_bill := invoice_bill s @ Insert_links E red\<rparr>"
  have wi: "w \<in> set (invoice s)" "iv_RedOfID w = None" using w by (auto simp: find_Some_iff CanRed_def split: if_splits)
  have f: "numeric E 4 (iv_AmountExclTax red) = iv_AmountExclTax red" "numeric E 4 (iv_TaxAmount red) = iv_TaxAmount red" "numeric E 4 (iv_TotalAmount red) = iv_TotalAmount red"
    using fits_exact [OF run] validated(3-5) [OF red(2)] by simp_all
  have r: "iv_ID ?r = i" "iv_Status ?r = StatusIssued" "\<not> iv_deleted ?r" "iv_RedOfID ?r = Some (iv_ID w)" "iv_TenantID ?r = iv_TenantID w"
    "iv_Direction ?r = iv_Direction w" "iv_AmountExclTax ?r = - iv_AmountExclTax w" "iv_TaxAmount ?r = - iv_TaxAmount w" "iv_TotalAmount ?r = - iv_TotalAmount w"
    using f by (simp_all add: stored_invoice_def red(1) red_row_def w(2))
  have fresh: "i \<notin> iv_ID ` set (invoice s)" using fresh_invoice(1) [OF run ids] by (simp add: i_def)
  have d: "distinct (map iv_ID (invoice ?s2))" using ids fresh r(1) by (auto simp: registry_ids_def)
  have "List.find (invoice_at ?t ?o) (invoice ?s2) = Some w" using w(1) by (simp add: find_append)
  note hit = SetStatus_hit [OF d this ins(2) wi(2)]
  have "same_number ?r = same_number red" by (auto simp: same_number_def stored_invoice_def fun_eq_iff)
  moreover have "iv_AmountExclTax ?r + iv_TaxAmount ?r = iv_TotalAmount ?r" using validated(7) [OF red(2)] f by (simp add: stored_invoice_def)
  ultimately have "adds_invoice s ?r (s\<lparr>invoice := invoice s @ [?r]\<rparr>)"
    using ins(1) r(2,3) unfolding adds_invoice_def by auto
  moreover have "Insert_links E red = []" by (simp add: Insert_links_def red(1) red_row_def)
  ultimately show thesis using that [of w ?r] wi(1) r hit by (simp add: i_def s1_def)
qed

lemma red_state:
  "snd (RedInvoice_Execute E below inp s) = s
   \<or> (\<exists>red. red_tx E inp s = Inr (red, snd (RedInvoice_Execute E below inp s)))"
  by (auto simp: RedInvoice_Execute_def runTx_def split: sum.split prod.split)

lemma void_state:
  "snd (VoidInvoice_Execute E below t i s) = s
   \<or> void_tx E t i s = Inr ((), snd (VoidInvoice_Execute E below t i s))"
  by (auto simp: VoidInvoice_Execute_def runTx_def split: sum.split prod.split)

section \<open>Invariants\<close>

definition weight :: "uuid \<Rightarrow> (Invoice \<Rightarrow> rat) \<Rightarrow> Invoice \<Rightarrow> rat" where
  "weight t f v = (if iv_TenantID v = t \<and> \<not> iv_deleted v then
      (if iv_Status v = StatusVoid then 0 else f v) - (if iv_Status v = StatusIssued \<and> iv_RedOfID v = None then f v else 0) else 0)"

text \<open>Numbers are unique, and the struck invoices and their red-letter invoices cancel out.\<close>

definition amount_column :: "(Invoice \<Rightarrow> rat) \<Rightarrow> bool" where
  "amount_column f \<longleftrightarrow> f = iv_AmountExclTax \<or> f = iv_TaxAmount \<or> f = iv_TotalAmount"

definition registry_ok :: "env \<Rightarrow> registry \<Rightarrow> bool" where
  "registry_ok E s \<longleftrightarrow> registry_ids E s \<and> (\<forall>v \<in> set (invoice s). \<forall>w \<in> set (invoice s). same_number v w \<longrightarrow> iv_ID v = iv_ID w)
     \<and> (\<forall>t f. amount_column f \<longrightarrow> sum_list (map (weight t f) (invoice s)) = 0)"

lemma sum_list_replace:
  fixes f :: "'a \<Rightarrow> rat"
  assumes "distinct xs" "w \<in> set xs"
  shows "sum_list (map f (map (\<lambda>v. if v = w then g v else v) xs)) = sum_list (map f xs) + f (g w) - f w"
  using assms
proof (induction xs)
  case (Cons a xs)
  show ?case
  proof (cases "a = w")
    case True
    then have "map (\<lambda>v. if v = w then g v else v) xs = xs" using Cons.prems(1) by (intro map_idI) auto
    then show ?thesis using True by simp
  next
    case False
    then show ?thesis using Cons by simp
  qed
qed simp

lemma status_set_weight:
  assumes "status_set w st vs vs'" "distinct vs" "amount_column f" "st = StatusVoid \<or> st = StatusRed"
  shows "sum_list (map (weight t f) vs') = sum_list (map (weight t f) vs) + (if st = StatusRed \<and> iv_TenantID w = t then f w else 0)"
proof -
  obtain T where v: "w \<in> set vs" "iv_Status w = StatusIssued" "iv_RedOfID w = None" "\<not> iv_deleted w"
    "vs' = map (\<lambda>v. if v = w then v\<lparr>iv_Status := st, iv_UpdatedAt := T\<rparr> else v) vs"
    using assms(1) unfolding status_set_def by blast
  have f: "f (w\<lparr>iv_Status := st, iv_UpdatedAt := T\<rparr>) = f w" using assms(3) by (auto simp: amount_column_def)
  let ?w = "w\<lparr>iv_Status := st, iv_UpdatedAt := T\<rparr>"
  have "weight t f ?w = (if st = StatusRed \<and> iv_TenantID w = t then f w else 0)" unfolding weight_def f using assms(4) v(4) by auto
  moreover have "weight t f w = 0" using v by (simp add: weight_def)
  ultimately show ?thesis
    using sum_list_replace [OF assms(2) v(1), of "weight t f" "\<lambda>v. v\<lparr>iv_Status := st, iv_UpdatedAt := T\<rparr>"] unfolding v(5) by simp
qed

lemma status_set_frame:
  assumes "status_set w st vs vs'"
  shows "map iv_ID vs' = map iv_ID vs" "map (\<lambda>v. (iv_TenantID v, iv_Direction v, iv_InvoiceNo v, iv_deleted v, iv_ID v)) vs' = map (\<lambda>v. (iv_TenantID v, iv_Direction v, iv_InvoiceNo v, iv_deleted v, iv_ID v)) vs"
  using assms by (auto simp: status_set_def)

definition numbers_ok :: "Invoice list \<Rightarrow> bool" where
  "numbers_ok vs \<longleftrightarrow> (\<forall>v \<in> set vs. \<forall>w \<in> set vs. same_number v w \<longrightarrow> iv_ID v = iv_ID w)"

lemma same_number_sym: "same_number v w \<longleftrightarrow> same_number w v"
  by (auto simp: same_number_def)

lemma numbers_status:
  assumes "status_set w st vs vs'" "numbers_ok vs"
  shows "numbers_ok vs'"
proof -
  obtain T where T: "vs' = map (\<lambda>v. if v = w then v\<lparr>iv_Status := st, iv_UpdatedAt := T\<rparr> else v) vs"
    using assms(1) unfolding status_set_def by blast
  let ?g = "\<lambda>v. if v = w then v\<lparr>iv_Status := st, iv_UpdatedAt := T\<rparr> else v"
  have g: "same_number (?g a) (?g b) = same_number a b" "iv_ID (?g a) = iv_ID a" for a b
    by (auto simp: same_number_def)
  show ?thesis unfolding numbers_ok_def
  proof (intro ballI impI)
    fix x y assume xy: "x \<in> set vs'" "y \<in> set vs'" "same_number x y"
    obtain a b where ab: "a \<in> set vs" "b \<in> set vs" "x = ?g a" "y = ?g b" using xy(1,2) unfolding T set_map by blast
    have "same_number a b" using xy(3) unfolding ab(3,4) g(1) .
    then have "iv_ID a = iv_ID b" using assms(2) ab(1,2) unfolding numbers_ok_def by blast
    then show "iv_ID x = iv_ID y" unfolding ab(3,4) g(2) .
  qed
qed

lemma ids_now [simp]: "registry_ids (E\<lparr>now := t\<rparr>) s = registry_ids E s"
  by (simp add: registry_ids_def drawn_def)

lemma ids_mono:
  "registry_ids E s \<Longrightarrow> map iv_ID (invoice s') = map iv_ID (invoice s) \<Longrightarrow> invoice_bill s' = invoice_bill s \<Longrightarrow> draws (shop s) \<le> draws (shop s')
     \<Longrightarrow> registry_ids E s'"
proof -
  assume a: "registry_ids E s" "map iv_ID (invoice s') = map iv_ID (invoice s)" "invoice_bill s' = invoice_bill s" "draws (shop s) \<le> draws (shop s')"
  have i: "iv_ID ` set (invoice s') = iv_ID ` set (invoice s)" using a(2) by (metis list.set_map)
  have "drawn E (shop s') u" if "u \<in> iv_ID ` set (invoice s')" for u
    using that a(1,4) drawn_mono [of E "shop s"] unfolding i registry_ids_def by blast
  then have "\<forall>v \<in> set (invoice s'). drawn E (shop s') (iv_ID v)" by blast
  then show "registry_ids E s'" using a(1-3) i unfolding registry_ids_def by simp
qed

lemma ids_add:
  assumes "runtime_env E" "registry_ids E s" "adds_invoice s v s'" "iv_ID v = new_uuid E (draws (shop s))" "draws (shop s') = Suc (draws (shop s))"
  shows "registry_ids E s'"
proof -
  have inv: "invoice s' = invoice s @ [v]" "ib_invoice_id ` set (invoice_bill s') \<subseteq> insert (iv_ID v) (ib_invoice_id ` set (invoice_bill s))"
    using assms(3) by (simp_all add: adds_invoice_def)
  have old: "distinct (map iv_ID (invoice s))" "ib_invoice_id ` set (invoice_bill s) \<subseteq> iv_ID ` set (invoice s)" using assms(2) by (simp_all add: registry_ids_def)
  have "drawn E (shop s') (iv_ID v)" unfolding drawn_def assms(4,5) by blast
  moreover have "drawn E (shop s') (iv_ID w)" if "w \<in> set (invoice s)" for w
    using that assms(2,5) drawn_mono [of E "shop s" _ "shop s'"] by (auto simp: registry_ids_def)
  moreover have "distinct (map iv_ID (invoice s'))" using old(1) fresh_invoice(1) [OF assms(1,2)] assms(4) by (simp add: inv(1))
  moreover have "ib_invoice_id ` set (invoice_bill s') \<subseteq> iv_ID ` set (invoice s')" using inv(2) old(2) unfolding inv(1) by auto
  ultimately show ?thesis unfolding registry_ids_def inv(1) by auto
qed

lemma numbers_add:
  assumes "adds_invoice s v s'" "numbers_ok (invoice s)"
  shows "numbers_ok (invoice s')"
proof -
  have "\<not> same_number v w" "\<not> same_number w v" if "w \<in> set (invoice s)" for w
    using assms(1) that same_number_sym [of v w] by (auto simp: adds_invoice_def list_ex_iff)
  moreover have "invoice s' = invoice s @ [v]" using assms(1) by (simp add: adds_invoice_def)
  ultimately show ?thesis using assms(2) unfolding numbers_ok_def by auto
qed

lemma registry_ok_alt: "registry_ok E s \<longleftrightarrow> registry_ids E s \<and> numbers_ok (invoice s)
    \<and> (\<forall>t f. amount_column f \<longrightarrow> sum_list (map (weight t f) (invoice s)) = 0)"
  by (simp add: registry_ok_def numbers_ok_def)

lemma create_adds:
  assumes "runtime_env E" "CreateInvoice_Execute E inp s = (Inr v, s')"
  shows "adds_invoice s (stored_invoice E v) s'" "iv_RedOfID v = None" "iv_ID v = new_uuid E (draws (shop s))" "draws (shop s') = Suc (draws (shop s))"
proof -
  obtain n ls where c: "Invoice_Validate E (new_invoice_row E inp (new_uuid E (draws (shop s)))) = Inr ()"
    "v = (new_invoice_row E inp (new_uuid E (draws (shop s))))\<lparr>iv_PartnerName := n, iv_Links := ls\<rparr>"
    "\<not> list_ex (same_number v) (invoice s)"
    "s' = (drawn_on s)\<lparr>invoice := invoice s @ [stored_invoice E v], invoice_bill := invoice_bill s @ Insert_links E v\<rparr>"
    using assms(2) by (rule create_done)
  have "same_number (stored_invoice E v) = same_number v" by (auto simp: same_number_def stored_invoice_def fun_eq_iff)
  moreover have "iv_AmountExclTax (stored_invoice E v) + iv_TaxAmount (stored_invoice E v) = iv_TotalAmount (stored_invoice E v)"
    using fits_exact [OF assms(1)] validated(3-5,7) [OF c(1)] by (simp add: c(2) stored_invoice_def new_invoice_row_def)
  moreover have "iv_Status (stored_invoice E v) = StatusIssued" "\<not> iv_deleted (stored_invoice E v)" by (simp_all add: c(2) stored_invoice_def new_invoice_row_def)
  moreover have "ib_invoice_id ` set (invoice_bill s') \<subseteq> insert (iv_ID (stored_invoice E v)) (ib_invoice_id ` set (invoice_bill s))"
    by (auto simp: c(4) Insert_links_def stored_invoice_def)
  ultimately show "adds_invoice s (stored_invoice E v) s'" using c(3,4) unfolding adds_invoice_def by auto
  show "iv_RedOfID v = None" "iv_ID v = new_uuid E (draws (shop s))" "draws (shop s') = Suc (draws (shop s))"
    by (simp_all add: c(2,4) new_invoice_row_def)
qed

lemma distinct_keys: "distinct (map f xs) \<Longrightarrow> distinct xs"
  by (simp add: distinct_map)

lemma create_keeps:
  assumes run: "runtime_env E" and ok: "registry_ok E s"
  shows "registry_ok E (snd (CreateInvoice_Execute (E\<lparr>now := t\<rparr>) inp s))"
proof (rule create_state [of "E\<lparr>now := t\<rparr>" inp s])
  assume "snd (CreateInvoice_Execute (E\<lparr>now := t\<rparr>) inp s) = drawn_on s"
  moreover have "registry_ids E (drawn_on s)" by (rule ids_mono [of E s]) (use ok in \<open>simp_all add: registry_ok_alt\<close>)
  ultimately show ?thesis using ok by (simp add: registry_ok_alt)
next
  fix v assume c: "CreateInvoice_Execute (E\<lparr>now := t\<rparr>) inp s = (Inr v, snd (CreateInvoice_Execute (E\<lparr>now := t\<rparr>) inp s))"
  let ?s' = "snd (CreateInvoice_Execute (E\<lparr>now := t\<rparr>) inp s)" and ?v = "stored_invoice (E\<lparr>now := t\<rparr>) v"
  note a = create_adds [OF runtime_env_now [OF run] c]
  have "registry_ids E ?s'" by (rule ids_add [OF run _ a(1)]) (use ok a in \<open>simp_all add: registry_ok_alt stored_invoice_def\<close>)
  moreover have "numbers_ok (invoice ?s')" by (rule numbers_add [OF a(1)]) (use ok in \<open>simp add: registry_ok_alt\<close>)
  moreover have "weight t' f ?v = 0" for t' f using a(1,2) by (simp add: weight_def adds_invoice_def stored_invoice_def)
  moreover have "invoice ?s' = invoice s @ [?v]" using a(1) by (simp add: adds_invoice_def)
  ultimately show ?thesis using ok by (simp add: registry_ok_alt)
qed (use ok in simp)

lemma void_keeps:
  assumes "registry_ok E s"
  shows "registry_ok E (snd (VoidInvoice_Execute E' below t i s))"
proof -
  have d: "distinct (map iv_ID (invoice s))" using assms by (simp add: registry_ok_alt registry_ids_def)
  show ?thesis
  proof (rule disjE [OF void_state [of E' below t i s]])
    assume v: "void_tx E' t i s = Inr ((), snd (VoidInvoice_Execute E' below t i s))"
    obtain w where w: "status_set w StatusVoid (invoice s) (invoice (snd (VoidInvoice_Execute E' below t i s)))"
      "invoice_bill (snd (VoidInvoice_Execute E' below t i s)) = invoice_bill s" "shop (snd (VoidInvoice_Execute E' below t i s)) = shop s"
      using void_done [OF d v] by blast
    have "registry_ids E (snd (VoidInvoice_Execute E' below t i s))"
      by (rule ids_mono [of E s]) (use assms w status_set_frame(1) [OF w(1)] in \<open>simp_all add: registry_ok_alt\<close>)
    then show ?thesis
      using assms numbers_status [OF w(1)] status_set_weight [OF w(1) distinct_keys [OF d]] by (simp add: registry_ok_alt)
  qed (use assms in simp)
qed

lemma red_keeps:
  assumes run: "runtime_env E" and ok: "registry_ok E s"
  shows "registry_ok E (snd (RedInvoice_Execute (E\<lparr>now := t\<rparr>) below inp s))"
proof (rule disjE [OF red_state [of "E\<lparr>now := t\<rparr>" below inp s]])
  let ?s' = "snd (RedInvoice_Execute (E\<lparr>now := t\<rparr>) below inp s)"
  assume "\<exists>red. red_tx (E\<lparr>now := t\<rparr>) inp s = Inr (red, ?s')"
  then obtain red where red: "red_tx (E\<lparr>now := t\<rparr>) inp s = Inr (red, ?s')" by blast
  have ids: "registry_ids (E\<lparr>now := t\<rparr>) s" using ok by (simp add: registry_ok_alt)
  obtain w r where w: "w \<in> set (invoice s)" and a: "adds_invoice s r (s\<lparr>invoice := invoice s @ [r]\<rparr>)" "iv_ID r = new_uuid (E\<lparr>now := t\<rparr>) (draws (shop s))"
    and st: "status_set w StatusRed (invoice s @ [r]) (invoice ?s')" "invoice_bill ?s' = invoice_bill s" "draws (shop ?s') = Suc (draws (shop s))"
    and r: "iv_RedOfID r = Some (iv_ID w)" "iv_TenantID r = iv_TenantID w" "iv_AmountExclTax r = - iv_AmountExclTax w" "iv_TaxAmount r = - iv_TaxAmount w"
      "iv_TotalAmount r = - iv_TotalAmount w"
    using red_done [OF runtime_env_now [OF run] ids red] by blast
  let ?s1 = "(drawn_on s)\<lparr>invoice := invoice s @ [r]\<rparr>"
  have a1: "adds_invoice s r ?s1" using a(1) by (auto simp: adds_invoice_def)
  have i1: "registry_ids E ?s1" by (rule ids_add [OF run _ a1]) (use ok a in \<open>simp_all add: registry_ok_alt\<close>)
  have d: "distinct (invoice s @ [r])" using i1 distinct_keys [of iv_ID "invoice s @ [r]"] by (simp add: registry_ids_def)
  have "registry_ids E ?s'" by (rule ids_mono [OF i1]) (use st status_set_frame(1) [OF st(1)] in simp_all)
  moreover have "numbers_ok (invoice ?s')" using numbers_status [OF st(1)] numbers_add [OF a1] ok by (simp add: registry_ok_alt)
  moreover have "sum_list (map (weight t' f) (invoice ?s')) = 0" if f: "amount_column f" for t' f
  proof -
    have "f r = - f w" using f r(3-5) by (auto simp: amount_column_def)
    then have "weight t' f r = (if iv_TenantID w = t' then - f w else 0)" using a(1) r(1,2) by (simp add: weight_def adds_invoice_def)
    then show ?thesis using status_set_weight [OF st(1) d f, of t'] ok f by (simp add: registry_ok_alt)
  qed
  ultimately show ?thesis by (simp add: registry_ok_alt)
qed (use ok in simp)

lemma registry_runs:
  assumes "runtime_env E" "(registry_step E)\<^sup>*\<^sup>* empty_registry s"
  shows "registry_ok E s"
  using assms(2)
proof (induction rule: rtranclp_induct)
  case base
  then show ?case by (simp add: registry_ok_def registry_ids_def empty_registry_def)
next
  case (step s s')
  from step(2) show ?case
  proof cases
    case traded
    then show ?thesis using step(3) ids_mono [of E s s'] by (simp add: registry_ok_alt)
  qed (use step(3) create_keeps red_keeps void_keeps assms(1) in blast)+
qed

section \<open>The guarantees\<close>

text \<open>
  C31: an invoice is registered only within what its bills have left.  When a request is accepted, after
  any history of the registry, the invoice adds up, its linked amounts do not exceed it, every
  linked bill is an approved bill of the right kind and partner, and all issued invoices together cover no
  more of the bill than its total less the returns, cut to cents.
\<close>

theorem invoice_within_bills:
  assumes run: "runtime_env E" and hist: "(registry_step E)\<^sup>*\<^sup>* empty_registry s" and acc: "CreateInvoice_Execute E inp s = (Inr v, s')"
  shows "invoice s' = invoice s @ [stored_invoice E v] \<and> iv_TotalAmount v = iv_AmountExclTax v + iv_TaxAmount v \<and> 0 < iv_AmountExclTax v
    \<and> sum_list (map ln_Amount (iv_Links v)) \<le> iv_TotalAmount v
    \<and> (\<forall>l \<in> set (iv_Links v). 0 < ln_Amount l \<and> (\<exists>h \<in> set (bill_head (shop s')). h_ID h = ln_BillID l \<and> h_TenantID h = in_TenantID inp \<and> \<not> h_deleted h
         \<and> h_Status h = StatusApproved \<and> h_SubType h = billSubTypeFor (in_Direction inp) \<and> h_PartnerID h = Some (in_PartnerID inp)
         \<and> invoiced_amount (in_TenantID inp) (ln_BillID l) s' \<le> truncate2 (invoiceable_total E (in_TenantID inp) h (shop s'))))"
proof -
  let ?i = "new_uuid E (draws (shop s))" and ?t = "in_TenantID inp"
  obtain n ls where c: "Invoice_Validate E (new_invoice_row E inp ?i) = Inr ()" "v = (new_invoice_row E inp ?i)\<lparr>iv_PartnerName := n, iv_Links := ls\<rparr>"
    "map ln_BillID ls = map ln_BillID (in_Links inp)" "map ln_Amount ls = map ln_Amount (in_Links inp)"
    and refs: "\<forall>l \<in> set ls. \<exists>b. LockBills E ?t (map ln_BillID (in_Links inp)) (drawn_on s) (ln_BillID l) = Some b
       \<and> br_Status b = StatusApproved \<and> br_SubType b = billSubTypeFor (in_Direction inp)
       \<and> br_PartnerID b = Some (in_PartnerID inp) \<and> ln_Amount l \<le> truncate2 (br_TotalAmount b) - br_Invoiced b"
    and s': "s' = (drawn_on s)\<lparr>invoice := invoice s @ [stored_invoice E v], invoice_bill := invoice_bill s @ Insert_links E v\<rparr>"
    using acc by (rule create_done)
  note val = validated(6,7) [OF c(1)]
  have vl: "validateLinks E (in_Links inp) (iv_TotalAmount (new_invoice_row E inp ?i)) False = Inr ()"
    using validated(8) [OF c(1)] by (simp add: new_invoice_row_def)
  note lk = validated_links [OF vl]
  have v: "iv_ID v = ?i" "iv_TenantID v = ?t" "iv_Status v = StatusIssued" "\<not> iv_deleted v" "iv_Links v = ls" "iv_RedOfID (new_invoice_row E inp ?i) = None"
    "iv_AmountExclTax v = iv_AmountExclTax (new_invoice_row E inp ?i)" "iv_TaxAmount v = iv_TaxAmount (new_invoice_row E inp ?i)"
    "iv_TotalAmount v = iv_TotalAmount (new_invoice_row E inp ?i)"
    by (simp_all add: c(2) new_invoice_row_def)
  have amt: "0 < ln_Amount l \<and> fitsNumeric E (ln_Amount l)" if "l \<in> set ls" for l
  proof -
    have "ln_Amount l \<in> set (map ln_Amount (in_Links inp))" using that by (simp only: c(4) [symmetric]) simp
    then show ?thesis using lk(2) by auto
  qed
  have ids: "registry_ids E s" using registry_runs [OF run hist] by (simp add: registry_ok_alt)
  have each: "\<exists>h \<in> set (bill_head (shop s')). h_ID h = ln_BillID l \<and> h_TenantID h = ?t \<and> \<not> h_deleted h
         \<and> h_Status h = StatusApproved \<and> h_SubType h = billSubTypeFor (in_Direction inp) \<and> h_PartnerID h = Some (in_PartnerID inp)
         \<and> invoiced_amount ?t (ln_BillID l) s' \<le> truncate2 (invoiceable_total E ?t h (shop s'))" if l: "l \<in> set ls" for l
  proof -
    obtain b where b: "LockBills E ?t (map ln_BillID (in_Links inp)) (drawn_on s) (ln_BillID l) = Some b" "br_Status b = StatusApproved"
      "br_SubType b = billSubTypeFor (in_Direction inp)" "br_PartnerID b = Some (in_PartnerID inp)" "ln_Amount l \<le> truncate2 (br_TotalAmount b) - br_Invoiced b"
      using refs l by blast
    then obtain h where h: "List.find (\<lambda>h. h_ID h = ln_BillID l \<and> h_TenantID h = ?t \<and> \<not> h_deleted h) (bill_head (shop s)) = Some h" "b = bill_ref E ?t (drawn_on s) h"
      by (auto simp: LockBills_def split: if_splits)
    have "distinct (map ln_BillID (iv_Links v))" "\<forall>l \<in> set (iv_Links v). fitsNumeric E (ln_Amount l)" using lk(1) amt by (simp_all add: v(5) c(3))
    then have "invoiced_amount ?t (ln_BillID l) s' = invoiced_amount ?t (ln_BillID l) s + ln_Amount l"
      using invoiced_after [OF run ids v(1,3,4), of s' l] l by (simp add: s' v(2,5))
    moreover have "invoiced_amount ?t (ln_BillID l) s = br_Invoiced b" using h by (auto simp: bill_ref_def invoiced_amount_def issued_invoice_def find_Some_iff)
    moreover have "br_TotalAmount b = invoiceable_total E ?t h (shop s')"
      by (simp add: h(2) bill_ref_def s' invoiceable_total_def sale_returns_def returns_of_def return_sale_id_def ImportedOrderBillID_def cong: option.case_cong)
    moreover have "h \<in> set (bill_head (shop s'))" "h_ID h = ln_BillID l" "h_TenantID h = ?t" "\<not> h_deleted h" using h(1) by (auto simp: find_Some_iff s')
    ultimately show ?thesis using b(2-5) unfolding h(2) by (intro bexI [of _ h]) (auto simp: bill_ref_def)
  qed
  have "sum_list (map ln_Amount ls) \<le> iv_TotalAmount v" using lk(3) by (simp add: c(4) v(9))
  then show ?thesis using each amt val v s' by simp
qed

lemma weight_nets:
  "sum_list (map (weight t f) vs)
     = sum_list (map f (filter (\<lambda>v. iv_TenantID v = t \<and> \<not> iv_deleted v \<and> iv_Status v \<noteq> StatusVoid) vs))
       - sum_list (map f (filter (\<lambda>v. iv_TenantID v = t \<and> \<not> iv_deleted v \<and> iv_Status v = StatusIssued \<and> iv_RedOfID v = None) vs))"
  by (induction vs) (auto simp: weight_def)

lemma unfiltered: "buildWhere ilike (no_filter t) s = (\<lambda>v. iv_TenantID v = t \<and> \<not> iv_deleted v)"
  by (simp add: fun_eq_iff buildWhere_def no_filter_def admits_def)

text \<open>
  C32: numbers do not repeat and the totals are those of the live invoices.  After any history, two invoices
  of a shop that are not deleted and have the same direction and number are the same row, and the three
  totals of the unfiltered list are what the issued blue invoices come to: void ones count nothing and
  each struck one cancels with its red-letter invoice.
\<close>

theorem registry_nets:
  assumes run: "runtime_env E" and hist: "(registry_step E)\<^sup>*\<^sup>* empty_registry s"
  shows "(\<forall>v \<in> set (invoice s). \<forall>w \<in> set (invoice s). same_number v w \<longrightarrow> v = w)
    \<and> (let live = filter (\<lambda>v. iv_TenantID v = t \<and> \<not> iv_deleted v \<and> iv_Status v = StatusIssued \<and> iv_RedOfID v = None) (invoice s);
           shown = Summarize ilike (no_filter t) s
       in vs_AmountExclTax shown = sum_list (map iv_AmountExclTax live) \<and> vs_TaxAmount shown = sum_list (map iv_TaxAmount live)
        \<and> vs_TotalAmount shown = sum_list (map iv_TotalAmount live))"
proof -
  have ok: "registry_ok E s" by (rule registry_runs [OF run hist])
  have "distinct (map iv_ID (invoice s))" using ok by (simp add: registry_ok_alt registry_ids_def)
  then have "v = w" if "v \<in> set (invoice s)" "w \<in> set (invoice s)" "same_number v w" for v w
    using that ok by (auto simp: registry_ok_alt numbers_ok_def distinct_map dest: inj_onD)
  moreover have "sum_list (map (weight t f) (invoice s)) = 0" if "amount_column f" for f
    using ok that by (simp add: registry_ok_alt)
  ultimately show ?thesis
    by (simp add: weight_nets amount_column_def Summarize_def unfiltered Let_def conj_commute conj_left_commute)
qed

section \<open>A small registry\<close>

text \<open>A shop with one approved sale of 36.00 to partner 31, and three invoices on it.\<close>

definition demo_sold :: registry where
  "demo_sold = empty_registry\<lparr>shop := empty_db\<lparr>
     partner := [\<lparr> pa_id = 31, pa_tenant_id = 11, pa_name = ''Yang'', pa_deleted = False \<rparr>],
     bill_head := [\<lparr> h_ID = 21, h_TenantID = 11, h_BillNo = ''SL-20260423-0002'', h_BillType = BillTypeSale, h_SubType = BillSubTypeSale,
       h_Status = StatusApproved, h_PartnerID = Some 31, h_WarehouseID = None, h_OperatorID = None, h_CreatorID = 14, h_BillDate = 0,
       h_Subtotal = 36, h_ShippingFee = 0, h_TaxAmount = 0, h_TotalAmount = 36, h_PaidAmount = 0, h_Currency = ''CNY'',
       h_ExchangeRateVal = 1, h_AmountLocal = 36, h_ApprovedAt = Some 0, h_ApprovedBy = Some 15, h_Revision = 1, h_Remark = [],
       h_CreatedAt = 0, h_UpdatedAt = 0, h_ClientRef = [], h_Source = [], h_OccurredAt = None, h_link_bill_id = None, h_deleted = False \<rparr>],
     draws := 40\<rparr>\<rparr>"

definition demo_invoice :: "string \<Rightarrow> rat \<Rightarrow> CreateInput" where
  "demo_invoice no amt = \<lparr> in_TenantID = 11, in_Direction = InvDirectionOut, in_InvoiceNo = no, in_InvoiceCode = [],
     in_InvoiceType = invoice_types ! 0, in_PartnerID = 31, in_IssueDate = seconds 86400, in_AmountExclTax = amt, in_TaxAmount = 0,
     in_Remark = [], in_CreatedBy = Some 14, in_Links = [\<lparr> ln_BillID = 21, ln_BillNo = [], ln_Amount = amt \<rparr>] \<rparr>"

definition demo_issued :: registry where
  "demo_issued = snd (CreateInvoice_Execute std_env (demo_invoice ''00000001'' 30) demo_sold)"

definition demo_red :: registry where
  "demo_red = snd (RedInvoice_Execute std_env (\<lambda>_ _. False) \<lparr> ri_TenantID = 11, ri_ID = 1040, ri_InvoiceNo = ''00000002'', ri_InvoiceCode = [],
     ri_IssueDate = seconds 86400, ri_Remark = [], ri_CreatedBy = Some 14 \<rparr> demo_issued)"

lemma demo_registry_runs:
  "(registry_step std_env)\<^sup>*\<^sup>* empty_registry demo_sold" "(registry_step std_env)\<^sup>*\<^sup>* empty_registry demo_issued"
  "(registry_step std_env)\<^sup>*\<^sup>* empty_registry demo_red"
proof -
  have 1: "registry_step std_env empty_registry demo_sold"
    by (rule traded) (simp_all add: demo_sold_def empty_registry_def empty_db_def)
  have 2: "registry_step std_env demo_sold demo_issued" unfolding demo_issued_def using created [of std_env demo_sold "now std_env"] by simp
  have 3: "registry_step std_env demo_issued demo_red" unfolding demo_red_def using struck [of std_env demo_issued "now std_env"] by simp
  show "(registry_step std_env)\<^sup>*\<^sup>* empty_registry demo_sold" using 1 by blast
  then show *: "(registry_step std_env)\<^sup>*\<^sup>* empty_registry demo_issued" using 2 by (rule rtranclp.rtrancl_into_rtrancl)
  then show "(registry_step std_env)\<^sup>*\<^sup>* empty_registry demo_red" using 3 by (rule rtranclp.rtrancl_into_rtrancl)
qed

lemma demo_refused: "isl (fst (CreateInvoice_Execute std_env (demo_invoice ''00000003'' 30) demo_issued))"
  by code_simp

lemma demo_rest: "\<not> isl (fst (CreateInvoice_Execute std_env (demo_invoice ''00000003'' 6) demo_issued))"
  "in_Links (demo_invoice ''00000003'' 6) \<noteq> []"
  by code_simp+

theorem invoice_within_bills_witness:
  "\<exists>v s'. CreateInvoice_Execute std_env (demo_invoice ''00000003'' 6) demo_issued = (Inr v, s') \<and> 0 < iv_AmountExclTax v
     \<and> sum_list (map ln_Amount (iv_Links v)) \<le> iv_TotalAmount v
     \<and> isl (fst (CreateInvoice_Execute std_env (demo_invoice ''00000003'' 30) demo_issued))"
proof -
  obtain v s' where c: "CreateInvoice_Execute std_env (demo_invoice ''00000003'' 6) demo_issued = (Inr v, s')"
    using demo_rest(1) by (cases "CreateInvoice_Execute std_env (demo_invoice ''00000003'' 6) demo_issued"; cases "fst (CreateInvoice_Execute std_env (demo_invoice ''00000003'' 6) demo_issued)") auto
  show ?thesis using invoice_within_bills [OF std_runtime demo_registry_runs(2) c] c demo_refused by blast
qed

theorem registry_nets_witness:
  "map iv_TotalAmount (invoice demo_red) = [30, - 30] \<and> vs_TotalAmount (Summarize (\<lambda>_ _. True) (no_filter 11) demo_red) = 0"
proof -
  have "map iv_TotalAmount (invoice demo_red) = [30, - 30]" by code_simp
  moreover have "filter (\<lambda>v. iv_TenantID v = 11 \<and> \<not> iv_deleted v \<and> iv_Status v = StatusIssued \<and> iv_RedOfID v = None) (invoice demo_red) = []" by code_simp
  ultimately show ?thesis using registry_nets [OF std_runtime demo_registry_runs(3), of 11 "\<lambda>_ _. True"] by (simp add: Let_def)
qed

end
