(* ===== verification/Idempotency.thy ===== *)
theory Idempotency
  imports Go_Text
begin

text \<open>
  Deduplication of write requests (\<open>internal/adapter/middleware/idempotency*.go\<close>).  The middleware is cut at its calls
  of the store and of the handler, so that requests can overtake each other between them.  The store is
  Redis: keys with values and a time to live.  A call of it may fail, with or without its effect.
\<close>

section \<open>Requests, answers and the store\<close>

datatype tenant_ctx = TenantMissing | TenantUUID uuid | TenantText string | TenantWrongType

text \<open>A request; \<open>None\<close> is a body that cannot be read in full.\<close>

record HttpRequest =
  hr_Method :: string
  hr_Path :: string
  hr_FullPath :: string
  hr_Key :: string
  hr_Tenant :: tenant_ctx
  hr_Body :: "string option"

record HttpResponse =
  hp_Status :: int
  hp_ContentType :: string
  hp_Body :: string

text \<open>The answer of the handler, the replay of a stored one, or a refusal with its status and error code.\<close>

datatype answer = Handled HttpResponse | Replayed HttpResponse | Refused int string

record idempotencyEntry =
  ie_Status :: int
  ie_Kind :: string
  ie_ContentType :: string
  ie_Body :: string
  ie_Fingerprint :: string

text \<open>What is stored: the JSON of an entry, or the mark of a lock, which is no entry.\<close>

datatype stored = StoredEntry idempotencyEntry | StoredMark

type_synonym idem_kv = "(string, stored \<times> gotime) map"

definition idem_Get :: "gotime \<Rightarrow> idem_kv \<Rightarrow> string \<Rightarrow> stored option" where
  "idem_Get t kv k = (case kv k of None \<Rightarrow> None | Some (v, until) \<Rightarrow> if t < until then Some v else None)"

definition idem_SetNX :: "gotime \<Rightarrow> string \<Rightarrow> stored \<Rightarrow> gotime \<Rightarrow> idem_kv \<Rightarrow> bool \<times> idem_kv" where
  "idem_SetNX t k v ttl kv = (if idem_Get t kv k = None then (True, kv(k \<mapsto> (v, t + ttl))) else (False, kv))"

definition idem_Set :: "gotime \<Rightarrow> string \<Rightarrow> stored \<Rightarrow> gotime \<Rightarrow> idem_kv \<Rightarrow> idem_kv" where
  "idem_Set t k v ttl kv = kv(k \<mapsto> (v, t + ttl))"

definition idem_Del :: "string \<Rightarrow> idem_kv \<Rightarrow> idem_kv" where
  "idem_Del k kv = kv(k := None)"

text \<open>How the store answers: properly, or with an error, the command carried out or not.\<close>

datatype store_answer = Served | Faulty bool

section \<open>The middleware\<close>

definition idempotencyKeyMaxLen :: nat where "idempotencyKeyMaxLen = 200"
definition idempotencyCacheTTL :: gotime where "idempotencyCacheTTL = seconds 86400"
definition idempotencyLockTTL :: gotime where "idempotencyLockTTL = seconds 30"
definition idempotencyKeyPrefix :: string where "idempotencyKeyPrefix = ''tally:idem:''"

definition lock_of :: "string \<Rightarrow> string" where
  "lock_of storeKey = storeKey @ '':lock''"

definition classifyStatus :: "int \<Rightarrow> string" where
  "classifyStatus status =
     (if 200 \<le> status \<and> status < 300 then ''ok''
      else if status = 429 then ''transient''
      else if 400 \<le> status \<and> status < 500 then ''client_error''
      else [])"

text \<open>\<open>sha\<close> is SHA-256 in hexadecimal.\<close>

definition requestFingerprint :: "(string \<Rightarrow> string) \<Rightarrow> HttpRequest \<Rightarrow> string option" where
  "requestFingerprint sha r = map_option (\<lambda>b. sha (hr_Method r @ [CHR 0x00] @ hr_Path r @ [CHR 0x00] @ b)) (hr_Body r)"

definition tenant_id :: "env \<Rightarrow> tenant_ctx \<Rightarrow> string option" where
  "tenant_id E c =
     (case c of
        TenantUUID t \<Rightarrow> if t = uuid_Nil then None else Some (uuid_string E t)
      | TenantText t \<Rightarrow> if t = [] then None else Some t
      | _ \<Rightarrow> None)"

text \<open>
  Where a request stands: about to look up its key, to take the lock, to run the handler without or with
  the lock, to give the lock back, to store the answer, or answered.
\<close>

datatype phase =
    Looking string string
  | Locking string string
  | Passing
  | Leading string string
  | Releasing string string HttpResponse
  | Caching string string HttpResponse
  | Answered answer

text \<open>Up to the first call of the store; without a store every request passes.\<close>

definition Idempotency :: "env \<Rightarrow> (string \<Rightarrow> string) \<Rightarrow> bool \<Rightarrow> HttpRequest \<Rightarrow> phase" where
  "Idempotency E sha store r =
     (if \<not> store then Passing
      else if hr_Method r \<in> {''GET'', ''HEAD'', ''OPTIONS''} then Passing
      else if hr_Key r = [] \<or> idempotencyKeyMaxLen < length (hr_Key r) then Passing
      else case tenant_id E (hr_Tenant r) of
             None \<Rightarrow> Passing
           | Some tid \<Rightarrow>
               (case requestFingerprint sha r of
                  None \<Rightarrow> Answered (Refused 413 ''request_body_unreadable'')
                | Some fp \<Rightarrow> Looking (idempotencyKeyPrefix @ tid @ '':'' @ hr_Key r) fp))"

definition after_get :: "string \<Rightarrow> string \<Rightarrow> store_answer \<Rightarrow> stored option \<Rightarrow> phase" where
  "after_get k fp a found =
     (if a \<noteq> Served then Passing
      else case found of
             Some (StoredEntry e) \<Rightarrow>
               if 0 < ie_Status e then
                 if ie_Fingerprint e \<noteq> [] \<and> ie_Fingerprint e \<noteq> fp then Answered (Refused 422 ''idempotency_key_reused'')
                 else Answered (Replayed \<lparr> hp_Status = ie_Status e, hp_ContentType = ie_ContentType e, hp_Body = ie_Body e \<rparr>)
               else Locking k fp
           | _ \<Rightarrow> Locking k fp)"

definition entry_of :: "string \<Rightarrow> HttpResponse \<Rightarrow> idempotencyEntry" where
  "entry_of fp p = \<lparr> ie_Status = hp_Status p, ie_Kind = classifyStatus (hp_Status p), ie_ContentType = hp_ContentType p,
     ie_Body = hp_Body p, ie_Fingerprint = fp \<rparr>"

section \<open>Requests side by side\<close>

record idem_world =
  iw_kv :: idem_kv
  iw_clock :: gotime
  iw_conns :: "(HttpRequest \<times> phase) list"
  iw_runs :: "(HttpRequest \<times> HttpResponse) list"

definition move :: "nat \<Rightarrow> phase \<Rightarrow> idem_world \<Rightarrow> idem_world" where
  "move i ph w = w\<lparr>iw_conns := (iw_conns w)[i := (fst (iw_conns w ! i), ph)]\<rparr>"

definition kv_if :: "store_answer \<Rightarrow> idem_kv \<Rightarrow> idem_world \<Rightarrow> idem_world" where
  "kv_if a kv w = (if a = Faulty False then w else w\<lparr>iw_kv := kv\<rparr>)"

definition ran :: "nat \<Rightarrow> HttpResponse \<Rightarrow> idem_world \<Rightarrow> idem_world" where
  "ran i p w = w\<lparr>iw_runs := iw_runs w @ [(fst (iw_conns w ! i), p)]\<rparr>"

text \<open>
  The next step of request \<open>i\<close>: \<open>a\<close> is how the store answers a call of this step, \<open>p\<close> what the handler answers
  if it runs in this step.  \<open>iw_runs\<close> records the runs of handlers.
\<close>

definition idem_act :: "store_answer \<Rightarrow> HttpResponse \<Rightarrow> nat \<Rightarrow> idem_world \<Rightarrow> idem_world" where
  "idem_act a p i w =
     (case snd (iw_conns w ! i) of
        Looking k fp \<Rightarrow> move i (after_get k fp a (idem_Get (iw_clock w) (iw_kv w) k)) w
      | Locking k fp \<Rightarrow>
          (let (acquired, kv) = idem_SetNX (iw_clock w) (lock_of k) StoredMark idempotencyLockTTL (iw_kv w) in
           move i (if a \<noteq> Served then Passing else if acquired then Leading k fp else Answered (Refused 409 ''idempotency_in_flight''))
             (kv_if a kv w))
      | Passing \<Rightarrow> move i (Answered (Handled p)) (ran i p w)
      | Leading k fp \<Rightarrow> move i (Releasing k fp p) (ran i p w)
      | Releasing k fp q \<Rightarrow>
          move i (if classifyStatus (hp_Status q) = ''ok'' then Caching k fp q else Answered (Handled q))
            (kv_if a (idem_Del (lock_of k) (iw_kv w)) w)
      | Caching k fp q \<Rightarrow>
          move i (Answered (Handled q)) (kv_if a (idem_Set (iw_clock w) k (StoredEntry (entry_of fp q)) idempotencyCacheTTL (iw_kv w)) w)
      | Answered x \<Rightarrow> w)"

section \<open>The mandatory key\<close>

definition requireIdempotencyKeyRoutes :: "string list" where
  "requireIdempotencyKeyRoutes =
     [''POST /api/v1/payments'', ''POST /api/v1/receipts'', ''POST /api/v1/purchase-bills/:id/approve'',
      ''POST /api/v1/sale-bills/:id/approve'', ''POST /api/v1/sale-bills/quick-checkout'', ''POST /api/v1/sale-bills/:id/return'',
      ''POST /api/v1/purchase-bills/:id/return'', ''POST /api/v1/ai/plans/:plan_id/confirm'', ''POST /api/v1/billing/subscribe'']"

definition RequireIdempotencyKey :: "HttpRequest \<Rightarrow> answer option" where
  "RequireIdempotencyKey r =
     (if hr_Method r @ '' '' @ hr_FullPath r \<in> set requireIdempotencyKeyRoutes \<and> hr_Key r = []
      then Some (Refused 400 ''missing_idempotency_key'') else None)"

end
