(* ===== verification/Idempotency_Safety.thy ===== *)
theory Idempotency_Safety
  imports Idempotency "HOL-Library.Sublist"
begin

text \<open>
  What deduplication guarantees for requests that overtake each other, and what it does not.
\<close>

section \<open>Histories\<close>

definition keyed :: "env \<Rightarrow> (string \<Rightarrow> string) \<Rightarrow> HttpRequest \<Rightarrow> (string \<times> string) option" where
  "keyed E sha r = (case Idempotency E sha True r of Looking k fp \<Rightarrow> Some (k, fp) | _ \<Rightarrow> None)"

definition holds_lock :: "phase \<Rightarrow> string option" where
  "holds_lock ph = (case ph of Leading k _ \<Rightarrow> Some k | Releasing k _ _ \<Rightarrow> Some k | _ \<Rightarrow> None)"

text \<open>Nobody outlives the lock it holds.\<close>

definition timely :: "gotime \<Rightarrow> idem_world \<Rightarrow> bool" where
  "timely t w \<longleftrightarrow> (\<forall>c \<in> set (iw_conns w). \<forall>k. holds_lock (snd c) = Some k \<longrightarrow> idem_Get t (iw_kv w) (lock_of k) \<noteq> None)"

text \<open>
  Requests arrive, take a step, or time passes.  The store serves the requests of which \<open>steady\<close> is true; with
  \<open>prompt\<close>, time does not pass beyond the life of a lock that is held.
\<close>

inductive idem_step :: "env \<Rightarrow> (string \<Rightarrow> string) \<Rightarrow> (HttpRequest \<Rightarrow> bool) \<Rightarrow> bool \<Rightarrow> idem_world \<Rightarrow> idem_world \<Rightarrow> bool"
  for E sha steady prompt where
  arrive: "idem_step E sha steady prompt w (w\<lparr>iw_conns := iw_conns w @ [(r, Idempotency E sha True r)]\<rparr>)"
| act: "i < length (iw_conns w) \<Longrightarrow> a = Served \<or> \<not> steady (fst (iw_conns w ! i)) \<Longrightarrow> idem_step E sha steady prompt w (idem_act a p i w)"
| tick: "iw_clock w \<le> t \<Longrightarrow> prompt \<longrightarrow> timely t w \<Longrightarrow> idem_step E sha steady prompt w (w\<lparr>iw_clock := t\<rparr>)"

definition idem_start :: "gotime \<Rightarrow> idem_world" where
  "idem_start t = \<lparr> iw_kv = Map.empty, iw_clock = t, iw_conns = [], iw_runs = [] \<rparr>"

lemma move_sel [simp]:
  "iw_kv (move i ph w) = iw_kv w" "iw_clock (move i ph w) = iw_clock w" "iw_runs (move i ph w) = iw_runs w"
  "iw_conns (move i ph w) = (iw_conns w)[i := (fst (iw_conns w ! i), ph)]"
  by (simp_all add: move_def)

lemma kv_if_sel [simp]:
  "iw_kv (kv_if a kv w) = (if a = Faulty False then iw_kv w else kv)" "iw_clock (kv_if a kv w) = iw_clock w"
  "iw_runs (kv_if a kv w) = iw_runs w" "iw_conns (kv_if a kv w) = iw_conns w"
  by (simp_all add: kv_if_def)

lemma ran_sel [simp]:
  "iw_kv (ran i p w) = iw_kv w" "iw_clock (ran i p w) = iw_clock w" "iw_conns (ran i p w) = iw_conns w"
  "iw_runs (ran i p w) = iw_runs w @ [(fst (iw_conns w ! i), p)]"
  by (simp_all add: ran_def)

lemma ok_status [simp]: "classifyStatus st = ''ok'' \<longleftrightarrow> 200 \<le> st \<and> st < 300"
  by (simp add: classifyStatus_def)

lemma lock_of_eq [simp]: "lock_of k = lock_of k' \<longleftrightarrow> k = k'"
  by (simp add: lock_of_def)

lemma entered:
  obtains k fp where "Idempotency E sha True r = Looking k fp" "keyed E sha r = Some (k, fp)"
  | "Idempotency E sha True r = Passing" "keyed E sha r = None"
  | x where "Idempotency E sha True r = Answered (Refused 413 x)" "keyed E sha r = None"
proof -
  have "(\<exists>k fp. Idempotency E sha True r = Looking k fp) \<or> Idempotency E sha True r = Passing
    \<or> (\<exists>x. Idempotency E sha True r = Answered (Refused 413 x))"
    by (simp add: Idempotency_def split: option.split)
  then show thesis using that by (auto simp: keyed_def)
qed

section \<open>Whose answer a request gets\<close>

definition good :: "HttpResponse \<Rightarrow> bool" where
  "good p \<longleftrightarrow> 200 \<le> hp_Status p \<and> hp_Status p < 300"

definition phase_ok :: "env \<Rightarrow> (string \<Rightarrow> string) \<Rightarrow> (HttpRequest \<times> HttpResponse) list \<Rightarrow> HttpRequest \<Rightarrow> phase \<Rightarrow> bool" where
  "phase_ok E sha runs r ph \<longleftrightarrow>
     (case ph of
        Looking k fp \<Rightarrow> keyed E sha r = Some (k, fp)
      | Locking k fp \<Rightarrow> keyed E sha r = Some (k, fp)
      | Passing \<Rightarrow> True
      | Leading k fp \<Rightarrow> keyed E sha r = Some (k, fp)
      | Releasing k fp p \<Rightarrow> keyed E sha r = Some (k, fp) \<and> (r, p) \<in> set runs
      | Caching k fp p \<Rightarrow> keyed E sha r = Some (k, fp) \<and> (r, p) \<in> set runs \<and> good p
      | Answered (Handled p) \<Rightarrow> (r, p) \<in> set runs
      | Answered (Replayed p) \<Rightarrow> keyed E sha r \<noteq> None \<and> good p \<and> (\<exists>r'. (r', p) \<in> set runs \<and> keyed E sha r' = keyed E sha r)
      | Answered (Refused _ _) \<Rightarrow> True)"

definition entry_ok :: "env \<Rightarrow> (string \<Rightarrow> string) \<Rightarrow> (HttpRequest \<times> HttpResponse) list \<Rightarrow> string \<Rightarrow> idempotencyEntry \<Rightarrow> bool" where
  "entry_ok E sha runs k e \<longleftrightarrow> (\<exists>r p fp. (r, p) \<in> set runs \<and> keyed E sha r = Some (k, fp) \<and> good p \<and> e = entry_of fp p)"

definition authentic :: "env \<Rightarrow> (string \<Rightarrow> string) \<Rightarrow> idem_world \<Rightarrow> bool" where
  "authentic E sha w \<longleftrightarrow> (\<forall>c \<in> set (iw_conns w). phase_ok E sha (iw_runs w) (fst c) (snd c))
     \<and> (\<forall>k e until. iw_kv w k = Some (StoredEntry e, until) \<longrightarrow> entry_ok E sha (iw_runs w) k e)"

lemma phase_ok_mono: "phase_ok E sha rs r ph \<Longrightarrow> set rs \<subseteq> set rs' \<Longrightarrow> phase_ok E sha rs' r ph"
  unfolding phase_ok_def by (auto split: phase.splits answer.splits)

lemma entry_ok_mono: "entry_ok E sha rs k e \<Longrightarrow> set rs \<subseteq> set rs' \<Longrightarrow> entry_ok E sha rs' k e"
  unfolding entry_ok_def by blast

lemma fingerprint_nonempty:
  assumes "\<And>x. sha x \<noteq> []" "keyed E sha r = Some (k, fp)"
  shows "fp \<noteq> []"
  using assms by (auto simp: keyed_def Idempotency_def requestFingerprint_def split: option.splits if_splits)

text \<open>The step of one request touches its own place, and adds what it stores.\<close>

lemma authentic_move:
  assumes "authentic E sha w" "phase_ok E sha (iw_runs w') (fst (iw_conns w ! i)) ph"
    "iw_conns w' = (iw_conns w)[i := (fst (iw_conns w ! i), ph)]" "set (iw_runs w) \<subseteq> set (iw_runs w')"
    "\<And>k e until. iw_kv w' k = Some (StoredEntry e, until) \<Longrightarrow> iw_kv w k = Some (StoredEntry e, until) \<or> entry_ok E sha (iw_runs w') k e"
  shows "authentic E sha w'"
proof -
  have "phase_ok E sha (iw_runs w') (fst c) (snd c)" if "c \<in> set (iw_conns w')" for c
  proof -
    have "c = (fst (iw_conns w ! i), ph) \<or> c \<in> set (iw_conns w)"
      using that set_update_subset_insert [of "iw_conns w" i] unfolding assms(3) by blast
    then show ?thesis using assms(1,2) phase_ok_mono [OF _ assms(4)] unfolding authentic_def by auto
  qed
  moreover have "entry_ok E sha (iw_runs w') k e" if "iw_kv w' k = Some (StoredEntry e, until)" for k e until
    using assms(5) [OF that] assms(1) entry_ok_mono [OF _ assms(4)] unfolding authentic_def by blast
  ultimately show ?thesis unfolding authentic_def by blast
qed

lemma looked_up:
  assumes "\<And>x. sha x \<noteq> []" "keyed E sha r = Some (k, fp)" "\<And>e. found = Some (StoredEntry e) \<Longrightarrow> entry_ok E sha rs k e"
  shows "phase_ok E sha rs r (after_get k fp a found)"
proof (cases "\<exists>e. a = Served \<and> found = Some (StoredEntry e) \<and> 0 < ie_Status e \<and> ie_Fingerprint e = fp")
  case True
  then obtain e where e: "a = Served" "found = Some (StoredEntry e)" "0 < ie_Status e" "ie_Fingerprint e = fp" by blast
  obtain r' p fp' where p: "(r', p) \<in> set rs" "keyed E sha r' = Some (k, fp')" "good p" "e = entry_of fp' p"
    using assms(3) [OF e(2)] unfolding entry_ok_def by blast
  have "fp' = fp" "p = \<lparr> hp_Status = ie_Status e, hp_ContentType = ie_ContentType e, hp_Body = ie_Body e \<rparr>" using p(4) e(4) by (simp_all add: entry_of_def)
  then show ?thesis using p assms(2) e by (auto simp: phase_ok_def after_get_def)
next
  case False
  moreover have "ie_Fingerprint e \<noteq> []" if "found = Some (StoredEntry e)" for e
    using assms(3) [OF that] fingerprint_nonempty [OF assms(1)] by (auto simp: entry_ok_def entry_of_def)
  ultimately show ?thesis using assms(2) by (auto simp: phase_ok_def after_get_def split: option.split stored.split)
qed

lemma idem_Get_Some: "idem_Get t kv k = Some v \<Longrightarrow> \<exists>until. kv k = Some (v, until)"
  by (auto simp: idem_Get_def split: option.splits if_splits)

lemma authentic_act:
  assumes sha: "\<And>x. sha x \<noteq> []" and ok: "authentic E sha w" and i: "i < length (iw_conns w)"
  shows "authentic E sha (idem_act a p i w)"
proof -
  obtain r ph where c: "iw_conns w ! i = (r, ph)" by (cases "iw_conns w ! i")
  have mem: "(r, ph) \<in> set (iw_conns w)" using i c by (metis nth_mem)
  then have ph: "phase_ok E sha (iw_runs w) r ph" using ok unfolding authentic_def by force
  have kv: "entry_ok E sha (iw_runs w) k e" if "idem_Get (iw_clock w) (iw_kv w) k = Some (StoredEntry e)" for k e
    using idem_Get_Some [OF that] ok unfolding authentic_def by blast
  show ?thesis
  proof (cases ph)
    case (Looking k fp)
    then have "phase_ok E sha (iw_runs w) r (after_get k fp a (idem_Get (iw_clock w) (iw_kv w) k))"
      by (intro looked_up [OF sha] kv) (use ph in \<open>simp_all add: phase_ok_def\<close>)
    then show ?thesis using c Looking by (intro authentic_move [OF ok, where i = i]) (simp_all add: idem_act_def)
  next
    case (Locking k fp)
    let ?ph = "if a \<noteq> Served then Passing else if idem_Get (iw_clock w) (iw_kv w) (lock_of k) = None then Leading k fp else Answered (Refused 409 ''idempotency_in_flight'')"
    have "phase_ok E sha (iw_runs w) r ?ph" using ph Locking by (simp add: phase_ok_def)
    then show ?thesis using c Locking
      by (intro authentic_move [OF ok, where ph = ?ph and i = i]) (auto simp: idem_act_def idem_SetNX_def split: if_splits)
  next
    case Passing
    then show ?thesis using c by (intro authentic_move [OF ok, where i = i]) (auto simp: idem_act_def phase_ok_def)
  next
    case (Leading k fp)
    then show ?thesis using c ph by (intro authentic_move [OF ok, where i = i]) (auto simp: idem_act_def phase_ok_def)
  next
    case (Releasing k fp q)
    then show ?thesis using c ph
      by (intro authentic_move [OF ok, where i = i]) (auto simp: idem_act_def phase_ok_def good_def idem_Del_def split: if_splits)
  next
    case (Caching k fp q)
    then have "entry_ok E sha (iw_runs w) k (entry_of fp q)" using ph unfolding entry_ok_def phase_ok_def by auto
    then show ?thesis using c ph Caching
      by (intro authentic_move [OF ok, where i = i]) (auto simp: idem_act_def phase_ok_def idem_Set_def split: if_splits)
  next
    case (Answered x)
    then show ?thesis using ok c by (simp add: idem_act_def)
  qed
qed

lemma authentic_step:
  assumes "\<And>x. sha x \<noteq> []" "idem_step E sha steady prompt w w'" "authentic E sha w"
  shows "authentic E sha w'"
  using assms(2)
proof cases
  case (arrive r)
  have "phase_ok E sha (iw_runs w) r (Idempotency E sha True r)" by (rule entered [of E sha r]) (simp_all add: phase_ok_def)
  then show ?thesis using assms(3) arrive by (auto simp: authentic_def)
next
  case (act i a p)
  then show ?thesis using authentic_act [where sha = sha, OF assms(1,3)] by blast
next
  case (tick t)
  then show ?thesis using assms(3) by (simp add: authentic_def)
qed

lemma authentic_runs:
  assumes "\<And>x. sha x \<noteq> []" "(idem_step E sha steady prompt)\<^sup>*\<^sup>* w w'" "authentic E sha w"
  shows "authentic E sha w'"
  using assms(2)
proof (induction rule: rtranclp_induct)
  case (step u v)
  then show ?case using authentic_step [where sha = sha, OF assms(1)] by blast
qed (rule assms(3))

lemma start_authentic [simp]: "authentic E sha (idem_start t)"
  by (simp add: authentic_def idem_start_def)

text \<open>A handler only runs for a request that has arrived.\<close>

lemma runs_arrived:
  assumes "(idem_step E sha steady prompt)\<^sup>*\<^sup>* (idem_start t) w"
  shows "fst ` set (iw_runs w) \<subseteq> fst ` set (iw_conns w)"
  using assms
proof (induction rule: rtranclp_induct)
  case base
  then show ?case by (simp add: idem_start_def)
next
  case (step u v)
  from step.hyps(2) show ?case
  proof cases
    case (act i a p)
    have conns: "map fst (iw_conns (idem_act a p i u)) = map fst (iw_conns u)"
      by (cases "snd (iw_conns u ! i)") (auto simp: idem_act_def map_update list_update_same_conv act(2) split: prod.split)
    have "iw_runs (idem_act a p i u) \<in> {iw_runs u, iw_runs u @ [(fst (iw_conns u ! i), p)]}"
      by (cases "snd (iw_conns u ! i)") (auto simp: idem_act_def split: prod.split)
    then have new: "fst ` set (iw_runs v) \<subseteq> insert (fst (iw_conns u ! i)) (fst ` set (iw_runs u))" unfolding act(1) by auto
    have "fst (iw_conns u ! i) \<in> fst ` set (iw_conns u)" using act(2) by simp
    from subset_trans [OF new insert_subset [THEN iffD2, OF conjI [OF this step.IH]]]
    show ?thesis unfolding act(1) set_map [symmetric] conns .
  qed (use step.IH in auto)
qed

lemma split_at_char:
  assumes "c \<notin> set a" "c \<notin> set a'" "a @ c # b = a' @ c # b'"
  shows "a = a' \<and> b = b'"
  using assms
proof (induction a arbitrary: a')
  case (Cons x a)
  then show ?case by (cases a') auto
qed (auto simp: Cons_eq_append_conv)

text \<open>The text of a tenant's id has no colon, so the key of the store tells tenant and key of a request apart.\<close>

lemma keyed_inj:
  assumes "runtime_env E" "keyed E sha r = Some (k, fp)" "keyed E sha r' = Some (k, fp)"
    and "\<And>x. hr_Tenant r \<noteq> TenantText x" "\<And>x. hr_Tenant r' \<noteq> TenantText x"
  shows "hr_Tenant r' = hr_Tenant r \<and> hr_Key r' = hr_Key r
    \<and> (\<exists>b b'. hr_Body r = Some b \<and> hr_Body r' = Some b'
         \<and> sha (hr_Method r' @ [CHR 0x00] @ hr_Path r' @ [CHR 0x00] @ b') = sha (hr_Method r @ [CHR 0x00] @ hr_Path r @ [CHR 0x00] @ b))"
proof -
  have split: "\<exists>t b. hr_Tenant q = TenantUUID t \<and> hr_Body q = Some b \<and> k = idempotencyKeyPrefix @ uuid_string E t @ '':'' @ hr_Key q
      \<and> fp = sha (hr_Method q @ [CHR 0x00] @ hr_Path q @ [CHR 0x00] @ b)"
    if "keyed E sha q = Some (k, fp)" "\<And>x. hr_Tenant q \<noteq> TenantText x" for q
    using that by (auto simp: keyed_def Idempotency_def requestFingerprint_def tenant_id_def split: option.splits if_splits tenant_ctx.splits)
  obtain t b where r: "hr_Tenant r = TenantUUID t" "hr_Body r = Some b" "k = idempotencyKeyPrefix @ uuid_string E t @ '':'' @ hr_Key r"
    "fp = sha (hr_Method r @ [CHR 0x00] @ hr_Path r @ [CHR 0x00] @ b)" using split [OF assms(2,4)] by blast
  obtain t' b' where r': "hr_Tenant r' = TenantUUID t'" "hr_Body r' = Some b'" "k = idempotencyKeyPrefix @ uuid_string E t' @ '':'' @ hr_Key r'"
    "fp = sha (hr_Method r' @ [CHR 0x00] @ hr_Path r' @ [CHR 0x00] @ b')" using split [OF assms(3,5)] by blast
  have "CHR '':'' \<notin> set (uuid_string E u)" for u
  proof -
    have "CHR '':'' \<notin> set uuid_chars" by (simp add: uuid_chars_def)
    then show ?thesis using runtime_env.uuid_string_chars [OF assms(1), of u] unfolding list_all_iff by blast
  qed
  then have "uuid_string E t = uuid_string E t' \<and> hr_Key r = hr_Key r'"
    using r(3) r'(3) split_at_char [of "CHR '':''" "uuid_string E t" "uuid_string E t'" "hr_Key r" "hr_Key r'"] by simp
  then have "t' = t" "hr_Key r' = hr_Key r" using runtime_env.uuid_string_inj [OF assms(1), of t' t] by simp_all
  then show ?thesis unfolding r(1,2) r'(1,2) using r(4) r'(4) by simp
qed

text \<open>
  C38: nobody is told another request's result.  Whatever requests overlap, whatever the store loses and
  however long anything takes, an answered request was refused, or answered by its own run of the handler,
  or by the 2xx answer of a run of the handler for a request of the same tenant with the same key, and the same
  digest of method, path and body.  The hypothesis on tenants is what authentication leaves in the
  context: a UUID or nothing.  The digest is any function without an empty value.
\<close>

theorem replay_authentic:
  assumes "runtime_env E" and "\<And>x. sha x \<noteq> []" and "(idem_step E sha steady prompt)\<^sup>*\<^sup>* (idem_start t) w"
    and "\<forall>c \<in> set (iw_conns w). \<forall>x. hr_Tenant (fst c) \<noteq> TenantText x" and "(r, Answered x) \<in> set (iw_conns w)"
  shows "case x of
      Handled p \<Rightarrow> (r, p) \<in> set (iw_runs w)
    | Replayed p \<Rightarrow> 200 \<le> hp_Status p \<and> hp_Status p < 300
        \<and> (\<exists>r' b b'. (r', p) \<in> set (iw_runs w) \<and> hr_Tenant r' = hr_Tenant r \<and> hr_Key r' = hr_Key r \<and> hr_Body r = Some b \<and> hr_Body r' = Some b'
              \<and> sha (hr_Method r' @ [CHR 0x00] @ hr_Path r' @ [CHR 0x00] @ b') = sha (hr_Method r @ [CHR 0x00] @ hr_Path r @ [CHR 0x00] @ b))
    | Refused _ _ \<Rightarrow> True"
proof -
  have "authentic E sha w" by (rule authentic_runs [where sha = sha, OF assms(2,3) start_authentic])
  then have ok: "phase_ok E sha (iw_runs w) r (Answered x)" using assms(5) unfolding authentic_def by force
  show ?thesis
  proof (cases x)
    case (Replayed p)
    then obtain k fp r' where k: "keyed E sha r = Some (k, fp)" "(r', p) \<in> set (iw_runs w)" "keyed E sha r' = Some (k, fp)" and good: "good p"
      using ok by (auto simp: phase_ok_def)
    obtain ph where "(r', ph) \<in> set (iw_conns w)" using runs_arrived [OF assms(3)] k(2) by force
    then have "\<And>x. hr_Tenant r' \<noteq> TenantText x" "\<And>x. hr_Tenant r \<noteq> TenantText x" using assms(4,5) by force+
    then show ?thesis using keyed_inj [OF assms(1) k(1,3)] k(2) good Replayed by (auto simp: good_def)
  qed (use ok in \<open>auto simp: phase_ok_def\<close>)
qed

section \<open>After the answer is stored\<close>

definition has_key :: "env \<Rightarrow> (string \<Rightarrow> string) \<Rightarrow> string \<Rightarrow> HttpRequest \<Rightarrow> bool" where
  "has_key E sha k r \<longleftrightarrow> (\<exists>fp. keyed E sha r = Some (k, fp))"

definition reply :: "idempotencyEntry \<Rightarrow> string \<Rightarrow> answer" where
  "reply e fp = (if fp = ie_Fingerprint e then Replayed \<lparr> hp_Status = ie_Status e, hp_ContentType = ie_ContentType e, hp_Body = ie_Body e \<rparr>
     else Refused 422 ''idempotency_key_reused'')"

text \<open>The request at \<open>i\<close> was answered before \<open>s\<close>, or waits for the lookup, or has the reply.\<close>

definition replied :: "env \<Rightarrow> (string \<Rightarrow> string) \<Rightarrow> string \<Rightarrow> idempotencyEntry \<Rightarrow> idem_world \<Rightarrow> idem_world \<Rightarrow> nat \<Rightarrow> bool" where
  "replied E sha k e s w i \<longleftrightarrow> (\<forall>fp. keyed E sha (fst (iw_conns w ! i)) = Some (k, fp) \<longrightarrow>
     (i < length (iw_conns s) \<and> iw_conns w ! i = iw_conns s ! i \<and> (\<exists>x. snd (iw_conns s ! i) = Answered x))
     \<or> snd (iw_conns w ! i) = Looking k fp \<or> snd (iw_conns w ! i) = Answered (reply e fp))"

definition kept :: "env \<Rightarrow> (string \<Rightarrow> string) \<Rightarrow> string \<Rightarrow> idempotencyEntry \<Rightarrow> gotime \<Rightarrow> idem_world \<Rightarrow> idem_world \<Rightarrow> bool" where
  "kept E sha k e until s w \<longleftrightarrow> authentic E sha w \<and> iw_kv w k = Some (StoredEntry e, until) \<and> length (iw_conns s) \<le> length (iw_conns w)
     \<and> filter (has_key E sha k \<circ> fst) (iw_runs w) = filter (has_key E sha k \<circ> fst) (iw_runs s)
     \<and> (\<forall>i < length (iw_conns w). replied E sha k e s w i)"

lemma replied_other:
  assumes "i \<noteq> j" "replied E sha k e s w j" "iw_conns w' = (iw_conns w)[i := c]"
  shows "replied E sha k e s w' j"
  using assms by (simp add: replied_def)

lemma kept_move:
  assumes "kept E sha k e until s w" "authentic E sha w'" "iw_conns w' = (iw_conns w)[i := (fst (iw_conns w ! i), ph)]"
    "iw_kv w' k = iw_kv w k" "filter (has_key E sha k \<circ> fst) (iw_runs w') = filter (has_key E sha k \<circ> fst) (iw_runs w)"
    "\<And>fp. keyed E sha (fst (iw_conns w ! i)) = Some (k, fp) \<Longrightarrow> ph = Answered (reply e fp)"
  shows "kept E sha k e until s w'"
proof -
  have "replied E sha k e s w' j" if j: "j < length (iw_conns w')" for j
  proof (cases "i = j")
    case True
    then show ?thesis using assms(6) j by (auto simp: replied_def assms(3))
  next
    case False
    then show ?thesis using replied_other [OF False _ assms(3)] assms(1) j unfolding kept_def by (simp add: assms(3))
  qed
  then show ?thesis using assms(1,2,4,5) by (simp add: kept_def assms(3))
qed

lemma found_reply:
  assumes "\<And>x. sha x \<noteq> []" "entry_ok E sha rs k e"
  shows "after_get k fp Served (Some (StoredEntry e)) = Answered (reply e fp)"
proof -
  have "ie_Fingerprint e \<noteq> []" "0 < ie_Status e"
    using assms(2) fingerprint_nonempty [OF assms(1)] by (auto simp: entry_ok_def entry_of_def good_def)
  then show ?thesis by (simp add: after_get_def reply_def)
qed

lemma act_shape:
  obtains ph where "iw_conns (idem_act a p i w) = (iw_conns w)[i := (fst (iw_conns w ! i), ph)]"
proof -
  have "\<exists>ph. iw_conns (idem_act a p i w) = (iw_conns w)[i := (fst (iw_conns w ! i), ph)]"
  proof (cases "snd (iw_conns w ! i)")
    case (Answered x)
    have "(iw_conns w)[i := (fst (iw_conns w ! i), snd (iw_conns w ! i))] = iw_conns w" by simp
    moreover have "iw_conns (idem_act a p i w) = iw_conns w" using Answered by (simp add: idem_act_def)
    ultimately show ?thesis by metis
  qed (auto simp: idem_act_def idem_SetNX_def)
  then show thesis using that by blast
qed

lemma act_elsewhere:
  assumes "phase_ok E sha (iw_runs w) (fst (iw_conns w ! i)) (snd (iw_conns w ! i))" "\<not> has_key E sha k (fst (iw_conns w ! i))" "\<not> suffix '':lock'' k"
  shows "iw_kv (idem_act a p i w) k = iw_kv w k"
    "filter (has_key E sha k \<circ> fst) (iw_runs (idem_act a p i w)) = filter (has_key E sha k \<circ> fst) (iw_runs w)"
proof -
  have lock: "lock_of k' \<noteq> k" "k \<noteq> lock_of k'" for k' using assms(3) by (auto simp: lock_of_def suffix_def)
  show "iw_kv (idem_act a p i w) k = iw_kv w k"
    "filter (has_key E sha k \<circ> fst) (iw_runs (idem_act a p i w)) = filter (has_key E sha k \<circ> fst) (iw_runs w)"
    using assms(1,2) lock by (cases "snd (iw_conns w ! i)"; auto simp: idem_act_def phase_ok_def has_key_def idem_SetNX_def idem_Set_def idem_Del_def)+
qed

lemma kept_act:
  assumes sha: "\<And>x. sha x \<noteq> []" and kept: "kept E sha k e until s w" and i: "i < length (iw_conns w)"
    and a: "a = Served \<or> \<not> has_key E sha k (fst (iw_conns w ! i))" and k: "\<not> suffix '':lock'' k" and time: "iw_clock w < until"
  shows "kept E sha k e until s (idem_act a p i w)"
proof -
  obtain r ph where c: "iw_conns w ! i = (r, ph)" by (cases "iw_conns w ! i")
  have aut: "authentic E sha w" using kept by (simp add: kept_def)
  have "(r, ph) \<in> set (iw_conns w)" using i c by (metis nth_mem)
  then have ph: "phase_ok E sha (iw_runs w) r ph" using aut unfolding authentic_def by force
  note aut' = authentic_act [where sha = sha, OF sha aut i, of a p]
  show ?thesis
  proof (cases "has_key E sha k r")
    case True
    then obtain fp where kf: "keyed E sha r = Some (k, fp)" unfolding has_key_def by blast
    have "replied E sha k e s w i" using kept i by (simp add: kept_def)
    then consider "ph = Looking k fp" | x where "ph = Answered x" using kf c by (auto simp: replied_def) (metis snd_conv)
    then show ?thesis
    proof cases
      case 1
      have "entry_ok E sha (iw_runs w) k e" using kept by (auto simp: kept_def authentic_def)
      moreover have "idem_Get (iw_clock w) (iw_kv w) k = Some (StoredEntry e)" using kept time by (simp add: kept_def idem_Get_def)
      moreover have "a = Served" using a True c by simp
      ultimately show ?thesis using c 1 kf found_reply [OF sha]
        by (intro kept_move [OF kept aut', where i = i]) (auto simp: idem_act_def)
    next
      case 2
      then show ?thesis using kept c by (simp add: idem_act_def)
    qed
  next
    case False
    obtain ph' where "iw_conns (idem_act a p i w) = (iw_conns w)[i := (fst (iw_conns w ! i), ph')]" by (rule act_shape)
    then show ?thesis
      by (rule kept_move [OF kept aut']) (use False c ph k act_elsewhere [where w = w and i = i and k = k and E = E and sha = sha] in \<open>auto simp: has_key_def\<close>)
  qed
qed

lemma kept_step:
  assumes sha: "\<And>x. sha x \<noteq> []" and k: "\<not> suffix '':lock'' k" and step: "idem_step E sha (has_key E sha k) prompt w w'"
    and kept: "kept E sha k e until s w" and time: "iw_clock w < until"
  shows "kept E sha k e until s w'"
  using step
proof cases
  case (arrive r)
  have aut: "authentic E sha w'" using authentic_step [where sha = sha, OF sha step] kept by (simp add: kept_def)
  have "replied E sha k e s w' i" if "i < length (iw_conns w')" for i
  proof (cases "i < length (iw_conns w)")
    case True
    then show ?thesis using kept by (auto simp: arrive kept_def replied_def nth_append)
  next
    case False
    then have "iw_conns w' ! i = (r, Idempotency E sha True r)" using that by (simp add: arrive nth_append)
    then show ?thesis by (cases rule: entered [of E sha r]) (simp_all add: replied_def)
  qed
  then show ?thesis using kept aut by (simp add: kept_def arrive)
next
  case (act i a p)
  then show ?thesis using kept_act [where sha = sha and E = E and k = k, OF sha kept _ _ k time, of i a p] by simp
next
  case (tick t)
  then show ?thesis using kept by (simp add: kept_def authentic_def replied_def)
qed

lemma clock_act [simp]: "iw_clock (idem_act a p i w) = iw_clock w"
  by (simp add: idem_act_def idem_SetNX_def split: phase.split prod.split)

lemma length_act [simp]: "length (iw_conns (idem_act a p i w)) = length (iw_conns w)"
  by (simp add: idem_act_def idem_SetNX_def split: phase.split prod.split)

lemma clock_step: "idem_step E sha steady prompt w w' \<Longrightarrow> iw_clock w \<le> iw_clock w'"
  by (erule idem_step.cases) simp_all

text \<open>
  C36: a stored answer is final for a day.  Once the 2xx answer of a key is stored and no request of the key is
  past its lookup, then as long as the store serves the calls for requests of that key, and until the answer expires, no handler runs for the key again: every later request of the key
  that is answered gets the stored answer, or 422 if it differs from the original request in method, path or body.
  Requests of other keys may do anything, and their calls of the store may fail.  The key must not end in
  \<open>:lock\<close>, since it would then be the lock of another key.
\<close>

theorem stored_answer_final:
  assumes sha: "\<And>x. sha x \<noteq> []" and k: "\<not> suffix '':lock'' k"
    and before: "(idem_step E sha steady prompt)\<^sup>*\<^sup>* (idem_start t) s" and stored: "iw_kv s k = Some (StoredEntry e, until)"
    and calm: "\<And>r ph fp. (r, ph) \<in> set (iw_conns s) \<Longrightarrow> keyed E sha r = Some (k, fp) \<Longrightarrow> ph = Looking k fp \<or> (\<exists>x. ph = Answered x)"
    and after: "(idem_step E sha (has_key E sha k) prompt')\<^sup>*\<^sup>* s w" and time: "iw_clock w < until"
  shows "filter (has_key E sha k \<circ> fst) (iw_runs w) = filter (has_key E sha k \<circ> fst) (iw_runs s)
    \<and> (\<forall>i fp. length (iw_conns s) \<le> i \<and> i < length (iw_conns w) \<and> keyed E sha (fst (iw_conns w ! i)) = Some (k, fp) \<longrightarrow>
         snd (iw_conns w ! i) = Looking k fp \<or> snd (iw_conns w ! i) = Answered (reply e fp))"
proof -
  have start: "kept E sha k e until s s"
    using authentic_runs [where sha = sha, OF sha before start_authentic] stored calm
    by (auto simp: kept_def replied_def) (metis nth_mem prod.collapse)
  have "iw_clock w < until \<longrightarrow> kept E sha k e until s w" using after
  proof (induction rule: rtranclp_induct)
    case (step u v)
    then show ?case using kept_step [where sha = sha and k = k and E = E, OF sha k step(2)] clock_step [OF step(2)] by fastforce
  qed (use start in simp)
  then have "kept E sha k e until s w" using time by blast
  then show ?thesis by (auto simp: kept_def replied_def)
qed

section \<open>One at a time\<close>

definition exclusive :: "env \<Rightarrow> (string \<Rightarrow> string) \<Rightarrow> idem_world \<Rightarrow> bool" where
  "exclusive E sha w \<longleftrightarrow> timely (iw_clock w) w
     \<and> (\<forall>i < length (iw_conns w). \<forall>j < length (iw_conns w). \<forall>k. holds_lock (snd (iw_conns w ! i)) = Some k \<longrightarrow> holds_lock (snd (iw_conns w ! j)) = Some k \<longrightarrow> i = j)
     \<and> (\<forall>c \<in> set (iw_conns w). snd c = Passing \<longrightarrow> keyed E sha (fst c) = None)"

lemma not_passing: "after_get k fp Served found \<noteq> Passing" "holds_lock (after_get k fp a found) = None"
  by (simp_all add: after_get_def holds_lock_def split: option.split stored.split)

lemma ttl_pos [simp]: "0 < idempotencyLockTTL" "0 < idempotencyCacheTTL"
  by (simp_all add: idempotencyLockTTL_def idempotencyCacheTTL_def)

lemma get_new: "0 < d \<Longrightarrow> idem_Get t (kv(x \<mapsto> (v, t + d))) y = (if y = x then Some v else idem_Get t kv y)"
  by (simp add: idem_Get_def)

text \<open>A step that gives its request no lock and leaves the other locks alive.\<close>

lemma exclusive_move:
  assumes "exclusive E sha w" "iw_conns w' = (iw_conns w)[i := (fst (iw_conns w ! i), ph)]" "iw_clock w' = iw_clock w"
    "ph = Passing \<Longrightarrow> keyed E sha (fst (iw_conns w ! i)) = None"
    "\<And>k. holds_lock ph = Some k \<Longrightarrow> idem_Get (iw_clock w) (iw_kv w') (lock_of k) \<noteq> None
       \<and> (\<forall>j < length (iw_conns w). j \<noteq> i \<longrightarrow> holds_lock (snd (iw_conns w ! j)) \<noteq> Some k)"
    "\<And>j k. j < length (iw_conns w) \<Longrightarrow> j \<noteq> i \<Longrightarrow> holds_lock (snd (iw_conns w ! j)) = Some k \<Longrightarrow> idem_Get (iw_clock w) (iw_kv w') (lock_of k) \<noteq> None"
  shows "exclusive E sha w'"
proof -
  have at: "iw_conns w' ! j = (if j = i then (fst (iw_conns w ! i), ph) else iw_conns w ! j)" if "j < length (iw_conns w)" for j
    using that by (simp add: assms(2) nth_list_update)
  have len: "length (iw_conns w') = length (iw_conns w)" by (simp add: assms(2))
  have "timely (iw_clock w') w'"
    unfolding timely_def all_set_conv_all_nth len using assms(3,5,6) at by (auto split: if_splits)
  moreover have "i' = j'" if "i' < length (iw_conns w)" "j' < length (iw_conns w)" "holds_lock (snd (iw_conns w' ! i')) = Some k"
    "holds_lock (snd (iw_conns w' ! j')) = Some k" for i' j' k
    using that assms(1,5) at by (auto simp: exclusive_def split: if_splits)
  moreover have "keyed E sha (fst c) = None" if "c \<in> set (iw_conns w')" "snd c = Passing" for c
    using that assms(1,4) set_update_subset_insert [of "iw_conns w" i] unfolding assms(2) exclusive_def by fastforce
  ultimately show ?thesis unfolding exclusive_def len by blast
qed


text \<open>A step that leaves the locks as they are.\<close>

lemma exclusive_quiet:
  assumes ok: "exclusive E sha w" and w': "iw_conns w' = (iw_conns w)[i := (fst (iw_conns w ! i), ph)]" "iw_clock w' = iw_clock w" "iw_kv w' = iw_kv w"
    and i: "i < length (iw_conns w)" and ph: "ph \<noteq> Passing" "holds_lock ph = None \<or> holds_lock ph = holds_lock (snd (iw_conns w ! i))"
  shows "exclusive E sha w'"
proof (rule exclusive_move [OF ok w'(1,2)])
  have live: "idem_Get (iw_clock w) (iw_kv w) (lock_of k) \<noteq> None" if "j < length (iw_conns w)" "holds_lock (snd (iw_conns w ! j)) = Some k" for j k
    using that ok unfolding exclusive_def timely_def by (meson nth_mem)
  show "idem_Get (iw_clock w) (iw_kv w') (lock_of k) \<noteq> None" if "j < length (iw_conns w)" "holds_lock (snd (iw_conns w ! j)) = Some k" for j k
    using live [OF that] by (simp only: w'(3) not_False_eq_True)
  show "idem_Get (iw_clock w) (iw_kv w') (lock_of k) \<noteq> None \<and> (\<forall>j < length (iw_conns w). j \<noteq> i \<longrightarrow> holds_lock (snd (iw_conns w ! j)) \<noteq> Some k)"
    if "holds_lock ph = Some k" for k
  proof -
    have h: "holds_lock (snd (iw_conns w ! i)) = Some k" using ph(2) that by simp
    then show ?thesis using live [OF i h] ok i unfolding exclusive_def w'(3) by blast
  qed
qed (use ph in simp_all)

lemma exclusive_act:
  assumes ok: "exclusive E sha w" and aut: "authentic E sha w" and i: "i < length (iw_conns w)"
  shows "exclusive E sha (idem_act Served p i w)"
proof -
  obtain r ph where c: "iw_conns w ! i = (r, ph)" by (cases "iw_conns w ! i")
  have mem: "(r, ph) \<in> set (iw_conns w)" using i c by (metis nth_mem)
  then have ph: "phase_ok E sha (iw_runs w) r ph" using aut unfolding authentic_def by force
  have live: "idem_Get (iw_clock w) (iw_kv w) (lock_of k) \<noteq> None" if "j < length (iw_conns w)" "holds_lock (snd (iw_conns w ! j)) = Some k" for j k
    using that ok unfolding exclusive_def timely_def by (meson nth_mem)
  have one: "j = i" if "j < length (iw_conns w)" "holds_lock (snd (iw_conns w ! j)) = Some k" "holds_lock ph = Some k" for j k
    using that ok i c unfolding exclusive_def by (metis snd_conv)
  show ?thesis
  proof (cases ph)
    case (Looking k fp)
    then show ?thesis using c i by (intro exclusive_quiet [OF ok, where i = i and ph = "after_get k fp Served (idem_Get (iw_clock w) (iw_kv w) k)"]) (simp_all add: idem_act_def not_passing)
  next
    case (Locking k fp)
    let ?free = "idem_Get (iw_clock w) (iw_kv w) (lock_of k) = None"
    let ?ph = "if ?free then Leading k fp else Answered (Refused 409 ''idempotency_in_flight'')"
    show ?thesis
    proof (rule exclusive_move [OF ok, where i = i and ph = ?ph])
      show "iw_conns (idem_act Served p i w) = (iw_conns w)[i := (fst (iw_conns w ! i), ?ph)]"
        using c Locking by (simp add: idem_act_def idem_SetNX_def)
      have kv: "iw_kv (idem_act Served p i w) = (if ?free then (iw_kv w)(lock_of k \<mapsto> (StoredMark, iw_clock w + idempotencyLockTTL)) else iw_kv w)"
        using c Locking by (simp add: idem_act_def idem_SetNX_def)
      show "idem_Get (iw_clock w) (iw_kv (idem_act Served p i w)) (lock_of k') \<noteq> None"
        if "j < length (iw_conns w)" "holds_lock (snd (iw_conns w ! j)) = Some k'" for j k'
        using live [OF that] unfolding kv by (simp add: get_new)
      show "idem_Get (iw_clock w) (iw_kv (idem_act Served p i w)) (lock_of k') \<noteq> None
         \<and> (\<forall>j < length (iw_conns w). j \<noteq> i \<longrightarrow> holds_lock (snd (iw_conns w ! j)) \<noteq> Some k')" if "holds_lock ?ph = Some k'" for k'
      proof -
        have "?free" "k' = k" using that by (auto simp: holds_lock_def split: if_splits)
        then show ?thesis using live [of _ k] unfolding kv by (auto simp: get_new)
      qed
    qed (simp_all split: if_splits)
  next
    case Passing
    then show ?thesis using c i by (intro exclusive_quiet [OF ok, where i = i and ph = "Answered (Handled p)"]) (simp_all add: idem_act_def holds_lock_def)
  next
    case (Leading k fp)
    then show ?thesis using c i by (intro exclusive_quiet [OF ok, where i = i and ph = "Releasing k fp p"]) (simp_all add: idem_act_def holds_lock_def)
  next
    case (Releasing k fp q)
    have "k' \<noteq> k" if "j < length (iw_conns w)" "j \<noteq> i" "holds_lock (snd (iw_conns w ! j)) = Some k'" for j k'
      using one [OF that(1), of k] that Releasing by (auto simp: holds_lock_def)
    then have "idem_Get (iw_clock w) (idem_Del (lock_of k) (iw_kv w)) (lock_of k') \<noteq> None"
      if "j < length (iw_conns w)" "j \<noteq> i" "holds_lock (snd (iw_conns w ! j)) = Some k'" for j k'
      using that live [OF that(1,3)] by (auto simp: idem_Get_def idem_Del_def)
    then show ?thesis using c Releasing
      by (intro exclusive_move [OF ok, where i = i and ph = "if classifyStatus (hp_Status q) = ''ok'' then Caching k fp q else Answered (Handled q)"]) (auto simp: idem_act_def holds_lock_def split: if_splits)
  next
    case (Caching k fp q)
    have "idem_Get (iw_clock w) (idem_Set (iw_clock w) k v idempotencyCacheTTL (iw_kv w)) (lock_of k') \<noteq> None"
      if "j < length (iw_conns w)" "holds_lock (snd (iw_conns w ! j)) = Some k'" for j k' v
      using live [OF that] ttl_pos(2) by (auto simp: idem_Get_def idem_Set_def)
    then show ?thesis using c Caching
      by (intro exclusive_move [OF ok, where i = i and ph = "Answered (Handled q)"]) (auto simp: idem_act_def holds_lock_def)
  next
    case (Answered x)
    then show ?thesis using ok c by (simp add: idem_act_def)
  qed
qed

lemma exclusive_runs:
  assumes sha: "\<And>x. sha x \<noteq> []" and run: "(idem_step E sha (\<lambda>_. True) True)\<^sup>*\<^sup>* (idem_start t) w"
  shows "exclusive E sha w"
  using run
proof (induction rule: rtranclp_induct)
  case base
  then show ?case by (simp add: exclusive_def timely_def idem_start_def)
next
  case (step u v)
  have aut: "authentic E sha u" by (rule authentic_runs [where sha = sha, OF sha step(1) start_authentic])
  from step(2) show ?case
  proof cases
    case (arrive r)
    have new: "holds_lock (Idempotency E sha True r) = None" "Idempotency E sha True r = Passing \<longrightarrow> keyed E sha r = None"
      by (rule entered [of E sha r]; simp add: holds_lock_def)+
    have "holds_lock (snd (iw_conns v ! i)) = Some k \<Longrightarrow> i < length (iw_conns v) \<Longrightarrow> i < length (iw_conns u) \<and> iw_conns v ! i = iw_conns u ! i" for i k
      using new(1) by (cases "i = length (iw_conns u)") (auto simp: arrive nth_append)
    then have "i = j" if "i < length (iw_conns v)" "j < length (iw_conns v)" "holds_lock (snd (iw_conns v ! i)) = Some k" "holds_lock (snd (iw_conns v ! j)) = Some k" for i j k
      using that step(3) unfolding exclusive_def by metis
    then show ?thesis using new step(3) unfolding exclusive_def timely_def by (auto simp: arrive)
  next
    case (act i a p)
    then show ?thesis using exclusive_act [OF step(3) aut] by simp
  next
    case (tick t)
    then show ?thesis using step(3) by (auto simp: exclusive_def timely_def)
  qed
qed

text \<open>The handler of the request is running: with the lock, or without any protection.\<close>

definition running :: "phase \<Rightarrow> bool" where
  "running ph \<longleftrightarrow> ph = Passing \<or> (\<exists>k fp. ph = Leading k fp)"

text \<open>
  C37: a key runs one handler at a time.  While the store serves and no handler outlives its lock, two
  requests of the same tenant and key are never both in their handlers.
\<close>

theorem one_handler_per_key:
  assumes sha: "\<And>x. sha x \<noteq> []" and run: "(idem_step E sha (\<lambda>_. True) True)\<^sup>*\<^sup>* (idem_start t) w"
    and ij: "i < length (iw_conns w)" "j < length (iw_conns w)"
    and key: "has_key E sha k (fst (iw_conns w ! i))" "has_key E sha k (fst (iw_conns w ! j))"
    and both: "running (snd (iw_conns w ! i))" "running (snd (iw_conns w ! j))"
  shows "i = j"
proof -
  have ex: "exclusive E sha w" by (rule exclusive_runs [where sha = sha, OF sha run])
  have aut: "authentic E sha w" by (rule authentic_runs [where sha = sha, OF sha run start_authentic])
  have holds: "holds_lock (snd (iw_conns w ! l)) = Some k"
    if "l < length (iw_conns w)" "has_key E sha k (fst (iw_conns w ! l))" "running (snd (iw_conns w ! l))" for l
  proof -
    have mem: "iw_conns w ! l \<in> set (iw_conns w)" using that(1) by simp
    then have "snd (iw_conns w ! l) \<noteq> Passing" using ex that(2) unfolding exclusive_def has_key_def by fastforce
    then have "\<exists>k' fp. snd (iw_conns w ! l) = Leading k' fp" using that(3) unfolding running_def by blast
    then obtain k' fp where "snd (iw_conns w ! l) = Leading k' fp" by blast
    moreover have "phase_ok E sha (iw_runs w) (fst (iw_conns w ! l)) (snd (iw_conns w ! l))" using aut mem unfolding authentic_def by blast
    ultimately show ?thesis using that(2) by (auto simp: phase_ok_def has_key_def holds_lock_def)
  qed
  show ?thesis using holds [OF ij(1) key(1) both(1)] holds [OF ij(2) key(2) both(2)] ex ij unfolding exclusive_def by blast
qed

section \<open>What it does not guarantee\<close>

definition demo_pay_request :: HttpRequest where
  "demo_pay_request = \<lparr> hr_Method = ''POST'', hr_Path = ''/api/v1/payments'', hr_FullPath = ''/api/v1/payments'', hr_Key = ''k1'',
     hr_Tenant = TenantUUID 11, hr_Body = Some ''{}'' \<rparr>"

definition demo_paid :: HttpResponse where
  "demo_paid = \<lparr> hp_Status = 201, hp_ContentType = ''application/json'', hp_Body = ''{}'' \<rparr>"

definition demo_sha :: "string \<Rightarrow> string" where
  "demo_sha s = CHR ''f'' # s"

fun play :: "nat list \<Rightarrow> idem_world \<Rightarrow> idem_world" where
  "play [] w = w"
| "play (i # is') w = play is' (idem_act Served demo_paid i w)"

text \<open>Two copies of the request arrive, and take the steps of the list.\<close>

definition demo_two :: idem_world where
  "demo_two = (idem_start 0)\<lparr>iw_conns := [(demo_pay_request, Idempotency std_env demo_sha True demo_pay_request),
     (demo_pay_request, Idempotency std_env demo_sha True demo_pay_request)]\<rparr>"

lemma demo_two_runs: "(idem_step std_env demo_sha steady prompt)\<^sup>*\<^sup>* (idem_start 0) demo_two"
proof -
  let ?c = "(demo_pay_request, Idempotency std_env demo_sha True demo_pay_request)"
  have "idem_step std_env demo_sha steady prompt (idem_start 0) ((idem_start 0)\<lparr>iw_conns := [?c]\<rparr>)"
    using arrive [of std_env demo_sha steady prompt "idem_start 0" demo_pay_request] by (simp add: idem_start_def)
  moreover have "idem_step std_env demo_sha steady prompt ((idem_start 0)\<lparr>iw_conns := [?c]\<rparr>) demo_two"
    using arrive [of std_env demo_sha steady prompt "(idem_start 0)\<lparr>iw_conns := [?c]\<rparr>" demo_pay_request] by (simp add: demo_two_def)
  ultimately show ?thesis by (meson converse_rtranclp_into_rtranclp r_into_rtranclp)
qed

lemma play_runs: "list_all (\<lambda>i. i < length (iw_conns w)) is' \<Longrightarrow> (idem_step E sha steady prompt)\<^sup>*\<^sup>* w (play is' w)"
proof (induction is' w rule: play.induct)
  case (2 i is' w)
  then have "idem_step E sha steady prompt w (idem_act Served demo_paid i w)" by (intro act) simp_all
  then show ?case using 2 by (simp add: converse_rtranclp_into_rtranclp)
qed simp

text \<open>
  The lookup is not repeated once the lock is taken: a request that looked before the first one stored its
  answer, and locks after it, runs the handler again, with no fault of the store and no lock expired.
\<close>

theorem handler_runs_twice:
  "\<exists>w. (idem_step std_env demo_sha (\<lambda>_. True) True)\<^sup>*\<^sup>* (idem_start 0) w
     \<and> iw_runs w = [(demo_pay_request, demo_paid), (demo_pay_request, demo_paid)]"
proof -
  have "iw_runs (play [0, 1, 0, 0, 0, 0, 1, 1] demo_two) = [(demo_pay_request, demo_paid), (demo_pay_request, demo_paid)]" by code_simp
  moreover have "(idem_step std_env demo_sha (\<lambda>_. True) True)\<^sup>*\<^sup>* (idem_start 0) (play [0, 1, 0, 0, 0, 0, 1, 1] demo_two)"
    by (rule rtranclp_trans [OF demo_two_runs play_runs]) (simp add: demo_two_def)
  ultimately show ?thesis by blast
qed

text \<open>A key beyond the limit satisfies the guard of the payment routes and is not deduplicated.\<close>

theorem long_key_passes:
  assumes "idempotencyKeyMaxLen < length (hr_Key r)"
  shows "RequireIdempotencyKey r = None \<and> Idempotency E sha store r = Passing"
  using assms by (auto simp: RequireIdempotencyKey_def Idempotency_def)

section \<open>Examples\<close>

lemma demo_sha_nonempty: "demo_sha x \<noteq> []"
  by (simp add: demo_sha_def)

lemma demo_reached: "list_all (\<lambda>i. i < 2) is' \<Longrightarrow> (idem_step std_env demo_sha steady prompt)\<^sup>*\<^sup>* (idem_start 0) (play is' demo_two)"
  by (rule rtranclp_trans [OF demo_two_runs play_runs]) (simp add: demo_two_def numeral_2_eq_2)

definition demo_stored :: idem_world where
  "demo_stored = play [0, 0, 0, 0, 0] demo_two"

definition demo_key :: string where
  "demo_key = ''tally:idem:11:k1''"

definition demo_fp :: string where
  "demo_fp = demo_sha (''POST'' @ [CHR 0x00] @ ''/api/v1/payments'' @ [CHR 0x00] @ ''{}'')"

lemma demo_keyed: "keyed std_env demo_sha demo_pay_request = Some (demo_key, demo_fp)"
  by code_simp

lemma demo_stored_kv: "iw_kv demo_stored demo_key = Some (StoredEntry (entry_of demo_fp demo_paid), seconds 86400)"
  by code_simp

theorem replay_authentic_witness:
  "\<exists>r'. (r', demo_paid) \<in> set (iw_runs (play [1] demo_stored)) \<and> hr_Tenant r' = TenantUUID 11 \<and> hr_Key r' = ''k1''"
proof -
  have "snd (iw_conns (play [1] demo_stored) ! 1) = Answered (Replayed demo_paid)" "fst (iw_conns (play [1] demo_stored) ! 1) = demo_pay_request"
    "1 < length (iw_conns (play [1] demo_stored))"
    by code_simp+
  then have mem: "(demo_pay_request, Answered (Replayed demo_paid)) \<in> set (iw_conns (play [1] demo_stored))" by (metis nth_mem prod.collapse)
  have run: "(idem_step std_env demo_sha (\<lambda>_. True) True)\<^sup>*\<^sup>* (idem_start 0) (play [1] demo_stored)"
    using demo_reached [of "[0, 0, 0, 0, 0, 1]"] by (simp add: demo_stored_def)
  have "list_all (\<lambda>c. case hr_Tenant (fst c) of TenantText _ \<Rightarrow> False | _ \<Rightarrow> True) (iw_conns (play [1] demo_stored))" by code_simp
  then have ids: "\<forall>c \<in> set (iw_conns (play [1] demo_stored)). \<forall>x. hr_Tenant (fst c) \<noteq> TenantText x"
    by (auto simp: list_all_iff split: tenant_ctx.splits)
  have "hr_Tenant demo_pay_request = TenantUUID 11" "hr_Key demo_pay_request = ''k1''" by (simp_all add: demo_pay_request_def)
  then show ?thesis using replay_authentic [where sha = demo_sha, OF std_runtime demo_sha_nonempty run ids mem] by (simp only: answer.case) metis
qed

definition demo_again :: idem_world where
  "demo_again = idem_act Served demo_paid 2 (demo_stored\<lparr>iw_conns := iw_conns demo_stored @ [(demo_pay_request, Idempotency std_env demo_sha True demo_pay_request)]\<rparr>)"

theorem stored_answer_final_witness:
  "snd (iw_conns demo_again ! 2) = Looking demo_key demo_fp \<or> snd (iw_conns demo_again ! 2) = Answered (Replayed demo_paid)"
proof -
  have before: "(idem_step std_env demo_sha (\<lambda>_. True) True)\<^sup>*\<^sup>* (idem_start 0) demo_stored"
    unfolding demo_stored_def by (rule demo_reached) simp
  have conns: "length (iw_conns demo_stored) = 2"
    "list_all (\<lambda>c. case snd c of Answered _ \<Rightarrow> True | Looking k fp \<Rightarrow> keyed std_env demo_sha (fst c) = Some (k, fp) | _ \<Rightarrow> False) (iw_conns demo_stored)"
    by code_simp+
  have calm: "ph = Looking demo_key fp \<or> (\<exists>x. ph = Answered x)"
    if "(r, ph) \<in> set (iw_conns demo_stored)" "keyed std_env demo_sha r = Some (demo_key, fp)" for r ph fp
    using bspec [OF conns(2) [unfolded list_all_iff] that(1)] that(2) by (cases ph) auto
  let ?w = "demo_stored\<lparr>iw_conns := iw_conns demo_stored @ [(demo_pay_request, Idempotency std_env demo_sha True demo_pay_request)]\<rparr>"
  have "idem_step std_env demo_sha (has_key std_env demo_sha demo_key) True demo_stored ?w" by (rule arrive)
  moreover have "idem_step std_env demo_sha (has_key std_env demo_sha demo_key) True ?w demo_again"
    unfolding demo_again_def by (rule act) (simp_all add: conns(1))
  ultimately have after: "(idem_step std_env demo_sha (has_key std_env demo_sha demo_key) True)\<^sup>*\<^sup>* demo_stored demo_again"
    by (meson converse_rtranclp_into_rtranclp r_into_rtranclp)
  have w: "fst (iw_conns demo_again ! 2) = demo_pay_request" "length (iw_conns demo_again) = 3" "iw_clock demo_again < seconds 86400" "\<not> suffix '':lock'' demo_key"
    by code_simp+
  note final = stored_answer_final [where sha = demo_sha, OF demo_sha_nonempty w(4) before demo_stored_kv calm after w(3), simplified]
  then have "snd (iw_conns demo_again ! 2) = Looking demo_key demo_fp \<or> snd (iw_conns demo_again ! 2) = Answered (reply (entry_of demo_fp demo_paid) demo_fp)"
    using w(1,2) conns(1) demo_keyed by simp
  moreover have "reply (entry_of demo_fp demo_paid) demo_fp = Replayed demo_paid" by (simp add: reply_def entry_of_def)
  ultimately show ?thesis by simp
qed

theorem one_handler_per_key_witness:
  "running (snd (iw_conns (play [0, 0, 1] demo_two) ! 0)) \<and> \<not> running (snd (iw_conns (play [0, 0, 1] demo_two) ! 1))"
proof -
  let ?w = "play [0, 0, 1] demo_two"
  have w: "length (iw_conns ?w) = 2" "fst (iw_conns ?w ! 0) = demo_pay_request" "fst (iw_conns ?w ! 1) = demo_pay_request"
    "case snd (iw_conns ?w ! 0) of Leading _ _ \<Rightarrow> True | _ \<Rightarrow> False"
    by code_simp+
  have run: "running (snd (iw_conns ?w ! 0))" using w(4) by (auto simp: running_def split: phase.splits)
  have "(idem_step std_env demo_sha (\<lambda>_. True) True)\<^sup>*\<^sup>* (idem_start 0) ?w" by (rule demo_reached) simp
  note reached = this
  have key: "has_key std_env demo_sha demo_key demo_pay_request" by (simp add: has_key_def demo_keyed)
  have len: "0 < length (iw_conns ?w)" "1 < length (iw_conns ?w)" using w(1) by linarith+
  have keys: "has_key std_env demo_sha demo_key (fst (iw_conns ?w ! 0))" "has_key std_env demo_sha demo_key (fst (iw_conns ?w ! 1))"
    by (simp_all only: w(2,3) key)
  have "\<not> running (snd (iw_conns ?w ! 1))"
    using one_handler_per_key [where sha = demo_sha, OF demo_sha_nonempty reached len keys run] zero_neq_one by blast
  then show ?thesis using run by blast
qed

end
