(* ===== verification/Outbox.thy ===== *)
theory Outbox
  imports Record_Movement
begin

text \<open>
  The relay of the outbox (\<open>internal/adapter/nats/outbox_worker.go\<close>, \<open>internal/adapter/repo/event_outbox/store.go\<close>,
  \<open>Publish\<close> in \<open>publisher.go\<close>): events written with a movement are published to a broker by a worker on every
  replica.  The broker and the failures of statements are inputs.
\<close>

section \<open>The store\<close>

definition MaxOutboxAttempts :: nat where "MaxOutboxAttempts = 10"
definition outboxDrainLimit :: nat where "outboxDrainLimit = 100"

record OutboxMsg =
  om_ID :: uuid
  om_Subject :: string
  om_Payload :: eventEnvelope

definition outbox_msg :: "OutboxRow \<Rightarrow> OutboxMsg" where
  "outbox_msg r = \<lparr> om_ID = ob_id r, om_Subject = ob_subject r, om_Payload = ob_payload r \<rparr>"

definition pending :: "OutboxRow \<Rightarrow> bool" where
  "pending r \<longleftrightarrow> ob_published_at r = None \<and> ob_attempts r < MaxOutboxAttempts"

text \<open>The transaction ends with the query, and its row locks with it.\<close>

definition Drain :: "nat \<Rightarrow> db \<Rightarrow> OutboxMsg list" where
  "Drain limit s = map outbox_msg (take limit (sort_key ob_created_at (filter pending (event_outbox s))))"

definition MarkPublished :: "env \<Rightarrow> uuid \<Rightarrow> db \<Rightarrow> db" where
  "MarkPublished E i s = s\<lparr>event_outbox := update_where (\<lambda>r. ob_id r = i) (\<lambda>r. r\<lparr>ob_published_at := Some (now E)\<rparr>) (event_outbox s)\<rparr>"

definition RecordAttemptError :: "uuid \<Rightarrow> string \<Rightarrow> db \<Rightarrow> db" where
  "RecordAttemptError i msg s = s\<lparr>event_outbox := update_where (\<lambda>r. ob_id r = i)
     (\<lambda>r. r\<lparr>ob_attempts := Suc (ob_attempts r), ob_last_error := msg\<rparr>) (event_outbox s)\<rparr>"

text \<open>The number of pending rows and the age of the oldest (here in nanoseconds).\<close>

definition PendingStats :: "env \<Rightarrow> db \<Rightarrow> nat \<times> int" where
  "PendingStats E s =
     (let rows = filter pending (event_outbox s) in
      (length rows, if rows = [] then 0 else now E - Min (ob_created_at ` set rows)))"

section \<open>The worker\<close>

text \<open>
  The publisher: connected, or the stand-in used when no broker could be reached.  \<open>luck\<close> says how one row fares:
  the error of the broker, if any; whether a publication that failed was received all the same; and whether
  the statement after it succeeds.
\<close>

datatype publisher = JetStream | NoOp

record luck =
  lk_error :: "string option"
  lk_received :: bool
  lk_sql :: bool

record relay =
  rl_db :: db
  rl_sent :: "OutboxMsg list"
  rl_claims :: "nat \<Rightarrow> OutboxMsg list"

definition Publish :: "publisher \<Rightarrow> luck \<Rightarrow> OutboxMsg \<Rightarrow> relay \<Rightarrow> string option \<times> relay" where
  "Publish pub l m w =
     (case pub of
        NoOp \<Rightarrow> (None, w)
      | JetStream \<Rightarrow> (lk_error l, if lk_error l = None \<or> lk_received l then w\<lparr>rl_sent := rl_sent w @ [m]\<rparr> else w))"

definition processRow :: "env \<Rightarrow> publisher \<Rightarrow> luck \<Rightarrow> OutboxMsg \<Rightarrow> relay \<Rightarrow> relay" where
  "processRow E pub l m w =
     (case Publish pub l m w of
        (Some e, w1) \<Rightarrow> if lk_sql l then w1\<lparr>rl_db := RecordAttemptError (om_ID m) e (rl_db w1)\<rparr> else w1
      | (None, w1) \<Rightarrow> if lk_sql l then w1\<lparr>rl_db := MarkPublished E (om_ID m) (rl_db w1)\<rparr> else w1)"

text \<open>One tick of a lone worker; \<open>fails\<close> when the query fails.\<close>

definition drainOnce :: "env \<Rightarrow> publisher \<Rightarrow> bool \<Rightarrow> (uuid \<Rightarrow> luck) \<Rightarrow> relay \<Rightarrow> relay" where
  "drainOnce E pub fails l w =
     (if fails then w else foldl (\<lambda>w m. processRow E pub (l (om_ID m)) m w) w (Drain outboxDrainLimit (rl_db w)))"

section \<open>Replicas and the shop, interleaved\<close>

text \<open>
  A replica claims what its query returns and then works through it row by row; in between the other replicas
  do the same, and the shop adds rows with ids of their own and does anything else.
\<close>

inductive relay_step :: "env \<Rightarrow> publisher \<Rightarrow> relay \<Rightarrow> relay \<Rightarrow> bool" for E pub where
  claim: "rl_claims w n = [] \<Longrightarrow> relay_step E pub w (w\<lparr>rl_claims := (rl_claims w)(n := Drain outboxDrainLimit (rl_db w))\<rparr>)"
| work: "rl_claims w n = m # ms \<Longrightarrow> relay_step E pub w ((processRow (E\<lparr>now := t\<rparr>) pub l m w)\<lparr>rl_claims := (rl_claims w)(n := ms)\<rparr>)"
| crash: "relay_step E pub w (w\<lparr>rl_claims := (rl_claims w)(n := [])\<rparr>)"
| shop: "event_outbox s' = event_outbox (rl_db w) @ rows \<Longrightarrow> distinct (map ob_id (event_outbox s')) \<Longrightarrow> list_all (\<lambda>r. ob_published_at r = None) rows \<Longrightarrow> relay_step E pub w (w\<lparr>rl_db := s'\<rparr>)"

definition relay_start :: relay where
  "relay_start = \<lparr> rl_db = empty_db, rl_sent = [], rl_claims = (\<lambda>_. []) \<rparr>"

section \<open>Nothing is lost\<close>

lemma updated_msgs:
  "(\<And>r. outbox_msg (f r) = outbox_msg r) \<Longrightarrow> map outbox_msg (update_where p f rows) = map outbox_msg rows"
  by (simp add: update_where_def)

lemma store_msgs [simp]:
  "map outbox_msg (event_outbox (MarkPublished E i s)) = map outbox_msg (event_outbox s)"
  "map outbox_msg (event_outbox (RecordAttemptError i e s)) = map outbox_msg (event_outbox s)"
  by (simp_all add: MarkPublished_def RecordAttemptError_def updated_msgs outbox_msg_def)

definition msgs :: "relay \<Rightarrow> OutboxMsg list" where
  "msgs w = map outbox_msg (event_outbox (rl_db w))"

lemma Publish_frame:
  assumes "Publish pub l m w = (e, w1)"
  shows "rl_db w1 = rl_db w" "rl_claims w1 = rl_claims w" "set (rl_sent w) \<subseteq> set (rl_sent w1)" "set (rl_sent w1) \<subseteq> insert m (set (rl_sent w))"
    "pub = JetStream \<Longrightarrow> e = None \<Longrightarrow> m \<in> set (rl_sent w1)"
  using assms by (auto simp: Publish_def split: publisher.splits if_splits)

lemma processRow_frame:
  "msgs (processRow E pub l m w) = msgs w" "set (rl_sent w) \<subseteq> set (rl_sent (processRow E pub l m w))"
  "set (rl_sent (processRow E pub l m w)) \<subseteq> insert m (set (rl_sent w))"
proof -
  obtain e w1 where p: "Publish pub l m w = (e, w1)" by (cases "Publish pub l m w")
  note f = Publish_frame [OF p]
  have "msgs (processRow E pub l m w) = msgs w \<and> rl_sent (processRow E pub l m w) = rl_sent w1"
    unfolding processRow_def p using f(1) by (cases e; cases "lk_sql l") (simp_all add: msgs_def)
  then show "msgs (processRow E pub l m w) = msgs w" "set (rl_sent w) \<subseteq> set (rl_sent (processRow E pub l m w))"
    "set (rl_sent (processRow E pub l m w)) \<subseteq> insert m (set (rl_sent w))"
    using f(3,4) by simp_all
qed

text \<open>A row becomes published only with its message sent.\<close>

lemma processRow_published:
  assumes "r \<in> set (event_outbox (rl_db (processRow E JetStream l m w)))" "ob_published_at r \<noteq> None" "distinct (map ob_id (event_outbox (rl_db w)))"
    "m \<in> set (msgs w)"
  shows "outbox_msg r \<in> set (rl_sent (processRow E JetStream l m w)) \<or> (\<exists>r0 \<in> set (event_outbox (rl_db w)). ob_published_at r0 \<noteq> None \<and> outbox_msg r0 = outbox_msg r)"
proof -
  obtain e w1 where p: "Publish JetStream l m w = (e, w1)" by (cases "Publish JetStream l m w")
  note f = Publish_frame [OF p]
  obtain r1 where r1: "r1 \<in> set (event_outbox (rl_db w))" "outbox_msg r1 = m" using assms(4) by (auto simp: msgs_def)
  show ?thesis
  proof (cases e)
    case None
    show ?thesis
    proof (cases "lk_sql l")
      case True
      then obtain r0 where r0: "r0 \<in> set (event_outbox (rl_db w))"
        "r = (if ob_id r0 = om_ID m then r0\<lparr>ob_published_at := Some (now E)\<rparr> else r0)"
        using assms(1) p None f(1) by (auto simp: processRow_def MarkPublished_def update_where_def)
      show ?thesis
      proof (cases "ob_id r0 = om_ID m")
        case eq: True
        then have "r0 = r1" using r0(1) r1 assms(3) by (auto simp: outbox_msg_def distinct_map dest: inj_onD)
        then have "outbox_msg r = m" using r0(2) r1(2) eq by (auto simp: outbox_msg_def)
        then show ?thesis using f(5) None p True by (simp add: processRow_def)
      next
        case False
        then show ?thesis using r0 assms(2) by auto
      qed
    next
      case False
      then show ?thesis using assms(1,2) p None f(1) by (auto simp: processRow_def)
    qed
  next
    case (Some x)
    have "\<exists>r0 \<in> set (event_outbox (rl_db w)). ob_published_at r0 = ob_published_at r \<and> outbox_msg r0 = outbox_msg r"
      using assms(1) p Some f(1) by (auto simp: processRow_def RecordAttemptError_def update_where_def outbox_msg_def split: if_splits)
    then show ?thesis using assms(2) by metis
  qed
qed

definition relay_ok :: "relay \<Rightarrow> bool" where
  "relay_ok w \<longleftrightarrow> distinct (map ob_id (event_outbox (rl_db w)))
     \<and> (\<forall>r \<in> set (event_outbox (rl_db w)). ob_published_at r \<noteq> None \<longrightarrow> outbox_msg r \<in> set (rl_sent w))
     \<and> set (rl_sent w) \<subseteq> set (msgs w) \<and> (\<forall>n. set (rl_claims w n) \<subseteq> set (msgs w))"

lemma msg_id: "map ob_id rows = map om_ID (map outbox_msg rows)"
  by (simp add: outbox_msg_def)

lemma Drain_msgs: "set (Drain limit (rl_db w)) \<subseteq> set (msgs w)"
  by (auto simp: Drain_def msgs_def dest!: in_set_takeD)

lemma relay_ok_step:
  assumes "relay_step E JetStream w w'" "relay_ok w"
  shows "relay_ok w' \<and> (\<exists>ms. msgs w' = msgs w @ ms)"
  using assms(1)
proof cases
  case (claim n)
  then show ?thesis using assms(2) Drain_msgs [of outboxDrainLimit w] by (auto simp: relay_ok_def msgs_def)
next
  case (work n m ms t l)
  let ?w = "processRow (E\<lparr>now := t\<rparr>) JetStream l m w"
  have m: "m \<in> set (msgs w)" "set ms \<subseteq> set (msgs w)" using assms(2) work(2) unfolding relay_ok_def by (metis list.set_intros(1) subsetD, metis set_subset_Cons order_trans)
  note f = processRow_frame [where E = "E\<lparr>now := t\<rparr>" and pub = JetStream and l = l and m = m and w = w]
  have d: "distinct (map ob_id (event_outbox (rl_db w)))" using assms(2) by (simp add: relay_ok_def)
  have "distinct (map ob_id (event_outbox (rl_db ?w)))" using d f(1) unfolding msg_id msgs_def by simp
  moreover have "outbox_msg r \<in> set (rl_sent ?w)" if "r \<in> set (event_outbox (rl_db ?w))" "ob_published_at r \<noteq> None" for r
    using processRow_published [OF that d m(1)] assms(2) f(2) unfolding relay_ok_def by (metis subsetD)
  moreover have "set (rl_sent ?w) \<subseteq> set (msgs w)" using f(3) m(1) assms(2) unfolding relay_ok_def by blast
  ultimately show ?thesis using assms(2) m(2) f(1) by (simp add: work(1) relay_ok_def msgs_def)
next
  case (crash n)
  then show ?thesis using assms(2) by (simp add: relay_ok_def msgs_def)
next
  case (shop s' rows)
  then show ?thesis using assms(2) by (auto simp: relay_ok_def msgs_def list_all_iff)
qed

lemma relay_ok_runs:
  assumes "(relay_step E JetStream)\<^sup>*\<^sup>* w w'" "relay_ok w"
  shows "relay_ok w' \<and> (\<exists>ms. msgs w' = msgs w @ ms)"
  using assms
proof (induction rule: rtranclp_induct)
  case (step u v)
  then show ?case using relay_ok_step [OF step(2)] by fastforce
qed simp

lemma relay_start_ok [simp]: "relay_ok relay_start"
  by (simp add: relay_ok_def relay_start_def empty_db_def msgs_def)

text \<open>
  C39: no event is lost or made up.  However many replicas relay over a connected publisher, whatever fails and
  whenever one crashes: an
  event once written stays in the table as it was written; it is marked published only after the broker had
  it; and the broker gets only events that were written.
\<close>

theorem outbox_at_least_once:
  assumes "(relay_step E JetStream)\<^sup>*\<^sup>* relay_start w" and "(relay_step E JetStream)\<^sup>*\<^sup>* w w'"
  shows "(\<exists>ms. map outbox_msg (event_outbox (rl_db w')) = map outbox_msg (event_outbox (rl_db w)) @ ms)
    \<and> (\<forall>r \<in> set (event_outbox (rl_db w')). ob_published_at r \<noteq> None \<longrightarrow> outbox_msg r \<in> set (rl_sent w'))
    \<and> set (rl_sent w') \<subseteq> outbox_msg ` set (event_outbox (rl_db w'))"
proof -
  have "relay_ok w" using relay_ok_runs [OF assms(1)] by simp
  from relay_ok_runs [OF assms(2) this] show ?thesis by (simp add: relay_ok_def msgs_def)
qed

section \<open>The backlog is cleared\<close>

definition backlog :: "relay \<Rightarrow> OutboxRow list" where
  "backlog w = sort_key ob_created_at (filter pending (event_outbox (rl_db w)))"

definition lucky :: "(uuid \<Rightarrow> luck) \<Rightarrow> bool" where
  "lucky l \<longleftrightarrow> (\<forall>i. lk_error (l i) = None \<and> lk_sql (l i))"

lemma lucky_row:
  "lucky l \<Longrightarrow> processRow E JetStream (l i) m w = w\<lparr>rl_sent := rl_sent w @ [m], rl_db := MarkPublished E (om_ID m) (rl_db w)\<rparr>"
  by (simp add: lucky_def processRow_def Publish_def)

lemma lucky_rows:
  assumes "lucky l"
  shows "rl_sent (foldl (\<lambda>w m. processRow E JetStream (l (om_ID m)) m w) w ms) = rl_sent w @ ms"
    "event_outbox (rl_db (foldl (\<lambda>w m. processRow E JetStream (l (om_ID m)) m w) w ms))
       = map (\<lambda>r. if ob_id r \<in> om_ID ` set ms then r\<lparr>ob_published_at := Some (now E)\<rparr> else r) (event_outbox (rl_db w))"
  by (induction ms arbitrary: w) (auto simp: lucky_row [OF assms] MarkPublished_def update_where_def)

lemma filter_take_drop:
  assumes "distinct (map f xs)"
  shows "filter (\<lambda>x. f x \<notin> f ` set (take n xs)) xs = drop n xs"
proof -
  have d: "distinct (map f (take n xs @ drop n xs))" using assms by simp
  then have "\<forall>x \<in> set (drop n xs). f x \<notin> f ` set (take n xs)" unfolding map_append distinct_append by auto
  then have "filter (\<lambda>x. f x \<notin> f ` set (take n xs)) (take n xs @ drop n xs) = drop n xs"
    unfolding filter_append by (simp add: filter_id_conv filter_empty_conv)
  then show ?thesis by simp
qed

text \<open>One tick sends the oldest hundred.\<close>

lemma lucky_drain:
  assumes "lucky l" "distinct (map ob_id (event_outbox (rl_db w)))"
  shows "rl_sent (drainOnce E JetStream False l w) = rl_sent w @ map outbox_msg (take 100 (backlog w))"
    "backlog (drainOnce E JetStream False l w) = drop 100 (backlog w)"
    "map ob_id (event_outbox (rl_db (drainOnce E JetStream False l w))) = map ob_id (event_outbox (rl_db w))"
proof -
  let ?ms = "Drain outboxDrainLimit (rl_db w)" and ?rows = "event_outbox (rl_db w)"
  have ms: "?ms = map outbox_msg (take 100 (backlog w))" by (simp add: Drain_def backlog_def outboxDrainLimit_def)
  have ids: "om_ID ` set ?ms = ob_id ` set (take 100 (backlog w))" by (simp add: ms image_image outbox_msg_def)
  note rows = lucky_rows [OF assms(1), of E w ?ms]
  show "rl_sent (drainOnce E JetStream False l w) = rl_sent w @ map outbox_msg (take 100 (backlog w))"
    using rows(1) by (simp add: drainOnce_def ms)
  let ?f = "\<lambda>r. if ob_id r \<in> om_ID ` set ?ms then r\<lparr>ob_published_at := Some (now E)\<rparr> else r"
  have after: "event_outbox (rl_db (drainOnce E JetStream False l w)) = map ?f ?rows" by (simp add: drainOnce_def rows(2))
  have "filter pending (map ?f rs) = filter (\<lambda>r. ob_id r \<notin> om_ID ` set ?ms) (filter pending rs)" for rs
    by (induction rs) (auto simp: pending_def)
  then have "backlog (drainOnce E JetStream False l w) = filter (\<lambda>r. ob_id r \<notin> om_ID ` set ?ms) (backlog w)"
    unfolding backlog_def after by (simp add: filter_sort)
  also have "\<dots> = drop 100 (backlog w)"
    unfolding ids
  proof (rule filter_take_drop)
    have "distinct (map ob_id (filter pending ?rows))" using assms(2) by (simp add: distinct_map_filter)
    then show "distinct (map ob_id (backlog w))" unfolding backlog_def distinct_map by simp
  qed
  finally show "backlog (drainOnce E JetStream False l w) = drop 100 (backlog w)" .
  show "map ob_id (event_outbox (rl_db (drainOnce E JetStream False l w))) = map ob_id ?rows" unfolding after by simp
qed

definition ticks :: "(env \<times> (uuid \<Rightarrow> luck)) list \<Rightarrow> relay \<Rightarrow> relay" where
  "ticks ts w = foldl (\<lambda>w (E, l). drainOnce E JetStream False l w) w ts"

text \<open>
  C40: a backlog is cleared in order.  When a lone worker ticks while the broker accepts every event, every
  statement succeeds and no event is written, then after one tick for every hundred pending
  rows these ticks have sent all of them, oldest first and each once, and none is pending.
\<close>

theorem backlog_cleared:
  assumes ids: "distinct (map ob_id (event_outbox (rl_db w)))" and luck: "\<forall>(E, l) \<in> set ts. lucky l"
    and enough: "length (filter pending (event_outbox (rl_db w))) \<le> 100 * length ts"
  shows "rl_sent (ticks ts w) = rl_sent w @ map outbox_msg (sort_key ob_created_at (filter pending (event_outbox (rl_db w))))
    \<and> filter pending (event_outbox (rl_db (ticks ts w))) = []"
proof -
  have "rl_sent (ticks ts w) = rl_sent w @ map outbox_msg (take (100 * length ts) (backlog w))
     \<and> backlog (ticks ts w) = drop (100 * length ts) (backlog w)"
    using ids luck
  proof (induction ts arbitrary: w)
    case (Cons t ts)
    obtain E l where t: "t = (E, l)" by (cases t)
    let ?w = "drainOnce E JetStream False l w"
    have "lucky l" using Cons.prems(2) t by simp
    note d = lucky_drain [OF this Cons.prems(1), of E]
    have "rl_sent (ticks ts ?w) = rl_sent ?w @ map outbox_msg (take (100 * length ts) (backlog ?w)) \<and> backlog (ticks ts ?w) = drop (100 * length ts) (backlog ?w)"
      using Cons.IH [of ?w] Cons.prems by (simp add: d(3))
    then show ?case by (simp add: ticks_def t d(1,2) take_add add.commute)
  qed (simp add: ticks_def)
  moreover have "length (backlog w) \<le> 100 * length ts" using enough by (simp add: backlog_def)
  ultimately have "rl_sent (ticks ts w) = rl_sent w @ map outbox_msg (backlog w)" "backlog (ticks ts w) = []" by simp_all
  moreover have "length (filter pending (event_outbox (rl_db (ticks ts w)))) = 0" using calculation(2) unfolding backlog_def by (metis length_sort list.size(3))
  ultimately show ?thesis by (simp add: backlog_def)
qed

section \<open>Examples, and what is not guaranteed\<close>

definition demo_event :: "uuid \<Rightarrow> gotime \<Rightarrow> OutboxRow" where
  "demo_event i t = \<lparr> ob_id = i, ob_tenant_id = 11, ob_subject = movement_subject,
     ob_payload = \<lparr> ev_EventID = i, ev_EventType = ''stock.movement_recorded'', ev_TenantID = 11, ev_OccurredAt = t, ev_Source = ''tally'',
       ev_Payload = \<lparr> ev_ProductID = 12, ev_WarehouseID = 13, ev_Direction = ''in'', ev_QtyDelta = ''1'', ev_OnHandAfter = ''1'',
         ev_UnitCost = ''2'', ev_ReferenceType = ''init'' \<rparr> \<rparr>,
     ob_created_at = t, ob_published_at = None, ob_attempts = 0, ob_last_error = [] \<rparr>"

definition demo_outbox :: relay where
  "demo_outbox = relay_start\<lparr>rl_db := empty_db\<lparr>event_outbox := [demo_event 52 7, demo_event 51 5]\<rparr>\<rparr>"

definition good_luck :: "uuid \<Rightarrow> luck" where
  "good_luck i = \<lparr> lk_error = None, lk_received = True, lk_sql = True \<rparr>"

lemma demo_outbox_runs: "(relay_step E pub)\<^sup>*\<^sup>* relay_start demo_outbox"
  unfolding demo_outbox_def
  by (rule r_into_rtranclp, rule shop [where rows = "[demo_event 52 7, demo_event 51 5]"]) (simp_all add: relay_start_def empty_db_def demo_event_def)

lemma demo_good_luck [simp]: "lucky good_luck"
  by (simp add: lucky_def good_luck_def)

theorem backlog_cleared_witness:
  "rl_sent (ticks [(std_env, good_luck)] demo_outbox) = [outbox_msg (demo_event 51 5), outbox_msg (demo_event 52 7)]"
proof -
  have ids: "distinct (map ob_id (event_outbox (rl_db demo_outbox)))" by (simp add: demo_outbox_def relay_start_def demo_event_def)
  have p: "filter pending (event_outbox (rl_db demo_outbox)) = [demo_event 52 7, demo_event 51 5]"
    by (simp add: demo_outbox_def relay_start_def demo_event_def pending_def MaxOutboxAttempts_def)
  have "rl_sent demo_outbox = []" by (simp add: demo_outbox_def relay_start_def)
  moreover have "sort_key ob_created_at [demo_event 52 7, demo_event 51 5] = [demo_event 51 5, demo_event 52 7]" by (simp add: demo_event_def)
  ultimately show ?thesis using backlog_cleared [OF ids, of "[(std_env, good_luck)]"] by (simp add: p)
qed

text \<open>Two replicas claim the same rows, because the locks of \<open>Drain\<close> end before anything is published.\<close>

definition demo_claims :: relay where
  "demo_claims = demo_outbox\<lparr>rl_claims := (\<lambda>_. [])(0 := Drain outboxDrainLimit (rl_db demo_outbox), 1 := Drain outboxDrainLimit (rl_db demo_outbox))\<rparr>"

definition demo_once :: relay where
  "demo_once = (processRow std_env JetStream (good_luck 51) (outbox_msg (demo_event 51 5)) demo_claims)
     \<lparr>rl_claims := (rl_claims demo_claims)(0 := [outbox_msg (demo_event 52 7)])\<rparr>"

definition demo_twice :: relay where
  "demo_twice = (processRow std_env JetStream (good_luck 51) (outbox_msg (demo_event 51 5)) demo_once)
     \<lparr>rl_claims := (rl_claims demo_once)(1 := [outbox_msg (demo_event 52 7)])\<rparr>"

lemma demo_claimed: "Drain outboxDrainLimit (rl_db demo_outbox) = [outbox_msg (demo_event 51 5), outbox_msg (demo_event 52 7)]"
  by code_simp

lemma demo_twice_runs: "(relay_step std_env JetStream)\<^sup>*\<^sup>* demo_outbox demo_twice"
proof -
  let ?m = "outbox_msg (demo_event 51 5)" and ?m' = "outbox_msg (demo_event 52 7)" and ?D = "Drain outboxDrainLimit (rl_db demo_outbox)"
  let ?w0 = "demo_outbox\<lparr>rl_claims := (rl_claims demo_outbox)(0 := ?D)\<rparr>"
  have e: "std_env\<lparr>now := now std_env\<rparr> = std_env" by simp
  have "relay_step std_env JetStream demo_outbox ?w0" by (rule claim) (simp add: demo_outbox_def relay_start_def)
  moreover have "relay_step std_env JetStream ?w0 demo_claims"
    using claim [of ?w0 1 std_env JetStream] by (simp add: demo_claims_def demo_outbox_def relay_start_def)
  moreover have "relay_step std_env JetStream demo_claims demo_once"
    unfolding demo_once_def by (rule work [of demo_claims 0 ?m "[?m']" std_env JetStream "now std_env", unfolded e]) (simp add: demo_claims_def demo_claimed)
  moreover have "relay_step std_env JetStream demo_once demo_twice"
    unfolding demo_twice_def
    by (rule work [of demo_once 1 ?m "[?m']" std_env JetStream "now std_env", unfolded e]) (simp add: demo_once_def demo_claims_def demo_claimed)
  ultimately show ?thesis by (meson converse_rtranclp_into_rtranclp r_into_rtranclp)
qed

theorem replicas_publish_twice:
  "\<exists>w. (relay_step std_env JetStream)\<^sup>*\<^sup>* relay_start w \<and> rl_sent w = [outbox_msg (demo_event 51 5), outbox_msg (demo_event 51 5)]"
proof (intro exI conjI)
  show "(relay_step std_env JetStream)\<^sup>*\<^sup>* relay_start demo_twice" by (rule rtranclp_trans [OF demo_outbox_runs demo_twice_runs])
  show "rl_sent demo_twice = [outbox_msg (demo_event 51 5), outbox_msg (demo_event 51 5)]" by code_simp
qed

theorem outbox_at_least_once_witness:
  "ob_published_at (event_outbox (rl_db demo_twice) ! 1) \<noteq> None \<and> outbox_msg (event_outbox (rl_db demo_twice) ! 1) \<in> set (rl_sent demo_twice)"
proof -
  have "ob_published_at (event_outbox (rl_db demo_twice) ! 1) \<noteq> None" "1 < length (event_outbox (rl_db demo_twice))" by code_simp+
  then show ?thesis using outbox_at_least_once [OF demo_outbox_runs demo_twice_runs] by (meson nth_mem)
qed

text \<open>Without a broker the stand-in answers every publication with success: the events are marked as published and reach nobody.\<close>

theorem noop_discards:
  "rl_sent (drainOnce std_env NoOp False good_luck demo_outbox) = []
   \<and> filter pending (event_outbox (rl_db (drainOnce std_env NoOp False good_luck demo_outbox))) = []"
  by code_simp

end
