(* ===== verification/Receivables.thy ===== *)
theory Receivables
  imports Sale_Returns Go_Text
begin

text \<open>
  Who owes whom and for how long (\<open>internal/app/bill/receivables.go\<close>, \<open>internal/adapter/repo/bill/receivables.go\<close>):
  the open balances of approved bills per partner, by the age of the bill.
\<close>

section \<open>The query\<close>

abbreviation "ReceivableAR \<equiv> ''ar''"
abbreviation "ReceivableAP \<equiv> ''ap''"

record PartnerReceivable =
  rc_PartnerID :: "uuid option"
  rc_PartnerName :: string
  rc_Unpaid :: rat
  rc_B0to30 :: rat
  rc_B31to60 :: rat
  rc_B61to90 :: rat
  rc_B90Plus :: rat
  rc_OldestBillDate :: "gotime option"

text \<open>The calendar day of a time in Shanghai, and the first instant of a day there.\<close>

definition cst_day :: "gotime \<Rightarrow> int" where
  "cst_day t = cst_seconds t div 86400"

definition cst_midnight :: "int \<Rightarrow> gotime" where
  "cst_midnight day = seconds (day * 86400 - 8 * 3600)"

text \<open>One row of \<open>open_bills\<close>: the partner, the date, the balance in cents and the age in days.\<close>

record open_row =
  op_partner :: "uuid option"
  op_date :: gotime
  op_bal :: rat
  op_age :: int

definition open_balance :: "env \<Rightarrow> uuid \<Rightarrow> string \<Rightarrow> gotime \<Rightarrow> db \<Rightarrow> BillHead \<Rightarrow> rat" where
  "open_balance E t direction until s h =
     numeric E 2 (if direction = ReceivableAR
                  then max (h_TotalAmount h - sale_returns E t (\<lambda>r. h_BillDate r < until) s (h_ID h)) 0 - h_PaidAmount h
                  else h_TotalAmount h - h_PaidAmount h)"

definition receivable_bill :: "uuid \<Rightarrow> string \<Rightarrow> gotime \<Rightarrow> BillHead \<Rightarrow> bool" where
  "receivable_bill t direction until h \<longleftrightarrow> h_TenantID h = t \<and> \<not> h_deleted h \<and> h_Status h = StatusApproved
     \<and> (h_BillType h, h_SubType h) = (if direction = ReceivableAP then (BillTypePurchase, BillSubTypePurchase) else (BillTypeSale, BillSubTypeSale))
     \<and> h_BillDate h < until"

definition open_rows :: "env \<Rightarrow> uuid \<Rightarrow> string \<Rightarrow> int \<Rightarrow> db \<Rightarrow> open_row list" where
  "open_rows E t direction day s =
     (let until = cst_midnight (day + 1) in
      filter (\<lambda>r. 0 < op_bal r)
        (map (\<lambda>h. \<lparr> op_partner = h_PartnerID h, op_date = h_BillDate h, op_bal = open_balance E t direction until s h,
                     op_age = day - cst_day (h_BillDate h) \<rparr>)
          (filter (receivable_bill t direction until) (bill_head s))))"

definition bucket :: "(int \<Rightarrow> bool) \<Rightarrow> open_row list \<Rightarrow> rat" where
  "bucket p rows = sum_list (map op_bal (filter (p \<circ> op_age) rows))"

definition bill_partner :: "uuid \<Rightarrow> uuid option \<Rightarrow> db \<Rightarrow> string" where
  "bill_partner t p s = (case List.find (\<lambda>r. Some (pa_id r) = p \<and> pa_tenant_id r = t) (partner s) of None \<Rightarrow> [] | Some r \<Rightarrow> pa_name r)"

definition partner_row :: "uuid \<Rightarrow> db \<Rightarrow> open_row list \<Rightarrow> uuid option \<Rightarrow> PartnerReceivable" where
  "partner_row t s rows p =
     (let mine = filter (\<lambda>r. op_partner r = p) rows in
      \<lparr> rc_PartnerID = p, rc_PartnerName = bill_partner t p s, rc_Unpaid = sum_list (map op_bal mine),
        rc_B0to30 = bucket (\<lambda>a. a \<le> 30) mine, rc_B31to60 = bucket (\<lambda>a. 31 \<le> a \<and> a \<le> 60) mine,
        rc_B61to90 = bucket (\<lambda>a. 61 \<le> a \<and> a \<le> 90) mine, rc_B90Plus = bucket (\<lambda>a. 90 < a) mine,
        rc_OldestBillDate = Some (Min (op_date ` set mine)) \<rparr>)"

text \<open>Largest first, then by name (in the collation \<open>below\<close> of the database), then by id with bills of no partner last.\<close>

definition PartnerReceivables :: "env \<Rightarrow> (string \<Rightarrow> string \<Rightarrow> bool) \<Rightarrow> uuid \<Rightarrow> string \<Rightarrow> int \<Rightarrow> db \<Rightarrow> PartnerReceivable list" where
  "PartnerReceivables E below t direction day s =
     (let rows = open_rows E t direction day s;
          out = map (partner_row t s rows) (remdups (map op_partner rows));
          by_id = sort_key (\<lambda>r. (case rc_PartnerID r of None \<Rightarrow> 1 | Some _ \<Rightarrow> 0) :: nat) (sort_key (\<lambda>r. case rc_PartnerID r of None \<Rightarrow> 0 | Some i \<Rightarrow> i) out);
          rank = (\<lambda>r. length (filter (\<lambda>r'. below (rc_PartnerName r') (rc_PartnerName r)) out))
      in sort_key (\<lambda>r. - rc_Unpaid r) (sort_key rank by_id))"

section \<open>The use case\<close>

record ReceivablesOutput =
  ro_Direction :: string
  ro_AsOf :: gotime
  ro_Items :: "PartnerReceivable list"
  ro_Total :: PartnerReceivable

definition older :: "gotime option \<Rightarrow> gotime option \<Rightarrow> gotime option" where
  "older acc r = (case r of None \<Rightarrow> acc | Some d \<Rightarrow> (case acc of None \<Rightarrow> Some d | Some d' \<Rightarrow> if d < d' then Some d else acc))"

definition add_receivable :: "PartnerReceivable \<Rightarrow> PartnerReceivable \<Rightarrow> PartnerReceivable" where
  "add_receivable acc r = acc\<lparr>rc_Unpaid := rc_Unpaid acc + rc_Unpaid r, rc_B0to30 := rc_B0to30 acc + rc_B0to30 r,
     rc_B31to60 := rc_B31to60 acc + rc_B31to60 r, rc_B61to90 := rc_B61to90 acc + rc_B61to90 r,
     rc_B90Plus := rc_B90Plus acc + rc_B90Plus r, rc_OldestBillDate := older (rc_OldestBillDate acc) (rc_OldestBillDate r)\<rparr>"

definition no_receivable :: PartnerReceivable where
  "no_receivable = \<lparr> rc_PartnerID = None, rc_PartnerName = [], rc_Unpaid = 0, rc_B0to30 = 0, rc_B31to60 = 0, rc_B61to90 = 0,
     rc_B90Plus = 0, rc_OldestBillDate = None \<rparr>"

text \<open>\<open>asOf\<close> is the calendar day of the argument in its own zone; without it the day is today in Shanghai.\<close>

definition Receivables_Execute :: "env \<Rightarrow> (string \<Rightarrow> string \<Rightarrow> bool) \<Rightarrow> uuid \<Rightarrow> string \<Rightarrow> int option \<Rightarrow> db \<Rightarrow> err + ReceivablesOutput" where
  "Receivables_Execute E below t direction asOf s =
     (if t = uuid_Nil then Inl (ErrMsg ''receivables: tenant_id is required'')
      else if direction \<noteq> ReceivableAR \<and> direction \<noteq> ReceivableAP then Inl (ErrMsg ''receivables: direction must be ar or ap'')
      else let day = (case asOf of Some d \<Rightarrow> d | None \<Rightarrow> cst_day (now E));
               rows = PartnerReceivables E below t direction day s
           in Inr \<lparr> ro_Direction = direction, ro_AsOf = cst_midnight day, ro_Items = rows, ro_Total = foldl add_receivable no_receivable rows \<rparr>)"

section \<open>The columns add up\<close>

lemma div_less_by: "x div c < k \<longleftrightarrow> x < k * c" if "0 < c" for x c k :: int
proof -
  have "x div c < k \<longleftrightarrow> x div c + 1 \<le> k" by linarith
  also have "\<dots> \<longleftrightarrow> (x div c + 1) * c \<le> k * c" using that by simp
  also have "\<dots> \<longleftrightarrow> x < k * c"
  proof
    have x: "x = x div c * c + x mod c" "0 \<le> x mod c" "x mod c < c" using that by simp_all
    { assume "(x div c + 1) * c \<le> k * c"
      then have "x div c * c + c \<le> k * c" by (simp add: distrib_right)
      then show "x < k * c" using x by linarith }
    { assume "x < k * c"
      then have "x div c * c < k * c" using x by linarith
      then have "x div c < k" using that by (simp add: mult_less_cancel_right)
      then show "(x div c + 1) * c \<le> k * c" using that by (simp add: mult_right_mono) }
  qed
  finally show ?thesis .
qed

lemma before_midnight: "t < cst_midnight (day + 1) \<longleftrightarrow> cst_day t \<le> day"
proof -
  have "cst_day t \<le> day \<longleftrightarrow> cst_seconds t div 86400 < day + 1" by (auto simp: cst_day_def)
  also have "\<dots> \<longleftrightarrow> cst_seconds t < (day + 1) * 86400" by (rule div_less_by) simp
  also have "\<dots> \<longleftrightarrow> t div seconds 1 < (day + 1) * 86400 - 8 * 3600" by (auto simp: cst_seconds_def)
  also have "\<dots> \<longleftrightarrow> t < ((day + 1) * 86400 - 8 * 3600) * seconds 1" by (rule div_less_by) simp
  finally show ?thesis by (simp add: cst_midnight_def)
qed

lemma buckets_split:
  "sum_list (map op_bal rows) = bucket (\<lambda>a. a \<le> 30) rows + bucket (\<lambda>a. 31 \<le> a \<and> a \<le> 60) rows + bucket (\<lambda>a. 61 \<le> a \<and> a \<le> 90) rows + bucket (\<lambda>a. 90 < a) rows"
  by (induction rows) (auto simp: bucket_def)

lemma totals:
  "rc_Unpaid (foldl add_receivable z rows) = rc_Unpaid z + sum_list (map rc_Unpaid rows)"
  "rc_B0to30 (foldl add_receivable z rows) = rc_B0to30 z + sum_list (map rc_B0to30 rows)"
  "rc_B31to60 (foldl add_receivable z rows) = rc_B31to60 z + sum_list (map rc_B31to60 rows)"
  "rc_B61to90 (foldl add_receivable z rows) = rc_B61to90 z + sum_list (map rc_B61to90 rows)"
  "rc_B90Plus (foldl add_receivable z rows) = rc_B90Plus z + sum_list (map rc_B90Plus rows)"
  by (induction rows arbitrary: z) (simp_all add: add_receivable_def)

lemma sum_by_group:
  fixes f :: "'a \<Rightarrow> rat"
  shows "sum_list (map (\<lambda>p. sum_list (map f (filter (\<lambda>r. g r = p) rows))) (remdups (map g rows))) = sum_list (map f rows)"
proof -
  have "sum_list (map (\<lambda>p. sum_list (map f (filter (\<lambda>r. g r = p) rows))) (remdups (map g rows)))
      = (\<Sum>p \<in> g ` set rows. sum_list (map f (filter (\<lambda>r. g r = p) rows)))"
    by (simp add: sum_list_distinct_conv_sum_set)
  also have "\<dots> = sum_list (map f rows)"
  proof -
    have "(\<Sum>p \<in> P. sum_list (map f (filter (\<lambda>r. g r = p) rs))) = sum_list (map f rs)" if "finite P" "g ` set rs \<subseteq> P" for P rs
      using that
    proof (induction rs)
      case (Cons r rs)
      have "(\<Sum>p \<in> P. sum_list (map f (filter (\<lambda>r. g r = p) (r # rs))))
          = (\<Sum>p \<in> P. (if g r = p then f r else 0) + sum_list (map f (filter (\<lambda>r. g r = p) rs)))"
        by (rule sum.cong) auto
      then show ?case using Cons by (simp add: sum.distrib)
    qed simp
    then show ?thesis by simp
  qed
  finally show ?thesis .
qed

lemma partner_rows:
  "sum_list (map rc_Unpaid (map (partner_row t s rows) (remdups (map op_partner rows)))) = sum_list (map op_bal rows)"
  using sum_by_group [of op_bal op_partner rows] by (simp add: partner_row_def o_def Let_def)

lemma PartnerReceivables_mset:
  "mset (PartnerReceivables E below t direction day s)
    = mset (map (partner_row t s (open_rows E t direction day s)) (remdups (map op_partner (open_rows E t direction day s))))"
  by (simp add: PartnerReceivables_def Let_def)

lemma sum_list_mset: "mset xs = mset ys \<Longrightarrow> sum_list (map f xs) = sum_list (map f ys :: rat list)"
  by (metis mset_map sum_mset_sum_list)

lemma row_adds_up:
  "rc_Unpaid r = rc_B0to30 r + rc_B31to60 r + rc_B61to90 r + rc_B90Plus r" if "r = partner_row t s rows p"
  using that buckets_split by (simp add: partner_row_def Let_def)

lemma row_positive:
  assumes "p \<in> op_partner ` set rows" "\<forall>r \<in> set rows. 0 < op_bal r"
  shows "0 < rc_Unpaid (partner_row t s rows p)"
proof -
  let ?m = "map op_bal (filter (\<lambda>r. op_partner r = p) rows)"
  obtain r where r: "r \<in> set rows" "op_partner r = p" using assms(1) by blast
  have "op_bal r \<in> set ?m" using r by auto
  moreover have "\<forall>x \<in> set ?m. 0 < x" using assms(2) by auto
  ultimately have "0 < sum_list ?m" by (metis (no_types, lifting) less_le_trans member_le_sum_list order_less_imp_le)
  then show ?thesis by (simp add: partner_row_def Let_def)
qed

text \<open>
  C33: the receivables add up.  Every approved bill of the kind dated on or before the day, Shanghai time, counts
  once with its positive balance in cents: the grand total is the sum of these balances, the partners' rows sum
  to it and each partner has one row, and in every row and the total the four age buckets sum to the unpaid amount.
\<close>

theorem receivables_add_up:
  assumes "Receivables_Execute E below t direction asOf s = Inr out"
  shows "(let day = (case asOf of Some d \<Rightarrow> d | None \<Rightarrow> cst_day (now E));
             bills = filter (\<lambda>h. receivable_bill t direction (cst_midnight (day + 1)) h) (bill_head s);
             bal = open_balance E t direction (cst_midnight (day + 1)) s
         in rc_Unpaid (ro_Total out) = sum_list (map (\<lambda>h. max (bal h) 0) bills)
          \<and> (\<forall>h \<in> set bills. cst_day (h_BillDate h) \<le> day))
    \<and> rc_Unpaid (ro_Total out) = sum_list (map rc_Unpaid (ro_Items out)) \<and> distinct (map rc_PartnerID (ro_Items out))
    \<and> (\<forall>r \<in> set (ro_Items out). 0 < rc_Unpaid r)
    \<and> (\<forall>r \<in> insert (ro_Total out) (set (ro_Items out)). rc_Unpaid r = rc_B0to30 r + rc_B31to60 r + rc_B61to90 r + rc_B90Plus r)"
proof -
  define day where "day = (case asOf of Some d \<Rightarrow> d | None \<Rightarrow> cst_day (now E))"
  define rows where "rows = open_rows E t direction day s"
  have out: "ro_Items out = PartnerReceivables E below t direction day s" "ro_Total out = foldl add_receivable no_receivable (ro_Items out)"
    using assms by (auto simp: Receivables_Execute_def Let_def day_def split: if_splits)
  note items = PartnerReceivables_mset [of E below t direction day s, folded out(1) rows_def]
  have set_items: "set (ro_Items out) = partner_row t s rows ` op_partner ` set rows"
    using arg_cong [OF items, of set_mset] by auto
  have each: "rc_Unpaid r = rc_B0to30 r + rc_B31to60 r + rc_B61to90 r + rc_B90Plus r" if "r \<in> set (ro_Items out)" for r
    using that row_adds_up unfolding set_items by blast
  have pos: "0 < rc_Unpaid r" if r: "r \<in> set (ro_Items out)" for r
  proof -
    obtain p where "p \<in> op_partner ` set rows" "r = partner_row t s rows p" using r unfolding set_items by blast
    moreover have "\<forall>r \<in> set rows. 0 < op_bal r" by (simp add: rows_def open_rows_def Let_def)
    ultimately show ?thesis using row_positive by blast
  qed
  have "mset (map rc_PartnerID (ro_Items out)) = mset (remdups (map op_partner rows))"
    unfolding mset_map items by (simp add: partner_row_def Let_def multiset.map_comp o_def)
  then have dist: "distinct (map rc_PartnerID (ro_Items out))" by (metis distinct_remdups mset_eq_imp_distinct_iff)
  have sum: "rc_Unpaid (ro_Total out) = sum_list (map rc_Unpaid (ro_Items out))" unfolding out(2) by (simp add: totals no_receivable_def)
  also have "\<dots> = sum_list (map op_bal rows)" using sum_list_mset [OF items] partner_rows by simp
  also have "\<dots> = sum_list (map (\<lambda>h. max (open_balance E t direction (cst_midnight (day + 1)) s h) 0)
      (filter (receivable_bill t direction (cst_midnight (day + 1))) (bill_head s)))"
  proof -
    have "sum_list (map op_bal (filter (\<lambda>r. 0 < op_bal r) (map g hs))) = sum_list (map (\<lambda>h. max (op_bal (g h)) 0) hs)" for g :: "BillHead \<Rightarrow> open_row" and hs
      by (induction hs) (auto simp: max_def)
    then show ?thesis by (simp add: rows_def open_rows_def Let_def)
  qed
  finally have total: "rc_Unpaid (ro_Total out) = \<dots>" .
  have "rc_Unpaid (ro_Total out) = rc_B0to30 (ro_Total out) + rc_B31to60 (ro_Total out) + rc_B61to90 (ro_Total out) + rc_B90Plus (ro_Total out)"
  proof -
    have "sum_list (map rc_Unpaid (ro_Items out)) = sum_list (map (\<lambda>r. rc_B0to30 r + rc_B31to60 r + rc_B61to90 r + rc_B90Plus r) (ro_Items out))"
      using each by (metis (no_types, lifting) map_cong)
    then show ?thesis unfolding out(2) by (simp add: totals no_receivable_def sum_list_addf)
  qed
  note all = this
  show ?thesis
    unfolding Let_def day_def [symmetric]
  proof (intro conjI ballI)
    fix h assume "h \<in> set (filter (receivable_bill t direction (cst_midnight (day + 1))) (bill_head s))"
    then have "h_BillDate h < cst_midnight (day + 1)" by (simp add: receivable_bill_def)
    then show "cst_day (h_BillDate h) \<le> day" by (simp only: before_midnight)
  qed (rule total, rule sum, rule dist, erule pos, erule insertE, hypsubst, rule all, erule each)
qed

text \<open>Two sales of 100 and 60 with 40 paid and 10 returned, one ten days old and one a hundred.\<close>

definition demo_bill :: "uuid \<Rightarrow> BillType \<Rightarrow> BillSubType \<Rightarrow> int \<Rightarrow> rat \<Rightarrow> rat \<Rightarrow> uuid option \<Rightarrow> BillHead" where
  "demo_bill i ty sub day amount paid link = blank_head\<lparr>h_ID := i, h_TenantID := 11, h_BillType := ty, h_SubType := sub,
     h_Status := StatusApproved, h_PartnerID := Some 31, h_BillDate := cst_midnight day, h_TotalAmount := amount, h_PaidAmount := paid, h_link_bill_id := link\<rparr>"

definition demo_owed :: db where
  "demo_owed = empty_db\<lparr>bill_head := [demo_bill 21 BillTypeSale BillSubTypeSale 739717 100 40 None,
     demo_bill 22 BillTypeSale BillSubTypeSale 739627 60 0 None, demo_bill 23 (BillTypeOther []) BillSubTypeSaleReturn 739720 10 0 (Some 22)]\<rparr>"

theorem receivables_add_up_witness:
  "\<exists>out. Receivables_Execute std_env (\<lambda>_ _. False) 11 ReceivableAR (Some 739727) demo_owed = Inr out \<and> rc_Unpaid (ro_Total out) = 110
     \<and> rc_Unpaid (ro_Total out) = rc_B0to30 (ro_Total out) + rc_B31to60 (ro_Total out) + rc_B61to90 (ro_Total out) + rc_B90Plus (ro_Total out)"
proof -
  have "\<not> isl (Receivables_Execute std_env (\<lambda>_ _. False) 11 ReceivableAR (Some 739727) demo_owed)" by code_simp
  then obtain out where out: "Receivables_Execute std_env (\<lambda>_ _. False) 11 ReceivableAR (Some 739727) demo_owed = Inr out"
    by (cases "Receivables_Execute std_env (\<lambda>_ _. False) 11 ReceivableAR (Some 739727) demo_owed") auto
  have "sum_list (map (\<lambda>h. max (open_balance std_env 11 ReceivableAR (cst_midnight (739727 + 1)) demo_owed h) 0)
      (filter (receivable_bill 11 ReceivableAR (cst_midnight (739727 + 1))) (bill_head demo_owed))) = 110"
    by code_simp
  then show ?thesis using receivables_add_up [OF out] out by (simp add: Let_def)
qed

end
