(* ===== verification/Replenish.thy ===== *)
theory Replenish
  imports Bill_Drafts "HOL-Library.Multiset"
begin

text \<open>
  Reorder suggestions, the low-stock list and the purchase drafts made of them (\<open>internal/app/replenish\<close>).
  The statistics a row rests on come from one query, whose rows are the argument \<open>raws\<close>; \<open>sqrtf n\<close> is
  the decimal of \<open>math.Sqrt(float64(n))\<close>.
\<close>

section \<open>The forecast\<close>

datatype LeadTimeSource = LeadTimeSourceLearned | LeadTimeSourceConfigured | LeadTimeSourceDefault

record RawRow =
  rw_ProductID :: uuid
  rw_ProductName :: string
  rw_ProductCode :: string
  rw_AvailableQty :: rat
  rw_SafetyQty :: rat
  rw_UnitCost :: rat
  rw_AvgDailySales :: rat
  rw_LeadTimeDays :: int
  rw_InTransit :: rat
  rw_SupplierID :: "uuid option"
  rw_SupplierName :: string
  rw_LearnedLeadDays :: rat
  rw_LeadTimeSamples :: int
  rw_LastPurchasePrice :: "rat option"

record SuggestionRow =
  sg_ProductID :: uuid
  sg_ProductName :: string
  sg_ProductCode :: string
  sg_AvailableQty :: rat
  sg_SafetyQty :: rat
  sg_AvgDailySales :: rat
  sg_SuggestedQty :: rat
  sg_EstAmountCNY :: rat
  sg_SupplierID :: "uuid option"
  sg_SupplierName :: string
  sg_UrgencyScore :: rat
  sg_LeadTimeDays :: int
  sg_InTransit :: rat
  sg_ROP :: rat
  sg_SafetyStock :: rat
  sg_Reason :: string
  sg_LastPurchasePrice :: "rat option"
  sg_LeadTimeSource :: LeadTimeSource
  sg_LeadTimeSamples :: int

record SnapshotRow =
  sn_ProductID :: uuid
  sn_SuggestedQty :: rat
  sn_AvailableQty :: rat
  sn_AvgDailySales :: rat
  sn_LeadTimeDays :: int
  sn_LeadTimeSource :: LeadTimeSource
  sn_DaysOfSupply :: rat

definition DefaultWeeks :: int where "DefaultWeeks = 2"
definition defaultLeadTimeDays :: int where "defaultLeadTimeDays = 7"
definition minLeadTimeSamples :: int where "minLeadTimeSamples = 2"
definition z_factor :: rat where "z_factor = 165 / 100"
definition sigmaFactor :: rat where "sigmaFactor = 3 / 10"

text \<open>\<open>math.Round\<close>: half away from zero.\<close>

definition math_Round :: "rat \<Rightarrow> int" where
  "math_Round x = (if 0 \<le> x then \<lfloor>x + 1 / 2\<rfloor> else - \<lfloor>- x + 1 / 2\<rfloor>)"

definition lead_time :: "RawRow \<Rightarrow> int \<times> LeadTimeSource" where
  "lead_time r =
     (if minLeadTimeSamples \<le> rw_LeadTimeSamples r then (max (math_Round (rw_LearnedLeadDays r)) 1, LeadTimeSourceLearned)
      else if rw_LeadTimeDays r \<le> 0 then (defaultLeadTimeDays, LeadTimeSourceDefault)
      else if rw_LeadTimeDays r \<noteq> defaultLeadTimeDays then (rw_LeadTimeDays r, LeadTimeSourceConfigured)
      else (rw_LeadTimeDays r, LeadTimeSourceDefault))"

definition safety_stock :: "(int \<Rightarrow> rat) \<Rightarrow> RawRow \<Rightarrow> rat" where
  "safety_stock sqrtf r =
     (if rw_AvgDailySales r = 0 then 0 else z_factor * (rw_AvgDailySales r * sigmaFactor) * sqrtf (fst (lead_time r)))"

definition forecast_reason :: "env \<Rightarrow> RawRow \<Rightarrow> int \<Rightarrow> LeadTimeSource \<Rightarrow> rat \<Rightarrow> string" where
  "forecast_reason E r lead src safety =
     utf8 [0x65E5, 0x5747] @ dec_fixed E 1 (rw_AvgDailySales r) @ utf8 [0xD7, 0x63D0, 0x524D, 0x671F] @ int_string lead @ utf8 [0x5929]
       @ '' + '' @ utf8 [0x5B89, 0x5168, 0x5E93, 0x5B58] @ dec_fixed E 1 safety @ '' '' @ utf8 [0x2212] @ '' '' @ utf8 [0x53EF, 0x7528]
       @ dec_fixed E 0 (rw_AvailableQty r) @ '' '' @ utf8 [0x2212] @ '' '' @ utf8 [0x5728, 0x9014] @ dec_fixed E 0 (rw_InTransit r)
       @ (if src = LeadTimeSourceLearned
          then utf8 [0xFF1B, 0x57FA, 0x4E8E, 0x6700, 0x8FD1] @ int_string (rw_LeadTimeSamples r) @ utf8 [0x6B21, 0x5B9E, 0x9645, 0x5230, 0x8D27]
            @ '','' @ utf8 [0x4E2D, 0x4F4D, 0x4EA4, 0x671F] @ int_string lead @ utf8 [0x5929]
          else [])"

definition Forecast :: "env \<Rightarrow> (int \<Rightarrow> rat) \<Rightarrow> RawRow \<Rightarrow> int \<Rightarrow> SuggestionRow" where
  "Forecast E sqrtf r weeks0 =
     (let weeks = (if weeks0 \<le> 0 then DefaultWeeks else weeks0);
          (lead, src) = lead_time r;
          safety = safety_stock sqrtf r;
          rop = rw_AvgDailySales r * of_int lead + safety;
          target = rw_AvgDailySales r * 7 * of_int weeks;
          wanted = target + safety - rw_AvailableQty r - rw_InTransit r;
          suggested = of_int \<lceil>max wanted 0\<rceil>;
          price = (case rw_LastPurchasePrice r of Some p \<Rightarrow> if 0 < p then p else rw_UnitCost r | None \<Rightarrow> rw_UnitCost r);
          urgency = (if rw_AvgDailySales r = 0 then 999999 else ddiv E (rw_AvailableQty r) (rw_AvgDailySales r))
      in \<lparr> sg_ProductID = rw_ProductID r, sg_ProductName = rw_ProductName r, sg_ProductCode = rw_ProductCode r,
           sg_AvailableQty = rw_AvailableQty r, sg_SafetyQty = rw_SafetyQty r, sg_AvgDailySales = rw_AvgDailySales r,
           sg_SuggestedQty = suggested, sg_EstAmountCNY = suggested * price, sg_SupplierID = rw_SupplierID r,
           sg_SupplierName = rw_SupplierName r, sg_UrgencyScore = urgency, sg_LeadTimeDays = lead, sg_InTransit = rw_InTransit r,
           sg_ROP = rop, sg_SafetyStock = safety, sg_Reason = forecast_reason E r lead src safety,
           sg_LastPurchasePrice = rw_LastPurchasePrice r, sg_LeadTimeSource = src, sg_LeadTimeSamples = rw_LeadTimeSamples r \<rparr>)"

section \<open>Suggestions and the low-stock list\<close>

definition snapshot_row :: "SuggestionRow \<Rightarrow> SnapshotRow" where
  "snapshot_row f = \<lparr> sn_ProductID = sg_ProductID f, sn_SuggestedQty = sg_SuggestedQty f, sn_AvailableQty = sg_AvailableQty f,
     sn_AvgDailySales = sg_AvgDailySales f, sn_LeadTimeDays = sg_LeadTimeDays f, sn_LeadTimeSource = sg_LeadTimeSource f,
     sn_DaysOfSupply = sg_UrgencyScore f \<rparr>"

text \<open>The rows, and what is handed to the ledger (nothing when no row is to be ordered). Equal urgencies keep their order.\<close>

definition ListSuggestions_Execute :: "env \<Rightarrow> (int \<Rightarrow> rat) \<Rightarrow> RawRow list \<Rightarrow> int \<Rightarrow> SuggestionRow list \<times> SnapshotRow list" where
  "ListSuggestions_Execute E sqrtf raws weeks =
     (let out = sort_key sg_UrgencyScore (map (\<lambda>r. Forecast E sqrtf r (if weeks \<le> 0 then DefaultWeeks else weeks)) raws)
      in (out, map snapshot_row (filter (\<lambda>f. 0 < sg_SuggestedQty f) out)))"

definition ReorderPoint :: "SuggestionRow \<Rightarrow> rat" where
  "ReorderPoint f = (if 0 < sg_SafetyQty f then sg_SafetyQty f else sg_ROP f)"

record LowStockRow =
  lw_ProductID :: uuid
  lw_ProductCode :: string
  lw_ProductName :: string
  lw_AvailableQty :: string
  lw_ReorderPoint :: string
  lw_AvgDailySales :: string
  lw_DaysOfSupply :: string

definition low_row :: "env \<Rightarrow> SuggestionRow \<Rightarrow> LowStockRow" where
  "low_row E f = \<lparr> lw_ProductID = sg_ProductID f, lw_ProductCode = sg_ProductCode f, lw_ProductName = sg_ProductName f,
     lw_AvailableQty = dec_string E (sg_AvailableQty f), lw_ReorderPoint = dec_string E (ReorderPoint f),
     lw_AvgDailySales = dec_string E (sg_AvgDailySales f), lw_DaysOfSupply = dec_string E (sg_UrgencyScore f) \<rparr>"

definition low_stock :: "SuggestionRow \<Rightarrow> bool" where
  "low_stock f \<longleftrightarrow> \<not> (ReorderPoint f = 0 \<or> ReorderPoint f \<le> sg_AvailableQty f)"

definition low_matched :: "env \<Rightarrow> (int \<Rightarrow> rat) \<Rightarrow> RawRow list \<Rightarrow> int \<Rightarrow> SuggestionRow list" where
  "low_matched E sqrtf raws limit =
     (let matched = sort_key sg_UrgencyScore (filter low_stock (map (\<lambda>r. Forecast E sqrtf r DefaultWeeks) raws))
      in take (nat (if limit \<le> 0 then 200 else limit)) matched)"

definition ListLowStock_Execute :: "env \<Rightarrow> (int \<Rightarrow> rat) \<Rightarrow> RawRow list \<Rightarrow> int \<Rightarrow> LowStockRow list" where
  "ListLowStock_Execute E sqrtf raws limit = map (low_row E) (low_matched E sqrtf raws limit)"

section \<open>Purchase drafts of a batch\<close>

record DraftBatchLine =
  dl_ProductID :: uuid
  dl_SupplierID :: "uuid option"
  dl_Qty :: rat

record DraftBatchRequest =
  db_TenantID :: uuid
  db_CreatorID :: uuid
  db_Lines :: "DraftBatchLine list"
  db_Remark :: string

record DraftResult =
  dr_BillID :: uuid
  dr_BillNo :: string
  dr_SupplierID :: "uuid option"
  dr_SupplierName :: string
  dr_LineCount :: nat

definition supplier_key :: "env \<Rightarrow> DraftBatchLine \<Rightarrow> string" where
  "supplier_key E l = (case dl_SupplierID l of None \<Rightarrow> ''__no_supplier__'' | Some i \<Rightarrow> uuid_string E i)"

text \<open>The lines by supplier, in the order of the first line of each.\<close>

fun add_line :: "env \<Rightarrow> DraftBatchLine \<Rightarrow> (string \<times> uuid option \<times> DraftBatchLine list) list \<Rightarrow> (string \<times> uuid option \<times> DraftBatchLine list) list" where
  "add_line E l [] = [(supplier_key E l, dl_SupplierID l, [l])]"
| "add_line E l ((k, s, ls) # gs) = (if k = supplier_key E l then (k, s, ls @ [l]) # gs else (k, s, ls) # add_line E l gs)"

definition group_lines :: "env \<Rightarrow> DraftBatchLine list \<Rightarrow> (string \<times> uuid option \<times> DraftBatchLine list) list" where
  "group_lines E ls = foldl (\<lambda>gs l. if dl_Qty l \<le> 0 then gs else add_line E l gs) [] ls"

definition draft_items :: "(uuid, rat) map \<Rightarrow> DraftBatchLine list \<Rightarrow> CreatePurchaseItemInput list" where
  "draft_items prices ls = map (\<lambda>(i, l). \<lparr> ci_ProductID = dl_ProductID l, ci_UnitID = None, ci_UnitName = [], ci_LineNo = int i + 1,
     ci_Qty = dl_Qty l, ci_UnitPrice = (case prices (dl_ProductID l) of Some p \<Rightarrow> p | None \<Rightarrow> 0) \<rparr>) (enumerate 0 ls)"

definition draft_request :: "env \<Rightarrow> DraftBatchRequest \<Rightarrow> (uuid, rat) map \<Rightarrow> string \<times> uuid option \<times> DraftBatchLine list \<Rightarrow> CreatePurchaseDraftRequest" where
  "draft_request E req prices g =
     \<lparr> cp_TenantID = db_TenantID req, cp_CreatorID = db_CreatorID req, cp_PartnerID = fst (snd g), cp_WarehouseID = None, cp_BillDate = now E,
       cp_ShippingFee = 0, cp_TaxAmount = 0,
       cp_Remark = (if db_Remark req = [] then utf8 [0x8865, 0x8D27, 0x5EFA, 0x8BAE, 0x6279, 0x91CF, 0x8349, 0x7A3F] else db_Remark req),
       cp_Items = draft_items prices (snd (snd g)), cp_Currency = [], cp_ExchangeRate = 0 \<rparr>"

text \<open>
  One draft after the other, until one fails; earlier ones stay.  \<open>names\<close> resolves a supplier.  The stamps of the
  suggestion ledger, which cannot fail the request, are left out.
\<close>

fun create_drafts ::
  "env \<Rightarrow> (uuid \<Rightarrow> string option) \<Rightarrow> DraftBatchRequest \<Rightarrow> (uuid, rat) map \<Rightarrow> (string \<times> uuid option \<times> DraftBatchLine list) list
     \<Rightarrow> db \<Rightarrow> (err + DraftResult list) \<times> db" where
  "create_drafts E names req prices [] s = (Inr [], s)"
| "create_drafts E names req prices (g # gs) s =
     (case CreatePurchaseDraft_Execute E (draft_request E req prices g) s of
        (Inl e, s') \<Rightarrow> (Inl (Wrap (''replenish batch draft: create group '' @ fst g) e), s')
      | (Inr (billID, billNo), s') \<Rightarrow>
          (case create_drafts E names req prices gs s' of
             (Inl e, s'') \<Rightarrow> (Inl e, s'')
           | (Inr rs, s'') \<Rightarrow>
               (Inr (\<lparr> dr_BillID = billID, dr_BillNo = billNo, dr_SupplierID = fst (snd g),
                  dr_SupplierName = (case fst (snd g) of None \<Rightarrow> [] | Some i \<Rightarrow> (case names i of None \<Rightarrow> [] | Some n \<Rightarrow> n)),
                  dr_LineCount = length (snd (snd g)) \<rparr> # rs), s'')))"

text \<open>\<open>lookup\<close> is the query for last purchase prices of pairs of product and supplier, keyed by product.\<close>

definition DraftBatch_Execute ::
  "env \<Rightarrow> (uuid \<Rightarrow> string option) \<Rightarrow> ((uuid \<times> uuid option) list \<Rightarrow> err + (uuid, rat) map) \<Rightarrow> DraftBatchRequest \<Rightarrow> db \<Rightarrow> (err + DraftResult list) \<times> db" where
  "DraftBatch_Execute E names lookup req s =
     (if db_TenantID req = uuid_Nil then (Inl (ErrMsg ''replenish batch draft: tenant_id required''), s)
      else if db_Lines req = [] then (Inl (ErrMsg ''replenish batch draft: at least one line required''), s)
      else let groups = group_lines E (db_Lines req) in
        if groups = [] then (Inl (ErrMsg ''replenish batch draft: all lines have zero or negative qty''), s)
        else case lookup (concat (map (\<lambda>(k, sup, ls). map (\<lambda>l. (dl_ProductID l, sup)) ls) groups)) of
               Inl e \<Rightarrow> (Inl (Wrap ''replenish batch draft: last purchase prices'' e), s)
             | Inr prices \<Rightarrow> create_drafts E names req prices groups s)"

section \<open>The suggested quantity\<close>

text \<open>What a product needs over the weeks: sales and safety stock.\<close>

definition need :: "(int \<Rightarrow> rat) \<Rightarrow> int \<Rightarrow> RawRow \<Rightarrow> rat" where
  "need sqrtf weeks r = rw_AvgDailySales r * 7 * of_int (if weeks \<le> 0 then 2 else weeks) + safety_stock sqrtf r"

text \<open>\<open>n\<close> is the least whole number that, with what is there and on its way, covers \<open>x\<close>.\<close>

definition least_cover :: "rat \<Rightarrow> rat \<Rightarrow> nat \<Rightarrow> bool" where
  "least_cover x have n \<longleftrightarrow> x \<le> have + of_nat n \<and> (\<forall>m. x \<le> have + of_nat m \<longrightarrow> n \<le> m)"

lemma least_cover_ceiling: "least_cover x a (nat \<lceil>max (x - a) 0\<rceil>)"
proof -
  have "x - a \<le> of_nat (nat \<lceil>max (x - a) 0\<rceil>)" by (simp add: le_of_int_ceiling max_def ceiling_le_zero)
  moreover have "nat \<lceil>max (x - a) 0\<rceil> \<le> m" if "x \<le> a + of_nat m" for m
    using that by (simp add: nat_le_iff ceiling_le_iff max_def)
  ultimately show ?thesis by (simp add: least_cover_def algebra_simps)
qed

lemma suggested:
  "\<exists>n. sg_SuggestedQty (Forecast E sqrtf r weeks) = of_nat n \<and> least_cover (need sqrtf weeks r) (rw_AvailableQty r + rw_InTransit r) n"
proof -
  let ?x = "need sqrtf weeks r - (rw_AvailableQty r + rw_InTransit r)"
  have "sg_SuggestedQty (Forecast E sqrtf r weeks) = of_int \<lceil>max ?x 0\<rceil>"
    by (simp add: Forecast_def Let_def split_beta need_def DefaultWeeks_def algebra_simps)
  moreover have "0 \<le> \<lceil>max ?x 0\<rceil>" by simp
  ultimately have "sg_SuggestedQty (Forecast E sqrtf r weeks) = of_nat (nat \<lceil>max ?x 0\<rceil>)" by simp
  then show ?thesis using least_cover_ceiling by blast
qed

text \<open>
  The suggestion is the smallest order that suffices.  Every product of the query gets one row, rows come by days
  of supply, and the quantity is the least whole number that covers the sales of the weeks and the safety
  stock together with what is available and in transit; the ledger gets exactly the rows with something to order.
\<close>

theorem reorder_suggestions:
  assumes "ListSuggestions_Execute E sqrtf raws weeks = (out, snaps)"
  shows "mset (map sg_ProductID out) = mset (map rw_ProductID raws) \<and> sorted (map sg_UrgencyScore out)
    \<and> (\<forall>f \<in> set out. \<exists>r \<in> set raws. sg_ProductID f = rw_ProductID r
         \<and> (\<exists>n. sg_SuggestedQty f = of_nat n \<and> least_cover (need sqrtf weeks r) (rw_AvailableQty r + rw_InTransit r) n))
    \<and> snaps = map snapshot_row (filter (\<lambda>f. sg_SuggestedQty f \<noteq> 0) out)"
proof -
  let ?w = "if weeks \<le> 0 then DefaultWeeks else weeks"
  have out: "out = sort_key sg_UrgencyScore (map (\<lambda>r. Forecast E sqrtf r ?w) raws)" "snaps = map snapshot_row (filter (\<lambda>f. 0 < sg_SuggestedQty f) out)"
    using assms by (auto simp: ListSuggestions_Execute_def Let_def)
  have id: "sg_ProductID (Forecast E sqrtf r k) = rw_ProductID r" for r k by (simp add: Forecast_def Let_def split_beta)
  have "need sqrtf ?w r = need sqrtf weeks r" for r by (simp add: need_def DefaultWeeks_def)
  then have each: "\<exists>r \<in> set raws. sg_ProductID f = rw_ProductID r
      \<and> (\<exists>n. sg_SuggestedQty f = of_nat n \<and> least_cover (need sqrtf weeks r) (rw_AvailableQty r + rw_InTransit r) n)" if "f \<in> set out" for f
    using that suggested [of E sqrtf _ ?w] id unfolding out(1) by force
  then have "filter (\<lambda>f. 0 < sg_SuggestedQty f) out = filter (\<lambda>f. sg_SuggestedQty f \<noteq> 0) out" by (intro filter_cong) fastforce+
  moreover have "mset (map sg_ProductID out) = mset (map rw_ProductID raws)"
    by (simp only: out(1) mset_map mset_sort multiset.map_comp o_def id)
  moreover have "sorted (map sg_UrgencyScore out)" by (simp add: out(1))
  ultimately show ?thesis using each unfolding out(2) by simp
qed

section \<open>The low-stock list\<close>

text \<open>
  The low-stock list is complete.  A product is listed only if it has a reorder point (the one set for it, else
  the learned one) and strictly less than it available; one that qualifies is left out only when the list is
  full with products at least as urgent.
\<close>

theorem low_stock_complete:
  assumes "listed = low_matched E sqrtf raws limit"
  shows "ListLowStock_Execute E sqrtf raws limit = map (low_row E) listed
    \<and> (\<forall>f \<in> set listed. \<exists>r \<in> set raws. f = Forecast E sqrtf r 2 \<and> ReorderPoint f \<noteq> 0 \<and> rw_AvailableQty r < ReorderPoint f)
    \<and> (\<forall>r \<in> set raws. let f = Forecast E sqrtf r 2 in ReorderPoint f \<noteq> 0 \<and> rw_AvailableQty r < ReorderPoint f \<longrightarrow>
         f \<in> set listed \<or> length listed = nat (if limit \<le> 0 then 200 else limit) \<and> (\<forall>g \<in> set listed. sg_UrgencyScore g \<le> sg_UrgencyScore f))"
proof -
  define all where "all = sort_key sg_UrgencyScore (filter low_stock (map (\<lambda>r. Forecast E sqrtf r DefaultWeeks) raws))"
  define n where "n = nat (if limit \<le> 0 then 200 else limit)"
  have listed: "listed = take n all" using assms by (simp add: low_matched_def Let_def all_def n_def)
  have avail: "sg_AvailableQty (Forecast E sqrtf r k) = rw_AvailableQty r" for r k by (simp add: Forecast_def Let_def split_beta)
  have low: "low_stock (Forecast E sqrtf r k) \<longleftrightarrow> ReorderPoint (Forecast E sqrtf r k) \<noteq> 0 \<and> rw_AvailableQty r < ReorderPoint (Forecast E sqrtf r k)" for r k
    by (auto simp: low_stock_def avail)
  have mem: "f \<in> set all \<longleftrightarrow> (\<exists>r \<in> set raws. f = Forecast E sqrtf r 2 \<and> low_stock f)" for f by (auto simp: all_def DefaultWeeks_def)
  have "\<exists>r \<in> set raws. f = Forecast E sqrtf r 2 \<and> ReorderPoint f \<noteq> 0 \<and> rw_AvailableQty r < ReorderPoint f" if "f \<in> set listed" for f
    using in_set_takeD [OF that [unfolded listed]] low unfolding mem by blast
  moreover have "f \<in> set listed \<or> length listed = n \<and> (\<forall>g \<in> set listed. sg_UrgencyScore g \<le> sg_UrgencyScore f)" if "f \<in> set all" for f
  proof (cases "f \<in> set listed")
    case False
    then have "f \<in> set (drop n all)" using that unfolding listed by (metis Un_iff append_take_drop_id set_append)
    moreover from this have "length listed = n" unfolding listed by (cases "length all \<le> n") auto
    moreover have "sorted (map sg_UrgencyScore (take n all @ drop n all))" by (simp add: all_def)
    ultimately show ?thesis unfolding listed map_append sorted_append by auto
  qed simp
  ultimately show ?thesis unfolding ListLowStock_Execute_def assms Let_def n_def using low mem by blast
qed

section \<open>Every line in one draft\<close>

definition group_ok :: "env \<Rightarrow> (string \<times> uuid option \<times> DraftBatchLine list) list \<Rightarrow> bool" where
  "group_ok E gs \<longleftrightarrow> distinct (map fst gs)
     \<and> (\<forall>(k, s, ls) \<in> set gs. ls \<noteq> [] \<and> (\<forall>l \<in> set ls. supplier_key E l = k \<and> dl_SupplierID l = s))"

lemma supplier_key_inj:
  assumes "runtime_env E" "supplier_key E l = supplier_key E m"
  shows "dl_SupplierID l = dl_SupplierID m"
proof -
  have "list_all (\<lambda>c. c \<in> set uuid_chars) (uuid_string E i)" for i by (rule runtime_env.uuid_string_chars [OF assms(1)])
  moreover have "\<not> list_all (\<lambda>c. c \<in> set uuid_chars) ''__no_supplier__''" by code_simp
  ultimately have "uuid_string E i \<noteq> ''__no_supplier__''" for i by metis
  then show ?thesis using assms(2) runtime_env.uuid_string_inj [OF assms(1)]
    by (auto simp: supplier_key_def split: option.splits)
qed

lemma add_line_keys: "set (map fst (add_line E l gs)) = insert (supplier_key E l) (set (map fst gs))"
  by (induction E l gs rule: add_line.induct) auto

lemma add_line_lines: "mset (concat (map (snd \<circ> snd) (add_line E l gs))) = add_mset l (mset (concat (map (snd \<circ> snd) gs)))"
  by (induction E l gs rule: add_line.induct) auto

lemma add_line_ok:
  assumes "runtime_env E" "group_ok E gs"
  shows "group_ok E (add_line E l gs)"
  using assms(2)
proof (induction gs)
  case Nil
  then show ?case by (simp add: group_ok_def)
next
  case (Cons g gs)
  obtain k s ls where g: "g = (k, s, ls)" by (cases g)
  show ?case
  proof (cases "k = supplier_key E l")
    case True
    have ls: "ls \<noteq> []" "\<forall>m \<in> set ls. supplier_key E m = k \<and> dl_SupplierID m = s" using Cons.prems by (auto simp: group_ok_def g)
    then obtain m where "m \<in> set ls" by (cases ls) auto
    then have "dl_SupplierID l = s" using ls(2) True supplier_key_inj [OF assms(1), of l m] by simp
    then show ?thesis using Cons.prems True by (auto simp: group_ok_def g)
  next
    case False
    then show ?thesis using Cons add_line_keys [of E l gs] by (auto simp: group_ok_def g)
  qed
qed

lemma group_lines_ok:
  assumes "runtime_env E"
  shows "group_ok E (group_lines E ls) \<and> mset (concat (map (snd \<circ> snd) (group_lines E ls))) = mset (filter (\<lambda>l. 0 < dl_Qty l) ls)"
proof -
  have "group_ok E (foldl (\<lambda>gs l. if dl_Qty l \<le> 0 then gs else add_line E l gs) gs ls)
      \<and> mset (concat (map (snd \<circ> snd) (foldl (\<lambda>gs l. if dl_Qty l \<le> 0 then gs else add_line E l gs) gs ls)))
        = mset (concat (map (snd \<circ> snd) gs)) + mset (filter (\<lambda>l. 0 < dl_Qty l) ls)" if "group_ok E gs" for gs
    using that
  proof (induction ls arbitrary: gs)
    case (Cons l ls)
    show ?case
    proof (cases "dl_Qty l \<le> 0")
      case True
      then show ?thesis using Cons by simp
    next
      case False
      then show ?thesis using Cons.IH [OF add_line_ok [OF assms Cons.prems], of l] add_line_lines [of E l gs] by (simp add: o_def)
    qed
  qed simp
  from this [of "[]"] show ?thesis by (simp add: group_lines_def group_ok_def)
qed

text \<open>The supplier a stored line is ordered from.\<close>

definition line_supplier :: "uuid \<Rightarrow> db \<Rightarrow> BillItem \<Rightarrow> uuid option option" where
  "line_supplier t s it = map_option h_PartnerID (find_head t (it_HeadID it) s)"

text \<open>What a line of the request orders, and what a stored line does.\<close>

definition line_order :: "env \<Rightarrow> DraftBatchLine \<Rightarrow> uuid \<times> uuid option option \<times> rat" where
  "line_order E l = (dl_ProductID l, Some (dl_SupplierID l), numeric E 4 (dl_Qty l))"

definition stored_order :: "uuid \<Rightarrow> db \<Rightarrow> BillItem \<Rightarrow> uuid \<times> uuid option option \<times> rat" where
  "stored_order t s it = (it_ProductID it, line_supplier t s it, it_Qty it)"

text \<open>A result names a new purchase draft for its supplier, with as many lines as it says.\<close>

definition draft_of :: "uuid \<Rightarrow> db \<Rightarrow> db \<Rightarrow> BillItem list \<Rightarrow> DraftResult \<Rightarrow> bool" where
  "draft_of t s s' new r \<longleftrightarrow> find_head t (dr_BillID r) s = None
     \<and> (\<exists>h. find_head t (dr_BillID r) s' = Some h \<and> h_BillNo h = dr_BillNo r \<and> h_Status h = StatusDraft \<and> h_BillType h = BillTypePurchase
          \<and> h_SubType h = BillSubTypePurchase \<and> h_PartnerID h = dr_SupplierID r)
     \<and> length (filter (\<lambda>it. it_HeadID it = dr_BillID r) new) = dr_LineCount r"

text \<open>One draft: its lines are the lines of the group.\<close>

lemma group_draft_stored:
  assumes "runtime_env E" "bills_ok E s" "CreatePurchaseDraft_Execute E (draft_request E req prices (k, who, ls)) s = (Inr (i, no), s1)"
    and "\<forall>l \<in> set ls. dl_SupplierID l = who"
  obtains h new where "bills_ok E s1" "find_head (db_TenantID req) i s = None"
    "\<forall>t b. (t, b) = (db_TenantID req, i) \<or> find_head t b s1 = find_head t b s"
    "find_head (db_TenantID req) i s1 = Some h" "h_BillNo h = no" "h_Status h = StatusDraft" "h_BillType h = BillTypePurchase"
    "h_SubType h = BillSubTypePurchase" "h_PartnerID h = who" "bill_item s1 = bill_item s @ new" "\<forall>it \<in> set new. it_HeadID it = i"
    "length new = length ls" "map (\<lambda>it. (it_ProductID it, Some who, it_Qty it)) new = map (line_order E) ls"
proof -
  note P = purchase_draft_stored [OF assms(1-3)]
  have t: "cp_TenantID (draft_request E req prices (k, who, ls)) = db_TenantID req"
    "cp_PartnerID (draft_request E req prices (k, who, ls)) = who"
    "cp_Items (draft_request E req prices (k, who, ls)) = draft_items prices ls" by (simp_all add: draft_request_def)
  obtain items where items: "list_all2 (\<lambda>it. line_for E (db_TenantID req) i (ci_UnitPrice it) it) (draft_items prices ls) items"
    "bill_item s1 = bill_item s @ map (stored_item E) items" using P unfolding t by blast
  have len: "length items = length ls" using list_all2_lengthD [OF items(1)] by (simp add: draft_items_def)
  have each: "it_HeadID (items ! n) = i \<and> it_ProductID (items ! n) = dl_ProductID (ls ! n) \<and> it_Qty (items ! n) = dl_Qty (ls ! n)" if "n < length ls" for n
    using list_all2_nthD2 [OF items(1), of n] that len by (simp add: line_for_def draft_items_def nth_enumerate_eq)
  have orders: "map (\<lambda>it. (it_ProductID it, Some who, it_Qty it)) (map (stored_item E) items) = map (line_order E) ls"
  proof (rule nth_equalityI)
    fix n assume "n < length (map (\<lambda>it. (it_ProductID it, Some who, it_Qty it)) (map (stored_item E) items))"
    then have n: "n < length items" "n < length ls" using len by simp_all
    then have "dl_SupplierID (ls ! n) = who" using assms(4) nth_mem by blast
    then show "map (\<lambda>it. (it_ProductID it, Some who, it_Qty it)) (map (stored_item E) items) ! n = map (line_order E) ls ! n"
      using n each [OF n(2)] by (simp add: stored_item_def line_order_def)
  qed (simp add: len)
  have heads: "\<forall>it \<in> set (map (stored_item E) items). it_HeadID it = i"
    using each len by (auto simp: stored_item_def in_set_conv_nth)
  obtain h where h: "find_head (db_TenantID req) i s1 = Some h" "h_BillNo h = no" "h_Status h = StatusDraft" "h_BillType h = BillTypePurchase"
    "h_SubType h = BillSubTypePurchase" "h_PartnerID h = who" using P unfolding t by blast
  show ?thesis
    by (rule that [OF _ _ _ h items(2) heads _ orders]) (use P t len in simp_all)
qed

text \<open>One group for each supplier.\<close>

lemma group_suppliers_distinct:
  assumes "group_ok E gs"
  shows "distinct (map (fst \<circ> snd) gs)"
proof -
  define key where "key who = (case who of None \<Rightarrow> ''__no_supplier__'' | Some i \<Rightarrow> uuid_string E i)" for who
  have "fst g = key (fst (snd g))" if "g \<in> set gs" for g
  proof -
    obtain k who ls where g: "g = (k, who, ls)" by (cases g)
    have ls: "ls \<noteq> [] \<and> (\<forall>l \<in> set ls. supplier_key E l = k \<and> dl_SupplierID l = who)" using assms that unfolding group_ok_def g by blast
    then obtain l where "l \<in> set ls" by (meson ex_in_conv set_empty)
    then show ?thesis using ls g by (auto simp: supplier_key_def key_def)
  qed
  then have "map fst gs = map key (map (fst \<circ> snd) gs)" by simp
  moreover have "distinct (map fst gs)" using assms by (simp add: group_ok_def)
  ultimately have "distinct (map key (map (fst \<circ> snd) gs))" by (simp only:)
  then show ?thesis unfolding distinct_map [of key] by blast
qed

text \<open>All of them, one after the other.\<close>

lemma drafts_stored:
  assumes "runtime_env E"
  shows "create_drafts E names req prices gs s = (Inr rs, s') \<Longrightarrow> bills_ok E s \<Longrightarrow>
     \<forall>(k, who, ls) \<in> set gs. \<forall>l \<in> set ls. dl_SupplierID l = who \<Longrightarrow>
     bills_ok E s' \<and> map dr_SupplierID rs = map (fst \<circ> snd) gs \<and> distinct (map dr_BillID rs)
     \<and> (\<forall>t b. t \<noteq> db_TenantID req \<or> b \<notin> dr_BillID ` set rs \<longrightarrow> find_head t b s' = find_head t b s)
     \<and> (\<exists>new. bill_item s' = bill_item s @ new \<and> (\<forall>it \<in> set new. it_HeadID it \<in> dr_BillID ` set rs)
          \<and> list_all (draft_of (db_TenantID req) s s' new) rs
          \<and> map (stored_order (db_TenantID req) s') new = map (line_order E) (concat (map (snd \<circ> snd) gs)))"
proof (induction gs arbitrary: s rs)
  case (Cons g gs)
  let ?t = "db_TenantID req"
  obtain k who ls where g: "g = (k, who, ls)" by (cases g)
  obtain i no s1 rs' where one: "CreatePurchaseDraft_Execute E (draft_request E req prices (k, who, ls)) s = (Inr (i, no), s1)"
    and r: "create_drafts E names req prices gs s1 = (Inr rs', s')" and rs: "\<exists>nm. rs = \<lparr> dr_BillID = i, dr_BillNo = no,
      dr_SupplierID = who, dr_SupplierName = nm, dr_LineCount = length ls \<rparr> # rs'"
    using Cons.prems(1) unfolding g create_drafts.simps by (auto split: prod.splits sum.splits)
  have whose: "\<forall>l \<in> set ls. dl_SupplierID l = who" "\<forall>(k, who, ls) \<in> set gs. \<forall>l \<in> set ls. dl_SupplierID l = who"
    using Cons.prems(3) unfolding g by auto
  from group_draft_stored [OF assms Cons.prems(2) one whose(1)] obtain h new where ok: "bills_ok E s1" and none: "find_head ?t i s = None"
    and frame: "\<forall>t b. (t, b) = (?t, i) \<or> find_head t b s1 = find_head t b s" and h: "find_head ?t i s1 = Some h" "h_BillNo h = no"
      "h_Status h = StatusDraft" "h_BillType h = BillTypePurchase" "h_SubType h = BillSubTypePurchase" "h_PartnerID h = who"
    and new: "bill_item s1 = bill_item s @ new" "\<forall>it \<in> set new. it_HeadID it = i" "length new = length ls"
      "map (\<lambda>it. (it_ProductID it, Some who, it_Qty it)) new = map (line_order E) ls" by blast
  note I = Cons.IH [OF r ok whose(2)]
  obtain new' where new': "bill_item s' = bill_item s1 @ new'" "\<forall>it \<in> set new'. it_HeadID it \<in> dr_BillID ` set rs'"
    "list_all (draft_of ?t s1 s' new') rs'" "map (stored_order ?t s') new' = map (line_order E) (concat (map (snd \<circ> snd) gs))" using I by blast
  have i: "i \<notin> dr_BillID ` set rs'" using new'(3) h(1) by (auto simp: list_all_iff draft_of_def)
  then have kept: "find_head ?t i s' = Some h" using I h(1) by simp
  have first: "filter (\<lambda>it. it_HeadID it = i) (new @ new') = new"
    using new(2) new'(2) i by (auto simp: filter_empty_conv filter_id_conv)
  have later: "draft_of ?t s s' (new @ new') r" if "r \<in> set rs'" for r
  proof -
    have "draft_of ?t s1 s' new' r" using that new'(3) by (simp add: list_all_iff)
    moreover have "dr_BillID r \<noteq> i" using that i by blast
    moreover have "filter (\<lambda>it. it_HeadID it = dr_BillID r) new = []" using new(2) \<open>dr_BillID r \<noteq> i\<close> by (auto simp: filter_empty_conv)
    moreover have "find_head ?t (dr_BillID r) s = find_head ?t (dr_BillID r) s1" using frame \<open>dr_BillID r \<noteq> i\<close> by (metis prod.inject)
    ultimately show ?thesis by (simp add: draft_of_def)
  qed
  have "map (stored_order ?t s') new = map (\<lambda>it. (it_ProductID it, Some who, it_Qty it)) new"
    using new(2) kept h(6) by (auto simp: stored_order_def line_supplier_def)
  then have orders: "map (stored_order ?t s') (new @ new') = map (line_order E) (concat (map (snd \<circ> snd) (g # gs)))"
    using new(4) new'(4) by (simp add: g)
  obtain nm where rs: "rs = \<lparr> dr_BillID = i, dr_BillNo = no, dr_SupplierID = who, dr_SupplierName = nm, dr_LineCount = length ls \<rparr> # rs'"
    using rs by blast
  have mine: "list_all (draft_of ?t s s' (new @ new')) rs"
    unfolding rs list.pred_inject(2)
  proof
    show "draft_of ?t s s' (new @ new') \<lparr> dr_BillID = i, dr_BillNo = no, dr_SupplierID = who, dr_SupplierName = nm, dr_LineCount = length ls \<rparr>"
      using none kept h(2-) new(3) by (simp add: draft_of_def first del: filter_append)
  qed (simp add: list_all_iff later)
  show ?case
  proof (intro conjI exI [of _ "new @ new'"])
    show "\<forall>t b. t \<noteq> ?t \<or> b \<notin> dr_BillID ` set rs \<longrightarrow> find_head t b s' = find_head t b s"
      using I frame unfolding rs by auto
  qed (use I i new new' mine orders in \<open>auto simp: rs g\<close>)
qed simp

text \<open>
  C34: a batch orders every line once, from its supplier.  When a batch succeeds, the lines it stores order exactly
  what the lines of the request with a positive quantity ask for: the same products, in the same quantities
  (as the column rounds them), from the same suppliers, none lost and none added.  There is one new purchase
  draft for each supplier, with as many lines as its result says, every line stored belongs to one of
  them, and no other bill changes.
\<close>

theorem batch_orders_each_line:
  assumes run: "runtime_env E" and ok: "bills_ok E s" and eff: "DraftBatch_Execute E names lookup req s = (Inr rs, s')"
  shows "\<exists>new. bill_item s' = bill_item s @ new
    \<and> mset (map (\<lambda>it. (it_ProductID it, line_supplier (db_TenantID req) s' it, it_Qty it)) new)
        = mset (map (\<lambda>l. (dl_ProductID l, Some (dl_SupplierID l), numeric E 4 (dl_Qty l))) (filter (\<lambda>l. 0 < dl_Qty l) (db_Lines req)))
    \<and> (\<forall>it \<in> set new. it_HeadID it \<in> dr_BillID ` set rs) \<and> list_all (draft_of (db_TenantID req) s s' new) rs
    \<and> distinct (map dr_BillID rs) \<and> distinct (map dr_SupplierID rs)
    \<and> (\<forall>t b. t \<noteq> db_TenantID req \<or> b \<notin> dr_BillID ` set rs \<longrightarrow> find_head t b s' = find_head t b s)"
proof -
  let ?gs = "group_lines E (db_Lines req)"
  obtain prices where c: "create_drafts E names req prices ?gs s = (Inr rs, s')"
    using eff by (auto simp: DraftBatch_Execute_def Let_def split: if_splits sum.splits)
  have groups: "group_ok E ?gs" and lines: "mset (concat (map (snd \<circ> snd) ?gs)) = mset (filter (\<lambda>l. 0 < dl_Qty l) (db_Lines req))"
    using group_lines_ok [OF run] by blast+
  then have "\<forall>(k, who, ls) \<in> set ?gs. \<forall>l \<in> set ls. dl_SupplierID l = who" by (auto simp: group_ok_def)
  note D = drafts_stored [OF run c ok this]
  obtain new where new: "bill_item s' = bill_item s @ new" "\<forall>it \<in> set new. it_HeadID it \<in> dr_BillID ` set rs"
    "list_all (draft_of (db_TenantID req) s s' new) rs"
    "map (stored_order (db_TenantID req) s') new = map (line_order E) (concat (map (snd \<circ> snd) ?gs))" using D by blast
  have "mset (map (stored_order (db_TenantID req) s') new) = mset (map (line_order E) (filter (\<lambda>l. 0 < dl_Qty l) (db_Lines req)))"
    unfolding new(4) mset_map lines ..
  then have orders: "mset (map (\<lambda>it. (it_ProductID it, line_supplier (db_TenantID req) s' it, it_Qty it)) new)
      = mset (map (\<lambda>l. (dl_ProductID l, Some (dl_SupplierID l), numeric E 4 (dl_Qty l))) (filter (\<lambda>l. 0 < dl_Qty l) (db_Lines req)))"
    unfolding stored_order_def line_order_def .
  have "distinct (map dr_SupplierID rs)" using group_suppliers_distinct [OF groups] D by simp
  then show ?thesis using new(1-3) orders D by blast
qed

section \<open>Examples\<close>

definition demo_raw :: "uuid \<Rightarrow> rat \<Rightarrow> rat \<Rightarrow> RawRow" where
  "demo_raw i avail daily = \<lparr> rw_ProductID = i, rw_ProductName = [], rw_ProductCode = [], rw_AvailableQty = avail, rw_SafetyQty = 0, rw_UnitCost = 4,
     rw_AvgDailySales = daily, rw_LeadTimeDays = 4, rw_InTransit = 0, rw_SupplierID = None, rw_SupplierName = [], rw_LearnedLeadDays = 0,
     rw_LeadTimeSamples = 0, rw_LastPurchasePrice = None \<rparr>"

text \<open>A table of square roots for the lead times used here.\<close>

definition demo_sqrt :: "int \<Rightarrow> rat" where
  "demo_sqrt n = (if n = 4 then 2 else of_int n)"

theorem reorder_suggestions_witness:
  "\<exists>f. f \<in> set (fst (ListSuggestions_Execute std_env demo_sqrt [demo_raw 12 3 1] 2)) \<and> sg_ProductID f = 12
     \<and> (\<exists>n. sg_SuggestedQty f = of_nat n \<and> least_cover (need demo_sqrt 2 (demo_raw 12 3 1)) 3 n)"
proof -
  obtain out snaps where r: "ListSuggestions_Execute std_env demo_sqrt [demo_raw 12 3 1] 2 = (out, snaps)" by (cases "ListSuggestions_Execute std_env demo_sqrt [demo_raw 12 3 1] 2")
  note all = reorder_suggestions [OF r]
  have "size (mset (map sg_ProductID out)) = 1" unfolding all [THEN conjunct1] by simp
  then obtain f where f: "f \<in> set out" by (cases out) auto
  have "\<exists>r \<in> set [demo_raw 12 3 1]. sg_ProductID f = rw_ProductID r
      \<and> (\<exists>n. sg_SuggestedQty f = of_nat n \<and> least_cover (need demo_sqrt 2 r) (rw_AvailableQty r + rw_InTransit r) n)"
    by (rule bspec [OF all [THEN conjunct2, THEN conjunct2, THEN conjunct1] f])
  moreover have "rw_ProductID (demo_raw 12 3 1) = 12" "rw_AvailableQty (demo_raw 12 3 1) + rw_InTransit (demo_raw 12 3 1) = 3" by (simp_all add: demo_raw_def)
  ultimately show ?thesis using f r by auto
qed

theorem low_stock_complete_witness:
  "map sg_ProductID (low_matched std_env demo_sqrt [demo_raw 12 3 1, demo_raw 13 99 1] 1) = [12]
   \<and> Forecast std_env demo_sqrt (demo_raw 12 3 1) 2 \<in> set (low_matched std_env demo_sqrt [demo_raw 12 3 1, demo_raw 13 99 1] 1)"
proof -
  let ?l = "low_matched std_env demo_sqrt [demo_raw 12 3 1, demo_raw 13 99 1] 1"
  have "map sg_ProductID ?l = [12]" by code_simp
  moreover from this obtain f where f: "?l = [f]" "sg_ProductID f = 12" by auto
  moreover have "sg_ProductID (Forecast std_env demo_sqrt (demo_raw 13 99 1) 2) = 13" by code_simp
  ultimately show ?thesis using low_stock_complete [of ?l std_env demo_sqrt "[demo_raw 12 3 1, demo_raw 13 99 1]" 1] by force
qed

definition demo_batch :: DraftBatchRequest where
  "demo_batch = \<lparr> db_TenantID = 11, db_CreatorID = 14, db_Lines = [\<lparr> dl_ProductID = 12, dl_SupplierID = None, dl_Qty = 5 \<rparr>,
     \<lparr> dl_ProductID = 12, dl_SupplierID = None, dl_Qty = 0 \<rparr>], db_Remark = ''week 17'' \<rparr>"

definition demo_order :: CreatePurchaseDraftRequest where
  "demo_order = \<lparr> cp_TenantID = 11, cp_CreatorID = 14, cp_PartnerID = None, cp_WarehouseID = None, cp_BillDate = now std_env, cp_ShippingFee = 0,
     cp_TaxAmount = 0, cp_Remark = ''week 17'', cp_Items = [\<lparr> ci_ProductID = 12, ci_UnitID = None, ci_UnitName = [], ci_LineNo = 1, ci_Qty = 5, ci_UnitPrice = 0 \<rparr>],
     cp_Currency = [], cp_ExchangeRate = 0 \<rparr>"

lemma demo_order_accepted: "\<not> isl (fst (CreatePurchaseDraft_Execute std_env demo_order demo_shop))"
  by code_simp

lemma demo_groups: "group_lines std_env (db_Lines demo_batch) = [(''__no_supplier__'', None, [\<lparr> dl_ProductID = 12, dl_SupplierID = None, dl_Qty = 5 \<rparr>])]"
  by (simp add: demo_batch_def group_lines_def supplier_key_def)

lemma demo_draft_request:
  "draft_request std_env demo_batch Map.empty (k, None, [\<lparr> dl_ProductID = 12, dl_SupplierID = None, dl_Qty = 5 \<rparr>]) = demo_order"
  by (simp add: draft_request_def demo_batch_def demo_order_def draft_items_def)

lemma demo_batch_accepted: "\<not> isl (fst (DraftBatch_Execute std_env (\<lambda>_. None) (\<lambda>_. Inr Map.empty) demo_batch demo_shop))"
proof -
  obtain i no s' where "CreatePurchaseDraft_Execute std_env demo_order demo_shop = (Inr (i, no), s')"
    using not_isl_result [OF demo_order_accepted] by (metis surj_pair)
  then have "create_drafts std_env (\<lambda>_. None) demo_batch Map.empty (group_lines std_env (db_Lines demo_batch)) demo_shop
      = (Inr [\<lparr> dr_BillID = i, dr_BillNo = no, dr_SupplierID = None, dr_SupplierName = [], dr_LineCount = 1 \<rparr>], s')"
    by (simp only: demo_groups create_drafts.simps demo_draft_request) simp
  moreover have "db_TenantID demo_batch \<noteq> uuid_Nil" "db_Lines demo_batch \<noteq> []" by (simp_all add: demo_batch_def)
  moreover have "group_lines std_env (db_Lines demo_batch) \<noteq> []" by (simp only: demo_groups) simp
  ultimately show ?thesis by (simp add: DraftBatch_Execute_def Let_def)
qed

theorem batch_orders_each_line_witness:
  "\<exists>rs s' new. DraftBatch_Execute std_env (\<lambda>_. None) (\<lambda>_. Inr Map.empty) demo_batch demo_shop = (Inr rs, s')
     \<and> bill_item s' = bill_item demo_shop @ new \<and> map (\<lambda>it. (it_ProductID it, line_supplier 11 s' it, it_Qty it)) new = [(12, Some None, 5)]"
proof -
  obtain rs s' where r: "DraftBatch_Execute std_env (\<lambda>_. None) (\<lambda>_. Inr Map.empty) demo_batch demo_shop = (Inr rs, s')"
    using not_isl_result [OF demo_batch_accepted] by blast
  have k: "db_TenantID demo_batch = 11" "filter (\<lambda>l. 0 < dl_Qty l) (db_Lines demo_batch) = [\<lparr> dl_ProductID = 12, dl_SupplierID = None, dl_Qty = 5 \<rparr>]"
    by (simp_all add: demo_batch_def)
  have five: "numeric std_env 4 (5 :: rat) = 5" by code_simp
  obtain new where new: "bill_item s' = bill_item demo_shop @ new"
    "mset (map (\<lambda>it. (it_ProductID it, line_supplier 11 s' it, it_Qty it)) new) = mset [(12, Some None, 5)]"
    using batch_orders_each_line [OF std_runtime demo_shop_ok r] by (auto simp: k five)
  then have "map (\<lambda>it. (it_ProductID it, line_supplier 11 s' it, it_Qty it)) new = [(12, Some None, 5)]" by (simp only: mset_single_iff mset.simps)
  then show ?thesis by (intro exI [of _ rs] exI [of _ s'] exI [of _ new] conjI r new(1))
qed

end
