(* ===== verification/Entitlement.thy ===== *)
theory Entitlement
  imports Order_File
begin

text \<open>
  What a plan allows (\<open>internal/app/entitlement\<close>).  The answers of the platform, of the directory of accounts and of the
  counting queries are arguments of each call; the caches are state.
\<close>

section \<open>Limits\<close>

definition KeyMaxUsers :: string where "KeyMaxUsers = ''max_users''"
definition KeyMaxSKUs :: string where "KeyMaxSKUs = ''max_skus''"
definition KeyMaxWarehouses :: string where "KeyMaxWarehouses = ''max_warehouses''"
definition Unlimited :: int where "Unlimited = - 1"
definition limitCacheTTL :: gotime where "limitCacheTTL = seconds 60"
definition statusTTL :: gotime where "statusTTL = seconds 10"

lemmas limit_key_defs = KeyMaxUsers_def KeyMaxSKUs_def KeyMaxWarehouses_def

definition limitKeys :: "(string \<times> string list) list" where
  "limitKeys = [(KeyMaxUsers, [KeyMaxUsers, ''users'']), (KeyMaxSKUs, [KeyMaxSKUs, ''skus'']), (KeyMaxWarehouses, [KeyMaxWarehouses, ''warehouses''])]"

text \<open>\<open>strconv.ParseInt(s, 10, 64)\<close>.\<close>

definition ParseInt64 :: "string \<Rightarrow> int option" where
  "ParseInt64 s =
     (let (neg, ds) = (case s of [] \<Rightarrow> (False, []) | c # cs \<Rightarrow> if c = CHR ''-'' then (True, cs) else if c = CHR ''+'' then (False, cs) else (False, s));
          n = (if ds = [] then None else map_option (\<lambda>n. if neg then - int n else int n) (parse_digits 0 ds))
      in case n of None \<Rightarrow> None | Some k \<Rightarrow> if - (2 ^ 63) \<le> k \<and> k < 2 ^ 63 then Some k else None)"

fun parseLimit :: "(string, string) map \<Rightarrow> string list \<Rightarrow> int" where
  "parseLimit ents [] = Unlimited"
| "parseLimit ents (a # as') =
     (case ents a of
        None \<Rightarrow> parseLimit ents as'
      | Some raw \<Rightarrow> (case ParseInt64 (TrimSpace raw) of None \<Rightarrow> Unlimited | Some n \<Rightarrow> if n < 0 then Unlimited else n))"

section \<open>The service\<close>

text \<open>The account of a tenant: an error, none, or one; the entitlements of an account: refused, another error, or a map.\<close>

datatype account_answer = AccountError | NoAccount | Account int
datatype platform_answer = KeyRejected | PlatformError | Entitled "(string, string) map"

datatype ent_err = EntUnauthenticated | UnknownLimitKey string | ErrPlanLimitReached string int int

record limitEntry =
  le_vals :: "(string, int) map"
  le_at :: gotime

text \<open>The value of a key missing in a cached map is Go's zero.\<close>

definition cached_limit :: "limitEntry \<Rightarrow> string \<Rightarrow> int" where
  "cached_limit e key = (case le_vals e key of None \<Rightarrow> 0 | Some n \<Rightarrow> n)"

definition plan_limits :: "(string, string) map option \<Rightarrow> (string, int) map" where
  "plan_limits ents = map_of (map (\<lambda>(k, aliases). (k, case ents of None \<Rightarrow> Unlimited | Some m \<Rightarrow> parseLimit m aliases)) limitKeys)"

definition Limit ::
  "gotime \<Rightarrow> account_answer \<Rightarrow> (int \<Rightarrow> platform_answer) \<Rightarrow> uuid \<Rightarrow> string \<Rightarrow> (uuid, limitEntry) map \<Rightarrow> (ent_err + int) \<times> (uuid, limitEntry) map" where
  "Limit t acc platform tenant key cache =
     (if tenant = uuid_Nil then (Inl EntUnauthenticated, cache)
      else if key \<notin> fst ` set limitKeys then (Inr Unlimited, cache)
      else let fetch = (\<lambda>u :: unit.
               (case acc of
                  AccountError \<Rightarrow> (Inr Unlimited, cache)
                | NoAccount \<Rightarrow> let e = \<lparr> le_vals = plan_limits None, le_at = t \<rparr> in (Inr (cached_limit e key), cache(tenant \<mapsto> e))
                | Account a \<Rightarrow>
                    (case platform a of
                       Entitled m \<Rightarrow> let e = \<lparr> le_vals = plan_limits (Some m), le_at = t \<rparr> in (Inr (cached_limit e key), cache(tenant \<mapsto> e))
                     | _ \<Rightarrow> (Inr Unlimited, cache))))
           in case cache tenant of
                Some e \<Rightarrow> if t - le_at e < limitCacheTTL then (Inr (cached_limit e key), cache) else fetch ()
              | None \<Rightarrow> fetch ())"

definition truthy :: "string \<Rightarrow> bool" where
  "truthy v \<longleftrightarrow> ToLower (TrimSpace v) \<notin> {[], ''false'', ''0'', ''no'', ''off''}"

definition Has :: "account_answer \<Rightarrow> (int \<Rightarrow> platform_answer) \<Rightarrow> uuid \<Rightarrow> string \<Rightarrow> ent_err + bool" where
  "Has acc platform tenant key =
     (if tenant = uuid_Nil then Inl EntUnauthenticated
      else case acc of
             AccountError \<Rightarrow> Inr True
           | NoAccount \<Rightarrow> Inr False
           | Account a \<Rightarrow>
               (case platform a of
                  KeyRejected \<Rightarrow> Inr False
                | PlatformError \<Rightarrow> Inr True
                | Entitled m \<Rightarrow> Inr (case m key of None \<Rightarrow> False | Some v \<Rightarrow> truthy v)))"

section \<open>The guard\<close>

datatype mode = ModeOff | ModeShadow | ModeEnforce

definition ParseMode :: "string \<Rightarrow> mode" where
  "ParseMode v = (if v = ''off'' then ModeOff else if v = ''enforce'' then ModeEnforce else ModeShadow)"

text \<open>\<open>tally\<close> counts; \<open>None\<close> is a query that failed.\<close>

definition used_of :: "(string \<Rightarrow> int option) \<Rightarrow> string \<Rightarrow> int option" where
  "used_of tally key = (if key \<in> {KeyMaxUsers, KeyMaxSKUs, KeyMaxWarehouses} then tally key else None)"

text \<open>The addition of \<open>int64\<close>.\<close>

definition add64 :: "int \<Rightarrow> int \<Rightarrow> int" where
  "add64 a b = (a + b + 2 ^ 63) mod 2 ^ 64 - 2 ^ 63"

definition Check ::
  "mode \<Rightarrow> gotime \<Rightarrow> account_answer \<Rightarrow> (int \<Rightarrow> platform_answer) \<Rightarrow> (string \<Rightarrow> int option) \<Rightarrow> uuid \<Rightarrow> string \<Rightarrow> int
     \<Rightarrow> (uuid, limitEntry) map \<Rightarrow> (ent_err + unit) \<times> (uuid, limitEntry) map" where
  "Check m t acc platform tally tenant key delta cache =
     (if m = ModeOff \<or> delta \<le> 0 then (Inr (), cache)
      else case Limit t acc platform tenant key cache of
             (Inl _, cache') \<Rightarrow> (Inr (), cache')
           | (Inr limit, cache') \<Rightarrow>
               if limit < 0 then (Inr (), cache')
               else (case used_of tally key of
                       None \<Rightarrow> (Inr (), cache')
                     | Some used \<Rightarrow>
                         if add64 used delta \<le> limit then (Inr (), cache')
                         else if m = ModeEnforce then (Inl (ErrPlanLimitReached key used limit), cache')
                         else (Inr (), cache')))"

record LimitStatus =
  ls_Limit :: int
  ls_Used :: int
  ls_Enforced :: bool

type_synonym status_cache = "(uuid, (string \<times> LimitStatus) list \<times> gotime) map"

fun status_rows ::
  "mode \<Rightarrow> gotime \<Rightarrow> account_answer \<Rightarrow> (int \<Rightarrow> platform_answer) \<Rightarrow> (string \<Rightarrow> int option) \<Rightarrow> uuid \<Rightarrow> string list
     \<Rightarrow> (uuid, limitEntry) map \<Rightarrow> (string \<times> LimitStatus) list \<times> (uuid, limitEntry) map" where
  "status_rows m t acc platform tally tenant [] cache = ([], cache)"
| "status_rows m t acc platform tally tenant (key # keys) cache =
     (let (l, cache1) = Limit t acc platform tenant key cache;
          st = \<lparr> ls_Limit = (case l of Inl _ \<Rightarrow> Unlimited | Inr n \<Rightarrow> n), ls_Used = (case used_of tally key of None \<Rightarrow> 0 | Some u \<Rightarrow> u),
                 ls_Enforced = (m = ModeEnforce) \<rparr>;
          (rows, cache2) = status_rows m t acc platform tally tenant keys cache1
      in ((key, st) # rows, cache2))"

definition Status ::
  "mode \<Rightarrow> gotime \<Rightarrow> account_answer \<Rightarrow> (int \<Rightarrow> platform_answer) \<Rightarrow> (string \<Rightarrow> int option) \<Rightarrow> uuid
     \<Rightarrow> status_cache \<times> (uuid, limitEntry) map \<Rightarrow> (string \<times> LimitStatus) list \<times> status_cache \<times> (uuid, limitEntry) map" where
  "Status m t acc platform tally tenant c =
     (let (sc, cache) = c;
          fetch = (\<lambda>u :: unit. let (rows, cache') = status_rows m t acc platform tally tenant [KeyMaxUsers, KeyMaxSKUs, KeyMaxWarehouses] cache
                   in (rows, sc(tenant \<mapsto> (rows, t)), cache'))
      in case sc tenant of
           Some (rows, at') \<Rightarrow> if t - at' < statusTTL then (rows, sc, cache) else fetch ()
         | None \<Rightarrow> fetch ())"

section \<open>When a creation is refused\<close>

text \<open>The limits as of some moment: what a cache entry of that time would hold.\<close>

definition plan_at :: "account_answer \<Rightarrow> (int \<Rightarrow> platform_answer) \<Rightarrow> (string, int) map option" where
  "plan_at acc platform =
     (case acc of AccountError \<Rightarrow> None | NoAccount \<Rightarrow> Some (plan_limits None)
      | Account a \<Rightarrow> (case platform a of Entitled m \<Rightarrow> Some (plan_limits (Some m)) | _ \<Rightarrow> None))"

text \<open>A history of calls: who was asked when, and what the directory and the platform answered then.\<close>

inductive limit_calls :: "(gotime \<times> uuid \<times> (string, int) map) list \<Rightarrow> gotime \<Rightarrow> (uuid, limitEntry) map \<Rightarrow> bool" where
  fresh: "limit_calls [] t Map.empty"
| asked: "limit_calls h t cache \<Longrightarrow> t \<le> t' \<Longrightarrow> snd (Limit t' acc platform tenant key cache) = cache'
    \<Longrightarrow> h' = (case plan_at acc platform of None \<Rightarrow> h | Some vals \<Rightarrow> (t', tenant, vals) # h) \<Longrightarrow> limit_calls h' t' cache'"

lemma Limit_cache:
  "snd (Limit t acc platform tenant key cache) = cache
   \<or> (\<exists>vals. plan_at acc platform = Some vals \<and> snd (Limit t acc platform tenant key cache) = cache(tenant \<mapsto> \<lparr> le_vals = vals, le_at = t \<rparr>))"
  by (auto simp: Limit_def Let_def plan_at_def split: account_answer.split platform_answer.split option.split)

lemma cache_from_history:
  assumes "limit_calls h t cache" "cache tenant = Some e"
  shows "le_at e \<le> t \<and> (le_at e, tenant, le_vals e) \<in> set h"
  using assms
proof (induction arbitrary: e tenant)
  case (asked h t cache t' acc platform who key cache' h')
  have sub: "set h \<subseteq> set h'" using asked.hyps(4) by (auto split: option.split)
  from Limit_cache [of t' acc platform who key cache] consider "cache' = cache"
    | vals where "plan_at acc platform = Some vals" "cache' = cache(who \<mapsto> \<lparr> le_vals = vals, le_at = t' \<rparr>)"
    using asked.hyps(3) by auto
  then show ?case
  proof cases
    case 1
    then show ?thesis using asked.IH asked.prems asked.hyps(2) sub by fastforce
  next
    case 2
    then show ?thesis using asked.IH asked.prems asked.hyps(2,4) sub by (cases "tenant = who") fastforce+
  qed
qed simp

text \<open>The limit a call goes by: the cached one while it is fresh, else the one read now.\<close>

definition applied :: "gotime \<Rightarrow> account_answer \<Rightarrow> (int \<Rightarrow> platform_answer) \<Rightarrow> uuid \<Rightarrow> (uuid, limitEntry) map \<Rightarrow> (string, int) map option" where
  "applied t acc platform tenant cache =
     (case cache tenant of
        Some e \<Rightarrow> if t - le_at e < limitCacheTTL then Some (le_vals e) else plan_at acc platform
      | None \<Rightarrow> plan_at acc platform)"

lemma Limit_applied:
  assumes "tenant \<noteq> uuid_Nil" "key \<in> fst ` set limitKeys"
  shows "fst (Limit t acc platform tenant key cache) = Inr (case applied t acc platform tenant cache of
      None \<Rightarrow> Unlimited | Some vals \<Rightarrow> (case vals key of None \<Rightarrow> 0 | Some n \<Rightarrow> n))"
  using assms by (auto simp: Limit_def Let_def applied_def plan_at_def cached_limit_def split: option.split account_answer.split platform_answer.split)

lemma managed_keys: "fst ` set limitKeys = {KeyMaxUsers, KeyMaxSKUs, KeyMaxWarehouses}"
  by (auto simp: limitKeys_def)

lemma Check_result:
  "fst (Check m t acc platform tally tenant key delta cache) =
     (if m = ModeOff \<or> delta \<le> 0 then Inr ()
      else case fst (Limit t acc platform tenant key cache) of
             Inl _ \<Rightarrow> Inr ()
           | Inr limit \<Rightarrow>
               if limit < 0 then Inr ()
               else (case used_of tally key of
                       None \<Rightarrow> Inr ()
                     | Some used \<Rightarrow> if add64 used delta \<le> limit then Inr ()
                         else if m = ModeEnforce then Inl (ErrPlanLimitReached key used limit) else Inr ()))"
  by (auto simp: Check_def split: sum.split prod.split option.split)

text \<open>
  C35: a creation is refused only by the plan.  A check refuses exactly when limits are enforced, the count is known and
  with the new objects exceeds the limit that applies; a limit that applies was read from the platform
  now or for the same tenant within the last minute.  Failures of the platform, the directory or
  the count never refuse.
\<close>

theorem plan_limit_enforced:
  assumes hist: "limit_calls h t0 cache" and later: "t0 \<le> t"
  shows "(fst (Check m t acc platform tally tenant key delta cache) = Inl e \<longleftrightarrow>
     (\<exists>vals used. applied t acc platform tenant cache = Some vals \<and> used_of tally key = Some used \<and> m = ModeEnforce \<and> 0 < delta
        \<and> tenant \<noteq> uuid_Nil \<and> (let limit = (case vals key of None \<Rightarrow> 0 | Some n \<Rightarrow> n) in 0 \<le> limit \<and> limit < add64 used delta
           \<and> e = ErrPlanLimitReached key used limit)))
    \<and> (\<forall>vals. applied t acc platform tenant cache = Some vals \<longrightarrow> plan_at acc platform = Some vals
       \<or> (\<exists>at'. at' \<le> t \<and> t - at' < limitCacheTTL \<and> (at', tenant, vals) \<in> set h))"
proof
  show "\<forall>vals. applied t acc platform tenant cache = Some vals \<longrightarrow> plan_at acc platform = Some vals
       \<or> (\<exists>at'. at' \<le> t \<and> t - at' < limitCacheTTL \<and> (at', tenant, vals) \<in> set h)"
    using cache_from_history [OF hist, of tenant] later by (fastforce simp: applied_def split: option.splits if_splits)
  show "fst (Check m t acc platform tally tenant key delta cache) = Inl e \<longleftrightarrow>
     (\<exists>vals used. applied t acc platform tenant cache = Some vals \<and> used_of tally key = Some used \<and> m = ModeEnforce \<and> 0 < delta
        \<and> tenant \<noteq> uuid_Nil \<and> (let limit = (case vals key of None \<Rightarrow> 0 | Some n \<Rightarrow> n) in 0 \<le> limit \<and> limit < add64 used delta
           \<and> e = ErrPlanLimitReached key used limit))"
  proof (cases "tenant \<noteq> uuid_Nil \<and> key \<in> fst ` set limitKeys")
    case True
    note lim = Limit_applied [OF True [THEN conjunct1] True [THEN conjunct2], of t acc platform cache]
    show ?thesis
      unfolding Check_result lim using True
      by (cases "applied t acc platform tenant cache"; cases "used_of tally key") (auto simp: Let_def Unlimited_def)
  next
    case False
    have "fst (Limit t acc platform tenant key cache) \<in> {Inl EntUnauthenticated, Inr Unlimited}"
      using False by (cases "tenant = uuid_Nil") (simp_all add: Limit_def)
    moreover have "tenant = uuid_Nil \<or> used_of tally key = None" using False by (auto simp: used_of_def managed_keys)
    ultimately show ?thesis unfolding Check_result by (auto simp: Unlimited_def)
  qed
qed

text \<open>A shop with three products and a plan for three.\<close>

definition demo_plan :: "int \<Rightarrow> platform_answer" where
  "demo_plan a = Entitled [''skus'' \<mapsto> '' 3'']"

theorem plan_limit_enforced_witness:
  "fst (Check ModeEnforce (seconds 100) (Account 7) demo_plan (\<lambda>_. Some 3) 11 KeyMaxSKUs 1 Map.empty) = Inl (ErrPlanLimitReached KeyMaxSKUs 3 3)"
proof -
  have "plan_limits (Some [''skus'' \<mapsto> '' 3'']) KeyMaxSKUs = Some 3" by code_simp
  then have "applied (seconds 100) (Account 7) demo_plan 11 Map.empty = Some (plan_limits (Some [''skus'' \<mapsto> '' 3'']))"
    by (simp add: applied_def plan_at_def demo_plan_def)
  then show ?thesis
    using plan_limit_enforced [OF fresh [of 0], of "seconds 100" ModeEnforce "Account 7" demo_plan "\<lambda>_. Some 3" 11 KeyMaxSKUs 1]
      \<open>plan_limits (Some [''skus'' \<mapsto> '' 3'']) KeyMaxSKUs = Some 3\<close>
    by (auto simp: used_of_def add64_def Let_def)
qed

end
