(* ===== verification/Spec2Isabelle.thy ===== *)
theory Spec2Isabelle
  imports Adjust Return_Origin Bill_Lifecycle Team_Safety Order_File Invoice_Safety
    Idempotency_Safety Outbox Receivables Replenish Entitlement
begin

text \<open>
  This library models the core of a back end for shops (Go, under \<open>src/internal\<close>): the stock ledger
  with its two cost methods, bills with their drafts, approvals, returns and payments, the import
  of orders from e-commerce platforms, and who may do what in a shop.  It states what makes these
  parts correct and proves it of the definitions, which follow the code function by function.

  \<^bold>\<open>How the program is put together.\<close>  The packages \<open>domain/*\<close> hold the data and pure rules,
  \<open>app/*\<close> the use cases, \<open>adapter/repo/*\<close> the SQL behind the interfaces the use cases declare, and
  \<open>adapter/handler\<close>, \<open>adapter/middleware\<close> and \<open>lifecycle\<close> the HTTP surface and the wiring.  A use case
  of \<open>app/bill\<close> opens a transaction, locks the bill, writes bill, lines and links through \<open>adapter/repo/bill\<close>,
  and has every stock movement recorded by \<open>app/stock\<close> in the same transaction; payments are booked by
  the same use case or by \<open>app/payment\<close>.  The importer calls the bill use cases through adapters, one
  transaction each, and keeps tables of its own to recognise what it has seen.  The team service
  stands between the shop's rows and an organization service outside the program.

  \<^bold>\<open>How state and effects are modelled.\<close>  The database is the record \<open>db\<close> of \<open>Store\<close>: one list of rows
  per table, in insertion order, with the columns the code reads or writes.  An operation inside a
  transaction is a function \<open>db \<Rightarrow> err + ('a \<times> db)\<close> (type \<open>op\<close> in \<open>Prelude\<close>, with \<open>bindE\<close>); \<open>runTx\<close> runs one and
  restores the state when it fails.  A use case of several transactions is a \<open>program\<close> (\<open>Programs\<close>),
  which keeps what earlier transactions committed when a later one fails.  Row locks appear as the reads they are: the model runs one
  transaction at a time, as the locks (\<open>FOR UPDATE\<close>, unique keys) make the code behave.  Histories
  put operations in any order, but each use case runs to its end before the next one starts; so what overlapping
  use cases of several transactions without a lock can do (two deliveries of one imported order, above
  all) is outside the model.  Where a read before the transaction may be out of date (the till, receipts), that older state is an argument of
  its own.  Requests under one key and replicas of the event relay do interleave, step by step.
  Errors are the datatype \<open>err\<close> (\<open>team_err\<close> for the team), one constructor per sentinel; \<open>ErrMsg\<close> carries
  the text of the others, without the values printed into it.

  Amounts are exact rationals, rounded where the code rounds: \<open>numeric\<close> for columns of PostgreSQL
  and \<open>ddiv\<close>, \<open>dround\<close> for the decimal library.  These, UUIDs, their textual form and the clock are not
  under \<open>src\<close>; they are the fields of \<open>env\<close>, and the locale \<open>runtime\<close> says what is relied on (a rounding
  is a nearest number of the grid, UUIDs do not repeat and their text is read back).  The locale is
  interpreted at \<open>std_env\<close>, on which the witnesses run.
\<close>

text \<open>
  \<^bold>\<open>Theories, code and results.\<close>

  \<^item> \<open>Prelude\<close>, \<open>Runtime\<close>, \<open>Store\<close>, \<open>Programs\<close>, \<open>Go_Text\<close>, \<open>Go_Csv\<close>: operations and their calculus
    (\<open>preserves\<close>, \<open>untouched\<close>, \<open>stays\<close>, the inversion rules \<open>bindE_Inr\<close> and so on), the decimal grid, the tables, and the parts
    of Go's library the code uses.
  \<^item> \<open>Stock_Repo\<close> (\<open>adapter/repo/stock\<close>), \<open>Calculator\<close>, \<open>Calc_WAC\<close>, \<open>Calc_FIFO\<close> (\<open>app/stock/calc_*.go\<close>),
    \<open>Record_Movement\<close> (\<open>usecase.go\<close>), \<open>Adjust\<close> (\<open>adjust.go\<close>): snapshots, movements, lots and the outbox.
    The contract of a cost method is the locale \<open>cost_calculator\<close>, interpreted at both methods; a movement is
    atomic with its event, the book is the sum of the ledger, it never goes negative unless allowed, the average
    preserves value up to rounding, lots agree with the book and leave oldest first.
  \<^item> \<open>Bill_Domain\<close>, \<open>Bill_Repo\<close>, \<open>Bill_Drafts\<close>, \<open>Bill_Approval\<close>, \<open>Quick_Checkout\<close> (\<open>domain/bill\<close>, \<open>app/bill\<close>,
    \<open>adapter/repo/bill\<close>): numbers, drafts, approval of purchases and sales, the till.  An approval moves
    exactly what the lines say, once, and a till request is booked at most once under its reference.
  \<^item> \<open>Return_Repo\<close>, \<open>Returns\<close>, \<open>Return_Origin\<close>, \<open>Sale_Return\<close>, \<open>Purchase_Return\<close>: returns from customers and to
    suppliers, refunds and the pointers from a return to its sale.  Nothing is returned or refunded twice
    along a link, and the pointer written into a remark is the pointer read from it.
  \<^item> \<open>Payments\<close> (\<open>app/payment\<close>, \<open>adapter/repo/payment\<close>): payments on a bill, receipts spread over open bills.
  \<^item> \<open>Bill_Views\<close>, \<open>Bill_Lifecycle\<close>: all use cases together as one step relation \<open>bill_activity\<close>, refined to the
    abstract machine \<open>life\<close> of a bill.
  \<^item> \<open>Currency\<close>, \<open>Import_Repo\<close>, \<open>Order_Import\<close>, \<open>Import_Safety\<close>, \<open>Order_File\<close> (\<open>app/importing\<close>, \<open>adapter/repo/importing\<close>,
    \<open>app/currency\<close>): orders, cancellations and refunds of a platform, one by one or from a file.  Handled one after the other, an order is
    booked once, a cancellation is final, whatever deduplication rows are lost; a file is read completely.
  \<^item> \<open>Access\<close> (\<open>domain/team\<close>, \<open>domain/permission\<close>, \<open>adapter/middleware/permission.go\<close>), \<open>Team\<close>, \<open>Dev_Org\<close>, \<open>Team_Safety\<close>
    (\<open>app/team\<close>, \<open>adapter/repo/team\<close>, \<open>adapter/platform/org_dev*.go\<close>): roles, permissions, gates, the team.
    Gated routes need the permission, cost fields do not leak, nobody gains through the team use cases what
    the caller lacks, owners keep their shop, and a changed role takes effect at once.
  \<^item> \<open>Sale_Returns\<close>, \<open>Invoice\<close>, \<open>Invoice_Safety\<close> (\<open>domain/invoice\<close>, \<open>app/invoice\<close>, \<open>adapter/repo/invoice\<close>, the query fragment
    of \<open>adapter/repo/bill/receivables.go\<close>): the registry of invoices.  Its state \<open>registry\<close> is the shop's database with two more
    tables.  Invoices stay within what their bills have left, numbers do not repeat, struck invoices net to zero.
  \<^item> \<open>Receivables\<close> (\<open>adapter/repo/bill/receivables.go\<close>): the outstanding bills of each customer, aged.  Every
    amount owed falls into one bucket and the rows add up.
  \<^item> \<open>Replenish\<close> (\<open>app/replenish\<close>): what to order again, and one purchase draft for each supplier chosen.
    No line of a batch is lost or sent to another supplier.
  \<^item> \<open>Entitlement\<close> (\<open>app/entitlement\<close>): the limits of a plan, with Go's 64-bit arithmetic.
  \<^item> \<open>Idempotency\<close>, \<open>Idempotency_Safety\<close> (\<open>adapter/middleware/idempotency*.go\<close>): requests that carry a key, as clients whose
    steps interleave over one store.  A replayed answer was given to the same body, a stored answer stays,
    and while nothing expires one handler runs for a key.
  \<^item> \<open>Outbox\<close> (\<open>adapter/nats/outbox_worker.go\<close>, \<open>adapter/repo/event_outbox\<close>): the relay of events, several replicas between
    crashes and failures.  With a connected publisher no event is marked
    published that was not, and a lone relay whose calls succeed clears the backlog.
\<close>

text \<open>
  \<^bold>\<open>Bounds and loops.\<close>  No definition runs on fuel.  The loops of the code go over lists and are structural
  recursions, but for the loop over the records of an order file, which is the \<open>partial_function\<close> \<open>read_rows\<close>:
  \<open>file_import_returns\<close> proves that it ends for every file.  Quantities and amounts have no width in the code (arbitrary
  decimals); columns round, and \<open>fitsNumeric\<close> is modelled where the code tests a width itself.  The limits the code sets (200 links,
  64, 32 and 500 characters, 20 to 200 rows of a page, 60 seconds and 20000 entries of the role cache) are those of the source.

  \<^bold>\<open>Not modelled\<close>, within the parts above: foreign keys, column widths and numeric overflow (the database refuses with an error),
  advisory locks, the rounding of time stamps to microseconds and digests (SHA-256 is a parameter), collations (parameters where an order depends on them), the texts
  of most error messages, context cancellation, logging, metrics and failures of the connection.  \<open>ToUpper\<close> and \<open>ToLower\<close>
  act on ASCII letters.  The probe for real data in a shop is a parameter.

  Components that are left out: the HTTP handlers, routers and most middlewares (decoding and rendering), \<open>lifecycle\<close> (wiring and workers),
  \<open>app/ai\<close> and its adapters (a language model decides), \<open>cmd\<close> (programs over the same use cases), the connection to NATS, the platform clients and
  notification channels (services outside the program), printing and export (rendering), the plain maintenance of
  customers, suppliers, warehouses, units, projects and plants (one statement each), reports, search, digests and
  dashboards (read-only SQL), and accounts, onboarding and usage reports.
\<close>

end
